(* ===== verification/Go_Prelude.thy ===== *)
theory Go_Prelude
  imports Main "HOL-Library.Char_ord" "HOL-Library.List_Lexorder" "HOL-Library.Sublist"
begin

text \<open>
  Shared vocabulary of the development: Go byte strings, the functions of the Go standard
  library packages \<open>strings\<close> and \<open>strconv\<close> that the agent calls, the result type
  of fallible functions, and the generic list lemmas the components share.

  A Go \<open>string\<close> and a Go \<open>[]byte\<close> are both sequences of bytes; a \<^typ>\<open>char\<close> is one
  byte, so both are \<^typ>\<open>char list\<close>. The order on them (\<open>bytes.Compare\<close>) is the
  lexicographic order of byte values, which the library theories \<open>Char_ord\<close> and
  \<open>List_Lexorder\<close> provide.
\<close>

section \<open>Types and collections\<close>

type_synonym bytes = "char list"

text \<open>A \<open>time.Duration\<close> is a number of nanoseconds; so is an instant, which is 0 for Go's zero time.\<close>

type_synonym duration = int
type_synonym instant = int

definition millisecond :: duration where "millisecond = 1000000"
definition second :: duration where "second = 1000000000"
definition minute :: duration where "minute = 60 * second"

text \<open>The value of a byte.\<close>

abbreviation ord :: "char \<Rightarrow> nat" where
  "ord c \<equiv> of_char c"

text \<open>Facts that turn "the call returned this result" into what its steps returned.\<close>

named_theorems result_iff

text \<open>The definitions of the string library, to evaluate concrete inputs.\<close>

named_theorems go_eval

section \<open>Results of fallible functions\<close>

text \<open>
  A Go function with results \<open>(T, error)\<close> returns \<open>Inl e\<close> for a non-nil error and
  \<open>Inr v\<close> otherwise. \<open>result_bind\<close> is the \<open>if err != nil { return ... }\<close> idiom.
\<close>

type_synonym ('e, 'a) result = "'e + 'a"

definition result_bind :: "('e, 'a) result \<Rightarrow> ('a \<Rightarrow> ('e, 'b) result) \<Rightarrow> ('e, 'b) result" where
  "result_bind r f = (case r of Inl e \<Rightarrow> Inl e | Inr x \<Rightarrow> f x)"

definition of_option :: "'e \<Rightarrow> 'a option \<Rightarrow> ('e, 'a) result" where
  "of_option e x = (case x of None \<Rightarrow> Inl e | Some v \<Rightarrow> Inr v)"

definition map_error :: "('e \<Rightarrow> 'f) \<Rightarrow> ('e, 'a) result \<Rightarrow> ('f, 'a) result" where
  "map_error f r = (case r of Inl e \<Rightarrow> Inl (f e) | Inr x \<Rightarrow> Inr x)"

lemma result_bind_simps [simp]:
  "result_bind (Inl e) f = Inl e"
  "result_bind (Inr x) f = f x"
  by (simp_all add: result_bind_def)

lemma of_option_simps [simp]:
  "of_option e None = Inl e"
  "of_option e (Some v) = Inr v"
  by (simp_all add: of_option_def)

lemma projr_ok: "\<not> isl r \<Longrightarrow> r = Inr (projr r)"
  by (cases r) simp_all

lemma map_error_simps [simp]:
  "map_error f (Inl e) = Inl (f e)"
  "map_error f (Inr x) = Inr x"
  by (simp_all add: map_error_def)

lemma result_bind_Inr_iff [result_iff]:
  "result_bind r f = Inr y \<longleftrightarrow> (\<exists>x. r = Inr x \<and> f x = Inr y)"
  by (cases r) auto

lemma of_option_Inr_iff [result_iff]: "of_option e x = Inr y \<longleftrightarrow> x = Some y"
  by (cases x) auto

lemma map_error_Inr_iff [result_iff]: "map_error f r = Inr y \<longleftrightarrow> r = Inr y"
  by (cases r) auto

section \<open>Slices\<close>

text \<open>
  \<open>copy(dst, src)\<close> overwrites a prefix of \<open>dst\<close> and returns how many elements it
  copied; \<open>last_n\<close> is the suffix of at most \<open>n\<close> elements.
\<close>

definition copy_into :: "'a list \<Rightarrow> 'a list \<Rightarrow> 'a list" where
  "copy_into dst src = take (length dst) src @ drop (length src) dst"

definition copy_count :: "'a list \<Rightarrow> 'a list \<Rightarrow> nat" where
  "copy_count dst src = min (length dst) (length src)"

definition last_n :: "nat \<Rightarrow> 'a list \<Rightarrow> 'a list" where
  "last_n n xs = drop (length xs - n) xs"

lemma length_copy_into [simp]: "length (copy_into dst src) = length dst"
  by (simp add: copy_into_def)

lemma length_last_n [simp]: "length (last_n n xs) = min n (length xs)"
  by (auto simp: last_n_def add.commute)

lemma last_n_all [simp]: "length xs \<le> n \<Longrightarrow> last_n n xs = xs"
  by (simp add: last_n_def)

lemma last_n_append: "last_n n (last_n n xs @ ys) = last_n n (xs @ ys)"
  by (cases "length xs \<le> n") (auto simp: last_n_def add.commute)

lemma last_n_snoc_full: "length xs = n \<Longrightarrow> 0 < n \<Longrightarrow> last_n n (xs @ [x]) = tl xs @ [x]"
  by (cases xs) (auto simp: last_n_def add.commute)

section \<open>Package strings\<close>

text \<open>
  \<open>strings.Split(s, sep)\<close> for a one-byte separator. It never returns an empty slice:
  \<open>Split("", ",")\<close> is \<open>[""]\<close>.
\<close>

fun split_on :: "char \<Rightarrow> bytes \<Rightarrow> bytes list" where
  "split_on c [] = [[]]"
| "split_on c (x # xs) =
     (if x = c then [] # split_on c xs
      else (case split_on c xs of [] \<Rightarrow> [[x]] | p # ps \<Rightarrow> (x # p) # ps))"

text \<open>\<open>strings.Join(parts, sep)\<close> for a one-byte separator.\<close>

fun join_with :: "char \<Rightarrow> bytes list \<Rightarrow> bytes" where
  "join_with c [] = []"
| "join_with c [p] = p"
| "join_with c (p # ps) = p @ c # join_with c ps"

lemma split_on_nonempty [simp]: "split_on c s \<noteq> []"
  by (induction s) (auto split: list.splits)

lemma join_with_Cons: "ps \<noteq> [] \<Longrightarrow> join_with c (p # ps) = p @ c # join_with c ps"
  by (cases ps) auto

lemma join_with_extend: "join_with c ((x # p) # ps) = x # join_with c (p # ps)"
  by (cases ps) auto

lemma join_split_on: "join_with c (split_on c s) = s"
proof (induction s)
  case Nil
  then show ?case by simp
next
  case (Cons x xs)
  then show ?case
    by (cases "split_on c xs") (auto simp: join_with_Cons join_with_extend)
qed

lemma split_on_parts: "p \<in> set (split_on c s) \<Longrightarrow> c \<notin> set p"
  by (induction s arbitrary: p) (fastforce split: list.splits if_splits)+

lemma split_on_single: "c \<notin> set s \<Longrightarrow> split_on c s = [s]"
  by (induction s) auto

lemma split_on_append: "c \<notin> set p \<Longrightarrow> split_on c (p @ c # s) = p # split_on c s"
  by (induction p) auto

lemma split_on_append_all: "split_on c (p @ c # t) = split_on c p @ split_on c t"
  by (induction p) (auto split: list.splits)

lemma split_join:
  assumes "ps \<noteq> []" and "\<And>p. p \<in> set ps \<Longrightarrow> c \<notin> set p"
  shows "split_on c (join_with c ps) = ps"
  using assms
proof (induction c ps rule: join_with.induct)
  case (1 c)
  then show ?case by simp
next
  case (2 c p)
  then show ?case by (simp add: split_on_single)
next
  case (3 c p q ps)
  then show ?case by (simp add: split_on_append)
qed

lemma length_split_on: "length (split_on c s) = Suc (count_list s c)"
proof (induction s)
  case Nil
  then show ?case by simp
next
  case (Cons x xs)
  then show ?case by (cases "split_on c xs") auto
qed

text \<open>\<open>strings.HasPrefix\<close>, \<open>strings.TrimPrefix\<close> and \<open>strings.Contains\<close> with a one-byte needle.\<close>

definition has_prefix :: "bytes \<Rightarrow> bytes \<Rightarrow> bool" where
  "has_prefix s p = (take (length p) s = p)"

definition trim_prefix :: "bytes \<Rightarrow> bytes \<Rightarrow> bytes" where
  "trim_prefix s p = (if has_prefix s p then drop (length p) s else s)"

definition contains_char :: "char \<Rightarrow> bytes \<Rightarrow> bool" where
  "contains_char c s = (c \<in> set s)"

definition has_suffix :: "bytes \<Rightarrow> bytes \<Rightarrow> bool" where
  "has_suffix s p = (length p \<le> length s \<and> drop (length s - length p) s = p)"

definition trim_suffix :: "bytes \<Rightarrow> bytes \<Rightarrow> bytes" where
  "trim_suffix s p = (if has_suffix s p then take (length s - length p) s else s)"

text \<open>\<open>strings.Replace(s, old, new, 1)\<close>.\<close>

fun replace_first :: "bytes \<Rightarrow> bytes \<Rightarrow> bytes \<Rightarrow> bytes" where
  "replace_first old new [] = (if old = [] then new else [])"
| "replace_first old new (c # s) =
     (if has_prefix (c # s) old then new @ drop (length old) (c # s) else c # replace_first old new s)"

lemma has_prefix_iff: "has_prefix s p \<longleftrightarrow> (\<exists>t. s = p @ t)"
proof
  assume "has_prefix s p"
  then have "s = p @ drop (length p) s"
    by (metis append_take_drop_id has_prefix_def)
  then show "\<exists>t. s = p @ t" ..
qed (auto simp: has_prefix_def)

lemma has_prefix_append [simp]: "has_prefix (p @ s) p"
  by (simp add: has_prefix_def)

lemma trim_prefix_append [simp]: "trim_prefix (p @ s) p = s"
  by (simp add: trim_prefix_def)

text \<open>
  \<open>strings.TrimSpace\<close> removes leading and trailing Unicode white space. The white-space
  code points of \<open>unicode.IsSpace\<close> are the six ASCII ones and those whose UTF-8 encodings
  are listed in \<open>wide_spaces\<close>. Neither a leading byte of such an encoding nor an ASCII
  byte occurs inside another well-formed encoding, so looking for the encodings byte by
  byte finds exactly the white-space code points, also next to ill-formed input.
\<close>

definition byte :: "nat \<Rightarrow> char" where
  "byte n = char_of n"

definition is_ascii_space :: "char \<Rightarrow> bool" where
  "is_ascii_space c = (of_char c \<in> {9, 10, 11, 12, 13, 32 :: nat})"

definition wide_spaces :: "bytes list" where
  "wide_spaces =
     map (map byte)
       ([[194, 133], [194, 160], [225, 154, 128], [226, 128, 168], [226, 128, 169],
         [226, 128, 175], [226, 129, 159], [227, 128, 128]]
        @ map (\<lambda>n. [226, 128, n]) [128..<139])"

text \<open>Literal forms of both, for evaluation.\<close>

lemma is_ascii_space_code [code]:
  "is_ascii_space c \<longleftrightarrow>
     c = CHR 0x20 \<or> c = CHR 0x09 \<or> c = CHR 0x0A \<or> c = CHR 0x0B \<or> c = CHR 0x0C \<or> c = CHR 0x0D"
proof -
  have "c = CHR 0x20 \<longleftrightarrow> of_char c = (32 :: nat)" "c = CHR 0x09 \<longleftrightarrow> of_char c = (9 :: nat)"
    "c = CHR 0x0A \<longleftrightarrow> of_char c = (10 :: nat)" "c = CHR 0x0B \<longleftrightarrow> of_char c = (11 :: nat)"
    "c = CHR 0x0C \<longleftrightarrow> of_char c = (12 :: nat)" "c = CHR 0x0D \<longleftrightarrow> of_char c = (13 :: nat)"
    unfolding of_char_eq_iff [where ?'a = nat, symmetric] by simp_all
  then show ?thesis by (auto simp: is_ascii_space_def)
qed

lemma wide_spaces_code [code]:
  "wide_spaces =
     [[CHR 0xC2, CHR 0x85],
      [CHR 0xC2, CHR 0xA0],
      [CHR 0xE1, CHR 0x9A, CHR 0x80],
      [CHR 0xE2, CHR 0x80, CHR 0xA8],
      [CHR 0xE2, CHR 0x80, CHR 0xA9],
      [CHR 0xE2, CHR 0x80, CHR 0xAF],
      [CHR 0xE2, CHR 0x81, CHR 0x9F],
      [CHR 0xE3, CHR 0x80, CHR 0x80],
      [CHR 0xE2, CHR 0x80, CHR 0x80],
      [CHR 0xE2, CHR 0x80, CHR 0x81],
      [CHR 0xE2, CHR 0x80, CHR 0x82],
      [CHR 0xE2, CHR 0x80, CHR 0x83],
      [CHR 0xE2, CHR 0x80, CHR 0x84],
      [CHR 0xE2, CHR 0x80, CHR 0x85],
      [CHR 0xE2, CHR 0x80, CHR 0x86],
      [CHR 0xE2, CHR 0x80, CHR 0x87],
      [CHR 0xE2, CHR 0x80, CHR 0x88],
      [CHR 0xE2, CHR 0x80, CHR 0x89],
      [CHR 0xE2, CHR 0x80, CHR 0x8A]]"
  by code_simp

fun first_prefix :: "bytes list \<Rightarrow> bytes \<Rightarrow> bytes option" where
  "first_prefix [] s = None"
| "first_prefix (p # ps) s =
     (if p \<noteq> [] \<and> has_prefix s p then Some (drop (length p) s) else first_prefix ps s)"

text \<open>Remove one leading white-space code point; the list of encodings is a parameter so that
  the same scan serves the trailing side on the reversed string.\<close>

fun drop_space :: "bytes list \<Rightarrow> bytes \<Rightarrow> bytes option" where
  "drop_space wide [] = None"
| "drop_space wide (c # s) = (if is_ascii_space c then Some s else first_prefix wide (c # s))"

lemma first_prefix_shorter: "first_prefix ps s = Some t \<Longrightarrow> length t < length s"
proof (induction ps)
  case Nil
  then show ?case by simp
next
  case (Cons p ps)
  then show ?case
    by (cases "p \<noteq> [] \<and> has_prefix s p") (auto simp: has_prefix_iff)
qed

lemma drop_space_shorter: "drop_space wide s = Some t \<Longrightarrow> length t < length s"
  by (cases s) (auto split: if_splits dest: first_prefix_shorter)

function trim_spaces :: "bytes list \<Rightarrow> bytes \<Rightarrow> bytes" where
  "trim_spaces wide s =
     (case drop_space wide s of None \<Rightarrow> s | Some t \<Rightarrow> trim_spaces wide t)"
  by pat_completeness auto
termination
  by (relation "measure (\<lambda>(wide, s). length s)") (auto dest: drop_space_shorter)

declare trim_spaces.simps [simp del]

definition trim_left_space :: "bytes \<Rightarrow> bytes" where
  "trim_left_space s = trim_spaces wide_spaces s"

definition trim_right_space :: "bytes \<Rightarrow> bytes" where
  "trim_right_space s = rev (trim_spaces (map rev wide_spaces) (rev s))"

definition trim_space :: "bytes \<Rightarrow> bytes" where
  "trim_space s = trim_right_space (trim_left_space s)"

lemma drop_space_None_plain:
  assumes "s = [] \<or> (of_char (hd s) < (128::nat) \<and> \<not> is_ascii_space (hd s))"
    and "\<And>p. p \<in> set wide \<Longrightarrow> p \<noteq> [] \<and> of_char (hd p) \<ge> (128::nat)"
  shows "drop_space wide s = None"
proof (cases s)
  case (Cons c t)
  have "first_prefix wide (c # t) = None"
    using assms(2)
  proof (induction wide)
    case (Cons p ps)
    then have "p \<noteq> [] \<and> of_char (hd p) \<ge> (128::nat)" by simp
    then have "\<not> has_prefix (c # t) p"
      using assms(1) \<open>s = c # t\<close> by (cases p) (auto simp: has_prefix_def)
    with Cons show ?case by simp
  qed simp
  with Cons assms(1) show ?thesis by simp
qed simp

text \<open>Neither side changes a string whose end byte is a plain ASCII byte.\<close>

definition plain_char :: "char \<Rightarrow> bool" where
  "plain_char c = (of_char c < (128::nat) \<and> \<not> is_ascii_space c)"

lemma wide_spaces_hd: "p \<in> set wide_spaces \<Longrightarrow> p \<noteq> [] \<and> of_char (hd p) \<ge> (128::nat)"
  by (auto simp: wide_spaces_def byte_def)

lemma wide_spaces_rev_hd:
  "p \<in> set (map rev wide_spaces) \<Longrightarrow> p \<noteq> [] \<and> of_char (hd p) \<ge> (128::nat)"
  by (auto simp: wide_spaces_def byte_def)

lemma trim_left_space_plain: "s = [] \<or> plain_char (hd s) \<Longrightarrow> trim_left_space s = s"
  unfolding trim_left_space_def plain_char_def
  by (subst trim_spaces.simps) (simp add: drop_space_None_plain [OF _ wide_spaces_hd])

lemma trim_right_space_plain:
  assumes "s = [] \<or> plain_char (last s)"
  shows "trim_right_space s = s"
proof -
  have "drop_space (map rev wide_spaces) (rev s) = None"
    by (rule drop_space_None_plain [OF _ wide_spaces_rev_hd])
      (use assms in \<open>auto simp: plain_char_def hd_rev\<close>)
  then show ?thesis
    unfolding trim_right_space_def by (subst trim_spaces.simps) simp
qed

lemma trim_space_plain:
  "s = [] \<or> (plain_char (hd s) \<and> plain_char (last s)) \<Longrightarrow> trim_space s = s"
  unfolding trim_space_def by (auto simp: trim_left_space_plain trim_right_space_plain)

lemma trim_space_Nil [simp]: "trim_space [] = []"
  by (simp add: trim_space_plain)

text \<open>\<open>strings.Fields\<close>: the maximal runs without white space.\<close>

function fields_acc :: "bytes \<Rightarrow> bytes \<Rightarrow> bytes list" where
  "fields_acc acc [] = (if acc = [] then [] else [rev acc])"
| "fields_acc acc (c # s) =
     (case drop_space wide_spaces (c # s) of
        Some t \<Rightarrow> (if acc = [] then fields_acc [] t else rev acc # fields_acc [] t)
      | None \<Rightarrow> fields_acc (c # acc) s)"
  by pat_completeness auto
termination
proof (relation "measure (\<lambda>(acc, s). length s)", goal_cases)
  case 1
  show ?case by simp
qed (auto dest!: drop_space_shorter simp del: drop_space.simps)

definition str_fields :: "bytes \<Rightarrow> bytes list" where
  "str_fields s = fields_acc [] s"

section \<open>Package strconv\<close>

definition is_digit :: "char \<Rightarrow> bool" where
  "is_digit c = (48 \<le> (of_char c :: nat) \<and> (of_char c :: nat) \<le> 57)"

definition digit_val :: "char \<Rightarrow> nat" where
  "digit_val c = of_char c - 48"

definition digits_val :: "bytes \<Rightarrow> nat" where
  "digits_val s = foldl (\<lambda>n c. 10 * n + digit_val c) 0 s"

definition parse_digits :: "bytes \<Rightarrow> nat option" where
  "parse_digits s = (if s \<noteq> [] \<and> list_all is_digit s then Some (digits_val s) else None)"

text \<open>
  \<open>strconv.ParseInt(s, 10, bits)\<close>: an optional sign, then decimal digits, and the value in
  the two's complement range of the width. Every failure (syntax or range) is \<open>None\<close>: no
  caller tells the two apart. \<open>strconv.Atoi\<close> is the same at width 64.
\<close>

definition parse_int :: "nat \<Rightarrow> bytes \<Rightarrow> int option" where
  "parse_int bits s =
     (case s of
        [] \<Rightarrow> None
      | c # rest \<Rightarrow>
          (if c = CHR ''-''
           then (case parse_digits rest of
                   None \<Rightarrow> None
                 | Some n \<Rightarrow> if int n \<le> 2 ^ (bits - 1) then Some (- int n) else None)
           else (case parse_digits (if c = CHR ''+'' then rest else s) of
                   None \<Rightarrow> None
                 | Some n \<Rightarrow> if int n < 2 ^ (bits - 1) then Some (int n) else None)))"

definition atoi :: "bytes \<Rightarrow> int option" where
  "atoi s = parse_int 64 s"

text \<open>\<open>strconv.ParseUint(s, 10, bits)\<close>: no sign is accepted.\<close>

definition parse_uint :: "nat \<Rightarrow> bytes \<Rightarrow> nat option" where
  "parse_uint bits s =
     (case parse_digits s of
        None \<Rightarrow> None
      | Some n \<Rightarrow> if int n < 2 ^ bits then Some n else None)"

lemma int_le_power2: "n \<le> 2 ^ k \<Longrightarrow> int n \<le> 2 ^ k"
  by (metis of_nat_le_iff of_nat_numeral of_nat_power)

lemma int_less_power2: "n < 2 ^ k \<Longrightarrow> int n < 2 ^ k"
  by (metis of_nat_less_iff of_nat_numeral of_nat_power)

lemma int_between_power2: "- int m < 2 ^ k" "- (2 ^ k) \<le> int m"
proof -
  have "0 < (2::int) ^ k" by simp
  then show "- int m < 2 ^ k" "- (2 ^ k) \<le> int m" by linarith+
qed

lemma parse_int_range:
  "parse_int bits s = Some n \<Longrightarrow> - (2 ^ (bits - 1)) \<le> n \<and> n < 2 ^ (bits - 1)"
  by (auto simp: parse_int_def int_between_power2 int_le_power2 int_less_power2
      split: list.splits option.splits if_splits)

lemma nat_less_power2: "int n < 2 ^ k \<longleftrightarrow> n < 2 ^ k"
  by (metis of_nat_less_iff of_nat_numeral of_nat_power)

lemma parse_uint_range: "parse_uint bits s = Some n \<Longrightarrow> n < 2 ^ bits"
  by (auto simp: parse_uint_def nat_less_power2 split: option.splits if_splits)

subsection \<open>Decimal printing\<close>

text \<open>\<open>strconv.Itoa\<close> and the verb \<open>%d\<close>.\<close>

definition digit_char :: "nat \<Rightarrow> char" where
  "digit_char d = char_of (48 + d)"

fun show_nat :: "nat \<Rightarrow> bytes" where
  "show_nat n = (if n < 10 then [digit_char n] else show_nat (n div 10) @ [digit_char (n mod 10)])"

declare show_nat.simps [simp del]

definition show_int :: "int \<Rightarrow> bytes" where
  "show_int i = (if i < 0 then CHR ''-'' # show_nat (nat (- i)) else show_nat (nat i))"

lemma of_char_digit_char [simp]: "d < 10 \<Longrightarrow> of_char (digit_char d) = 48 + d"
  by (simp add: digit_char_def)

lemma digit_char_props: "d < 10 \<Longrightarrow> is_digit (digit_char d) \<and> digit_val (digit_char d) = d"
  by (simp add: is_digit_def digit_val_def)

lemma digits_val_snoc: "digits_val (s @ [c]) = 10 * digits_val s + digit_val c"
  by (simp add: digits_val_def)

lemma show_nat_digits: "show_nat n \<noteq> [] \<and> list_all is_digit (show_nat n) \<and> digits_val (show_nat n) = n"
proof (induction n rule: show_nat.induct)
  case (1 n)
  show ?case
  proof (cases "n < 10")
    case True
    then show ?thesis
      by (subst (1 2 3) show_nat.simps) (simp add: digit_char_props digits_val_def)
  next
    case False
    with 1 show ?thesis
      by (subst (1 2 3) show_nat.simps) (simp add: digit_char_props digits_val_snoc)
  qed
qed

lemma parse_digits_show_nat [simp]: "parse_digits (show_nat n) = Some n"
  by (simp add: parse_digits_def show_nat_digits)

lemma is_digit_neq: "is_digit c \<Longrightarrow> c \<noteq> CHR ''-'' \<and> c \<noteq> CHR ''+'' \<and> c \<noteq> CHR ''.''"
  by (auto simp: is_digit_def)

lemma show_nat_digit_set: "c \<in> set (show_nat n) \<Longrightarrow> is_digit c"
  using show_nat_digits [of n] by (auto simp: list_all_iff)

lemma parse_int_show_nat:
  assumes "n < 2 ^ (bits - 1)"
  shows "parse_int bits (show_nat n) = Some (int n)"
proof -
  obtain c rest where s: "show_nat n = c # rest"
    using show_nat_digits [of n] by (cases "show_nat n") auto
  then have "is_digit c" using show_nat_digit_set [of c n] by simp
  then have "c \<noteq> CHR ''-''" "c \<noteq> CHR ''+''" using is_digit_neq by auto
  then show ?thesis
    using assms parse_digits_show_nat [of n] by (simp add: parse_int_def s nat_less_power2)
qed

lemma parse_int_show_int:
  assumes "- (2 ^ (bits - 1)) \<le> i" and "i < 2 ^ (bits - 1)"
  shows "parse_int bits (show_int i) = Some i"
proof (cases "i < 0")
  case True
  then have "int (nat (- i)) \<le> 2 ^ (bits - 1)"
    using assms(1) by simp
  with True show ?thesis by (simp add: show_int_def parse_int_def)
next
  case False
  then have "nat i < 2 ^ (bits - 1)"
    using assms(2) by (simp add: nat_less_iff)
  with False show ?thesis by (simp add: show_int_def parse_int_show_nat)
qed

lemma atoi_show_nat: "n < 2 ^ 63 \<Longrightarrow> atoi (show_nat n) = Some (int n)"
  by (simp add: atoi_def parse_int_show_nat)

lemmas string_defs =
  has_prefix_def trim_prefix_def contains_char_def has_suffix_def trim_suffix_def
lemmas space_defs =
  trim_space_def trim_left_space_def trim_right_space_def wide_spaces_def byte_def
  is_ascii_space_def trim_spaces.simps
lemmas number_defs =
  parse_int_def parse_uint_def atoi_def parse_digits_def digits_val_def digit_val_def is_digit_def

declare string_defs [go_eval] space_defs [go_eval] number_defs [go_eval] str_fields_def [go_eval]

end
