(* ===== verification/Base64.thy ===== *)
theory Base64
  imports Go_Prelude
begin

text \<open>
  Package \<open>encoding/base64\<close> of the Go standard library, as far as the resource keys use it:
  \<open>EncodeToString\<close> and \<open>DecodeString\<close> with padding, over the standard and the URL-safe
  alphabet. The alphabet is an argument: a function from 6-bit values to characters for the
  encoder, its partial inverse for the decoder.
\<close>

fun b64_encode :: "(nat \<Rightarrow> char) \<Rightarrow> bytes \<Rightarrow> bytes" where
  "b64_encode f [] = []"
| "b64_encode f [a] =
     [f (ord a div 4), f ((ord a mod 4) * 16), CHR ''='', CHR ''='']"
| "b64_encode f [a, b] =
     [f (ord a div 4), f ((ord a mod 4) * 16 + ord b div 16),
      f ((ord b mod 16) * 4), CHR ''='']"
| "b64_encode f (a # b # c # s) =
     f (ord a div 4) # f ((ord a mod 4) * 16 + ord b div 16) #
     f ((ord b mod 16) * 4 + ord c div 64) # f (ord c mod 64) # b64_encode f s"

text \<open>The decoder skips line breaks anywhere in the input; \<open>b64_decode_quanta\<close> is the rest.\<close>

fun b64_decode_quanta :: "(char \<Rightarrow> nat option) \<Rightarrow> bytes \<Rightarrow> bytes option" where
  "b64_decode_quanta g [] = Some []"
| "b64_decode_quanta g (c1 # c2 # c3 # c4 # rest) =
     (case (g c1, g c2) of
        (Some x1, Some x2) \<Rightarrow>
          if c3 = CHR ''=''
          then if c4 = CHR ''='' \<and> rest = [] then Some [char_of (x1 * 4 + x2 div 16)] else None
          else (case g c3 of
                  None \<Rightarrow> None
                | Some x3 \<Rightarrow>
                    if c4 = CHR ''=''
                    then if rest = []
                         then Some [char_of (x1 * 4 + x2 div 16),
                                    char_of ((x2 mod 16) * 16 + x3 div 4)]
                         else None
                    else (case g c4 of
                            None \<Rightarrow> None
                          | Some x4 \<Rightarrow>
                              map_option (\<lambda>r. char_of (x1 * 4 + x2 div 16)
                                  # char_of ((x2 mod 16) * 16 + x3 div 4)
                                  # char_of ((x3 mod 4) * 64 + x4) # r)
                                (b64_decode_quanta g rest)))
      | _ \<Rightarrow> None)"
| "b64_decode_quanta g _ = None"

definition b64_decode :: "(char \<Rightarrow> nat option) \<Rightarrow> bytes \<Rightarrow> bytes option" where
  "b64_decode g s = b64_decode_quanta g (filter (\<lambda>c. c \<noteq> CHR 0x0A \<and> c \<noteq> CHR 0x0D) s)"

definition b64_char :: "char \<Rightarrow> char \<Rightarrow> nat \<Rightarrow> char" where
  "b64_char c62 c63 n =
     (if n < 26 then char_of (65 + n) else if n < 52 then char_of (71 + n)
      else if n < 62 then char_of (n - 4) else if n = 62 then c62 else c63)"

definition b64_value :: "char \<Rightarrow> char \<Rightarrow> char \<Rightarrow> nat option" where
  "b64_value c62 c63 c =
     (let v = (ord c :: nat)
      in if 65 \<le> v \<and> v \<le> 90 then Some (v - 65)
         else if 97 \<le> v \<and> v \<le> 122 then Some (v - 71)
         else if 48 \<le> v \<and> v \<le> 57 then Some (v + 4)
         else if c = c62 then Some 62 else if c = c63 then Some 63 else None)"

definition url_encode :: "bytes \<Rightarrow> bytes" where
  "url_encode = b64_encode (b64_char (CHR ''-'') (CHR ''_''))"

definition url_decode :: "bytes \<Rightarrow> bytes option" where
  "url_decode = b64_decode (b64_value (CHR ''-'') (CHR ''_''))"

definition std_decode :: "bytes \<Rightarrow> bytes option" where
  "std_decode = b64_decode (b64_value (CHR ''+'') (CHR ''/''))"

section \<open>The decoder inverts the encoder\<close>

lemma of_char_lt: "ord c < 256"
  by simp

lemma of_char_div4 [simp]: "(ord (c::char) :: nat) div 4 < 64"
  using of_char_lt [of c] by arith

lemma sextet_bounds:
  fixes a b :: nat
  assumes "a < 256" "b < 256"
  shows "a mod 4 * 16 + b div 16 < 64" and "a mod 16 * 4 + b div 64 < 64"
    and "a mod 4 * 16 < 64" and "a mod 16 * 4 < 64" and "a mod 64 < 64"
proof -
  have "a mod 4 < 4" "b div 16 < 16" "a mod 16 < 16" "b div 64 < 4" using assms by auto
  then show "a mod 4 * 16 + b div 16 < 64" "a mod 16 * 4 + b div 64 < 64"
    "a mod 4 * 16 < 64" "a mod 16 * 4 < 64" "a mod 64 < 64" by linarith+
qed

lemma unpack:
  fixes a b c :: nat
  assumes "a < 256" "b < 256" "c < 256"
  shows "a div 4 * 4 + (a mod 4 * 16 + b div 16) div 16 = a"
    and "(a mod 4 * 16 + b div 16) mod 16 * 16 + (b mod 16 * 4 + c div 64) div 4 = b"
    and "(b mod 16 * 4 + c div 64) mod 4 * 64 + c mod 64 = c"
    and "a div 4 * 4 + (a mod 4 * 16) div 16 = a"
    and "(a mod 4 * 16 + b div 16) mod 16 * 16 + (b mod 16 * 4) div 4 = b"
proof -
  have "b div 16 < 16" "c div 64 < 4" using assms by auto
  then show "a div 4 * 4 + (a mod 4 * 16 + b div 16) div 16 = a"
    and "(a mod 4 * 16 + b div 16) mod 16 * 16 + (b mod 16 * 4 + c div 64) div 4 = b"
    and "(b mod 16 * 4 + c div 64) mod 4 * 64 + c mod 64 = c"
    and "a div 4 * 4 + (a mod 4 * 16) div 16 = a"
    and "(a mod 4 * 16 + b div 16) mod 16 * 16 + (b mod 16 * 4) div 4 = b"
    by simp_all
qed

definition decodes :: "(nat \<Rightarrow> char) \<Rightarrow> (char \<Rightarrow> nat option) \<Rightarrow> bytes \<Rightarrow> bool" where
  "decodes f g s \<longleftrightarrow> (\<forall>n < 64. f n \<in> set s \<longrightarrow> g (f n) = Some n \<and> f n \<noteq> CHR ''='')"

lemma decodesD: "decodes f g s \<Longrightarrow> n < 64 \<Longrightarrow> f n \<in> set s \<Longrightarrow> g (f n) = Some n \<and> f n \<noteq> CHR ''=''"
  by (simp add: decodes_def)

lemma decodes_subset: "decodes f g s \<Longrightarrow> set t \<subseteq> set s \<Longrightarrow> decodes f g t"
  by (auto simp: decodes_def)

lemma b64_roundtrip_quanta:
  "decodes f g (b64_encode f s) \<Longrightarrow> b64_decode_quanta g (b64_encode f s) = Some s"
proof (induction f s rule: b64_encode.induct)
  case (1 f)
  then show ?case by simp
next
  case (2 f a)
  have "g (f (ord a div 4)) = Some (ord a div 4)"
    "g (f (ord a mod 4 * 16)) = Some (ord a mod 4 * 16)"
    using decodesD [OF 2, of "ord a div 4"] decodesD [OF 2, of "ord a mod 4 * 16"]
      sextet_bounds(3) [of "ord a"] by auto
  then show ?case using unpack(4) [of "ord a" 0 0] by simp
next
  case (3 f a b)
  let ?x2 = "ord a mod 4 * 16 + ord b div 16" and ?x3 = "ord b mod 16 * 4"
  have "?x2 < 64" "?x3 < 64"
    using sextet_bounds(1) [of "ord a" "ord b"] sextet_bounds(4) [of "ord b"] by auto
  then have "g (f (ord a div 4)) = Some (ord a div 4)" "g (f ?x2) = Some ?x2"
    "g (f ?x3) = Some ?x3 \<and> f ?x3 \<noteq> CHR ''=''"
    using decodesD [OF 3, of "ord a div 4"] decodesD [OF 3, of ?x2] decodesD [OF 3, of ?x3]
    by auto
  then show ?case
    using unpack(1,5) [of "ord a" "ord b" 0] by simp
next
  case (4 f a b c s)
  let ?x2 = "ord a mod 4 * 16 + ord b div 16"
  let ?x3 = "ord b mod 16 * 4 + ord c div 64" and ?x4 = "ord c mod 64 :: nat"
  have "?x2 < 64" "?x3 < 64" "?x4 < 64"
    using sextet_bounds(1) [of "ord a" "ord b"] sextet_bounds(2) [of "ord b" "ord c"]
    by auto
  then have "g (f (ord a div 4)) = Some (ord a div 4)" "g (f ?x2) = Some ?x2"
    "g (f ?x3) = Some ?x3 \<and> f ?x3 \<noteq> CHR ''=''" "g (f ?x4) = Some ?x4 \<and> f ?x4 \<noteq> CHR ''=''"
    using decodesD [OF "4.prems", of "ord a div 4"] decodesD [OF "4.prems", of ?x2]
      decodesD [OF "4.prems", of ?x3] decodesD [OF "4.prems", of ?x4]
    by auto
  moreover have "b64_decode_quanta g (b64_encode f s) = Some s"
    by (rule "4.IH") (rule decodes_subset [OF "4.prems"], auto)
  ultimately show ?case
    using unpack(1,2,3) [of "ord a" "ord b" "ord c"] by simp
qed

text \<open>Every output character is a letter, a digit, one of the two special characters or \<open>=\<close>.\<close>

lemma b64_encode_set: "set (b64_encode f s) \<subseteq> insert (CHR ''='') (f ` {..<64})"
proof (induction f s rule: b64_encode.induct)
  case (2 f a)
  then show ?case using sextet_bounds(3) [of "ord a" 0] by simp
next
  case (3 f a b)
  then show ?case
    using sextet_bounds(1) [of "ord a" "ord b"] sextet_bounds(4) [of "ord b" 0] by simp
next
  case (4 f a b c' s)
  then show ?case
    using sextet_bounds(1) [of "ord a" "ord b"] sextet_bounds(2) [of "ord b" "ord c'"] by simp
qed simp

lemma b64_encode_chars: "c \<in> set (b64_encode f s) \<Longrightarrow> c = CHR ''='' \<or> (\<exists>n < 64. c = f n)"
  using b64_encode_set [of f s] by blast

lemma b64_char_special [simp]: "b64_char c62 c63 62 = c62" "b64_char c62 c63 63 = c63"
  by (simp_all add: b64_char_def)

lemma b64_value_char:
  assumes "n < 62"
  shows "b64_value c62 c63 (b64_char d62 d63 n) = Some n"
  using assms by (auto simp: b64_value_def b64_char_def Let_def)

lemma b64_char_plain:
  "n < 62 \<Longrightarrow> 48 \<le> (ord (b64_char c62 c63 n) :: nat) \<and> (ord (b64_char c62 c63 n) :: nat) \<le> 122
     \<and> (ord (b64_char c62 c63 n) :: nat) \<notin> {58..64} \<and> (ord (b64_char c62 c63 n) :: nat) \<notin> {91..96}"
  by (auto simp: b64_char_def)

lemma b64_char_not_special:
  assumes "n < 62" and "(ord c :: nat) < 48 \<or> (ord c :: nat) \<in> {58..64} \<or> (ord c :: nat) \<in> {91..96}"
  shows "b64_char c62 c63 n \<noteq> c"
  using b64_char_plain [OF assms(1), of c62 c63] assms(2) by auto

lemma url_decodes: "decodes (b64_char (CHR ''-'') (CHR ''_'')) (b64_value (CHR ''-'') (CHR ''_'')) s"
  unfolding decodes_def
proof (intro allI impI)
  fix n :: nat
  assume "n < 64"
  then consider "n < 62" | "n = 62" | "n = 63" by linarith
  then show "b64_value (CHR ''-'') (CHR ''_'') (b64_char (CHR ''-'') (CHR ''_'') n) = Some n
    \<and> b64_char (CHR ''-'') (CHR ''_'') n \<noteq> CHR ''=''"
  proof cases
    case 1
    then show ?thesis by (simp add: b64_value_char b64_char_not_special)
  qed (simp_all add: b64_value_def)
qed

lemma b64_encode_no_newline:
  assumes "CHR 0x0A \<notin> {c62, c63}" "CHR 0x0D \<notin> {c62, c63}"
  shows "filter (\<lambda>c. c \<noteq> CHR 0x0A \<and> c \<noteq> CHR 0x0D) (b64_encode (b64_char c62 c63) s)
    = b64_encode (b64_char c62 c63) s"
proof (rule filter_True, rule ballI)
  fix c
  assume "c \<in> set (b64_encode (b64_char c62 c63) s)"
  then consider "c = CHR ''=''" | n where "n < 64" "c = b64_char c62 c63 n"
    using b64_encode_chars by blast
  then show "c \<noteq> CHR 0x0A \<and> c \<noteq> CHR 0x0D"
  proof cases
    case 2
    then consider "n < 62" | "n = 62" | "n = 63" by linarith
    then show ?thesis
      using assms 2(2) by cases (auto simp: b64_char_not_special)
  qed simp
qed

lemma url_encode_no_newline:
  "filter (\<lambda>c. c \<noteq> CHR 0x0A \<and> c \<noteq> CHR 0x0D) (url_encode s) = url_encode s"
  unfolding url_encode_def by (rule b64_encode_no_newline) simp_all

lemma url_roundtrip: "url_decode (url_encode s) = Some s"
  unfolding url_decode_def b64_decode_def url_encode_no_newline
  unfolding url_encode_def by (rule b64_roundtrip_quanta) (rule url_decodes)

lemma url_encode_inject: "url_encode s = url_encode t \<longleftrightarrow> s = t"
  by (metis option.inject url_roundtrip)

lemma url_encode_no_slash: "CHR ''/'' \<notin> set (url_encode s)"
proof
  assume "CHR ''/'' \<in> set (url_encode s)"
  then obtain n where n: "n < 64" "CHR ''/'' = b64_char (CHR ''-'') (CHR ''_'') n"
    using b64_encode_chars [of "CHR ''/''" "b64_char (CHR ''-'') (CHR ''_'')" s]
    unfolding url_encode_def by auto
  from n(1) consider "n < 62" | "n = 62" | "n = 63" by linarith
  then show False
  proof cases
    case 1
    then have "b64_char (CHR ''-'') (CHR ''_'') n \<noteq> CHR ''/''"
      by (rule b64_char_not_special) simp
    with n(2) show ?thesis by metis
  qed (use n(2) in simp_all)
qed

text \<open>
  The standard decoder reads URL-safe output back exactly as long as that output avoids the two
  characters on which the alphabets differ.
\<close>

lemma std_decode_url_encode:
  assumes "CHR ''-'' \<notin> set (url_encode s)" and "CHR ''_'' \<notin> set (url_encode s)"
  shows "std_decode (url_encode s) = Some s"
proof -
  have "decodes (b64_char (CHR ''-'') (CHR ''_'')) (b64_value (CHR ''+'') (CHR ''/'')) (url_encode s)"
    unfolding decodes_def
  proof (intro allI impI)
    fix n :: nat
    assume "n < 64" and out: "b64_char (CHR ''-'') (CHR ''_'') n \<in> set (url_encode s)"
    then consider "n < 62" | "n = 62" | "n = 63" by linarith
    then show "b64_value (CHR ''+'') (CHR ''/'') (b64_char (CHR ''-'') (CHR ''_'') n) = Some n
      \<and> b64_char (CHR ''-'') (CHR ''_'') n \<noteq> CHR ''=''"
      using assms out by cases (simp_all add: b64_value_char b64_char_not_special)
  qed
  then show ?thesis
    unfolding std_decode_def b64_decode_def url_encode_no_newline
    unfolding url_encode_def by (rule b64_roundtrip_quanta)
qed

lemma b64_decode_quanta_chars:
  "b64_decode_quanta g s = Some t \<Longrightarrow> c \<in> set s \<Longrightarrow> c = CHR ''='' \<or> g c \<noteq> None"
  by (induction g s arbitrary: t rule: b64_decode_quanta.induct)
    (auto split: option.splits if_splits)

lemma std_decode_rejects:
  assumes "CHR ''-'' \<in> set s \<or> CHR ''_'' \<in> set s"
  shows "std_decode s = None"
proof (rule ccontr)
  assume "std_decode s \<noteq> None"
  then obtain t where t: "std_decode s = Some t" by blast
  obtain c where c: "c \<in> set s" "c = CHR ''-'' \<or> c = CHR ''_''" using assms by blast
  then have "c \<in> set (filter (\<lambda>c. c \<noteq> CHR 0x0A \<and> c \<noteq> CHR 0x0D) s)" by auto
  from b64_decode_quanta_chars [OF t [unfolded std_decode_def b64_decode_def] this]
  have "c = CHR ''='' \<or> b64_value (CHR ''+'') (CHR ''/'') c \<noteq> None" .
  with c(2) show False by (auto simp: b64_value_def)
qed

end
