(* ===== verification/ResourceKey.thy ===== *)
theory ResourceKey
  imports Base64
begin

text \<open>
  The resource messages the store handles (the structs of \<open>pkg/api/resource/v1\<close>, without
  protobuf bookkeeping) and the keys it derives from them,
  \<open>internal/resource/store/encode.go\<close>. A message pointer is an \<open>option\<close>; a nil-safe getter
  returns the zero value for \<open>None\<close>.
\<close>

section \<open>Messages\<close>

type_synonym timestamp = int

record provider_account =
  AccountId :: bytes
  AccountName :: bytes

record cloud_namespace =
  ns_account :: "provider_account option"
  ns_region :: bytes
  ns_group :: bytes

record kubernetes_namespace =
  kube_cluster :: bytes
  kube_namespace :: bytes

record host_namespace =
  host_name :: bytes
  host_container :: bytes

text \<open>The oneof of message \<open>Namespace\<close>; \<open>NamespaceUnset\<close> when no member is set.\<close>

datatype namespace =
  NamespaceUnset
| NamespaceCloud cloud_namespace
| NamespaceKube kubernetes_namespace
| NamespaceHost host_namespace

record resource_ref =
  ref_type_url :: bytes
  ref_name :: bytes
  ref_namespace :: "namespace option"

record type_descriptor =
  td_kind :: bytes
  td_type :: bytes

record tag =
  tag_key :: bytes
  tag_value :: bytes

record resource_meta =
  meta_id :: bytes
  meta_provider :: nat
  meta_provider_id :: bytes
  meta_account :: "provider_account option"
  meta_service :: bytes
  meta_name :: bytes
  meta_tags :: "tag list"
  meta_provider_group :: bytes
  meta_region :: bytes
  meta_zone :: bytes
  meta_created_at :: "timestamp option"
  meta_updated_at :: "timestamp option"
  meta_deleted_at :: "timestamp option"
  meta_namespace :: "namespace option"

record any_message =
  any_type_url :: bytes
  any_value :: bytes

record resource =
  rsrc_type :: "type_descriptor option"
  rsrc_metadata :: "resource_meta option"
  rsrc_spec :: "any_message option"

record relationship =
  rel_type :: "type_descriptor option"
  rel_id :: bytes
  rel_subject :: "resource_ref option"
  rel_object :: "resource_ref option"
  rel_predicate :: "any_message option"
  rel_created_at :: "timestamp option"
  rel_updated_at :: "timestamp option"
  rel_deleted_at :: "timestamp option"

record resource_object =
  obj_type :: "type_descriptor option"
  obj_object :: "any_message option"
  obj_ttl :: "int option"
  obj_delta_version :: bytes

definition get_or :: "'b \<Rightarrow> ('a \<Rightarrow> 'b) \<Rightarrow> 'a option \<Rightarrow> 'b" where
  "get_or zero f p = (case p of None \<Rightarrow> zero | Some x \<Rightarrow> f x)"

lemma get_or_simps [simp]: "get_or z f None = z" "get_or z f (Some x) = f x"
  by (simp_all add: get_or_def)

section \<open>Keys\<close>

datatype key_error =
  NilResource | MissingType | InvalidKeyFormat bytes | DecodeFailed | InvalidFormat bytes

definition cloudNs :: bytes where "cloudNs = ''cloud''"
definition kubeNs :: bytes where "kubeNs = ''kube''"

definition ref :: "resource \<Rightarrow> resource_ref" where
  "ref r = \<lparr>ref_type_url = get_or '''' td_type (rsrc_type r),
            ref_name = get_or '''' meta_name (rsrc_metadata r),
            ref_namespace = get_or None meta_namespace (rsrc_metadata r)\<rparr>"

text \<open>The name path that is encoded: \<open>fmt.Sprintf\<close> with the verbs joined by slashes.\<close>

definition name_path :: "resource_ref \<Rightarrow> bytes" where
  "name_path r =
     (case ref_namespace r of
        None \<Rightarrow> ref_name r
      | Some (NamespaceCloud ns) \<Rightarrow>
          join_with (CHR ''/'')
            [cloudNs, get_or '''' AccountId (ns_account ns), ns_region ns, ns_group ns, ref_name r]
      | Some (NamespaceKube ns) \<Rightarrow>
          join_with (CHR ''/'') [kubeNs, kube_cluster ns, kube_namespace ns, ref_name r]
      | Some _ \<Rightarrow> ref_name r)"

definition encodeResourceKey :: "resource_ref option \<Rightarrow> (key_error, bytes) result" where
  "encodeResourceKey p =
     (case p of
        None \<Rightarrow> Inl NilResource
      | Some r \<Rightarrow>
          if ref_type_url r = '''' then Inl MissingType
          else Inr (ref_type_url r @ CHR ''/'' # url_encode (name_path r)))"

text \<open>
  \<open>decodeResourceKey\<close> fills in the reference it is given; the model returns the filled-in
  reference, or the error.
\<close>

definition decodeResourceKey ::
    "bytes \<Rightarrow> resource_ref option \<Rightarrow> (key_error, resource_ref) result" where
  "decodeResourceKey key p =
     (case p of
        None \<Rightarrow> Inl NilResource
      | Some r \<Rightarrow>
          (case split_on (CHR ''/'') key of
             [type_url, obj] \<Rightarrow>
               (let r = r\<lparr>ref_type_url := type_url\<rparr>
                in case std_decode obj of
                     None \<Rightarrow> Inl DecodeFailed
                   | Some d \<Rightarrow>
                       (let parts = split_on (CHR ''/'') d
                        in if length parts = 1 then Inr (r\<lparr>ref_name := hd parts\<rparr>)
                           else if hd parts = cloudNs
                           then (case tl parts of
                                   [acct, region, grp, name] \<Rightarrow>
                                     Inr (r\<lparr>ref_namespace := Some (NamespaceCloud
                                              \<lparr>ns_account = Some \<lparr>AccountId = acct, AccountName = ''''\<rparr>,
                                               ns_region = region, ns_group = grp\<rparr>),
                                            ref_name := name\<rparr>)
                                 | _ \<Rightarrow> Inl (InvalidFormat key))
                           else if hd parts = kubeNs
                           then (case tl parts of
                                   [cluster, nspace, name] \<Rightarrow>
                                     Inr (r\<lparr>ref_namespace := Some (NamespaceKube
                                              \<lparr>kube_cluster = cluster, kube_namespace = nspace\<rparr>),
                                            ref_name := name\<rparr>)
                                 | _ \<Rightarrow> Inl (InvalidFormat key))
                           else Inr r))
           | _ \<Rightarrow> Inl (InvalidKeyFormat key)))"

section \<open>Keys tell references apart\<close>

lemma append_slash_inject:
  assumes "x @ CHR ''/'' # s = y @ CHR ''/'' # t" and "CHR ''/'' \<notin> set s" "CHR ''/'' \<notin> set t"
  shows "x = y \<and> s = t"
proof -
  have "rev s @ CHR ''/'' # rev x = rev t @ CHR ''/'' # rev y"
    using arg_cong [OF assms(1), of rev] by simp
  moreover have "takeWhile (\<lambda>c. c \<noteq> CHR ''/'') (rev u @ CHR ''/'' # v) = rev u"
    if "CHR ''/'' \<notin> set u" for u v
    using that by (subst takeWhile_append2) auto
  ultimately have "rev s = rev t" using assms(2,3) by metis
  then show ?thesis using assms(1) by simp
qed

text \<open>Two references share a key exactly when type URL and name path agree.\<close>

lemma encode_eq_iff:
  assumes "encodeResourceKey (Some r) = Inr k" and "encodeResourceKey (Some r') = Inr k'"
  shows "k = k' \<longleftrightarrow> ref_type_url r = ref_type_url r' \<and> name_path r = name_path r'"
proof -
  have "k = ref_type_url r @ CHR ''/'' # url_encode (name_path r)"
    "k' = ref_type_url r' @ CHR ''/'' # url_encode (name_path r')"
    using assms by (auto simp: encodeResourceKey_def split: if_splits)
  then show ?thesis
    using append_slash_inject [OF _ url_encode_no_slash url_encode_no_slash] url_encode_inject
    by metis
qed

text \<open>A reference whose parts hold no slash, outside the host namespace.\<close>

definition slash_free :: "bytes \<Rightarrow> bool" where
  "slash_free s \<longleftrightarrow> CHR ''/'' \<notin> set s"

definition plain_ref :: "resource_ref \<Rightarrow> bool" where
  "plain_ref r \<longleftrightarrow> slash_free (ref_name r) \<and>
     (case ref_namespace r of
        None \<Rightarrow> True
      | Some (NamespaceCloud ns) \<Rightarrow>
          slash_free (ns_region ns) \<and> slash_free (ns_group ns) \<and>
          (case ns_account ns of None \<Rightarrow> False | Some a \<Rightarrow> slash_free (AccountId a) \<and> AccountName a = '''')
      | Some (NamespaceKube ns) \<Rightarrow> slash_free (kube_cluster ns) \<and> slash_free (kube_namespace ns)
      | Some _ \<Rightarrow> False)"

text \<open>The parts of the name path of a plain reference, and the reference they stand for.\<close>

definition path_parts :: "resource_ref \<Rightarrow> bytes list" where
  "path_parts r =
     (case ref_namespace r of
        None \<Rightarrow> [ref_name r]
      | Some (NamespaceCloud ns) \<Rightarrow>
          [cloudNs, get_or '''' AccountId (ns_account ns), ns_region ns, ns_group ns, ref_name r]
      | Some (NamespaceKube ns) \<Rightarrow> [kubeNs, kube_cluster ns, kube_namespace ns, ref_name r]
      | Some _ \<Rightarrow> [ref_name r])"

lemma name_path_join: "name_path r = join_with (CHR ''/'') (path_parts r)"
  by (simp add: name_path_def path_parts_def split: option.split namespace.split)

lemma path_parts_slash_free: "plain_ref r \<Longrightarrow> p \<in> set (path_parts r) \<Longrightarrow> CHR ''/'' \<notin> set p"
  by (auto simp: plain_ref_def path_parts_def slash_free_def cloudNs_def kubeNs_def
      split: option.splits namespace.splits)

lemma split_name_path: "plain_ref r \<Longrightarrow> split_on (CHR ''/'') (name_path r) = path_parts r"
  unfolding name_path_join
  by (rule split_join) (auto simp: path_parts_def path_parts_slash_free
      split: option.splits namespace.splits)

lemma plain_ref_path_inject:
  assumes "plain_ref r" "plain_ref r'" and parts: "path_parts r = path_parts r'"
    and "ref_type_url r = ref_type_url r'"
  shows "r = r'"
proof -
  have "ref_name r = ref_name r' \<and> ref_namespace r = ref_namespace r'"
    using assms(1,2) parts
    by (auto simp: plain_ref_def path_parts_def cloudNs_def kubeNs_def
        split: option.splits namespace.splits)
  with assms(4) show ?thesis by simp
qed

lemma encode_plain_inject:
  assumes "plain_ref r" "plain_ref r'"
    and "encodeResourceKey (Some r) = Inr k" "encodeResourceKey (Some r') = Inr k"
  shows "r = r'"
proof -
  have "ref_type_url r = ref_type_url r'" and path: "name_path r = name_path r'"
    using encode_eq_iff [OF assms(3,4)] by auto
  moreover have "path_parts r = path_parts r'"
    using path split_name_path [OF assms(1)] split_name_path [OF assms(2)] by simp
  ultimately show ?thesis using plain_ref_path_inject [OF assms(1,2)] by simp
qed

section \<open>Decoding a key\<close>

definition empty_ref :: resource_ref where
  "empty_ref = \<lparr>ref_type_url = '''', ref_name = '''', ref_namespace = None\<rparr>"

lemma split_key: "slash_free t \<Longrightarrow> split_on (CHR ''/'') (t @ CHR ''/'' # url_encode s) = [t, url_encode s]"
  by (simp add: slash_free_def split_on_append split_on_single url_encode_no_slash)

lemma decode_encoded:
  assumes "plain_ref r" and "slash_free (ref_type_url r)"
    and "encodeResourceKey (Some r) = Inr k"
    and "std_decode (url_encode (name_path r)) = Some (name_path r)"
  shows "decodeResourceKey k (Some empty_ref) = Inr r"
proof -
  have k: "k = ref_type_url r @ CHR ''/'' # url_encode (name_path r)"
    using assms(3) by (auto simp: encodeResourceKey_def split: if_splits)
  show ?thesis
    using assms(1)
    by (auto simp: decodeResourceKey_def k split_key [OF assms(2)] assms(4) Let_def
        split_name_path [OF assms(1)] path_parts_def plain_ref_def empty_ref_def
        cloudNs_def kubeNs_def split: option.splits namespace.splits)
qed

text \<open>Whatever a key decodes to has parts without a slash.\<close>

lemma decoded_plain:
  assumes "decodeResourceKey k (Some empty_ref) = Inr r"
  shows "slash_free (ref_type_url r) \<and> plain_ref r"
proof -
  obtain t obj where k: "split_on (CHR ''/'') k = [t, obj]"
    using assms by (auto simp: decodeResourceKey_def split: list.splits)
  obtain d where d: "std_decode obj = Some d"
    using assms by (auto simp: decodeResourceKey_def k Let_def split: option.splits)
  have t: "slash_free t" using split_on_parts [of t _ k] by (simp add: k slash_free_def)
  have parts: "slash_free p" if "p \<in> set (split_on (CHR ''/'') d)" for p
    using split_on_parts [OF that] by (simp add: slash_free_def)
  obtain p ps where ps: "split_on (CHR ''/'') d = p # ps" by (cases "split_on (CHR ''/'') d") auto
  have r: "(if ps = [] then Inr (empty_ref\<lparr>ref_type_url := t, ref_name := p\<rparr>)
      else if p = cloudNs
      then (case ps of [acct, region, grp, name] \<Rightarrow>
              Inr (empty_ref\<lparr>ref_type_url := t, ref_namespace := Some (NamespaceCloud
                     \<lparr>ns_account = Some \<lparr>AccountId = acct, AccountName = ''''\<rparr>, ns_region = region, ns_group = grp\<rparr>),
                   ref_name := name\<rparr>)
            | _ \<Rightarrow> Inl (InvalidFormat k))
      else if p = kubeNs
      then (case ps of [cluster, nspace, name] \<Rightarrow>
              Inr (empty_ref\<lparr>ref_type_url := t, ref_namespace := Some (NamespaceKube
                     \<lparr>kube_cluster = cluster, kube_namespace = nspace\<rparr>), ref_name := name\<rparr>)
            | _ \<Rightarrow> Inl (InvalidFormat k))
      else Inr (empty_ref\<lparr>ref_type_url := t\<rparr>)) = Inr r"
    using assms by (simp add: decodeResourceKey_def k d ps Let_def cong: if_cong)
  have "slash_free p" "\<forall>q \<in> set ps. slash_free q" using parts by (simp_all add: ps)
  with r t show ?thesis
    by (auto simp: plain_ref_def empty_ref_def slash_free_def split: if_splits list.split_asm)
qed

lemma encodeResourceKey_shape:
  "encodeResourceKey (Some r) = Inr k \<Longrightarrow> k = ref_type_url r @ CHR ''/'' # url_encode (name_path r)"
  by (auto simp: encodeResourceKey_def split: if_splits)

end
