(* ===== verification/StoreEvents.thy ===== *)
theory StoreEvents
  imports ResourceKey
begin

text \<open>
  Events and subscribers of the resource store: the types of \<open>internal/resource/types.go\<close> and
  the matching and routing of \<open>internal/resource/store/store.go\<close>. A subscriber's channel is
  the list of the events sent and not yet received; the code's channels hold 1000 events and a
  send to a full one waits for the receiver.
\<close>

section \<open>Events\<close>

datatype event_type = EventTypeAdd | EventTypeUpdate | EventTypeDelete

record event =
  ev_type :: event_type
  ev_objs :: "resource_object list"

section \<open>Matching\<close>

record subscriber =
  sub_ch :: "event list"
  sub_closed :: bool
  kindMatch :: "bytes list list"
  typeMatch :: "bytes list list"

text \<open>\<open>hasPrefix\<close>: the loop compares part by part after the length check.\<close>

fun parts_equal :: "bytes list \<Rightarrow> bytes list \<Rightarrow> bool" where
  "parts_equal path [] = True"
| "parts_equal [] (part # pre) = False"
| "parts_equal (x # path) (part # pre) = (if x \<noteq> part then False else parts_equal path pre)"

definition hasPrefix :: "bytes list \<Rightarrow> bytes list \<Rightarrow> bool" where
  "hasPrefix path pre = (if length pre > length path then False else parts_equal path pre)"

definition sub_match :: "subscriber \<Rightarrow> type_descriptor option \<Rightarrow> bool" where
  "sub_match s typeDef =
     (if length (kindMatch s) = 0 \<and> length (typeMatch s) = 0 then True
      else (case typeDef of
              None \<Rightarrow> False
            | Some td \<Rightarrow>
                (let kindPath = split_on (CHR ''.'') (td_kind td);
                     typePath = split_on (CHR ''.'') (td_type td)
                 in if length (kindMatch s) > 0 \<and> \<not> list_ex (hasPrefix kindPath) (kindMatch s)
                    then False
                    else if length (typeMatch s) > 0
                    then list_ex (hasPrefix typePath) (typeMatch s)
                    else False)))"

text \<open>The filters that \<open>Subscribe\<close> builds from its type descriptors.\<close>

definition kind_filters :: "type_descriptor option list \<Rightarrow> bytes list list" where
  "kind_filters tds =
     concat (map (\<lambda>p. case p of
        Some td \<Rightarrow> (if td_kind td \<noteq> '''' then [split_on (CHR ''.'') (td_kind td)] else [])
      | None \<Rightarrow> []) tds)"

definition type_filters :: "type_descriptor option list \<Rightarrow> bytes list list" where
  "type_filters tds =
     concat (map (\<lambda>p. case p of
        Some td \<Rightarrow> (if td_type td \<noteq> '''' then [split_on (CHR ''.'') (td_type td)] else [])
      | None \<Rightarrow> []) tds)"

definition new_subscriber :: "type_descriptor option list \<Rightarrow> subscriber" where
  "new_subscriber tds = \<lparr>sub_ch = [], sub_closed = False,
     kindMatch = kind_filters tds, typeMatch = type_filters tds\<rparr>"

section \<open>The event router\<close>

definition sub_send :: "event \<Rightarrow> subscriber \<Rightarrow> subscriber" where
  "sub_send e s = s\<lparr>sub_ch := sub_ch s @ [e]\<rparr>"

text \<open>The first branch of the router's select: one event from the store.\<close>

definition routeEvent :: "event \<Rightarrow> subscriber list \<Rightarrow> subscriber list" where
  "routeEvent e subs =
     (if length (ev_objs e) = 0 then subs
      else map (\<lambda>s. if sub_match s (obj_type (hd (ev_objs e))) then sub_send e s else s) subs)"

text \<open>The second branch: the router stops and closes every channel.\<close>

definition stopRouter :: "subscriber list \<Rightarrow> subscriber list" where
  "stopRouter subs = map (\<lambda>s. s\<lparr>sub_closed := True\<rparr>) subs"

section \<open>Properties\<close>

lemma parts_equal_iff: "parts_equal path pre \<longleftrightarrow> (\<exists>rest. path = pre @ rest)"
  by (induction path pre rule: parts_equal.induct) auto

lemma hasPrefix_iff: "hasPrefix path pre \<longleftrightarrow> (\<exists>rest. path = pre @ rest)"
  by (auto simp: hasPrefix_def parts_equal_iff)

lemma hasPrefix_dotted:
  assumes "split_on c s = split_on c p @ rest"
  shows "s = p \<or> (\<exists>t. s = p @ c # t)"
proof (cases "rest = []")
  case True
  then show ?thesis using assms by (metis append_Nil2 join_split_on)
next
  case False
  have join_app: "ps \<noteq> [] \<Longrightarrow> qs \<noteq> [] \<Longrightarrow> join_with c (ps @ qs) = join_with c ps @ c # join_with c qs"
    for ps qs
    by (induction ps rule: induct_list012) (auto simp: join_with_Cons)
  have "s = join_with c (split_on c p) @ c # join_with c rest"
    using assms False join_app [of "split_on c p" rest] by (metis join_split_on split_on_nonempty)
  then show ?thesis by (auto simp: join_split_on)
qed

lemma sub_match_both:
  assumes "kindMatch s \<noteq> []" "typeMatch s \<noteq> []"
  shows "sub_match s (Some td) \<longleftrightarrow>
    (\<exists>k \<in> set (kindMatch s). hasPrefix (split_on (CHR ''.'') (td_kind td)) k) \<and>
    (\<exists>t \<in> set (typeMatch s). hasPrefix (split_on (CHR ''.'') (td_type td)) t)"
  using assms by (auto simp: sub_match_def Let_def list_ex_iff)

lemma sub_match_type_only:
  assumes "kindMatch s = []" "typeMatch s \<noteq> []"
  shows "sub_match s (Some td) \<longleftrightarrow>
    (\<exists>t \<in> set (typeMatch s). hasPrefix (split_on (CHR ''.'') (td_type td)) t)"
  using assms by (auto simp: sub_match_def Let_def list_ex_iff)

lemma sub_match_kind_only:
  assumes "kindMatch s \<noteq> []" "typeMatch s = []"
  shows "\<not> sub_match s td"
  using assms by (auto simp: sub_match_def Let_def split: option.splits)

lemma sub_match_all: "kindMatch s = [] \<Longrightarrow> typeMatch s = [] \<Longrightarrow> sub_match s td"
  by (simp add: sub_match_def)

lemma routeEvent_frame:
  "length (routeEvent e subs) = length subs"
  "i < length subs \<Longrightarrow> kindMatch (routeEvent e subs ! i) = kindMatch (subs ! i) \<and>
     typeMatch (routeEvent e subs ! i) = typeMatch (subs ! i) \<and>
     sub_closed (routeEvent e subs ! i) = sub_closed (subs ! i)"
  by (auto simp: routeEvent_def sub_send_def)

lemma routeEvent_ch:
  assumes "i < length subs"
  shows "sub_ch (routeEvent e subs ! i) =
    (if ev_objs e \<noteq> [] \<and> sub_match (subs ! i) (obj_type (hd (ev_objs e)))
     then sub_ch (subs ! i) @ [e] else sub_ch (subs ! i))"
  using assms by (simp add: routeEvent_def sub_send_def)

end
