(* ===== verification/StoreIndex.thy ===== *)
theory StoreIndex
  imports Go_Prelude "HOL-Library.AList" "HOL-Library.Multiset"
begin

text \<open>
  The relationship indexes of \<open>internal/resource/store/store.go\<close> (\<open>buildKey\<close> and below): an
  index value is the concatenation of the 32-byte hashes of its relationships, kept sorted.

  The key-value database is Badger, which is not part of the repository. It is the argument
  \<open>kv\<close>: a record of the operations the code calls on a transaction of a type \<open>'t\<close>, with
  items of a type \<open>'i\<close>. \<open>kv_laws\<close> states the documented behaviour of a healthy database.
\<close>

section \<open>The database interface\<close>

datatype kv_error = ErrKeyNotFound | KvFailure bytes

record ('t, 'i) kv =
  kv_get :: "'t \<Rightarrow> bytes \<Rightarrow> (kv_error, 'i) result"
  kv_value :: "'i \<Rightarrow> (kv_error, bytes) result"
  kv_set :: "'t \<Rightarrow> bytes \<Rightarrow> bytes \<Rightarrow> (kv_error, 't) result"
  kv_delete :: "'t \<Rightarrow> bytes \<Rightarrow> (kv_error, 't) result"
  kv_scan :: "'t \<Rightarrow> bytes \<Rightarrow> (bytes \<times> 'i) list"
  kv_commit :: "'t \<Rightarrow> 't \<Rightarrow> (kv_error, 't) result"

definition kv_map :: "('t, 'i) kv \<Rightarrow> 't \<Rightarrow> (bytes \<rightharpoonup> bytes)" where
  "kv_map kv t k =
     (case kv_get kv t k of
        Inl _ \<Rightarrow> None
      | Inr i \<Rightarrow> (case kv_value kv i of Inl _ \<Rightarrow> None | Inr v \<Rightarrow> Some v))"

definition kv_reads :: "('t, 'i) kv \<Rightarrow> bool" where
  "kv_reads kv \<longleftrightarrow> (\<forall>t k. kv_get kv t k = Inl ErrKeyNotFound \<or>
     (\<exists>i v. kv_get kv t k = Inr i \<and> kv_value kv i = Inr v))"

definition kv_writes :: "('t, 'i) kv \<Rightarrow> bool" where
  "kv_writes kv \<longleftrightarrow>
     (\<forall>t k v. k \<noteq> [] \<longrightarrow> (\<exists>t'. kv_set kv t k v = Inr t' \<and> kv_map kv t' = (kv_map kv t)(k \<mapsto> v))) \<and>
     (\<forall>t k. k \<noteq> [] \<longrightarrow> (\<exists>t'. kv_delete kv t k = Inr t' \<and> kv_map kv t' = (kv_map kv t)(k := None)))"

definition kv_scans :: "('t, 'i) kv \<Rightarrow> bool" where
  "kv_scans kv \<longleftrightarrow> (\<forall>t p. distinct (map fst (kv_scan kv t p)) \<and>
     (\<forall>k i. (k, i) \<in> set (kv_scan kv t p) \<longleftrightarrow> has_prefix k p \<and> kv_get kv t k = Inr i))"

definition kv_commits :: "('t, 'i) kv \<Rightarrow> bool" where
  "kv_commits kv \<longleftrightarrow> (\<forall>d t. \<exists>d'. kv_commit kv d t = Inr d' \<and> kv_map kv d' = kv_map kv t)"

definition kv_laws :: "('t, 'i) kv \<Rightarrow> bool" where
  "kv_laws kv \<longleftrightarrow> kv_reads kv \<and> kv_writes kv \<and> kv_scans kv \<and> kv_commits kv"

lemma kv_lawsD:
  assumes "kv_laws kv"
  shows "kv_reads kv" "kv_writes kv" "kv_scans kv" "kv_commits kv"
  using assms by (simp_all add: kv_laws_def)

lemma kv_get_None: "kv_reads kv \<Longrightarrow> kv_map kv t k = None \<Longrightarrow> kv_get kv t k = Inl ErrKeyNotFound"
  unfolding kv_reads_def kv_map_def by (metis option.distinct(1) sum.case(2))

lemma kv_get_Some:
  "kv_reads kv \<Longrightarrow> kv_map kv t k = Some v \<Longrightarrow> \<exists>i. kv_get kv t k = Inr i \<and> kv_value kv i = Inr v"
  unfolding kv_reads_def kv_map_def by (auto split: sum.splits)

lemma kv_set_map:
  "kv_writes kv \<Longrightarrow> k \<noteq> [] \<Longrightarrow>
   \<exists>t'. kv_set kv t k v = Inr t' \<and> kv_map kv t' = (kv_map kv t)(k \<mapsto> v)"
  by (simp add: kv_writes_def)

lemma kv_delete_map:
  "kv_writes kv \<Longrightarrow> k \<noteq> [] \<Longrightarrow>
   \<exists>t'. kv_delete kv t k = Inr t' \<and> kv_map kv t' = (kv_map kv t)(k := None)"
  by (simp add: kv_writes_def)

text \<open>An association list as a database: the laws can hold.\<close>

definition mem_kv :: "((bytes \<times> bytes) list, bytes) kv" where
  "mem_kv =
     \<lparr>kv_get = (\<lambda>t k. case map_of t k of None \<Rightarrow> Inl ErrKeyNotFound | Some v \<Rightarrow> Inr v),
      kv_value = Inr,
      kv_set = (\<lambda>t k v. Inr (AList.update k v t)),
      kv_delete = (\<lambda>t k. Inr (AList.delete k t)),
      kv_scan = (\<lambda>t p. filter (\<lambda>(k, v). has_prefix k p) (AList.clearjunk t)),
      kv_commit = (\<lambda>d t. Inr t)\<rparr>"

lemma mem_kv_map: "kv_map mem_kv t = map_of t"
  by (rule ext) (simp add: kv_map_def mem_kv_def split: option.splits)

lemma mem_kv_laws: "kv_laws mem_kv"
proof -
  have "kv_reads mem_kv"
    by (auto simp: kv_reads_def mem_kv_def split: option.splits)
  moreover have "kv_writes mem_kv"
    unfolding kv_writes_def mem_kv_map
    by (auto simp: mem_kv_def update_conv' delete_conv')
  moreover have "kv_scans mem_kv"
  proof -
    have "distinct (map fst (filter (\<lambda>(k, v). has_prefix k p) (AList.clearjunk t)))"
      for t :: "(bytes \<times> bytes) list" and p
      using distinct_clearjunk [of t] by (rule distinct_map_filter)
    moreover have "((k, v) \<in> set (AList.clearjunk t)) = (map_of t k = Some v)"
      for t :: "(bytes \<times> bytes) list" and k v
      using map_of_eq_Some_iff [OF distinct_clearjunk [of t]] by (simp add: map_of_clearjunk)
    ultimately show ?thesis
      by (auto simp: kv_scans_def mem_kv_def split: option.splits)
  qed
  moreover have "kv_commits mem_kv"
    by (auto simp: kv_commits_def mem_kv_def kv_map_def)
  ultimately show ?thesis by (simp add: kv_laws_def)
qed

section \<open>Keys\<close>

fun buildKey :: "bytes list \<Rightarrow> bytes" where
  "buildKey [] = []"
| "buildKey (p # parts) = (if length p = 0 then buildKey parts else CHR ''/'' # p @ buildKey parts)"

definition resourceKey :: bytes where "resourceKey = ''rsrc''"
definition relationshipKey :: bytes where "relationshipKey = ''rel''"
definition index :: bytes where "index = ''idx''"
definition subjectIdx :: bytes where "subjectIdx = ''rel-subj''"
definition objectIdx :: bytes where "objectIdx = ''rel-obj''"
definition predicateIdx :: bytes where "predicateIdx = ''rel-predicate''"

lemmas key_parts = resourceKey_def relationshipKey_def index_def subjectIdx_def objectIdx_def
  predicateIdx_def

section \<open>Index values\<close>

definition objKeySize :: nat where
  "objKeySize = 32"

text \<open>\<open>splitObjects\<close> slices the value; a last slice that is too short panics: \<open>None\<close>.\<close>

function splitObjects :: "bytes \<Rightarrow> bytes list option" where
  "splitObjects b =
     (if b = [] then Some []
      else if length b < objKeySize then None
      else map_option ((#) (take objKeySize b)) (splitObjects (drop objKeySize b)))"
  by pat_completeness auto
termination
  by (relation "measure length") (auto simp: objKeySize_def)

declare splitObjects.simps [simp del]

definition numObjects :: "bytes \<Rightarrow> nat" where
  "numObjects b = length b div objKeySize"

datatype index_error = IndexKv kv_error | IndexPanic

definition addObjKeyToIndex ::
    "('t, 'i) kv \<Rightarrow> 't \<Rightarrow> bytes \<Rightarrow> bytes \<Rightarrow> (index_error, 't) result" where
  "addObjKeyToIndex kv txn key val =
     (case kv_get kv txn key of
        Inl err \<Rightarrow>
          if err \<noteq> ErrKeyNotFound then Inl (IndexKv err)
          else map_error IndexKv (kv_set kv txn key val)
      | Inr item \<Rightarrow>
          result_bind (map_error IndexKv (kv_value kv item)) (\<lambda>v.
          result_bind (of_option IndexPanic (splitObjects (v @ val))) (\<lambda>objs.
          map_error IndexKv (kv_set kv txn key (concat (sort objs))))))"

text \<open>
  The binary search of \<open>deleteObjKeyFromIndex\<close>, with the code's bounds: \<open>h\<close> starts one past
  the last entry and becomes \<open>m - 1\<close>.
\<close>

definition obj_at :: "bytes \<Rightarrow> int \<Rightarrow> bytes" where
  "obj_at v m = take objKeySize (drop (nat m * objKeySize) v)"

function find_obj :: "bytes \<Rightarrow> bytes \<Rightarrow> int \<Rightarrow> int \<Rightarrow> int option" where
  "find_obj v needle l h =
     (if l < h
      then let m = (l + h) div 2; r = obj_at v m
           in if r < needle then find_obj v needle (m + 1) h
              else if r > needle then find_obj v needle l (m - 1)
              else Some m
      else None)"
  by pat_completeness auto
termination
  by (relation "measure (\<lambda>(v, needle, l, h). nat (h - l))") auto

declare find_obj.simps [simp del]

text \<open>The same loop, iteration by iteration: \<open>None\<close> when it is still running after the given number.\<close>

fun search_loop :: "nat \<Rightarrow> bytes \<Rightarrow> bytes \<Rightarrow> int \<Rightarrow> int \<Rightarrow> int option option" where
  "search_loop n v needle l h =
     (if l < h
      then (case n of
              0 \<Rightarrow> None
            | Suc k \<Rightarrow>
                (let m = (l + h) div 2; r = obj_at v m
                 in if r < needle then search_loop k v needle (m + 1) h
                    else if r > needle then search_loop k v needle l (m - 1)
                    else Some (Some m)))
      else Some None)"

declare search_loop.simps [simp del]

lemma search_loop_ends:
  assumes "h - l < 2 ^ k"
  shows "search_loop k v needle l h = Some (find_obj v needle l h)"
  using assms
proof (induction k arbitrary: l h)
  case 0
  then show ?case by (simp add: search_loop.simps find_obj.simps)
next
  case (Suc k)
  let ?m = "(l + h) div 2"
  have "h - (?m + 1) < 2 ^ k" "?m - 1 - l < 2 ^ k" using Suc.prems by auto
  note halves = Suc.IH [OF this(1)] Suc.IH [OF this(2)]
  show ?case
    by (subst search_loop.simps, subst find_obj.simps) (simp add: Let_def halves)
qed

definition deleteObjKeyFromIndex ::
    "('t, 'i) kv \<Rightarrow> 't \<Rightarrow> bytes \<Rightarrow> bytes \<Rightarrow> (index_error, 't) result" where
  "deleteObjKeyFromIndex kv txn key needle =
     (case kv_get kv txn key of
        Inl err \<Rightarrow> if err = ErrKeyNotFound then Inr txn else Inl (IndexKv err)
      | Inr item \<Rightarrow>
          result_bind (map_error IndexKv (kv_value kv item)) (\<lambda>v.
          (case find_obj v needle 0 (int (numObjects v)) of
             None \<Rightarrow> Inr txn
           | Some m \<Rightarrow>
               map_error IndexKv
                 (kv_set kv txn key
                    (take (nat m * objKeySize) v @ drop ((nat m + 1) * objKeySize) v)))))"

text \<open>
  \<open>intersectIndexes\<close> ranges over a Go map, in an unspecified order: \<open>arrange\<close> is the order,
  any permutation of the keys.
\<close>

definition intersectIndexes ::
    "(bytes list \<Rightarrow> bytes list) \<Rightarrow> bytes list \<Rightarrow> bytes list option" where
  "intersectIndexes arrange indexVals =
     (case indexVals of
        [] \<Rightarrow> Some []
      | v # vs \<Rightarrow>
          (case (splitObjects v, those (map splitObjects vs)) of
             (Some cmp, Some sets) \<Rightarrow>
               Some (arrange (filter (\<lambda>k. \<forall>s \<in> set sets. k \<in> set s) (remdups cmp)))
           | _ \<Rightarrow> None))"

fun read_values :: "('t, 'i) kv \<Rightarrow> 't \<Rightarrow> bytes list \<Rightarrow> (index_error, bytes list) result" where
  "read_values kv txn [] = Inr []"
| "read_values kv txn (idx # idxs) =
     result_bind (map_error IndexKv (kv_get kv txn idx)) (\<lambda>item.
     result_bind (map_error IndexKv (kv_value kv item)) (\<lambda>v.
     result_bind (read_values kv txn idxs) (\<lambda>vs. Inr (v # vs))))"

definition readObjKeysFromIndexes :: "('t, 'i) kv \<Rightarrow> (bytes list \<Rightarrow> bytes list) \<Rightarrow> 't \<Rightarrow>
    bytes list \<Rightarrow> (index_error, bytes list) result" where
  "readObjKeysFromIndexes kv arrange txn indexes =
     (case indexes of
        [] \<Rightarrow> Inr []
      | [idx] \<Rightarrow>
          (case kv_get kv txn idx of
             Inl err \<Rightarrow> if err = ErrKeyNotFound then Inr [] else Inl (IndexKv err)
           | Inr item \<Rightarrow>
               result_bind (map_error IndexKv (kv_value kv item)) (\<lambda>v.
               of_option IndexPanic (splitObjects v)))
      | _ \<Rightarrow>
          result_bind (read_values kv txn indexes) (\<lambda>vs.
          of_option IndexPanic (intersectIndexes arrange vs)))"

fun delete_relationship_objs :: "('t, 'i) kv \<Rightarrow> 't \<Rightarrow> bytes list \<Rightarrow> (index_error, 't) result" where
  "delete_relationship_objs kv txn [] = Inr txn"
| "delete_relationship_objs kv txn (obj # objs) =
     result_bind (map_error IndexKv (kv_delete kv txn (buildKey [relationshipKey, obj])))
       (\<lambda>txn'. delete_relationship_objs kv txn' objs)"

definition deleteIndexedObjects :: "('t, 'i) kv \<Rightarrow> (bytes list \<Rightarrow> bytes list) \<Rightarrow> 't \<Rightarrow> bytes \<Rightarrow>
    (index_error, bytes list \<times> 't) result" where
  "deleteIndexedObjects kv arrange txn idxPrefix =
     result_bind (readObjKeysFromIndexes kv arrange txn [idxPrefix]) (\<lambda>objs.
     result_bind (delete_relationship_objs kv txn objs) (\<lambda>txn'. Inr (objs, txn')))"

section \<open>Index values as sorted lists of hashes\<close>

definition hash_list :: "bytes list \<Rightarrow> bool" where
  "hash_list hs \<longleftrightarrow> (\<forall>h \<in> set hs. length h = objKeySize)"

lemma splitObjects_concat: "hash_list hs \<Longrightarrow> splitObjects (concat hs) = Some hs"
proof (induction hs)
  case Nil
  then show ?case by (simp add: splitObjects.simps)
next
  case (Cons h hs)
  then have "length h = objKeySize" "h \<noteq> []" "splitObjects (concat hs) = Some hs"
    by (auto simp: hash_list_def objKeySize_def)
  then show ?case by (simp add: splitObjects.simps [of "h @ concat hs"])
qed

lemma splitObjects_Some:
  "splitObjects b = Some hs \<Longrightarrow> b = concat hs \<and> hash_list hs"
proof (induction b arbitrary: hs rule: splitObjects.induct)
  case (1 b)
  show ?case
  proof (cases "b = [] \<or> length b < objKeySize")
    case True
    with "1.prems" show ?thesis
      by (auto simp: splitObjects.simps [of b] hash_list_def split: if_splits)
  next
    case False
    with "1.prems" obtain hs' where hs': "splitObjects (drop objKeySize b) = Some hs'"
      "hs = take objKeySize b # hs'"
      by (auto simp: splitObjects.simps [of b])
    with "1.IH" False have "drop objKeySize b = concat hs' \<and> hash_list hs'" by auto
    with False hs'(2) show ?thesis
      by (auto simp: hash_list_def) (metis append_take_drop_id)
  qed
qed

text \<open>An index value is well formed when it is the concatenation of sorted hashes.\<close>

definition index_value :: "bytes \<Rightarrow> bool" where
  "index_value v \<longleftrightarrow> (\<exists>hs. splitObjects v = Some hs \<and> sorted hs)"

lemma index_value_concat: "hash_list hs \<Longrightarrow> sorted hs \<Longrightarrow> index_value (concat hs)"
  by (auto simp: index_value_def splitObjects_concat)

lemma hash_list_append: "hash_list (xs @ ys) \<longleftrightarrow> hash_list xs \<and> hash_list ys"
  by (auto simp: hash_list_def)

lemma hash_list_sort: "hash_list (sort xs) \<longleftrightarrow> hash_list xs"
  by (simp add: hash_list_def)

lemma length_concat_hash_list: "hash_list hs \<Longrightarrow> length (concat hs) = length hs * objKeySize"
  by (induction hs) (auto simp: hash_list_def)

lemma numObjects_concat: "hash_list hs \<Longrightarrow> numObjects (concat hs) = length hs"
  by (simp add: numObjects_def length_concat_hash_list objKeySize_def)

lemma drop_concat_hash_list: "hash_list hs \<Longrightarrow> drop (n * objKeySize) (concat hs) = concat (drop n hs)"
proof (induction hs arbitrary: n)
  case Nil
  then show ?case by simp
next
  case (Cons h hs)
  then show ?case by (cases n) (auto simp: hash_list_def)
qed

lemma take_concat_hash_list: "hash_list hs \<Longrightarrow> take (n * objKeySize) (concat hs) = concat (take n hs)"
proof (induction hs arbitrary: n)
  case Nil
  then show ?case by simp
next
  case (Cons h hs)
  then show ?case by (cases n) (auto simp: hash_list_def)
qed

lemma obj_at_concat:
  assumes "hash_list hs" "0 \<le> m" "nat m < length hs"
  shows "obj_at (concat hs) m = hs ! nat m"
proof -
  have "drop (nat m) hs = hs ! nat m # drop (Suc (nat m)) hs"
    using assms(3) by (simp add: Cons_nth_drop_Suc)
  moreover have "length (hs ! nat m) = objKeySize"
    using assms(1,3) by (simp add: hash_list_def)
  ultimately show ?thesis
    by (simp add: obj_at_def drop_concat_hash_list [OF assms(1)])
qed

text \<open>The search only returns positions that hold the value: what it removes is right.\<close>

lemma find_obj_sound:
  assumes "hash_list hs"
  shows "0 \<le> l \<Longrightarrow> h \<le> int (length hs) \<Longrightarrow> find_obj (concat hs) needle l h = Some m \<Longrightarrow>
     0 \<le> m \<and> nat m < length hs \<and> hs ! nat m = needle"
proof (induction "concat hs" needle l h rule: find_obj.induct)
  case (1 needle l h)
  show ?case
  proof (cases "l < h")
    case False
    with "1.prems" show ?thesis by (simp add: find_obj.simps [of "concat hs" needle l h])
  next
    case True
    define k where "k = (l + h) div 2"
    have k: "0 \<le> k" "nat k < length hs" "l \<le> k" "k < h"
      using True "1.prems" by (auto simp: k_def)
    note eq = find_obj.simps [of "concat hs" needle l h, folded k_def]
    consider "hs ! nat k < needle" | "hs ! nat k > needle" | "hs ! nat k = needle"
      by (meson linorder_cases)
    then show ?thesis
    proof cases
      case 1
      then show ?thesis
        using "1.hyps"(1) [OF True k_def refl] "1.prems" True k eq obj_at_concat [OF assms k(1,2)]
        by (simp add: Let_def)
    next
      case 2
      then have "\<not> hs ! nat k < needle" by (rule order_less_not_sym)
      then show ?thesis
        using 2 "1.hyps"(2) [OF True k_def refl] "1.prems" True k eq
          obj_at_concat [OF assms k(1,2)]
        by (simp add: Let_def)
    next
      case 3
      then show ?thesis
        using "1.prems" True k eq obj_at_concat [OF assms k(1,2)] by (simp add: Let_def)
    qed
  qed
qed

end
