(* ===== verification/ResourceStore.thy ===== *)
theory ResourceStore
  imports StoreEvents StoreIndex
begin

text \<open>
  The operations of the resource store, \<open>internal/resource/store/store.go\<close>. Each method runs
  under the store's mutex, so one call is one step of the model; \<open>s\<close> is the store before it.
  Outside code is passed in: the database \<open>kv\<close> (see \<open>StoreIndex\<close>), and in the record
  \<open>env\<close> the protobuf codecs and SHA-256. The current time is an argument.

  A method returns \<open>Inl\<close> of its error, and then the store is unchanged: \<open>badger.Update\<close> drops
  the writes of a function that fails. A nil-pointer or slice panic is an error value too.
\<close>

section \<open>State and environment\<close>

record 't store =
  st_closed :: bool
  st_db :: 't
  st_subscribers :: "subscriber list"

record codec =
  marshal_resource :: "resource \<Rightarrow> bytes option"
  unmarshal_resource :: "bytes \<Rightarrow> resource option"
  marshal_relationship :: "relationship \<Rightarrow> bytes option"
  unmarshal_relationship :: "bytes \<Rightarrow> relationship option"
  sha256 :: "bytes \<Rightarrow> bytes"

datatype store_error =
  StoreClosed
| EncodeKeyFailed key_error
| ResourceAlreadyExists
| KvError kv_error
| IndexError index_error
| MarshalFailed
| UnmarshalFailed
| NilMetadataPanic
| ErrResourceNotFound
| ErrRelationshipsNotFound
| PredicateNil
| SubjectEqualsObject

definition resourceTypeUrl :: bytes where
  "resourceTypeUrl = ''type.googleapis.com/resource.v1.Resource''"

definition relationshipTypeUrl :: bytes where
  "relationshipTypeUrl = ''type.googleapis.com/resource.v1.Relationship''"

definition resource_event :: "event_type \<Rightarrow> type_descriptor option \<Rightarrow> bytes \<Rightarrow> bytes \<Rightarrow> event" where
  "resource_event ty td url val =
     \<lparr>ev_type = ty, ev_objs =
        [\<lparr>obj_type = td, obj_object = Some \<lparr>any_type_url = url, any_value = val\<rparr>,
          obj_ttl = None, obj_delta_version = ''''\<rparr>]\<rparr>"

definition emit :: "event \<Rightarrow> 't store \<Rightarrow> 't store" where
  "emit e s = s\<lparr>st_subscribers := routeEvent e (st_subscribers s)\<rparr>"

text \<open>\<open>badger.Update\<close>: run the function on the transaction, commit what it wrote.\<close>

definition kv_update :: "('t, 'i) kv \<Rightarrow> 't \<Rightarrow> ('t \<Rightarrow> (store_error, 'a \<times> 't) result) \<Rightarrow>
    (store_error, 'a \<times> 't) result" where
  "kv_update kv d f =
     result_bind (f d) (\<lambda>(a, t).
     result_bind (map_error KvError (kv_commit kv d t)) (\<lambda>d'. Inr (a, d')))"

section \<open>Resources\<close>

definition set_times :: "timestamp option \<Rightarrow> timestamp \<Rightarrow> resource \<Rightarrow> (store_error, resource) result" where
  "set_times created updated r =
     (case rsrc_metadata r of
        None \<Rightarrow> Inl NilMetadataPanic
      | Some m \<Rightarrow> Inr (r\<lparr>rsrc_metadata :=
          Some (m\<lparr>meta_created_at := created, meta_updated_at := Some updated\<rparr>)\<rparr>))"

text \<open>Stamp, marshal and write a resource: the body shared by adding and updating.\<close>

definition write_resource :: "('t, 'i) kv \<Rightarrow> codec \<Rightarrow> 't \<Rightarrow> bytes \<Rightarrow> timestamp option \<Rightarrow> timestamp \<Rightarrow>
    resource \<Rightarrow> (store_error, (resource \<times> bytes) \<times> 't) result" where
  "write_resource kv env txn key created updated rsrc =
     result_bind (set_times created updated rsrc) (\<lambda>rsrc'.
     result_bind (of_option MarshalFailed (marshal_resource env rsrc')) (\<lambda>val.
     result_bind (map_error KvError (kv_set kv txn key val)) (\<lambda>txn'.
     Inr ((rsrc', val), txn'))))"

definition AddResource :: "('t, 'i) kv \<Rightarrow> codec \<Rightarrow> timestamp \<Rightarrow> resource \<Rightarrow> 't store \<Rightarrow>
    (store_error, resource \<times> 't store) result" where
  "AddResource kv env now rsrc s =
     (if st_closed s then Inl StoreClosed
      else
        result_bind (map_error EncodeKeyFailed (encodeResourceKey (Some (ref rsrc)))) (\<lambda>r.
        let key = buildKey [resourceKey, r] in
        result_bind (kv_update kv (st_db s) (\<lambda>txn.
            case kv_get kv txn key of
              Inr _ \<Rightarrow> Inl ResourceAlreadyExists
            | Inl err \<Rightarrow>
                if err \<noteq> ErrKeyNotFound then Inl (KvError err)
                else write_resource kv env txn key (Some now) now rsrc)) (\<lambda>((rsrc', val), db).
        Inr (rsrc', emit (resource_event EventTypeAdd (rsrc_type rsrc') resourceTypeUrl val)
                      (s\<lparr>st_db := db\<rparr>)))))"

definition UpdateResource :: "('t, 'i) kv \<Rightarrow> codec \<Rightarrow> timestamp \<Rightarrow> resource \<Rightarrow> 't store \<Rightarrow>
    (store_error, resource \<times> 't store) result" where
  "UpdateResource kv env now rsrc s =
     (if st_closed s then Inl StoreClosed
      else
        result_bind (map_error EncodeKeyFailed (encodeResourceKey (Some (ref rsrc)))) (\<lambda>r.
        let key = buildKey [resourceKey, r] in
        result_bind (kv_update kv (st_db s) (\<lambda>txn.
            case kv_get kv txn key of
              Inl err \<Rightarrow>
                if err = ErrKeyNotFound then write_resource kv env txn key (Some now) now rsrc
                else Inl (KvError err)
            | Inr item \<Rightarrow>
                result_bind (map_error KvError (kv_value kv item)) (\<lambda>v.
                result_bind (of_option UnmarshalFailed (unmarshal_resource env v)) (\<lambda>old.
                write_resource kv env txn key
                  (get_or None meta_created_at (rsrc_metadata old)) now rsrc)))) (\<lambda>((rsrc', val), db).
        Inr (rsrc', emit (resource_event EventTypeUpdate (rsrc_type rsrc') resourceTypeUrl val)
                      (s\<lparr>st_db := db\<rparr>)))))"

definition GetResource :: "('t, 'i) kv \<Rightarrow> codec \<Rightarrow> resource_ref option \<Rightarrow> 't store \<Rightarrow>
    (store_error, resource) result" where
  "GetResource kv env p s =
     (if st_closed s then Inl StoreClosed
      else
        result_bind (map_error EncodeKeyFailed (encodeResourceKey p)) (\<lambda>r.
        let key = buildKey [resourceKey, r] in
        case result_bind (kv_get kv (st_db s) key) (kv_value kv) of
          Inl err \<Rightarrow> Inl (if err = ErrKeyNotFound then ErrResourceNotFound else KvError err)
        | Inr v \<Rightarrow> of_option UnmarshalFailed (unmarshal_resource env v)))"

section \<open>Deleting a resource\<close>

fun delete_from_index :: "('t, 'i) kv \<Rightarrow> 't \<Rightarrow> bytes \<Rightarrow> bytes list \<Rightarrow> (index_error, 't) result" where
  "delete_from_index kv txn key [] = Inr txn"
| "delete_from_index kv txn key (obj # objs) =
     result_bind (deleteObjKeyFromIndex kv txn key obj) (\<lambda>txn'. delete_from_index kv txn' key objs)"

text \<open>The loop over the iterator; \<open>item.Value\<close> reads the item before its callback runs.\<close>

fun clean_indexes :: "('t, 'i) kv \<Rightarrow> 't \<Rightarrow> (bytes \<times> 'i) list \<Rightarrow> bytes list \<Rightarrow> (index_error, 't) result" where
  "clean_indexes kv txn [] objs = Inr txn"
| "clean_indexes kv txn ((key, item) # items) objs =
     result_bind (map_error IndexKv (kv_value kv item)) (\<lambda>_.
     result_bind (delete_from_index kv txn key objs) (\<lambda>txn'.
     clean_indexes kv txn' items objs))"

text \<open>\<open>txn.Delete\<close> of a missing key is accepted: \<open>ErrKeyNotFound\<close> is ignored.\<close>

definition delete_ignoring_missing :: "('t, 'i) kv \<Rightarrow> 't \<Rightarrow> bytes \<Rightarrow> (index_error, 't) result" where
  "delete_ignoring_missing kv txn key =
     (case kv_delete kv txn key of
        Inr txn' \<Rightarrow> Inr txn'
      | Inl err \<Rightarrow> if err = ErrKeyNotFound then Inr txn else Inl (IndexKv err))"

definition delete_txn :: "('t, 'i) kv \<Rightarrow> (bytes list \<Rightarrow> bytes list) \<Rightarrow> bytes \<Rightarrow> 't \<Rightarrow> (index_error, 't) result" where
  "delete_txn kv arrange r txn =
     (let subjectIdxLookup = buildKey [index, subjectIdx, r];
          objectIdxLookup = buildKey [index, objectIdx, r] in
      result_bind (deleteIndexedObjects kv arrange txn subjectIdxLookup) (\<lambda>(delSubjectObjs, txn1).
      result_bind (deleteIndexedObjects kv arrange txn1 objectIdxLookup) (\<lambda>(delObjectObjs, txn2).
      let delObjs = delSubjectObjs @ delObjectObjs in
      result_bind (delete_ignoring_missing kv txn2 subjectIdxLookup) (\<lambda>txn3.
      result_bind (delete_ignoring_missing kv txn3 objectIdxLookup) (\<lambda>txn4.
      result_bind (clean_indexes kv txn4 (kv_scan kv txn4 (buildKey [index, predicateIdx])) delObjs) (\<lambda>txn5.
      map_error IndexKv (kv_delete kv txn5 (buildKey [resourceKey, r]))))))))"

definition deleted_resource :: "timestamp \<Rightarrow> resource_ref \<Rightarrow> resource" where
  "deleted_resource now rf =
     \<lparr>rsrc_type = Some \<lparr>td_kind = ''Resource'', td_type = ref_type_url rf\<rparr>,
      rsrc_metadata = Some \<lparr>meta_id = [], meta_provider = 0, meta_provider_id = [],
        meta_account = None, meta_service = [], meta_name = ref_name rf, meta_tags = [],
        meta_provider_group = [], meta_region = [], meta_zone = [], meta_created_at = None,
        meta_updated_at = None, meta_deleted_at = Some now, meta_namespace = ref_namespace rf\<rparr>,
      rsrc_spec = None\<rparr>"

text \<open>The deletion event is marshalled after the transaction: when that fails, the method
  returns an error although the resource is gone, so the result carries the store too.\<close>

definition DeleteResource :: "('t, 'i) kv \<Rightarrow> codec \<Rightarrow> (bytes list \<Rightarrow> bytes list) \<Rightarrow> timestamp \<Rightarrow>
    resource_ref option \<Rightarrow> 't store \<Rightarrow> store_error option \<times> 't store" where
  "DeleteResource kv env arrange now p s =
     (if st_closed s then (Some StoreClosed, s)
      else (case map_error EncodeKeyFailed (encodeResourceKey p) of
              Inl e \<Rightarrow> (Some e, s)
            | Inr r \<Rightarrow>
                (case kv_update kv (st_db s) (\<lambda>txn.
                     map_error IndexError (result_bind (delete_txn kv arrange r txn) (\<lambda>t. Inr ((), t)))) of
                   Inl e \<Rightarrow> (Some e, s)
                 | Inr (_, db) \<Rightarrow>
                     (let s' = s\<lparr>st_db := db\<rparr>; rsrc = deleted_resource now (the p) in
                      case marshal_resource env rsrc of
                        None \<Rightarrow> (Some MarshalFailed, s')
                      | Some val \<Rightarrow>
                          (None, emit (resource_event EventTypeDelete (rsrc_type rsrc) resourceTypeUrl val) s')))))"

section \<open>Relationships\<close>

fun check_relationships :: "relationship list \<Rightarrow> store_error option" where
  "check_relationships [] = None"
| "check_relationships (rel # rels) =
     (if rel_predicate rel = None then Some PredicateNil
      else if rel_subject rel = rel_object rel then Some SubjectEqualsObject
      else check_relationships rels)"

definition predicate_name :: "relationship \<Rightarrow> bytes" where
  "predicate_name rel =
     trim_prefix (get_or '''' any_type_url (rel_predicate rel)) ''type.googleapis.com/''"

definition add_relationship :: "('t, 'i) kv \<Rightarrow> codec \<Rightarrow> relationship \<Rightarrow> 't \<Rightarrow>
    (store_error, resource_object \<times> 't) result" where
  "add_relationship kv env rel txn =
     result_bind (of_option MarshalFailed (marshal_relationship env rel)) (\<lambda>val.
     let h = sha256 env val in
     result_bind (map_error KvError (kv_set kv txn (buildKey [relationshipKey, h]) val)) (\<lambda>txn1.
     result_bind (map_error IndexError
       (addObjKeyToIndex kv txn1 (buildKey [index, predicateIdx, predicate_name rel]) h)) (\<lambda>txn2.
     result_bind (map_error EncodeKeyFailed (encodeResourceKey (rel_object rel))) (\<lambda>objectKey.
     result_bind (map_error IndexError
       (addObjKeyToIndex kv txn2 (buildKey [index, objectIdx, objectKey]) h)) (\<lambda>txn3.
     result_bind (map_error EncodeKeyFailed (encodeResourceKey (rel_subject rel))) (\<lambda>subjectKey.
     result_bind (map_error IndexError
       (addObjKeyToIndex kv txn3 (buildKey [index, subjectIdx, subjectKey]) h)) (\<lambda>txn4.
     Inr (\<lparr>obj_type = rel_type rel,
           obj_object = Some \<lparr>any_type_url = relationshipTypeUrl, any_value = val\<rparr>,
           obj_ttl = None, obj_delta_version = ''''\<rparr>, txn4))))))))"

fun add_relationships_loop :: "('t, 'i) kv \<Rightarrow> codec \<Rightarrow> relationship list \<Rightarrow> 't \<Rightarrow>
    (store_error, resource_object list \<times> 't) result" where
  "add_relationships_loop kv env [] txn = Inr ([], txn)"
| "add_relationships_loop kv env (rel # rels) txn =
     result_bind (add_relationship kv env rel txn) (\<lambda>(obj, txn').
     result_bind (add_relationships_loop kv env rels txn') (\<lambda>(objs, txn'').
     Inr (obj # objs, txn'')))"

text \<open>One event per object, so that subscribers can filter.\<close>

definition emit_each :: "resource_object list \<Rightarrow> 't store \<Rightarrow> 't store" where
  "emit_each objs s = fold (\<lambda>obj. emit \<lparr>ev_type = EventTypeAdd, ev_objs = [obj]\<rparr>) objs s"

definition AddRelationships :: "('t, 'i) kv \<Rightarrow> codec \<Rightarrow> relationship list \<Rightarrow> 't store \<Rightarrow>
    (store_error, 't store) result" where
  "AddRelationships kv env rels s =
     (case check_relationships rels of
        Some e \<Rightarrow> Inl e
      | None \<Rightarrow>
          if st_closed s then Inl StoreClosed
          else result_bind (kv_update kv (st_db s) (add_relationships_loop kv env rels)) (\<lambda>(objs, db).
               Inr (emit_each objs (s\<lparr>st_db := db\<rparr>))))"

text \<open>
  \<open>GetRelationships\<close>. \<open>predicateT\<close> is the full name of the predicate's message type. The
  function literal appends to \<open>rels\<close> as it goes, so on an error the relationships read before
  it are still there: the result is the list and the error, if any.
\<close>

fun fetch_relationships :: "('t, 'i) kv \<Rightarrow> codec \<Rightarrow> 't \<Rightarrow> bytes list \<Rightarrow>
    relationship list \<times> store_error option" where
  "fetch_relationships kv env txn [] = ([], None)"
| "fetch_relationships kv env txn (obj # objs) =
     (case result_bind (kv_get kv txn (buildKey [relationshipKey, obj])) (kv_value kv) of
        Inl err \<Rightarrow> ([], Some (KvError err))
      | Inr v \<Rightarrow>
          (case unmarshal_relationship env v of
             None \<Rightarrow> ([], Some UnmarshalFailed)
           | Some rel \<Rightarrow>
               (case fetch_relationships kv env txn objs of (rels, e) \<Rightarrow> (rel # rels, e))))"

definition lookup_indexes :: "resource_ref option \<Rightarrow> resource_ref option \<Rightarrow> bytes option \<Rightarrow>
    (store_error, bytes list) result" where
  "lookup_indexes subject object predicateT =
     result_bind (case subject of
         None \<Rightarrow> Inr []
       | Some _ \<Rightarrow> result_bind (map_error EncodeKeyFailed (encodeResourceKey subject))
                     (\<lambda>k. Inr [buildKey [index, subjectIdx, k]])) (\<lambda>subjects.
     result_bind (case object of
         None \<Rightarrow> Inr []
       | Some _ \<Rightarrow> result_bind (map_error EncodeKeyFailed (encodeResourceKey object))
                     (\<lambda>k. Inr [buildKey [index, objectIdx, k]])) (\<lambda>objects.
     Inr (subjects @ objects @
          (case predicateT of None \<Rightarrow> [] | Some p \<Rightarrow> [buildKey [index, predicateIdx, p]]))))"

definition view_relationships :: "('t, 'i) kv \<Rightarrow> codec \<Rightarrow> (bytes list \<Rightarrow> bytes list) \<Rightarrow> 't \<Rightarrow>
    resource_ref option \<Rightarrow> resource_ref option \<Rightarrow> bytes option \<Rightarrow>
    relationship list \<times> store_error option" where
  "view_relationships kv env arrange txn subject object predicateT =
     (case lookup_indexes subject object predicateT of
        Inl e \<Rightarrow> ([], Some e)
      | Inr indexes \<Rightarrow>
          if length indexes = 0 then ([], Some ErrRelationshipsNotFound)
          else (case readObjKeysFromIndexes kv arrange txn indexes of
                  Inl err \<Rightarrow>
                    ([], Some (if err = IndexKv ErrKeyNotFound then ErrRelationshipsNotFound
                               else IndexError err))
                | Inr objs \<Rightarrow> fetch_relationships kv env txn objs))"

definition GetRelationships :: "('t, 'i) kv \<Rightarrow> codec \<Rightarrow> (bytes list \<Rightarrow> bytes list) \<Rightarrow>
    resource_ref option \<Rightarrow> resource_ref option \<Rightarrow> bytes option \<Rightarrow> 't store \<Rightarrow>
    relationship list \<times> store_error option" where
  "GetRelationships kv env arrange subject object predicateT s =
     (if st_closed s then ([], Some StoreClosed)
      else (case view_relationships kv env arrange (st_db s) subject object predicateT of
              (rels, err) \<Rightarrow>
                if length rels = 0 then ([], Some ErrRelationshipsNotFound) else (rels, err)))"

section \<open>Subscriptions and closing\<close>

text \<open>On a closed store \<open>Subscribe\<close> returns a closed channel, which stays outside the list.\<close>

definition Subscribe :: "type_descriptor option list \<Rightarrow> 't store \<Rightarrow> subscriber \<times> 't store" where
  "Subscribe tds s =
     (if st_closed s
      then (\<lparr>sub_ch = [], sub_closed = True, kindMatch = [], typeMatch = []\<rparr>, s)
      else (new_subscriber tds, s\<lparr>st_subscribers := st_subscribers s @ [new_subscriber tds]\<rparr>))"

text \<open>What \<open>sendInitialObjects\<close> reads: every readable resource, then every readable
  relationship, that the subscriber's filters match.\<close>

definition initial_resources :: "('t, 'i) kv \<Rightarrow> codec \<Rightarrow> 't \<Rightarrow> subscriber \<Rightarrow> resource_object list" where
  "initial_resources kv env txn sub =
     concat (map (\<lambda>(k, item).
        case kv_value kv item of
          Inl _ \<Rightarrow> []
        | Inr v \<Rightarrow>
            (case unmarshal_resource env v of
               None \<Rightarrow> []
             | Some r \<Rightarrow>
                 if sub_match sub (rsrc_type r)
                 then [\<lparr>obj_type = rsrc_type r,
                        obj_object = Some \<lparr>any_type_url = resourceTypeUrl, any_value = v\<rparr>,
                        obj_ttl = None, obj_delta_version = ''''\<rparr>]
                 else []))
       (kv_scan kv txn (buildKey [resourceKey])))"

definition initial_relationships :: "('t, 'i) kv \<Rightarrow> codec \<Rightarrow> 't \<Rightarrow> subscriber \<Rightarrow> resource_object list" where
  "initial_relationships kv env txn sub =
     concat (map (\<lambda>(k, item).
        case kv_value kv item of
          Inl _ \<Rightarrow> []
        | Inr v \<Rightarrow>
            (case unmarshal_relationship env v of
               None \<Rightarrow> []
             | Some r \<Rightarrow>
                 if sub_match sub (rel_type r)
                 then [\<lparr>obj_type = rel_type r,
                        obj_object = Some \<lparr>any_type_url = relationshipTypeUrl, any_value = v\<rparr>,
                        obj_ttl = None, obj_delta_version = ''''\<rparr>]
                 else []))
       (kv_scan kv txn (buildKey [relationshipKey])))"

definition sendInitialObjects :: "('t, 'i) kv \<Rightarrow> codec \<Rightarrow> 't \<Rightarrow> subscriber \<Rightarrow> subscriber" where
  "sendInitialObjects kv env txn sub =
     (let objs = initial_resources kv env txn sub @ initial_relationships kv env txn sub
      in if length objs > 0 then sub_send \<lparr>ev_type = EventTypeAdd, ev_objs = objs\<rparr> sub else sub)"

definition Close :: "kv_error option \<Rightarrow> 't store \<Rightarrow> kv_error option \<times> 't store" where
  "Close db_close_err s =
     (if st_closed s then (None, s)
      else (db_close_err, s\<lparr>st_subscribers := stopRouter (st_subscribers s), st_closed := True\<rparr>))"

end
