(* ===== verification/StoreLaws.thy ===== *)
theory StoreLaws
  imports ResourceStore
begin

text \<open>
  What the resource store guarantees on a database that keeps its promises (\<open>kv_laws\<close>): the
  effect of every method on the key-value map, what a read returns after a write, and the
  invariant that ties the relationship indexes to the stored relationships.
\<close>

section \<open>Keys of different kinds differ\<close>

abbreviation rsrc_key :: "bytes \<Rightarrow> bytes" where
  "rsrc_key k \<equiv> buildKey [resourceKey, k]"

abbreviation rel_key :: "bytes \<Rightarrow> bytes" where
  "rel_key h \<equiv> buildKey [relationshipKey, h]"

abbreviation subject_key :: "bytes \<Rightarrow> bytes" where
  "subject_key k \<equiv> buildKey [index, subjectIdx, k]"

abbreviation object_key :: "bytes \<Rightarrow> bytes" where
  "object_key k \<equiv> buildKey [index, objectIdx, k]"

abbreviation predicate_key :: "bytes \<Rightarrow> bytes" where
  "predicate_key k \<equiv> buildKey [index, predicateIdx, k]"

definition index_key :: "bytes \<Rightarrow> bool" where
  "index_key k \<longleftrightarrow> has_prefix k ''/idx''"

lemma buildKey_nonempty [simp]: "p \<noteq> [] \<Longrightarrow> buildKey (p # ps) \<noteq> []"
  by simp

lemma key_part_nonempty [simp]:
  "resourceKey \<noteq> []" "relationshipKey \<noteq> []" "index \<noteq> []"
  "subjectIdx \<noteq> []" "objectIdx \<noteq> []" "predicateIdx \<noteq> []"
  by (simp_all add: key_parts)

lemma buildKey_eq_iff:
  "rsrc_key k = rsrc_key k' \<longleftrightarrow> k = k'"
  "rel_key k = rel_key k' \<longleftrightarrow> k = k'"
  "subject_key k = subject_key k' \<longleftrightarrow> k = k'"
  "object_key k = object_key k' \<longleftrightarrow> k = k'"
  "predicate_key k = predicate_key k' \<longleftrightarrow> k = k'"
  by (auto simp: key_parts)

lemma key_kinds_differ:
  "rsrc_key k \<noteq> rel_key h" "rel_key h \<noteq> rsrc_key k"
  "subject_key k \<noteq> object_key k'" "object_key k' \<noteq> subject_key k"
  "subject_key k \<noteq> predicate_key k'" "predicate_key k' \<noteq> subject_key k"
  "object_key k \<noteq> predicate_key k'" "predicate_key k' \<noteq> object_key k"
  by (auto simp: key_parts)

lemma index_key_simps:
  "index_key (subject_key k)" "index_key (object_key k)" "index_key (predicate_key k)"
  "\<not> index_key (rsrc_key k)" "\<not> index_key (rel_key k)"
  by (auto simp: index_key_def key_parts has_prefix_def)

lemma index_key_neq:
  "index_key ik \<Longrightarrow> ik \<noteq> rsrc_key k" "index_key ik \<Longrightarrow> ik \<noteq> rel_key k"
  "index_key ik \<Longrightarrow> rsrc_key k \<noteq> ik" "index_key ik \<Longrightarrow> rel_key k \<noteq> ik"
  using index_key_simps by metis+

lemmas store_keys = buildKey_eq_iff key_kinds_differ index_key_simps index_key_neq

declare buildKey.simps [simp del]

lemma buildKey_never_empty [simp]:
  "rsrc_key k \<noteq> []" "rel_key k \<noteq> []" "subject_key k \<noteq> []" "object_key k \<noteq> []" "predicate_key k \<noteq> []"
  by (auto simp: key_parts buildKey.simps)

section \<open>Reading and committing\<close>

lemma kv_read_Some:
  assumes "kv_laws kv" "kv_map kv t k = Some v"
  shows "result_bind (kv_get kv t k) (kv_value kv) = Inr v"
  using kv_get_Some [OF kv_lawsD(1) [OF assms(1)] assms(2)] by auto

lemma kv_read_None:
  assumes "kv_laws kv" "kv_map kv t k = None"
  shows "result_bind (kv_get kv t k) (kv_value kv) = Inl ErrKeyNotFound"
  using kv_get_None [OF kv_lawsD(1) [OF assms(1)] assms(2)] by simp

lemma kv_update_Inr:
  assumes "kv_laws kv" "f d = Inr (a, t)"
  shows "\<exists>d'. kv_update kv d f = Inr (a, d') \<and> kv_map kv d' = kv_map kv t"
proof -
  obtain d' where "kv_commit kv d t = Inr d'" "kv_map kv d' = kv_map kv t"
    using kv_lawsD(4) [OF assms(1)] unfolding kv_commits_def by blast
  then show ?thesis using assms(2) by (simp add: kv_update_def)
qed

lemma kv_update_Inl: "f d = Inl e \<Longrightarrow> kv_update kv d f = Inl e"
  by (simp add: kv_update_def)

section \<open>Resources\<close>

text \<open>The resource as it is stored: the timestamps filled in.\<close>

definition stamped :: "timestamp option \<Rightarrow> timestamp \<Rightarrow> resource \<Rightarrow> resource" where
  "stamped created updated r =
     r\<lparr>rsrc_metadata := map_option (\<lambda>m. m\<lparr>meta_created_at := created, meta_updated_at := Some updated\<rparr>)
        (rsrc_metadata r)\<rparr>"

lemma set_times_Some: "rsrc_metadata r \<noteq> None \<Longrightarrow> set_times c u r = Inr (stamped c u r)"
  by (auto simp: set_times_def stamped_def)

lemma stamped_simps [simp]:
  "rsrc_type (stamped c u r) = rsrc_type r"
  "rsrc_spec (stamped c u r) = rsrc_spec r"
  "ref (stamped c u r) = ref r"
  "rsrc_metadata (stamped c u r) = None \<longleftrightarrow> rsrc_metadata r = None"
  by (auto simp: stamped_def ref_def get_or_def split: option.splits)

lemma stamped_created:
  "rsrc_metadata r \<noteq> None \<Longrightarrow> get_or None meta_created_at (rsrc_metadata (stamped c u r)) = c"
  by (auto simp: stamped_def)

text \<open>The stored value of a resource key, decoded.\<close>

definition stored :: "('t, 'i) kv \<Rightarrow> codec \<Rightarrow> 't store \<Rightarrow> bytes \<Rightarrow> resource option" where
  "stored kv env s k = Option.bind (kv_map kv (st_db s) (rsrc_key k)) (unmarshal_resource env)"

text \<open>What the protobuf codec promises of a value it wrote.\<close>

definition codec_roundtrip :: "codec \<Rightarrow> bool" where
  "codec_roundtrip env \<longleftrightarrow>
     (\<forall>r v. marshal_resource env r = Some v \<longrightarrow> unmarshal_resource env v = Some r) \<and>
     (\<forall>r v. marshal_relationship env r = Some v \<longrightarrow> unmarshal_relationship env v = Some r)"

lemma codec_roundtripD:
  "codec_roundtrip env \<Longrightarrow> marshal_resource env r = Some v \<Longrightarrow> unmarshal_resource env v = Some r"
  "codec_roundtrip env \<Longrightarrow> marshal_relationship env rel = Some v \<Longrightarrow>
     unmarshal_relationship env v = Some rel"
  by (auto simp: codec_roundtrip_def)

lemma write_resource_spec:
  assumes "kv_laws kv" "rsrc_metadata r \<noteq> None" "marshal_resource env (stamped c u r) = Some v"
    and "key \<noteq> []"
  shows "\<exists>t'. write_resource kv env t key c u r = Inr ((stamped c u r, v), t') \<and>
    kv_map kv t' = (kv_map kv t)(key \<mapsto> v)"
  using kv_set_map [OF kv_lawsD(2) [OF assms(1)] assms(4), of t v] assms(2,3)
  by (auto simp: write_resource_def set_times_Some)

lemma AddResource_new:
  assumes "kv_laws kv" "\<not> st_closed s" "encodeResourceKey (Some (ref r)) = Inr k"
    and "kv_map kv (st_db s) (rsrc_key k) = None" "rsrc_metadata r \<noteq> None"
    and "marshal_resource env (stamped (Some now) now r) = Some v"
  shows "\<exists>db. AddResource kv env now r s =
      Inr (stamped (Some now) now r,
           emit (resource_event EventTypeAdd (rsrc_type r) resourceTypeUrl v) (s\<lparr>st_db := db\<rparr>)) \<and>
    kv_map kv db = (kv_map kv (st_db s))(rsrc_key k \<mapsto> v)"
proof -
  have get: "kv_get kv (st_db s) (rsrc_key k) = Inl ErrKeyNotFound"
    by (rule kv_get_None [OF kv_lawsD(1) [OF assms(1)] assms(4)])
  obtain t where t: "write_resource kv env (st_db s) (rsrc_key k) (Some now) now r =
      Inr ((stamped (Some now) now r, v), t)"
      "kv_map kv t = (kv_map kv (st_db s))(rsrc_key k \<mapsto> v)"
    using write_resource_spec [OF assms(1,5,6), of "rsrc_key k" "st_db s"] by auto
  define f where "f = (\<lambda>txn. case kv_get kv txn (rsrc_key k) of
      Inr _ \<Rightarrow> Inl ResourceAlreadyExists
    | Inl err \<Rightarrow> if err \<noteq> ErrKeyNotFound then Inl (KvError err)
                else write_resource kv env txn (rsrc_key k) (Some now) now r)"
  have "f (st_db s) = Inr ((stamped (Some now) now r, v), t)"
    by (simp add: f_def get t(1))
  from kv_update_Inr [where f = f, OF assms(1) this] t(2) show ?thesis
    using assms(2,3) by (auto simp: AddResource_def f_def)
qed

lemma AddResource_exists:
  assumes "kv_laws kv" "\<not> st_closed s" "encodeResourceKey (Some (ref r)) = Inr k"
    and "kv_map kv (st_db s) (rsrc_key k) \<noteq> None"
  shows "AddResource kv env now r s = Inl ResourceAlreadyExists"
proof -
  obtain i where "kv_get kv (st_db s) (rsrc_key k) = Inr i"
    using kv_get_Some [OF kv_lawsD(1) [OF assms(1)]] assms(4) by blast
  then show ?thesis using assms(2,3) by (simp add: AddResource_def kv_update_def)
qed

lemma GetResource_spec:
  assumes "kv_laws kv" "\<not> st_closed s" "encodeResourceKey p = Inr k"
  shows "GetResource kv env p s =
    (case kv_map kv (st_db s) (rsrc_key k) of
       None \<Rightarrow> Inl ErrResourceNotFound
     | Some v \<Rightarrow> of_option UnmarshalFailed (unmarshal_resource env v))"
  using assms(2,3) kv_read_Some [OF assms(1)] kv_read_None [OF assms(1)]
  by (auto simp: GetResource_def split: option.splits)

lemma UpdateResource_spec:
  assumes "kv_laws kv" "\<not> st_closed s" "encodeResourceKey (Some (ref r)) = Inr k"
    and "created = (case kv_map kv (st_db s) (rsrc_key k) of
           None \<Rightarrow> Some now
         | Some w \<Rightarrow> get_or None meta_created_at (rsrc_metadata (the (unmarshal_resource env w))))"
    and "\<And>w. kv_map kv (st_db s) (rsrc_key k) = Some w \<Longrightarrow> unmarshal_resource env w \<noteq> None"
    and "rsrc_metadata r \<noteq> None" "marshal_resource env (stamped created now r) = Some v"
  shows "\<exists>db. UpdateResource kv env now r s =
      Inr (stamped created now r,
           emit (resource_event EventTypeUpdate (rsrc_type r) resourceTypeUrl v) (s\<lparr>st_db := db\<rparr>)) \<and>
    kv_map kv db = (kv_map kv (st_db s))(rsrc_key k \<mapsto> v)"
proof -
  obtain t where t: "write_resource kv env (st_db s) (rsrc_key k) created now r =
      Inr ((stamped created now r, v), t)"
      "kv_map kv t = (kv_map kv (st_db s))(rsrc_key k \<mapsto> v)"
    using write_resource_spec [OF assms(1,6,7), of "rsrc_key k" "st_db s"] by auto
  define f where "f = (\<lambda>txn. case kv_get kv txn (rsrc_key k) of
      Inl err \<Rightarrow> if err = ErrKeyNotFound then write_resource kv env txn (rsrc_key k) (Some now) now r
                else Inl (KvError err)
    | Inr item \<Rightarrow>
        result_bind (map_error KvError (kv_value kv item)) (\<lambda>v.
        result_bind (of_option UnmarshalFailed (unmarshal_resource env v)) (\<lambda>old.
        write_resource kv env txn (rsrc_key k)
          (get_or None meta_created_at (rsrc_metadata old)) now r)))"
  have "f (st_db s) = Inr ((stamped created now r, v), t)"
  proof (cases "kv_map kv (st_db s) (rsrc_key k)")
    case None
    then show ?thesis
      using kv_get_None [OF kv_lawsD(1) [OF assms(1)] None] t(1) assms(4) by (simp add: f_def)
  next
    case (Some w)
    obtain i where "kv_get kv (st_db s) (rsrc_key k) = Inr i" "kv_value kv i = Inr w"
      using kv_get_Some [OF kv_lawsD(1) [OF assms(1)] Some] by auto
    moreover obtain old where "unmarshal_resource env w = Some old"
      using assms(5) [OF Some] by auto
    ultimately show ?thesis using t(1) assms(4) Some by (simp add: f_def)
  qed
  from kv_update_Inr [where f = f, OF assms(1) this] t(2) show ?thesis
    using assms(2,3) by (auto simp: UpdateResource_def f_def)
qed

lemma emit_simps [simp]:
  "st_db (emit e s) = st_db s" "st_closed (emit e s) = st_closed s"
  "st_subscribers (emit e s) = routeEvent e (st_subscribers s)"
  by (simp_all add: emit_def)

section \<open>Index entries\<close>

text \<open>The hashes an index key lists; an absent key lists none.\<close>

definition hashes :: "('t, 'i) kv \<Rightarrow> 't \<Rightarrow> bytes \<Rightarrow> bytes list" where
  "hashes kv t ik = (case kv_map kv t ik of None \<Rightarrow> [] | Some v \<Rightarrow> the (splitObjects v))"

text \<open>Every index key that is present holds sorted hashes, at least one.\<close>

definition indexes_ok :: "('t, 'i) kv \<Rightarrow> 't \<Rightarrow> bool" where
  "indexes_ok kv t \<longleftrightarrow>
     (\<forall>ik v. index_key ik \<longrightarrow> kv_map kv t ik = Some v \<longrightarrow> index_value v)"

lemma hashes_value:
  assumes "index_value v" "kv_map kv t ik = Some v"
  shows "splitObjects v = Some (hashes kv t ik)" "v = concat (hashes kv t ik)"
    "hash_list (hashes kv t ik)" "sorted (hashes kv t ik)"
  using assms splitObjects_Some [of v] by (auto simp: index_value_def hashes_def)

lemma hashes_ok:
  assumes "indexes_ok kv t" "index_key ik"
  shows "hash_list (hashes kv t ik)" "sorted (hashes kv t ik)"
proof -
  have "hash_list (hashes kv t ik) \<and> sorted (hashes kv t ik)"
  proof (cases "kv_map kv t ik")
    case None
    then show ?thesis by (simp add: hashes_def hash_list_def)
  next
    case (Some v)
    then have "index_value v" using assms by (auto simp: indexes_ok_def)
    from hashes_value [OF this Some] show ?thesis by simp
  qed
  then show "hash_list (hashes kv t ik)" "sorted (hashes kv t ik)" by auto
qed

text \<open>Adding a hash keeps the list sorted and inserts exactly that hash.\<close>

lemma addObjKeyToIndex_spec:
  assumes laws: "kv_laws kv" and ok: "indexes_ok kv t" and ik: "index_key ik" "ik \<noteq> []"
    and h: "length h = objKeySize"
  shows "\<exists>t'. addObjKeyToIndex kv t ik h = Inr t' \<and>
    kv_map kv t' = (kv_map kv t)(ik \<mapsto> concat (sort (hashes kv t ik @ [h])))"
proof (cases "kv_map kv t ik")
  case None
  then show ?thesis
    using kv_get_None [OF kv_lawsD(1) [OF laws] None] kv_set_map [OF kv_lawsD(2) [OF laws] ik(2), of t h]
    by (auto simp: addObjKeyToIndex_def hashes_def)
next
  case (Some v)
  then have v: "index_value v" using ok ik(1) by (auto simp: indexes_ok_def)
  obtain i where i: "kv_get kv t ik = Inr i" "kv_value kv i = Inr v"
    using kv_get_Some [OF kv_lawsD(1) [OF laws] Some] by auto
  have "hash_list (hashes kv t ik @ [h])"
    using hashes_value(3) [OF v Some] h by (simp add: hash_list_def)
  from splitObjects_concat [OF this] have "splitObjects (v @ h) = Some (hashes kv t ik @ [h])"
    using hashes_value(2) [OF v Some] by simp
  then show ?thesis
    using i kv_set_map [OF kv_lawsD(2) [OF laws] ik(2), of t "concat (sort (hashes kv t ik @ [h]))"]
    by (auto simp: addObjKeyToIndex_def)
qed

lemma hashes_insert:
  assumes "kv_map kv t' = (kv_map kv t)(ik \<mapsto> concat (sort hs))" "hash_list hs"
  shows "hashes kv t' ik' = (if ik' = ik then sort hs else hashes kv t ik')"
  using assms splitObjects_concat [of "sort hs"] by (simp add: hashes_def hash_list_sort)

lemma indexes_ok_insert:
  assumes "indexes_ok kv t" "kv_map kv t' = (kv_map kv t)(ik \<mapsto> concat (sort hs))" "hash_list hs"
  shows "indexes_ok kv t'"
  using assms index_value_concat [of "sort hs"]
  by (auto simp: indexes_ok_def hash_list_sort)

lemma indexes_ok_other:
  assumes "indexes_ok kv t" "kv_map kv t' = (kv_map kv t)(k := w)" "\<not> index_key k"
  shows "indexes_ok kv t'" "index_key ik \<Longrightarrow> hashes kv t' ik = hashes kv t ik"
  using assms by (auto simp: indexes_ok_def hashes_def)

text \<open>One call of \<open>addObjKeyToIndex\<close>, in the form the relationship code uses it.\<close>

lemma addObjKeyToIndex_step:
  assumes "kv_laws kv" "indexes_ok kv t" "index_key ik" "ik \<noteq> []" "length h = objKeySize"
  obtains t' where "addObjKeyToIndex kv t ik h = Inr t'" "indexes_ok kv t'"
    "\<And>k. k \<noteq> ik \<Longrightarrow> kv_map kv t' k = kv_map kv t k"
    "\<And>ik'. hashes kv t' ik' = (if ik' = ik then sort (hashes kv t ik @ [h]) else hashes kv t ik')"
proof -
  have hl: "hash_list (hashes kv t ik @ [h])"
    using hashes_ok(1) [OF assms(2,3)] assms(5) by (simp add: hash_list_def)
  obtain t' where "addObjKeyToIndex kv t ik h = Inr t'"
    and eq: "kv_map kv t' = (kv_map kv t)(ik \<mapsto> concat (sort (hashes kv t ik @ [h])))"
    using addObjKeyToIndex_spec [OF assms] by auto
  then show ?thesis
    using that [of t'] indexes_ok_insert [OF assms(2) eq hl] hashes_insert [OF eq hl] by auto
qed

section \<open>Relationships and their indexes\<close>

text \<open>The index keys under which a relationship is listed.\<close>

definition rel_index_keys :: "relationship \<Rightarrow> bytes list" where
  "rel_index_keys rel =
     predicate_key (predicate_name rel) #
     (case encodeResourceKey (rel_object rel) of Inl _ \<Rightarrow> [] | Inr k \<Rightarrow> [object_key k]) @
     (case encodeResourceKey (rel_subject rel) of Inl _ \<Rightarrow> [] | Inr k \<Rightarrow> [subject_key k])"

lemma rel_index_keys_index: "ik \<in> set (rel_index_keys rel) \<Longrightarrow> index_key ik"
  by (auto simp: rel_index_keys_def store_keys split: sum.splits)

lemma rel_index_keys_mem:
  "subject_key k \<in> set (rel_index_keys rel) \<longleftrightarrow> encodeResourceKey (rel_subject rel) = Inr k"
  "object_key k \<in> set (rel_index_keys rel) \<longleftrightarrow> encodeResourceKey (rel_object rel) = Inr k"
  "predicate_key k \<in> set (rel_index_keys rel) \<longleftrightarrow> predicate_name rel = k"
  by (auto simp: rel_index_keys_def store_keys split: sum.splits)

definition rel_stored :: "('t, 'i) kv \<Rightarrow> codec \<Rightarrow> 't \<Rightarrow> bytes \<Rightarrow> relationship \<Rightarrow> bool" where
  "rel_stored kv env t h rel \<longleftrightarrow>
     Option.bind (kv_map kv t (rel_key h)) (unmarshal_relationship env) = Some rel"

text \<open>
  The relationship invariant. \<open>U\<close> is the set of encoded relationships in play, on which the
  hash is assumed collision-free; it bounds the assumption to values that occur. Every stored
  relationship is listed under its index keys. A listed hash belongs to a relationship with that
  key, which need not be stored any more: a delete leaves hashes behind, but never one that is
  listed both under a subject and under an object.
\<close>

definition rels_inv :: "('t, 'i) kv \<Rightarrow> codec \<Rightarrow> bytes set \<Rightarrow> 't \<Rightarrow> bool" where
  "rels_inv kv env U t \<longleftrightarrow>
     indexes_ok kv t \<and>
     (\<forall>h v. kv_map kv t (rel_key h) = Some v \<longrightarrow>
        v \<in> U \<and> h = sha256 env v \<and> unmarshal_relationship env v \<noteq> None) \<and>
     (\<forall>ik h. index_key ik \<longrightarrow> h \<in> set (hashes kv t ik) \<longrightarrow>
        (\<exists>rel. ik \<in> set (rel_index_keys rel) \<and>
           (\<forall>v \<in> U. h = sha256 env v \<longrightarrow> unmarshal_relationship env v = Some rel))) \<and>
     (\<forall>h rel. rel_stored kv env t h rel \<longrightarrow> (\<forall>ik \<in> set (rel_index_keys rel). h \<in> set (hashes kv t ik))) \<and>
     (\<forall>ks ko h. h \<in> set (hashes kv t (subject_key ks)) \<longrightarrow> h \<in> set (hashes kv t (object_key ko)) \<longrightarrow>
        (\<exists>rel. rel_stored kv env t h rel))"

text \<open>A relationship mentions a resource key as its subject or its object.\<close>

definition mentions :: "bytes \<Rightarrow> relationship \<Rightarrow> bool" where
  "mentions k rel \<longleftrightarrow> encodeResourceKey (rel_subject rel) = Inr k \<or> encodeResourceKey (rel_object rel) = Inr k"

lemma rels_invD:
  assumes "rels_inv kv env U t"
  shows "indexes_ok kv t"
    "kv_map kv t (rel_key h) = Some v \<Longrightarrow> v \<in> U \<and> h = sha256 env v \<and> unmarshal_relationship env v \<noteq> None"
    "index_key ik \<Longrightarrow> h \<in> set (hashes kv t ik) \<Longrightarrow>
       \<exists>rel. ik \<in> set (rel_index_keys rel) \<and>
         (\<forall>v \<in> U. h = sha256 env v \<longrightarrow> unmarshal_relationship env v = Some rel)"
    "rel_stored kv env t h rel \<Longrightarrow> ik \<in> set (rel_index_keys rel) \<Longrightarrow> h \<in> set (hashes kv t ik)"
    "h \<in> set (hashes kv t (subject_key ks)) \<Longrightarrow> h \<in> set (hashes kv t (object_key ko)) \<Longrightarrow>
       \<exists>rel. rel_stored kv env t h rel"
  using assms unfolding rels_inv_def by blast+

text \<open>The hash of a stored relationship is listed exactly under its index keys.\<close>

lemma stored_listed_iff:
  assumes "rels_inv kv env U t" "rel_stored kv env t h rel" "index_key ik"
  shows "h \<in> set (hashes kv t ik) \<longleftrightarrow> ik \<in> set (rel_index_keys rel)"
proof
  assume "h \<in> set (hashes kv t ik)"
  from rels_invD(3) [OF assms(1,3) this] obtain rel' where
    rel': "ik \<in> set (rel_index_keys rel')" "\<forall>v \<in> U. h = sha256 env v \<longrightarrow> unmarshal_relationship env v = Some rel'" by blast
  obtain v where v: "kv_map kv t (rel_key h) = Some v" "unmarshal_relationship env v = Some rel"
    using assms(2) by (auto simp: rel_stored_def bind_eq_Some_conv)
  with rels_invD(2) [OF assms(1) v(1)] rel' show "ik \<in> set (rel_index_keys rel)" by auto
qed (rule rels_invD(4) [OF assms(1,2)])

text \<open>A hash whose relationship is not stored has no value at all.\<close>

lemma not_stored_iff:
  assumes "rels_inv kv env U t"
  shows "kv_map kv t (rel_key h) = None \<longleftrightarrow> \<not> (\<exists>rel. rel_stored kv env t h rel)"
  using rels_invD(2) [OF assms, of h]
  by (cases "kv_map kv t (rel_key h)") (auto simp: rel_stored_def)

text \<open>As long as nothing is deleted, every listed relationship is stored.\<close>

definition no_dangling :: "('t, 'i) kv \<Rightarrow> codec \<Rightarrow> 't \<Rightarrow> bool" where
  "no_dangling kv env t \<longleftrightarrow> (\<forall>ik h. index_key ik \<longrightarrow> h \<in> set (hashes kv t ik) \<longrightarrow> (\<exists>rel. rel_stored kv env t h rel))"

text \<open>What the hash promises, on the values in play.\<close>

definition sha_ok :: "codec \<Rightarrow> bytes set \<Rightarrow> bool" where
  "sha_ok env U \<longleftrightarrow> inj_on (sha256 env) U \<and> (\<forall>v. length (sha256 env v) = objKeySize)"

text \<open>The relationship object that the event carries.\<close>

definition relationship_object :: "relationship \<Rightarrow> bytes \<Rightarrow> resource_object" where
  "relationship_object rel val =
     \<lparr>obj_type = rel_type rel,
      obj_object = Some \<lparr>any_type_url = relationshipTypeUrl, any_value = val\<rparr>,
      obj_ttl = None, obj_delta_version = ''''\<rparr>"

text \<open>A relationship that the store can write.\<close>

definition writable :: "codec \<Rightarrow> bytes set \<Rightarrow> relationship \<Rightarrow> bool" where
  "writable env U rel \<longleftrightarrow>
     (\<exists>v. marshal_relationship env rel = Some v \<and> v \<in> U) \<and>
     (\<exists>k. encodeResourceKey (rel_object rel) = Inr k) \<and>
     (\<exists>k. encodeResourceKey (rel_subject rel) = Inr k)"

lemma add_relationship_run:
  assumes laws: "kv_laws kv" and ok: "indexes_ok kv t" and h: "length (sha256 env v) = objKeySize"
    and v: "marshal_relationship env rel = Some v"
    and obj: "encodeResourceKey (rel_object rel) = Inr ok"
    and sub: "encodeResourceKey (rel_subject rel) = Inr sk"
  obtains t' where "add_relationship kv env rel t = Inr (relationship_object rel v, t')"
    "indexes_ok kv t'" "kv_map kv t' (rel_key (sha256 env v)) = Some v"
    "\<And>k. k \<noteq> rel_key (sha256 env v) \<Longrightarrow> \<not> index_key k \<Longrightarrow> kv_map kv t' k = kv_map kv t k"
    "\<And>ik. index_key ik \<Longrightarrow> set (hashes kv t' ik) =
       (if ik \<in> set (rel_index_keys rel) then insert (sha256 env v) (set (hashes kv t ik))
        else set (hashes kv t ik))"
proof -
  let ?h = "sha256 env v" and ?pk = "predicate_key (predicate_name rel)"
  obtain t1 where t1: "kv_set kv t (rel_key ?h) v = Inr t1"
      "kv_map kv t1 = (kv_map kv t)(rel_key ?h \<mapsto> v)"
    using kv_set_map [OF kv_lawsD(2) [OF laws], of "rel_key ?h" t v] by auto
  have ok1: "indexes_ok kv t1" and h1: "\<And>ik. index_key ik \<Longrightarrow> hashes kv t1 ik = hashes kv t ik"
    using indexes_ok_other [OF ok t1(2)] by (auto simp: store_keys)
  obtain t2 where t2: "addObjKeyToIndex kv t1 ?pk ?h = Inr t2" "indexes_ok kv t2"
      "\<And>k. k \<noteq> ?pk \<Longrightarrow> kv_map kv t2 k = kv_map kv t1 k"
      "\<And>ik'. hashes kv t2 ik' = (if ik' = ?pk then sort (hashes kv t1 ?pk @ [?h]) else hashes kv t1 ik')"
    using addObjKeyToIndex_step [OF laws ok1 index_key_simps(3) buildKey_never_empty(5) h, of "predicate_name rel"] by blast
  obtain t3 where t3: "addObjKeyToIndex kv t2 (object_key ok) ?h = Inr t3" "indexes_ok kv t3"
      "\<And>k. k \<noteq> object_key ok \<Longrightarrow> kv_map kv t3 k = kv_map kv t2 k"
      "\<And>ik'. hashes kv t3 ik' = (if ik' = object_key ok then sort (hashes kv t2 (object_key ok) @ [?h])
         else hashes kv t2 ik')"
    using addObjKeyToIndex_step [OF laws t2(2) index_key_simps(2) buildKey_never_empty(4) h, of ok] by blast
  obtain t4 where t4: "addObjKeyToIndex kv t3 (subject_key sk) ?h = Inr t4" "indexes_ok kv t4"
      "\<And>k. k \<noteq> subject_key sk \<Longrightarrow> kv_map kv t4 k = kv_map kv t3 k"
      "\<And>ik'. hashes kv t4 ik' = (if ik' = subject_key sk then sort (hashes kv t3 (subject_key sk) @ [?h])
         else hashes kv t3 ik')"
    using addObjKeyToIndex_step [OF laws t3(2) index_key_simps(1) buildKey_never_empty(3) h, of sk] by blast
  have same: "kv_map kv t4 k = kv_map kv t1 k" if "\<not> index_key k" for k
    using that t2(3) t3(3) t4(3) index_key_simps(1,2,3) by metis
  have "rel_index_keys rel = [?pk, object_key ok, subject_key sk]"
    by (simp add: rel_index_keys_def obj sub)
  then have "set (hashes kv t4 ik) =
       (if ik \<in> set (rel_index_keys rel) then insert ?h (set (hashes kv t ik)) else set (hashes kv t ik))"
    if "index_key ik" for ik
    using h1 [OF that] by (auto simp: t2(4) t3(4) t4(4) store_keys)
  moreover have "add_relationship kv env rel t = Inr (relationship_object rel v, t4)"
    by (simp add: add_relationship_def v t1(1) t2(1) t3(1) t4(1) obj sub relationship_object_def)
  moreover have "kv_map kv t4 (rel_key ?h) = Some v"
    using same t1(2) by (simp add: store_keys)
  ultimately show ?thesis
    using that [of t4] t4(2) same t1(2) by auto
qed

lemma add_relationship_inv:
  assumes laws: "kv_laws kv" and codec: "codec_roundtrip env" and sha: "sha_ok env U"
    and inv: "rels_inv kv env U t" and rel: "writable env U rel"
  obtains v t' where "marshal_relationship env rel = Some v"
    "add_relationship kv env rel t = Inr (relationship_object rel v, t')" "rels_inv kv env U t'"
    "\<And>h rel'. rel_stored kv env t' h rel' \<longleftrightarrow> rel_stored kv env t h rel' \<or> (h = sha256 env v \<and> rel' = rel)"
    "\<And>k. kv_map kv t' (rsrc_key k) = kv_map kv t (rsrc_key k)"
    "no_dangling kv env t \<Longrightarrow> no_dangling kv env t'"
proof -
  obtain v ok sk where v: "marshal_relationship env rel = Some v" "v \<in> U"
      and keys: "encodeResourceKey (rel_object rel) = Inr ok" "encodeResourceKey (rel_subject rel) = Inr sk"
    using rel by (auto simp: writable_def)
  have len: "length (sha256 env v) = objKeySize" using sha by (simp add: sha_ok_def)
  obtain t' where t': "add_relationship kv env rel t = Inr (relationship_object rel v, t')"
    "indexes_ok kv t'" "kv_map kv t' (rel_key (sha256 env v)) = Some v"
    "\<And>k. k \<noteq> rel_key (sha256 env v) \<Longrightarrow> \<not> index_key k \<Longrightarrow> kv_map kv t' k = kv_map kv t k"
    "\<And>ik. index_key ik \<Longrightarrow> set (hashes kv t' ik) =
       (if ik \<in> set (rel_index_keys rel) then insert (sha256 env v) (set (hashes kv t ik))
        else set (hashes kv t ik))"
    using add_relationship_run [OF laws rels_invD(1) [OF inv] len v(1) keys] by blast
  have dec: "unmarshal_relationship env v = Some rel" by (rule codec_roundtripD(2) [OF codec v(1)])
  have old: "kv_map kv t (rel_key (sha256 env v)) = None \<or> kv_map kv t (rel_key (sha256 env v)) = Some v"
    using rels_invD(2) [OF inv] sha v(2) unfolding sha_ok_def inj_on_def by (metis option.exhaust)
  have other: "h \<noteq> sha256 env v \<Longrightarrow> kv_map kv t' (rel_key h) = kv_map kv t (rel_key h)" for h
    by (rule t'(4)) (simp_all add: store_keys)
  have stored: "rel_stored kv env t' h rel' \<longleftrightarrow>
      rel_stored kv env t h rel' \<or> (h = sha256 env v \<and> rel' = rel)" for h rel'
    using old other [of h] t'(3) dec by (cases "h = sha256 env v") (auto simp: rel_stored_def)
  have here: "\<forall>w \<in> U. sha256 env v = sha256 env w \<longrightarrow> unmarshal_relationship env w = Some rel"
    using sha v(2) dec unfolding sha_ok_def inj_on_def by blast
  have listed: "\<exists>rel'. ik \<in> set (rel_index_keys rel') \<and>
      (\<forall>w \<in> U. h = sha256 env w \<longrightarrow> unmarshal_relationship env w = Some rel')"
    if "index_key ik" "h \<in> set (hashes kv t' ik)" for h ik
    using that(2) t'(5) [OF that(1)] rels_invD(3) [OF inv that(1)] here by (auto split: if_splits)
  have lists: "h \<in> set (hashes kv t' ik)" if "rel_stored kv env t' h rel'" "ik \<in> set (rel_index_keys rel')" for h rel' ik
    using that t'(5) [OF rel_index_keys_index [OF that(2)]] rels_invD(4) [OF inv] by (auto simp: stored)
  have both: "\<exists>rel'. rel_stored kv env t' h rel'"
    if "h \<in> set (hashes kv t' (subject_key ks))" "h \<in> set (hashes kv t' (object_key ko))" for h ks ko
    using that t'(5) [OF index_key_simps(1)] t'(5) [OF index_key_simps(2)] rels_invD(5) [OF inv, of h ks ko]
    by (auto simp: stored split: if_splits)
  have vals: "w \<in> U \<and> h = sha256 env w \<and> unmarshal_relationship env w \<noteq> None"
    if "kv_map kv t' (rel_key h) = Some w" for h w
    using that other [of h] t'(3) v(2) dec rels_invD(2) [OF inv] by (cases "h = sha256 env v") auto
  have "rels_inv kv env U t'"
    unfolding rels_inv_def using t'(2) vals listed lists both by blast
  moreover have "kv_map kv t' (rsrc_key k) = kv_map kv t (rsrc_key k)" for k
    by (rule t'(4)) (simp_all add: store_keys)
  moreover have "no_dangling kv env t'" if "no_dangling kv env t"
    unfolding no_dangling_def
  proof (intro allI impI)
    fix ik h assume "index_key ik" "h \<in> set (hashes kv t' ik)"
    then have "h = sha256 env v \<or> (\<exists>rel. rel_stored kv env t h rel)"
      using t'(5) [of ik] that unfolding no_dangling_def by (auto split: if_splits)
    then show "\<exists>rel. rel_stored kv env t' h rel" unfolding stored by blast
  qed
  ultimately show ?thesis using that v(1) t'(1) stored by blast
qed

section \<open>Adding relationships\<close>

lemma add_relationships_loop_inv:
  assumes laws: "kv_laws kv" and codec: "codec_roundtrip env" and sha: "sha_ok env U"
  shows "rels_inv kv env U t \<Longrightarrow> \<forall>rel \<in> set rels. writable env U rel \<Longrightarrow>
    \<exists>t'. add_relationships_loop kv env rels t =
           Inr (map (\<lambda>rel. relationship_object rel (the (marshal_relationship env rel))) rels, t') \<and>
         rels_inv kv env U t' \<and>
         (\<forall>h rel'. rel_stored kv env t' h rel' \<longleftrightarrow> rel_stored kv env t h rel' \<or>
            (rel' \<in> set rels \<and> h = sha256 env (the (marshal_relationship env rel')))) \<and>
         (\<forall>k. kv_map kv t' (rsrc_key k) = kv_map kv t (rsrc_key k)) \<and>
         (no_dangling kv env t \<longrightarrow> no_dangling kv env t')"
proof (induction rels arbitrary: t)
  case Nil
  then show ?case by simp
next
  case (Cons rel rels)
  then have "writable env U rel" by simp
  from add_relationship_inv [OF laws codec sha Cons.prems(1) this] obtain v t1
    where t1: "marshal_relationship env rel = Some v"
      "add_relationship kv env rel t = Inr (relationship_object rel v, t1)" "rels_inv kv env U t1"
      "\<And>h rel'. rel_stored kv env t1 h rel' \<longleftrightarrow> rel_stored kv env t h rel' \<or> (h = sha256 env v \<and> rel' = rel)"
      "\<And>k. kv_map kv t1 (rsrc_key k) = kv_map kv t (rsrc_key k)"
      "no_dangling kv env t \<Longrightarrow> no_dangling kv env t1" by blast
  from Cons.IH [OF t1(3)] Cons.prems(2) obtain t2
    where t2: "add_relationships_loop kv env rels t1 =
        Inr (map (\<lambda>rel. relationship_object rel (the (marshal_relationship env rel))) rels, t2)"
      "rels_inv kv env U t2"
      "\<forall>h rel'. rel_stored kv env t2 h rel' \<longleftrightarrow> rel_stored kv env t1 h rel' \<or>
            (rel' \<in> set rels \<and> h = sha256 env (the (marshal_relationship env rel')))"
      "\<forall>k. kv_map kv t2 (rsrc_key k) = kv_map kv t1 (rsrc_key k)"
      "no_dangling kv env t1 \<longrightarrow> no_dangling kv env t2" by auto
  show ?case
    by (rule exI [of _ t2]) (use t1 t2 in auto)
qed

lemma emit_each_simps [simp]:
  "st_db (emit_each objs s) = st_db s" "st_closed (emit_each objs s) = st_closed s"
proof -
  have "st_db (emit_each objs s) = st_db s \<and> st_closed (emit_each objs s) = st_closed s"
    unfolding emit_each_def by (induction objs arbitrary: s) auto
  then show "st_db (emit_each objs s) = st_db s" "st_closed (emit_each objs s) = st_closed s" by auto
qed

lemma rels_inv_cong:
  assumes "kv_map kv t' = kv_map kv t"
  shows "rels_inv kv env U t' \<longleftrightarrow> rels_inv kv env U t"
    "rel_stored kv env t' h rel \<longleftrightarrow> rel_stored kv env t h rel"
    "no_dangling kv env t' \<longleftrightarrow> no_dangling kv env t"
  by (simp_all add: rels_inv_def indexes_ok_def hashes_def rel_stored_def no_dangling_def assms)

lemma AddRelationships_spec:
  assumes laws: "kv_laws kv" and codec: "codec_roundtrip env" and sha: "sha_ok env U"
    and s: "\<not> st_closed s" "check_relationships rels = None" "rels_inv kv env U (st_db s)"
    and rels: "\<forall>rel \<in> set rels. writable env U rel"
  shows "\<exists>db. AddRelationships kv env rels s =
      Inr (emit_each (map (\<lambda>rel. relationship_object rel (the (marshal_relationship env rel))) rels)
             (s\<lparr>st_db := db\<rparr>)) \<and>
    rels_inv kv env U db \<and>
    (\<forall>h rel'. rel_stored kv env db h rel' \<longleftrightarrow> rel_stored kv env (st_db s) h rel' \<or>
            (rel' \<in> set rels \<and> h = sha256 env (the (marshal_relationship env rel')))) \<and>
    (\<forall>k. kv_map kv db (rsrc_key k) = kv_map kv (st_db s) (rsrc_key k)) \<and>
    (no_dangling kv env (st_db s) \<longrightarrow> no_dangling kv env db)"
proof -
  from add_relationships_loop_inv [OF laws codec sha s(3) rels] obtain t
    where t: "add_relationships_loop kv env rels (st_db s) =
        Inr (map (\<lambda>rel. relationship_object rel (the (marshal_relationship env rel))) rels, t)"
      "rels_inv kv env U t"
      "\<forall>h rel'. rel_stored kv env t h rel' \<longleftrightarrow> rel_stored kv env (st_db s) h rel' \<or>
            (rel' \<in> set rels \<and> h = sha256 env (the (marshal_relationship env rel')))"
      "\<forall>k. kv_map kv t (rsrc_key k) = kv_map kv (st_db s) (rsrc_key k)"
      "no_dangling kv env (st_db s) \<longrightarrow> no_dangling kv env t" by blast
  from kv_update_Inr [where f = "add_relationships_loop kv env rels", OF laws t(1)] obtain db
    where db: "kv_update kv (st_db s) (add_relationships_loop kv env rels) =
        Inr (map (\<lambda>rel. relationship_object rel (the (marshal_relationship env rel))) rels, db)"
      "kv_map kv db = kv_map kv t" by blast
  then show ?thesis
    using t s rels_inv_cong [OF db(2)]
    by (intro exI [of _ db]) (simp add: AddRelationships_def)
qed

section \<open>Querying relationships\<close>

text \<open>What the documentation calls a match: nil matches anything.\<close>

definition query_match :: "resource_ref option \<Rightarrow> resource_ref option \<Rightarrow> bytes option \<Rightarrow>
    relationship \<Rightarrow> bool" where
  "query_match subject object predicateT rel \<longleftrightarrow>
     (subject \<noteq> None \<longrightarrow> encodeResourceKey (rel_subject rel) = encodeResourceKey subject) \<and>
     (object \<noteq> None \<longrightarrow> encodeResourceKey (rel_object rel) = encodeResourceKey object) \<and>
     (\<forall>p. predicateT = Some p \<longrightarrow> predicate_name rel = p)"

lemma query_match_code [code]:
  "query_match subject object predicateT rel \<longleftrightarrow>
     (subject = None \<or> encodeResourceKey (rel_subject rel) = encodeResourceKey subject) \<and>
     (object = None \<or> encodeResourceKey (rel_object rel) = encodeResourceKey object) \<and>
     (case predicateT of None \<Rightarrow> True | Some p \<Rightarrow> predicate_name rel = p)"
  by (auto simp: query_match_def split: option.split)

lemma lookup_indexes_match:
  assumes "lookup_indexes subject object predicateT = Inr ixs"
  shows "\<forall>ik \<in> set ixs. index_key ik"
    "(\<forall>ik \<in> set ixs. ik \<in> set (rel_index_keys rel)) \<longleftrightarrow> query_match subject object predicateT rel"
  using assms
  by (auto simp: lookup_indexes_def result_iff query_match_def rel_index_keys_mem store_keys
      split: option.splits)

lemma read_values_spec:
  assumes laws: "kv_laws kv"
  shows "read_values kv t ixs =
    (if \<forall>ik \<in> set ixs. kv_map kv t ik \<noteq> None then Inr (map (\<lambda>ik. the (kv_map kv t ik)) ixs)
     else Inl (IndexKv ErrKeyNotFound))"
proof (induction ixs)
  case Nil
  then show ?case by simp
next
  case (Cons ik ixs)
  then show ?case
  proof (cases "kv_map kv t ik")
    case None
    then show ?thesis using kv_get_None [OF kv_lawsD(1) [OF laws] None] by simp
  next
    case (Some v)
    then show ?thesis using kv_get_Some [OF kv_lawsD(1) [OF laws] Some] Cons by auto
  qed
qed

definition permutes :: "(bytes list \<Rightarrow> bytes list) \<Rightarrow> bool" where
  "permutes arrange \<longleftrightarrow> (\<forall>xs. mset (arrange xs) = mset xs)"

lemma permutes_set: "permutes arrange \<Longrightarrow> set (arrange xs) = set xs"
  unfolding permutes_def by (metis set_mset_mset)

lemma intersectIndexes_spec:
  assumes "permutes arrange" "hss \<noteq> []" "\<forall>hs \<in> set hss. hash_list hs"
  shows "\<exists>objs. intersectIndexes arrange (map concat hss) = Some objs \<and>
    set objs = (\<Inter>hs \<in> set hss. set hs)"
proof -
  have split: "those (map splitObjects (map concat xs)) = Some xs" if "\<forall>hs \<in> set xs. hash_list hs" for xs
    using that by (induction xs) (auto simp: splitObjects_concat)
  obtain hs hss' where "hss = hs # hss'" using assms(2) by (cases hss) auto
  then show ?thesis
    using assms(3) split [of hss'] permutes_set [OF assms(1)]
    by (auto simp: intersectIndexes_def splitObjects_concat)
qed

text \<open>The hashes read are those that every index lists, whatever order the map gives.\<close>

lemma readObjKeysFromIndexes_spec:
  assumes laws: "kv_laws kv" and arr: "permutes arrange" and ok: "indexes_ok kv t"
    and ixs: "ixs \<noteq> []" "\<forall>ik \<in> set ixs. index_key ik"
  shows "(\<exists>objs. readObjKeysFromIndexes kv arrange t ixs = Inr objs \<and>
            set objs = (\<Inter>ik \<in> set ixs. set (hashes kv t ik))) \<or>
    readObjKeysFromIndexes kv arrange t ixs = Inl (IndexKv ErrKeyNotFound) \<and>
      (\<Inter>ik \<in> set ixs. set (hashes kv t ik)) = {}"
proof (cases "\<exists>ik. ixs = [ik]")
  case True
  then obtain ik where ik: "ixs = [ik]" by auto
  show ?thesis
  proof (cases "kv_map kv t ik")
    case None
    then show ?thesis
      using kv_get_None [OF kv_lawsD(1) [OF laws] None]
      by (simp add: ik readObjKeysFromIndexes_def hashes_def)
  next
    case (Some v)
    then have "index_value v" using ok ixs(2) ik by (auto simp: indexes_ok_def)
    from hashes_value(1) [OF this Some] kv_get_Some [OF kv_lawsD(1) [OF laws] Some] show ?thesis
      by (auto simp: ik readObjKeysFromIndexes_def)
  qed
next
  case False
  with ixs(1) have run: "readObjKeysFromIndexes kv arrange t ixs =
      result_bind (read_values kv t ixs) (\<lambda>vs. of_option IndexPanic (intersectIndexes arrange vs))"
    by (auto simp: readObjKeysFromIndexes_def split: list.splits)
  show ?thesis
  proof (cases "\<forall>ik \<in> set ixs. kv_map kv t ik \<noteq> None")
    case True
    have "the (kv_map kv t ik) = concat (hashes kv t ik)" if ik: "ik \<in> set ixs" for ik
    proof -
      obtain v where v: "kv_map kv t ik = Some v" using True ik by auto
      then have "index_value v" using ok ixs(2) ik by (auto simp: indexes_ok_def)
      from hashes_value(2) [OF this v] v show ?thesis by simp
    qed
    then have "map (\<lambda>ik. the (kv_map kv t ik)) ixs = map concat (map (hashes kv t) ixs)" by simp
    moreover have "\<forall>hs \<in> set (map (hashes kv t) ixs). hash_list hs"
      using hashes_ok(1) [OF ok] ixs(2) by auto
    ultimately obtain objs where
      "intersectIndexes arrange (map (\<lambda>ik. the (kv_map kv t ik)) ixs) = Some objs"
      "set objs = (\<Inter>hs \<in> set (map (hashes kv t) ixs). set hs)"
      using intersectIndexes_spec [OF arr, of "map (hashes kv t) ixs"] ixs(1) by auto
    then show ?thesis using True by (simp add: run read_values_spec [OF laws])
  next
    case False
    then obtain ik where "ik \<in> set ixs" "hashes kv t ik = []" by (auto simp: hashes_def)
    then show ?thesis using False by (auto simp: run read_values_spec [OF laws])
  qed
qed

lemma fetch_relationships_spec:
  assumes laws: "kv_laws kv" and "\<forall>h \<in> set objs. \<exists>rel. rel_stored kv env t h rel"
  shows "\<exists>rels. fetch_relationships kv env t objs = (rels, None) \<and> length rels = length objs \<and>
    set rels = {rel. \<exists>h \<in> set objs. rel_stored kv env t h rel}"
  using assms(2)
proof (induction objs)
  case Nil
  then show ?case by simp
next
  case (Cons h objs)
  then obtain rel where rel: "rel_stored kv env t h rel" by auto
  then obtain v where v: "kv_map kv t (rel_key h) = Some v" "unmarshal_relationship env v = Some rel"
    by (auto simp: rel_stored_def bind_eq_Some_conv)
  have one: "rel_stored kv env t h r \<longleftrightarrow> r = rel" for r
    using v by (auto simp: rel_stored_def)
  obtain rels where rels: "fetch_relationships kv env t objs = (rels, None)" "length rels = length objs"
      "set rels = {rel. \<exists>h \<in> set objs. rel_stored kv env t h rel}"
    using Cons by auto
  then show ?case using kv_read_Some [OF laws v(1)] v(2) by (auto simp: one)
qed

text \<open>A deleted relationship that every index of the query still lists.\<close>

definition lists_deleted :: "('t, 'i) kv \<Rightarrow> 't \<Rightarrow> bytes list \<Rightarrow> bool" where
  "lists_deleted kv t ixs \<longleftrightarrow> (\<exists>h. (\<forall>ik \<in> set ixs. h \<in> set (hashes kv t ik)) \<and> kv_map kv t (rel_key h) = None)"

lemma fetch_relationships_missing:
  assumes "kv_laws kv" "h \<in> set objs" "kv_map kv t (rel_key h) = None"
  shows "\<exists>rels e. fetch_relationships kv env t objs = (rels, Some e) \<and>
    set rels \<subseteq> {rel. \<exists>h \<in> set objs. rel_stored kv env t h rel}"
  using assms(2)
proof (induction objs)
  case (Cons obj objs)
  show ?case
  proof (cases "kv_map kv t (rel_key obj)")
    case None
    then show ?thesis using kv_read_None [OF assms(1) None] by simp
  next
    case (Some v)
    then have "h \<in> set objs" using Cons.prems assms(3) by auto
    from Cons.IH [OF this] kv_read_Some [OF assms(1) Some] Some show ?thesis
      by (cases "unmarshal_relationship env v") (auto simp: rel_stored_def)
  qed
qed simp

lemma queried_hashes:
  assumes inv: "rels_inv kv env U t" and ixs: "lookup_indexes subject object predicateT = Inr ixs"
    and "rel_stored kv env t h rel"
  shows "(\<forall>ik \<in> set ixs. h \<in> set (hashes kv t ik)) \<longleftrightarrow> query_match subject object predicateT rel"
  using stored_listed_iff [OF inv assms(3)] lookup_indexes_match [OF ixs] by blast

text \<open>A query by subject and object never meets a deleted relationship.\<close>

lemma lists_deleted_endpoints:
  assumes "rels_inv kv env U t" "lookup_indexes (Some a) (Some b) predicateT = Inr ixs"
  shows "\<not> lists_deleted kv t ixs"
proof
  assume "lists_deleted kv t ixs"
  then obtain h where h: "\<forall>ik \<in> set ixs. h \<in> set (hashes kv t ik)" "kv_map kv t (rel_key h) = None"
    by (auto simp: lists_deleted_def)
  obtain ks ko where "subject_key ks \<in> set ixs" "object_key ko \<in> set ixs"
    using assms(2) by (auto simp: lookup_indexes_def result_iff) blast
  then show False using rels_invD(5) [OF assms(1), of h ks ko] h not_stored_iff [OF assms(1), of h] by blast
qed

lemma GetRelationships_query:
  assumes laws: "kv_laws kv" and arr: "permutes arrange" and inv: "rels_inv kv env U (st_db s)"
    and s: "\<not> st_closed s" and ixs: "lookup_indexes subject object predicateT = Inr ixs" "ixs \<noteq> []"
    and M: "M = {rel. (\<exists>h. rel_stored kv env (st_db s) h rel) \<and> query_match subject object predicateT rel}"
  shows "if lists_deleted kv (st_db s) ixs
    then \<exists>rels e. GetRelationships kv env arrange subject object predicateT s = (rels, Some e) \<and> set rels \<subseteq> M
    else if M = {} then GetRelationships kv env arrange subject object predicateT s = ([], Some ErrRelationshipsNotFound)
    else \<exists>rels. GetRelationships kv env arrange subject object predicateT s = (rels, None) \<and> set rels = M"
proof -
  let ?t = "st_db s"
  let ?H = "\<Inter>ik \<in> set ixs. set (hashes kv ?t ik)"
  note match = queried_hashes [OF inv ixs(1)]
  have M': "M = {rel. \<exists>h \<in> ?H. rel_stored kv env ?t h rel}"
    unfolding M using match by blast
  from readObjKeysFromIndexes_spec [OF laws arr rels_invD(1) [OF inv] ixs(2) lookup_indexes_match(1) [OF ixs(1)]]
  show ?thesis
  proof
    assume "\<exists>objs. readObjKeysFromIndexes kv arrange ?t ixs = Inr objs \<and> set objs = ?H"
    then obtain objs where objs: "readObjKeysFromIndexes kv arrange ?t ixs = Inr objs" "set objs = ?H" by auto
    have view: "view_relationships kv env arrange ?t subject object predicateT = fetch_relationships kv env ?t objs"
      using ixs objs(1) by (simp add: view_relationships_def)
    show ?thesis
    proof (cases "lists_deleted kv ?t ixs")
      case True
      then obtain h where "h \<in> set objs" "kv_map kv ?t (rel_key h) = None"
        unfolding lists_deleted_def objs(2) by blast
      from fetch_relationships_missing [OF laws this, of env] obtain rels e where
        "fetch_relationships kv env ?t objs = (rels, Some e)" "set rels \<subseteq> M" unfolding M' objs(2) by blast
      then show ?thesis using True s view by (auto simp: GetRelationships_def)
    next
      case False
      then have "\<forall>h \<in> set objs. \<exists>rel. rel_stored kv env ?t h rel"
        unfolding lists_deleted_def objs(2) using not_stored_iff [OF inv] by blast
      from fetch_relationships_spec [OF laws this] obtain rels
        where rels: "fetch_relationships kv env ?t objs = (rels, None)" "set rels = M" unfolding M' objs(2) by blast
      then show ?thesis using False s view by (auto simp: GetRelationships_def)
    qed
  next
    assume none: "readObjKeysFromIndexes kv arrange ?t ixs = Inl (IndexKv ErrKeyNotFound) \<and> ?H = {}"
    then have "M = {}" "\<not> lists_deleted kv ?t ixs" unfolding M' lists_deleted_def by blast+
    then show ?thesis using s ixs none by (simp add: GetRelationships_def view_relationships_def)
  qed
qed

section \<open>Deleting a resource\<close>

lemma delete_relationship_objs_spec:
  assumes laws: "kv_laws kv"
  shows "\<exists>t'. delete_relationship_objs kv t objs = Inr t' \<and>
    kv_map kv t' = (\<lambda>k. if k \<in> rel_key ` set objs then None else kv_map kv t k)"
proof (induction objs arbitrary: t)
  case Nil
  then show ?case by simp
next
  case (Cons h objs)
  obtain t1 where t1: "kv_delete kv t (rel_key h) = Inr t1"
      "kv_map kv t1 = (kv_map kv t)(rel_key h := None)"
    using kv_delete_map [OF kv_lawsD(2) [OF laws], of "rel_key h" t] by auto
  obtain t2 where t2: "delete_relationship_objs kv t1 objs = Inr t2"
      "kv_map kv t2 = (\<lambda>k. if k \<in> rel_key ` set objs then None else kv_map kv t1 k)"
    using Cons by blast
  then show ?case using t1 by (auto simp: fun_eq_iff)
qed

text \<open>An index only ever loses hashes that were to be removed.\<close>

lemma deleteObjKeyFromIndex_spec:
  assumes laws: "kv_laws kv" and ok: "indexes_ok kv t" and ik: "index_key ik" "ik \<noteq> []"
  shows "\<exists>t'. deleteObjKeyFromIndex kv t ik h = Inr t' \<and> indexes_ok kv t' \<and>
    (\<forall>k. k \<noteq> ik \<longrightarrow> kv_map kv t' k = kv_map kv t k) \<and>
    set (hashes kv t ik) - {h} \<subseteq> set (hashes kv t' ik) \<and> set (hashes kv t' ik) \<subseteq> set (hashes kv t ik)"
proof (cases "kv_map kv t ik")
  case None
  then show ?thesis
    using kv_get_None [OF kv_lawsD(1) [OF laws] None] ok by (simp add: deleteObjKeyFromIndex_def)
next
  case (Some v)
  let ?hs = "hashes kv t ik"
  have v: "index_value v" using ok ik(1) Some by (auto simp: indexes_ok_def)
  note hv = hashes_value [OF v Some]
  obtain i where i: "kv_get kv t ik = Inr i" "kv_value kv i = Inr v"
    using kv_get_Some [OF kv_lawsD(1) [OF laws] Some] by auto
  show ?thesis
  proof (cases "find_obj v h 0 (int (numObjects v))")
    case None
    then show ?thesis using i ok by (auto simp: deleteObjKeyFromIndex_def)
  next
    case (Some m)
    have m: "0 \<le> m" "nat m < length ?hs" "?hs ! nat m = h"
      using find_obj_sound [OF hv(3), of 0 "int (length ?hs)" h m] Some hv(2) numObjects_concat [OF hv(3)]
      by auto
    let ?hs' = "take (nat m) ?hs @ drop (nat m + 1) ?hs"
    have split: "?hs = take (nat m) ?hs @ h # drop (nat m + 1) ?hs"
      using m(2,3) id_take_nth_drop [of "nat m" ?hs] by simp
    have hs': "hash_list ?hs'" "sorted ?hs'"
      using hv(3,4) split by (metis hash_list_append hash_list_def list.set_intros(2),
        metis sorted_append sorted_simps(2) list.set_intros(2))
    obtain t' where t': "kv_set kv t ik (concat ?hs') = Inr t'"
        "kv_map kv t' = (kv_map kv t)(ik \<mapsto> concat ?hs')"
      using kv_set_map [OF kv_lawsD(2) [OF laws] ik(2), of t "concat ?hs'"] by auto
    have sort: "sort ?hs' = ?hs'" using hs'(2) by (rule sort_key_id_if_sorted [where f = "\<lambda>x. x", simplified])
    have run: "deleteObjKeyFromIndex kv t ik h = Inr t'"
      using i Some t'(1) take_concat_hash_list [OF hv(3), of "nat m"]
        drop_concat_hash_list [OF hv(3), of "nat m + 1"] hv(2)
      by (simp add: deleteObjKeyFromIndex_def)
    have eq: "kv_map kv t' = (kv_map kv t)(ik \<mapsto> concat (sort ?hs'))" using t'(2) sort by simp
    have "hashes kv t' ik = ?hs'" using hashes_insert [OF eq hs'(1), of ik] sort by simp
    moreover have "set ?hs = insert h (set ?hs')" by (subst split) auto
    ultimately show ?thesis
      using run indexes_ok_insert [OF ok eq hs'(1)] t'(2) by auto
  qed
qed

lemma delete_from_index_spec:
  assumes laws: "kv_laws kv" and ik: "index_key ik" "ik \<noteq> []"
  shows "indexes_ok kv t \<Longrightarrow> \<exists>t'. delete_from_index kv t ik objs = Inr t' \<and> indexes_ok kv t' \<and>
    (\<forall>k. k \<noteq> ik \<longrightarrow> kv_map kv t' k = kv_map kv t k) \<and>
    set (hashes kv t ik) - set objs \<subseteq> set (hashes kv t' ik) \<and>
    set (hashes kv t' ik) \<subseteq> set (hashes kv t ik)"
proof (induction objs arbitrary: t)
  case Nil
  then show ?case by simp
next
  case (Cons h objs)
  obtain t1 where t1: "deleteObjKeyFromIndex kv t ik h = Inr t1" "indexes_ok kv t1"
      "\<forall>k. k \<noteq> ik \<longrightarrow> kv_map kv t1 k = kv_map kv t k"
      "set (hashes kv t ik) - {h} \<subseteq> set (hashes kv t1 ik)" "set (hashes kv t1 ik) \<subseteq> set (hashes kv t ik)"
    using deleteObjKeyFromIndex_spec [OF laws Cons.prems ik] by blast
  obtain t2 where t2: "delete_from_index kv t1 ik objs = Inr t2" "indexes_ok kv t2"
      "\<forall>k. k \<noteq> ik \<longrightarrow> kv_map kv t2 k = kv_map kv t1 k"
      "set (hashes kv t1 ik) - set objs \<subseteq> set (hashes kv t2 ik)"
      "set (hashes kv t2 ik) \<subseteq> set (hashes kv t1 ik)"
    using Cons.IH [OF t1(2)] by blast
  show ?case
    by (rule exI [of _ t2]) (use t1 t2 in auto)
qed

lemma hashes_cong: "kv_map kv t' k = kv_map kv t k \<Longrightarrow> hashes kv t' k = hashes kv t k"
  by (simp add: hashes_def)

lemma clean_indexes_spec:
  assumes laws: "kv_laws kv"
  shows "indexes_ok kv t \<Longrightarrow> distinct (map fst items) \<Longrightarrow>
    (\<And>key i. (key, i) \<in> set items \<Longrightarrow> index_key key \<and> key \<noteq> [] \<and> (\<exists>v. kv_value kv i = Inr v)) \<Longrightarrow>
    \<exists>t'. clean_indexes kv t items objs = Inr t' \<and> indexes_ok kv t' \<and>
      (\<forall>k. k \<notin> fst ` set items \<longrightarrow> kv_map kv t' k = kv_map kv t k) \<and>
      (\<forall>ik. set (hashes kv t ik) - set objs \<subseteq> set (hashes kv t' ik) \<and>
            set (hashes kv t' ik) \<subseteq> set (hashes kv t ik))"
proof (induction items arbitrary: t)
  case Nil
  then show ?case by simp
next
  case (Cons it items)
  obtain key i where it: "it = (key, i)" by (cases it)
  then have key: "index_key key" "key \<noteq> []" and v: "\<exists>v. kv_value kv i = Inr v"
    using Cons.prems(3) [of key i] by auto
  obtain t1 where t1: "delete_from_index kv t key objs = Inr t1" "indexes_ok kv t1"
      "\<forall>k. k \<noteq> key \<longrightarrow> kv_map kv t1 k = kv_map kv t k"
      "set (hashes kv t key) - set objs \<subseteq> set (hashes kv t1 key)"
      "set (hashes kv t1 key) \<subseteq> set (hashes kv t key)"
    using delete_from_index_spec [OF laws key Cons.prems(1)] by blast
  have dist: "distinct (map fst items)" using Cons.prems(2) by simp
  have rest: "index_key k' \<and> k' \<noteq> [] \<and> (\<exists>v. kv_value kv j = Inr v)" if "(k', j) \<in> set items" for k' j
    by (rule Cons.prems(3)) (simp add: that)
  have h1: "ik \<noteq> key \<Longrightarrow> hashes kv t1 ik = hashes kv t ik" for ik
    by (rule hashes_cong) (use t1(3) in blast)
  obtain t2 where t2: "clean_indexes kv t1 items objs = Inr t2" "indexes_ok kv t2"
      "\<forall>k. k \<notin> fst ` set items \<longrightarrow> kv_map kv t2 k = kv_map kv t1 k"
      "\<forall>ik. set (hashes kv t1 ik) - set objs \<subseteq> set (hashes kv t2 ik) \<and>
            set (hashes kv t2 ik) \<subseteq> set (hashes kv t1 ik)"
    using Cons.IH [OF t1(2) dist rest] by blast
  have "clean_indexes kv t (it # items) objs = Inr t2"
    using v t1(1) t2(1) by (auto simp: it)
  moreover have "set (hashes kv t ik) - set objs \<subseteq> set (hashes kv t2 ik) \<and>
            set (hashes kv t2 ik) \<subseteq> set (hashes kv t ik)" for ik
  proof -
    note t2' = t2(4) [rule_format, of ik]
    have "set (hashes kv t ik) - set objs \<subseteq> set (hashes kv t1 ik) \<and>
        set (hashes kv t1 ik) \<subseteq> set (hashes kv t ik)"
      using t1(4,5) h1 by (cases "ik = key") auto
    with t2' show ?thesis by blast
  qed
  ultimately show ?case
    using t2(2,3) t1(3) by (intro exI [of _ t2]) (simp add: it)
qed

text \<open>The database after a delete, seen as a map.\<close>

definition after_delete :: "('t, 'i) kv \<Rightarrow> 't \<Rightarrow> bytes \<Rightarrow> 't \<Rightarrow> bool" where
  "after_delete kv t k t' \<longleftrightarrow>
     (let gone = set (hashes kv t (subject_key k)) \<union> set (hashes kv t (object_key k)) in
      indexes_ok kv t' \<and>
      kv_map kv t' (rsrc_key k) = None \<and>
      kv_map kv t' (subject_key k) = None \<and> kv_map kv t' (object_key k) = None \<and>
      (\<forall>ik. index_key ik \<longrightarrow> set (hashes kv t' ik) \<subseteq> set (hashes kv t ik)) \<and>
      (\<forall>k'. k' \<noteq> k \<longrightarrow> kv_map kv t' (rsrc_key k') = kv_map kv t (rsrc_key k')) \<and>
      (\<forall>h. kv_map kv t' (rel_key h) = (if h \<in> gone then None else kv_map kv t (rel_key h))) \<and>
      (\<forall>p. set (hashes kv t (predicate_key p)) - gone \<subseteq> set (hashes kv t' (predicate_key p)) \<and>
           set (hashes kv t' (predicate_key p)) \<subseteq> set (hashes kv t (predicate_key p))) \<and>
      (\<forall>k'. k' \<noteq> k \<longrightarrow> kv_map kv t' (subject_key k') = kv_map kv t (subject_key k') \<and>
                        kv_map kv t' (object_key k') = kv_map kv t (object_key k')))"

lemma deleteIndexedObjects_spec:
  assumes laws: "kv_laws kv" and ok: "indexes_ok kv t" and ik: "index_key ik"
  shows "\<exists>t'. deleteIndexedObjects kv arrange t ik = Inr (hashes kv t ik, t') \<and>
    kv_map kv t' = (\<lambda>k. if k \<in> rel_key ` set (hashes kv t ik) then None else kv_map kv t k)"
proof -
  have "readObjKeysFromIndexes kv arrange t [ik] = Inr (hashes kv t ik)"
  proof (cases "kv_map kv t ik")
    case None
    then show ?thesis
      using kv_get_None [OF kv_lawsD(1) [OF laws] None] by (simp add: readObjKeysFromIndexes_def hashes_def)
  next
    case (Some v)
    then have "index_value v" using ok ik by (auto simp: indexes_ok_def)
    from hashes_value(1) [OF this Some] kv_get_Some [OF kv_lawsD(1) [OF laws] Some] show ?thesis
      by (auto simp: readObjKeysFromIndexes_def)
  qed
  then show ?thesis
    using delete_relationship_objs_spec [OF laws, of t "hashes kv t ik"]
    by (auto simp: deleteIndexedObjects_def)
qed

lemma delete_ignoring_missing_spec:
  assumes "kv_laws kv" "k \<noteq> []"
  shows "\<exists>t'. delete_ignoring_missing kv t k = Inr t' \<and> kv_map kv t' = (kv_map kv t)(k := None)"
  using kv_delete_map [OF kv_lawsD(2) [OF assms(1)] assms(2), of t]
  by (auto simp: delete_ignoring_missing_def)

lemma delete_txn_spec:
  assumes laws: "kv_laws kv" and ok: "indexes_ok kv t"
  shows "\<exists>t'. delete_txn kv arrange k t = Inr t' \<and> after_delete kv t k t'"
proof -
  let ?S = "hashes kv t (subject_key k)" and ?O = "hashes kv t (object_key k)"
  let ?gone = "set ?S \<union> set ?O"
  obtain t1 where t1: "deleteIndexedObjects kv arrange t (subject_key k) = Inr (?S, t1)"
      "kv_map kv t1 = (\<lambda>x. if x \<in> rel_key ` set ?S then None else kv_map kv t x)"
    using deleteIndexedObjects_spec [OF laws ok index_key_simps(1)] by blast
  have same1: "index_key ik \<Longrightarrow> kv_map kv t1 ik = kv_map kv t ik" for ik
    using t1(2) by (auto simp: store_keys)
  then have ok1: "indexes_ok kv t1" using ok by (simp add: indexes_ok_def)
  have O1: "hashes kv t1 (object_key k) = ?O" by (rule hashes_cong) (rule same1, rule index_key_simps)
  obtain t2 where t2: "deleteIndexedObjects kv arrange t1 (object_key k) = Inr (?O, t2)"
      "kv_map kv t2 = (\<lambda>x. if x \<in> rel_key ` set ?O then None else kv_map kv t1 x)"
    using deleteIndexedObjects_spec [OF laws ok1 index_key_simps(2), of arrange k] unfolding O1 by blast
  obtain t3 where t3: "delete_ignoring_missing kv t2 (subject_key k) = Inr t3"
      "kv_map kv t3 = (kv_map kv t2)(subject_key k := None)"
    using delete_ignoring_missing_spec [OF laws buildKey_never_empty(3)] by blast
  obtain t4 where t4: "delete_ignoring_missing kv t3 (object_key k) = Inr t4"
      "kv_map kv t4 = (kv_map kv t3)(object_key k := None)"
    using delete_ignoring_missing_spec [OF laws buildKey_never_empty(4)] by blast
  have map4: "kv_map kv t4 x =
      (if x \<in> rel_key ` ?gone \<or> x = subject_key k \<or> x = object_key k then None else kv_map kv t x)" for x
    by (auto simp: t4(2) t3(2) t2(2) t1(2))
  have ok4: "indexes_ok kv t4" using ok by (auto simp: indexes_ok_def map4 split: if_splits)
  let ?items = "kv_scan kv t4 (buildKey [index, predicateIdx])"
  have scan: "distinct (map fst ?items)"
    "\<And>key i. (key, i) \<in> set ?items \<Longrightarrow> has_prefix key (buildKey [index, predicateIdx]) \<and> kv_get kv t4 key = Inr i"
    using kv_lawsD(3) [OF laws] by (auto simp: kv_scans_def)
  have pre: "buildKey [index, predicateIdx] = ''/idx/rel-predicate''" by (simp add: key_parts buildKey.simps)
  have is_index: "index_key key \<and> key \<noteq> [] \<and> \<not> has_prefix key ''/idx/rel-subj'' \<and> \<not> has_prefix key ''/idx/rel-obj''"
    if "has_prefix key ''/idx/rel-predicate''" for key
    using that by (auto simp: index_key_def has_prefix_iff)
  have "index_key key \<and> key \<noteq> [] \<and> (\<exists>v. kv_value kv i = Inr v)" if "(key, i) \<in> set ?items" for key i
    using scan(2) [OF that] is_index [of key] kv_lawsD(1) [OF laws] unfolding kv_reads_def pre
    by (metis Inl_Inr_False sum.inject(2))
  from clean_indexes_spec [OF laws ok4 scan(1) this, of "?S @ ?O"] obtain t5
    where t5: "clean_indexes kv t4 ?items (?S @ ?O) = Inr t5" "indexes_ok kv t5"
      "\<forall>x. x \<notin> fst ` set ?items \<longrightarrow> kv_map kv t5 x = kv_map kv t4 x"
      "\<forall>ik. set (hashes kv t4 ik) - set (?S @ ?O) \<subseteq> set (hashes kv t5 ik) \<and>
            set (hashes kv t5 ik) \<subseteq> set (hashes kv t4 ik)"
    by blast
  obtain t6 where t6: "kv_delete kv t5 (rsrc_key k) = Inr t6"
      "kv_map kv t6 = (kv_map kv t5)(rsrc_key k := None)"
    using kv_delete_map [OF kv_lawsD(2) [OF laws] buildKey_never_empty(1)] by blast
  have run: "delete_txn kv arrange k t = Inr t6"
    by (simp add: delete_txn_def t1(1) t2(1) t3(1) t4(1) t5(1) t6(1))
  have keep: "kv_map kv t5 x = kv_map kv t4 x"
    if "\<not> index_key x \<or> (\<exists>k'. x = subject_key k') \<or> (\<exists>k'. x = object_key k')" for x
  proof -
    have "\<not> has_prefix x ''/idx/rel-predicate''"
      using that is_index [of x] by (auto simp: has_prefix_iff key_parts buildKey.simps)
    then have "x \<notin> fst ` set ?items" using scan(2) unfolding pre by auto
    then show ?thesis using t5(3) by blast
  qed
  have p6: "hashes kv t6 (predicate_key p) = hashes kv t5 (predicate_key p)"
    "hashes kv t4 (predicate_key p) = hashes kv t (predicate_key p)" for p
    by (rule hashes_cong, simp add: t6(2) store_keys, rule hashes_cong,
        use map4 [of "predicate_key p"] in \<open>auto simp: store_keys\<close>)
  have "index_key ik \<Longrightarrow> set (hashes kv t6 ik) \<subseteq> set (hashes kv t ik)" for ik
    using t5(4) [rule_format, of ik] map4 [of ik] hashes_cong [of kv t6 ik t5]
    by (auto simp: t6(2) store_keys hashes_def split: if_splits option.splits)
  moreover have "indexes_ok kv t6" using t5(2) t6(2) by (auto simp: indexes_ok_def)
  moreover have "kv_map kv t6 (rel_key h) = (if h \<in> ?gone then None else kv_map kv t (rel_key h))" for h
    using keep [of "rel_key h"] map4 [of "rel_key h"] by (auto simp: t6(2) store_keys)
  moreover have "k' \<noteq> k \<Longrightarrow> kv_map kv t6 (rsrc_key k') = kv_map kv t (rsrc_key k')" for k'
    using keep [of "rsrc_key k'"] map4 [of "rsrc_key k'"] by (auto simp: t6(2) store_keys)
  moreover have "kv_map kv t6 (subject_key k') = (if k' = k then None else kv_map kv t (subject_key k'))"
    "kv_map kv t6 (object_key k') = (if k' = k then None else kv_map kv t (object_key k'))" for k'
    using keep [of "subject_key k'"] map4 [of "subject_key k'"]
      keep [of "object_key k'"] map4 [of "object_key k'"] by (auto simp: t6(2) store_keys)
  moreover have "set (hashes kv t (predicate_key p)) - ?gone \<subseteq> set (hashes kv t6 (predicate_key p)) \<and>
      set (hashes kv t6 (predicate_key p)) \<subseteq> set (hashes kv t (predicate_key p))" for p
    using t5(4) [rule_format, of "predicate_key p"] by (simp add: p6)
  ultimately have "after_delete kv t k t6"
    by (simp add: after_delete_def Let_def t6(2))
  then show ?thesis using run by blast
qed

lemma DeleteResource_spec:
  assumes laws: "kv_laws kv" and ok: "indexes_ok kv (st_db s)" and s: "\<not> st_closed s"
    and k: "encodeResourceKey (Some rf) = Inr k"
    and v: "marshal_resource env (deleted_resource now rf) = Some v"
  shows "\<exists>db. DeleteResource kv env arrange now (Some rf) s =
      (None, emit (resource_event EventTypeDelete (rsrc_type (deleted_resource now rf)) resourceTypeUrl v)
               (s\<lparr>st_db := db\<rparr>)) \<and>
    after_delete kv (st_db s) k db"
proof -
  obtain t where t: "delete_txn kv arrange k (st_db s) = Inr t" "after_delete kv (st_db s) k t"
    using delete_txn_spec [OF laws ok] by blast
  define f where "f = (\<lambda>txn. map_error IndexError
    (result_bind (delete_txn kv arrange k txn) (\<lambda>t. Inr ((), t))))"
  have "f (st_db s) = Inr ((), t)" by (simp add: f_def t(1))
  from kv_update_Inr [where f = f, OF laws this] obtain db
    where db: "kv_update kv (st_db s) f = Inr ((), db)" "kv_map kv db = kv_map kv t" by blast
  have "after_delete kv (st_db s) k db"
    using t(2) by (simp add: after_delete_def Let_def indexes_ok_def hashes_def db(2))
  then show ?thesis
    using s k v db(1) by (intro exI [of _ db]) (simp add: DeleteResource_def f_def Let_def)
qed

section \<open>What a delete leaves of the indexes\<close>

lemma mentions_gone:
  assumes "rels_inv kv env U t" "rel_stored kv env t h rel"
  shows "h \<in> set (hashes kv t (subject_key k)) \<union> set (hashes kv t (object_key k)) \<longleftrightarrow> mentions k rel"
  using stored_listed_iff [OF assms index_key_simps(1)] stored_listed_iff [OF assms index_key_simps(2)]
  by (simp add: rel_index_keys_mem mentions_def)

lemma delete_rel_stored:
  assumes "rels_inv kv env U t" "after_delete kv t k t'"
  shows "rel_stored kv env t' h rel \<longleftrightarrow> rel_stored kv env t h rel \<and> \<not> mentions k rel"
proof -
  let ?gone = "set (hashes kv t (subject_key k)) \<union> set (hashes kv t (object_key k))"
  have "kv_map kv t' (rel_key h) = (if h \<in> ?gone then None else kv_map kv t (rel_key h))"
    using assms(2) by (simp add: after_delete_def Let_def)
  then have "rel_stored kv env t' h rel \<longleftrightarrow> h \<notin> ?gone \<and> rel_stored kv env t h rel"
    unfolding rel_stored_def by simp
  then show ?thesis using mentions_gone [OF assms(1)] by blast
qed

lemma after_delete_rsrc:
  "after_delete kv t k t' \<Longrightarrow> kv_map kv t' (rsrc_key k') = (if k' = k then None else kv_map kv t (rsrc_key k'))"
  by (simp add: after_delete_def Let_def)

lemma after_delete_listed:
  assumes "after_delete kv t k t'" "index_key ik"
  shows "set (hashes kv t' ik) \<subseteq> set (hashes kv t ik)"
    "ik = subject_key k \<or> ik = object_key k \<Longrightarrow> hashes kv t' ik = []"
    "ik = subject_key k' \<or> ik = object_key k' \<Longrightarrow> k' \<noteq> k \<Longrightarrow> hashes kv t' ik = hashes kv t ik"
    "ik = predicate_key p \<Longrightarrow>
       set (hashes kv t ik) - (set (hashes kv t (subject_key k)) \<union> set (hashes kv t (object_key k))) \<subseteq> set (hashes kv t' ik)"
  using assms hashes_cong [of kv t' ik t] by (auto simp: after_delete_def Let_def hashes_def)

lemma after_delete_inv:
  assumes inv: "rels_inv kv env U t" and ad: "after_delete kv t k t'"
  shows "rels_inv kv env U t'"
proof -
  note stored = delete_rel_stored [OF inv ad]
  have vals: "v \<in> U \<and> h = sha256 env v \<and> unmarshal_relationship env v \<noteq> None"
    if "kv_map kv t' (rel_key h) = Some v" for h v
    using that ad rels_invD(2) [OF inv, of h v] by (auto simp: after_delete_def Let_def split: if_splits)
  have lists: "h \<in> set (hashes kv t' ik)" if rel: "rel_stored kv env t' h rel" "ik \<in> set (rel_index_keys rel)" for h rel ik
  proof -
    have old: "rel_stored kv env t h rel" "\<not> mentions k rel" using rel(1) stored by auto
    have h: "h \<in> set (hashes kv t ik)" by (rule rels_invD(4) [OF inv old(1) rel(2)])
    consider p where "ik = predicate_key p" | k' where "ik = subject_key k' \<or> ik = object_key k'" "k' \<noteq> k"
      using rel(2) old(2) by (auto simp: rel_index_keys_def mentions_def split: sum.splits) metis+
    then show ?thesis
    proof cases
      case 1
      then show ?thesis using after_delete_listed(4) [OF ad, of ik p] h mentions_gone [OF inv old(1)] old(2)
        by (auto simp: index_key_simps)
    next
      case 2
      then show ?thesis using after_delete_listed(3) [OF ad _ 2] h by (auto simp: index_key_simps)
    qed
  qed
  have both: "\<exists>rel. rel_stored kv env t' h rel"
    if h: "h \<in> set (hashes kv t' (subject_key ks))" "h \<in> set (hashes kv t' (object_key ko))" for h ks ko
  proof -
    have "h \<in> set (hashes kv t (subject_key ks))" "h \<in> set (hashes kv t (object_key ko))" "ks \<noteq> k" "ko \<noteq> k"
      using h after_delete_listed(1,2) [OF ad index_key_simps(1), of ks] after_delete_listed(1,2) [OF ad index_key_simps(2), of ko]
      by auto
    moreover from this(1,2) obtain rel where rel: "rel_stored kv env t h rel" using rels_invD(5) [OF inv] by blast
    ultimately have "\<not> mentions k rel"
      using stored_listed_iff [OF inv rel index_key_simps(1)] stored_listed_iff [OF inv rel index_key_simps(2)]
      by (auto simp: rel_index_keys_mem mentions_def)
    then show ?thesis using rel stored by blast
  qed
  have "indexes_ok kv t'" using ad by (simp add: after_delete_def Let_def)
  then show ?thesis
    unfolding rels_inv_def using vals lists both rels_invD(3) [OF inv] after_delete_listed(1) [OF ad] by blast
qed

section \<open>What a resource leaves of the indexes\<close>

lemma rels_inv_resource:
  assumes "kv_map kv t' = (kv_map kv t)(rsrc_key k \<mapsto> v)"
  shows "rels_inv kv env U t' \<longleftrightarrow> rels_inv kv env U t" "rel_stored kv env t' h rel \<longleftrightarrow> rel_stored kv env t h rel"
    "no_dangling kv env t' \<longleftrightarrow> no_dangling kv env t"
proof -
  have rel: "kv_map kv t' (rel_key h) = kv_map kv t (rel_key h)" for h
    by (simp add: assms store_keys)
  then have stored: "rel_stored kv env t' h rel \<longleftrightarrow> rel_stored kv env t h rel" for h rel
    by (simp add: rel_stored_def)
  have ix: "index_key ik \<Longrightarrow> hashes kv t' ik = hashes kv t ik" "index_key ik \<Longrightarrow> kv_map kv t' ik = kv_map kv t ik" for ik
    by (simp_all add: assms store_keys hashes_def)
  show "rel_stored kv env t' h rel \<longleftrightarrow> rel_stored kv env t h rel" by (rule stored)
  show "no_dangling kv env t' \<longleftrightarrow> no_dangling kv env t" by (simp add: no_dangling_def stored ix cong: conj_cong)
  have "hashes kv t' ik = hashes kv t ik" if "ik \<in> set (rel_index_keys rel)" for ik rel
    using ix(1) [OF rel_index_keys_index [OF that]] .
  then show "rels_inv kv env U t' \<longleftrightarrow> rels_inv kv env U t"
    by (simp add: rels_inv_def indexes_ok_def rel stored ix index_key_simps cong: conj_cong ball_cong)
qed

end
