(* ===== verification/StoreHistory.thy ===== *)
theory StoreHistory
  imports StoreLaws
begin

text \<open>
  Histories of the resource store: any sequence of its writing methods, failing calls included.
  The invariant of the indexes holds in every store that such a history reaches from an empty
  database, also after deletes.
\<close>

datatype store_op =
  OpAdd timestamp resource
| OpUpdate timestamp resource
| OpDelete "bytes list \<Rightarrow> bytes list" timestamp "resource_ref option"
| OpRelate "relationship list"

definition run_op :: "('t, 'i) kv \<Rightarrow> codec \<Rightarrow> store_op \<Rightarrow> 't store \<Rightarrow> 't store" where
  "run_op kv env op s =
     (case op of
        OpAdd now r \<Rightarrow> (case AddResource kv env now r s of Inl _ \<Rightarrow> s | Inr (_, s') \<Rightarrow> s')
      | OpUpdate now r \<Rightarrow> (case UpdateResource kv env now r s of Inl _ \<Rightarrow> s | Inr (_, s') \<Rightarrow> s')
      | OpDelete arrange now p \<Rightarrow> snd (DeleteResource kv env arrange now p s)
      | OpRelate rels \<Rightarrow> (case AddRelationships kv env rels s of Inl _ \<Rightarrow> s | Inr s' \<Rightarrow> s'))"

definition run_ops :: "('t, 'i) kv \<Rightarrow> codec \<Rightarrow> store_op list \<Rightarrow> 't store \<Rightarrow> 't store" where
  "run_ops kv env ops s = fold (run_op kv env) ops s"

lemma run_ops_simps [simp]:
  "run_ops kv env [] s = s" "run_ops kv env (op # ops) s = run_ops kv env ops (run_op kv env op s)"
  "run_ops kv env (xs @ ys) s = run_ops kv env ys (run_ops kv env xs s)"
  by (simp_all add: run_ops_def)

text \<open>The encoded relationships of a history.\<close>

definition op_values :: "codec \<Rightarrow> store_op \<Rightarrow> bytes set" where
  "op_values env op =
     (case op of OpRelate rels \<Rightarrow> {v. \<exists>rel \<in> set rels. marshal_relationship env rel = Some v} | _ \<Rightarrow> {})"

fun is_delete :: "store_op \<Rightarrow> bool" where
  "is_delete (OpDelete _ _ _) = True"
| "is_delete _ = False"

section \<open>What one call changes\<close>

lemma write_resource_map:
  assumes "kv_laws kv" "write_resource kv env t (rsrc_key k) c u r = Inr (rv, t')"
  shows "\<exists>v. kv_map kv t' = (kv_map kv t)(rsrc_key k \<mapsto> v) \<and> (codec_roundtrip env \<longrightarrow>
    rsrc_metadata r \<noteq> None \<and> unmarshal_resource env v = Some (stamped c u r))"
proof -
  obtain r' v where v: "set_times c u r = Inr r'" "marshal_resource env r' = Some v" "kv_set kv t (rsrc_key k) v = Inr t'"
    using assms(2) by (auto simp: write_resource_def result_iff of_option_def split: option.splits)
  then have "rsrc_metadata r \<noteq> None" "r' = stamped c u r"
    by (auto simp: set_times_def stamped_def split: option.splits)
  with v kv_set_map [OF kv_lawsD(2) [OF assms(1)], of "rsrc_key k" t v] show ?thesis
    by (intro exI [of _ v]) (auto dest: codec_roundtripD(1))
qed

lemma kv_update_map:
  assumes "kv_laws kv" "kv_update kv d f = Inr (a, d')"
  obtains t where "f d = Inr (a, t)" "kv_map kv d' = kv_map kv t"
proof -
  obtain t where t: "f d = Inr (a, t)" "kv_commit kv d t = Inr d'"
    using assms(2) by (auto simp: kv_update_def result_iff)
  have "kv_map kv d' = kv_map kv t"
    using kv_lawsD(4) [OF assms(1)] t(2) unfolding kv_commits_def by (metis sum.inject(2))
  with t(1) show thesis by (rule that)
qed

text \<open>A resource that was written: under its key, with its timestamps.\<close>

definition resource_written :: "('t, 'i) kv \<Rightarrow> codec \<Rightarrow> resource \<Rightarrow> 't store \<Rightarrow> 't store \<Rightarrow> bool" where
  "resource_written kv env r s s' \<longleftrightarrow>
     (\<exists>k v. encodeResourceKey (Some (ref r)) = Inr k \<and> kv_map kv (st_db s') = (kv_map kv (st_db s))(rsrc_key k \<mapsto> v) \<and>
       (codec_roundtrip env \<longrightarrow> rsrc_metadata r \<noteq> None \<and> (\<exists>c u. unmarshal_resource env v = Some (stamped c u r)))) \<and>
     st_closed s' = st_closed s"

lemma AddResource_written:
  assumes "kv_laws kv" "AddResource kv env now r s = Inr (r', s')"
  shows "resource_written kv env r s s'"
proof -
  obtain k val db where k: "encodeResourceKey (Some (ref r)) = Inr k" "s' = emit (resource_event EventTypeAdd (rsrc_type r') resourceTypeUrl val) (s\<lparr>st_db := db\<rparr>)"
    and up: "kv_update kv (st_db s) (\<lambda>txn. case kv_get kv txn (rsrc_key k) of
              Inr _ \<Rightarrow> Inl ResourceAlreadyExists
            | Inl err \<Rightarrow> if err \<noteq> ErrKeyNotFound then Inl (KvError err)
                else write_resource kv env txn (rsrc_key k) (Some now) now r) = Inr ((r', val), db)"
    (is "kv_update kv _ ?f = _")
    using assms(2) by (auto simp: AddResource_def Let_def result_iff split: if_splits)
  obtain t where f: "?f (st_db s) = Inr ((r', val), t)" and t: "kv_map kv db = kv_map kv t"
    using kv_update_map [OF assms(1) up] by blast
  from f have "write_resource kv env (st_db s) (rsrc_key k) (Some now) now r = Inr ((r', val), t)"
    by (auto split: sum.splits if_splits)
  with write_resource_map [OF assms(1)] k t show ?thesis by (fastforce simp: resource_written_def)
qed

lemma UpdateResource_written:
  assumes "kv_laws kv" "UpdateResource kv env now r s = Inr (r', s')"
  shows "resource_written kv env r s s'"
proof -
  obtain k val db where k: "encodeResourceKey (Some (ref r)) = Inr k" "s' = emit (resource_event EventTypeUpdate (rsrc_type r') resourceTypeUrl val) (s\<lparr>st_db := db\<rparr>)"
    and up: "kv_update kv (st_db s) (\<lambda>txn. case kv_get kv txn (rsrc_key k) of
              Inl err \<Rightarrow> if err = ErrKeyNotFound then write_resource kv env txn (rsrc_key k) (Some now) now r
                else Inl (KvError err)
            | Inr item \<Rightarrow>
                result_bind (map_error KvError (kv_value kv item)) (\<lambda>v.
                result_bind (of_option UnmarshalFailed (unmarshal_resource env v)) (\<lambda>old.
                write_resource kv env txn (rsrc_key k)
                  (get_or None meta_created_at (rsrc_metadata old)) now r))) = Inr ((r', val), db)"
    (is "kv_update kv _ ?f = _")
    using assms(2) by (auto simp: UpdateResource_def Let_def result_iff split: if_splits)
  obtain t where f: "?f (st_db s) = Inr ((r', val), t)" and t: "kv_map kv db = kv_map kv t"
    using kv_update_map [OF assms(1) up] by blast
  from f have "\<exists>c. write_resource kv env (st_db s) (rsrc_key k) c now r = Inr ((r', val), t)"
    by (auto simp: result_iff split: sum.splits if_splits)
  then obtain c where "write_resource kv env (st_db s) (rsrc_key k) c now r = Inr ((r', val), t)" by blast
  with write_resource_map [OF assms(1)] k t show ?thesis by (fastforce simp: resource_written_def)
qed

lemma DeleteResource_deleted:
  assumes "kv_laws kv" "indexes_ok kv (st_db s)" "DeleteResource kv env arrange now p s = (e, s')"
  shows "s' = s \<or> st_closed s' = st_closed s \<and>
    (\<exists>rf k. p = Some rf \<and> encodeResourceKey p = Inr k \<and> after_delete kv (st_db s) k (st_db s'))"
proof (cases "\<exists>k. \<not> st_closed s \<and> encodeResourceKey p = Inr k")
  case False
  then show ?thesis using assms(3) by (cases "encodeResourceKey p") (auto simp: DeleteResource_def split: if_splits)
next
  case True
  then obtain k where k: "\<not> st_closed s" "encodeResourceKey p = Inr k" by blast
  then obtain rf where p: "p = Some rf" by (cases p) (auto simp: encodeResourceKey_def)
  obtain t where t: "delete_txn kv arrange k (st_db s) = Inr t" "after_delete kv (st_db s) k t"
    using delete_txn_spec [OF assms(1,2)] by blast
  show ?thesis
  proof (cases "kv_update kv (st_db s) (\<lambda>txn. map_error IndexError (result_bind (delete_txn kv arrange k txn) (\<lambda>t. Inr ((), t))))")
    case (Inl err)
    then show ?thesis using assms(3) k by (auto simp: DeleteResource_def)
  next
    case (Inr r)
    obtain db where r: "r = ((), db)" by (cases r) auto
    from kv_update_map [OF assms(1) Inr [unfolded r]] t(1) have "kv_map kv db = kv_map kv t" by auto
    then have "after_delete kv (st_db s) k db"
      using t(2) by (simp add: after_delete_def Let_def indexes_ok_def hashes_def)
    moreover have "st_db s' = db" "st_closed s' = st_closed s"
      using assms(3) k Inr r by (auto simp: DeleteResource_def Let_def split: option.splits)
    ultimately show ?thesis using k(2) p by blast
  qed
qed

lemma add_relationships_loop_writable:
  assumes "add_relationships_loop kv env rels t = Inr x"
    and "\<And>rel v. rel \<in> set rels \<Longrightarrow> marshal_relationship env rel = Some v \<Longrightarrow> v \<in> U"
  shows "\<forall>rel \<in> set rels. writable env U rel"
  using assms
proof (induction rels arbitrary: t x)
  case (Cons rel rels)
  obtain obj t1 y where rel: "add_relationship kv env rel t = Inr (obj, t1)" "add_relationships_loop kv env rels t1 = Inr y"
    using Cons.prems(1) by (auto simp: result_iff)
  have "writable env U rel"
    using rel(1) Cons.prems(2) [of rel]
    by (auto simp: add_relationship_def writable_def Let_def result_iff of_option_def split: option.splits)
  moreover have "\<forall>rel \<in> set rels. writable env U rel" by (rule Cons.IH [OF rel(2)]) (use Cons.prems(2) in auto)
  ultimately show ?case by simp
qed simp

lemma AddRelationships_related:
  assumes "kv_laws kv" "codec_roundtrip env" "sha_ok env U" "rels_inv kv env U (st_db s)"
    and "AddRelationships kv env rels s = Inr s'" "\<And>rel v. rel \<in> set rels \<Longrightarrow> marshal_relationship env rel = Some v \<Longrightarrow> v \<in> U"
  shows "rels_inv kv env U (st_db s')" "st_closed s' = st_closed s"
    "kv_map kv (st_db s') (rsrc_key k) = kv_map kv (st_db s) (rsrc_key k)"
    "no_dangling kv env (st_db s) \<Longrightarrow> no_dangling kv env (st_db s')"
proof -
  obtain x where s: "\<not> st_closed s" "check_relationships rels = None" "add_relationships_loop kv env rels (st_db s) = Inr x"
    using assms(5) by (auto simp: AddRelationships_def kv_update_def result_iff split: option.splits if_splits)
  have "\<forall>rel \<in> set rels. writable env U rel" by (rule add_relationships_loop_writable [OF s(3)]) (rule assms(6))
  from AddRelationships_spec [OF assms(1-3) s(1,2) assms(4) this] assms(5)
  show "rels_inv kv env U (st_db s')" "st_closed s' = st_closed s"
    "kv_map kv (st_db s') (rsrc_key k) = kv_map kv (st_db s) (rsrc_key k)"
    "no_dangling kv env (st_db s) \<Longrightarrow> no_dangling kv env (st_db s')" by auto
qed

section \<open>The invariant along a history\<close>

lemma resource_written_inv:
  assumes "resource_written kv env r s s'"
  shows "rels_inv kv env U (st_db s') = rels_inv kv env U (st_db s)"
    "no_dangling kv env (st_db s') = no_dangling kv env (st_db s)"
proof -
  obtain k v where "kv_map kv (st_db s') = (kv_map kv (st_db s))(rsrc_key k \<mapsto> v)"
    using assms by (auto simp: resource_written_def)
  from rels_inv_resource(1,3) [OF this] show "rels_inv kv env U (st_db s') = rels_inv kv env U (st_db s)"
    "no_dangling kv env (st_db s') = no_dangling kv env (st_db s)" by blast+
qed

lemma run_op_inv:
  assumes "kv_laws kv" "codec_roundtrip env" "sha_ok env U" "rels_inv kv env U (st_db s)" "op_values env op \<subseteq> U"
  shows "rels_inv kv env U (st_db (run_op kv env op s))" "st_closed (run_op kv env op s) = st_closed s"
proof -
  have "rels_inv kv env U (st_db (run_op kv env op s)) \<and> st_closed (run_op kv env op s) = st_closed s"
  proof (cases op)
    case (OpAdd now r)
    show ?thesis
    proof (cases "AddResource kv env now r s")
      case (Inr x)
      obtain r' s' where x: "x = (r', s')" by (cases x)
      from resource_written_inv(1) [OF AddResource_written [OF assms(1) Inr [unfolded x]]]
        AddResource_written [OF assms(1) Inr [unfolded x]] assms(4)
      show ?thesis by (simp add: run_op_def OpAdd Inr x resource_written_def)
    qed (use assms(4) in \<open>simp add: run_op_def OpAdd\<close>)
  next
    case (OpUpdate now r)
    show ?thesis
    proof (cases "UpdateResource kv env now r s")
      case (Inr x)
      obtain r' s' where x: "x = (r', s')" by (cases x)
      from resource_written_inv(1) [OF UpdateResource_written [OF assms(1) Inr [unfolded x]]]
        UpdateResource_written [OF assms(1) Inr [unfolded x]] assms(4)
      show ?thesis by (simp add: run_op_def OpUpdate Inr x resource_written_def)
    qed (use assms(4) in \<open>simp add: run_op_def OpUpdate\<close>)
  next
    case (OpDelete arrange now p)
    then show ?thesis
      using assms(4) DeleteResource_deleted [OF assms(1) rels_invD(1) [OF assms(4)] surjective_pairing, of env arrange now p]
        after_delete_inv [OF assms(4)] by (auto simp: run_op_def)
  next
    case (OpRelate rels)
    have "v \<in> U" if "rel \<in> set rels" "marshal_relationship env rel = Some v" for rel v
      using that assms(5) OpRelate by (auto simp: op_values_def)
    then show ?thesis using OpRelate assms(4) AddRelationships_related(1,2) [OF assms(1-4)]
      by (auto simp: run_op_def split: sum.split)
  qed
  then show "rels_inv kv env U (st_db (run_op kv env op s))" "st_closed (run_op kv env op s) = st_closed s" by auto
qed

text \<open>What is stored under the key of a resource: what was there, nothing, or what the call wrote.\<close>

lemma run_op_resource:
  assumes "kv_laws kv" "codec_roundtrip env" "sha_ok env U" "rels_inv kv env U (st_db s)" "op_values env op \<subseteq> U"
    and "kv_map kv (st_db (run_op kv env op s)) (rsrc_key k) = Some v"
  shows "kv_map kv (st_db s) (rsrc_key k) = Some v \<or>
    (\<exists>now r c u. (op = OpAdd now r \<or> op = OpUpdate now r) \<and> encodeResourceKey (Some (ref r)) = Inr k \<and>
       rsrc_metadata r \<noteq> None \<and> unmarshal_resource env v = Some (stamped c u r))"
proof -
  have written: ?thesis if "resource_written kv env r s (run_op kv env op s)" "op = OpAdd now r \<or> op = OpUpdate now r" for r now
    using that assms(2,6) by (auto simp: resource_written_def buildKey_eq_iff split: if_splits)
  show ?thesis
  proof (cases op)
    case (OpAdd now r)
    then show ?thesis
      using written [of r now] AddResource_written [OF assms(1), of env now r s] assms(6) by (auto simp: run_op_def split: sum.splits)
  next
    case (OpUpdate now r)
    then show ?thesis
      using written [of r now] UpdateResource_written [OF assms(1), of env now r s] assms(6) by (auto simp: run_op_def split: sum.splits)
  next
    case (OpDelete arrange now p)
    then show ?thesis
      using assms(6) DeleteResource_deleted [OF assms(1) rels_invD(1) [OF assms(4)] surjective_pairing, of env arrange now p]
      by (auto simp: run_op_def after_delete_rsrc split: if_splits)
  next
    case (OpRelate rels)
    have "v \<in> U" if "rel \<in> set rels" "marshal_relationship env rel = Some v" for rel v
      using that assms(5) OpRelate by (auto simp: op_values_def)
    then show ?thesis using OpRelate assms(6) AddRelationships_related(3) [OF assms(1-4)]
      by (auto simp: run_op_def split: sum.splits)
  qed
qed

lemma run_ops_inv:
  assumes "kv_laws kv" "codec_roundtrip env" "sha_ok env U" "rels_inv kv env U (st_db s)" "\<forall>op \<in> set ops. op_values env op \<subseteq> U"
  shows "rels_inv kv env U (st_db (run_ops kv env ops s)) \<and> st_closed (run_ops kv env ops s) = st_closed s"
  using assms(4,5)
proof (induction ops arbitrary: s)
  case (Cons op ops)
  then have op: "op_values env op \<subseteq> U" by simp
  from Cons.IH [OF run_op_inv(1) [OF assms(1-3) Cons.prems(1) op]] Cons.prems(2)
    run_op_inv(2) [OF assms(1-3) Cons.prems(1) op] show ?case by simp
qed simp

text \<open>Every resource of a store that was empty comes from a call of its history.\<close>

lemma run_ops_resource:
  assumes "kv_laws kv" "codec_roundtrip env" "sha_ok env U" "rels_inv kv env U (st_db s)" "\<forall>op \<in> set ops. op_values env op \<subseteq> U"
    and "kv_map kv (st_db (run_ops kv env ops s)) (rsrc_key k) = Some v"
  shows "kv_map kv (st_db s) (rsrc_key k) = Some v \<or>
    (\<exists>now r. (OpAdd now r \<in> set ops \<or> OpUpdate now r \<in> set ops) \<and> encodeResourceKey (Some (ref r)) = Inr k)"
  using assms(4-)
proof (induction ops arbitrary: s)
  case (Cons op ops)
  then have op: "op_values env op \<subseteq> U" by simp
  from Cons.IH [OF run_op_inv(1) [OF assms(1-3) Cons.prems(1) op]] Cons.prems(2,3)
  consider "kv_map kv (st_db (run_op kv env op s)) (rsrc_key k) = Some v"
    | now r where "OpAdd now r \<in> set ops \<or> OpUpdate now r \<in> set ops" "encodeResourceKey (Some (ref r)) = Inr k" by auto
  then show ?case
  proof cases
    case 1
    from run_op_resource [OF assms(1-3) Cons.prems(1) op 1] show ?thesis by auto
  qed auto
qed simp

lemma empty_rels_inv: "kv_map kv t = Map.empty \<Longrightarrow> rels_inv kv env U t"
  by (simp add: rels_inv_def indexes_ok_def hashes_def rel_stored_def)

section \<open>Without deletes nothing dangles\<close>

lemma run_op_no_dangling:
  assumes "kv_laws kv" "codec_roundtrip env" "sha_ok env U" "rels_inv kv env U (st_db s)" "op_values env op \<subseteq> U"
    and "\<not> is_delete op" "no_dangling kv env (st_db s)"
  shows "no_dangling kv env (st_db (run_op kv env op s))"
proof (cases op)
  case (OpAdd now r)
  then show ?thesis using assms(7) AddResource_written [OF assms(1), of env now r s] resource_written_inv(2) [of kv env r s]
    by (auto simp: run_op_def split: sum.split)
next
  case (OpUpdate now r)
  then show ?thesis using assms(7) UpdateResource_written [OF assms(1), of env now r s] resource_written_inv(2) [of kv env r s]
    by (auto simp: run_op_def split: sum.split)
next
  case (OpRelate rels)
  have "v \<in> U" if "rel \<in> set rels" "marshal_relationship env rel = Some v" for rel v
    using that assms(5) OpRelate by (auto simp: op_values_def)
  then show ?thesis using OpRelate assms(7) AddRelationships_related(4) [OF assms(1-4)]
    by (auto simp: run_op_def split: sum.split)
qed (use assms(6) in simp)

lemma run_ops_no_dangling:
  assumes "kv_laws kv" "codec_roundtrip env" "sha_ok env U" "rels_inv kv env U (st_db s)" "\<forall>op \<in> set ops. op_values env op \<subseteq> U"
    and "no_dangling kv env (st_db s)" "\<forall>op \<in> set ops. \<not> is_delete op"
  shows "no_dangling kv env (st_db (run_ops kv env ops s))"
  using assms(4-)
proof (induction ops arbitrary: s)
  case (Cons op ops)
  then have op: "op_values env op \<subseteq> U" "\<not> is_delete op" by auto
  from Cons.IH [OF run_op_inv(1) [OF assms(1-3) Cons.prems(1) op(1)] _
      run_op_no_dangling [OF assms(1-3) Cons.prems(1) op Cons.prems(3)]] Cons.prems(2,4)
  show ?case by simp
qed simp

lemma no_dangling_lists:
  assumes "rels_inv kv env U t" "no_dangling kv env t" "lookup_indexes subject object predicateT = Inr ixs" "ixs \<noteq> []"
  shows "\<not> lists_deleted kv t ixs"
proof -
  obtain ik where "ik \<in> set ixs" using assms(4) by (cases ixs) auto
  then show ?thesis using assms(2) lookup_indexes_match(1) [OF assms(3)] not_stored_iff [OF assms(1)]
    unfolding lists_deleted_def no_dangling_def by blast
qed

end
