(* ===== verification/StoreProperties.thy ===== *)
theory StoreProperties
  imports StoreHistory
begin

text \<open>
  The guarantees of the resource store, stated over its methods: what a client reads after it
  wrote, what a delete removes, which events a subscriber gets, and where the code departs from
  its documentation.
\<close>

section \<open>Concrete inputs for the witnesses\<close>

definition demo_meta :: "bytes \<Rightarrow> timestamp option \<Rightarrow> timestamp option \<Rightarrow> resource_meta" where
  "demo_meta name created updated =
     \<lparr>meta_id = '''', meta_provider = 0, meta_provider_id = '''', meta_account = None,
      meta_service = '''', meta_name = name, meta_tags = [], meta_provider_group = '''',
      meta_region = '''', meta_zone = '''', meta_created_at = created, meta_updated_at = updated,
      meta_deleted_at = None, meta_namespace = None\<rparr>"

definition demo_rsrc :: "timestamp option \<Rightarrow> timestamp option \<Rightarrow> resource" where
  "demo_rsrc created updated =
     \<lparr>rsrc_type = Some \<lparr>td_kind = ''Resource'', td_type = ''pod''\<rparr>,
      rsrc_metadata = Some (demo_meta ''a'' created updated), rsrc_spec = None\<rparr>"

definition demo_ref :: "bytes \<Rightarrow> resource_ref" where
  "demo_ref name = \<lparr>ref_type_url = ''pod'', ref_name = name, ref_namespace = None\<rparr>"

definition demo_rel :: "bytes \<Rightarrow> bytes \<Rightarrow> relationship" where
  "demo_rel subj obj =
     \<lparr>rel_type = None, rel_id = '''', rel_subject = Some (demo_ref subj), rel_object = Some (demo_ref obj),
      rel_predicate = Some \<lparr>any_type_url = ''type.googleapis.com/Runs'', any_value = ''''\<rparr>,
      rel_created_at = None, rel_updated_at = None, rel_deleted_at = None\<rparr>"

text \<open>A codec that knows a few messages, and a padding hash.\<close>

definition demo_rsrcs :: "(resource \<times> bytes) list" where
  "demo_rsrcs = [(demo_rsrc (Some 1) (Some 1), ''r1''), (demo_rsrc (Some 1) (Some 2), ''r2''),
     (deleted_resource 3 (demo_ref ''a''), ''r3'')]"

definition demo_rels :: "(relationship \<times> bytes) list" where
  "demo_rels = [(demo_rel ''a'' ''b'', ''l1''), (demo_rel ''c'' ''a'', ''l2''), (demo_rel ''c'' ''b'', ''l3'')]"

abbreviation demo_edges :: "relationship list" where
  "demo_edges \<equiv> [demo_rel ''a'' ''b'', demo_rel ''c'' ''a'', demo_rel ''c'' ''b'']"

definition demo_codec :: codec where
  "demo_codec =
     \<lparr>marshal_resource = map_of demo_rsrcs,
      unmarshal_resource = map_of (map (\<lambda>(r, v). (v, r)) demo_rsrcs),
      marshal_relationship = map_of demo_rels,
      unmarshal_relationship = map_of (map (\<lambda>(r, v). (v, r)) demo_rels),
      sha256 = (\<lambda>v. take 32 (v @ replicate 32 (CHR ''x'')))\<rparr>"

definition demo_store :: "(bytes \<times> bytes) list store" where
  "demo_store = \<lparr>st_closed = False, st_db = [], st_subscribers = []\<rparr>"

lemma demo_codec_roundtrip: "codec_roundtrip demo_codec"
  by (auto simp: codec_roundtrip_def demo_codec_def demo_rsrcs_def demo_rels_def demo_rel_def
      split: if_splits)

section \<open>Reading after a write\<close>

lemma GetResource_after_write:
  assumes "kv_laws kv" "\<not> st_closed s" "\<not> st_closed s'"
    and "kv_map kv (st_db s') = (kv_map kv (st_db s))(rsrc_key k \<mapsto> v)"
    and "unmarshal_resource env v = Some r"
  shows "encodeResourceKey p = Inr k \<Longrightarrow> GetResource kv env p s' = Inr r"
    "encodeResourceKey p \<noteq> Inr k \<Longrightarrow> GetResource kv env p s' = GetResource kv env p s"
proof -
  show "encodeResourceKey p = Inr k \<Longrightarrow> GetResource kv env p s' = Inr r"
    using GetResource_spec [OF assms(1,3)] assms(4,5) by simp
  show "encodeResourceKey p \<noteq> Inr k \<Longrightarrow> GetResource kv env p s' = GetResource kv env p s"
  proof (cases "encodeResourceKey p")
    case (Inl e)
    then show ?thesis using assms(2,3) by (simp add: GetResource_def)
  next
    case (Inr k')
    assume "encodeResourceKey p \<noteq> Inr k"
    with Inr have "rsrc_key k' \<noteq> rsrc_key k" by (simp add: store_keys)
    then show ?thesis
      using GetResource_spec [OF assms(1,3) Inr] GetResource_spec [OF assms(1,2) Inr] assms(4) by simp
  qed
qed

section \<open>Resources\<close>

text \<open>
  C1. Adding a resource that the store does not have succeeds, stamps both timestamps with the
  current time, and from then on reading it returns exactly the stamped resource; what any
  other key reads is unchanged, and adding it again is refused.
\<close>

theorem store_add_get:
  assumes "kv_laws kv" "codec_roundtrip env" "\<not> st_closed s"
    and "encodeResourceKey (Some (ref r)) = Inr k"
    and "GetResource kv env (Some (ref r)) s = Inl ErrResourceNotFound"
    and "rsrc_metadata r \<noteq> None" "marshal_resource env (stamped (Some now) now r) \<noteq> None"
  shows "\<exists>s'. AddResource kv env now r s = Inr (stamped (Some now) now r, s') \<and>
    GetResource kv env (Some (ref r)) s' = Inr (stamped (Some now) now r) \<and>
    (\<forall>p. encodeResourceKey p \<noteq> Inr k \<longrightarrow> GetResource kv env p s' = GetResource kv env p s) \<and>
    AddResource kv env later r s' = Inl ResourceAlreadyExists"
proof -
  let ?r = "stamped (Some now) now r"
  obtain v where v: "marshal_resource env ?r = Some v" using assms(7) by auto
  have none: "kv_map kv (st_db s) (rsrc_key k) = None"
    using assms(5) by (simp add: GetResource_spec [OF assms(1,3,4)] of_option_def split: option.splits)
  obtain db where add: "AddResource kv env now r s =
      Inr (?r, emit (resource_event EventTypeAdd (rsrc_type r) resourceTypeUrl v) (s\<lparr>st_db := db\<rparr>))"
      (is "_ = Inr (_, ?s)")
    and db: "kv_map kv db = (kv_map kv (st_db s))(rsrc_key k \<mapsto> v)"
    using AddResource_new [OF assms(1,3,4) none assms(6) v] by blast
  have open': "\<not> st_closed ?s" using assms(3) by simp
  have db': "kv_map kv (st_db ?s) = (kv_map kv (st_db s))(rsrc_key k \<mapsto> v)" using db by simp
  note get = GetResource_after_write [OF assms(1,3) open' db' codec_roundtripD(1) [OF assms(2) v]]
  have "AddResource kv env later r ?s = Inl ResourceAlreadyExists"
    using AddResource_exists [OF assms(1) open' assms(4)] db by simp
  then show ?thesis using add get assms(4) by blast
qed

lemma demo_add_hyps:
  "encodeResourceKey (Some (ref (demo_rsrc c u))) = Inr ''pod/YQ==''"
  "GetResource mem_kv demo_codec (Some (ref (demo_rsrc c u))) demo_store = Inl ErrResourceNotFound"
  "stamped (Some 1) 1 (demo_rsrc None None) = demo_rsrc (Some 1) (Some 1)"
  "marshal_resource demo_codec (demo_rsrc (Some 1) (Some 1)) = Some ''r1''"
proof -
  have r: "ref (demo_rsrc c u) = demo_ref ''a''"
    by (simp add: ref_def demo_rsrc_def demo_meta_def demo_ref_def)
  show enc: "encodeResourceKey (Some (ref (demo_rsrc c u))) = Inr ''pod/YQ==''"
    unfolding r by code_simp
  show "GetResource mem_kv demo_codec (Some (ref (demo_rsrc c u))) demo_store = Inl ErrResourceNotFound"
    unfolding r by code_simp
  show "stamped (Some 1) 1 (demo_rsrc None None) = demo_rsrc (Some 1) (Some 1)"
    by (simp add: stamped_def demo_rsrc_def demo_meta_def)
  show "marshal_resource demo_codec (demo_rsrc (Some 1) (Some 1)) = Some ''r1''"
    by (simp add: demo_codec_def demo_rsrcs_def)
qed

theorem store_add_get_witness:
  "\<exists>s'. AddResource mem_kv demo_codec 1 (demo_rsrc None None) demo_store = Inr (demo_rsrc (Some 1) (Some 1), s') \<and>
    GetResource mem_kv demo_codec (Some (demo_ref ''a'')) s' = Inr (demo_rsrc (Some 1) (Some 1)) \<and>
    AddResource mem_kv demo_codec 2 (demo_rsrc None None) s' = Inl ResourceAlreadyExists"
proof -
  have r: "ref (demo_rsrc None None) = demo_ref ''a''"
    by (simp add: ref_def demo_rsrc_def demo_meta_def demo_ref_def)
  have "\<not> st_closed demo_store" "rsrc_metadata (demo_rsrc None None) \<noteq> None"
    by (simp_all add: demo_store_def demo_rsrc_def)
  from store_add_get [OF mem_kv_laws demo_codec_roundtrip this(1) demo_add_hyps(1,2) this(2),
      where now = 1 and later = 2]
  show ?thesis by (auto simp: demo_add_hyps r)
qed

text \<open>
  C2. Updating a resource keeps the creation time of the stored one (or takes the current time
  when there is none) and stamps the update time; reading it returns the new resource, and what
  any other key reads is unchanged.
\<close>

theorem store_update_keeps_created:
  assumes "kv_laws kv" "codec_roundtrip env" "\<not> st_closed s"
    and "encodeResourceKey (Some (ref r)) = Inr k"
    and "GetResource kv env (Some (ref r)) s = found"
    and "found = Inl ErrResourceNotFound \<and> created = Some now \<or>
         found = Inr old \<and> created = get_or None meta_created_at (rsrc_metadata old)"
    and "rsrc_metadata r \<noteq> None" "marshal_resource env (stamped created now r) \<noteq> None"
  shows "\<exists>s'. UpdateResource kv env now r s = Inr (stamped created now r, s') \<and>
    GetResource kv env (Some (ref r)) s' = Inr (stamped created now r) \<and>
    (\<forall>p. encodeResourceKey p \<noteq> Inr k \<longrightarrow> GetResource kv env p s' = GetResource kv env p s)"
proof -
  let ?m = "kv_map kv (st_db s) (rsrc_key k)"
  obtain v where v: "marshal_resource env (stamped created now r) = Some v" using assms(8) by auto
  have found: "?m = None \<and> created = Some now \<or>
      (\<exists>w. ?m = Some w \<and> unmarshal_resource env w = Some old \<and>
        created = get_or None meta_created_at (rsrc_metadata old))"
    using assms(5,6)
    by (auto simp: GetResource_spec [OF assms(1,3,4)] of_option_def split: option.splits)
  have created: "created = (case ?m of None \<Rightarrow> Some now
      | Some w \<Rightarrow> get_or None meta_created_at (rsrc_metadata (the (unmarshal_resource env w))))"
    and readable: "\<And>w. ?m = Some w \<Longrightarrow> unmarshal_resource env w \<noteq> None"
    using found by auto
  obtain db where upd: "UpdateResource kv env now r s = Inr (stamped created now r,
      emit (resource_event EventTypeUpdate (rsrc_type r) resourceTypeUrl v) (s\<lparr>st_db := db\<rparr>))"
      (is "_ = Inr (_, ?s)")
    and db: "kv_map kv db = (kv_map kv (st_db s))(rsrc_key k \<mapsto> v)"
    using UpdateResource_spec [OF assms(1,3,4) created readable assms(7) v] by blast
  have open': "\<not> st_closed ?s" using assms(3) by simp
  have db': "kv_map kv (st_db ?s) = (kv_map kv (st_db s))(rsrc_key k \<mapsto> v)" using db by simp
  note get = GetResource_after_write [OF assms(1,3) open' db' codec_roundtripD(1) [OF assms(2) v]]
  then show ?thesis using upd assms(4) by blast
qed

definition demo_stored :: "(bytes \<times> bytes) list store" where
  "demo_stored = demo_store\<lparr>st_db := [(''/rsrc/pod/YQ=='', ''r1'')]\<rparr>"

lemma demo_update_hyps:
  "GetResource mem_kv demo_codec (Some (ref (demo_rsrc None None))) demo_stored =
     Inr (demo_rsrc (Some 1) (Some 1))"
  "stamped (Some 1) 2 (demo_rsrc None None) = demo_rsrc (Some 1) (Some 2)"
  "marshal_resource demo_codec (demo_rsrc (Some 1) (Some 2)) = Some ''r2''"
  "get_or None meta_created_at (rsrc_metadata (demo_rsrc (Some 1) (Some 1))) = Some 1"
proof -
  have r: "ref (demo_rsrc None None) = demo_ref ''a''"
    by (simp add: ref_def demo_rsrc_def demo_meta_def demo_ref_def)
  show "GetResource mem_kv demo_codec (Some (ref (demo_rsrc None None))) demo_stored =
     Inr (demo_rsrc (Some 1) (Some 1))" unfolding r by code_simp
  show "marshal_resource demo_codec (demo_rsrc (Some 1) (Some 2)) = Some ''r2''" by code_simp
qed (simp_all add: stamped_def demo_rsrc_def demo_meta_def)

theorem store_update_keeps_created_witness:
  "\<exists>s'. UpdateResource mem_kv demo_codec 2 (demo_rsrc None None) demo_stored =
      Inr (demo_rsrc (Some 1) (Some 2), s') \<and>
    GetResource mem_kv demo_codec (Some (demo_ref ''a'')) s' = Inr (demo_rsrc (Some 1) (Some 2))"
proof -
  have r: "ref (demo_rsrc None None) = demo_ref ''a''"
    by (simp add: ref_def demo_rsrc_def demo_meta_def demo_ref_def)
  have "\<not> st_closed demo_stored" "rsrc_metadata (demo_rsrc None None) \<noteq> None"
    by (simp_all add: demo_stored_def demo_store_def demo_rsrc_def)
  from store_update_keeps_created [OF mem_kv_laws demo_codec_roundtrip this(1) demo_add_hyps(1)
      demo_update_hyps(1) _ this(2), where now = 2 and created = "Some 1"
      and old = "demo_rsrc (Some 1) (Some 1)"]
  show ?thesis by (auto simp: demo_update_hyps r)
qed

section \<open>Relationships\<close>

text \<open>
  C3. Adding well-formed relationships succeeds, keeps the invariant that ties every index to
  the stored relationships, and stores exactly the given relationships besides the ones that
  were there; no resource is touched. Where no index listed a relationship that is not stored, none does.
\<close>

theorem store_add_relationships:
  assumes "kv_laws kv" "codec_roundtrip env" "sha_ok env U" "\<not> st_closed s"
    and "check_relationships rels = None" "rels_inv kv env U (st_db s)"
    and "\<forall>rel \<in> set rels. writable env U rel"
  shows "\<exists>s'. AddRelationships kv env rels s = Inr s' \<and> rels_inv kv env U (st_db s') \<and>
    (\<forall>rel. (\<exists>h. rel_stored kv env (st_db s') h rel) \<longleftrightarrow>
       (\<exists>h. rel_stored kv env (st_db s) h rel) \<or> rel \<in> set rels) \<and>
    (no_dangling kv env (st_db s) \<longrightarrow> no_dangling kv env (st_db s')) \<and>
    (\<forall>p. GetResource kv env p s' = GetResource kv env p s)"
proof -
  obtain db where add: "AddRelationships kv env rels s =
      Inr (emit_each (map (\<lambda>rel. relationship_object rel (the (marshal_relationship env rel))) rels)
             (s\<lparr>st_db := db\<rparr>))" (is "_ = Inr ?s")
    and inv: "rels_inv kv env U db"
    and stored: "\<And>h rel'. rel_stored kv env db h rel' \<longleftrightarrow> rel_stored kv env (st_db s) h rel' \<or>
            (rel' \<in> set rels \<and> h = sha256 env (the (marshal_relationship env rel')))"
    and same: "\<And>k. kv_map kv db (rsrc_key k) = kv_map kv (st_db s) (rsrc_key k)"
    and full: "no_dangling kv env (st_db s) \<longrightarrow> no_dangling kv env db"
    using AddRelationships_spec [OF assms] by blast
  have open': "\<not> st_closed ?s" using assms(4) by simp
  have "GetResource kv env p ?s = GetResource kv env p s" for p
  proof (cases "encodeResourceKey p")
    case (Inl e)
    then show ?thesis using assms(4) by (simp add: GetResource_def)
  next
    case (Inr k)
    show ?thesis
      using GetResource_spec [OF assms(1) open' Inr] GetResource_spec [OF assms(1,4) Inr] same by simp
  qed
  then show ?thesis using add inv stored full by (intro exI [of _ ?s]) auto
qed

definition demo_values :: "bytes set" where
  "demo_values = {''l1'', ''l2'', ''l3''}"

lemma demo_rel_hyps:
  "sha_ok demo_codec demo_values" "\<not> st_closed demo_store" "rels_inv mem_kv demo_codec U (st_db demo_store)"
  "check_relationships demo_edges = None"
  "\<forall>rel \<in> set demo_edges. writable demo_codec demo_values rel"
proof -
  show "sha_ok demo_codec demo_values"
    by (auto simp: sha_ok_def demo_codec_def demo_values_def objKeySize_def inj_on_def min_def)
  show "rels_inv mem_kv demo_codec U (st_db demo_store)"
    by (rule empty_rels_inv) (simp add: demo_store_def mem_kv_def kv_map_def fun_eq_iff)
  show "check_relationships demo_edges = None" by code_simp
  have "encodeResourceKey (Some (demo_ref ''a'')) = Inr ''pod/YQ==''"
    "encodeResourceKey (Some (demo_ref ''b'')) = Inr ''pod/Yg==''"
    "encodeResourceKey (Some (demo_ref ''c'')) = Inr ''pod/Yw==''" by code_simp+
  then show "\<forall>rel \<in> set demo_edges. writable demo_codec demo_values rel"
    by (simp add: writable_def demo_values_def demo_codec_def demo_rels_def demo_rel_def demo_ref_def)
qed (simp add: demo_store_def)

theorem store_add_relationships_witness:
  "\<exists>s'. AddRelationships mem_kv demo_codec demo_edges demo_store = Inr s' \<and>
    rels_inv mem_kv demo_codec demo_values (st_db s') \<and>
    (\<exists>h. rel_stored mem_kv demo_codec (st_db s') h (demo_rel ''c'' ''a''))"
  using store_add_relationships [OF mem_kv_laws demo_codec_roundtrip demo_rel_hyps(1,2,4,3,5)] by auto


lemma demo_related:
  obtains s where "AddRelationships mem_kv demo_codec demo_edges demo_store = Inr s"
    "\<not> st_closed s" "rels_inv mem_kv demo_codec demo_values (st_db s)"
    "\<exists>h. rel_stored mem_kv demo_codec (st_db s) h (demo_rel ''a'' ''b'')"
    "\<exists>h. rel_stored mem_kv demo_codec (st_db s) h (demo_rel ''c'' ''a'')"
    "\<exists>h. rel_stored mem_kv demo_codec (st_db s) h (demo_rel ''c'' ''b'')"
proof -
  obtain db where "AddRelationships mem_kv demo_codec demo_edges demo_store =
      Inr (emit_each (map (\<lambda>rel. relationship_object rel (the (marshal_relationship demo_codec rel))) demo_edges)
             (demo_store\<lparr>st_db := db\<rparr>))" (is "_ = Inr ?s")
    and "rels_inv mem_kv demo_codec demo_values db"
    and "\<And>h rel'. rel' \<in> set demo_edges \<and> h = sha256 demo_codec (the (marshal_relationship demo_codec rel')) \<Longrightarrow>
       rel_stored mem_kv demo_codec db h rel'"
    using AddRelationships_spec [OF mem_kv_laws demo_codec_roundtrip demo_rel_hyps(1,2,4,3,5)] by blast
  then show ?thesis using that [of ?s] demo_rel_hyps(2) by auto
qed



section \<open>Deleting\<close>

text \<open>
  C5. Deleting a resource succeeds and cascades: afterwards the resource is not found, every
  stored relationship that mentions it is gone and no other is, and reading any other resource
  is unchanged. Subscribers whose filter matches get one delete event.
\<close>

theorem store_delete_cascades:
  assumes "kv_laws kv" "rels_inv kv env U (st_db s)" "\<not> st_closed s"
    and "encodeResourceKey (Some rf) = Inr k"
    and "marshal_resource env (deleted_resource now rf) = Some v"
  shows "\<exists>s'. DeleteResource kv env arrange now (Some rf) s = (None, s') \<and>
    GetResource kv env (Some rf) s' = Inl ErrResourceNotFound \<and>
    (\<forall>p. encodeResourceKey p \<noteq> Inr k \<longrightarrow> GetResource kv env p s' = GetResource kv env p s) \<and>
    (\<forall>h rel. rel_stored kv env (st_db s') h rel \<longleftrightarrow> rel_stored kv env (st_db s) h rel \<and> \<not> mentions k rel) \<and>
    st_subscribers s' = routeEvent (resource_event EventTypeDelete
      (Some \<lparr>td_kind = ''Resource'', td_type = ref_type_url rf\<rparr>) resourceTypeUrl v) (st_subscribers s)"
proof -
  obtain db where del: "DeleteResource kv env arrange now (Some rf) s =
      (None, emit (resource_event EventTypeDelete (rsrc_type (deleted_resource now rf)) resourceTypeUrl v)
               (s\<lparr>st_db := db\<rparr>))" (is "_ = (_, ?s)")
    and ad: "after_delete kv (st_db s) k db"
    using DeleteResource_spec [OF assms(1) rels_invD(1) [OF assms(2)] assms(3,4,5)] by blast
  have open': "\<not> st_closed ?s" using assms(3) by simp
  have gone: "kv_map kv db (rsrc_key k) = None"
    and same: "\<And>k'. k' \<noteq> k \<Longrightarrow> kv_map kv db (rsrc_key k') = kv_map kv (st_db s) (rsrc_key k')"
    using ad by (auto simp: after_delete_def Let_def)
  have "GetResource kv env (Some rf) ?s = Inl ErrResourceNotFound"
    using GetResource_spec [OF assms(1) open' assms(4)] gone by simp
  moreover have "GetResource kv env p ?s = GetResource kv env p s" if "encodeResourceKey p \<noteq> Inr k" for p
  proof (cases "encodeResourceKey p")
    case (Inl e)
    then show ?thesis using assms(3) by (simp add: GetResource_def)
  next
    case (Inr k')
    then show ?thesis
      using GetResource_spec [OF assms(1) open' Inr] GetResource_spec [OF assms(1,3) Inr] same that by simp
  qed
  moreover have "rel_stored kv env (st_db ?s) h rel \<longleftrightarrow> rel_stored kv env (st_db s) h rel \<and> \<not> mentions k rel"
    for h rel using delete_rel_stored [OF assms(2) ad] by simp
  ultimately show ?thesis using del
    by (intro exI [of _ ?s]) (simp add: deleted_resource_def)
qed

lemma demo_delete_hyps:
  "encodeResourceKey (Some (demo_ref ''a'')) = Inr ''pod/YQ==''"
  "marshal_resource demo_codec (deleted_resource 3 (demo_ref ''a'')) = Some ''r3''"
  "mentions ''pod/YQ=='' (demo_rel ''a'' ''b'')"
  by code_simp+

theorem store_delete_cascades_witness:
  "\<exists>s s'. AddRelationships mem_kv demo_codec demo_edges demo_store = Inr s \<and>
    DeleteResource mem_kv demo_codec rev 3 (Some (demo_ref ''a'')) s = (None, s') \<and>
    (\<exists>h. rel_stored mem_kv demo_codec (st_db s) h (demo_rel ''a'' ''b'')) \<and>
    \<not> (\<exists>h. rel_stored mem_kv demo_codec (st_db s') h (demo_rel ''a'' ''b''))"
proof -
  obtain s where s: "AddRelationships mem_kv demo_codec demo_edges demo_store = Inr s"
    "\<not> st_closed s" "rels_inv mem_kv demo_codec demo_values (st_db s)"
    "\<exists>h. rel_stored mem_kv demo_codec (st_db s) h (demo_rel ''a'' ''b'')" by (rule demo_related)
  then show ?thesis
    using store_delete_cascades [OF mem_kv_laws s(3,2) demo_delete_hyps(1,2), of rev] demo_delete_hyps(3)
    by blast
qed

text \<open>
  C6. The cascade leaves the index of the other endpoint as it is. When a resource is deleted that had a
  relationship with another one, in either direction (\<open>outgoing\<close>: the deleted resource was the subject),
  a query by that other endpoint fails from then on, although the endpoint has another relationship that
  is still stored and matches the query.
\<close>

theorem delete_breaks_other_endpoint:
  assumes "kv_laws kv" "permutes arrange" "rels_inv kv env U (st_db s)" "\<not> st_closed s"
    and "encodeResourceKey (Some rf) = Inr k" "marshal_resource env (deleted_resource now rf) = Some v"
    and "rel_stored kv env (st_db s) h rel" "rel_stored kv env (st_db s) h' rel'"
    and "encodeResourceKey (if outgoing then rel_subject rel else rel_object rel) = Inr k"
    and "subject = (if outgoing then None else Some other)" "object = (if outgoing then Some other else None)"
    and "query_match subject object None rel" "query_match subject object None rel'" "\<not> mentions k rel'"
    and "encodeResourceKey (Some other) = Inr k'" "k' \<noteq> k"
    and "DeleteResource kv env arrange now (Some rf) s = (e, s')"
  shows "rel_stored kv env (st_db s') h' rel' \<and>
    (\<exists>rels err. GetRelationships kv env arrange subject object None s' = (rels, Some err))"
proof -
  obtain db where s': "s' = emit (resource_event EventTypeDelete
        (rsrc_type (deleted_resource now rf)) resourceTypeUrl v) (s\<lparr>st_db := db\<rparr>)"
    and ad: "after_delete kv (st_db s) k db"
    using DeleteResource_spec [OF assms(1) rels_invD(1) [OF assms(3)] assms(4,5,6), of arrange] assms(17)
    by auto
  note stored = delete_rel_stored [OF assms(3) ad]
  define ik where "ik = (if outgoing then object_key k' else subject_key k')"
  have ik: "index_key ik" "lookup_indexes subject object None = Inr [ik]"
    using assms(10,11,15) by (simp_all add: ik_def index_key_simps lookup_indexes_def)
  have "h \<in> set (hashes kv (st_db s) ik)"
    using stored_listed_iff [OF assms(3,7) ik(1)] lookup_indexes_match(2) [OF ik(2)] assms(12) by simp
  moreover have "hashes kv db ik = hashes kv (st_db s) ik"
    using after_delete_listed(3) [OF ad ik(1), of k'] assms(16) by (auto simp: ik_def)
  moreover have "kv_map kv db (rel_key h) = None"
  proof -
    have "mentions k rel" using assms(9) by (auto simp: mentions_def split: if_splits)
    then show ?thesis
      using mentions_gone [OF assms(3,7)] ad by (auto simp: after_delete_def Let_def)
  qed
  ultimately have "lists_deleted kv (st_db s') [ik]" by (auto simp: lists_deleted_def s')
  moreover have "rels_inv kv env U (st_db s')" "\<not> st_closed s'"
    using after_delete_inv [OF assms(3) ad] assms(4) by (simp_all add: s')
  ultimately have "\<exists>rels err. GetRelationships kv env arrange subject object None s' = (rels, Some err)"
    using GetRelationships_query [OF assms(1,2) _ _ ik(2) _ refl, where s = s' and env = env and U = U]
    by (metis list.distinct(1))
  then show ?thesis using stored assms(8,14) by (simp add: s')
qed

theorem delete_breaks_other_endpoint_witness:
  "\<exists>s s' h. AddRelationships mem_kv demo_codec demo_edges demo_store = Inr s \<and>
    DeleteResource mem_kv demo_codec rev 3 (Some (demo_ref ''a'')) s = (None, s') \<and>
    rel_stored mem_kv demo_codec (st_db s') h (demo_rel ''c'' ''b'') \<and>
    snd (GetRelationships mem_kv demo_codec rev None (Some (demo_ref ''b'')) None s') \<noteq> None \<and>
    snd (GetRelationships mem_kv demo_codec rev (Some (demo_ref ''c'')) None None s') \<noteq> None"
proof -
  obtain s h1 h2 h3 where s: "AddRelationships mem_kv demo_codec demo_edges demo_store = Inr s"
    "\<not> st_closed s" "rels_inv mem_kv demo_codec demo_values (st_db s)"
    "rel_stored mem_kv demo_codec (st_db s) h1 (demo_rel ''a'' ''b'')"
    "rel_stored mem_kv demo_codec (st_db s) h2 (demo_rel ''c'' ''a'')"
    "rel_stored mem_kv demo_codec (st_db s) h3 (demo_rel ''c'' ''b'')" using demo_related by metis
  obtain s' where s': "DeleteResource mem_kv demo_codec rev 3 (Some (demo_ref ''a'')) s = (None, s')"
    using DeleteResource_spec [OF mem_kv_laws rels_invD(1) [OF s(3)] s(2) demo_delete_hyps(1,2)] by blast
  have perm: "permutes rev" by (simp add: permutes_def)
  have "encodeResourceKey (rel_subject (demo_rel ''a'' ''b'')) = Inr ''pod/YQ==''"
    "encodeResourceKey (rel_object (demo_rel ''c'' ''a'')) = Inr ''pod/YQ==''"
    "encodeResourceKey (Some (demo_ref ''b'')) = Inr ''pod/Yg==''" "encodeResourceKey (Some (demo_ref ''c'')) = Inr ''pod/Yw==''"
    "query_match None (Some (demo_ref ''b'')) None (demo_rel ''a'' ''b'')" "query_match None (Some (demo_ref ''b'')) None (demo_rel ''c'' ''b'')"
    "query_match (Some (demo_ref ''c'')) None None (demo_rel ''c'' ''a'')" "query_match (Some (demo_ref ''c'')) None None (demo_rel ''c'' ''b'')"
    "\<not> mentions ''pod/YQ=='' (demo_rel ''c'' ''b'')" "''pod/Yg=='' \<noteq> ''pod/YQ==''" "''pod/Yw=='' \<noteq> ''pod/YQ==''"
    by code_simp+
  note demo = this
  from delete_breaks_other_endpoint [OF mem_kv_laws perm s(3,2) demo_delete_hyps(1,2) s(4,6), where outgoing = True
      and other = "demo_ref ''b''", simplified, OF demo(1) refl refl demo(5,6,9,3,10) s']
    delete_breaks_other_endpoint [OF mem_kv_laws perm s(3,2) demo_delete_hyps(1,2) s(5,6), where outgoing = False
      and other = "demo_ref ''c''", simplified, OF demo(2) refl refl demo(7,8,9,4,11) s'] s(1) s'
  show ?thesis by (intro exI [of _ s] exI [of _ s'] exI [of _ h3]) auto
qed

text \<open>
  The binary search over an index value misses entries: with two hashes in the index,
  removing the smaller one changes nothing, so the index keeps listing it.
\<close>

theorem delete_from_index_misses_first:
  assumes "kv_laws kv" "kv_map kv txn ik = Some (h1 @ h2)"
    and "length h1 = objKeySize" "length h2 = objKeySize" "h1 < h2"
  shows "deleteObjKeyFromIndex kv txn ik h1 = Inr txn"
proof -
  have hl: "hash_list [h1, h2]" using assms(3,4) by (simp add: hash_list_def)
  have n: "numObjects (h1 @ h2) = 2" using numObjects_concat [OF hl] by simp
  have at: "obj_at (h1 @ h2) 1 = h2" using obj_at_concat [OF hl, of 1] by simp
  have "find_obj (h1 @ h2) h1 0 0 = None" by (simp add: find_obj.simps)
  then have "find_obj (h1 @ h2) h1 0 2 = None"
    using assms(5) at by (simp add: find_obj.simps [of _ _ 0 2] order_less_not_sym)
  then show ?thesis
    using kv_get_Some [OF kv_lawsD(1) [OF assms(1)] assms(2)] n by (auto simp: deleteObjKeyFromIndex_def)
qed

theorem delete_from_index_misses_first_witness:
  "let h1 = replicate 32 (CHR ''a''); h2 = replicate 32 (CHR ''b'') in
   deleteObjKeyFromIndex mem_kv [(''/idx/rel-predicate/Runs'', h1 @ h2)] ''/idx/rel-predicate/Runs'' h1 =
     Inr [(''/idx/rel-predicate/Runs'', h1 @ h2)]"
proof -
  let ?h1 = "replicate 32 (CHR ''a'')" and ?h2 = "replicate 32 (CHR ''b'')"
  have "?h1 < ?h2" by code_simp
  with delete_from_index_misses_first [OF mem_kv_laws, of "[(''/idx/rel-predicate/Runs'', ?h1 @ ?h2)]"
      "''/idx/rel-predicate/Runs''" ?h1 ?h2]
  show ?thesis by (simp add: Let_def mem_kv_def kv_map_def objKeySize_def)
qed

section \<open>Keys\<close>

text \<open>
  On references whose parts hold no slash, outside the host namespace, the storage key is
  injective: two different references never share a key.
\<close>

theorem resource_key_injective:
  assumes "plain_ref r" "plain_ref r'"
    and "encodeResourceKey (Some r) = Inr k" "encodeResourceKey (Some r') = Inr k'"
  shows "k = k' \<longleftrightarrow> r = r'"
  using encode_plain_inject [OF assms(1,2,3)] assms(3,4) by auto

theorem resource_key_injective_witness:
  "''pod/Yg=='' = ''pod/YQ=='' \<longleftrightarrow> demo_ref ''b'' = demo_ref ''a''"
proof -
  have "plain_ref (demo_ref ''b'')" "plain_ref (demo_ref ''a'')"
    "encodeResourceKey (Some (demo_ref ''b'')) = Inr ''pod/Yg==''"
    "encodeResourceKey (Some (demo_ref ''a'')) = Inr ''pod/YQ==''" by code_simp+
  then show ?thesis by (rule resource_key_injective)
qed



section \<open>Subscriptions\<close>

text \<open>A dotted path is below another when it is the same or continues it after a dot.\<close>

definition below :: "bytes \<Rightarrow> bytes \<Rightarrow> bool" where
  "below p s \<longleftrightarrow> s = p \<or> (\<exists>t. s = p @ CHR ''.'' # t)"

lemma hasPrefix_below: "hasPrefix (split_on (CHR ''.'') s) (split_on (CHR ''.'') p) \<longleftrightarrow> below p s"
  using hasPrefix_dotted [of "CHR ''.''" s p]
  by (auto simp: hasPrefix_iff below_def split_on_append_all)

text \<open>
  A subscription matches a type descriptor exactly when it has no filter at all, or it has
  a type filter, the descriptor's type is below one of the filter's types, and its kind is
  below one of the filter's kinds if there are any.
\<close>

theorem subscription_matches:
  "sub_match (new_subscriber tds) (Some td) \<longleftrightarrow>
     (let kinds = {td_kind f | f. Some f \<in> set tds \<and> td_kind f \<noteq> ''''};
          types = {td_type f | f. Some f \<in> set tds \<and> td_type f \<noteq> ''''}
      in kinds = {} \<and> types = {} \<or>
         (kinds = {} \<or> (\<exists>k \<in> kinds. below k (td_kind td))) \<and> (\<exists>t \<in> types. below t (td_type td)))"
proof -
  define K where "K = {td_kind f | f. Some f \<in> set tds \<and> td_kind f \<noteq> ''''}"
  define T where "T = {td_type f | f. Some f \<in> set tds \<and> td_type f \<noteq> ''''}"
  have filters: "set (kind_filters tds) = split_on (CHR ''.'') ` K"
    "set (type_filters tds) = split_on (CHR ''.'') ` T"
    by (force simp: kind_filters_def K_def split: option.splits if_splits,
        force simp: type_filters_def T_def split: option.splits if_splits)
  have empty: "kind_filters tds = [] \<longleftrightarrow> K = {}" "type_filters tds = [] \<longleftrightarrow> T = {}"
    unfolding set_empty [symmetric] filters image_is_empty by (rule refl)+
  show ?thesis
    unfolding sub_match_def new_subscriber_def Let_def K_def [symmetric] T_def [symmetric]
    by (auto simp: list_ex_iff filters hasPrefix_below empty)
qed

text \<open>
  A subscription whose descriptors name only kinds is dead: it matches nothing, so neither
  the initial listing nor any later sequence of events ever puts anything on its channel.
\<close>

theorem kind_only_subscription_silent:
  assumes "\<forall>f. Some f \<in> set tds \<longrightarrow> td_type f = ''''" "Some f \<in> set tds" "td_kind f \<noteq> ''''"
  shows "sendInitialObjects kv env txn (new_subscriber tds) = new_subscriber tds \<and>
    fold routeEvent es [new_subscriber tds] = [new_subscriber tds]"
proof -
  have "typeMatch (new_subscriber tds) = []" "kindMatch (new_subscriber tds) \<noteq> []"
    using assms by (force simp: new_subscriber_def kind_filters_def type_filters_def split: option.splits)+
  from sub_match_kind_only [OF this(2,1)] have never: "\<not> sub_match (new_subscriber tds) td" for td .
  then have "initial_resources kv env txn (new_subscriber tds) = []"
    "initial_relationships kv env txn (new_subscriber tds) = []"
    by (auto simp: initial_resources_def initial_relationships_def split: sum.splits option.splits)
  then have "sendInitialObjects kv env txn (new_subscriber tds) = new_subscriber tds"
    by (simp add: sendInitialObjects_def)
  moreover have "routeEvent e [new_subscriber tds] = [new_subscriber tds]" for e
    by (simp add: routeEvent_def never)
  then have "fold routeEvent es [new_subscriber tds] = [new_subscriber tds]"
    by (induction es) simp_all
  ultimately show ?thesis by simp
qed

theorem kind_only_subscription_silent_witness:
  "let sub = new_subscriber [Some \<lparr>td_kind = ''Resource'', td_type = ''''\<rparr>];
       e = resource_event EventTypeAdd (Some \<lparr>td_kind = ''Resource'', td_type = ''pod''\<rparr>) resourceTypeUrl ''r1''
   in fold routeEvent [e] [sub] = [sub] \<and>
      sendInitialObjects mem_kv demo_codec (st_db demo_stored) sub = sub"
proof -
  let ?td = "\<lparr>td_kind = ''Resource'', td_type = ''''\<rparr>"
  have "\<forall>f. Some f \<in> set [Some ?td] \<longrightarrow> td_type f = ''''" "Some ?td \<in> set [Some ?td]" "td_kind ?td \<noteq> ''''"
    by simp_all
  note silent = kind_only_subscription_silent [OF this]
  show ?thesis
    unfolding Let_def by (intro conjI silent [THEN conjunct1] silent [THEN conjunct2])
qed

lemma sub_match_cong:
  "kindMatch s = kindMatch s' \<Longrightarrow> typeMatch s = typeMatch s' \<Longrightarrow> sub_match s = sub_match s'"
  by (rule ext) (simp only: sub_match_def)

text \<open>
  Every subscriber sees the events it matches, in the order the store emitted them and
  nothing else, whatever the other subscribers are.
\<close>

theorem subscriber_stream:
  assumes "i < length subs"
  shows "sub_ch (fold routeEvent es subs ! i) = sub_ch (subs ! i) @
    filter (\<lambda>e. ev_objs e \<noteq> [] \<and> sub_match (subs ! i) (obj_type (hd (ev_objs e)))) es"
  using assms
proof (induction es arbitrary: subs)
  case (Cons e es)
  have same: "sub_match (routeEvent e subs ! i) = sub_match (subs ! i)"
    by (rule sub_match_cong) (use routeEvent_frame(2) [OF Cons.prems, of e] in auto)
  show ?case
    using Cons.IH [of "routeEvent e subs"] Cons.prems
    by (simp add: routeEvent_frame(1) same routeEvent_ch)
qed simp

theorem subscriber_stream_witness:
  "let pod = Some \<lparr>td_kind = ''Resource'', td_type = ''k8s.Pod''\<rparr>;
       node = Some \<lparr>td_kind = ''Resource'', td_type = ''k8s.Node''\<rparr>;
       e1 = resource_event EventTypeAdd pod resourceTypeUrl ''r1'';
       e2 = resource_event EventTypeAdd node resourceTypeUrl ''r2''
   in sub_ch (fold routeEvent [e1, e2] [new_subscriber [node]] ! 0) = [e2]"
proof -
  define subs where "subs = [new_subscriber [Some \<lparr>td_kind = ''Resource'', td_type = ''k8s.Node''\<rparr>]]"
  have "0 < length subs" by (simp add: subs_def)
  note stream = subscriber_stream [OF this]
  show ?thesis
    unfolding Let_def subs_def [symmetric] stream
    unfolding subs_def by code_simp
qed

text \<open>
  C33. The binary search over an index entry ends: with fewer than \<open>2 ^ k\<close> objects in the entry, \<open>k\<close>
  iterations of the loop are enough, whatever the entry holds (sorted or not), and the result is the
  one the deletion uses.
\<close>

theorem index_search_terminates:
  assumes "numObjects v < 2 ^ k"
  shows "search_loop k v needle 0 (int (numObjects v)) = Some (find_obj v needle 0 (int (numObjects v)))"
proof (rule search_loop_ends)
  have "int (numObjects v) < int (2 ^ k)" using assms by (simp only: of_nat_less_iff)
  then show "int (numObjects v) - 0 < 2 ^ k" by simp
qed

theorem index_search_terminates_witness:
  "let v = replicate 32 (CHR ''a'') @ replicate 32 (CHR ''b'') @ replicate 32 (CHR ''c'')
   in numObjects v = 3 \<and> search_loop 2 v (replicate 32 (CHR ''c'')) 0 3 = Some (Some 2)"
proof -
  let ?v = "replicate 32 (CHR ''a'') @ replicate 32 (CHR ''b'') @ replicate 32 (CHR ''c'')"
  have n: "numObjects ?v = 3" and found: "find_obj ?v (replicate 32 (CHR ''c'')) 0 3 = Some 2" by code_simp+
  have "numObjects ?v < 2 ^ 2" unfolding n by simp
  from index_search_terminates [OF this, of "replicate 32 (CHR ''c'')"] show ?thesis
    unfolding Let_def n of_nat_numeral found by (intro conjI refl)
qed

end
