(* ===== verification/RingBuffer.thy ===== *)
theory RingBuffer
  imports Go_Prelude
begin

text \<open>
  The circular buffer of \<open>pkg/ringbuffer/ringbuffer.go\<close>. The model keeps the backing array,
  the write position and the element count as the code does, and shows that it implements
  the interface \<open>bounded_buffer\<close>: a buffer that keeps the last \<open>Cap()\<close> pushed elements
  in order. A panic of the code (index or slice bounds out of range, remainder by zero) is
  the value \<open>None\<close>.
\<close>

section \<open>The interface: a buffer of the most recent elements\<close>

locale bounded_buffer =
  fixes push :: "'b \<Rightarrow> 'a \<Rightarrow> 'b option"
    and get_all :: "'b \<Rightarrow> 'a list option"
    and len :: "'b \<Rightarrow> nat"
    and capacity :: "'b \<Rightarrow> nat"
    and clear :: "'b \<Rightarrow> 'b"
    and contents :: "'b \<Rightarrow> 'a list"
    and invar :: "'b \<Rightarrow> bool"
  assumes push_spec: "invar b \<Longrightarrow>
      \<exists>b'. push b x = Some b' \<and> invar b' \<and> capacity b' = capacity b \<and>
           contents b' = last_n (capacity b) (contents b @ [x])"
    and get_all_spec: "invar b \<Longrightarrow> get_all b = Some (contents b)"
    and len_spec: "invar b \<Longrightarrow> len b = length (contents b)"
    and clear_spec: "invar b \<Longrightarrow>
      invar (clear b) \<and> capacity (clear b) = capacity b \<and> contents (clear b) = []"
    and contents_bound: "invar b \<Longrightarrow> length (contents b) \<le> capacity b"
begin

fun push_list :: "'b \<Rightarrow> 'a list \<Rightarrow> 'b option" where
  "push_list b [] = Some b"
| "push_list b (x # xs) = (case push b x of None \<Rightarrow> None | Some b' \<Rightarrow> push_list b' xs)"

lemma push_list_spec:
  "invar b \<Longrightarrow> \<exists>b'. push_list b xs = Some b' \<and> invar b' \<and> capacity b' = capacity b \<and>
     contents b' = last_n (capacity b) (contents b @ xs)"
proof (induction xs arbitrary: b)
  case Nil
  then show ?case by (simp add: contents_bound)
next
  case (Cons x xs)
  obtain b1 where b1: "push b x = Some b1" "invar b1" "capacity b1 = capacity b"
      "contents b1 = last_n (capacity b) (contents b @ [x])"
    using push_spec [OF Cons.prems] by blast
  obtain b2 where "push_list b1 xs = Some b2" "invar b2" "capacity b2 = capacity b1"
      "contents b2 = last_n (capacity b1) (contents b1 @ xs)"
    using Cons.IH [OF b1(2)] by blast
  with b1 show ?case by (simp add: last_n_append)
qed

lemma push_list_length:
  assumes "invar b" and "push_list b xs = Some b'"
  shows "len b' = min (capacity b) (length (contents b) + length xs)"
  using push_list_spec [OF assms(1), of xs] assms(2) len_spec by auto

end

section \<open>The code\<close>

record 'a ring_buffer =
  rb_data :: "'a list"
  rb_head :: nat
  rb_size :: nat

datatype ring_error = CapacityNotPositive int

text \<open>
  \<open>make([]T, n)\<close> fills the slice with the zero value of \<open>T\<close>, the argument \<open>zero\<close>.
\<close>

definition ring_new :: "'a \<Rightarrow> int \<Rightarrow> (ring_error, 'a ring_buffer) result" where
  "ring_new zero cap =
     (if cap \<le> 0 then Inl (CapacityNotPositive cap)
      else Inr \<lparr>rb_data = replicate (nat cap) zero, rb_head = 0, rb_size = 0\<rparr>)"

definition ring_cap :: "'a ring_buffer \<Rightarrow> nat" where
  "ring_cap r = length (rb_data r)"

definition ring_len :: "'a ring_buffer \<Rightarrow> nat" where
  "ring_len r = rb_size r"

definition ring_push :: "'a ring_buffer \<Rightarrow> 'a \<Rightarrow> 'a ring_buffer option" where
  "ring_push r item =
     (if rb_head r < length (rb_data r)
      then Some \<lparr>rb_data = (rb_data r)[rb_head r := item],
                 rb_head = (rb_head r + 1) mod ring_cap r,
                 rb_size = (if rb_size r < ring_cap r then rb_size r + 1 else rb_size r)\<rparr>
      else None)"

definition ring_get_all :: "'a \<Rightarrow> 'a ring_buffer \<Rightarrow> 'a list option" where
  "ring_get_all zero r =
     (if rb_size r = 0 then Some []
      else (let result = replicate (rb_size r) zero
            in if rb_size r < ring_cap r
               then Some (copy_into result (take (rb_size r) (rb_data r)))
               else if rb_head r > ring_cap r then None
               else (let src = drop (rb_head r) (rb_data r);
                         n = copy_count result src;
                         result = copy_into result src
                     in Some (take n result
                              @ copy_into (drop n result) (take (rb_head r) (rb_data r))))))"

definition ring_clear :: "'a \<Rightarrow> 'a ring_buffer \<Rightarrow> 'a ring_buffer" where
  "ring_clear zero r = \<lparr>rb_data = replicate (ring_cap r) zero, rb_head = 0, rb_size = 0\<rparr>"

section \<open>Correctness\<close>

definition ring_inv :: "'a ring_buffer \<Rightarrow> bool" where
  "ring_inv r \<longleftrightarrow> rb_head r < ring_cap r \<and> rb_size r \<le> ring_cap r \<and>
     (rb_size r < ring_cap r \<longrightarrow> rb_head r = rb_size r)"

text \<open>The elements of the buffer, oldest first.\<close>

definition ring_list :: "'a ring_buffer \<Rightarrow> 'a list" where
  "ring_list r = (if rb_size r < ring_cap r then take (rb_size r) (rb_data r)
                  else drop (rb_head r) (rb_data r) @ take (rb_head r) (rb_data r))"

lemma length_ring_list: "ring_inv r \<Longrightarrow> length (ring_list r) = rb_size r"
  by (auto simp: ring_list_def ring_inv_def ring_cap_def)

lemma ring_new_inv:
  "ring_new zero cap = Inr r \<Longrightarrow> ring_inv r \<and> ring_list r = [] \<and> ring_cap r = nat cap \<and> 0 < cap"
  by (auto simp: ring_new_def ring_inv_def ring_list_def ring_cap_def split: if_splits)

lemma ring_clear_spec:
  "ring_inv r \<Longrightarrow> ring_inv (ring_clear zero r) \<and> ring_cap (ring_clear zero r) = ring_cap r \<and>
     ring_list (ring_clear zero r) = []"
  by (auto simp: ring_clear_def ring_inv_def ring_list_def ring_cap_def)

lemma ring_push_defined:
  "ring_inv r \<Longrightarrow> \<exists>r'. ring_push r x = Some r' \<and> ring_inv r' \<and> ring_cap r' = ring_cap r"
proof -
  assume inv: "ring_inv r"
  then have "(rb_head r + 1) mod ring_cap r < ring_cap r"
    by (auto simp: ring_inv_def)
  with inv show ?thesis
    by (auto simp: ring_push_def ring_inv_def ring_cap_def)
qed

text \<open>A push into a buffer with room appends; a push into a full one drops the oldest.\<close>

lemma ring_push_room:
  assumes "ring_inv r" "rb_size r < ring_cap r" "ring_push r x = Some r'"
  shows "ring_list r' = ring_list r @ [x]"
proof -
  have h: "rb_head r = rb_size r" and r': "rb_data r' = (rb_data r)[rb_size r := x]"
      "rb_size r' = Suc (rb_size r)" "rb_head r' = Suc (rb_size r) mod ring_cap r"
    using assms by (auto simp: ring_inv_def ring_push_def ring_cap_def split: if_splits)
  have t: "take (Suc (rb_size r)) ((rb_data r)[rb_size r := x]) = take (rb_size r) (rb_data r) @ [x]"
    using assms(2) by (simp add: ring_cap_def take_Suc_conv_app_nth)
  show ?thesis
  proof (cases "Suc (rb_size r) < ring_cap r")
    case True
    with r' t assms(2) show ?thesis by (simp add: ring_list_def ring_cap_def)
  next
    case False
    with assms(2) have "Suc (rb_size r) = ring_cap r" by simp
    with r' t assms(2) show ?thesis by (simp add: ring_list_def ring_cap_def)
  qed
qed

lemma ring_push_full:
  assumes "ring_inv r" "\<not> rb_size r < ring_cap r" "ring_push r x = Some r'"
  shows "ring_list r' = tl (ring_list r) @ [x]"
proof -
  let ?d = "rb_data r" and ?h = "rb_head r"
  have h: "?h < length ?d" and r': "rb_data r' = ?d[?h := x]"
      "rb_size r' = rb_size r" "rb_head r' = Suc ?h mod length ?d"
    using assms by (auto simp: ring_inv_def ring_push_def ring_cap_def split: if_splits)
  have d: "drop ?h ?d = ?d ! ?h # drop (Suc ?h) ?d"
    using h by (simp add: Cons_nth_drop_Suc)
  have t: "take (Suc ?h) (?d[?h := x]) = take ?h ?d @ [x]"
    using h by (simp add: take_Suc_conv_app_nth)
  show ?thesis
  proof (cases "Suc ?h = length ?d")
    case True
    with r' t d assms(2) show ?thesis by (simp add: ring_list_def ring_cap_def)
  next
    case False
    with h have "Suc ?h mod length ?d = Suc ?h" by simp
    with r' t d assms(2) show ?thesis by (simp add: ring_list_def ring_cap_def)
  qed
qed

lemma ring_push_list:
  assumes inv: "ring_inv r" and push: "ring_push r x = Some r'"
  shows "ring_list r' = last_n (ring_cap r) (ring_list r @ [x])"
proof (cases "rb_size r < ring_cap r")
  case True
  with ring_push_room [OF inv True push] length_ring_list [OF inv] show ?thesis by simp
next
  case False
  with inv have "length (ring_list r) = ring_cap r" "0 < ring_cap r"
    by (auto simp: length_ring_list ring_inv_def)
  with ring_push_full [OF inv False push] show ?thesis by (simp add: last_n_snoc_full)
qed

lemma ring_get_all_list: "ring_inv r \<Longrightarrow> ring_get_all zero r = Some (ring_list r)"
  by (auto simp: ring_get_all_def ring_list_def ring_inv_def ring_cap_def copy_into_def
      copy_count_def Let_def)

interpretation ring: bounded_buffer ring_push "ring_get_all zero" ring_len ring_cap
  "ring_clear zero" ring_list ring_inv
proof (unfold_locales, goal_cases)
  case (1 b x)
  then show ?case using ring_push_defined [of b x] ring_push_list [of b x] by blast
next
  case (2 b)
  then show ?case by (rule ring_get_all_list)
next
  case (3 b)
  then show ?case by (simp add: ring_len_def length_ring_list)
next
  case (4 b)
  then show ?case by (rule ring_clear_spec)
next
  case (5 b)
  then show ?case by (simp add: length_ring_list ring_inv_def)
qed

text \<open>Pushing a whole list, the model's own iteration.\<close>

fun ring_push_many :: "'a ring_buffer \<Rightarrow> 'a list \<Rightarrow> 'a ring_buffer option" where
  "ring_push_many r [] = Some r"
| "ring_push_many r (x # xs) =
     (case ring_push r x of None \<Rightarrow> None | Some r' \<Rightarrow> ring_push_many r' xs)"

lemma ring_push_many_eq: "ring_push_many r xs = ring.push_list r xs"
  by (induction r xs rule: ring_push_many.induct) (auto split: option.splits)

end
