(* ===== verification/OtelConfig.thy ===== *)
theory OtelConfig
  imports Complex_Main Go_Prelude
begin

text \<open>
  The configuration of the OpenTelemetry consumer,
  \<open>internal/metrics/consumers/otel/config.go\<close>: its defaults, the environment variables that
  override them and the validation that normalises it. Durations are nanoseconds
  (\<^typ>\<open>int\<close>); \<open>BackoffFactor\<close> is a finite float and is a \<^typ>\<open>real\<close>. The
  environment is a function from names to values, \<open>""\<close> for an unset variable as
  \<open>os.Getenv\<close> has it, and \<open>time.ParseDuration\<close> is the argument \<open>parse_duration\<close>.
\<close>

type_synonym environment = "bytes \<Rightarrow> bytes"

type_synonym compression_type = bytes

abbreviation CompressionGZip :: compression_type where
  "CompressionGZip \<equiv> ''gzip''"

abbreviation CompressionNone :: compression_type where
  "CompressionNone \<equiv> ''none''"

definition MaxSafeBatchSize :: int where
  "MaxSafeBatchSize = 10000"

definition MaxSafeQueueSize :: int where
  "MaxSafeQueueSize = 100000"

definition compression_is_valid :: "compression_type \<Rightarrow> bool" where
  "compression_is_valid c = (c = CompressionGZip \<or> c = CompressionNone)"

record retry_config =
  Enabled :: bool
  MaxRetries :: int
  InitialBackoff :: duration
  MaxBackoff :: duration
  BackoffFactor :: real

record otel_config =
  Endpoint :: bytes
  Insecure :: bool
  Headers :: "bytes \<rightharpoonup> bytes"
  Compression :: compression_type
  Timeout :: duration
  RetryConfig :: retry_config
  ServiceName :: bytes
  ServiceVersion :: bytes
  GlobalTags :: "bytes list"
  BatchTimeout :: duration
  ExportBatchSize :: int
  MaxQueueSize :: int

datatype otel_config_error =
  ErrEndpointRequired | ErrInvalidCompressionType | ErrBatchSizeTooLarge | ErrQueueSizeTooLarge

definition DefaultConfig :: otel_config where
  "DefaultConfig =
     \<lparr>Endpoint = ''localhost:4317'', Insecure = False, Headers = Map.empty,
      Compression = CompressionGZip, Timeout = 30 * second,
      RetryConfig = \<lparr>Enabled = True, MaxRetries = 3, InitialBackoff = 1 * second,
                     MaxBackoff = 30 * second, BackoffFactor = 2\<rparr>,
      ServiceName = ''antimetal-agent'', ServiceVersion = '''',
      GlobalTags = [''service:antimetal-agent''],
      BatchTimeout = 10 * second, ExportBatchSize = 500, MaxQueueSize = 1000\<rparr>"

fun getEnvVar :: "environment \<Rightarrow> bytes list \<Rightarrow> bytes" where
  "getEnvVar env [] = ''''"
| "getEnvVar env (name # names) =
     (let value = env name in if value \<noteq> '''' then value else getEnvVar env names)"

text \<open>\<open>strings.SplitN(s, sep, 2)\<close>: at most one cut, at the first separator.\<close>

fun split_first :: "char \<Rightarrow> bytes \<Rightarrow> bytes list" where
  "split_first c [] = [[]]"
| "split_first c (x # xs) =
     (if x = c then [[], xs]
      else (case split_first c xs of [] \<Rightarrow> [[x]] | p # ps \<Rightarrow> (x # p) # ps))"

fun parse_header_pairs :: "(bytes \<rightharpoonup> bytes) \<Rightarrow> bytes list \<Rightarrow> (bytes \<rightharpoonup> bytes)" where
  "parse_header_pairs result [] = result"
| "parse_header_pairs result (pair # pairs) =
     (let result' =
        (case split_first (CHR ''='') (trim_space pair) of
           [k, v] \<Rightarrow> (let key = trim_space k; value = trim_space v
                      in if key \<noteq> '''' then result(key \<mapsto> value) else result)
         | _ \<Rightarrow> result)
      in parse_header_pairs result' pairs)"

definition parseHeaders :: "bytes \<Rightarrow> (bytes \<rightharpoonup> bytes)" where
  "parseHeaders headers = parse_header_pairs Map.empty (split_on (CHR '','') headers)"

text \<open>\<open>strconv.ParseBool\<close>.\<close>

definition parse_bool :: "bytes \<Rightarrow> bool option" where
  "parse_bool s =
     (if s \<in> {''1'', ''t'', ''T'', ''TRUE'', ''true'', ''True''} then Some True
      else if s \<in> {''0'', ''f'', ''F'', ''FALSE'', ''false'', ''False''} then Some False
      else None)"

text \<open>
  Each block of \<open>ApplyEnvironmentVariables\<close> sets one field when its variable is not empty and
  its parser accepts the value; \<open>override\<close> is the field's value after the block. Likewise
  \<open>or_default\<close> is a field of \<open>Validate\<close> after its \<open>if\<close> statement.
\<close>

definition override :: "bytes \<Rightarrow> (bytes \<Rightarrow> 'a option) \<Rightarrow> 'a \<Rightarrow> 'a" where
  "override v parse old =
     (if v \<noteq> '''' then (case parse v of Some x \<Rightarrow> x | None \<Rightarrow> old) else old)"

definition or_default :: "('a \<Rightarrow> bool) \<Rightarrow> 'a \<Rightarrow> 'a \<Rightarrow> 'a" where
  "or_default bad d x = (if bad x then d else x)"

definition parse_compression :: "bytes \<Rightarrow> compression_type option" where
  "parse_compression s = (if compression_is_valid s then Some s else None)"

definition parse_positive :: "bytes \<Rightarrow> int option" where
  "parse_positive s =
     (case atoi s of Some n \<Rightarrow> (if n > 0 then Some n else None) | None \<Rightarrow> None)"

definition ApplyEnvironmentVariables ::
    "(bytes \<Rightarrow> duration option) \<Rightarrow> environment \<Rightarrow> otel_config \<Rightarrow> otel_config" where
  "ApplyEnvironmentVariables parse_duration env c =
     c\<lparr>Endpoint := override (getEnvVar env
          [''OTEL_EXPORTER_OTLP_METRICS_ENDPOINT'', ''OTEL_EXPORTER_OTLP_ENDPOINT''])
          Some (Endpoint c),
       Insecure := override (getEnvVar env
          [''OTEL_EXPORTER_OTLP_METRICS_INSECURE'', ''OTEL_EXPORTER_OTLP_INSECURE''])
          parse_bool (Insecure c),
       Headers := override (getEnvVar env
          [''OTEL_EXPORTER_OTLP_METRICS_HEADERS'', ''OTEL_EXPORTER_OTLP_HEADERS''])
          (\<lambda>v. Some (parseHeaders v)) (Headers c),
       Compression := override (getEnvVar env
          [''OTEL_EXPORTER_OTLP_METRICS_COMPRESSION'', ''OTEL_EXPORTER_OTLP_COMPRESSION''])
          parse_compression (Compression c),
       Timeout := override (getEnvVar env
          [''OTEL_EXPORTER_OTLP_METRICS_TIMEOUT'', ''OTEL_EXPORTER_OTLP_TIMEOUT''])
          parse_duration (Timeout c),
       ServiceName := override (env ''OTEL_SERVICE_NAME'') Some (ServiceName c),
       ServiceVersion := override (env ''OTEL_SERVICE_VERSION'') Some (ServiceVersion c),
       MaxQueueSize := override (env ''OTEL_EXPORTER_METRICS_MAX_QUEUE_SIZE'')
          parse_positive (MaxQueueSize c),
       ExportBatchSize := override (env ''OTEL_EXPORTER_METRICS_EXPORT_BATCH_SIZE'')
          parse_positive (ExportBatchSize c)\<rparr>"

definition GetConfigFromEnvironment ::
    "(bytes \<Rightarrow> duration option) \<Rightarrow> environment \<Rightarrow> otel_config" where
  "GetConfigFromEnvironment parse_duration env =
     ApplyEnvironmentVariables parse_duration env DefaultConfig"

text \<open>
  \<open>Validate\<close> updates its receiver in place, also on the way to an error; a caller that gets
  an error drops the configuration, so the model returns it only on success.
\<close>

definition validate_retry :: "retry_config \<Rightarrow> retry_config" where
  "validate_retry r =
     r\<lparr>MaxRetries := or_default (\<lambda>n. n < 0) 0 (MaxRetries r),
       InitialBackoff := or_default (\<lambda>d. d \<le> 0) (1 * second) (InitialBackoff r),
       MaxBackoff := or_default (\<lambda>d. d \<le> 0) (30 * second) (MaxBackoff r),
       BackoffFactor := or_default (\<lambda>f. f \<le> 1) 2 (BackoffFactor r)\<rparr>"

definition with_defaults :: "otel_config \<Rightarrow> otel_config" where
  "with_defaults c =
     c\<lparr>Compression := or_default (\<lambda>x. x = '''') CompressionGZip (Compression c),
       Timeout := or_default (\<lambda>d. d \<le> 0) (30 * second) (Timeout c),
       BatchTimeout := or_default (\<lambda>d. d \<le> 0) (10 * second) (BatchTimeout c),
       ExportBatchSize := or_default (\<lambda>n. n \<le> 0) 500 (ExportBatchSize c),
       MaxQueueSize := or_default (\<lambda>n. n \<le> 0) 1000 (MaxQueueSize c),
       ServiceName := or_default (\<lambda>x. x = '''') ''antimetal-agent'' (ServiceName c),
       RetryConfig := validate_retry (RetryConfig c)\<rparr>"

definition Validate :: "otel_config \<Rightarrow> (otel_config_error, otel_config) result" where
  "Validate c =
    (if Endpoint c = '''' then Inl ErrEndpointRequired
     else if Compression c \<noteq> '''' \<and> \<not> compression_is_valid (Compression c)
          then Inl ErrInvalidCompressionType
     else if ExportBatchSize c > MaxSafeBatchSize then Inl ErrBatchSizeTooLarge
     else if MaxQueueSize c > MaxSafeQueueSize then Inl ErrQueueSizeTooLarge
     else Inr (with_defaults c))"

section \<open>What validation guarantees\<close>

definition retry_ok :: "retry_config \<Rightarrow> bool" where
  "retry_ok r \<longleftrightarrow> 0 \<le> MaxRetries r \<and> 0 < InitialBackoff r \<and> 0 < MaxBackoff r \<and>
     1 < BackoffFactor r"

definition config_ok :: "otel_config \<Rightarrow> bool" where
  "config_ok c \<longleftrightarrow> Endpoint c \<noteq> '''' \<and> compression_is_valid (Compression c) \<and>
     0 < Timeout c \<and> 0 < BatchTimeout c \<and>
     0 < ExportBatchSize c \<and> ExportBatchSize c \<le> MaxSafeBatchSize \<and>
     0 < MaxQueueSize c \<and> MaxQueueSize c \<le> MaxSafeQueueSize \<and>
     ServiceName c \<noteq> '''' \<and> retry_ok (RetryConfig c)"

lemma or_default_id: "\<not> bad x \<Longrightarrow> or_default bad d x = x"
  by (simp add: or_default_def)

lemma validate_retry_ok: "retry_ok (validate_retry r)"
  by (simp add: validate_retry_def retry_ok_def second_def or_default_def)

lemma validate_retry_id: "retry_ok r \<Longrightarrow> validate_retry r = r"
  by (simp add: validate_retry_def retry_ok_def or_default_id)

lemma or_default_neq: "d \<noteq> v \<Longrightarrow> or_default (\<lambda>x. x = v) d x \<noteq> v"
  by (simp add: or_default_def)

lemma or_default_pos: "0 < d \<Longrightarrow> 0 < or_default (\<lambda>n. n \<le> 0) d (x::int)"
  by (simp add: or_default_def)

lemma or_default_le: "d \<le> m \<Longrightarrow> x \<le> m \<Longrightarrow> or_default bad d x \<le> m"
  by (simp add: or_default_def)

lemma or_default_compression:
  "x = '''' \<or> compression_is_valid x \<Longrightarrow>
   compression_is_valid (or_default (\<lambda>x. x = '''') CompressionGZip x)"
  by (auto simp: or_default_def compression_is_valid_def)

lemma Validate_config_ok:
  assumes "Validate c = Inr c'"
  shows "config_ok c'"
proof -
  have guards: "Endpoint c \<noteq> ''''" "Compression c = '''' \<or> compression_is_valid (Compression c)"
      "ExportBatchSize c \<le> MaxSafeBatchSize" "MaxQueueSize c \<le> MaxSafeQueueSize"
    using assms unfolding Validate_def by (simp_all split: if_split_asm)
  have limits: "(500::int) \<le> MaxSafeBatchSize" "(1000::int) \<le> MaxSafeQueueSize" "0 < second"
    by (simp_all add: MaxSafeBatchSize_def MaxSafeQueueSize_def second_def)
  have "c' = with_defaults c"
    using assms unfolding Validate_def by (simp split: if_split_asm)
  with guards show ?thesis
    using limits
    by (simp add: with_defaults_def config_ok_def validate_retry_ok or_default_compression
        or_default_neq or_default_pos or_default_le)
qed

lemma Validate_id:
  assumes ok: "config_ok c"
  shows "Validate c = Inr c"
proof -
  have "Compression c \<noteq> ''''"
    using ok by (auto simp: config_ok_def compression_is_valid_def)
  with ok show ?thesis
    by (simp add: Validate_def with_defaults_def config_ok_def or_default_id validate_retry_id not_less)
qed

text \<open>The environment can only make the two sizes too large: every other override keeps the
  configuration acceptable to \<open>Validate\<close>.\<close>

lemma env_config_Validate:
  assumes "Validate (GetConfigFromEnvironment pd env) = Inl e"
  shows "(e = ErrBatchSizeTooLarge \<and>
            MaxSafeBatchSize < ExportBatchSize (GetConfigFromEnvironment pd env)) \<or>
         (e = ErrQueueSizeTooLarge \<and>
            MaxSafeQueueSize < MaxQueueSize (GetConfigFromEnvironment pd env))"
proof -
  let ?c = "GetConfigFromEnvironment pd env"
  have "Endpoint ?c \<noteq> ''''" and "compression_is_valid (Compression ?c)"
    by (auto simp: GetConfigFromEnvironment_def ApplyEnvironmentVariables_def DefaultConfig_def
        override_def parse_compression_def compression_is_valid_def)
  with assms show ?thesis
    by (auto simp: Validate_def split: if_splits)
qed

end
