(* ===== verification/MetricsRouter.thy ===== *)
theory MetricsRouter
  imports Go_Prelude
begin

text \<open>
  The metrics pipeline's event type and router: \<open>internal/metrics/event.go\<close>,
  \<open>internal/metrics/consumer.go\<close> and \<open>internal/metrics/router.go\<close>.

  A consumer is an object behind the Go interface \<open>Consumer\<close>: its state is a value of a
  type variable \<open>'c\<close>, its \<open>HandleEvent\<close> the argument \<open>handle\<close>, which returns the new
  state and the error, if any, and its \<open>Health\<close> the argument \<open>health\<close>. Go iterates over a
  map in an unspecified order, so each iteration over \<open>consumers\<close> takes the order as an
  argument; the theorems hold for every order.
\<close>

section \<open>Events\<close>

type_synonym metric_type = bytes

definition MetricTypeLoad :: metric_type where "MetricTypeLoad = ''load''"
definition MetricTypeMemory :: metric_type where "MetricTypeMemory = ''memory''"
definition MetricTypeCPU :: metric_type where "MetricTypeCPU = ''cpu''"
definition MetricTypeProcess :: metric_type where "MetricTypeProcess = ''process''"
definition MetricTypeDisk :: metric_type where "MetricTypeDisk = ''disk''"
definition MetricTypeNetwork :: metric_type where "MetricTypeNetwork = ''network''"
definition MetricTypeTCP :: metric_type where "MetricTypeTCP = ''tcp''"
definition MetricTypeKernel :: metric_type where "MetricTypeKernel = ''kernel''"
definition MetricTypeSystem :: metric_type where "MetricTypeSystem = ''system''"
definition MetricTypeNUMAStats :: metric_type where "MetricTypeNUMAStats = ''numa_stats''"
definition MetricTypeCgroupCPU :: metric_type where "MetricTypeCgroupCPU = ''cgroup_cpu''"
definition MetricTypeCgroupMemory :: metric_type where "MetricTypeCgroupMemory = ''cgroup_memory''"
definition MetricTypeCPUInfo :: metric_type where "MetricTypeCPUInfo = ''cpu_info''"
definition MetricTypeMemoryInfo :: metric_type where "MetricTypeMemoryInfo = ''memory_info''"
definition MetricTypeDiskInfo :: metric_type where "MetricTypeDiskInfo = ''disk_info''"
definition MetricTypeNetworkInfo :: metric_type where "MetricTypeNetworkInfo = ''network_info''"

record 'd metric_event =
  Timestamp :: int
  Source :: bytes
  NodeName :: bytes
  ClusterName :: bytes
  MetricType :: metric_type
  Data :: 'd

record 'e consumer_health =
  Healthy :: bool
  LastError :: "'e option"
  EventsCount :: nat
  ErrorsCount :: nat

section \<open>The router\<close>

record 'c metrics_router =
  consumers :: "bytes \<rightharpoonup> 'c"
  router_closed :: bool

datatype 'e router_error =
  ErrRouterClosed
| ConsumerAlreadyRegistered bytes
| ConsumerNotFound bytes
| ConsumerError 'e

definition NewMetricsRouter :: "'c metrics_router" where
  "NewMetricsRouter = \<lparr>consumers = Map.empty, router_closed = False\<rparr>"

text \<open>\<open>Start\<close> blocks until its context is cancelled; this is the step it then takes.\<close>

definition router_shutdown :: "'c metrics_router \<Rightarrow> 'c metrics_router" where
  "router_shutdown r = r\<lparr>router_closed := True\<rparr>"

definition RegisterConsumer ::
    "bytes \<Rightarrow> 'c \<Rightarrow> 'c metrics_router \<Rightarrow> ('e router_error, 'c metrics_router) result" where
  "RegisterConsumer name consumer r =
     (if consumers r name \<noteq> None then Inl (ConsumerAlreadyRegistered name)
      else Inr (r\<lparr>consumers := (consumers r)(name \<mapsto> consumer)\<rparr>))"

definition UnregisterConsumer ::
    "bytes \<Rightarrow> 'c metrics_router \<Rightarrow> ('e router_error, 'c metrics_router) result" where
  "UnregisterConsumer name r =
     (if consumers r name = None then Inl (ConsumerNotFound name)
      else Inr (r\<lparr>consumers := (consumers r)(name := None)\<rparr>))"

text \<open>The loop of \<open>Publish\<close>: every consumer handles the event, the last error is kept.\<close>

fun publish_loop :: "('c \<Rightarrow> 'ev \<Rightarrow> 'c \<times> 'e option) \<Rightarrow> 'ev \<Rightarrow> bytes list \<Rightarrow>
    (bytes \<rightharpoonup> 'c) \<Rightarrow> 'e option \<Rightarrow> (bytes \<rightharpoonup> 'c) \<times> 'e option" where
  "publish_loop handle ev [] cs lastErr = (cs, lastErr)"
| "publish_loop handle ev (name # names) cs lastErr =
     (case cs name of
        None \<Rightarrow> publish_loop handle ev names cs lastErr
      | Some c \<Rightarrow>
          (case handle c ev of
             (c', err) \<Rightarrow>
               publish_loop handle ev names (cs(name \<mapsto> c'))
                 (case err of None \<Rightarrow> lastErr | Some e \<Rightarrow> Some e)))"

definition Publish :: "('c \<Rightarrow> 'ev \<Rightarrow> 'c \<times> 'e option) \<Rightarrow> bytes list \<Rightarrow> 'ev \<Rightarrow>
    'c metrics_router \<Rightarrow> 'c metrics_router \<times> 'e router_error option" where
  "Publish handle order event r =
     (if router_closed r then (r, Some ErrRouterClosed)
      else (case publish_loop handle event order (consumers r) None of
              (cs, lastErr) \<Rightarrow> (r\<lparr>consumers := cs\<rparr>, map_option ConsumerError lastErr)))"

text \<open>\<open>PublishBatch\<close>: each event comes with the iteration order of its \<open>Publish\<close>.\<close>

fun PublishBatch :: "('c \<Rightarrow> 'ev \<Rightarrow> 'c \<times> 'e option) \<Rightarrow> ('ev \<times> bytes list) list \<Rightarrow>
    'c metrics_router \<Rightarrow> 'c metrics_router \<times> 'e router_error option" where
  "PublishBatch handle [] r = (r, None)"
| "PublishBatch handle ((event, order) # events) r =
     (case Publish handle order event r of
        (r', Some e) \<Rightarrow> (r', Some e)
      | (r', None) \<Rightarrow> PublishBatch handle events r')"

record 'e router_stats =
  ConsumerCount :: nat
  Consumers :: "bytes \<rightharpoonup> 'e consumer_health"

definition GetStats :: "('c \<Rightarrow> 'e consumer_health) \<Rightarrow> 'c metrics_router \<Rightarrow> 'e router_stats" where
  "GetStats health r =
     \<lparr>ConsumerCount = card (dom (consumers r)),
      Consumers = (\<lambda>name. map_option health (consumers r name))\<rparr>"

section \<open>What publishing does\<close>

text \<open>An iteration order of a map visits each key exactly once.\<close>

definition map_order :: "('k \<rightharpoonup> 'v) \<Rightarrow> 'k list \<Rightarrow> bool" where
  "map_order m ks \<longleftrightarrow> distinct ks \<and> set ks = dom m"

text \<open>The consumers after delivering one event to all of them, and whether one failed.\<close>

definition deliver :: "('c \<Rightarrow> 'ev \<Rightarrow> 'c \<times> 'e option) \<Rightarrow> 'ev \<Rightarrow> (bytes \<rightharpoonup> 'c) \<Rightarrow> (bytes \<rightharpoonup> 'c)" where
  "deliver handle ev cs = (\<lambda>name. map_option (\<lambda>c. fst (handle c ev)) (cs name))"

definition any_fails :: "('c \<Rightarrow> 'ev \<Rightarrow> 'c \<times> 'e option) \<Rightarrow> 'ev \<Rightarrow> (bytes \<rightharpoonup> 'c) \<Rightarrow> bool" where
  "any_fails handle ev cs \<longleftrightarrow> (\<exists>c \<in> ran cs. snd (handle c ev) \<noteq> None)"

lemma publish_loop_consumers:
  "distinct names \<Longrightarrow> fst (publish_loop handle ev names cs err) =
     (\<lambda>n. if n \<in> set names then map_option (\<lambda>c. fst (handle c ev)) (cs n) else cs n)"
proof (induction names arbitrary: cs err)
  case Nil
  then show ?case by simp
next
  case (Cons name names)
  then show ?case
    by (cases "cs name") (auto split: prod.splits simp: fun_eq_iff)
qed

lemma publish_loop_error:
  "distinct names \<Longrightarrow> (snd (publish_loop handle ev names cs err) = None) =
     (err = None \<and> (\<forall>n \<in> set names. \<forall>c. cs n = Some c \<longrightarrow> snd (handle c ev) = None))"
proof (induction names arbitrary: cs err)
  case Nil
  then show ?case by simp
next
  case (Cons name names)
  then show ?case
    by (cases "cs name") (auto split: prod.splits option.splits)
qed

lemma publish_loop_error_from:
  "snd (publish_loop handle ev names cs err) = Some e \<Longrightarrow> distinct names \<Longrightarrow>
     err = Some e \<or> (\<exists>n \<in> set names. \<exists>c. cs n = Some c \<and> snd (handle c ev) = Some e)"
proof (induction names arbitrary: cs err)
  case Nil
  then show ?case by simp
next
  case (Cons name names)
  show ?case
  proof (cases "cs name")
    case None
    with Cons show ?thesis by auto
  next
    case (Some c)
    obtain c' er where h: "handle c ev = (c', er)" by (cases "handle c ev")
    with Cons.prems Some
    have "snd (publish_loop handle ev names (cs(name \<mapsto> c'))
        (case er of None \<Rightarrow> err | Some e \<Rightarrow> Some e)) = Some e" by simp
    from Cons.IH [OF this] Cons.prems(2)
    have "(case er of None \<Rightarrow> err | Some e \<Rightarrow> Some e) = Some e \<or>
      (\<exists>n \<in> set names. \<exists>d. (cs(name \<mapsto> c')) n = Some d \<and> snd (handle d ev) = Some e)" by simp
    then show ?thesis
      using Cons.prems(2) Some h by (auto split: option.splits if_splits)
  qed
qed

lemma Publish_open:
  assumes "\<not> router_closed r" and "map_order (consumers r) order"
  shows "fst (Publish handle order ev r) = r\<lparr>consumers := deliver handle ev (consumers r)\<rparr>"
    and "(snd (Publish handle order ev r) = None) = (\<not> any_fails handle ev (consumers r))"
proof -
  let ?l = "publish_loop handle ev order (consumers r) None"
  have d: "distinct order" "set order = dom (consumers r)"
    using assms(2) by (auto simp: map_order_def)
  have "fst ?l = deliver handle ev (consumers r)"
    using publish_loop_consumers [OF d(1), of handle ev "consumers r" None] d(2)
    by (auto simp: deliver_def fun_eq_iff domIff)
  then show "fst (Publish handle order ev r) = r\<lparr>consumers := deliver handle ev (consumers r)\<rparr>"
    using assms(1) by (auto simp: Publish_def split: prod.splits)
  have "(snd ?l = None) = (\<not> any_fails handle ev (consumers r))"
    using publish_loop_error [OF d(1), of handle ev "consumers r" None] d(2)
    by (auto simp: any_fails_def ran_def dom_def)
  then show "(snd (Publish handle order ev r) = None) = (\<not> any_fails handle ev (consumers r))"
    using assms(1) by (auto simp: Publish_def split: prod.splits)
qed

lemma dom_deliver [simp]: "dom (deliver handle ev cs) = dom cs"
  by (auto simp: deliver_def dom_def)

lemma map_order_deliver [simp]: "map_order (deliver handle ev cs) ks = map_order cs ks"
  by (simp add: map_order_def)

section \<open>The consumer interface\<close>

text \<open>
  What the router relies on from a consumer: \<open>HandleEvent\<close> keeps the consumer's own
  invariant, and the consumer keeps its name. Everything else it does is its own affair.
\<close>

locale metric_consumer =
  fixes handle :: "'c \<Rightarrow> 'ev \<Rightarrow> 'c \<times> 'e option"
    and invar :: "'c \<Rightarrow> bool"
  assumes handle_invar: "invar c \<Longrightarrow> invar (fst (handle c ev))"
begin

definition all_invar :: "'c metrics_router \<Rightarrow> bool" where
  "all_invar r = (\<forall>c \<in> ran (consumers r). invar c)"

lemma deliver_all_invar: "(\<forall>c \<in> ran cs. invar c) \<Longrightarrow> \<forall>c \<in> ran (deliver handle ev cs). invar c"
  by (auto simp: deliver_def ran_def handle_invar)

lemma publish_loop_invar:
  "(\<forall>c \<in> ran cs. invar c) \<Longrightarrow> \<forall>c \<in> ran (fst (publish_loop handle ev names cs err)). invar c"
proof (induction names arbitrary: cs err)
  case Nil
  then show ?case by simp
next
  case (Cons name names)
  show ?case
  proof (cases "cs name")
    case None
    with Cons show ?thesis by simp
  next
    case (Some c)
    obtain c' er where h: "handle c ev = (c', er)" by (cases "handle c ev")
    have "invar c'"
      using handle_invar [of c ev] Cons.prems Some h by (auto simp: ran_def)
    with Cons.prems have "\<forall>d \<in> ran (cs(name \<mapsto> c')). invar d"
      by (auto simp: ran_def)
    with Cons.IH Some h show ?thesis by simp
  qed
qed

lemma Publish_all_invar: "all_invar r \<Longrightarrow> all_invar (fst (Publish handle order ev r))"
  using publish_loop_invar [of "consumers r" ev order None]
  by (auto simp: all_invar_def Publish_def split: prod.splits)

lemma PublishBatch_all_invar: "all_invar r \<Longrightarrow> all_invar (fst (PublishBatch handle evs r))"
proof (induction evs arbitrary: r)
  case Nil
  then show ?case by simp
next
  case (Cons p evs)
  obtain event order where p: "p = (event, order)" by (cases p)
  obtain r' e where pub: "Publish handle order event r = (r', e)"
    by (cases "Publish handle order event r")
  with Publish_all_invar [OF Cons.prems, of order event] have "all_invar r'" by simp
  with Cons.IH pub p show ?case by (cases e) auto
qed

end

end
