(* ===== verification/OtelConsumer.thy ===== *)
theory OtelConsumer
  imports RingBuffer OtelConfig MetricsRouter "HOL-Library.Word"
begin

text \<open>
  The OpenTelemetry consumer: its notifying buffer
  (\<open>internal/metrics/consumers/otel/buffer.go\<close>) and its event loop
  (\<open>internal/metrics/consumers/otel/consumer.go\<close>). The buffer's notification channel has
  capacity one, so its state is whether a notification is pending. What the transformer does
  with one event is the argument \<open>transform\<close>; it records the event, fails or panics.
  The statistics are \<open>atomic.Uint64\<close> and are 64-bit words.
\<close>

section \<open>MetricsBuffer\<close>

record 'ev metrics_buffer =
  mb_rb :: "'ev ring_buffer"
  notifyThreshold :: int
  notify :: bool

definition NewMetricsBuffer ::
    "'ev \<Rightarrow> int \<Rightarrow> int \<Rightarrow> (ring_error, 'ev metrics_buffer) result" where
  "NewMetricsBuffer zero cap threshold =
     result_bind (ring_new zero cap)
       (\<lambda>rb. Inr \<lparr>mb_rb = rb, notifyThreshold = threshold, notify = False\<rparr>)"

text \<open>
  \<open>Push\<close> holds the lock while it changes the ring buffer and notifies after it released it;
  the two halves are separate steps of the interleaving model below, and one call is both.
\<close>

definition mb_push_locked :: "'ev metrics_buffer \<Rightarrow> 'ev \<Rightarrow> ('ev metrics_buffer \<times> nat) option" where
  "mb_push_locked b event =
     (case ring_push (mb_rb b) event of
        None \<Rightarrow> None
      | Some rb \<Rightarrow> Some (b\<lparr>mb_rb := rb\<rparr>, ring_len rb))"

definition mb_notify :: "nat \<Rightarrow> 'ev metrics_buffer \<Rightarrow> 'ev metrics_buffer" where
  "mb_notify currentLen b =
     (if int currentLen \<ge> notifyThreshold b then b\<lparr>notify := True\<rparr> else b)"

definition mb_push :: "'ev metrics_buffer \<Rightarrow> 'ev \<Rightarrow> 'ev metrics_buffer option" where
  "mb_push b event =
     (case mb_push_locked b event of None \<Rightarrow> None | Some (b', n) \<Rightarrow> Some (mb_notify n b'))"

text \<open>\<open>Drain\<close> returns a nil slice when the buffer is empty; \<open>[]\<close> stands for it.\<close>

definition mb_drain :: "'ev \<Rightarrow> 'ev metrics_buffer \<Rightarrow> ('ev list \<times> 'ev metrics_buffer) option" where
  "mb_drain zero b =
     (if ring_len (mb_rb b) = 0 then Some ([], b)
      else (case ring_get_all zero (mb_rb b) of
              None \<Rightarrow> None
            | Some all \<Rightarrow> Some (all, b\<lparr>mb_rb := ring_clear zero (mb_rb b)\<rparr>)))"

definition mb_len :: "'ev metrics_buffer \<Rightarrow> nat" where
  "mb_len b = ring_len (mb_rb b)"

definition mb_cap :: "'ev metrics_buffer \<Rightarrow> nat" where
  "mb_cap b = ring_cap (mb_rb b)"

abbreviation mb_list :: "'ev metrics_buffer \<Rightarrow> 'ev list" where
  "mb_list b \<equiv> ring_list (mb_rb b)"

abbreviation mb_inv :: "'ev metrics_buffer \<Rightarrow> bool" where
  "mb_inv b \<equiv> ring_inv (mb_rb b)"

lemma mb_push_locked_spec:
  "mb_inv b \<Longrightarrow> \<exists>b' n. mb_push_locked b x = Some (b', n) \<and> mb_inv b' \<and> mb_cap b' = mb_cap b \<and>
     mb_list b' = last_n (mb_cap b) (mb_list b @ [x]) \<and> n = mb_len b' \<and>
     notify b' = notify b \<and> notifyThreshold b' = notifyThreshold b"
  using ring.push_spec [of "mb_rb b" x] by (auto simp: mb_push_locked_def mb_cap_def mb_len_def)

lemma mb_notify_simps [simp]:
  "mb_rb (mb_notify n b) = mb_rb b"
  "notifyThreshold (mb_notify n b) = notifyThreshold b"
  "notify (mb_notify n b) = (notify b \<or> int n \<ge> notifyThreshold b)"
  by (simp_all add: mb_notify_def)

lemma mb_push_spec:
  "mb_inv b \<Longrightarrow> \<exists>b'. mb_push b x = Some b' \<and> mb_inv b' \<and> mb_cap b' = mb_cap b \<and>
     mb_list b' = last_n (mb_cap b) (mb_list b @ [x]) \<and>
     notify b' = (notify b \<or> int (mb_len b') \<ge> notifyThreshold b) \<and>
     notifyThreshold b' = notifyThreshold b"
  using mb_push_locked_spec [of b x] by (auto simp: mb_push_def mb_cap_def mb_len_def)

lemma mb_drain_spec:
  assumes "mb_inv b"
  shows "\<exists>b'. mb_drain zero b = Some (mb_list b, b') \<and> mb_inv b' \<and> mb_cap b' = mb_cap b \<and>
     mb_list b' = [] \<and> notify b' = notify b \<and> notifyThreshold b' = notifyThreshold b"
proof (cases "ring_len (mb_rb b) = 0")
  case True
  then have "mb_list b = []" using ring.len_spec [OF assms] by simp
  with True assms show ?thesis by (simp add: mb_drain_def)
next
  case False
  then show ?thesis
    using ring.clear_spec [OF assms] ring.get_all_spec [OF assms]
    by (simp add: mb_drain_def mb_cap_def)
qed

subsection \<open>No notification is lost\<close>

text \<open>
  Pushers and the consumer goroutine interleave. \<open>pending\<close> counts the pushers that released
  the lock with the buffer at the threshold and have not notified yet; \<open>awake\<close> says that the
  consumer took the notification and has not drained yet.
\<close>

record 'ev wakeup_state =
  ws_buffer :: "'ev metrics_buffer"
  pending :: nat
  awake :: bool

inductive wakeup_step :: "'ev \<Rightarrow> 'ev wakeup_state \<Rightarrow> 'ev wakeup_state \<Rightarrow> bool" for zero where
  locked_push: "mb_push_locked (ws_buffer s) x = Some (b, n) \<Longrightarrow>
    wakeup_step zero s (s\<lparr>ws_buffer := b,
      pending := (if int n \<ge> notifyThreshold b then Suc (pending s) else pending s)\<rparr>)"
| notify_sent: "0 < pending s \<Longrightarrow> int n \<ge> notifyThreshold (ws_buffer s) \<Longrightarrow>
    wakeup_step zero s (s\<lparr>ws_buffer := mb_notify n (ws_buffer s), pending := pending s - 1\<rparr>)"
| notify_received: "notify (ws_buffer s) \<Longrightarrow> \<not> awake s \<Longrightarrow>
    wakeup_step zero s (s\<lparr>ws_buffer := (ws_buffer s)\<lparr>notify := False\<rparr>, awake := True\<rparr>)"
| drained: "mb_drain zero (ws_buffer s) = Some (evs, b) \<Longrightarrow>
    wakeup_step zero s (s\<lparr>ws_buffer := b, awake := False\<rparr>)"

definition wakeup_inv :: "'ev wakeup_state \<Rightarrow> bool" where
  "wakeup_inv s \<longleftrightarrow> mb_inv (ws_buffer s) \<and> 0 < notifyThreshold (ws_buffer s) \<and>
     (int (mb_len (ws_buffer s)) \<ge> notifyThreshold (ws_buffer s) \<longrightarrow>
        notify (ws_buffer s) \<or> 0 < pending s \<or> awake s)"

lemma wakeup_step_inv: "wakeup_step zero s t \<Longrightarrow> wakeup_inv s \<Longrightarrow> wakeup_inv t"
proof (induction rule: wakeup_step.induct)
  case (locked_push s x b n)
  then show ?case
    using mb_push_locked_spec [of "ws_buffer s" x] by (auto simp: wakeup_inv_def)
next
  case (notify_sent s n)
  then show ?case by (auto simp: wakeup_inv_def mb_len_def)
next
  case (notify_received s)
  then show ?case by (auto simp: wakeup_inv_def mb_len_def)
next
  case (drained s evs b)
  then have "mb_inv b" "mb_list b = []" "notifyThreshold b = notifyThreshold (ws_buffer s)"
    using mb_drain_spec [of "ws_buffer s" zero] by (auto simp: wakeup_inv_def)
  with drained.prems show ?case
    using ring.len_spec [of "mb_rb b"] by (auto simp: wakeup_inv_def mb_len_def)
qed

lemma wakeup_step_threshold:
  assumes "wakeup_step zero s t" "wakeup_inv s"
  shows "notifyThreshold (ws_buffer t) = notifyThreshold (ws_buffer s)"
  using assms
proof (induction rule: wakeup_step.induct)
  case (locked_push s x b n)
  then show ?case using mb_push_locked_spec [of "ws_buffer s" x] by (auto simp: wakeup_inv_def)
next
  case (drained s evs b)
  then show ?case using mb_drain_spec [of "ws_buffer s" zero] by (auto simp: wakeup_inv_def)
qed simp_all

section \<open>The consumer\<close>

record ('ev, 'e) otel_consumer =
  oc_config :: otel_config
  oc_buffer :: "'ev metrics_buffer"
  healthy :: bool
  lastError :: "'e option"
  eventsProcessed :: "64 word"
  eventsDropped :: "64 word"
  errorsCount :: "64 word"
  bufferHighWater :: "64 word"
  bufferOverflows :: "64 word"

datatype new_consumer_error = ConfigInvalid otel_config_error | BufferInvalid ring_error

definition NewConsumer ::
    "'ev \<Rightarrow> otel_config \<Rightarrow> (new_consumer_error, ('ev, 'e) otel_consumer) result" where
  "NewConsumer zero config =
     result_bind (map_error ConfigInvalid (Validate config)) (\<lambda>config.
     result_bind (map_error BufferInvalid
         (NewMetricsBuffer zero (MaxQueueSize config) (ExportBatchSize config))) (\<lambda>buffer.
     Inr \<lparr>oc_config = config, oc_buffer = buffer, healthy = True, lastError = None,
          eventsProcessed = 0, eventsDropped = 0, errorsCount = 0,
          bufferHighWater = 0, bufferOverflows = 0\<rparr>))"

definition HandleEvent :: "('ev, 'e) otel_consumer \<Rightarrow> 'ev \<Rightarrow> ('ev, 'e) otel_consumer option" where
  "HandleEvent c event =
     (let bufferLen = mb_len (oc_buffer c);
          c = (if bufferLen \<ge> mb_cap (oc_buffer c)
               then c\<lparr>bufferOverflows := bufferOverflows c + 1,
                      eventsDropped := eventsDropped c + 1\<rparr>
               else c);
          c = (if (of_nat bufferLen :: 64 word) > bufferHighWater c
               then c\<lparr>bufferHighWater := of_nat bufferLen\<rparr> else c)
      in (case mb_push (oc_buffer c) event of
            None \<Rightarrow> None
          | Some b \<Rightarrow> Some (c\<lparr>oc_buffer := b\<rparr>)))"

definition Health :: "('ev, 'e) otel_consumer \<Rightarrow> 'e consumer_health" where
  "Health c = \<lparr>Healthy = healthy c, LastError = lastError c,
               EventsCount = unat (eventsProcessed c),
               ErrorsCount = unat (errorsCount c + eventsDropped c)\<rparr>"

datatype 'e transform_outcome = Recorded | Failed 'e | Panicked "'e option"

text \<open>
  \<open>processBatch\<close>. The result says whether a panic left the loop, with the panic value when it
  is an error.
\<close>

fun processBatch :: "('ev \<Rightarrow> 'e transform_outcome) \<Rightarrow> 'ev list \<Rightarrow> ('ev, 'e) otel_consumer \<Rightarrow>
    ('ev, 'e) otel_consumer \<times> 'e option option" where
  "processBatch transform [] c = (c, None)"
| "processBatch transform (event # batch) c =
     (case transform event of
        Failed err \<Rightarrow>
          processBatch transform batch
            (c\<lparr>errorsCount := errorsCount c + 1, lastError := Some err\<rparr>)
      | Recorded \<Rightarrow>
          processBatch transform batch (c\<lparr>eventsProcessed := eventsProcessed c + 1\<rparr>)
      | Panicked p \<Rightarrow> (c, Some p))"

text \<open>
  The loop over sub-slices of \<open>ExportBatchSize\<close> events. With a size of zero the code loops
  forever and with a negative one the slice bounds panic: \<open>None\<close>. Validation excludes both.
\<close>

function batch_loop :: "('ev \<Rightarrow> 'e transform_outcome) \<Rightarrow> int \<Rightarrow> 'ev list \<Rightarrow> nat \<Rightarrow>
    ('ev, 'e) otel_consumer \<Rightarrow> (('ev, 'e) otel_consumer \<times> 'e option option) option" where
  "batch_loop transform bsize events i c =
     (if i < length events
      then if bsize \<le> 0 then None
           else (let stop = (if i + nat bsize > length events then length events else i + nat bsize)
                 in case processBatch transform (take (stop - i) (drop i events)) c of
                      (c', Some p) \<Rightarrow> Some (c', Some p)
                    | (c', None) \<Rightarrow> batch_loop transform bsize events (i + nat bsize) c')
      else Some (c, None))"
  by pat_completeness auto
termination
  by (relation "measure (\<lambda>(tr, bsize, events, i, c). length events - i)") auto

declare batch_loop.simps [simp del]

text \<open>The three branches of the select in \<open>processEvents\<close>; the recovery of a panic marks the
  consumer unhealthy and ends the goroutine.\<close>

datatype loop_event = OnNotify | OnTick | OnDone

definition recover_panic ::
    "'e option \<Rightarrow> ('ev, 'e) otel_consumer \<Rightarrow> ('ev, 'e) otel_consumer" where
  "recover_panic p c =
     (let c = c\<lparr>healthy := False\<rparr>
      in case p of None \<Rightarrow> c | Some err \<Rightarrow> c\<lparr>lastError := Some err\<rparr>)"

definition process_drained :: "('ev \<Rightarrow> 'e transform_outcome) \<Rightarrow> loop_event \<Rightarrow> 'ev list \<Rightarrow>
    ('ev, 'e) otel_consumer \<Rightarrow> (('ev, 'e) otel_consumer \<times> 'e option option) option" where
  "process_drained transform le events c =
     (if length events > 0
      then (case le of
              OnNotify \<Rightarrow> batch_loop transform (ExportBatchSize (oc_config c)) events 0 c
            | OnTick \<Rightarrow> Some (processBatch transform events c)
            | OnDone \<Rightarrow> Some (processBatch transform events c))
      else Some (c, None))"

text \<open>One iteration: the new state and whether the loop goes on.\<close>

definition processEvents_step :: "'ev \<Rightarrow> ('ev \<Rightarrow> 'e transform_outcome) \<Rightarrow> loop_event \<Rightarrow>
    ('ev, 'e) otel_consumer \<Rightarrow> (('ev, 'e) otel_consumer \<times> bool) option" where
  "processEvents_step zero transform le c =
     (let b0 = (if le = OnNotify then (oc_buffer c)\<lparr>notify := False\<rparr> else oc_buffer c)
      in case mb_drain zero b0 of
           None \<Rightarrow> None
         | Some (events, b) \<Rightarrow>
             (case process_drained transform le events (c\<lparr>oc_buffer := b\<rparr>) of
                None \<Rightarrow> None
              | Some (c', Some p) \<Rightarrow> Some (recover_panic p c', False)
              | Some (c', None) \<Rightarrow> Some (c', le \<noteq> OnDone)))"

section \<open>Properties of the loop\<close>

lemma processBatch_append:
  "processBatch tr (xs @ ys) c =
     (case processBatch tr xs c of
        (c', Some p) \<Rightarrow> (c', Some p) | (c', None) \<Rightarrow> processBatch tr ys c')"
  by (induction xs arbitrary: c) (auto split: transform_outcome.splits)

lemma processBatch_frame:
  "processBatch tr xs c = (c', p) \<Longrightarrow> oc_config c' = oc_config c \<and> oc_buffer c' = oc_buffer c \<and>
     eventsDropped c' = eventsDropped c \<and> healthy c' = healthy c"
  by (induction xs arbitrary: c) (fastforce split: transform_outcome.splits)+

text \<open>Without a panic every event of the batch is counted once.\<close>

lemma processBatch_count:
  "processBatch tr xs c = (c', None) \<Longrightarrow>
     eventsProcessed c' + errorsCount c' = eventsProcessed c + errorsCount c + of_nat (length xs)"
proof (induction xs arbitrary: c)
  case Nil
  then show ?case by simp
next
  case (Cons x xs)
  then show ?case
    by (cases "tr x") (force simp: algebra_simps)+
qed

text \<open>Cutting the events into sub-slices does the same as one batch.\<close>

lemma batch_loop_eq:
  assumes "0 < bsize"
  shows "batch_loop tr bsize events i c = Some (processBatch tr (drop i events) c)"
  using assms
proof (induction tr bsize events i c rule: batch_loop.induct)
  case (1 tr bsize events i c)
  show ?case
  proof (cases "i < length events")
    case False
    then show ?thesis by (simp add: batch_loop.simps [of tr bsize events i c])
  next
    case True
    define e where "e = (if i + nat bsize > length events then length events else i + nat bsize)"
    obtain c' p where pb: "processBatch tr (take (e - i) (drop i events)) c = (c', p)"
      by (cases "processBatch tr (take (e - i) (drop i events)) c")
    have "drop i events = take (e - i) (drop i events) @ drop (i + nat bsize) events"
    proof (cases "i + nat bsize > length events")
      case False
      then have "e - i = nat bsize" by (simp add: e_def)
      then show ?thesis
        by (metis append_take_drop_id drop_drop add.commute)
    qed (simp add: e_def)
    then have split: "processBatch tr (drop i events) c =
        (case p of None \<Rightarrow> processBatch tr (drop (i + nat bsize) events) c' | Some q \<Rightarrow> (c', Some q))"
      using processBatch_append [of tr "take (e - i) (drop i events)"
          "drop (i + nat bsize) events" c] pb
      by (auto split: option.splits)
    show ?thesis
    proof (cases p)
      case None
      with 1 True pb have "batch_loop tr bsize events (i + nat bsize) c'
          = Some (processBatch tr (drop (i + nat bsize) events) c')"
        by (simp add: e_def)
      with True 1 pb split None show ?thesis
        by (simp add: batch_loop.simps [of tr bsize events i c] Let_def e_def [symmetric])
    next
      case (Some q)
      with True 1 pb split show ?thesis
        by (simp add: batch_loop.simps [of tr bsize events i c] Let_def e_def [symmetric])
    qed
  qed
qed

definition otel_inv :: "('ev, 'e) otel_consumer \<Rightarrow> bool" where
  "otel_inv c \<longleftrightarrow> config_ok (oc_config c) \<and> mb_inv (oc_buffer c) \<and>
     mb_cap (oc_buffer c) = nat (MaxQueueSize (oc_config c))"

lemma otel_inv_batch_pos: "otel_inv c \<Longrightarrow> 0 < ExportBatchSize (oc_config c)"
  by (simp add: otel_inv_def config_ok_def)

lemma process_drained_eq:
  assumes "otel_inv c"
  shows "process_drained tr le events c = Some (processBatch tr events c)"
  using batch_loop_eq [OF otel_inv_batch_pos [OF assms], of tr events 0 c]
  by (cases le) (auto simp: process_drained_def)

lemma otel_inv_update_buffer:
  "otel_inv c \<Longrightarrow> mb_inv b \<Longrightarrow> mb_cap b = mb_cap (oc_buffer c) \<Longrightarrow> otel_inv (c\<lparr>oc_buffer := b\<rparr>)"
  by (simp add: otel_inv_def)

lemma recover_panic_simps [simp]:
  "oc_config (recover_panic p c) = oc_config c"
  "oc_buffer (recover_panic p c) = oc_buffer c"
  "healthy (recover_panic p c) = False"
  by (simp_all add: recover_panic_def Let_def split: option.split)

text \<open>One iteration never gets stuck, empties the buffer and keeps the invariant; without a
  panic it counts every drained event exactly once.\<close>

lemma processEvents_step_spec:
  assumes "otel_inv c"
  shows "\<exists>c' more. processEvents_step zero tr le c = Some (c', more) \<and> otel_inv c' \<and>
     mb_list (oc_buffer c') = [] \<and> oc_config c' = oc_config c \<and>
     ((\<forall>ev. \<forall>p. tr ev \<noteq> Panicked p) \<longrightarrow>
        more = (le \<noteq> OnDone) \<and> eventsDropped c' = eventsDropped c \<and>
        eventsProcessed c' + errorsCount c' =
          eventsProcessed c + errorsCount c + of_nat (length (mb_list (oc_buffer c))))"
proof -
  let ?b0 = "if le = OnNotify then (oc_buffer c)\<lparr>notify := False\<rparr> else oc_buffer c"
  have inv0: "mb_inv ?b0" "mb_list ?b0 = mb_list (oc_buffer c)"
      "mb_cap ?b0 = mb_cap (oc_buffer c)"
    using assms by (auto simp: otel_inv_def mb_cap_def)
  obtain b where b: "mb_drain zero ?b0 = Some (mb_list (oc_buffer c), b)" "mb_inv b"
      "mb_cap b = mb_cap (oc_buffer c)" "mb_list b = []"
    using mb_drain_spec [OF inv0(1), of zero] inv0(2,3) by auto
  let ?c1 = "c\<lparr>oc_buffer := b\<rparr>"
  have inv1: "otel_inv ?c1"
    using otel_inv_update_buffer [OF assms b(2)] b(3) by simp
  obtain c' p where pb: "processBatch tr (mb_list (oc_buffer c)) ?c1 = (c', p)"
    by (cases "processBatch tr (mb_list (oc_buffer c)) ?c1")
  note frame = processBatch_frame [OF pb]
  have inv': "otel_inv c'" using inv1 frame by (simp add: otel_inv_def)
  have no_panic: "p = None" if "\<forall>ev. \<forall>q. tr ev \<noteq> Panicked q"
  proof -
    have "snd (processBatch tr xs d) = None" for xs d
      using that by (induction xs arbitrary: d) (auto split: transform_outcome.splits)
    then show ?thesis using pb by (metis snd_conv)
  qed
  have step: "processEvents_step zero tr le c =
      (case p of None \<Rightarrow> Some (c', le \<noteq> OnDone) | Some q \<Rightarrow> Some (recover_panic q c', False))"
    using b(1) pb process_drained_eq [OF inv1, of tr le "mb_list (oc_buffer c)"]
    by (simp add: processEvents_step_def Let_def split: option.splits)
  show ?thesis
  proof (cases p)
    case None
    then show ?thesis
      using step inv' frame b(4) pb processBatch_count [of tr "mb_list (oc_buffer c)" ?c1 c']
      by auto
  next
    case (Some q)
    then show ?thesis
      using step inv' frame b(4) no_panic by (auto simp: otel_inv_def)
  qed
qed

section \<open>Handling events\<close>

lemma HandleEvent_spec:
  assumes "otel_inv c"
  shows "\<exists>c'. HandleEvent c ev = Some c' \<and> otel_inv c' \<and> oc_config c' = oc_config c \<and>
     mb_list (oc_buffer c') = last_n (mb_cap (oc_buffer c)) (mb_list (oc_buffer c) @ [ev]) \<and>
     eventsProcessed c' = eventsProcessed c \<and> errorsCount c' = errorsCount c \<and>
     eventsDropped c' = eventsDropped c +
       (if length (mb_list (oc_buffer c)) = mb_cap (oc_buffer c) then 1 else 0)"
proof -
  have inv: "mb_inv (oc_buffer c)" using assms by (simp add: otel_inv_def)
  obtain b where b: "mb_push (oc_buffer c) ev = Some b" "mb_inv b"
      "mb_cap b = mb_cap (oc_buffer c)"
      "mb_list b = last_n (mb_cap (oc_buffer c)) (mb_list (oc_buffer c) @ [ev])"
    using mb_push_spec [OF inv, of ev] by auto
  have full: "(mb_len (oc_buffer c) \<ge> mb_cap (oc_buffer c)) =
      (length (mb_list (oc_buffer c)) = mb_cap (oc_buffer c))"
    using ring.len_spec [OF inv] ring.contents_bound [OF inv]
    by (auto simp: mb_len_def mb_cap_def)
  have otel: "otel_inv d" if "oc_config d = oc_config c" "oc_buffer d = b" for d
    using that assms b(2,3) by (simp add: otel_inv_def)
  show ?thesis
    using b(1,4) by (simp add: HandleEvent_def Let_def full otel)
qed

lemma HandleEvent_balance:
  assumes "otel_inv c" and "HandleEvent c ev = Some c'"
  shows "eventsDropped c' + of_nat (length (mb_list (oc_buffer c'))) =
     eventsDropped c + of_nat (length (mb_list (oc_buffer c))) + 1"
proof -
  have "length (mb_list (oc_buffer c)) \<le> mb_cap (oc_buffer c)"
    using assms(1) ring.contents_bound [of "mb_rb (oc_buffer c)"]
    by (simp add: otel_inv_def mb_cap_def)
  then have "min (mb_cap (oc_buffer c)) (Suc (length (mb_list (oc_buffer c)))) =
      (if length (mb_list (oc_buffer c)) = mb_cap (oc_buffer c)
       then length (mb_list (oc_buffer c)) else Suc (length (mb_list (oc_buffer c))))"
    by auto
  then show ?thesis
    using HandleEvent_spec [OF assms(1), of ev] assms(2) by auto
qed

lemma NewConsumer_inv:
  assumes "NewConsumer zero cfg = Inr c"
  shows "otel_inv c" and "mb_list (oc_buffer c) = []"
    and "eventsProcessed c = 0" "eventsDropped c = 0" "errorsCount c = 0"
proof -
  obtain cfg' b where v: "Validate cfg = Inr cfg'"
    and b: "NewMetricsBuffer zero (MaxQueueSize cfg') (ExportBatchSize cfg') = Inr b"
    and c: "oc_config c = cfg'" "oc_buffer c = b"
      "eventsProcessed c = 0" "eventsDropped c = 0" "errorsCount c = 0"
    using assms by (auto simp: NewConsumer_def result_iff)
  obtain rb where rb: "ring_new zero (MaxQueueSize cfg') = Inr rb" "mb_rb b = rb"
    using b by (auto simp: NewMetricsBuffer_def result_iff)
  from ring_new_inv [OF rb(1)] Validate_config_ok [OF v] c rb(2)
  show "otel_inv c" "mb_list (oc_buffer c) = []"
    "eventsProcessed c = 0" "eventsDropped c = 0" "errorsCount c = 0"
    by (simp_all add: otel_inv_def mb_cap_def)
qed

text \<open>A validated configuration always yields a buffer.\<close>

lemma NewConsumer_defined:
  assumes "Validate cfg = Inr cfg'"
  shows "\<exists>c. NewConsumer zero cfg = Inr c"
proof -
  have "0 < MaxQueueSize cfg'"
    using Validate_config_ok [OF assms] by (simp add: config_ok_def)
  then show ?thesis
    using assms by (simp add: NewConsumer_def NewMetricsBuffer_def ring_new_def)
qed

text \<open>The consumer as the router sees it. The panic branch is unreachable under the invariant
  (\<open>HandleEvent_spec\<close>).\<close>

definition otel_handle ::
    "('ev, 'e) otel_consumer \<Rightarrow> 'ev \<Rightarrow> ('ev, 'e) otel_consumer \<times> 'e option" where
  "otel_handle c ev = (case HandleEvent c ev of Some c' \<Rightarrow> (c', None) | None \<Rightarrow> (c, None))"

interpretation otel: metric_consumer otel_handle otel_inv
proof
  fix c :: "('ev, 'e) otel_consumer" and ev
  assume "otel_inv c"
  then show "otel_inv (fst (otel_handle c ev))"
    using HandleEvent_spec [of c ev] by (auto simp: otel_handle_def)
qed

section \<open>Publishers and the loop, interleaved\<close>

text \<open>
  \<open>HandleEvent\<close> takes no lock of its own: it reads the length under the buffer's lock, updates the atomic
  counters, pushes under the lock again and notifies. Any number of publishers and the goroutine of the
  consumer interleave between these steps. A publisher is the place in \<open>HandleEvent\<close> where it is, with
  what it has in its local variables; one step of it is one atomic access. \<open>None\<close> in the result ends
  the call; the outer \<open>None\<close> would be a panic of the ring buffer. The capacity never changes, so reading
  it is no step of its own.
\<close>

datatype 'ev publisher =
  AtLen 'ev
| AtOverflow 'ev nat
| AtDropped 'ev nat
| AtLoad 'ev nat
| AtStore 'ev nat
| AtPush 'ev
| AtNotify nat

definition publisher_step :: "'ev publisher \<Rightarrow> ('ev, 'e) otel_consumer \<Rightarrow>
    ('ev publisher option \<times> ('ev, 'e) otel_consumer) option" where
  "publisher_step p c =
     (case p of
        AtLen event \<Rightarrow>
          (let bufferLen = mb_len (oc_buffer c)
           in Some (Some (if bufferLen \<ge> mb_cap (oc_buffer c) then AtOverflow event bufferLen else AtLoad event bufferLen), c))
      | AtOverflow event bufferLen \<Rightarrow> Some (Some (AtDropped event bufferLen), c\<lparr>bufferOverflows := bufferOverflows c + 1\<rparr>)
      | AtDropped event bufferLen \<Rightarrow> Some (Some (AtLoad event bufferLen), c\<lparr>eventsDropped := eventsDropped c + 1\<rparr>)
      | AtLoad event bufferLen \<Rightarrow>
          Some (Some (if (of_nat bufferLen :: 64 word) > bufferHighWater c then AtStore event bufferLen else AtPush event), c)
      | AtStore event bufferLen \<Rightarrow> Some (Some (AtPush event), c\<lparr>bufferHighWater := of_nat bufferLen\<rparr>)
      | AtPush event \<Rightarrow>
          (case mb_push_locked (oc_buffer c) event of
             None \<Rightarrow> None
           | Some (b, currentLen) \<Rightarrow> Some (Some (AtNotify currentLen), c\<lparr>oc_buffer := b\<rparr>))
      | AtNotify currentLen \<Rightarrow> Some (None, c\<lparr>oc_buffer := mb_notify currentLen (oc_buffer c)\<rparr>))"

text \<open>The goroutine: waiting in the select, about to drain, with drained events in hand, or gone, with the
  events that a panic left unprocessed.\<close>

datatype 'ev loop_phase =
  Selecting
| Draining loop_event
| Processing loop_event "'ev list"
| Stopped "'ev list"

definition loop_step :: "'ev \<Rightarrow> ('ev \<Rightarrow> 'e transform_outcome) \<Rightarrow> loop_event \<Rightarrow> 'ev loop_phase \<Rightarrow>
    ('ev, 'e) otel_consumer \<Rightarrow> ('ev loop_phase \<times> ('ev, 'e) otel_consumer) option" where
  "loop_step zero transform le phase c =
     (case phase of
        Selecting \<Rightarrow>
          if le = OnNotify
          then if notify (oc_buffer c)
               then Some (Draining le, c\<lparr>oc_buffer := (oc_buffer c)\<lparr>notify := False\<rparr>\<rparr>) else None
          else Some (Draining le, c)
      | Draining le' \<Rightarrow>
          (case mb_drain zero (oc_buffer c) of
             None \<Rightarrow> None
           | Some (events, b) \<Rightarrow> Some (Processing le' events, c\<lparr>oc_buffer := b\<rparr>))
      | Processing le' [] \<Rightarrow> Some (if le' = OnDone then Stopped [] else Selecting, c)
      | Processing le' (event # events) \<Rightarrow>
          (case transform event of
             Failed err \<Rightarrow> Some (Processing le' events, c\<lparr>errorsCount := errorsCount c + 1, lastError := Some err\<rparr>)
           | Recorded \<Rightarrow> Some (Processing le' events, c\<lparr>eventsProcessed := eventsProcessed c + 1\<rparr>)
           | Panicked p \<Rightarrow> Some (Stopped (event # events), recover_panic p c))
      | Stopped _ \<Rightarrow> None)"

subsection \<open>Alone, the steps are the calls\<close>

fun publisher_run :: "nat \<Rightarrow> 'ev publisher \<Rightarrow> ('ev, 'e) otel_consumer \<Rightarrow> ('ev, 'e) otel_consumer option" where
  "publisher_run 0 p c = None"
| "publisher_run (Suc n) p c =
     (case publisher_step p c of
        None \<Rightarrow> None | Some (None, c') \<Rightarrow> Some c' | Some (Some p', c') \<Rightarrow> publisher_run n p' c')"

lemma publisher_alone: "publisher_run 7 (AtLen ev) c = HandleEvent c ev"
  by (simp add: numeral_eq_Suc publisher_step_def HandleEvent_def mb_push_def Let_def split: option.split)

fun loop_run :: "nat \<Rightarrow> 'ev \<Rightarrow> ('ev \<Rightarrow> 'e transform_outcome) \<Rightarrow> 'ev loop_phase \<Rightarrow> ('ev, 'e) otel_consumer \<Rightarrow>
    (('ev, 'e) otel_consumer \<times> bool) option" where
  "loop_run 0 zero transform phase c = None"
| "loop_run (Suc n) zero transform phase c =
     (case loop_step zero transform OnTick phase c of
        None \<Rightarrow> None
      | Some (Selecting, c') \<Rightarrow> Some (c', True)
      | Some (Stopped _, c') \<Rightarrow> Some (c', False)
      | Some (phase', c') \<Rightarrow> loop_run n zero transform phase' c')"

lemma processing_alone:
  "loop_run (Suc (length evs)) zero tr (Processing le evs) c =
     (case processBatch tr evs c of
        (c', Some p) \<Rightarrow> Some (recover_panic p c', False) | (c', None) \<Rightarrow> Some (c', le \<noteq> OnDone))"
  by (induction evs arbitrary: c) (auto simp: loop_step_def split: transform_outcome.split)

lemma loop_alone:
  assumes "otel_inv c" "le = OnNotify \<Longrightarrow> \<not> notify (oc_buffer c)"
  shows "loop_run (length (mb_list (oc_buffer c)) + 2) zero tr (Draining le) c = processEvents_step zero tr le c"
proof -
  have inv: "mb_inv (oc_buffer c)" using assms(1) by (simp add: otel_inv_def)
  have b0: "(if le = OnNotify then (oc_buffer c)\<lparr>notify := False\<rparr> else oc_buffer c) = oc_buffer c" using assms(2) by simp
  obtain b where b: "mb_drain zero (oc_buffer c) = Some (mb_list (oc_buffer c), b)" "mb_inv b" "mb_cap b = mb_cap (oc_buffer c)"
    using mb_drain_spec [OF inv, of zero] by auto
  have "otel_inv (c\<lparr>oc_buffer := b\<rparr>)" using otel_inv_update_buffer [OF assms(1) b(2,3)] .
  note drained = process_drained_eq [OF this, of tr le "mb_list (oc_buffer c)"]
  show ?thesis
    unfolding processEvents_step_def Let_def b0
    using b(1) processing_alone [of "mb_list (oc_buffer c)" zero tr le "c\<lparr>oc_buffer := b\<rparr>"]
    by (simp add: loop_step_def drained split: prod.splits option.splits)
qed

subsection \<open>Schedules\<close>

text \<open>
  A schedule is a list of actions: a call of \<open>HandleEvent\<close> begins (at most \<open>most\<close> are under way at a time), the
  \<open>i\<close>-th publisher or the goroutine makes a step; in the select the action says which case is taken. Besides
  the state of the program, the run counts the calls, the events that a push overwrote, the increments of
  \<open>eventsDropped\<close> and the drains.
\<close>

datatype 'ev otel_action = Arrive 'ev | Advance nat | Turn loop_event

record ('ev, 'e) otel_run =
  or_consumer :: "('ev, 'e) otel_consumer"
  or_publishers :: "'ev publisher list"
  or_loop :: "'ev loop_phase"
  or_calls :: nat
  or_overwritten :: nat
  or_dropped :: nat
  or_drains :: nat

definition otel_start :: "('ev, 'e) otel_consumer \<Rightarrow> ('ev, 'e) otel_run" where
  "otel_start c = \<lparr>or_consumer = c, or_publishers = [], or_loop = Selecting,
     or_calls = 0, or_overwritten = 0, or_dropped = 0, or_drains = 0\<rparr>"

definition overwrites :: "'ev publisher \<Rightarrow> ('ev, 'e) otel_consumer \<Rightarrow> bool" where
  "overwrites p c = (case p of AtPush _ \<Rightarrow> mb_len (oc_buffer c) = mb_cap (oc_buffer c) | _ \<Rightarrow> False)"

definition counts_drop :: "'ev publisher \<Rightarrow> bool" where
  "counts_drop p = (case p of AtDropped _ _ \<Rightarrow> True | _ \<Rightarrow> False)"

definition is_draining :: "'ev loop_phase \<Rightarrow> bool" where
  "is_draining phase = (case phase of Draining _ \<Rightarrow> True | _ \<Rightarrow> False)"

definition otel_act :: "'ev \<Rightarrow> ('ev \<Rightarrow> 'e transform_outcome) \<Rightarrow> nat \<Rightarrow> 'ev otel_action \<Rightarrow>
    ('ev, 'e) otel_run \<Rightarrow> ('ev, 'e) otel_run option" where
  "otel_act zero transform most a s =
     (let c = or_consumer s; ps = or_publishers s in
      case a of
        Arrive event \<Rightarrow>
          if length ps < most then Some (s\<lparr>or_publishers := ps @ [AtLen event], or_calls := Suc (or_calls s)\<rparr>) else None
      | Advance i \<Rightarrow>
          if i < length ps
          then (case publisher_step (ps ! i) c of
                  None \<Rightarrow> None
                | Some (nxt, c') \<Rightarrow>
                    Some (s\<lparr>or_consumer := c',
                            or_publishers := take i ps @ (case nxt of None \<Rightarrow> [] | Some p \<Rightarrow> [p]) @ drop (Suc i) ps,
                            or_overwritten := or_overwritten s + (if overwrites (ps ! i) c then 1 else 0),
                            or_dropped := or_dropped s + (if counts_drop (ps ! i) then 1 else 0)\<rparr>))
          else None
      | Turn le \<Rightarrow>
          (case loop_step zero transform le (or_loop s) c of
             None \<Rightarrow> None
           | Some (phase, c') \<Rightarrow>
               Some (s\<lparr>or_consumer := c', or_loop := phase,
                       or_drains := or_drains s + (if is_draining (or_loop s) then 1 else 0)\<rparr>)))"

fun otel_schedule :: "'ev \<Rightarrow> ('ev \<Rightarrow> 'e transform_outcome) \<Rightarrow> nat \<Rightarrow> 'ev otel_action list \<Rightarrow>
    ('ev, 'e) otel_run \<Rightarrow> ('ev, 'e) otel_run option" where
  "otel_schedule zero transform most [] s = Some s"
| "otel_schedule zero transform most (a # acts) s =
     (case otel_act zero transform most a s of None \<Rightarrow> None | Some s' \<Rightarrow> otel_schedule zero transform most acts s')"

text \<open>The publishers whose event is not in the buffer yet, and the events the goroutine has in hand.\<close>

definition unpushed :: "'ev publisher \<Rightarrow> bool" where
  "unpushed p = (case p of AtNotify _ \<Rightarrow> False | _ \<Rightarrow> True)"

definition in_hand :: "'ev loop_phase \<Rightarrow> 'ev list" where
  "in_hand phase = (case phase of Processing _ events \<Rightarrow> events | Stopped events \<Rightarrow> events | _ \<Rightarrow> [])"

subsection \<open>Accounting\<close>

abbreviation buffered :: "('ev, 'e) otel_run \<Rightarrow> nat" where
  "buffered s \<equiv> length (mb_list (oc_buffer (or_consumer s)))"

abbreviation is_full :: "('ev, 'e) otel_run \<Rightarrow> bool" where
  "is_full s \<equiv> buffered s = mb_cap (oc_buffer (or_consumer s))"

definition run_inv :: "nat \<Rightarrow> ('ev, 'e) otel_run \<Rightarrow> bool" where
  "run_inv most s \<longleftrightarrow> otel_inv (or_consumer s) \<and> length (or_publishers s) \<le> most \<and>
     eventsDropped (or_consumer s) = of_nat (or_dropped s) \<and>
     of_nat (or_calls s) = eventsProcessed (or_consumer s) + errorsCount (or_consumer s) +
       of_nat (length (filter unpushed (or_publishers s)) + length (in_hand (or_loop s)) + buffered s + or_overwritten s)"

text \<open>What the local variables of a single publisher say about the counter.\<close>

definition settled :: "('ev, 'e) otel_run \<Rightarrow> bool" where
  "settled s \<longleftrightarrow> or_overwritten s \<le> or_dropped s \<and> or_dropped s \<le> or_overwritten s + or_drains s"

definition seen_full :: "('ev, 'e) otel_run \<Rightarrow> bool" where
  "seen_full s \<longleftrightarrow> or_overwritten s \<le> or_dropped s \<and>
     (or_dropped s < or_overwritten s + or_drains s \<or> is_full s \<and> or_dropped s \<le> or_overwritten s + or_drains s)"

definition has_counted :: "('ev, 'e) otel_run \<Rightarrow> bool" where
  "has_counted s \<longleftrightarrow> or_overwritten s < or_dropped s \<and>
     (or_dropped s \<le> or_overwritten s + or_drains s \<or> is_full s \<and> or_dropped s \<le> Suc (or_overwritten s + or_drains s))"

definition alone_inv :: "('ev, 'e) otel_run \<Rightarrow> bool" where
  "alone_inv s \<longleftrightarrow>
     (case or_publishers s of
        [] \<Rightarrow> settled s
      | p # _ \<Rightarrow>
          (case p of
             AtLen _ \<Rightarrow> settled s
           | AtNotify _ \<Rightarrow> settled s
           | AtOverflow _ _ \<Rightarrow> seen_full s
           | AtDropped _ _ \<Rightarrow> seen_full s
           | _ \<Rightarrow> settled s \<and> \<not> is_full s \<or> has_counted s))"

lemmas accounting = run_inv_def alone_inv_def settled_def seen_full_def has_counted_def unpushed_def in_hand_def
  overwrites_def counts_drop_def is_draining_def

lemma publisher_step_spec:
  assumes "otel_inv c" "publisher_step p c = Some (nxt, c')"
  shows "otel_inv c'" "mb_cap (oc_buffer c') = mb_cap (oc_buffer c)"
    "eventsProcessed c' = eventsProcessed c" "errorsCount c' = errorsCount c"
    "eventsDropped c' = eventsDropped c + (if counts_drop p then 1 else 0)"
    "length (mb_list (oc_buffer c')) + (if overwrites p c then 1 else 0) + length (filter unpushed (case nxt of None \<Rightarrow> [] | Some q \<Rightarrow> [q])) =
      length (mb_list (oc_buffer c)) + length (filter unpushed [p])"
proof -
  have inv: "mb_inv (oc_buffer c)" using assms(1) by (simp add: otel_inv_def)
  have bound: "length (mb_list (oc_buffer c)) \<le> mb_cap (oc_buffer c)" "mb_len (oc_buffer c) = length (mb_list (oc_buffer c))"
    using ring.contents_bound [OF inv] ring.len_spec [OF inv] by (simp_all add: mb_cap_def mb_len_def)
  have *: "otel_inv c' \<and> mb_cap (oc_buffer c') = mb_cap (oc_buffer c) \<and>
    eventsProcessed c' = eventsProcessed c \<and> errorsCount c' = errorsCount c \<and>
    eventsDropped c' = eventsDropped c + (if counts_drop p then 1 else 0) \<and>
    length (mb_list (oc_buffer c')) + (if overwrites p c then 1 else 0) + length (filter unpushed (case nxt of None \<Rightarrow> [] | Some q \<Rightarrow> [q])) =
      length (mb_list (oc_buffer c)) + length (filter unpushed [p])"
  proof (cases p)
    case (AtPush ev)
    obtain b n where b: "mb_push_locked (oc_buffer c) ev = Some (b, n)" "mb_inv b" "mb_cap b = mb_cap (oc_buffer c)"
      "mb_list b = last_n (mb_cap (oc_buffer c)) (mb_list (oc_buffer c) @ [ev])"
      using mb_push_locked_spec [OF inv, of ev] by auto
    then show ?thesis using assms AtPush bound
      by (auto simp: publisher_step_def accounting otel_inv_update_buffer min_def)
  qed (use assms in \<open>auto simp: publisher_step_def accounting otel_inv_def Let_def mb_cap_def split: if_splits\<close>)
  then show "otel_inv c'" "mb_cap (oc_buffer c') = mb_cap (oc_buffer c)"
    "eventsProcessed c' = eventsProcessed c" "errorsCount c' = errorsCount c"
    "eventsDropped c' = eventsDropped c + (if counts_drop p then 1 else 0)"
    "length (mb_list (oc_buffer c')) + (if overwrites p c then 1 else 0) + length (filter unpushed (case nxt of None \<Rightarrow> [] | Some q \<Rightarrow> [q])) =
      length (mb_list (oc_buffer c)) + length (filter unpushed [p])" by blast+
qed

lemma loop_step_spec:
  assumes "otel_inv c" "loop_step zero tr le phase c = Some (phase', c')"
  shows "otel_inv c' \<and> mb_cap (oc_buffer c') = mb_cap (oc_buffer c) \<and> eventsDropped c' = eventsDropped c \<and>
    mb_list (oc_buffer c') = (if is_draining phase then [] else mb_list (oc_buffer c)) \<and>
    eventsProcessed c' + errorsCount c' + of_nat (length (in_hand phase') + length (mb_list (oc_buffer c'))) =
      eventsProcessed c + errorsCount c + of_nat (length (in_hand phase) + length (mb_list (oc_buffer c)))"
proof -
  have inv: "mb_inv (oc_buffer c)" using assms(1) by (simp add: otel_inv_def)
  show ?thesis
  proof (cases phase)
    case (Draining le')
    then show ?thesis using assms mb_drain_spec [OF inv, of zero]
      by (auto simp: loop_step_def accounting otel_inv_update_buffer)
  next
    case (Processing le' evs)
    then show ?thesis using assms
      by (cases evs) (auto simp: loop_step_def accounting otel_inv_def recover_panic_def Let_def split: transform_outcome.splits option.splits)
  qed (use assms in \<open>auto simp: loop_step_def accounting otel_inv_def mb_cap_def split: if_splits\<close>)
qed

lemma otel_act_inv:
  assumes "run_inv most s" "otel_act zero tr most a s = Some t"
  shows "run_inv most t"
proof (cases a)
  case (Arrive ev)
  then show ?thesis using assms by (auto simp: otel_act_def accounting Let_def split: if_splits)
next
  case (Turn le)
  then obtain phase c' where step: "loop_step zero tr le (or_loop s) (or_consumer s) = Some (phase, c')"
    and t: "t = s\<lparr>or_consumer := c', or_loop := phase, or_drains := or_drains s + (if is_draining (or_loop s) then 1 else 0)\<rparr>"
    using assms(2) by (auto simp: otel_act_def Let_def split: option.splits)
  have inv: "otel_inv (or_consumer s)" using assms(1) by (simp add: run_inv_def)
  note spec = loop_step_spec [OF inv step]
  have "eventsProcessed c' + errorsCount c' + of_nat (length (in_hand phase) + length (mb_list (oc_buffer c'))) =
      eventsProcessed (or_consumer s) + errorsCount (or_consumer s) + of_nat (length (in_hand (or_loop s)) + buffered s)" using spec by blast
  from arg_cong [OF this, of "\<lambda>n. n + of_nat (length (filter unpushed (or_publishers s)) + or_overwritten s)"] assms(1)
  have "of_nat (or_calls s) = eventsProcessed c' + errorsCount c' + of_nat (length (filter unpushed (or_publishers s)) +
      length (in_hand phase) + length (mb_list (oc_buffer c')) + or_overwritten s)" by (simp add: run_inv_def algebra_simps)
  then show ?thesis using spec assms(1) by (simp add: run_inv_def t)
next
  case (Advance i)
  let ?ps = "or_publishers s"
  obtain nxt c' where i: "i < length ?ps" and step: "publisher_step (?ps ! i) (or_consumer s) = Some (nxt, c')"
    and t: "t = s\<lparr>or_consumer := c', or_publishers := take i ?ps @ (case nxt of None \<Rightarrow> [] | Some p \<Rightarrow> [p]) @ drop (Suc i) ?ps,
       or_overwritten := or_overwritten s + (if overwrites (?ps ! i) (or_consumer s) then 1 else 0),
       or_dropped := or_dropped s + (if counts_drop (?ps ! i) then 1 else 0)\<rparr>"
    using assms(2) Advance by (auto simp: otel_act_def Let_def split: option.splits if_splits)
  have inv: "otel_inv (or_consumer s)" using assms(1) by (simp add: run_inv_def)
  note spec = publisher_step_spec [OF inv step]
  have "length (filter unpushed ?ps) =
      length (filter unpushed (take i ?ps)) + length (filter unpushed [?ps ! i]) + length (filter unpushed (drop (Suc i) ?ps))"
    using arg_cong [OF id_take_nth_drop [OF i], of "\<lambda>xs. length (filter unpushed xs)"] by simp
  with spec(6) have count: "length (filter unpushed (or_publishers t)) + buffered t + or_overwritten t =
      length (filter unpushed ?ps) + buffered s + or_overwritten s" by (simp add: t)
  have "length (or_publishers t) \<le> length ?ps" using i by (simp add: t split: option.split)
  moreover have "eventsDropped (or_consumer t) = of_nat (or_dropped t)" using assms(1) spec(5) by (simp add: run_inv_def t)
  moreover have "of_nat (or_calls t) = eventsProcessed (or_consumer t) + errorsCount (or_consumer t) +
      of_nat (length (filter unpushed (or_publishers t)) + length (in_hand (or_loop t)) + buffered t + or_overwritten t)"
    using assms(1) spec(3,4) arg_cong [OF count, of "\<lambda>n. of_nat (length (in_hand (or_loop s)) + n) :: 64 word"]
    by (simp add: run_inv_def t algebra_simps)
  ultimately show ?thesis using assms(1) spec(1) by (simp add: run_inv_def t)
qed

text \<open>One publisher at a time: only the drains between its two looks at the buffer make its counter too high.\<close>

lemma otel_act_alone:
  assumes "run_inv 1 s" "alone_inv s" "otel_act zero tr 1 a s = Some t"
  shows "alone_inv t"
proof -
  have inv: "otel_inv (or_consumer s)" using assms(1) by (simp add: run_inv_def)
  then have mb: "mb_inv (oc_buffer (or_consumer s))" and cap: "0 < mb_cap (oc_buffer (or_consumer s))"
    by (simp_all add: otel_inv_def config_ok_def)
  have len: "mb_len (oc_buffer (or_consumer s)) = buffered s" "buffered s \<le> mb_cap (oc_buffer (or_consumer s))"
    using ring.len_spec [OF mb] ring.contents_bound [OF mb] by (simp_all add: mb_len_def mb_cap_def)
  show ?thesis
  proof (cases a)
    case (Arrive ev)
    with assms(3) have "or_publishers s = []" "t = s\<lparr>or_publishers := [AtLen ev], or_calls := Suc (or_calls s)\<rparr>"
      by (auto simp: otel_act_def Let_def split: if_splits)
    then show ?thesis using assms(2) by (simp add: alone_inv_def settled_def)
  next
    case (Turn le)
    then obtain phase c' where step: "loop_step zero tr le (or_loop s) (or_consumer s) = Some (phase, c')"
      and t: "t = s\<lparr>or_consumer := c', or_loop := phase, or_drains := or_drains s + (if is_draining (or_loop s) then 1 else 0)\<rparr>"
      using assms(3) by (auto simp: otel_act_def Let_def split: option.splits)
    from loop_step_spec [OF inv step] have
      "buffered t = (if is_draining (or_loop s) then 0 else buffered s)" "mb_cap (oc_buffer (or_consumer t)) = mb_cap (oc_buffer (or_consumer s))"
      by (simp_all add: t)
    then show ?thesis using assms(2) cap
      by (cases "is_draining (or_loop s)"; simp add: alone_inv_def settled_def seen_full_def has_counted_def t split: list.splits publisher.splits)
        auto
  next
    case (Advance i)
    with assms(1,3) obtain p nxt c' where p: "or_publishers s = [p]" and step: "publisher_step p (or_consumer s) = Some (nxt, c')"
      and t: "t = s\<lparr>or_consumer := c', or_publishers := (case nxt of None \<Rightarrow> [] | Some p \<Rightarrow> [p]),
         or_overwritten := or_overwritten s + (if overwrites p (or_consumer s) then 1 else 0),
         or_dropped := or_dropped s + (if counts_drop p then 1 else 0)\<rparr>"
      by (cases "or_publishers s") (auto simp: otel_act_def run_inv_def Let_def split: option.splits if_splits)
    show ?thesis
    proof (cases p)
      case (AtPush ev)
      from publisher_step_spec(2) [OF inv step] AtPush assms(2) len show ?thesis using step
        by (auto simp: p t accounting publisher_step_def split: option.splits)
    qed (use assms(2) len cap step in \<open>auto simp: p t accounting publisher_step_def Let_def mb_cap_def split: if_splits\<close>)
  qed
qed

lemma otel_schedule_inv:
  assumes "otel_schedule zero tr most acts s = Some t" "run_inv most s" "most = 1 \<Longrightarrow> alone_inv s"
  shows "run_inv most t \<and> (most = 1 \<longrightarrow> alone_inv t)"
  using assms
proof (induction acts arbitrary: s)
  case (Cons a acts)
  then obtain s' where s': "otel_act zero tr most a s = Some s'" "otel_schedule zero tr most acts s' = Some t"
    by (auto split: option.splits)
  have "alone_inv s'" if "most = 1" using otel_act_alone [of s zero tr a s'] Cons.prems(2,3) s'(1) that by simp
  with Cons.IH [OF s'(2) otel_act_inv [OF Cons.prems(2) s'(1)]] show ?case by blast
qed simp

lemma otel_start_inv:
  assumes "NewConsumer zero cfg = Inr c"
  shows "run_inv most (otel_start c)" "alone_inv (otel_start c)"
  using NewConsumer_inv [OF assms] by (simp_all add: accounting otel_start_def)

lemma alone_bounds: "alone_inv s \<Longrightarrow> or_overwritten s \<le> or_dropped s \<and> or_dropped s \<le> Suc (or_overwritten s + or_drains s)"
  by (auto simp: alone_inv_def settled_def seen_full_def has_counted_def split: list.splits publisher.splits)

end
