(* ===== verification/MetricsProperties.thy ===== *)
theory MetricsProperties
  imports OtelConsumer
begin

text \<open>
  The guarantees of the metrics pipeline: the ring buffer keeps the latest events, the
  OpenTelemetry consumer loses no notification and accounts for every event, its configuration
  is validated, and the router delivers to every consumer.
\<close>

section \<open>The ring buffer\<close>

text \<open>
  C8. A ring buffer of capacity \<open>cap\<close> refines the queue of the \<open>cap\<close> latest elements: after
  pushing any list of elements, reading returns the last \<open>cap\<close> of them in order; no push
  panics.
\<close>

theorem ring_buffer_keeps_last:
  assumes "ring_new zero cap = Inr r"
  shows "\<exists>r'. ring_push_many r xs = Some r' \<and>
    ring_get_all zero r' = Some (last_n (nat cap) xs) \<and>
    ring_len r' = min (nat cap) (length xs) \<and> ring_cap r' = nat cap"
proof -
  have r: "ring_inv r" "ring_list r = []" "ring_cap r = nat cap"
    using ring_new_inv [OF assms] by auto
  obtain r' where r': "ring.push_list r xs = Some r'" "ring_inv r'" "ring_cap r' = nat cap"
      "ring_list r' = last_n (nat cap) xs"
    using ring.push_list_spec [OF r(1), of xs] r(2,3) by auto
  then show ?thesis
    using ring.get_all_spec [OF r'(2), of zero] ring.len_spec [OF r'(2)]
    by (simp add: ring_push_many_eq)
qed

theorem ring_buffer_keeps_last_witness:
  "\<exists>r r'. ring_new (0::int) 3 = Inr r \<and> ring_push_many r [1, 2, 3, 4, 5] = Some r' \<and>
     ring_get_all 0 r' = Some [3, 4, 5]"
proof -
  obtain r where r: "ring_new (0::int) 3 = Inr r" by (simp add: ring_new_def)
  then show ?thesis
    using ring_buffer_keeps_last [OF r, of "[1, 2, 3, 4, 5]"] by (auto simp: last_n_def)
qed

section \<open>The OpenTelemetry consumer\<close>

text \<open>
  C9. Every event is accounted for, in any interleaving of the atomic steps of any number of publishers in
  \<open>HandleEvent\<close> (reading the length, the counters, the push, the notification) and of the consumer's
  goroutine (the select, the drain, one event after the other, a panic of the transformer): the calls that
  began are the events not pushed yet, those buffered, in the hands of the goroutine (or left there by a
  panic), processed, failed, and overwritten in the full buffer, in the arithmetic of the 64-bit counters. With one
  call at a time, as the manager publishes, \<open>eventsDropped\<close> is never below the number of overwritten events,
  and above it by at most one for each drain and one for the call under way.
\<close>

theorem otel_accounts_for_events:
  assumes "NewConsumer zero config = Inr c0" "otel_schedule zero transform most acts (otel_start c0) = Some s"
  shows "of_nat (or_calls s) = eventsProcessed (or_consumer s) + errorsCount (or_consumer s) +
      of_nat (length (filter unpushed (or_publishers s)) + length (in_hand (or_loop s)) +
        mb_len (oc_buffer (or_consumer s)) + or_overwritten s) \<and>
    (most = 1 \<longrightarrow> (\<exists>d. eventsDropped (or_consumer s) = of_nat d \<and> or_overwritten s \<le> d \<and>
      d \<le> or_overwritten s + or_drains s + 1))"
proof -
  have inv: "run_inv most s" "most = 1 \<longrightarrow> alone_inv s"
    using otel_schedule_inv [OF assms(2) otel_start_inv [OF assms(1)]] by auto
  have "mb_len (oc_buffer (or_consumer s)) = buffered s"
    using inv(1) ring.len_spec unfolding run_inv_def otel_inv_def mb_len_def by blast
  then show ?thesis using inv alone_bounds [of s] by (auto simp: run_inv_def)
qed

definition demo_otel_config :: otel_config where
  "demo_otel_config = DefaultConfig\<lparr>MaxQueueSize := 2, ExportBatchSize := 1\<rparr>"

definition demo_transform :: "int \<Rightarrow> bytes transform_outcome" where
  "demo_transform ev = (if ev = 2 then Failed ''bad'' else Recorded)"

definition demo_start :: "(int, bytes) otel_run option" where
  "demo_start = (case NewConsumer 0 demo_otel_config of Inr c \<Rightarrow> Some (otel_start c) | Inl _ \<Rightarrow> None)"

definition demo_schedule :: "nat \<Rightarrow> int otel_action list \<Rightarrow> (int, bytes) otel_run option" where
  "demo_schedule most acts = Option.bind demo_start (otel_schedule 0 demo_transform most acts)"

text \<open>A call during which the goroutine drains the full buffer before the push.\<close>

definition demo_drained_call :: "int \<Rightarrow> int otel_action list" where
  "demo_drained_call ev = [Arrive ev, Advance 0, Turn OnNotify, Turn OnTick] @ replicate 5 (Advance 0)"

theorem otel_accounts_for_events_witness:
  "\<exists>s. demo_schedule 1 ([Arrive 1] @ replicate 4 (Advance 0) @ [Arrive 2] @ replicate 5 (Advance 0) @
        demo_drained_call 3 @ [Turn OnTick]) = Some s \<and>
    or_calls s = 3 \<and> or_overwritten s = 0 \<and> eventsDropped (or_consumer s) = 1 \<and>
    of_nat 3 = eventsProcessed (or_consumer s) + errorsCount (or_consumer s) +
      of_nat (length (filter unpushed (or_publishers s)) + length (in_hand (or_loop s)) +
        mb_len (oc_buffer (or_consumer s)) + or_overwritten s)"
proof -
  let ?acts = "[Arrive 1] @ replicate 4 (Advance 0) @ [Arrive 2] @ replicate 5 (Advance 0) @ demo_drained_call 3 @ [Turn OnTick]"
  have "map_option (\<lambda>s. (or_calls s, or_overwritten s, eventsDropped (or_consumer s))) (demo_schedule 1 ?acts) = Some (3, 0, 1)"
    by code_simp
  then obtain s where s: "demo_schedule 1 ?acts = Some s" "or_calls s = 3" "or_overwritten s = 0" "eventsDropped (or_consumer s) = 1"
    by auto
  from s(1) obtain c0 where "NewConsumer 0 demo_otel_config = Inr c0" "otel_schedule 0 demo_transform 1 ?acts (otel_start c0) = Some s"
    by (auto simp: demo_schedule_def demo_start_def split: sum.splits)
  from otel_accounts_for_events [OF this] s show ?thesis by auto
qed

text \<open>
  With two calls at a time the counter can also fall short: both see one free place, the second push
  overwrites an event and nothing counts it.
\<close>

lemma otel_drop_uncounted:
  "\<exists>s. demo_schedule 2 ([Arrive 1] @ replicate 4 (Advance 0) @ [Arrive 2, Arrive 3, Advance 0, Advance 1] @
        replicate 4 (Advance 0) @ replicate 3 (Advance 0)) = Some s \<and>
    or_publishers s = [] \<and> or_overwritten s = 1 \<and> eventsDropped (or_consumer s) = 0"
proof -
  have "map_option (\<lambda>s. (or_publishers s, or_overwritten s, eventsDropped (or_consumer s)))
    (demo_schedule 2 ([Arrive 1] @ replicate 4 (Advance 0) @ [Arrive 2, Arrive 3, Advance 0, Advance 1] @
        replicate 4 (Advance 0) @ replicate 3 (Advance 0))) = Some ([], 1, 0)" by code_simp
  then show ?thesis by auto
qed

text \<open>
  C10. No notification is lost: whatever the interleaving of pushers and the consumer
  goroutine, when the buffer has reached its threshold a notification is pending, a pusher is
  about to send one, or the consumer is awake and about to drain.
\<close>

theorem otel_no_lost_wakeup:
  assumes "NewMetricsBuffer zero cap threshold = Inr b" "0 < threshold"
    and "(wakeup_step zero)\<^sup>*\<^sup>* \<lparr>ws_buffer = b, pending = 0, awake = False\<rparr> s"
    and "threshold \<le> int (mb_len (ws_buffer s))"
  shows "notify (ws_buffer s) \<or> 0 < pending s \<or> awake s"
proof -
  obtain rb where b: "ring_new zero cap = Inr rb"
      "b = \<lparr>mb_rb = rb, notifyThreshold = threshold, notify = False\<rparr>"
    using assms(1) by (auto simp: NewMetricsBuffer_def result_iff)
  have "wakeup_inv s \<and> notifyThreshold (ws_buffer s) = threshold"
    using assms(3)
  proof (induction rule: rtranclp_induct)
    case base
    have "ring_inv rb" "ring_list rb = []" using ring_new_inv [OF b(1)] by auto
    then show ?case
      using assms(2) ring.len_spec [of rb] b(2) by (simp add: wakeup_inv_def mb_len_def)
  next
    case (step s t)
    then show ?case
      using wakeup_step_inv [OF step.hyps(2)] wakeup_step_threshold [OF step.hyps(2)]
      by (simp add: wakeup_inv_def)
  qed
  then show ?thesis using assms(4) by (simp add: wakeup_inv_def)
qed

theorem otel_no_lost_wakeup_witness:
  "\<exists>b s. NewMetricsBuffer (0::int) 2 1 = Inr b \<and>
    (wakeup_step 0)\<^sup>*\<^sup>* \<lparr>ws_buffer = b, pending = 0, awake = False\<rparr> s \<and>
    mb_len (ws_buffer s) = 1 \<and> (notify (ws_buffer s) \<or> 0 < pending s \<or> awake s)"
proof -
  obtain b where b: "NewMetricsBuffer (0::int) 2 1 = Inr b" "notifyThreshold b = 1"
    by (auto simp: NewMetricsBuffer_def ring_new_def)
  have "map_sum (\<lambda>_. ()) (\<lambda>b. map_option (\<lambda>(b', n). (mb_len b', n, notifyThreshold b'))
      (mb_push_locked b 7)) (NewMetricsBuffer (0::int) 2 1) = Inr (Some (1, 1, 1))"
    by code_simp
  then obtain b' where p: "mb_push_locked b 7 = Some (b', 1)" "mb_len b' = 1" "notifyThreshold b' = 1"
    using b(1) by auto
  let ?s0 = "\<lparr>ws_buffer = b, pending = 0, awake = False\<rparr>"
  let ?s1 = "?s0\<lparr>ws_buffer := b', pending := 1\<rparr>"
  have steps: "(wakeup_step 0)\<^sup>*\<^sup>* ?s0 ?s1"
    using wakeup_step.locked_push [of ?s0 7 b' 1 0] p by (auto intro: r_into_rtranclp)
  have "(0::int) < 1" "1 \<le> int (mb_len (ws_buffer ?s1))" using p(2) by simp_all
  from otel_no_lost_wakeup [OF b(1) this(1) steps this(2)] steps b(1) p(2) show ?thesis
    by (intro exI [of _ b] exI [of _ ?s1]) simp
qed

section \<open>Configuration\<close>

text \<open>
  A configuration that \<open>Validate\<close> accepts comes back with every field in range, is
  accepted again unchanged, and a consumer can be built from it.
\<close>

theorem otel_config_validated:
  assumes "Validate c = Inr c'"
  shows "config_ok c' \<and> Validate c' = Inr c' \<and> (\<exists>consumer. NewConsumer zero c = Inr consumer)"
proof -
  have "config_ok c'" by (rule Validate_config_ok [OF assms])
  moreover from this have "Validate c' = Inr c'" by (rule Validate_id)
  moreover have "\<exists>consumer. NewConsumer zero c = Inr consumer" by (rule NewConsumer_defined [OF assms])
  ultimately show ?thesis by simp
qed

theorem otel_config_validated_witness:
  "\<exists>c'. Validate demo_otel_config = Inr c' \<and> config_ok c' \<and>
     (\<exists>consumer. NewConsumer (0::int) demo_otel_config = Inr consumer)"
proof -
  have "config_ok demo_otel_config" by code_simp
  then have "Validate demo_otel_config = Inr demo_otel_config" by (rule Validate_id)
  with otel_config_validated [OF this, of 0] show ?thesis by auto
qed

text \<open>
  The environment alone can make a configuration invalid only by a batch or queue size
  above the limits: every other variable is checked or replaced by a default on the way in.
\<close>

theorem otel_environment_config:
  assumes "Validate (GetConfigFromEnvironment parse_duration env) = Inl e"
  shows "(e = ErrBatchSizeTooLarge \<and>
      MaxSafeBatchSize < ExportBatchSize (GetConfigFromEnvironment parse_duration env)) \<or>
    (e = ErrQueueSizeTooLarge \<and>
      MaxSafeQueueSize < MaxQueueSize (GetConfigFromEnvironment parse_duration env))"
  by (rule env_config_Validate [OF assms])

theorem otel_environment_config_witness:
  "let env = (\<lambda>name. if name = ''OTEL_EXPORTER_METRICS_MAX_QUEUE_SIZE'' then ''2000000'' else '''')
   in MaxSafeQueueSize < MaxQueueSize (GetConfigFromEnvironment (\<lambda>_. None) env)"
proof -
  let ?env = "\<lambda>name. if name = ''OTEL_EXPORTER_METRICS_MAX_QUEUE_SIZE'' then ''2000000'' else ''''"
  have "atoi ''2000000'' = Some 2000000" by (simp add: go_eval)
  then have "Validate (GetConfigFromEnvironment (\<lambda>_. None) ?env) = Inl ErrQueueSizeTooLarge"
    by (simp add: Validate_def GetConfigFromEnvironment_def ApplyEnvironmentVariables_def
        DefaultConfig_def override_def parse_positive_def compression_is_valid_def
        MaxSafeQueueSize_def MaxSafeBatchSize_def)
  from otel_environment_config [OF this] show ?thesis by (simp add: Let_def)
qed

section \<open>The router\<close>

text \<open>
  Publishing on an open router hands the event to every registered consumer exactly once,
  whatever order the map iteration takes and also when some of them fail, keeps the set of
  consumers, and reports an error exactly when one of them failed.
\<close>

theorem router_publish_delivers:
  assumes "\<not> router_closed r" "map_order (consumers r) order"
  shows "\<exists>err. Publish handle order ev r =
      (r\<lparr>consumers := \<lambda>name. map_option (\<lambda>c. fst (handle c ev)) (consumers r name)\<rparr>, err) \<and>
    (err = None \<longleftrightarrow> \<not> (\<exists>name c. consumers r name = Some c \<and> snd (handle c ev) \<noteq> None))"
proof -
  have "any_fails handle ev (consumers r) \<longleftrightarrow>
      (\<exists>name c. consumers r name = Some c \<and> snd (handle c ev) \<noteq> None)"
    by (auto simp: any_fails_def ran_def)
  then show ?thesis
    using Publish_open [OF assms, of handle ev]
    by (intro exI [of _ "snd (Publish handle order ev r)"]) (auto simp: deliver_def prod_eq_iff)
qed

definition demo_handle :: "int list \<Rightarrow> int \<Rightarrow> int list \<times> bytes option" where
  "demo_handle c ev = (c @ [ev], if length c > 0 then Some ''full'' else None)"

theorem router_publish_delivers_witness:
  "let r = \<lparr>consumers = [''a'' \<mapsto> [1], ''b'' \<mapsto> []], router_closed = False\<rparr>
   in \<exists>err. Publish demo_handle [''b'', ''a''] 7 r =
        (r\<lparr>consumers := \<lambda>name. map_option (\<lambda>c. fst (demo_handle c 7)) (consumers r name)\<rparr>, err) \<and>
      err \<noteq> None"
proof -
  let ?r = "\<lparr>consumers = [''a'' \<mapsto> [1], ''b'' \<mapsto> []], router_closed = False\<rparr> :: int list metrics_router"
  have "\<not> router_closed ?r" "map_order (consumers ?r) [''b'', ''a'']"
    by (auto simp: map_order_def)
  from router_publish_delivers [OF this, of demo_handle 7]
  have "\<exists>err. Publish demo_handle [''b'', ''a''] 7 ?r =
        (?r\<lparr>consumers := \<lambda>name. map_option (\<lambda>c. fst (demo_handle c 7)) (consumers ?r name)\<rparr>, err) \<and>
      (err = None \<longleftrightarrow> \<not> (\<exists>name c. consumers ?r name = Some c \<and> snd (demo_handle c 7) \<noteq> None))" .
  moreover have "consumers ?r ''a'' = Some [1] \<and> snd (demo_handle [1] 7) \<noteq> None"
    by (simp add: demo_handle_def)
  ultimately show ?thesis unfolding Let_def by blast
qed

end
