(* ===== verification/HostParsers.thy ===== *)
theory HostParsers
  imports Go_Prelude
begin

text \<open>
  Two small parsers of host information: the CPU lists of the kernel
  (\<open>pkg/cpu/cpulist.go\<close>) and kernel versions (\<open>pkg/kernel/version.go\<close>). The first is
  verified against a printer for CPU lists, the second against its own \<open>String\<close> method and
  the lexicographic order.
\<close>

section \<open>CPU lists\<close>

datatype cpulist_error =
  InvalidRange bytes | InvalidNumberInRange bytes | StartAfterEnd bytes | InvalidNumber bytes

text \<open>One part of the list: \<open>upto\<close> is the loop from start to end. Every number parsed at
  width 32 fits \<open>int32\<close>, so the conversion keeps it.\<close>

definition parse_cpu_part :: "bytes \<Rightarrow> (cpulist_error, int list) result" where
  "parse_cpu_part part =
     (if contains_char (CHR ''-'') part
      then (case split_on (CHR ''-'') part of
              [a, b] \<Rightarrow>
                result_bind (of_option (InvalidNumberInRange a) (parse_int 32 (trim_space a))) (\<lambda>start.
                result_bind (of_option (InvalidNumberInRange b) (parse_int 32 (trim_space b))) (\<lambda>end.
                if start > end then Inl (StartAfterEnd part) else Inr [start..end]))
            | _ \<Rightarrow> Inl (InvalidRange part))
      else result_bind (of_option (InvalidNumber part) (parse_int 32 part)) (\<lambda>cpu. Inr [cpu]))"

fun parse_cpu_parts :: "bytes list \<Rightarrow> (cpulist_error, int list) result" where
  "parse_cpu_parts [] = Inr []"
| "parse_cpu_parts (p # parts) =
     (let part = trim_space p
      in if part = [] then parse_cpu_parts parts
         else result_bind (parse_cpu_part part) (\<lambda>cpus.
              result_bind (parse_cpu_parts parts) (\<lambda>rest. Inr (cpus @ rest))))"

definition ParseCPUList :: "bytes \<Rightarrow> (cpulist_error, int list) result" where
  "ParseCPUList cpuList =
     (let s = trim_space cpuList
      in if s = [] then Inr [] else parse_cpu_parts (split_on (CHR '','') s))"

subsection \<open>Correctness against a printer\<close>

text \<open>The kernel's format: single CPUs and ranges.\<close>

datatype cpu_item = Single nat | Range nat nat

fun show_item :: "cpu_item \<Rightarrow> bytes" where
  "show_item (Single n) = show_nat n"
| "show_item (Range a b) = show_nat a @ CHR ''-'' # show_nat b"

fun item_ok :: "cpu_item \<Rightarrow> bool" where
  "item_ok (Single n) = (n < 2 ^ 31)"
| "item_ok (Range a b) = (a \<le> b \<and> b < 2 ^ 31)"

fun item_cpus :: "cpu_item \<Rightarrow> int list" where
  "item_cpus (Single n) = [int n]"
| "item_cpus (Range a b) = [int a..int b]"

definition show_cpulist :: "cpu_item list \<Rightarrow> bytes" where
  "show_cpulist items = join_with (CHR '','') (map show_item items)"

lemma plain_digit: "is_digit c \<Longrightarrow> plain_char c"
  by (auto simp: is_digit_def plain_char_def is_ascii_space_def)

lemma show_nat_plain: "show_nat n \<noteq> []" "plain_char (hd (show_nat n))" "plain_char (last (show_nat n))"
  using show_nat_digits [of n]
  by (auto simp: list_all_iff intro!: plain_digit)

lemma trim_space_show_nat [simp]: "trim_space (show_nat n) = show_nat n"
  by (rule trim_space_plain) (simp add: show_nat_plain)

lemma no_sep_show_nat: "\<not> is_digit c \<Longrightarrow> c \<notin> set (show_nat n)"
  using show_nat_digit_set by blast

lemma not_digit_seps: "\<not> is_digit (CHR ''-'')" "\<not> is_digit (CHR '','')" "\<not> is_digit (CHR ''.'')"
  by (auto simp: is_digit_def)

lemma show_item_plain:
  "show_item it \<noteq> []" "plain_char (hd (show_item it))" "plain_char (last (show_item it))"
  "CHR '','' \<notin> set (show_item it)"
  using show_nat_plain no_sep_show_nat [OF not_digit_seps(2)]
  by (cases it; simp)+

lemma parse_cpu_part_show:
  assumes "item_ok it"
  shows "parse_cpu_part (show_item it) = Inr (item_cpus it)"
proof (cases it)
  case (Single n)
  then show ?thesis
    using assms parse_int_show_nat [of n 32] no_sep_show_nat [OF not_digit_seps(1), of n]
    by (simp add: parse_cpu_part_def contains_char_def)
next
  case (Range a b)
  then have "a < 2 ^ 31" "b < 2 ^ 31" using assms by auto
  then have "parse_int 32 (show_nat a) = Some (int a)" "parse_int 32 (show_nat b) = Some (int b)"
    by (simp_all add: parse_int_show_nat)
  moreover have "split_on (CHR ''-'') (show_item it) = [show_nat a, show_nat b]"
    using no_sep_show_nat [OF not_digit_seps(1)] Range
    by (simp add: split_on_append split_on_single)
  ultimately show ?thesis
    using assms Range by (simp add: parse_cpu_part_def contains_char_def)
qed

lemma parse_cpu_parts_show:
  "list_all item_ok items \<Longrightarrow>
   parse_cpu_parts (map show_item items) = Inr (concat (map item_cpus items))"
  by (induction items)
    (simp_all add: trim_space_plain show_item_plain parse_cpu_part_show)

lemma ends_join:
  assumes "items \<noteq> []"
  shows "show_cpulist items \<noteq> []" "hd (show_cpulist items) = hd (show_item (hd items))"
    "last (show_cpulist items) = last (show_item (last items))"
  using assms unfolding show_cpulist_def
  by (induction items rule: induct_list012) (auto simp: join_with_Cons show_item_plain)

lemma ParseCPUList_show:
  assumes "list_all item_ok items"
  shows "ParseCPUList (show_cpulist items) = Inr (concat (map item_cpus items))"
proof (cases "items = []")
  case True
  then show ?thesis by (simp add: ParseCPUList_def show_cpulist_def)
next
  case False
  have "trim_space (show_cpulist items) = show_cpulist items"
    by (rule trim_space_plain) (simp add: ends_join [OF False] show_item_plain)
  moreover have "split_on (CHR '','') (show_cpulist items) = map show_item items"
    unfolding show_cpulist_def by (rule split_join) (use False show_item_plain in auto)
  ultimately show ?thesis
    using parse_cpu_parts_show [OF assms] ends_join(1) [OF False] by (simp add: ParseCPUList_def)
qed

text \<open>Every number returned is a valid non-negative \<open>int32\<close>, whatever the input.\<close>

lemma parse_int_no_minus:
  assumes "parse_int 32 s = Some n" "CHR ''-'' \<notin> set s"
  shows "0 \<le> n \<and> n < 2 ^ 31"
proof -
  have "0 \<le> n"
    using assms by (auto simp: parse_int_def split: list.splits option.splits if_splits)
  then show ?thesis using parse_int_range [OF assms(1)] by simp
qed

lemma drop_space_set: "drop_space wide s = Some t \<Longrightarrow> set t \<subseteq> set s"
proof -
  have "first_prefix wide s = Some t \<Longrightarrow> set t \<subseteq> set s" for s t
    by (induction wide) (auto split: if_splits dest: in_set_dropD)
  then show "drop_space wide s = Some t \<Longrightarrow> set t \<subseteq> set s"
    by (cases s) (force split: if_splits)+
qed

lemma trim_spaces_set: "set (trim_spaces wide s) \<subseteq> set s"
proof (induction wide s rule: trim_spaces.induct)
  case (1 wide s)
  then show ?case
    by (subst trim_spaces.simps) (auto split: option.splits dest: drop_space_set)
qed

lemma trim_space_set: "set (trim_space s) \<subseteq> set s"
  unfolding trim_space_def trim_left_space_def trim_right_space_def
  using trim_spaces_set [of "map rev wide_spaces" "rev (trim_spaces wide_spaces s)"]
    trim_spaces_set [of wide_spaces s] by simp

lemma parse_cpu_part_range:
  assumes "parse_cpu_part part = Inr cpus"
  shows "\<forall>c \<in> set cpus. 0 \<le> c \<and> c < 2 ^ 31"
proof (cases "contains_char (CHR ''-'') part")
  case False
  then show ?thesis
    using assms parse_int_no_minus [of part]
    by (auto simp: parse_cpu_part_def contains_char_def result_iff)
next
  case True
  with assms obtain a b where ab: "split_on (CHR ''-'') part = [a, b]"
    by (auto simp: parse_cpu_part_def split: list.splits)
  have no: "CHR ''-'' \<notin> set (trim_space a)" "CHR ''-'' \<notin> set (trim_space b)"
    using split_on_parts [of _ "CHR ''-''" part] trim_space_set ab by fastforce+
  from assms True ab obtain x y where xy: "parse_int 32 (trim_space a) = Some x"
      "parse_int 32 (trim_space b) = Some y" "cpus = [x..y]"
    by (auto simp: parse_cpu_part_def result_iff split: if_splits)
  then show ?thesis
    using parse_int_no_minus [OF xy(1) no(1)] parse_int_no_minus [OF xy(2) no(2)] by auto
qed

lemma ParseCPUList_range:
  assumes "ParseCPUList s = Inr cpus"
  shows "\<forall>c \<in> set cpus. 0 \<le> c \<and> c < 2 ^ 31"
proof -
  have "parse_cpu_parts parts = Inr cpus \<Longrightarrow> \<forall>c \<in> set cpus. 0 \<le> c \<and> c < 2 ^ 31" for parts cpus
  proof (induction parts arbitrary: cpus)
    case (Cons p parts)
    then show ?case
      using parse_cpu_part_range by (fastforce simp: result_iff Let_def split: if_splits)
  qed simp
  then show ?thesis using assms by (auto simp: ParseCPUList_def Let_def split: if_splits)
qed

section \<open>Kernel versions\<close>

record kernel_version =
  Major :: int
  Minor :: int
  Patch :: int
  Raw :: bytes

datatype version_error =
  ProcVersionUnreadable | ProcVersionFormat bytes | VersionFormat bytes
| InvalidMajor bytes | InvalidMinor bytes

definition ParseVersion :: "bytes \<Rightarrow> (version_error, kernel_version) result" where
  "ParseVersion ver =
     (let short = takeWhile (\<lambda>c. c \<noteq> CHR ''-'') ver;
          parts = split_on (CHR ''.'') short
      in if length parts < 2 then Inl (VersionFormat short)
         else result_bind (of_option (InvalidMajor (parts ! 0)) (atoi (parts ! 0))) (\<lambda>major.
              result_bind (of_option (InvalidMinor (parts ! 1)) (atoi (parts ! 1))) (\<lambda>minor.
              Inr \<lparr>Major = major, Minor = minor,
                   Patch = (if length parts \<ge> 3
                            then (case atoi (parts ! 2) of None \<Rightarrow> 0 | Some patch \<Rightarrow> patch) else 0),
                   Raw = ver\<rparr>)))"

text \<open>\<open>GetCurrentVersion\<close>; the argument is the content of \<open>/proc/version\<close>, if readable.\<close>

definition GetCurrentVersion :: "bytes option \<Rightarrow> (version_error, kernel_version) result" where
  "GetCurrentVersion proc_version =
     (case proc_version of
        None \<Rightarrow> Inl ProcVersionUnreadable
      | Some data \<Rightarrow>
          (let parts = str_fields data
           in if length parts < 3 then Inl (ProcVersionFormat data) else ParseVersion (parts ! 2)))"

definition IsAtLeast :: "kernel_version \<Rightarrow> int \<Rightarrow> int \<Rightarrow> bool" where
  "IsAtLeast v major minor =
     (if Major v > major then True
      else if Major v = major \<and> Minor v \<ge> minor then True
      else False)"

definition version_String :: "kernel_version \<Rightarrow> bytes" where
  "version_String v = show_int (Major v) @ ''.'' @ show_int (Minor v) @ ''.'' @ show_int (Patch v)"

definition version_Compare :: "kernel_version \<Rightarrow> kernel_version \<Rightarrow> int" where
  "version_Compare v w =
     (if Major v \<noteq> Major w then (if Major v < Major w then -1 else 1)
      else if Minor v \<noteq> Minor w then (if Minor v < Minor w then -1 else 1)
      else if Patch v \<noteq> Patch w then (if Patch v < Patch w then -1 else 1)
      else 0)"

definition IsPressureFile :: "bytes \<Rightarrow> bool" where
  "IsPressureFile path = has_prefix path ''/proc/pressure/''"

definition version_ok :: "kernel_version \<Rightarrow> bool" where
  "version_ok v \<longleftrightarrow> 0 \<le> Major v \<and> Major v < 2 ^ 63 \<and> 0 \<le> Minor v \<and> Minor v < 2 ^ 63 \<and>
     0 \<le> Patch v \<and> Patch v < 2 ^ 63"

lemma atoi_show_int: "0 \<le> i \<Longrightarrow> i < 2 ^ 63 \<Longrightarrow> atoi (show_int i) = Some i"
  using parse_int_show_int [of 64 i] by (simp add: atoi_def)

lemma no_sep_show_int: "0 \<le> i \<Longrightarrow> \<not> is_digit c \<Longrightarrow> c \<notin> set (show_int i)"
  by (simp add: show_int_def no_sep_show_nat)

lemma ParseVersion_String:
  assumes "version_ok v" and suffix: "sfx = [] \<or> hd sfx = CHR ''-''"
  shows "ParseVersion (version_String v @ sfx) = Inr (v\<lparr>Raw := version_String v @ sfx\<rparr>)"
proof -
  let ?s = "version_String v"
  have nonneg: "0 \<le> Major v" "0 \<le> Minor v" "0 \<le> Patch v" using assms by (auto simp: version_ok_def)
  have "CHR ''-'' \<notin> set ?s"
    using nonneg no_sep_show_int [OF _ not_digit_seps(1)] by (auto simp: version_String_def)
  then have short: "takeWhile (\<lambda>c. c \<noteq> CHR ''-'') (?s @ sfx) = ?s"
    using suffix by (subst takeWhile_append2) (auto simp: takeWhile_eq_Nil_iff)
  have parts: "split_on (CHR ''.'') ?s = [show_int (Major v), show_int (Minor v), show_int (Patch v)]"
    using nonneg no_sep_show_int [OF _ not_digit_seps(3)]
    by (simp add: version_String_def split_on_append split_on_single)
  show ?thesis
    using assms(1) by (simp add: ParseVersion_def short parts version_ok_def atoi_show_int)
qed

lemma version_Compare_order:
  "version_Compare v w = 0 \<longleftrightarrow> (Major v, Minor v, Patch v) = (Major w, Minor w, Patch w)"
  "version_Compare v w = - version_Compare w v"
  "version_Compare u v \<le> 0 \<Longrightarrow> version_Compare v w \<le> 0 \<Longrightarrow> version_Compare u w \<le> 0"
  by (auto simp: version_Compare_def split: if_splits)

lemma IsAtLeast_Compare:
  "IsAtLeast v major minor \<longleftrightarrow>
     version_Compare v \<lparr>Major = major, Minor = minor, Patch = Patch v, Raw = r\<rparr> \<ge> 0"
  by (auto simp: IsAtLeast_def version_Compare_def split: if_splits)

end
