(* ===== verification/Performance.thy ===== *)
theory Performance
  imports HostParsers MetricsRouter "HOL-Library.Word"
begin

text \<open>
  The framework around the performance collectors (\<open>pkg/performance\<close>): collection settings
  (\<open>types.go\<close>), process capabilities (\<open>capabilities/\<close>), the collector registry
  (\<open>registry.go\<close>), the delta state of counter collectors (\<open>delta.go\<close>) and the wrappers that
  turn a one-shot collector into a streaming one (\<open>collector.go\<close>).

  An instant is a number of nanoseconds, 0 for Go's zero time; a duration is a number of
  nanoseconds in the range of \<open>int64\<close>.
\<close>

section \<open>Settings (types.go)\<close>

datatype delta_mode = DeltaModeUnset | DeltaModeDisabled | DeltaModeEnabled | DeltaModeOther bytes

record delta_config =
  dc_mode :: delta_mode
  dc_min_interval :: duration
  dc_max_interval :: duration

definition DefaultDeltaConfig :: delta_config where
  "DefaultDeltaConfig = \<lparr>dc_mode = DeltaModeEnabled,
     dc_min_interval = 100 * millisecond, dc_max_interval = 5 * minute\<rparr>"

definition isSupported :: "metric_type \<Rightarrow> bool" where
  "isSupported mt = (mt \<in> set [MetricTypeTCP, MetricTypeNetwork, MetricTypeCPU, MetricTypeSystem,
     MetricTypeDisk, MetricTypeMemory, MetricTypeNUMAStats])"

definition IsEnabled :: "delta_config \<Rightarrow> metric_type \<Rightarrow> bool" where
  "IsEnabled d mt = (if dc_mode d = DeltaModeDisabled then False else isSupported mt)"

record collection_config =
  cc_interval :: duration
  cc_enabled :: "metric_type list option"
  cc_proc :: bytes
  cc_sys :: bytes
  cc_dev :: bytes
  cc_top :: int
  cc_delta :: delta_config

text \<open>The map of enabled collectors is the list of its keys: all its values are true.\<close>

definition DefaultCollectionConfig :: collection_config where
  "DefaultCollectionConfig =
     \<lparr>cc_interval = second,
      cc_enabled = Some [MetricTypeLoad, MetricTypeMemory, MetricTypeCPU, MetricTypeProcess,
        MetricTypeDisk, MetricTypeNetwork, MetricTypeTCP, MetricTypeSystem, MetricTypeKernel,
        MetricTypeCgroupCPU, MetricTypeCgroupMemory, MetricTypeCPUInfo, MetricTypeMemoryInfo,
        MetricTypeDiskInfo, MetricTypeNetworkInfo, MetricTypeNUMAStats],
      cc_proc = ''/proc'', cc_sys = ''/sys'', cc_dev = ''/dev'', cc_top = 0,
      cc_delta = DefaultDeltaConfig\<rparr>"

definition or_zero :: "'a \<Rightarrow> 'a \<Rightarrow> 'a \<Rightarrow> 'a" where
  "or_zero zero dflt x = (if x = zero then dflt else x)"

definition ApplyDefaults :: "collection_config \<Rightarrow> collection_config" where
  "ApplyDefaults c =
     c\<lparr>cc_interval := or_zero 0 (cc_interval DefaultCollectionConfig) (cc_interval c),
       cc_enabled := or_zero None (cc_enabled DefaultCollectionConfig) (cc_enabled c),
       cc_proc := or_zero '''' (cc_proc DefaultCollectionConfig) (cc_proc c),
       cc_sys := or_zero '''' (cc_sys DefaultCollectionConfig) (cc_sys c),
       cc_dev := or_zero '''' (cc_dev DefaultCollectionConfig) (cc_dev c),
       cc_delta :=
         \<lparr>dc_mode = or_zero DeltaModeUnset (dc_mode DefaultDeltaConfig) (dc_mode (cc_delta c)),
          dc_min_interval = or_zero 0 (dc_min_interval DefaultDeltaConfig) (dc_min_interval (cc_delta c)),
          dc_max_interval = or_zero 0 (dc_max_interval DefaultDeltaConfig) (dc_max_interval (cc_delta c))\<rparr>\<rparr>"

record validate_options =
  RequireHostProcPath :: bool
  RequireHostSysPath :: bool
  RequireHostDevPath :: bool

datatype path_error = PathRequired bytes | PathNotAbsolute bytes bytes

text \<open>\<open>filepath.IsAbs\<close> on Linux.\<close>

definition IsAbs :: "bytes \<Rightarrow> bool" where
  "IsAbs p = has_prefix p ''/''"

definition collection_Validate :: "validate_options \<Rightarrow> collection_config \<Rightarrow> path_error option" where
  "collection_Validate opt c =
     (if RequireHostProcPath opt \<and> cc_proc c = '''' then Some (PathRequired ''HostProcPath'')
      else if RequireHostSysPath opt \<and> cc_sys c = '''' then Some (PathRequired ''HostSysPath'')
      else if RequireHostDevPath opt \<and> cc_dev c = '''' then Some (PathRequired ''HostDevPath'')
      else if cc_proc c \<noteq> '''' \<and> \<not> IsAbs (cc_proc c) then Some (PathNotAbsolute ''HostProcPath'' (cc_proc c))
      else if cc_sys c \<noteq> '''' \<and> \<not> IsAbs (cc_sys c) then Some (PathNotAbsolute ''HostSysPath'' (cc_sys c))
      else if cc_dev c \<noteq> '''' \<and> \<not> IsAbs (cc_dev c) then Some (PathNotAbsolute ''HostDevPath'' (cc_dev c))
      else None)"

section \<open>Capabilities\<close>

type_synonym capability = nat

definition CAP_SYS_ADMIN :: capability where "CAP_SYS_ADMIN = 21"
definition CAP_SYSLOG :: capability where "CAP_SYSLOG = 34"
definition CAP_BPF :: capability where "CAP_BPF = 39"
definition CAP_PERFMON :: capability where "CAP_PERFMON = 38"

lemmas capability_defs = CAP_SYS_ADMIN_def CAP_SYSLOG_def CAP_BPF_def CAP_PERFMON_def

definition capability_String :: "capability \<Rightarrow> bytes" where
  "capability_String c =
     (if c = CAP_SYS_ADMIN then ''CAP_SYS_ADMIN''
      else if c = CAP_SYSLOG then ''CAP_SYSLOG''
      else if c = CAP_BPF then ''CAP_BPF''
      else if c = CAP_PERFMON then ''CAP_PERFMON''
      else ''UNKNOWN'')"

text \<open>\<open>GetEBPFCapabilitiesForKernel\<close>; \<open>None\<close> when the version cannot be detected.\<close>

definition GetEBPFCapabilities :: "kernel_version option \<Rightarrow> capability list" where
  "GetEBPFCapabilities kv =
     (case kv of
        None \<Rightarrow> [CAP_SYS_ADMIN]
      | Some v \<Rightarrow> if IsAtLeast v 5 8 then [CAP_BPF, CAP_PERFMON] else [CAP_SYS_ADMIN])"

text \<open>\<open>strconv.ParseUint(s, 16, 64)\<close>.\<close>

definition hex_val :: "char \<Rightarrow> nat option" where
  "hex_val c =
     (let n = ord c in
      if 48 \<le> n \<and> n \<le> 57 then Some (n - 48)
      else if 97 \<le> n \<and> n \<le> 102 then Some (n - 87)
      else if 65 \<le> n \<and> n \<le> 70 then Some (n - 55)
      else None)"

fun hex_acc :: "nat \<Rightarrow> bytes \<Rightarrow> nat option" where
  "hex_acc n [] = Some n"
| "hex_acc n (c # s) = (case hex_val c of None \<Rightarrow> None | Some d \<Rightarrow> hex_acc (16 * n + d) s)"

definition parse_hex :: "bytes \<Rightarrow> nat option" where
  "parse_hex s =
     (if s = [] then None
      else case hex_acc 0 s of None \<Rightarrow> None | Some n \<Rightarrow> if n < 2 ^ 64 then Some n else None)"

text \<open>The loop over the lines of \<open>/proc/self/status\<close>: the first line with a readable mask ends it.\<close>

definition checkCaps :: "capability list" where
  "checkCaps = [CAP_SYS_ADMIN, CAP_SYSLOG, CAP_BPF, CAP_PERFMON]"

fun scan_status :: "bytes list \<Rightarrow> capability list" where
  "scan_status [] = []"
| "scan_status (line # lines) =
     (if has_prefix line ''CapEff:''
      then (case str_fields line of
              [a, b] \<Rightarrow>
                (case parse_hex b of
                   None \<Rightarrow> scan_status lines
                 | Some m \<Rightarrow> filter (\<lambda>c. bit m c) checkCaps)
            | _ \<Rightarrow> scan_status lines)
      else scan_status lines)"

text \<open>The content of the status file is an argument, or the text of the read error.\<close>

definition getCurrentCapabilities :: "(bytes, bytes) result \<Rightarrow> (bytes, capability list) result" where
  "getCurrentCapabilities status_file =
     result_bind (map_error (\<lambda>e. ''failed to read /proc/self/status: '' @ e) status_file)
       (\<lambda>data. Inr (scan_status (split_on (CHR 0x0A) data)))"

text \<open>\<open>HasAllCapabilities\<close>: the missing ones, or the error.\<close>

definition HasAllCapabilities :: "(bytes, bytes) result \<Rightarrow> capability list \<Rightarrow>
    (bytes, bool \<times> capability list) result" where
  "HasAllCapabilities status_file required =
     (if length required = 0 then Inr (True, [])
      else result_bind (map_error (\<lambda>e. ''failed to get current capabilities: '' @ e)
             (getCurrentCapabilities status_file)) (\<lambda>current.
           let missing = filter (\<lambda>c. c \<notin> set current) required
           in Inr (length missing = 0, missing)))"

record collector_capabilities =
  SupportsOneShot :: bool
  SupportsContinuous :: bool
  RequiredCapabilities :: "capability list"
  MinKernelVersion :: bytes

datatype can_run_error = CapabilityCheckFailed bytes | MissingCapabilities "capability list"

definition CanRun :: "(bytes, bytes) result \<Rightarrow> collector_capabilities \<Rightarrow> can_run_error option" where
  "CanRun status_file c =
     (if length (RequiredCapabilities c) = 0 then None
      else (case HasAllCapabilities status_file (RequiredCapabilities c) of
              Inl e \<Rightarrow> Some (CapabilityCheckFailed e)
            | Inr (hasAll, missing) \<Rightarrow>
                if \<not> hasAll \<and> length missing > 0 then Some (MissingCapabilities missing) else None))"

text \<open>The text of the error: \<open>errors.Join\<close> puts one message per line.\<close>

definition can_run_message :: "can_run_error \<Rightarrow> bytes" where
  "can_run_message e =
     (case e of
        CapabilityCheckFailed t \<Rightarrow> t
      | MissingCapabilities cs \<Rightarrow>
          join_with (CHR 0x0A) (map (\<lambda>c. ''missing capability: '' @ capability_String c) cs))"

section \<open>The registry\<close>

record unavailable_collector =
  un_metric_type :: metric_type
  un_reason :: bytes
  un_missing :: "capability list"
  un_min_kernel :: bytes
  un_current_kernel :: bytes

record 'c registry =
  reg_collectors :: "metric_type \<rightharpoonup> 'c"
  reg_unavailable :: "metric_type \<rightharpoonup> unavailable_collector"

definition empty_registry :: "'c registry" where
  "empty_registry = \<lparr>reg_collectors = Map.empty, reg_unavailable = Map.empty\<rparr>"

text \<open>
  \<open>Register\<close>. A factory of type \<open>'c\<close> is run by \<open>create\<close>, which returns the capabilities of the
  collector it makes or the text of its error. \<open>None\<close> is the panic on a second registration.
\<close>

definition Register :: "('c \<Rightarrow> collection_config \<Rightarrow> (bytes, collector_capabilities) result) \<Rightarrow>
    (bytes, bytes) result \<Rightarrow> bytes option \<Rightarrow> metric_type \<Rightarrow> 'c \<Rightarrow> 'c registry \<Rightarrow> 'c registry option" where
  "Register create status_file proc_version mt collector reg =
     (if reg_collectors reg mt \<noteq> None then None
      else
        let config = ApplyDefaults \<lparr>cc_interval = 0, cc_enabled = None, cc_proc = '''', cc_sys = '''',
              cc_dev = '''', cc_top = 0, cc_delta = \<lparr>dc_mode = DeltaModeUnset, dc_min_interval = 0,
              dc_max_interval = 0\<rparr>\<rparr>
        in case create collector config of
             Inl err \<Rightarrow>
               Some (reg\<lparr>reg_unavailable := (reg_unavailable reg)(mt \<mapsto>
                 \<lparr>un_metric_type = mt, un_reason = ''Failed to create collector: '' @ err,
                  un_missing = [], un_min_kernel = '''', un_current_kernel = ''''\<rparr>)\<rparr>)
           | Inr caps \<Rightarrow>
               (let currentKernel = (case GetCurrentVersion proc_version of
                      Inl _ \<Rightarrow> '''' | Inr v \<Rightarrow> version_String v)
                in case CanRun status_file caps of
                     Some (MissingCapabilities missing) \<Rightarrow>
                       Some (reg\<lparr>reg_unavailable := (reg_unavailable reg)(mt \<mapsto>
                         \<lparr>un_metric_type = mt, un_reason = can_run_message (MissingCapabilities missing),
                          un_missing = missing, un_min_kernel = MinKernelVersion caps,
                          un_current_kernel = currentKernel\<rparr>)\<rparr>)
                   | Some (CapabilityCheckFailed e) \<Rightarrow>
                       Some (reg\<lparr>reg_unavailable := (reg_unavailable reg)(mt \<mapsto>
                         \<lparr>un_metric_type = mt, un_reason = ''Failed to check capabilities: '' @ e,
                          un_missing = [], un_min_kernel = '''', un_current_kernel = currentKernel\<rparr>)\<rparr>)
                   | None \<Rightarrow> Some (reg\<lparr>reg_collectors := (reg_collectors reg)(mt \<mapsto> collector)\<rparr>)))"

definition GetCollector :: "'c registry \<Rightarrow> metric_type \<Rightarrow> 'c option" where
  "GetCollector reg mt = reg_collectors reg mt"

definition GetCollectorStatus :: "'c registry \<Rightarrow> metric_type \<Rightarrow> bool \<times> bytes" where
  "GetCollectorStatus reg mt =
     (if reg_collectors reg mt \<noteq> None then (True, ''available'')
      else (case reg_unavailable reg mt of
              Some u \<Rightarrow> (False, un_reason u)
            | None \<Rightarrow> (False, ''not found'')))"

section \<open>Delta state (delta.go)\<close>

text \<open>The zero \<open>time.Time\<close> and \<open>Sub\<close>, which saturates at the ends of \<open>int64\<close>.\<close>

definition IsZero :: "instant \<Rightarrow> bool" where
  "IsZero t = (t = 0)"

definition time_Sub :: "instant \<Rightarrow> instant \<Rightarrow> duration" where
  "time_Sub t u = max (- (2 ^ 63)) (min (2 ^ 63 - 1) (t - u))"

record 's delta_state =
  Config :: delta_config
  LastSnapshot :: "'s option"
  LastTime :: instant
  IsFirst :: bool

definition NewBaseDeltaCollector :: "collection_config \<Rightarrow> 's delta_state" where
  "NewBaseDeltaCollector config =
     \<lparr>Config = cc_delta config, LastSnapshot = None, LastTime = 0, IsFirst = True\<rparr>"

definition ResetDeltaState :: "'s delta_state \<Rightarrow> 's delta_state" where
  "ResetDeltaState b = b\<lparr>LastSnapshot := None, LastTime := 0, IsFirst := True\<rparr>"

definition HasDeltaState :: "'s delta_state \<Rightarrow> bool" where
  "HasDeltaState b = (\<not> IsFirst b \<and> LastSnapshot b \<noteq> None)"

definition UpdateDeltaState :: "'s \<Rightarrow> instant \<Rightarrow> 's delta_state \<Rightarrow> 's delta_state" where
  "UpdateDeltaState snapshot currentTime b =
     b\<lparr>LastSnapshot := Some snapshot, LastTime := currentTime, IsFirst := False\<rparr>"

datatype delta_reason =
  CalculateDeltas | DeltaDisabled | NoPreviousState | TimeWentBackwards
| IntervalTooLarge duration duration | IntervalTooSmall duration duration

definition ShouldCalculateDeltas :: "instant \<Rightarrow> 's delta_state \<Rightarrow> bool \<times> delta_reason" where
  "ShouldCalculateDeltas currentTime b =
     (if dc_mode (Config b) = DeltaModeDisabled then (False, DeltaDisabled)
      else if IsFirst b \<or> IsZero (LastTime b) then (False, NoPreviousState)
      else
        let interval = time_Sub currentTime (LastTime b)
        in if interval < 0 then (False, TimeWentBackwards)
           else if interval > dc_max_interval (Config b)
           then (False, IntervalTooLarge interval (dc_max_interval (Config b)))
           else if interval < dc_min_interval (Config b)
           then (False, IntervalTooSmall interval (dc_min_interval (Config b)))
           else (True, CalculateDeltas))"

record delta_metadata =
  CollectionInterval :: duration
  LastCollectionTime :: instant
  IsFirstCollection :: bool
  CounterResetDetected :: bool

definition CreateDeltaMetadata :: "instant \<Rightarrow> bool \<Rightarrow> 's delta_state \<Rightarrow> delta_metadata" where
  "CreateDeltaMetadata currentTime resetDetected b =
     \<lparr>CollectionInterval =
        (if \<not> IsFirst b \<and> \<not> IsZero (LastTime b) then time_Sub currentTime (LastTime b) else 0),
      LastCollectionTime = LastTime b, IsFirstCollection = IsFirst b,
      CounterResetDetected = resetDetected\<rparr>"

definition CalculateUint64Delta :: "64 word \<Rightarrow> 64 word \<Rightarrow> 64 word \<times> bool" where
  "CalculateUint64Delta current previous =
     (if current < previous then (0, True) else (current - previous, False))"

section \<open>Streaming wrappers (collector.go)\<close>

datatype collector_status =
  CollectorStatusActive | CollectorStatusDegraded | CollectorStatusFailed | CollectorStatusDisabled

text \<open>
  A wrapper around a one-shot collector of type \<open>'p\<close>. Its channel is \<open>cp_sent\<close>, the events
  sent, and \<open>cp_closed\<close>; it holds 10000 events, and a send to a full channel waits.
\<close>

record 'd perf_event =
  pe_metric :: metric_type
  pe_data :: "'d option"

record ('p, 'd) continuous_point =
  cp_status :: collector_status
  cp_last_error :: "bytes option"
  cp_point :: 'p
  cp_running :: bool
  cp_sent :: "'d perf_event list"
  cp_closed :: bool

definition SetError :: "bytes option \<Rightarrow> ('p, 'd) continuous_point \<Rightarrow> ('p, 'd) continuous_point" where
  "SetError err c =
     c\<lparr>cp_last_error := err,
       cp_status := (if err \<noteq> None then CollectorStatusFailed else cp_status c)\<rparr>"

definition NewContinuousPointCollector :: "'p \<Rightarrow> ('p, 'd) continuous_point" where
  "NewContinuousPointCollector p =
     \<lparr>cp_status = CollectorStatusDisabled, cp_last_error = None, cp_point = p, cp_running = False,
      cp_sent = [], cp_closed = False\<rparr>"

definition continuous_capabilities :: "collector_capabilities \<Rightarrow> collector_capabilities" where
  "continuous_capabilities caps = caps\<lparr>SupportsOneShot := False, SupportsContinuous := True\<rparr>"

definition once_capabilities :: "collector_capabilities \<Rightarrow> collector_capabilities" where
  "once_capabilities caps = caps\<lparr>SupportsOneShot := True, SupportsContinuous := False\<rparr>"

text \<open>\<open>Start\<close> makes a fresh channel; the goroutine takes the steps below.\<close>

definition continuous_Start :: "('p, 'd) continuous_point \<Rightarrow> (unit, ('p, 'd) continuous_point) result" where
  "continuous_Start c =
     (if cp_status c \<noteq> CollectorStatusDisabled then Inl ()
      else Inr (c\<lparr>cp_sent := [], cp_closed := False, cp_running := True,
                  cp_status := CollectorStatusActive\<rparr>))"

text \<open>One tick of \<open>start\<close>: collect, record the error or send the event.\<close>

definition continuous_tick :: "('p \<Rightarrow> (bytes, 'd perf_event) result \<times> 'p) \<Rightarrow>
    ('p, 'd) continuous_point \<Rightarrow> ('p, 'd) continuous_point" where
  "continuous_tick collect c =
     (case collect (cp_point c) of
        (Inl err, p) \<Rightarrow>
          (SetError (Some err) (c\<lparr>cp_point := p\<rparr>))\<lparr>cp_status := CollectorStatusDegraded\<rparr>
      | (Inr data, p) \<Rightarrow>
          (let c' = SetError None (c\<lparr>cp_point := p\<rparr>) in c'\<lparr>cp_sent := cp_sent c' @ [data]\<rparr>))"

text \<open>The context is done: the deferred function closes the channel.\<close>

definition continuous_stop :: "('p, 'd) continuous_point \<Rightarrow> ('p, 'd) continuous_point" where
  "continuous_stop c = c\<lparr>cp_closed := True, cp_running := False, cp_status := CollectorStatusDisabled\<rparr>"

record ('p, 'd) once_collector =
  oc_status :: collector_status
  oc_last_error :: "bytes option"
  oc_point :: 'p
  oc_result :: "'d perf_event option"
  oc_done :: bool

definition NewOnceContinuousCollector :: "'p \<Rightarrow> ('p, 'd) once_collector" where
  "NewOnceContinuousCollector p =
     \<lparr>oc_status = CollectorStatusDisabled, oc_last_error = None, oc_point = p, oc_result = None,
      oc_done = False\<rparr>"

text \<open>
  \<open>Start\<close> of the once collector: \<open>sync.Once\<close> runs the collection the first time. A one-shot
  collection may return an event and an error. The result is the content of the closed
  channel and the last error.
\<close>

definition once_run :: "('p \<Rightarrow> ('d perf_event \<times> bytes option) \<times> 'p) \<Rightarrow>
    ('p, 'd) once_collector \<Rightarrow> ('p, 'd) once_collector" where
  "once_run collect c =
     (if oc_done c then c
      else (case collect (oc_point c) of
              ((data, err), p) \<Rightarrow>
                c\<lparr>oc_point := p, oc_done := True, oc_result := Some data, oc_last_error := err\<rparr>))"

definition once_Start :: "('p \<Rightarrow> ('d perf_event \<times> bytes option) \<times> 'p) \<Rightarrow> ('p, 'd) once_collector \<Rightarrow>
    (unit, ('d perf_event list \<times> bytes option) \<times> ('p, 'd) once_collector) result" where
  "once_Start collect c =
     (if oc_status c \<noteq> CollectorStatusDisabled then Inl ()
      else let c' = (once_run collect c)\<lparr>oc_status := CollectorStatusDisabled\<rparr>;
               sent = (case oc_result c' of
                  Some e \<Rightarrow> if pe_data e \<noteq> None then [e] else []
                | None \<Rightarrow> [])
           in Inr ((sent, oc_last_error c'), c'))"

section \<open>Properties\<close>

subsection \<open>Settings\<close>

lemma ApplyDefaults_idem: "ApplyDefaults (ApplyDefaults c) = ApplyDefaults c"
  by (simp add: ApplyDefaults_def or_zero_def DefaultCollectionConfig_def DefaultDeltaConfig_def
      second_def millisecond_def minute_def)

lemma ApplyDefaults_Validate:
  assumes "cc_proc c = '''' \<or> IsAbs (cc_proc c)" "cc_sys c = '''' \<or> IsAbs (cc_sys c)"
    "cc_dev c = '''' \<or> IsAbs (cc_dev c)"
  shows "collection_Validate opt (ApplyDefaults c) = None"
  using assms
  by (auto simp: collection_Validate_def ApplyDefaults_def or_zero_def DefaultCollectionConfig_def
      IsAbs_def has_prefix_def)

subsection \<open>Capabilities and registry\<close>

text \<open>The effective capability set, as the mask the kernel reports.\<close>

lemma HasAllCapabilities_mask:
  assumes "req \<noteq> []" "set req \<subseteq> set checkCaps" "has_prefix line ''CapEff:''"
    "str_fields line = [a, b]" "parse_hex b = Some m"
    "split_on (CHR 0x0A) data = before @ line # after"
    "\<forall>l \<in> set before. \<not> has_prefix l ''CapEff:''"
  shows "HasAllCapabilities (Inr data) req =
    Inr (\<forall>c \<in> set req. bit m c, filter (\<lambda>c. \<not> bit m c) req)"
proof -
  have "scan_status (before @ line # after) = filter (\<lambda>c. bit m c) checkCaps"
    using assms(7) by (induction before) (use assms(3-5) in auto)
  then have cur: "getCurrentCapabilities (Inr data) = Inr (filter (\<lambda>c. bit m c) checkCaps)"
    using assms(6) by (simp add: getCurrentCapabilities_def)
  have "filter (\<lambda>c. c \<notin> set (filter (bit m) checkCaps)) req = filter (\<lambda>c. \<not> bit m c) req"
    using assms(2) by (intro filter_cong) auto
  then show ?thesis
    using assms(1) by (auto simp: HasAllCapabilities_def cur Let_def filter_empty_conv)
qed

lemma CanRun_iff:
  "CanRun status_file c = None \<longleftrightarrow>
     RequiredCapabilities c = [] \<or>
     (\<exists>current. getCurrentCapabilities status_file = Inr current \<and>
        set (RequiredCapabilities c) \<subseteq> set current)"
  by (cases "getCurrentCapabilities status_file")
    (auto simp: CanRun_def HasAllCapabilities_def Let_def filter_empty_conv split: if_splits)

lemma Register_status:
  assumes "Register create status_file proc_version mt collector reg = Some reg'"
  shows "fst (GetCollectorStatus reg' mt) \<longleftrightarrow>
      (\<exists>caps. create collector DefaultCollectionConfig = Inr caps \<and> CanRun status_file caps = None)"
    and "mt' \<noteq> mt \<Longrightarrow> GetCollectorStatus reg' mt' = GetCollectorStatus reg mt'"
proof -
  have cfg: "ApplyDefaults \<lparr>cc_interval = 0, cc_enabled = None, cc_proc = '''', cc_sys = '''',
      cc_dev = '''', cc_top = 0, cc_delta = \<lparr>dc_mode = DeltaModeUnset, dc_min_interval = 0,
      dc_max_interval = 0\<rparr>\<rparr> = DefaultCollectionConfig"
    by (simp add: ApplyDefaults_def DefaultCollectionConfig_def or_zero_def DefaultDeltaConfig_def)
  show "fst (GetCollectorStatus reg' mt) \<longleftrightarrow>
      (\<exists>caps. create collector DefaultCollectionConfig = Inr caps \<and> CanRun status_file caps = None)"
    using assms unfolding Register_def cfg Let_def
    by (auto simp: GetCollectorStatus_def split: if_splits sum.splits option.splits can_run_error.splits)
  show "GetCollectorStatus reg' mt' = GetCollectorStatus reg mt'" if "mt' \<noteq> mt"
    using assms that unfolding Register_def cfg Let_def
    by (auto simp: GetCollectorStatus_def split: if_splits sum.splits option.splits can_run_error.splits)
qed

lemma GetCollectorStatus_available:
  "GetCollectorStatus reg mt = (True, ''available'') \<longleftrightarrow> GetCollector reg mt \<noteq> None"
  by (auto simp: GetCollectorStatus_def GetCollector_def split: option.splits)

subsection \<open>Deltas\<close>

lemma CalculateUint64Delta_unat:
  "CalculateUint64Delta current previous = (d, reset) \<Longrightarrow>
   reset = (unat current < unat previous) \<and> unat d = unat current - unat previous"
  by (auto simp: CalculateUint64Delta_def word_less_nat_alt unat_sub_if' not_less split: if_splits)

lemma ShouldCalculateDeltas_iff:
  assumes "dc_max_interval (Config b) < 2 ^ 63 - 1" "0 \<le> dc_min_interval (Config b)"
  shows "fst (ShouldCalculateDeltas now b) \<longleftrightarrow>
    dc_mode (Config b) \<noteq> DeltaModeDisabled \<and> \<not> IsFirst b \<and> LastTime b \<noteq> 0 \<and>
    dc_min_interval (Config b) \<le> now - LastTime b \<and> now - LastTime b \<le> dc_max_interval (Config b)"
  using assms by (auto simp: ShouldCalculateDeltas_def Let_def IsZero_def time_Sub_def)

subsection \<open>Streaming\<close>

text \<open>
  A run of the wrapper: the results of its collections, in order. The channel receives exactly
  the successful ones; the status is degraded as soon as one has failed and stays so.
\<close>

fun run_ticks :: "('p \<Rightarrow> (bytes, 'd perf_event) result \<times> 'p) \<Rightarrow> nat \<Rightarrow>
    ('p, 'd) continuous_point \<Rightarrow> ('p, 'd) continuous_point" where
  "run_ticks collect 0 c = c"
| "run_ticks collect (Suc n) c = run_ticks collect n (continuous_tick collect c)"

fun tick_results :: "('p \<Rightarrow> (bytes, 'd perf_event) result \<times> 'p) \<Rightarrow> nat \<Rightarrow> 'p \<Rightarrow>
    (bytes, 'd perf_event) result list" where
  "tick_results collect 0 p = []"
| "tick_results collect (Suc n) p =
     (case collect p of (r, p') \<Rightarrow> r # tick_results collect n p')"

definition successes :: "('e, 'a) result list \<Rightarrow> 'a list" where
  "successes rs = concat (map (\<lambda>r. case r of Inl _ \<Rightarrow> [] | Inr x \<Rightarrow> [x]) rs)"

lemma run_ticks_sent:
  "cp_sent (run_ticks collect n c) = cp_sent c @ successes (tick_results collect n (cp_point c))"
proof (induction n arbitrary: c)
  case 0
  then show ?case by (simp add: successes_def)
next
  case (Suc n)
  obtain r p where r: "collect (cp_point c) = (r, p)" by (cases "collect (cp_point c)")
  show ?case
    by (cases r) (simp_all add: Suc r continuous_tick_def SetError_def Let_def successes_def)
qed

lemma run_ticks_status:
  assumes "cp_status c \<in> {CollectorStatusActive, CollectorStatusDegraded}"
  shows "cp_status (run_ticks collect n c) =
    (if cp_status c = CollectorStatusDegraded \<or> (\<exists>e. Inl e \<in> set (tick_results collect n (cp_point c)))
     then CollectorStatusDegraded else CollectorStatusActive)"
  using assms
proof (induction n arbitrary: c)
  case 0
  then show ?case by auto
next
  case (Suc n)
  obtain r p where r: "collect (cp_point c) = (r, p)" by (cases "collect (cp_point c)")
  have step: "cp_point (continuous_tick collect c) = p"
    "cp_status (continuous_tick collect c) =
      (if \<exists>e. r = Inl e then CollectorStatusDegraded else cp_status c)"
    by (cases r; simp add: r continuous_tick_def SetError_def Let_def)+
  have "cp_status (continuous_tick collect c) \<in> {CollectorStatusActive, CollectorStatusDegraded}"
    using step(2) Suc.prems by auto
  from Suc.IH [OF this] show ?case using Suc.prems by (auto simp: step r)
qed

lemma once_Start_again:
  assumes "once_Start collect c = Inr (out, c')"
  shows "once_Start collect c' = Inr (out, c')"
proof -
  have "oc_status c' = CollectorStatusDisabled" "oc_done c'"
    using assms by (auto simp: once_Start_def once_run_def Let_def split: if_splits prod.splits)
  moreover have "out = ((case oc_result c' of Some e \<Rightarrow> if pe_data e \<noteq> None then [e] else [] | None \<Rightarrow> []),
      oc_last_error c')"
    using assms by (auto simp: once_Start_def Let_def split: if_splits)
  ultimately show ?thesis by (simp add: once_Start_def once_run_def)
qed

end
