(* ===== verification/ConfigTypes.thy ===== *)
theory ConfigTypes
  imports Performance ResourceKey
begin

text \<open>
  Remote configuration of the agent: parsing and versions (\<open>internal/config/parser.go\<close>), the
  instances and filters (\<open>types.go\<close>) and the subscriptions of watchers (\<open>subscription.go\<close>).
  Protobuf decoding of a collection config is the argument \<open>unmarshal\<close>.
\<close>

section \<open>Instances (types.go)\<close>

type_synonym status = "8 word"

definition StatusOK :: status where "StatusOK = push_bit 0 1"
definition StatusInvalid :: status where "StatusInvalid = push_bit 1 1"

lemmas status_defs = StatusOK_def StatusInvalid_def

text \<open>Message \<open>HostStatsCollectionConfig\<close>, the only config type the parser knows.\<close>

record host_stats_config =
  hs_collector :: bytes
  hs_interval_seconds :: "32 word"

record config_instance =
  TypeUrl :: bytes
  Name :: bytes
  Version :: bytes
  Object :: "host_stats_config option"
  Status :: status
  Expired :: bool

definition empty_instance :: config_instance where
  "empty_instance = \<lparr>TypeUrl = '''', Name = '''', Version = '''', Object = None, Status = 0, Expired = False\<rparr>"

record filters =
  filter_types :: "bytes list"
  filter_status :: status

section \<open>Parsing (parser.go)\<close>

text \<open>Message \<open>types.v1.Object\<close>: \<open>cobj_ttl\<close> is the duration its TTL stands for, if set.\<close>

record config_object =
  cobj_type :: "type_descriptor option"
  cobj_name :: bytes
  cobj_version :: bytes
  cobj_data :: "bytes option"
  cobj_ttl :: "duration option"

datatype parse_error =
  NilObject | NilType | EmptyType | EmptyName | EmptyData | UnrecognizedType bytes
| ConfigUnmarshalFailed | EmptyCollector | CollectorUnavailable bytes bytes

definition hostStatsCollectionConfigName :: bytes where
  "hostStatsCollectionConfigName = ''antimetal.agent.v1.HostStatsCollectionConfig''"

definition parseHostStatsCollectionConfig :: "(bytes \<Rightarrow> host_stats_config option) \<Rightarrow> 'c registry \<Rightarrow>
    config_object \<Rightarrow> (parse_error, host_stats_config) result" where
  "parseHostStatsCollectionConfig unmarshal reg obj =
     (case unmarshal (case cobj_data obj of None \<Rightarrow> [] | Some d \<Rightarrow> d) of
        None \<Rightarrow> Inl ConfigUnmarshalFailed
      | Some config \<Rightarrow>
          if hs_collector config = '''' then Inl EmptyCollector
          else (case GetCollectorStatus reg (hs_collector config) of
                  (available, reason) \<Rightarrow>
                    if \<not> available then Inl (CollectorUnavailable (hs_collector config) reason)
                    else Inr config))"

text \<open>The map \<open>configParsers\<close> has this one entry.\<close>

definition configParsers :: "(bytes \<Rightarrow> host_stats_config option) \<Rightarrow> 'c registry \<Rightarrow> bytes \<Rightarrow>
    (config_object \<Rightarrow> (parse_error, host_stats_config) result) option" where
  "configParsers unmarshal reg url =
     (if url = hostStatsCollectionConfigName then Some (parseHostStatsCollectionConfig unmarshal reg)
      else None)"

definition Parse :: "(bytes \<Rightarrow> host_stats_config option) \<Rightarrow> 'c registry \<Rightarrow> config_object option \<Rightarrow>
    config_instance \<times> parse_error option" where
  "Parse unmarshal reg p =
     (case p of
        None \<Rightarrow> (empty_instance\<lparr>Status := StatusInvalid\<rparr>, Some NilObject)
      | Some obj \<Rightarrow>
          (case cobj_type obj of
             None \<Rightarrow> (empty_instance\<lparr>Status := StatusInvalid\<rparr>, Some NilType)
           | Some td \<Rightarrow>
               (let inst = empty_instance\<lparr>TypeUrl := td_type td, Name := cobj_name obj,
                             Version := cobj_version obj\<rparr>
                in if TypeUrl inst = '''' then (inst\<lparr>Status := StatusInvalid\<rparr>, Some EmptyType)
                   else if Name inst = '''' then (inst\<lparr>Status := StatusInvalid\<rparr>, Some EmptyName)
                   else if cobj_data obj = None then (inst\<lparr>Status := StatusInvalid\<rparr>, Some EmptyData)
                   else (case configParsers unmarshal reg (TypeUrl inst) of
                           None \<Rightarrow> (inst\<lparr>Status := StatusInvalid\<rparr>, Some (UnrecognizedType (td_type td)))
                         | Some parser \<Rightarrow>
                             (case parser obj of
                                Inl err \<Rightarrow> (inst\<lparr>Status := StatusInvalid\<rparr>, Some err)
                              | Inr msg \<Rightarrow> (inst\<lparr>Object := Some msg, Status := StatusOK\<rparr>, None))))))"

datatype compare_error = InvalidVersion bytes | NegativeVersion

definition CompareVersions :: "bytes \<Rightarrow> bytes \<Rightarrow> (compare_error, int) result" where
  "CompareVersions cur prv =
     (let current = trim_prefix cur ''v''; prev = trim_prefix prv ''v'' in
      result_bind (of_option (InvalidVersion current) (atoi current)) (\<lambda>currentNum.
      if prev = '''' then Inr 1
      else result_bind (of_option (InvalidVersion prev) (atoi prev)) (\<lambda>prevNum.
           if currentNum < 0 \<or> prevNum < 0 then Inl NegativeVersion
           else if currentNum < prevNum then Inr (-1)
           else if currentNum > prevNum then Inr 1
           else Inr 0)))"

section \<open>Subscriptions (subscription.go)\<close>

definition Matches :: "config_instance \<Rightarrow> filters \<Rightarrow> bool" where
  "Matches inst f =
     (if filter_status f \<noteq> 0 \<and> and (Status inst) (filter_status f) = 0 then False
      else if length (filter_types f) = 0 then True
      else list_ex (\<lambda>t. t = TypeUrl inst) (filter_types f))"

text \<open>
  A subscription's channel is the list of what was sent on it. The code's channels hold ten
  instances and a send to a full one waits, so what is sent and its order are the same.
  \<open>Copy\<close> clones the message, which as a value is the message.
\<close>

record subscription =
  sb_ch :: "config_instance list"
  sb_closed :: bool
  sb_filters :: filters

record subscriptions =
  subs :: "subscription list"
  subs_closed :: bool

definition no_subscriptions :: subscriptions where
  "no_subscriptions = \<lparr>subs = [], subs_closed = False\<rparr>"

definition Copy :: "config_instance \<Rightarrow> config_instance" where
  "Copy i = \<lparr>TypeUrl = TypeUrl i, Name = Name i, Version = Version i, Object = Object i,
             Status = Status i, Expired = Expired i\<rparr>"

text \<open>\<open>add\<close> returns the position of the new channel, or \<open>None\<close> for the nil channel.\<close>

definition subs_add :: "filters \<Rightarrow> subscriptions \<Rightarrow> nat option \<times> subscriptions" where
  "subs_add f s =
     (if subs_closed s then (None, s)
      else let f' = (if filter_status f = 0 then f\<lparr>filter_status := StatusOK\<rparr> else f)
           in (Some (length (subs s)),
               s\<lparr>subs := subs s @ [\<lparr>sb_ch = [], sb_closed = False, sb_filters = f'\<rparr>]\<rparr>))"

definition sub_deliver :: "config_instance list \<Rightarrow> subscription \<Rightarrow> subscription" where
  "sub_deliver instances sub =
     sub\<lparr>sb_ch := sb_ch sub @ map Copy (filter (\<lambda>i. Matches i (sb_filters sub)) instances)\<rparr>"

definition subs_send :: "config_instance list \<Rightarrow> subscriptions \<Rightarrow> subscriptions" where
  "subs_send instances s =
     (if subs_closed s then s else s\<lparr>subs := map (sub_deliver instances) (subs s)\<rparr>)"

definition subs_close :: "subscriptions \<Rightarrow> subscriptions" where
  "subs_close s =
     (if subs_closed s then s
      else s\<lparr>subs := map (\<lambda>sub. sub\<lparr>sb_closed := True\<rparr>) (subs s), subs_closed := True\<rparr>)"

text \<open>A direct send on one channel, as the goroutine of \<open>Watch\<close> does.\<close>

definition subs_push :: "nat \<Rightarrow> config_instance \<Rightarrow> subscriptions \<Rightarrow> subscriptions" where
  "subs_push n i s = s\<lparr>subs := (subs s)[n := (subs s ! n)\<lparr>sb_ch := sb_ch (subs s ! n) @ [i]\<rparr>]\<rparr>"

section \<open>Cached configs\<close>

text \<open>Both loaders key their cache by type and name, joined by a colon.\<close>

definition getCacheKey :: "bytes \<Rightarrow> bytes \<Rightarrow> bytes" where
  "getCacheKey configType name = configType @ '':'' @ name"

definition instance_key :: "config_instance \<Rightarrow> bytes" where
  "instance_key i = getCacheKey (TypeUrl i) (Name i)"

text \<open>The list of a type in the result of \<open>ListConfigs\<close>, from the cached instances in the
  order in which the map is traversed.\<close>

definition list_by_type :: "filters \<Rightarrow> config_instance list \<Rightarrow> bytes \<Rightarrow> config_instance list" where
  "list_by_type f cached t = filter (\<lambda>i. TypeUrl i = t) (filter (\<lambda>i. Matches i f) cached)"

section \<open>Properties\<close>

lemma Copy_id [simp]: "Copy i = i"
  by (simp add: Copy_def)

lemma status_distinct: "StatusOK \<noteq> 0" "StatusInvalid \<noteq> 0" "StatusOK \<noteq> StatusInvalid"
    "and StatusOK StatusInvalid = 0" "and StatusInvalid StatusOK = 0"
    "and StatusOK StatusOK = StatusOK" "and StatusInvalid StatusInvalid = StatusInvalid"
  by (simp_all add: status_defs)

text \<open>A config is accepted exactly when it carries a message, and then only with an OK status.\<close>

lemma Parse_accept:
  "Parse unmarshal reg p = (i, None) \<Longrightarrow> Status i = StatusOK \<and> Object i \<noteq> None \<and> \<not> Expired i \<and>
     TypeUrl i = hostStatsCollectionConfigName \<and> Name i \<noteq> ''''"
  by (auto simp: Parse_def Let_def empty_instance_def configParsers_def
      split: option.splits if_splits sum.splits)

lemma Parse_reject:
  "Parse unmarshal reg p = (i, Some e) \<Longrightarrow> Status i = StatusInvalid \<and> Object i = None \<and> \<not> Expired i"
  by (auto simp: Parse_def Let_def empty_instance_def split: option.splits if_splits sum.splits)

lemma Parse_collector:
  assumes "Parse unmarshal reg p = (i, None)"
  shows "\<exists>obj msg. p = Some obj \<and> Object i = Some msg \<and> hs_collector msg \<noteq> '''' \<and>
    GetCollector reg (hs_collector msg) \<noteq> None \<and>
    Name i = cobj_name obj \<and> Version i = cobj_version obj"
proof -
  obtain obj td where "p = Some obj" "cobj_type obj = Some td"
    using assms by (auto simp: Parse_def split: option.splits)
  then show ?thesis
    using assms GetCollectorStatus_available
    by (auto simp: Parse_def Let_def empty_instance_def configParsers_def
        parseHostStatsCollectionConfig_def GetCollectorStatus_def GetCollector_def
        split: option.splits if_splits sum.splits prod.splits)
qed

text \<open>On well-formed versions the comparison is that of the numbers.\<close>

definition show_version :: "bool \<Rightarrow> nat \<Rightarrow> bytes" where
  "show_version v n = (if v then ''v'' else '''') @ show_nat n"

lemma trim_show_version: "trim_prefix (show_version v n) ''v'' = show_nat n"
proof -
  have "\<not> has_prefix (show_nat n) ''v''"
    using show_nat_plain(1) [of n] show_nat_digit_set [of "hd (show_nat n)" n]
    by (cases "show_nat n") (auto simp: has_prefix_def is_digit_def)
  then show ?thesis
    by (simp add: show_version_def trim_prefix_def has_prefix_def)
qed

lemma CompareVersions_numbers:
  assumes "m < 2 ^ 63" "n < 2 ^ 63"
  shows "CompareVersions (show_version v m) (show_version w n) = Inr (sgn (int m - int n))"
  using assms show_nat_plain(1) [of n]
  by (auto simp: CompareVersions_def trim_show_version atoi_show_nat Let_def sgn_if)

lemma CompareVersions_range:
  "CompareVersions a b = Inr c \<Longrightarrow> c \<in> {-1, 0, 1}"
  by (auto simp: CompareVersions_def Let_def result_iff split: if_splits)

text \<open>Closing is final and sends nothing; each open subscriber gets the matches in order.\<close>

lemma subs_send_ch:
  "\<not> subs_closed s \<Longrightarrow> n < length (subs s) \<Longrightarrow>
   sb_ch (subs (subs_send is s) ! n) =
     sb_ch (subs s ! n) @ filter (\<lambda>i. Matches i (sb_filters (subs s ! n))) is"
proof -
  have "map Copy xs = xs" for xs by (induction xs) auto
  then show "\<not> subs_closed s \<Longrightarrow> n < length (subs s) \<Longrightarrow> ?thesis"
    by (simp add: subs_send_def sub_deliver_def)
qed

lemma subs_send_frame [simp]:
  "subs_closed (subs_send is s) = subs_closed s" "length (subs (subs_send is s)) = length (subs s)"
  by (auto simp: subs_send_def)

lemma subs_close_idem: "subs_close (subs_close s) = subs_close s"
  by (simp add: subs_close_def)

lemma subs_send_closed: "subs_send is (subs_close s) = subs_close s"
  by (simp add: subs_close_def subs_send_def)

end
