(* ===== verification/ConfigLoader.thy ===== *)
theory ConfigLoader
  imports ConfigTypes
begin

text \<open>
  The contract of \<open>Loader\<close> in \<open>internal/config/types.go\<close> that both loaders of the agent keep:
  a valid config replaces what was cached under its key, an invalid one never displaces a
  valid one, and other keys are not touched. From these laws alone follows what the
  documentation promises of \<open>GetConfig\<close>: the most recent valid config. A step that panics
  returns \<open>None\<close>.
\<close>

text \<open>A delivery is what the loader makes of one incoming config.\<close>

record delivery =
  dl_instance :: config_instance
  dl_accepted :: bool

text \<open>The last accepted instance of a key.\<close>

definition accepted_for :: "bytes \<Rightarrow> delivery list \<Rightarrow> config_instance list" where
  "accepted_for k ds = map dl_instance (filter (\<lambda>d. dl_accepted d \<and> instance_key (dl_instance d) = k) ds)"

text \<open>A run: the steps one after the other, with what each delivered.\<close>

fun process_all :: "('i \<Rightarrow> 's \<Rightarrow> (delivery \<times> 's) option) \<Rightarrow> 'i list \<Rightarrow> 's \<Rightarrow> (delivery list \<times> 's) option" where
  "process_all process [] s = Some ([], s)"
| "process_all process (x # xs) s =
     (case process x s of
        None \<Rightarrow> None
      | Some (d, s1) \<Rightarrow>
          (case process_all process xs s1 of None \<Rightarrow> None | Some (ds, s2) \<Rightarrow> Some (d # ds, s2)))"

locale config_loader =
  fixes lookup :: "'s \<Rightarrow> bytes \<Rightarrow> config_instance option"
    and process :: "'i \<Rightarrow> 's \<Rightarrow> (delivery \<times> 's) option"
  assumes accept: "process x s = Some (d, s') \<Longrightarrow> dl_accepted d \<Longrightarrow>
      lookup s' (instance_key (dl_instance d)) = Some (dl_instance d)"
    and accept_object: "process x s = Some (d, s') \<Longrightarrow> dl_accepted d \<Longrightarrow>
      Object (dl_instance d) \<noteq> None \<and> Status (dl_instance d) = StatusOK"
    and keep_valid: "process x s = Some (d, s') \<Longrightarrow> \<not> dl_accepted d \<Longrightarrow>
      lookup s (instance_key (dl_instance d)) = Some j \<Longrightarrow> Object j \<noteq> None \<Longrightarrow>
      lookup s' (instance_key (dl_instance d)) = Some j"
    and frame: "process x s = Some (d, s') \<Longrightarrow> k \<noteq> instance_key (dl_instance d) \<Longrightarrow>
      lookup s' k = lookup s k"
begin

lemma valid_step:
  assumes "process x s = Some (d, s')" "lookup s k = Some j" "Object j \<noteq> None"
    "\<not> (dl_accepted d \<and> instance_key (dl_instance d) = k)"
  shows "lookup s' k = Some j"
  using assms keep_valid frame by metis

lemma accepted_for_cons:
  "accepted_for k (d # ds) =
    (if dl_accepted d \<and> instance_key (dl_instance d) = k then dl_instance d # accepted_for k ds
     else accepted_for k ds)"
  by (simp add: accepted_for_def)

text \<open>A key that holds a valid config always holds its most recent valid config.\<close>

lemma valid_kept:
  "process_all process xs s = Some (ds, s') \<Longrightarrow> lookup s k = Some j \<Longrightarrow> Object j \<noteq> None \<Longrightarrow>
   lookup s' k = Some (last (j # accepted_for k ds))"
proof (induction xs arbitrary: s ds j)
  case Nil
  then show ?case by (simp add: accepted_for_def)
next
  case (Cons x xs)
  obtain d s1 ds2 where d: "process x s = Some (d, s1)"
      and ds2: "process_all process xs s1 = Some (ds2, s')" and eq: "ds = d # ds2"
    using Cons.prems(1) by (auto split: option.splits prod.splits)
  show ?case
  proof (cases "dl_accepted d \<and> instance_key (dl_instance d) = k")
    case True
    then show ?thesis
      using Cons.IH [OF ds2, of "dl_instance d"] accept [OF d] accept_object [OF d] eq
      by (auto simp: accepted_for_cons)
  next
    case False
    then show ?thesis
      using Cons.IH [OF ds2 valid_step [OF d Cons.prems(2,3) False] Cons.prems(3)] eq
      by (auto simp: accepted_for_cons)
  qed
qed

theorem most_recent_valid:
  "process_all process xs s = Some (ds, s') \<Longrightarrow> accepted_for k ds \<noteq> [] \<Longrightarrow>
   lookup s' k = Some (last (accepted_for k ds))"
proof (induction xs arbitrary: s ds)
  case Nil
  then show ?case by (simp add: accepted_for_def)
next
  case (Cons x xs)
  obtain d s1 ds2 where d: "process x s = Some (d, s1)"
      and ds2: "process_all process xs s1 = Some (ds2, s')" and eq: "ds = d # ds2"
    using Cons.prems(1) by (auto split: option.splits prod.splits)
  show ?case
  proof (cases "dl_accepted d \<and> instance_key (dl_instance d) = k")
    case True
    then show ?thesis
      using valid_kept [OF ds2, of k "dl_instance d"] accept [OF d] accept_object [OF d] eq
      by (auto simp: accepted_for_cons)
  next
    case False
    then show ?thesis
      using Cons.IH [OF ds2] Cons.prems(2) eq by (auto simp: accepted_for_cons)
  qed
qed

text \<open>A key that no delivery names keeps what it had.\<close>

lemma untouched:
  "process_all process xs s = Some (ds, s') \<Longrightarrow> \<forall>d \<in> set ds. instance_key (dl_instance d) \<noteq> k \<Longrightarrow>
   lookup s' k = lookup s k"
proof (induction xs arbitrary: s ds)
  case (Cons x xs)
  then show ?case
    using frame by (auto split: option.splits prod.splits)
qed simp

end

end
