(* ===== verification/FSLoader.thy ===== *)
theory FSLoader
  imports ConfigLoader "HOL-Library.AList"
begin

text \<open>
  The config loader that watches a directory, \<open>internal/config/fs.go\<close>. The cache and the map
  from file names to cache keys are association lists with distinct keys; a traversal of the
  cache is in the order \<open>arrange\<close> gives. Reading a file, the JSON and YAML decoders and the
  collector registry are the fields of \<open>fs_env\<close>.
\<close>

section \<open>State and environment\<close>

record 'c fs_env =
  read_file :: "bytes \<Rightarrow> bytes option"
  protojson_unmarshal :: "bytes \<Rightarrow> config_object option"
  yaml_to_json :: "bytes \<Rightarrow> bytes option"
  cfg_unmarshal :: "bytes \<Rightarrow> host_stats_config option"
  cfg_registry :: "'c registry"

record fs_loader =
  fl_subs :: subscriptions
  fl_cache :: "(bytes \<times> config_instance) list"
  fl_files :: "(bytes \<times> bytes) list"
  fl_done :: bool

datatype fs_error =
  ReadConfigFailed | ConfigFileEmpty | UnmarshalJSON | UnmarshalYAML | UnmarshalConverted
| UnsupportedExtension bytes | ParseFailed parse_error

section \<open>File names\<close>

text \<open>\<open>filepath.Ext\<close>: from the last dot of the last path element. \<open>strings.ToLower\<close> agrees with
  the ASCII mapping on whether the result is one of the extensions compared with: no other
  character has a lower case among their letters.\<close>

definition filepath_Ext :: "bytes \<Rightarrow> bytes" where
  "filepath_Ext path =
     (let base = takeWhile (\<lambda>c. c \<noteq> CHR ''/'') (rev path)
      in if CHR ''.'' \<in> set base then CHR ''.'' # rev (takeWhile (\<lambda>c. c \<noteq> CHR ''.'') base) else [])"

definition to_lower :: "bytes \<Rightarrow> bytes" where
  "to_lower s = map (\<lambda>c. if 65 \<le> ord c \<and> ord c \<le> 90 then char_of (ord c + 32) else c) s"

definition isConfigFile :: "bytes \<Rightarrow> bool" where
  "isConfigFile filename =
     (let ext = to_lower (filepath_Ext filename)
      in ext = ''.json'' \<or> ext = ''.yaml'' \<or> ext = ''.yml'')"

section \<open>Loading a file\<close>

definition unmarshalObject :: "'c fs_env \<Rightarrow> bytes \<Rightarrow> bytes \<Rightarrow> (fs_error, config_object) result" where
  "unmarshalObject env data filename =
     (let ext = to_lower (filepath_Ext filename)
      in if ext = ''.json'' then of_option UnmarshalJSON (protojson_unmarshal env data)
         else if ext = ''.yaml'' \<or> ext = ''.yml''
         then result_bind (of_option UnmarshalYAML (yaml_to_json env data)) (\<lambda>json.
              of_option UnmarshalConverted (protojson_unmarshal env json))
         else Inl (UnsupportedExtension ext))"

text \<open>The decoded config enters the cache: the part of \<open>loadConfigFile\<close> under the lock.\<close>

definition store_config :: "bytes \<Rightarrow> config_instance \<Rightarrow> parse_error option \<Rightarrow> fs_loader \<Rightarrow> fs_loader" where
  "store_config filename inst parseErr fl =
     (let cacheKey = instance_key inst in
      if parseErr = None \<or>
         (case map_of (fl_cache fl) cacheKey of None \<Rightarrow> True | Some prev \<Rightarrow> Object prev = None)
      then fl\<lparr>fl_cache := AList.update cacheKey inst (fl_cache fl),
              fl_files := AList.update filename cacheKey (fl_files fl)\<rparr>
      else fl)"

definition loadConfigFile :: "'c fs_env \<Rightarrow> bytes \<Rightarrow> fs_loader \<Rightarrow>
    (config_instance \<times> fs_error option) \<times> fs_loader" where
  "loadConfigFile env filename fl =
     (case read_file env filename of
        None \<Rightarrow> ((empty_instance\<lparr>Status := StatusInvalid\<rparr>, Some ReadConfigFailed), fl)
      | Some data \<Rightarrow>
          if length data = 0
          then ((empty_instance\<lparr>Status := StatusInvalid\<rparr>, Some ConfigFileEmpty), fl)
          else (case unmarshalObject env data filename of
                  Inl e \<Rightarrow> ((empty_instance\<lparr>Status := StatusInvalid\<rparr>, Some e), fl)
                | Inr obj \<Rightarrow>
                    (case Parse (cfg_unmarshal env) (cfg_registry env) (Some obj) of
                       (inst, parseErr) \<Rightarrow>
                         ((inst, map_option ParseFailed parseErr), store_config filename inst parseErr fl))))"

definition processConfigFile :: "'c fs_env \<Rightarrow> bytes \<Rightarrow> fs_loader \<Rightarrow> fs_loader" where
  "processConfigFile env filename fl =
     (case loadConfigFile env filename fl of
        ((inst, _), fl') \<Rightarrow> fl'\<lparr>fl_subs := subs_send [inst] (fl_subs fl')\<rparr>)"

definition handleFileDelete :: "bytes \<Rightarrow> fs_loader \<Rightarrow> fs_loader" where
  "handleFileDelete filename fl =
     (case map_of (fl_files fl) filename of
        None \<Rightarrow> fl
      | Some cacheKey \<Rightarrow>
          (case map_of (fl_cache fl) cacheKey of
             None \<Rightarrow> fl
           | Some inst \<Rightarrow>
               fl\<lparr>fl_cache := AList.delete cacheKey (fl_cache fl),
                  fl_files := AList.delete filename (fl_files fl),
                  fl_subs := subs_send [inst\<lparr>Expired := True\<rparr>] (fl_subs fl)\<rparr>))"

section \<open>Events\<close>

datatype fs_op = Op_Create | Op_Write | Op_Remove | Op_Rename | Op_Chmod

record fs_event =
  fse_name :: bytes
  fse_ops :: "fs_op list"

definition handleEvent :: "'c fs_env \<Rightarrow> fs_event \<Rightarrow> fs_loader \<Rightarrow> fs_loader" where
  "handleEvent env ev fl =
     (if \<not> isConfigFile (fse_name ev) then fl
      else if Op_Create \<in> set (fse_ops ev) \<or> Op_Write \<in> set (fse_ops ev)
      then processConfigFile env (fse_name ev) fl
      else if Op_Remove \<in> set (fse_ops ev) then handleFileDelete (fse_name ev) fl
      else fl)"

section \<open>The loader's methods\<close>

text \<open>\<open>initLoadFiles\<close>: \<open>WalkDir\<close> visits the paths; an unreadable one is \<open>None\<close>.\<close>

fun initLoadFiles :: "'c fs_env \<Rightarrow> (bytes \<times> bool option) list \<Rightarrow> fs_loader \<Rightarrow> fs_loader" where
  "initLoadFiles env [] fl = fl"
| "initLoadFiles env ((path, is_dir) # entries) fl =
     (case is_dir of
        None \<Rightarrow> initLoadFiles env entries fl
      | Some d \<Rightarrow>
          if d \<or> \<not> isConfigFile path then initLoadFiles env entries fl
          else initLoadFiles env entries (snd (loadConfigFile env path fl)))"

definition NewFSLoader :: "'c fs_env \<Rightarrow> (bytes \<times> bool option) list \<Rightarrow> fs_loader" where
  "NewFSLoader env entries =
     initLoadFiles env entries
       \<lparr>fl_subs = no_subscriptions, fl_cache = [], fl_files = [], fl_done = False\<rparr>"

definition fs_ListConfigs :: "((bytes \<times> config_instance) list \<Rightarrow> (bytes \<times> config_instance) list) \<Rightarrow>
    filters \<Rightarrow> fs_loader \<Rightarrow> bytes \<Rightarrow> config_instance list" where
  "fs_ListConfigs arrange f fl = list_by_type f (map snd (arrange (fl_cache fl)))"

definition fs_GetConfig :: "bytes \<Rightarrow> bytes \<Rightarrow> fs_loader \<Rightarrow> config_instance option" where
  "fs_GetConfig configType name fl = map_of (fl_cache fl) (getCacheKey configType name)"

definition fs_Watch :: "filters \<Rightarrow> fs_loader \<Rightarrow> nat option \<times> fs_loader" where
  "fs_Watch f fl = (case subs_add f (fl_subs fl) of (ch, s) \<Rightarrow> (ch, fl\<lparr>fl_subs := s\<rparr>))"

text \<open>The goroutine of \<open>Watch\<close>, when it runs to its end: it lists with the caller's filters, not
  with those of the subscription. \<open>types\<close> is the order of the keys of the resulting map.\<close>

definition fs_Watch_initial :: "((bytes \<times> config_instance) list \<Rightarrow> (bytes \<times> config_instance) list) \<Rightarrow>
    bytes list \<Rightarrow> filters \<Rightarrow> nat \<Rightarrow> fs_loader \<Rightarrow> fs_loader" where
  "fs_Watch_initial arrange types f ch fl =
     fl\<lparr>fl_subs := fold (subs_push ch) (concat (map (fs_ListConfigs arrange f fl) types)) (fl_subs fl)\<rparr>"

text \<open>\<open>Close\<close>: closing the \<open>done\<close> channel twice panics, which is \<open>None\<close>.\<close>

definition fs_Close :: "fs_loader \<Rightarrow> fs_loader option" where
  "fs_Close fl =
     (if fl_done fl then None
      else Some (fl\<lparr>fl_done := True, fl_subs := subs_close (fl_subs fl)\<rparr>))"

section \<open>The loader keeps the contract\<close>

text \<open>
  One file event as a step of the contract: the file as it is read then, \<open>env\<close>, and its name.
  What is delivered does not depend on the loader's state.
\<close>

definition fs_process :: "'c fs_env \<times> bytes \<Rightarrow> fs_loader \<Rightarrow> (delivery \<times> fs_loader) option" where
  "fs_process x fl =
     (case x of (env, filename) \<Rightarrow>
        (case loadConfigFile env filename fl of
           ((inst, err), _) \<Rightarrow>
             Some (\<lparr>dl_instance = inst, dl_accepted = (err = None)\<rparr>, processConfigFile env filename fl)))"

definition fs_lookup :: "fs_loader \<Rightarrow> bytes \<Rightarrow> config_instance option" where
  "fs_lookup fl k = map_of (fl_cache fl) k"

lemma store_config_lookup:
  "fs_lookup (store_config filename inst err fl) k =
     (if k = instance_key inst \<and>
         (err = None \<or> (case fs_lookup fl k of None \<Rightarrow> True | Some prev \<Rightarrow> Object prev = None))
      then Some inst else fs_lookup fl k)"
  by (auto simp: store_config_def fs_lookup_def Let_def update_conv' split: option.splits)

lemma fs_lookup_subs [simp]: "fs_lookup (fl\<lparr>fl_subs := s\<rparr>) k = fs_lookup fl k"
  by (simp add: fs_lookup_def)

lemma processConfigFile_lookup:
  "fs_lookup (processConfigFile env filename fl) k = fs_lookup (snd (loadConfigFile env filename fl)) k"
  by (simp add: processConfigFile_def split: prod.splits)

text \<open>A file that cannot be read or decoded leaves the cache alone; any other is stored as
  \<open>store_config\<close> says.\<close>

lemma loadConfigFile_cases:
  assumes "loadConfigFile env filename fl = ((inst, err), fl')"
  obtains (unreadable) "err \<noteq> None" "fl' = fl"
  | (parsed) obj parseErr where "Parse (cfg_unmarshal env) (cfg_registry env) (Some obj) = (inst, parseErr)"
      "err = map_option ParseFailed parseErr" "fl' = store_config filename inst parseErr fl"
  using assms
  by (auto simp: loadConfigFile_def split: option.splits if_splits sum.splits prod.splits)

lemma loadConfigFile_fst: "fst (loadConfigFile env filename fl) = fst (loadConfigFile env filename fl')"
  by (auto simp: loadConfigFile_def split: option.splits sum.splits prod.splits)

lemma fs_process_cases:
  assumes "fs_process x s = Some (d, s')"
  obtains (unreadable) "\<not> dl_accepted d" "\<And>k. fs_lookup s' k = fs_lookup s k"
  | (parsed) obj parseErr filename
    where "Parse (cfg_unmarshal (fst x)) (cfg_registry (fst x)) obj = (dl_instance d, parseErr)"
      "dl_accepted d \<longleftrightarrow> parseErr = None"
      "\<And>k. fs_lookup s' k = fs_lookup (store_config filename (dl_instance d) parseErr s) k"
proof -
  obtain env filename inst err fl' where x: "x = (env, filename)"
      and load: "loadConfigFile env filename s = ((inst, err), fl')" by (metis surj_pair)
  then have d: "d = \<lparr>dl_instance = inst, dl_accepted = (err = None)\<rparr>" "s' = processConfigFile env filename s"
    using assms by (auto simp: fs_process_def)
  have look: "fs_lookup s' k = fs_lookup fl' k" for k
    unfolding d(2) processConfigFile_lookup load by simp
  from load show ?thesis
  proof (cases rule: loadConfigFile_cases)
    case unreadable
    then show ?thesis using that(1) d(1) look by simp
  next
    case (parsed obj parseErr)
    then show ?thesis using that(2) [of "Some obj" parseErr filename] d(1) look x by simp
  qed
qed

interpretation fs: config_loader fs_lookup fs_process
proof (unfold_locales, goal_cases)
  case (1 x s d s')
  then show ?case by (cases rule: fs_process_cases [OF 1(1)]) (simp_all add: store_config_lookup)
next
  case (2 x s d s')
  then show ?case by (cases rule: fs_process_cases [OF 2(1)]) (auto dest: Parse_accept)
next
  case (3 x s d s' j)
  then show ?case by (cases rule: fs_process_cases [OF 3(1)]) (auto simp: store_config_lookup)
next
  case (4 x s d s' k)
  then show ?case by (cases rule: fs_process_cases [OF 4(1)]) (simp_all add: store_config_lookup)
qed

text \<open>A valid config stays through any event that neither removes a file nor delivers a newer
  valid config of the same key.\<close>

lemma handleEvent_keeps_valid:
  assumes "fs_lookup fl k = Some j" "Object j \<noteq> None" "Op_Remove \<notin> set (fse_ops ev)"
    and "\<And>inst. fst (loadConfigFile env (fse_name ev) fl) = (inst, None) \<Longrightarrow> instance_key inst \<noteq> k"
  shows "fs_lookup (handleEvent env ev fl) k = Some j"
proof -
  obtain inst err fl' where load: "loadConfigFile env (fse_name ev) fl = ((inst, err), fl')"
    by (metis surj_pair)
  then have "fs_process (env, fse_name ev) fl =
      Some (\<lparr>dl_instance = inst, dl_accepted = (err = None)\<rparr>, processConfigFile env (fse_name ev) fl)"
    by (simp add: fs_process_def)
  from fs.valid_step [OF this assms(1,2)] assms(4) load
  have "fs_lookup (processConfigFile env (fse_name ev) fl) k = Some j" by auto
  then show ?thesis using assms(1,3) by (simp add: handleEvent_def)
qed

section \<open>Files and the cache\<close>

text \<open>
  Every file name recorded points to a cached config, as long as no two files hold the same
  config: deleting one of two such files removes the shared config.
\<close>

definition fs_inv :: "fs_loader \<Rightarrow> bool" where
  "fs_inv fl \<longleftrightarrow> distinct (map fst (fl_cache fl)) \<and> distinct (map fst (fl_files fl)) \<and>
     (\<forall>(k, i) \<in> set (fl_cache fl). instance_key i = k)"

lemma fs_inv_store: "fs_inv fl \<Longrightarrow> fs_inv (store_config filename inst err fl)"
proof -
  assume inv: "fs_inv fl"
  have "\<forall>(k, i) \<in> set (AList.update (instance_key inst) inst (fl_cache fl)). instance_key i = k"
  proof safe
    fix k i assume "(k, i) \<in> set (AList.update (instance_key inst) inst (fl_cache fl))"
    moreover have "distinct (map fst (AList.update (instance_key inst) inst (fl_cache fl)))"
      using inv by (simp add: fs_inv_def distinct_update)
    ultimately have "map_of (AList.update (instance_key inst) inst (fl_cache fl)) k = Some i" by simp
    then show "instance_key i = k"
      using inv by (auto simp: update_conv' fs_inv_def dest: map_of_SomeD split: if_splits)
  qed
  then show ?thesis
    using inv by (auto simp: fs_inv_def store_config_def Let_def distinct_update)
qed

lemma fs_inv_load: "fs_inv fl \<Longrightarrow> fs_inv (snd (loadConfigFile env filename fl))"
  using fs_inv_store by (auto simp: loadConfigFile_def split: option.splits sum.splits prod.splits)

lemma fs_inv_delete: "fs_inv fl \<Longrightarrow> fs_inv (handleFileDelete filename fl)"
  by (auto simp: handleFileDelete_def fs_inv_def AList.delete_eq distinct_map_filter
      split: option.splits)

lemma fs_inv_handleEvent: "fs_inv fl \<Longrightarrow> fs_inv (handleEvent env ev fl)"
proof -
  assume inv: "fs_inv fl"
  have "fs_inv (processConfigFile env (fse_name ev) fl)"
    using fs_inv_load [OF inv, of env "fse_name ev"]
    by (auto simp: processConfigFile_def fs_inv_def split: prod.splits)
  then show ?thesis using inv fs_inv_delete [OF inv] by (simp add: handleEvent_def)
qed

section \<open>Deleting and watching\<close>

text \<open>Deleting the file of a cached config removes it and announces it as expired.\<close>

lemma handleFileDelete_removes:
  assumes "map_of (fl_files fl) filename = Some k" "fs_lookup fl k = Some i"
  shows "fs_lookup (handleFileDelete filename fl) k = None"
    "k' \<noteq> k \<Longrightarrow> fs_lookup (handleFileDelete filename fl) k' = fs_lookup fl k'"
    "fl_subs (handleFileDelete filename fl) = subs_send [i\<lparr>Expired := True\<rparr>] (fl_subs fl)"
  using assms by (simp_all add: handleFileDelete_def fs_lookup_def delete_conv')

text \<open>What a watcher is sent for one file event.\<close>

lemma processConfigFile_sends:
  assumes "loadConfigFile env filename fl = ((inst, err), fl')" "\<not> subs_closed (fl_subs fl)"
    "n < length (subs (fl_subs fl))"
  shows "sb_ch (subs (fl_subs (processConfigFile env filename fl)) ! n) =
    sb_ch (subs (fl_subs fl) ! n) @ (if Matches inst (sb_filters (subs (fl_subs fl) ! n)) then [inst] else [])"
proof -
  have "fl_subs fl' = fl_subs fl"
    using assms(1) by (auto simp: loadConfigFile_def store_config_def Let_def
        split: option.splits if_splits sum.splits prod.splits)
  then show ?thesis
    using assms subs_send_ch [of "fl_subs fl" n "[inst]"] by (simp add: processConfigFile_def)
qed

end
