(* ===== verification/TtlHeap.thy ===== *)
theory TtlHeap
  imports Performance "HOL-Library.Multiset"
begin

text \<open>
  The expiry heap of the management-service loader: \<open>ttlHeap\<close> of \<open>internal/config/ams.go\<close> with
  the algorithms of Go's \<open>container/heap\<close> that it is used with (\<open>up\<close>, \<open>down\<close>, \<open>Push\<close>, \<open>Pop\<close>,
  \<open>Fix\<close>, \<open>Remove\<close>). The heap is an array of entries; the code's pointers to entries are
  positions, since only \<open>Swap\<close>, \<open>Push\<close> and \<open>Pop\<close> write the \<open>index\<close> field.
\<close>

section \<open>Entries (ams.go)\<close>

record ttl_entry =
  te_key :: bytes
  te_ttl :: instant
  te_index :: int

type_synonym ttl_heap = "ttl_entry list"

definition heap_Less :: "ttl_heap \<Rightarrow> nat \<Rightarrow> nat \<Rightarrow> bool" where
  "heap_Less h i j = (te_ttl (h ! i) < te_ttl (h ! j))"

definition heap_Swap :: "nat \<Rightarrow> nat \<Rightarrow> ttl_heap \<Rightarrow> ttl_heap" where
  "heap_Swap i j h =
     h[i := (h ! j)\<lparr>te_index := int i\<rparr>, j := (h ! i)\<lparr>te_index := int (if i = j then i else j)\<rparr>]"

definition heap_Push :: "ttl_entry \<Rightarrow> ttl_heap \<Rightarrow> ttl_heap" where
  "heap_Push x h = h @ [x\<lparr>te_index := int (length h)\<rparr>]"

definition heap_Pop :: "ttl_heap \<Rightarrow> ttl_entry \<times> ttl_heap" where
  "heap_Pop h = ((last h)\<lparr>te_index := -1\<rparr>, butlast h)"

section \<open>The algorithms of container/heap\<close>

function heap_up :: "nat \<Rightarrow> ttl_heap \<Rightarrow> ttl_heap" where
  "heap_up j h =
     (if j = 0 then h
      else let i = (j - 1) div 2
           in if \<not> heap_Less h j i then h else heap_up i (heap_Swap i j h))"
  by pat_completeness auto
termination
  by (relation "measure fst") auto

declare heap_up.simps [simp del]

text \<open>At position 0 the code finds the parent to be the position itself and stops.\<close>

text \<open>\<open>down\<close> on the first \<open>n\<close> entries; the result says whether the entry moved.\<close>

function heap_down :: "nat \<Rightarrow> nat \<Rightarrow> ttl_heap \<Rightarrow> nat \<times> ttl_heap" where
  "heap_down i n h =
     (let j1 = 2 * i + 1
      in if j1 \<ge> n then (i, h)
         else let j = (if j1 + 1 < n \<and> heap_Less h (j1 + 1) j1 then j1 + 1 else j1)
              in if \<not> heap_Less h j i then (i, h) else heap_down j n (heap_Swap i j h))"
  by pat_completeness auto
termination
  by (relation "measure (\<lambda>(i, n, h). n - i)") (auto simp: Let_def split: if_splits)

declare heap_down.simps [simp del]

definition push :: "ttl_entry \<Rightarrow> ttl_heap \<Rightarrow> ttl_heap" where
  "push x h = heap_up (length h) (heap_Push x h)"

definition pop :: "ttl_heap \<Rightarrow> ttl_entry \<times> ttl_heap" where
  "pop h =
     (let n = length h - 1
      in heap_Pop (snd (heap_down 0 n (heap_Swap 0 n h))))"

definition fix_at :: "nat \<Rightarrow> ttl_heap \<Rightarrow> ttl_heap" where
  "fix_at i h =
     (case heap_down i (length h) h of
        (i', h') \<Rightarrow> if i' > i then h' else heap_up i h')"

text \<open>\<open>Remove\<close>; out of range the code panics, which is \<open>None\<close>.\<close>

definition remove_at :: "nat \<Rightarrow> ttl_heap \<Rightarrow> (ttl_entry \<times> ttl_heap) option" where
  "remove_at i h =
     (let n = length h - 1
      in if i \<ge> length h then None
         else if n \<noteq> i
         then (let h1 = heap_Swap i n h
               in case heap_down i n h1 of
                    (i', h2) \<Rightarrow> Some (heap_Pop (if i' > i then h2 else heap_up i h2)))
         else Some (heap_Pop h))"

section \<open>Heap order\<close>

abbreviation ttl_at :: "ttl_heap \<Rightarrow> nat \<Rightarrow> instant" where
  "ttl_at h i \<equiv> te_ttl (h ! i)"

definition parent :: "nat \<Rightarrow> nat" where
  "parent j = (j - 1) div 2"

text \<open>The first \<open>n\<close> entries are in heap order, except below a position in \<open>D\<close> (as parent)
  and above a position in \<open>U\<close> (as child).\<close>

definition heap_on :: "nat \<Rightarrow> ttl_heap \<Rightarrow> bool" where
  "heap_on n h \<longleftrightarrow> (\<forall>j. 0 < j \<and> j < n \<longrightarrow> ttl_at h (parent j) \<le> ttl_at h j)"

definition is_heap :: "ttl_heap \<Rightarrow> bool" where
  "is_heap h \<longleftrightarrow> heap_on (length h) h"

definition indexed :: "ttl_heap \<Rightarrow> bool" where
  "indexed h \<longleftrightarrow> (\<forall>i < length h. te_index (h ! i) = int i)"

text \<open>The content of a heap: keys and expiry times, without positions.\<close>

definition content :: "ttl_heap \<Rightarrow> (bytes \<times> instant) multiset" where
  "content h = mset (map (\<lambda>e. (te_key e, te_ttl e)) h)"

section \<open>Swapping\<close>

lemma length_Swap [simp]: "length (heap_Swap i j h) = length h"
  by (simp add: heap_Swap_def)

lemma ttl_Swap:
  assumes "i < length h" "j < length h"
  shows "ttl_at (heap_Swap i j h) k =
    (if k = i then ttl_at h j else if k = j then ttl_at h i else ttl_at h k)"
  using assms by (auto simp: heap_Swap_def nth_list_update)

lemma nth_Swap_other: "k \<noteq> i \<Longrightarrow> k \<noteq> j \<Longrightarrow> heap_Swap i j h ! k = h ! k"
  by (simp add: heap_Swap_def)

lemma content_Swap:
  assumes "i < length h" "j < length h"
  shows "content (heap_Swap i j h) = content h"
proof -
  let ?f = "\<lambda>e. (te_key e, te_ttl e)"
  have "map ?f (heap_Swap i j h) = (map ?f h)[i := map ?f h ! j, j := map ?f h ! i]"
    using assms by (simp add: heap_Swap_def map_update)
  then show ?thesis using assms mset_swap [of j "map ?f h" i] by (simp add: content_def)
qed

lemma indexed_Swap: "indexed h \<Longrightarrow> i < length h \<Longrightarrow> j < length h \<Longrightarrow> indexed (heap_Swap i j h)"
  by (auto simp: indexed_def heap_Swap_def nth_list_update)

section \<open>Sifting\<close>

text \<open>Heap order up to a violation between position \<open>j\<close> and its parent.\<close>

definition heap_but_up :: "nat \<Rightarrow> nat \<Rightarrow> ttl_heap \<Rightarrow> bool" where
  "heap_but_up n j h \<longleftrightarrow>
     (\<forall>k. 0 < k \<and> k < n \<and> k \<noteq> j \<longrightarrow> ttl_at h (parent k) \<le> ttl_at h k) \<and>
     (\<forall>k. 0 < k \<and> k < n \<and> parent k = j \<and> 0 < j \<longrightarrow> ttl_at h (parent j) \<le> ttl_at h k)"

text \<open>Heap order up to violations between position \<open>i\<close> and its children.\<close>

definition heap_but_down :: "nat \<Rightarrow> nat \<Rightarrow> ttl_heap \<Rightarrow> bool" where
  "heap_but_down n i h \<longleftrightarrow>
     (\<forall>k. 0 < k \<and> k < n \<and> parent k \<noteq> i \<longrightarrow> ttl_at h (parent k) \<le> ttl_at h k) \<and>
     (\<forall>k. 0 < k \<and> k < n \<and> parent k = i \<and> 0 < i \<longrightarrow> ttl_at h (parent i) \<le> ttl_at h k)"

text \<open>Any violation around position \<open>i\<close>: the entry there was replaced.\<close>

definition heap_but_at :: "nat \<Rightarrow> nat \<Rightarrow> ttl_heap \<Rightarrow> bool" where
  "heap_but_at n i h \<longleftrightarrow>
     (\<forall>k. 0 < k \<and> k < n \<and> k \<noteq> i \<and> parent k \<noteq> i \<longrightarrow> ttl_at h (parent k) \<le> ttl_at h k) \<and>
     (\<forall>k. 0 < k \<and> k < n \<and> parent k = i \<and> 0 < i \<longrightarrow> ttl_at h (parent i) \<le> ttl_at h k)"

lemma parent_less: "0 < k \<Longrightarrow> parent k < k"
  by (auto simp: parent_def)

lemma parent_child: "parent k = i \<Longrightarrow> 0 < k \<Longrightarrow> k = 2 * i + 1 \<or> k = 2 * i + 2"
  unfolding parent_def by presburger

lemma parent_of_child [simp]: "parent (2 * i + 1) = i" "parent (2 * i + 2) = i"
  "parent (Suc (2 * i)) = i" "parent (Suc (Suc (2 * i))) = i"
  by (simp_all add: parent_def)

lemma heap_up_spec:
  assumes "heap_but_up n j h" "j < n" "n \<le> length h"
  shows "heap_on n (heap_up j h) \<and> length (heap_up j h) = length h \<and>
    content (heap_up j h) = content h \<and> (indexed h \<longrightarrow> indexed (heap_up j h)) \<and>
    (\<forall>k. n \<le> k \<longrightarrow> heap_up j h ! k = h ! k)"
  using assms
proof (induction j h rule: heap_up.induct)
  case (1 j h)
  let ?i = "parent j"
  show ?case
  proof (cases "j = 0 \<or> \<not> heap_Less h j ?i")
    case True
    then have "heap_up j h = h"
      by (subst heap_up.simps) (auto simp: Let_def parent_def)
    moreover have "heap_on n h"
      using True "1.prems"(1) by (auto simp: heap_on_def heap_but_up_def heap_Less_def not_less)
    ultimately show ?thesis by simp
  next
    case False
    let ?h = "heap_Swap ?i j h"
    have ij: "?i < j" "j < length h" "?i < length h" using False "1.prems" parent_less [of j] by auto
    have less: "ttl_at h j < ttl_at h ?i" using False by (simp add: heap_Less_def)
    have run: "heap_up j h = heap_up ?i ?h"
      using False by (subst heap_up.simps) (simp add: Let_def parent_def)
    note sw = ttl_Swap [OF ij(3,2)]
    have "heap_but_up n ?i ?h"
      unfolding heap_but_up_def
    proof (intro conjI allI impI)
      fix k assume k: "0 < k \<and> k < n \<and> k \<noteq> ?i"
      show "ttl_at ?h (parent k) \<le> ttl_at ?h k"
      proof (cases "k = j")
        case True
        then show ?thesis using less ij by (simp add: sw)
      next
        case kj: False
        then have ok: "ttl_at h (parent k) \<le> ttl_at h k"
          using k "1.prems"(1) by (auto simp: heap_but_up_def)
        show ?thesis
        proof (cases "parent k = j")
          case True
          then have "ttl_at h ?i \<le> ttl_at h k"
            using "1.prems"(1) k False by (auto simp: heap_but_up_def)
          then show ?thesis using True k kj ij by (simp add: sw)
        next
          case False
          then show ?thesis using ok less k kj by (auto simp: sw)
        qed
      qed
    next
      fix k assume k: "0 < k \<and> k < n \<and> parent k = ?i \<and> 0 < ?i"
      have top: "ttl_at h (parent ?i) \<le> ttl_at h ?i"
        using "1.prems" k ij by (auto simp: heap_but_up_def)
      have "k \<noteq> ?i" "parent ?i \<noteq> j" "parent ?i \<noteq> ?i"
        using k parent_less [of k] parent_less [of ?i] ij by auto
      moreover have "k \<noteq> j \<Longrightarrow> ttl_at h ?i \<le> ttl_at h k"
        using "1.prems"(1) k unfolding heap_but_up_def by metis
      ultimately show "ttl_at ?h (parent ?i) \<le> ttl_at ?h k"
        using top by (auto simp: sw)
    qed
    then have IH: "heap_on n (heap_up ?i ?h) \<and> length (heap_up ?i ?h) = length ?h \<and>
        content (heap_up ?i ?h) = content ?h \<and> (indexed ?h \<longrightarrow> indexed (heap_up ?i ?h)) \<and>
        (\<forall>k. n \<le> k \<longrightarrow> heap_up ?i ?h ! k = ?h ! k)"
      using "1.IH" [of "parent j"] False "1.prems"(2,3) ij by (simp add: parent_def)
    moreover have "n \<le> k \<Longrightarrow> ?h ! k = h ! k" for k
      using ij "1.prems"(2) by (intro nth_Swap_other) auto
    ultimately show ?thesis
      using content_Swap [OF ij(3,2)] indexed_Swap [OF _ ij(3,2)] by (simp add: run)
  qed
qed

text \<open>The smaller child that \<open>down\<close> looks at.\<close>

definition small_child :: "nat \<Rightarrow> nat \<Rightarrow> ttl_heap \<Rightarrow> nat" where
  "small_child i n h =
     (if 2 * i + 2 < n \<and> heap_Less h (2 * i + 2) (2 * i + 1) then 2 * i + 2 else 2 * i + 1)"

lemma small_child_props:
  assumes "2 * i + 1 < n"
  shows "small_child i n h < n" "i < small_child i n h" "parent (small_child i n h) = i"
    "k < n \<Longrightarrow> 0 < k \<Longrightarrow> parent k = i \<Longrightarrow> ttl_at h (small_child i n h) \<le> ttl_at h k"
  using assms parent_child [of k i]
  by (auto simp: small_child_def heap_Less_def not_less)

lemma heap_down_step:
  "heap_down i n h =
     (if n \<le> 2 * i + 1 \<or> \<not> heap_Less h (small_child i n h) i then (i, h)
      else heap_down (small_child i n h) n (heap_Swap i (small_child i n h) h))"
  by (subst heap_down.simps) (simp add: Let_def small_child_def)

text \<open>One step down moves the violation to the child.\<close>

lemma heap_down_moves:
  assumes "heap_but_at n i h" "2 * i + 1 < n" "n \<le> length h" "heap_Less h (small_child i n h) i"
  shows "heap_but_down n (small_child i n h) (heap_Swap i (small_child i n h) h)"
proof -
  let ?j = "small_child i n h"
  let ?h = "heap_Swap i ?j h"
  note sc = small_child_props [OF assms(2), where h = h]
  have ij: "i < length h" "?j < length h" using sc(1,2) assms(3) by auto
  note sw = ttl_Swap [OF ij]
  have less: "ttl_at h ?j < ttl_at h i" using assms(4) by (simp add: heap_Less_def)
  show ?thesis
    unfolding heap_but_down_def
  proof (intro conjI allI impI)
    fix k assume k: "0 < k \<and> k < n \<and> parent k \<noteq> ?j"
    consider "parent k = i" | "k = i" | "parent k \<noteq> i" "k \<noteq> i" by blast
    then show "ttl_at ?h (parent k) \<le> ttl_at ?h k"
    proof cases
      case 1
      then have "k \<noteq> i" using k parent_less [of k] by auto
      then show ?thesis using 1 sc(4) [of k] k less sc(2) by (auto simp: sw)
    next
      case 2
      then have "ttl_at h (parent i) \<le> ttl_at h ?j"
        using assms(1) k sc(1-3) by (auto simp: heap_but_at_def)
      moreover have "parent i \<noteq> i" "parent i \<noteq> ?j" using 2 k parent_less [of i] sc(2) by auto
      ultimately show ?thesis using 2 by (simp add: sw)
    next
      case 3
      moreover have "k \<noteq> ?j" using 3 sc(3) by auto
      moreover have "ttl_at h (parent k) \<le> ttl_at h k"
        using 3 k assms(1) by (auto simp: heap_but_at_def)
      ultimately show ?thesis using k by (simp add: sw)
    qed
  next
    fix k assume k: "0 < k \<and> k < n \<and> parent k = ?j \<and> 0 < ?j"
    have "k \<noteq> i" "k \<noteq> ?j" "?j \<noteq> i" using k parent_less [of k] sc(2) by auto
    moreover have "ttl_at h ?j \<le> ttl_at h k"
      using assms(1) k \<open>k \<noteq> i\<close> \<open>?j \<noteq> i\<close> by (auto simp: heap_but_at_def)
    ultimately show "ttl_at ?h (parent ?j) \<le> ttl_at ?h k" by (simp add: sw sc(3))
  qed
qed

lemma heap_down_stops:
  assumes "n \<le> 2 * i + 1 \<or> \<not> heap_Less h (small_child i n h) i" "0 < k" "k < n" "parent k = i"
  shows "ttl_at h i \<le> ttl_at h k"
proof -
  have n: "2 * i + 1 < n" using parent_child [OF assms(4,2)] assms(3) by auto
  then have "ttl_at h i \<le> ttl_at h (small_child i n h)"
    using assms(1) by (auto simp: heap_Less_def)
  then show ?thesis using small_child_props(4) [OF n assms(3,2,4), where h = h] by simp
qed

lemma heap_but_down_at: "heap_but_down n i h \<Longrightarrow> heap_but_at n i h"
  by (auto simp: heap_but_down_def heap_but_at_def)

text \<open>What a call of \<open>down\<close> keeps.\<close>

definition down_keeps :: "nat \<Rightarrow> ttl_heap \<Rightarrow> ttl_heap \<Rightarrow> bool" where
  "down_keeps n h h' \<longleftrightarrow> length h' = length h \<and> content h' = content h \<and>
     (indexed h \<longrightarrow> indexed h') \<and> (\<forall>k. n \<le> k \<longrightarrow> h' ! k = h ! k)"

lemma down_keeps_swap:
  assumes "i < n" "j < n" "n \<le> length h" "down_keeps n (heap_Swap i j h) h'"
  shows "down_keeps n h h'"
proof -
  have "i < length h" "j < length h" using assms by auto
  then show ?thesis
    using assms content_Swap [of i h j] indexed_Swap [of h i j] nth_Swap_other [of _ i j h]
    by (auto simp: down_keeps_def)
qed

lemma heap_down_spec:
  assumes "heap_but_down n i h" "n \<le> length h" "heap_down i n h = (i', h')"
  shows "heap_on n h' \<and> down_keeps n h h' \<and> i \<le> i'"
  using assms
proof (induction "n - i" arbitrary: i h rule: less_induct)
  case less
  let ?j = "small_child i n h"
  show ?case
  proof (cases "n \<le> 2 * i + 1 \<or> \<not> heap_Less h ?j i")
    case True
    then have "h' = h" "i' = i" using less.prems(3) by (auto simp: heap_down_step [of i n h])
    moreover have "heap_on n h"
      using heap_down_stops [OF True] less.prems(1) unfolding heap_on_def heap_but_down_def by metis
    ultimately show ?thesis by (simp add: down_keeps_def)
  next
    case False
    then have n: "2 * i + 1 < n" by simp
    note sc = small_child_props [OF n, where h = h]
    have run: "heap_down ?j n (heap_Swap i ?j h) = (i', h')"
      using less.prems(3) False by (simp add: heap_down_step [of i n h])
    have down: "heap_but_down n ?j (heap_Swap i ?j h)"
      using heap_down_moves [OF heap_but_down_at [OF less.prems(1)] n less.prems(2)] False by simp
    have "heap_on n h' \<and> down_keeps n (heap_Swap i ?j h) h' \<and> ?j \<le> i'"
      using less.hyps [OF _ down _ run] sc(1,2) less.prems(2) by simp
    then show ?thesis
      using down_keeps_swap [OF _ sc(1) less.prems(2), of i h'] sc(1,2) by auto
  qed
qed

text \<open>\<open>down\<close> after an arbitrary change at \<open>i\<close>: either it repairs the heap, or it leaves the
  array alone and only the parent of \<open>i\<close> can be violated.\<close>

lemma heap_down_at:
  assumes "heap_but_at n i h" "n \<le> length h" "i < n" "heap_down i n h = (i', h')"
  shows "if i' > i then heap_on n h' \<and> down_keeps n h h'
    else h' = h \<and> heap_but_up n i h"
proof (cases "n \<le> 2 * i + 1 \<or> \<not> heap_Less h (small_child i n h) i")
  case True
  then have eq: "h' = h" "i' = i" using assms(4) by (auto simp: heap_down_step [of i n h])
  moreover have "heap_but_up n i h"
    using heap_down_stops [OF True] assms(1) unfolding heap_but_up_def heap_but_at_def by metis
  ultimately show ?thesis by simp
next
  case False
  let ?j = "small_child i n h"
  have n: "2 * i + 1 < n" using False by simp
  note sc = small_child_props [OF n, where h = h]
  have run: "heap_down ?j n (heap_Swap i ?j h) = (i', h')"
    using assms(4) False by (simp add: heap_down_step [of i n h])
  have "heap_but_down n ?j (heap_Swap i ?j h)"
    using heap_down_moves [OF assms(1) n assms(2)] False by simp
  from heap_down_spec [OF this _ run] assms(2)
  have "heap_on n h' \<and> down_keeps n (heap_Swap i ?j h) h' \<and> ?j \<le> i'" by simp
  then show ?thesis
    using down_keeps_swap [OF assms(3) sc(1) assms(2)] sc(2) by auto
qed

section \<open>The operations keep the heap\<close>

definition heap_inv :: "ttl_heap \<Rightarrow> bool" where
  "heap_inv h \<longleftrightarrow> is_heap h \<and> indexed h"

lemma heap_inv_empty: "heap_inv []"
  by (simp add: heap_inv_def is_heap_def heap_on_def indexed_def)

lemma heap_min:
  assumes "heap_on n h"
  shows "k < n \<Longrightarrow> ttl_at h 0 \<le> ttl_at h k"
proof (induction k rule: less_induct)
  case (less k)
  show ?case
  proof (cases "k = 0")
    case False
    then have "ttl_at h (parent k) \<le> ttl_at h k" "parent k < k"
      using assms less.prems parent_less by (auto simp: heap_on_def)
    with less.IH [of "parent k"] less.prems show ?thesis by simp
  qed simp
qed

lemma push_spec:
  assumes "heap_inv h"
  shows "heap_inv (push x h)" "content (push x h) = add_mset (te_key x, te_ttl x) (content h)"
    "length (push x h) = Suc (length h)"
proof -
  let ?h = "heap_Push x h" and ?n = "length h"
  have old: "k < ?n \<Longrightarrow> ?h ! k = h ! k" for k by (simp add: heap_Push_def nth_append)
  have "heap_but_up (Suc ?n) ?n ?h"
    unfolding heap_but_up_def
  proof (intro conjI allI impI)
    fix k assume k: "0 < k \<and> k < Suc ?n \<and> k \<noteq> ?n"
    then have "k < ?n" "parent k < ?n" using parent_less [of k] by auto
    then show "ttl_at ?h (parent k) \<le> ttl_at ?h k"
      using assms k by (simp add: old heap_inv_def is_heap_def heap_on_def)
  next
    fix k assume "0 < k \<and> k < Suc ?n \<and> parent k = ?n \<and> 0 < ?n"
    then show "ttl_at ?h (parent ?n) \<le> ttl_at ?h k" using parent_less [of k] by auto
  qed
  moreover have "indexed ?h" using assms by (auto simp: indexed_def heap_inv_def heap_Push_def nth_append)
  moreover have "content ?h = add_mset (te_key x, te_ttl x) (content h)"
    by (simp add: content_def heap_Push_def)
  moreover have "length ?h = Suc ?n" by (simp add: heap_Push_def)
  ultimately show "heap_inv (push x h)" "content (push x h) = add_mset (te_key x, te_ttl x) (content h)"
      "length (push x h) = Suc (length h)"
    using heap_up_spec [of "Suc ?n" ?n ?h] by (simp_all add: push_def heap_inv_def is_heap_def)
qed

lemma heap_on_butlast: "heap_on (length h - 1) h \<Longrightarrow> is_heap (butlast h)"
proof -
  assume "heap_on (length h - 1) h"
  moreover have "butlast h ! k = h ! k" if "k < length h - 1" for k
    using that by (simp add: nth_butlast)
  ultimately show ?thesis
    using parent_less by (auto simp: is_heap_def heap_on_def) (metis Suc_diff_1 less_trans)
qed

lemma indexed_butlast: "indexed h \<Longrightarrow> indexed (butlast h)"
  by (auto simp: indexed_def nth_butlast)

lemma content_last: "h \<noteq> [] \<Longrightarrow> content h = add_mset (te_key (last h), te_ttl (last h)) (content (butlast h))"
  by (cases h rule: rev_cases) (simp_all add: content_def)

lemma pop_spec:
  assumes inv: "heap_inv h" and ne: "h \<noteq> []"
  shows "heap_inv (snd (pop h))"
    "content h = add_mset (te_key (fst (pop h)), te_ttl (fst (pop h))) (content (snd (pop h)))"
    "te_key (fst (pop h)) = te_key (hd h)" "te_ttl (fst (pop h)) = te_ttl (hd h)"
    "\<forall>e \<in> set h. te_ttl (fst (pop h)) \<le> te_ttl e"
proof -
  let ?n = "length h - 1"
  let ?h = "heap_Swap 0 ?n h"
  obtain i' h' where run: "heap_down 0 ?n ?h = (i', h')" by (cases "heap_down 0 ?n ?h")
  have lens: "0 < length h" "?n < length h" using ne by auto
  have "heap_but_down ?n 0 ?h"
    unfolding heap_but_down_def
  proof (intro conjI allI impI)
    fix k assume k: "0 < k \<and> k < ?n \<and> parent k \<noteq> 0"
    then have "parent k \<noteq> ?n" "k \<noteq> ?n" "k < length h" using parent_less [of k] by auto
    then show "ttl_at ?h (parent k) \<le> ttl_at ?h k"
      using k inv unfolding ttl_Swap [OF lens] by (auto simp: heap_inv_def is_heap_def heap_on_def)
  qed simp
  from heap_down_spec [OF this _ run] have h': "heap_on ?n h'" "down_keeps ?n ?h h'" by auto
  then have len: "length h' = length h" by (simp add: down_keeps_def)
  have ne': "h' \<noteq> []" using len ne by auto
  have "last h' = h' ! ?n" using ne' len by (simp add: last_conv_nth)
  also have "\<dots> = ?h ! ?n" using h'(2) by (simp add: down_keeps_def)
  also have "\<dots> = (h ! 0)\<lparr>te_index := int ?n\<rparr>"
    using lens by (simp add: heap_Swap_def nth_list_update)
  finally have last': "last h' = (hd h)\<lparr>te_index := int ?n\<rparr>" using ne by (simp add: hd_conv_nth)
  have pop: "pop h = ((last h')\<lparr>te_index := -1\<rparr>, butlast h')"
    unfolding pop_def Let_def run heap_Pop_def by simp
  show "te_key (fst (pop h)) = te_key (hd h)" "te_ttl (fst (pop h)) = te_ttl (hd h)"
    by (simp_all add: pop last')
  have "content h' = content h"
    using h'(2) content_Swap [OF lens] by (simp add: down_keeps_def)
  then show "content h = add_mset (te_key (fst (pop h)), te_ttl (fst (pop h))) (content (snd (pop h)))"
    using content_last [OF ne'] by (simp add: pop)
  have "indexed h'" using h'(2) inv indexed_Swap [OF _ lens] by (simp add: down_keeps_def heap_inv_def)
  then show "heap_inv (snd (pop h))"
    using heap_on_butlast [of h'] h'(1) len indexed_butlast by (simp add: pop heap_inv_def)
  show "\<forall>e \<in> set h. te_ttl (fst (pop h)) \<le> te_ttl e"
    using heap_min [of "length h" h] inv ne
    by (auto simp: pop last' heap_inv_def is_heap_def in_set_conv_nth hd_conv_nth)
qed

text \<open>\<open>Fix\<close> after the entry at \<open>i\<close> was changed.\<close>

lemma fix_at_spec:
  assumes "heap_but_at (length h) i h" "i < length h" "indexed h"
  shows "heap_inv (fix_at i h)" "content (fix_at i h) = content h" "length (fix_at i h) = length h"
proof -
  obtain i' h' where run: "heap_down i (length h) h = (i', h')" by (cases "heap_down i (length h) h")
  have "heap_inv (fix_at i h) \<and> content (fix_at i h) = content h \<and> length (fix_at i h) = length h"
  proof (cases "i' > i")
    case True
    then have "heap_on (length h) h'" "down_keeps (length h) h h'"
      using heap_down_at [OF assms(1) order_refl assms(2) run] by auto
    then show ?thesis
      using True assms(3) by (simp add: fix_at_def run heap_inv_def is_heap_def down_keeps_def)
  next
    case False
    then have "h' = h" "heap_but_up (length h) i h"
      using heap_down_at [OF assms(1) order_refl assms(2) run] by auto
    then show ?thesis
      using heap_up_spec [of "length h" i h] assms False
      by (simp add: fix_at_def run heap_inv_def is_heap_def)
  qed
  then show "heap_inv (fix_at i h)" "content (fix_at i h) = content h" "length (fix_at i h) = length h"
    by auto
qed

text \<open>Any new expiry time at \<open>i\<close> leaves a heap that \<open>Fix\<close> can repair.\<close>

lemma heap_but_at_update:
  assumes "is_heap h" "i < length h"
  shows "heap_but_at (length h) i (h[i := (h ! i)\<lparr>te_ttl := t\<rparr>])"
proof -
  have up: "ttl_at h (parent k) \<le> ttl_at h k" if "0 < k" "k < length h" for k
    using assms(1) that by (simp add: is_heap_def heap_on_def)
  show ?thesis
    unfolding heap_but_at_def
  proof (intro conjI allI impI)
    fix k assume "0 < k \<and> k < length h \<and> k \<noteq> i \<and> parent k \<noteq> i"
    then show "ttl_at (h[i := (h ! i)\<lparr>te_ttl := t\<rparr>]) (parent k) \<le> ttl_at (h[i := (h ! i)\<lparr>te_ttl := t\<rparr>]) k"
      using up [of k] by simp
  next
    fix k assume k: "0 < k \<and> k < length h \<and> parent k = i \<and> 0 < i"
    then have "k \<noteq> i" "parent i \<noteq> i" using parent_less [of k] parent_less [of i] by auto
    moreover have "ttl_at h (parent i) \<le> ttl_at h k"
      using up [of i] up [of k] k assms(2) by auto
    ultimately show "ttl_at (h[i := (h ! i)\<lparr>te_ttl := t\<rparr>]) (parent i) \<le> ttl_at (h[i := (h ! i)\<lparr>te_ttl := t\<rparr>]) k"
      by simp
  qed
qed

lemma remove_at_spec:
  assumes inv: "heap_inv h" and i: "i < length h"
  shows "\<exists>e h'. remove_at i h = Some (e, h') \<and> heap_inv h' \<and> te_key e = te_key (h ! i) \<and>
    te_ttl e = te_ttl (h ! i) \<and> content h = add_mset (te_key e, te_ttl e) (content h')"
proof (cases "i = length h - 1")
  case True
  have ne: "h \<noteq> []" using i by auto
  have "heap_on (length h - 1) h" using inv by (auto simp: heap_inv_def is_heap_def heap_on_def)
  then have "heap_inv (butlast h)"
    using inv heap_on_butlast indexed_butlast by (auto simp: heap_inv_def)
  moreover have "last h = h ! i" using True ne by (simp add: last_conv_nth)
  ultimately show ?thesis
    using True i content_last [OF ne] by (simp add: remove_at_def Let_def heap_Pop_def)
next
  case False
  let ?n = "length h - 1"
  let ?h = "heap_Swap i ?n h"
  have lens: "i < length h" "?n < length h" "i < ?n" using i False by auto
  obtain i' h2 where run: "heap_down i ?n ?h = (i', h2)" by (cases "heap_down i ?n ?h")
  have up: "ttl_at h (parent k) \<le> ttl_at h k" if "0 < k" "k < length h" for k
    using inv that by (simp add: heap_inv_def is_heap_def heap_on_def)
  have at: "heap_but_at ?n i ?h"
    unfolding heap_but_at_def
  proof (intro conjI allI impI)
    fix k assume k: "0 < k \<and> k < ?n \<and> k \<noteq> i \<and> parent k \<noteq> i"
    then have "parent k \<noteq> ?n" "k \<noteq> ?n" using parent_less [of k] by auto
    then show "ttl_at ?h (parent k) \<le> ttl_at ?h k"
      using k up [of k] unfolding ttl_Swap [OF lens(1,2)] by auto
  next
    fix k assume k: "0 < k \<and> k < ?n \<and> parent k = i \<and> 0 < i"
    then have "k \<noteq> i" "k \<noteq> ?n" "parent i \<noteq> i" "parent i \<noteq> ?n"
      using parent_less [of k] parent_less [of i] lens by auto
    moreover have "ttl_at h (parent i) \<le> ttl_at h k" using up [of i] up [of k] k lens by auto
    ultimately show "ttl_at ?h (parent i) \<le> ttl_at ?h k" unfolding ttl_Swap [OF lens(1,2)] by auto
  qed
  define h3 where "h3 = (if i' > i then h2 else heap_up i h2)"
  have h3: "heap_on ?n h3 \<and> down_keeps ?n ?h h3"
  proof (cases "i' > i")
    case True
    then show ?thesis using heap_down_at [OF at _ lens(3) run] by (simp add: h3_def)
  next
    case False
    then have "h2 = ?h" "heap_but_up ?n i ?h" using heap_down_at [OF at _ lens(3) run] by auto
    then show ?thesis
      using heap_up_spec [of ?n i ?h] lens False by (simp add: h3_def down_keeps_def)
  qed
  then have len: "length h3 = length h" by (simp add: down_keeps_def)
  have ne: "h3 \<noteq> []" using len i by auto
  have "last h3 = ?h ! ?n" using h3 ne len by (simp add: last_conv_nth down_keeps_def)
  then have last: "te_key (last h3) = te_key (h ! i)" "te_ttl (last h3) = te_ttl (h ! i)"
    using lens by (simp_all add: heap_Swap_def)
  have "content h3 = content h" using h3 content_Swap [OF lens(1,2)] by (simp add: down_keeps_def)
  moreover have "indexed h3"
    using h3 inv indexed_Swap [OF _ lens(1,2)] by (simp add: down_keeps_def heap_inv_def)
  then have "heap_inv (butlast h3)"
    using h3 len heap_on_butlast [of h3] indexed_butlast by (simp add: heap_inv_def)
  moreover have "remove_at i h = Some ((last h3)\<lparr>te_index := -1\<rparr>, butlast h3)"
    using False i unfolding remove_at_def Let_def run h3_def heap_Pop_def by simp
  ultimately show ?thesis
    using content_last [OF ne] last by simp
qed

end
