(* ===== verification/AMSLoader.thy ===== *)
theory AMSLoader
  imports ConfigLoader TtlHeap "HOL-Library.AList"
begin

text \<open>
  The config loader fed by the agent management service, \<open>internal/config/ams.go\<close>: the cache
  with its expiry heap, the messages received on the stream and the acknowledgements sent.
  Each method that changes the cache holds its mutex throughout, so it is one step. Opening
  the stream and its retries are gRPC calls and are left out; the messages of a stream are a
  list, each with whether the acknowledgement could be sent.
\<close>

section \<open>State\<close>

record cache_entry =
  ce_instance :: config_instance
  ce_ttlHeapIdx :: int

record ams_loader =
  al_subs :: subscriptions
  al_cache :: "(bytes \<times> cache_entry) list"
  al_ttlHeap :: ttl_heap
  al_lastSeqNum :: bytes
  al_closed :: bool

definition NewAMSLoader :: ams_loader where
  "NewAMSLoader = \<lparr>al_subs = no_subscriptions, al_cache = [], al_ttlHeap = [], al_lastSeqNum = '''',
     al_closed = False\<rparr>"

datatype ams_error =
  CouldNotParseVersion bytes | VersionLess bytes bytes | AmsParseFailed parse_error

section \<open>The expiry heap of the cache\<close>

definition set_heap_idx :: "bytes \<Rightarrow> int \<Rightarrow> ams_loader \<Rightarrow> ams_loader" where
  "set_heap_idx name idx l =
     (case map_of (al_cache l) name of
        None \<Rightarrow> l
      | Some e \<Rightarrow> l\<lparr>al_cache := AList.update name (e\<lparr>ce_ttlHeapIdx := idx\<rparr>) (al_cache l)\<rparr>)"

text \<open>The position of the entry that was pushed, which \<open>heap.Push\<close> leaves in its \<open>index\<close> field:
  it was appended at the end and \<open>up\<close> moved it along its ancestors.\<close>

function up_position :: "nat \<Rightarrow> ttl_heap \<Rightarrow> nat" where
  "up_position j h =
     (if j = 0 then 0
      else let i = (j - 1) div 2
           in if \<not> heap_Less h j i then j else up_position i (heap_Swap i j h))"
  by pat_completeness auto
termination
  by (relation "measure fst") auto

declare up_position.simps [simp del]

definition addCfgToTTLHeap :: "bytes \<Rightarrow> instant \<Rightarrow> ams_loader \<Rightarrow> ams_loader" where
  "addCfgToTTLHeap name ttl l =
     (let node = \<lparr>te_key = name, te_ttl = ttl, te_index = 0\<rparr>;
          idx = up_position (length (al_ttlHeap l)) (heap_Push node (al_ttlHeap l))
      in set_heap_idx name (int idx) (l\<lparr>al_ttlHeap := push node (al_ttlHeap l)\<rparr>))"

text \<open>An index past the end of the heap panics: \<open>None\<close>.\<close>

definition updateCfgInTTLHeap :: "bytes \<Rightarrow> instant \<Rightarrow> ams_loader \<Rightarrow> ams_loader option" where
  "updateCfgInTTLHeap name ttl l =
     (case map_of (al_cache l) name of
        None \<Rightarrow> Some l
      | Some e \<Rightarrow>
          if ce_ttlHeapIdx e \<ge> 0
          then (let i = nat (ce_ttlHeapIdx e); h = al_ttlHeap l
                in if i \<ge> length h then None
                   else Some (l\<lparr>al_ttlHeap := fix_at i (h[i := (h ! i)\<lparr>te_ttl := ttl\<rparr>])\<rparr>))
          else Some l)"

definition removeCfgFromTTLHeap :: "bytes \<Rightarrow> ams_loader \<Rightarrow> ams_loader option" where
  "removeCfgFromTTLHeap name l =
     (case map_of (al_cache l) name of
        None \<Rightarrow> Some l
      | Some e \<Rightarrow>
          if ce_ttlHeapIdx e \<ge> 0
          then (case remove_at (nat (ce_ttlHeapIdx e)) (al_ttlHeap l) of
                  None \<Rightarrow> None
                | Some (_, h) \<Rightarrow> Some (set_heap_idx name (-1) (l\<lparr>al_ttlHeap := h\<rparr>)))
          else Some l)"

section \<open>Processing a config\<close>

text \<open>The new instance enters the cache: the entry keeps its heap index if it exists.\<close>

definition cache_instance :: "bytes \<Rightarrow> config_instance \<Rightarrow> ams_loader \<Rightarrow> ams_loader" where
  "cache_instance k inst l =
     l\<lparr>al_cache := AList.update k
         (case map_of (al_cache l) k of
            Some e \<Rightarrow> e\<lparr>ce_instance := inst\<rparr>
          | None \<Rightarrow> \<lparr>ce_instance = inst, ce_ttlHeapIdx = -1\<rparr>) (al_cache l)\<rparr>"

definition processConfig :: "(bytes \<Rightarrow> host_stats_config option) \<Rightarrow> 'c registry \<Rightarrow> instant \<Rightarrow>
    config_object option \<Rightarrow> ams_loader \<Rightarrow> ((config_instance \<times> ams_error option) \<times> ams_loader) option" where
  "processConfig unmarshal reg now obj l =
     (case Parse unmarshal reg obj of (inst, parseErr) \<Rightarrow>
        let cacheKey = instance_key inst;
            configExists = map_of (al_cache l) cacheKey \<noteq> None;
            prevInstance = (case map_of (al_cache l) cacheKey of
              None \<Rightarrow> empty_instance | Some e \<Rightarrow> ce_instance e)
        in case CompareVersions (Version inst) (Version prevInstance) of
             Inl _ \<Rightarrow>
               Some ((inst\<lparr>Status := StatusInvalid\<rparr>, Some (CouldNotParseVersion (Version inst))), l)
           | Inr compVer \<Rightarrow>
               if compVer < 0
               then Some ((inst\<lparr>Status := StatusInvalid\<rparr>,
                           Some (VersionLess (Version inst) (Version prevInstance))), l)
               else if parseErr \<noteq> None \<and> Object prevInstance \<noteq> None
               then Some ((inst, map_option AmsParseFailed parseErr), l)
               else
                 let l1 = cache_instance cacheKey inst l;
                     ttlDuration = (case Option.bind obj cobj_ttl of None \<Rightarrow> 0 | Some d \<Rightarrow> d)
                 in map_option (\<lambda>l2. ((inst, map_option AmsParseFailed parseErr), l2))
                      (if ttlDuration \<le> 0
                       then (if configExists then removeCfgFromTTLHeap cacheKey l1 else Some l1)
                       else if \<not> configExists
                       then Some (addCfgToTTLHeap cacheKey (now + ttlDuration) l1)
                       else updateCfgInTTLHeap cacheKey (now + ttlDuration) l1))"

section \<open>Expiry\<close>

text \<open>One tick of \<open>manageConfigLifecyle\<close>.\<close>

definition lifecycle_tick :: "instant \<Rightarrow> ams_loader \<Rightarrow> ams_loader" where
  "lifecycle_tick now l =
     (if length (al_ttlHeap l) = 0 then l
      else if \<not> now > te_ttl (al_ttlHeap l ! 0) then l
      else (case pop (al_ttlHeap l) of
              (node, h) \<Rightarrow>
                (let l1 = l\<lparr>al_ttlHeap := h\<rparr>
                 in case map_of (al_cache l1) (te_key node) of
                      None \<Rightarrow> l1
                    | Some e \<Rightarrow>
                        l1\<lparr>al_cache := AList.delete (te_key node) (al_cache l1),
                           al_subs := subs_send [(ce_instance e)\<lparr>Expired := True\<rparr>] (al_subs l1)\<rparr>)))"

section \<open>The stream\<close>

text \<open>The error of a config as it is reported: the reference of the config and the error,
  whose text is the reason.\<close>

record config_error =
  cfe_type :: "type_descriptor option"
  cfe_name :: bytes
  cfe_reason :: ams_error

datatype request_type = REQUEST_INITIAL | REQUEST_ACK | REQUEST_NACK

record watch_request =
  rq_type :: request_type
  rq_seq_num :: bytes
  rq_initial :: "config_object list"
  rq_error :: "(ams_error \<times> bytes list) option"

record watch_response =
  rs_seq_num :: bytes
  rs_configs :: "config_object list"

definition instanceToPbObject :: "(host_stats_config \<Rightarrow> bytes option) \<Rightarrow> config_instance \<Rightarrow>
    config_object option" where
  "instanceToPbObject marshal inst =
     (case Object inst of
        None \<Rightarrow> None
      | Some msg \<Rightarrow>
          (case marshal msg of
             None \<Rightarrow> None
           | Some data \<Rightarrow>
               Some \<lparr>cobj_type = Some \<lparr>td_kind = '''', td_type = TypeUrl inst\<rparr>, cobj_name = Name inst,
                     cobj_version = Version inst, cobj_data = Some data, cobj_ttl = None\<rparr>))"

definition sendInitialRequest :: "(host_stats_config \<Rightarrow> bytes option) \<Rightarrow>
    ((bytes \<times> cache_entry) list \<Rightarrow> (bytes \<times> cache_entry) list) \<Rightarrow> ams_loader \<Rightarrow> watch_request" where
  "sendInitialRequest marshal arrange l =
     \<lparr>rq_type = REQUEST_INITIAL, rq_seq_num = '''',
      rq_initial = concat (map (\<lambda>(k, e).
         case instanceToPbObject marshal (ce_instance e) of
           Some obj \<Rightarrow> (if Status (ce_instance e) = StatusOK then [obj] else [])
         | None \<Rightarrow> []) (arrange (al_cache l))),
      rq_error = None\<rparr>"

text \<open>\<open>ack\<close>; a detail that cannot be marshalled is left out.\<close>

definition ack :: "(config_error \<Rightarrow> bytes option) \<Rightarrow> bytes \<Rightarrow> config_error list \<Rightarrow> watch_request" where
  "ack any_new lastSeqNum errorDetails =
     (case errorDetails of
        e # _ \<Rightarrow>
          \<lparr>rq_type = REQUEST_NACK, rq_seq_num = lastSeqNum, rq_initial = [],
           rq_error = Some (cfe_reason e, List.map_filter any_new errorDetails)\<rparr>
      | [] \<Rightarrow>
          \<lparr>rq_type = REQUEST_ACK, rq_seq_num = lastSeqNum, rq_initial = [], rq_error = None\<rparr>)"

text \<open>The loop over the configs of a response; the error message is that of the first error.\<close>

fun process_configs :: "(bytes \<Rightarrow> host_stats_config option) \<Rightarrow> 'c registry \<Rightarrow> instant \<Rightarrow>
    config_object list \<Rightarrow> ams_loader \<Rightarrow> (config_error list \<times> ams_loader) option" where
  "process_configs unmarshal reg now [] l = Some ([], l)"
| "process_configs unmarshal reg now (config # configs) l =
     (case processConfig unmarshal reg now (Some config) l of
        None \<Rightarrow> None
      | Some ((inst, err), l1) \<Rightarrow>
          (case process_configs unmarshal reg now configs
                  (l1\<lparr>al_subs := subs_send [inst] (al_subs l1)\<rparr>) of
             None \<Rightarrow> None
           | Some (errs, l2) \<Rightarrow>
               Some ((case err of
                  None \<Rightarrow> errs
                | Some e \<Rightarrow>
                    \<lparr>cfe_type = cobj_type config, cfe_name = cobj_name config, cfe_reason = e\<rparr> # errs), l2)))"

definition recv_message :: "(bytes \<Rightarrow> host_stats_config option) \<Rightarrow> (config_error \<Rightarrow> bytes option) \<Rightarrow>
    'c registry \<Rightarrow> instant \<Rightarrow> watch_response \<Rightarrow> ams_loader \<Rightarrow> (watch_request \<times> ams_loader) option" where
  "recv_message unmarshal any_new reg now resp l =
     (case process_configs unmarshal reg now (rs_configs resp) (l\<lparr>al_lastSeqNum := rs_seq_num resp\<rparr>) of
        None \<Rightarrow> None
      | Some (errs, l') \<Rightarrow> Some (ack any_new (al_lastSeqNum l') errs, l'))"

text \<open>\<open>recvMessages\<close>: the responses until the stream ends, with the time at which each is
  received and whether its acknowledgement can be sent. It returns the requests sent.\<close>

fun recvMessages :: "(bytes \<Rightarrow> host_stats_config option) \<Rightarrow> (config_error \<Rightarrow> bytes option) \<Rightarrow>
    'c registry \<Rightarrow> (instant \<times> watch_response \<times> bool) list \<Rightarrow> ams_loader \<Rightarrow>
    (watch_request list \<times> ams_loader) option" where
  "recvMessages unmarshal any_new reg [] l = Some ([], l)"
| "recvMessages unmarshal any_new reg ((now, resp, sent) # stream) l =
     (case recv_message unmarshal any_new reg now resp l of
        None \<Rightarrow> None
      | Some (rq, l1) \<Rightarrow>
          if sent
          then map_option (\<lambda>(rqs, l2). (rq # rqs, l2)) (recvMessages unmarshal any_new reg stream l1)
          else Some ([], l1))"

section \<open>Reading, watching, closing\<close>

definition ams_ListConfigs :: "((bytes \<times> cache_entry) list \<Rightarrow> (bytes \<times> cache_entry) list) \<Rightarrow> filters \<Rightarrow>
    ams_loader \<Rightarrow> bytes \<Rightarrow> config_instance list" where
  "ams_ListConfigs arrange f l = list_by_type f (map (\<lambda>(k, e). ce_instance e) (arrange (al_cache l)))"

definition ams_GetConfig :: "bytes \<Rightarrow> bytes \<Rightarrow> ams_loader \<Rightarrow> config_instance option" where
  "ams_GetConfig configType name l =
     map_option ce_instance (map_of (al_cache l) (getCacheKey configType name))"

definition ams_Watch :: "filters \<Rightarrow> ams_loader \<Rightarrow> nat option \<times> ams_loader" where
  "ams_Watch f l = (case subs_add f (al_subs l) of (ch, s) \<Rightarrow> (ch, l\<lparr>al_subs := s\<rparr>))"

definition ams_Watch_initial :: "((bytes \<times> cache_entry) list \<Rightarrow> (bytes \<times> cache_entry) list) \<Rightarrow>
    bytes list \<Rightarrow> filters \<Rightarrow> nat \<Rightarrow> ams_loader \<Rightarrow> ams_loader" where
  "ams_Watch_initial arrange types f ch l =
     l\<lparr>al_subs := fold (subs_push ch) (concat (map (ams_ListConfigs arrange f l) types)) (al_subs l)\<rparr>"

definition ams_Close :: "ams_loader \<Rightarrow> ams_loader" where
  "ams_Close l =
     (if al_closed l then l else l\<lparr>al_closed := True, al_subs := subs_close (al_subs l)\<rparr>)"

section \<open>The heap stays a heap\<close>

definition ams_lookup :: "ams_loader \<Rightarrow> bytes \<Rightarrow> config_instance option" where
  "ams_lookup l k = map_option ce_instance (map_of (al_cache l) k)"

definition ams_inv :: "ams_loader \<Rightarrow> bool" where
  "ams_inv l \<longleftrightarrow> heap_inv (al_ttlHeap l) \<and> distinct (map fst (al_cache l)) \<and>
     (\<forall>k i. ams_lookup l k = Some i \<longrightarrow> instance_key i = k)"

lemma ams_inv_new: "ams_inv NewAMSLoader"
  by (simp add: ams_inv_def NewAMSLoader_def heap_inv_empty ams_lookup_def)

lemma ams_lookup_heap [simp]: "ams_lookup (l\<lparr>al_ttlHeap := h\<rparr>) k = ams_lookup l k"
  "ams_lookup (l\<lparr>al_subs := s\<rparr>) k = ams_lookup l k"
  by (simp_all add: ams_lookup_def)

text \<open>\<open>up_position\<close> is where the pushed entry ends, and the \<open>index\<close> field says so.\<close>

lemma up_position_less: "j < length h \<Longrightarrow> up_position j h < length h"
proof (induction j h rule: up_position.induct)
  case (1 j h)
  then show ?case
    by (subst up_position.simps) (auto simp: Let_def)
qed

lemma heap_up_follows:
  "j < length h \<Longrightarrow> te_key (heap_up j h ! up_position j h) = te_key (h ! j) \<and>
     te_ttl (heap_up j h ! up_position j h) = te_ttl (h ! j)"
proof (induction j h rule: up_position.induct)
  case (1 j h)
  let ?i = "(j - 1) div 2"
  show ?case
  proof (cases "j = 0 \<or> \<not> heap_Less h j ?i")
    case True
    then show ?thesis
      by (auto simp: up_position.simps [of j h] heap_up.simps [of j h] Let_def)
  next
    case False
    then have "?i < j" "?i < length h" using "1.prems" by auto
    then have "te_key (heap_Swap ?i j h ! ?i) = te_key (h ! j)" "te_ttl (heap_Swap ?i j h ! ?i) = te_ttl (h ! j)"
      using "1.prems" by (simp_all add: heap_Swap_def)
    moreover have "te_key (heap_up ?i (heap_Swap ?i j h) ! up_position ?i (heap_Swap ?i j h)) =
        te_key (heap_Swap ?i j h ! ?i) \<and>
        te_ttl (heap_up ?i (heap_Swap ?i j h) ! up_position ?i (heap_Swap ?i j h)) =
        te_ttl (heap_Swap ?i j h ! ?i)"
      using "1.IH" [OF _ refl] False \<open>?i < length h\<close> by simp
    ultimately show ?thesis
      using False by (simp add: up_position.simps [of j h] heap_up.simps [of j h] Let_def)
  qed
qed

lemma push_index:
  fixes x :: ttl_entry and h :: ttl_heap
  defines "p \<equiv> up_position (length h) (heap_Push x h)"
  assumes "heap_inv h"
  shows "p < length (push x h)" "te_key (push x h ! p) = te_key x" "te_ttl (push x h ! p) = te_ttl x"
    "te_index (push x h ! p) = int p"
proof -
  have j: "length h < length (heap_Push x h)" by (simp add: heap_Push_def)
  show len: "p < length (push x h)"
    using up_position_less [OF j] push_spec(3) [OF assms(2), of x] by (simp add: p_def heap_Push_def)
  show "te_key (push x h ! p) = te_key x" "te_ttl (push x h ! p) = te_ttl x"
    using heap_up_follows [OF j] by (simp_all add: p_def push_def heap_Push_def)
  show "te_index (push x h ! p) = int p"
    using push_spec(1) [OF assms(2), of x] len by (simp add: heap_inv_def indexed_def)
qed

lemma set_heap_idx_simps [simp]:
  "al_ttlHeap (set_heap_idx k i l) = al_ttlHeap l" "al_subs (set_heap_idx k i l) = al_subs l"
  "ams_lookup (set_heap_idx k i l) k' = ams_lookup l k'"
  by (auto simp: set_heap_idx_def ams_lookup_def update_conv' split: option.splits)

lemma set_heap_idx_inv: "ams_inv l \<Longrightarrow> ams_inv (set_heap_idx k i l)"
proof -
  assume "ams_inv l"
  moreover have "distinct (map fst (al_cache l)) \<Longrightarrow> distinct (map fst (al_cache (set_heap_idx k i l)))"
    by (simp add: set_heap_idx_def distinct_update split: option.splits)
  ultimately show ?thesis by (simp add: ams_inv_def)
qed

lemma cache_instance_simps [simp]:
  "al_ttlHeap (cache_instance k inst l) = al_ttlHeap l" "al_subs (cache_instance k inst l) = al_subs l"
  "ams_lookup (cache_instance k inst l) k' = (if k' = k then Some inst else ams_lookup l k')"
  by (auto simp: cache_instance_def ams_lookup_def update_conv' split: option.splits)

lemma cache_instance_inv: "ams_inv l \<Longrightarrow> ams_inv (cache_instance (instance_key inst) inst l)"
proof -
  assume "ams_inv l"
  moreover have "distinct (map fst (al_cache l)) \<Longrightarrow> distinct (map fst (al_cache (cache_instance k inst l)))" for k
    by (simp add: cache_instance_def distinct_update)
  ultimately show ?thesis by (simp add: ams_inv_def)
qed

lemma ams_inv_heap: "ams_inv l \<Longrightarrow> heap_inv h \<Longrightarrow> ams_inv (l\<lparr>al_ttlHeap := h\<rparr>)"
  by (simp add: ams_inv_def)

lemma addCfgToTTLHeap_inv: "ams_inv l \<Longrightarrow> ams_inv (addCfgToTTLHeap k t l)"
  unfolding addCfgToTTLHeap_def Let_def
  by (intro set_heap_idx_inv ams_inv_heap push_spec(1)) (simp_all add: ams_inv_def)

lemma indexed_update: "indexed h \<Longrightarrow> indexed (h[i := (h ! i)\<lparr>te_ttl := t\<rparr>])"
  by (cases "i < length h") (auto simp: indexed_def nth_list_update)

lemma updateCfgInTTLHeap_inv:
  assumes inv: "ams_inv l" and run: "updateCfgInTTLHeap k t l = Some l'"
  shows "ams_inv l'"
proof -
  have "heap_inv (fix_at i ((al_ttlHeap l)[i := (al_ttlHeap l ! i)\<lparr>te_ttl := t\<rparr>]))"
    if "i < length (al_ttlHeap l)" for i
    using that inv fix_at_spec(1) [of "(al_ttlHeap l)[i := (al_ttlHeap l ! i)\<lparr>te_ttl := t\<rparr>]" i]
      heap_but_at_update [of "al_ttlHeap l" i t] indexed_update [of "al_ttlHeap l" i t]
    by (simp add: ams_inv_def heap_inv_def)
  then show ?thesis
    using run inv by (auto simp: updateCfgInTTLHeap_def Let_def ams_inv_heap split: option.splits if_splits)
qed

lemma removeCfgFromTTLHeap_inv:
  assumes inv: "ams_inv l" and run: "removeCfgFromTTLHeap k l = Some l'"
  shows "ams_inv l'"
proof -
  have "heap_inv h" if "remove_at i (al_ttlHeap l) = Some (e, h)" for i e h
    using that remove_at_spec [of "al_ttlHeap l" i] inv
    by (cases "i < length (al_ttlHeap l)") (auto simp: ams_inv_def remove_at_def Let_def)
  then show ?thesis
    using run inv
    by (auto simp: removeCfgFromTTLHeap_def ams_inv_heap set_heap_idx_inv split: option.splits if_splits prod.splits)
qed

lemma processConfig_inv:
  assumes inv: "ams_inv l" and run: "processConfig unmarshal reg now obj l = Some (r, l')"
  shows "ams_inv l'"
proof -
  obtain inst parseErr where p: "Parse unmarshal reg obj = (inst, parseErr)"
    by (cases "Parse unmarshal reg obj")
  let ?l1 = "cache_instance (instance_key inst) inst l"
  have l1: "ams_inv ?l1" by (rule cache_instance_inv [OF inv])
  from run have "l' = l \<or> l' = ?l1 \<or> (\<exists>t. l' = addCfgToTTLHeap (instance_key inst) t ?l1) \<or>
      (\<exists>t. updateCfgInTTLHeap (instance_key inst) t ?l1 = Some l') \<or>
      removeCfgFromTTLHeap (instance_key inst) ?l1 = Some l'"
    unfolding processConfig_def p Let_def by (auto split: sum.splits if_splits)
  then show ?thesis
    using inv l1 addCfgToTTLHeap_inv updateCfgInTTLHeap_inv removeCfgFromTTLHeap_inv by blast
qed

lemma lifecycle_tick_inv: "ams_inv l \<Longrightarrow> ams_inv (lifecycle_tick now l)"
proof -
  assume inv: "ams_inv l"
  have "heap_inv (snd (pop (al_ttlHeap l)))" if "al_ttlHeap l \<noteq> []"
    using pop_spec(1) [OF _ that] inv by (simp add: ams_inv_def)
  then have "ams_inv (l\<lparr>al_ttlHeap := snd (pop (al_ttlHeap l))\<rparr>)" if "al_ttlHeap l \<noteq> []"
    using ams_inv_heap [OF inv] that by simp
  moreover have "ams_inv (l\<lparr>al_ttlHeap := h, al_cache := AList.delete k (al_cache l), al_subs := s\<rparr>)"
    if "ams_inv (l\<lparr>al_ttlHeap := h\<rparr>)" for h k s
    using that by (auto simp: ams_inv_def ams_lookup_def distinct_delete delete_conv')
  ultimately show ?thesis
    using inv by (auto simp: lifecycle_tick_def Let_def split: option.splits prod.splits)
qed

section \<open>The loader keeps the contract\<close>

text \<open>One config of a response as a step of the contract: the body of the loop over them.\<close>

definition ams_process :: "(bytes \<Rightarrow> host_stats_config option) \<Rightarrow> 'c registry \<Rightarrow>
    instant \<times> config_object option \<Rightarrow> ams_loader \<Rightarrow> (delivery \<times> ams_loader) option" where
  "ams_process unmarshal reg x l =
     map_option (\<lambda>((inst, err), l').
         (\<lparr>dl_instance = inst, dl_accepted = (err = None)\<rparr>, l'\<lparr>al_subs := subs_send [inst] (al_subs l')\<rparr>))
       (processConfig unmarshal reg (fst x) (snd x) l)"

lemma ttl_heap_lookup [simp]:
  "ams_lookup (addCfgToTTLHeap k t l) k' = ams_lookup l k'"
  "updateCfgInTTLHeap k t l = Some l' \<Longrightarrow> ams_lookup l' k' = ams_lookup l k'"
  "removeCfgFromTTLHeap k l = Some l' \<Longrightarrow> ams_lookup l' k' = ams_lookup l k'"
  by (auto simp: addCfgToTTLHeap_def updateCfgInTTLHeap_def removeCfgFromTTLHeap_def Let_def
      split: option.splits if_splits prod.splits)

text \<open>What \<open>processConfig\<close> does to the cache, whatever happens to the heap.\<close>

lemma processConfig_cases:
  assumes "processConfig unmarshal reg now obj l = Some ((inst, err), l')"
    "Parse unmarshal reg obj = (inst0, parseErr)"
    and prev: "prev = (case ams_lookup l (instance_key inst0) of None \<Rightarrow> empty_instance | Some i \<Rightarrow> i)"
  obtains
    (version) "err \<noteq> None" "inst = inst0\<lparr>Status := StatusInvalid\<rparr>" "l' = l"
  | (kept) "err = map_option AmsParseFailed parseErr" "parseErr \<noteq> None" "Object prev \<noteq> None" "inst = inst0" "l' = l"
  | (stored) c where "CompareVersions (Version inst0) (Version prev) = Inr c" "0 \<le> c"
      "err = map_option AmsParseFailed parseErr" "inst = inst0" "parseErr = None \<or> Object prev = None"
      "\<And>k. ams_lookup l' k = (if k = instance_key inst then Some inst else ams_lookup l k)"
proof -
  let ?k = "instance_key inst0"
  have prev': "(case map_of (al_cache l) ?k of None \<Rightarrow> empty_instance | Some e \<Rightarrow> ce_instance e) = prev"
    by (simp add: prev ams_lookup_def split: option.splits)
  note run = assms(1) [unfolded processConfig_def assms(2) Let_def prod.case prev']
  show ?thesis
  proof (cases "CompareVersions (Version inst0) (Version prev)")
    case (Inl e)
    then show ?thesis using run version by auto
  next
    case (Inr c)
    show ?thesis
    proof (cases "c < 0 \<or> parseErr \<noteq> None \<and> Object prev \<noteq> None")
      case True
      then show ?thesis using run Inr version kept by (auto split: if_splits)
    next
      case False
      let ?l1 = "cache_instance ?k inst0 l"
      from run Inr False have "err = map_option AmsParseFailed parseErr" "inst = inst0"
        "l' = ?l1 \<or> (\<exists>t. l' = addCfgToTTLHeap ?k t ?l1) \<or> (\<exists>t. updateCfgInTTLHeap ?k t ?l1 = Some l') \<or>
         removeCfgFromTTLHeap ?k ?l1 = Some l'"
        by (auto split: if_splits)
      moreover have "ams_lookup ?l1 k = (if k = ?k then Some inst0 else ams_lookup l k)" for k
        by simp
      ultimately show ?thesis using Inr False stored [of c] by auto
    qed
  qed
qed

lemma instance_key_status [simp]: "instance_key (i\<lparr>Status := s\<rparr>) = instance_key i"
  by (simp add: instance_key_def)

lemma ams_process_cases:
  assumes "ams_process unmarshal reg x s = Some (d, s')"
  obtains i0 parseErr err l' where "Parse unmarshal reg (snd x) = (i0, parseErr)"
    "processConfig unmarshal reg (fst x) (snd x) s = Some ((dl_instance d, err), l')"
    "dl_accepted d \<longleftrightarrow> err = None" "s' = l'\<lparr>al_subs := subs_send [dl_instance d] (al_subs l')\<rparr>"
proof -
  obtain i0 parseErr where "Parse unmarshal reg (snd x) = (i0, parseErr)"
    by (cases "Parse unmarshal reg (snd x)")
  then show ?thesis using assms that by (auto simp: ams_process_def)
qed

interpretation ams: config_loader ams_lookup "ams_process unmarshal reg"
proof (unfold_locales, goal_cases)
  case (1 x s d s')
  from 1(1) obtain i0 pe err l' where p: "Parse unmarshal reg (snd x) = (i0, pe)"
    "processConfig unmarshal reg (fst x) (snd x) s = Some ((dl_instance d, err), l')"
    "dl_accepted d \<longleftrightarrow> err = None" "s' = l'\<lparr>al_subs := subs_send [dl_instance d] (al_subs l')\<rparr>"
    by (rule ams_process_cases)
  show ?case using 1(2) p(3,4) by (cases rule: processConfig_cases [OF p(2,1) refl]) auto
next
  case (2 x s d s')
  from 2(1) obtain i0 pe err l' where p: "Parse unmarshal reg (snd x) = (i0, pe)"
    "processConfig unmarshal reg (fst x) (snd x) s = Some ((dl_instance d, err), l')"
    "dl_accepted d \<longleftrightarrow> err = None" "s' = l'\<lparr>al_subs := subs_send [dl_instance d] (al_subs l')\<rparr>"
    by (rule ams_process_cases)
  show ?case
    using 2(2) p(1,3) by (cases rule: processConfig_cases [OF p(2,1) refl]) (auto dest: Parse_accept)
next
  case (3 x s d s' j)
  from 3(1) obtain i0 pe err l' where p: "Parse unmarshal reg (snd x) = (i0, pe)"
    "processConfig unmarshal reg (fst x) (snd x) s = Some ((dl_instance d, err), l')"
    "dl_accepted d \<longleftrightarrow> err = None" "s' = l'\<lparr>al_subs := subs_send [dl_instance d] (al_subs l')\<rparr>"
    by (rule ams_process_cases)
  show ?case using 3(2,3,4) p(3,4) by (cases rule: processConfig_cases [OF p(2,1) refl]) auto
next
  case (4 x s d s' k)
  from 4(1) obtain i0 pe err l' where p: "Parse unmarshal reg (snd x) = (i0, pe)"
    "processConfig unmarshal reg (fst x) (snd x) s = Some ((dl_instance d, err), l')"
    "dl_accepted d \<longleftrightarrow> err = None" "s' = l'\<lparr>al_subs := subs_send [dl_instance d] (al_subs l')\<rparr>"
    by (rule ams_process_cases)
  show ?case using 4(2) p(4) by (cases rule: processConfig_cases [OF p(2,1) refl]) auto
qed

text \<open>The loop over the configs of a response is a run of these steps, and it reports no error
  exactly when every config is accepted.\<close>

lemma process_configs_run:
  "process_configs unmarshal reg now cs l = Some (errs, l') \<Longrightarrow>
   \<exists>ds. process_all (ams_process unmarshal reg) (map (\<lambda>c. (now, Some c)) cs) l = Some (ds, l') \<and>
     (errs = [] \<longleftrightarrow> (\<forall>d \<in> set ds. dl_accepted d))"
proof (induction cs arbitrary: l errs)
  case Nil
  then show ?case by simp
next
  case (Cons c cs)
  obtain inst err l1 errs2 where one: "processConfig unmarshal reg now (Some c) l = Some ((inst, err), l1)"
    and rest: "process_configs unmarshal reg now cs (l1\<lparr>al_subs := subs_send [inst] (al_subs l1)\<rparr>) = Some (errs2, l')"
    and errs: "errs = [] \<longleftrightarrow> err = None \<and> errs2 = []"
    using Cons.prems by (auto split: option.splits prod.splits)
  obtain ds where ds: "process_all (ams_process unmarshal reg) (map (\<lambda>c. (now, Some c)) cs)
      (l1\<lparr>al_subs := subs_send [inst] (al_subs l1)\<rparr>) = Some (ds, l')"
      "errs2 = [] \<longleftrightarrow> (\<forall>d \<in> set ds. dl_accepted d)"
    using Cons.IH [OF rest] by blast
  have "ams_process unmarshal reg (now, Some c) l =
      Some (\<lparr>dl_instance = inst, dl_accepted = (err = None)\<rparr>, l1\<lparr>al_subs := subs_send [inst] (al_subs l1)\<rparr>)"
    by (simp add: ams_process_def one)
  then show ?case using ds errs by auto
qed

section \<open>Versions and expiry\<close>

text \<open>The number of a version; only instances whose version has one are cached.\<close>

definition version_number :: "bytes \<Rightarrow> int option" where
  "version_number v = atoi (trim_prefix v ''v'')"

definition versions_ok :: "ams_loader \<Rightarrow> bool" where
  "versions_ok l \<longleftrightarrow> (\<forall>k i. ams_lookup l k = Some i \<longrightarrow> version_number (Version i) \<noteq> None)"

lemma CompareVersions_order:
  assumes "CompareVersions a b = Inr c" "0 \<le> c"
  obtains m where "version_number a = Some m" "\<And>n. version_number b = Some n \<Longrightarrow> n \<le> m"
proof -
  have "atoi '''' = None" by code_simp
  then show ?thesis
    using assms that
    by (auto simp: CompareVersions_def version_number_def Let_def result_iff of_option_def
        split: if_splits option.splits)
qed

text \<open>An instance supersedes another: its version is not smaller, and it is valid if the other is.\<close>

definition supersedes :: "config_instance \<Rightarrow> config_instance \<Rightarrow> bool" where
  "supersedes j i \<longleftrightarrow> the (version_number (Version i)) \<le> the (version_number (Version j)) \<and>
     (Object i \<noteq> None \<longrightarrow> Object j \<noteq> None)"

lemma supersedes_trans: "supersedes k j \<Longrightarrow> supersedes j i \<Longrightarrow> supersedes k i"
  by (auto simp: supersedes_def)

text \<open>A cached config is only ever replaced by one that supersedes it.\<close>

lemma processConfig_supersedes:
  assumes run: "processConfig unmarshal reg now obj l = Some ((inst, err), l')" and ok: "versions_ok l"
  shows "versions_ok l'" "ams_lookup l k = Some i \<Longrightarrow> \<exists>j. ams_lookup l' k = Some j \<and> supersedes j i"
proof -
  obtain i0 pe where pe: "Parse unmarshal reg obj = (i0, pe)" by (cases "Parse unmarshal reg obj")
  have "versions_ok l' \<and> (ams_lookup l k = Some i \<longrightarrow> (\<exists>j. ams_lookup l' k = Some j \<and> supersedes j i))"
  proof (cases rule: processConfig_cases [OF run pe refl, case_names version kept stored])
    case (stored c)
    obtain m where m: "version_number (Version i0) = Some m"
        "\<And>n. version_number (Version (case ams_lookup l (instance_key i0) of
            None \<Rightarrow> empty_instance | Some i \<Rightarrow> i)) = Some n \<Longrightarrow> n \<le> m"
      using CompareVersions_order [OF stored(1,2)] by blast
    have "versions_ok l'" using ok m(1) stored(4,6) by (auto simp: versions_ok_def)
    moreover have "supersedes i0 i" if "ams_lookup l (instance_key i0) = Some i"
      using that m ok stored(5) Parse_accept [of unmarshal reg obj i0] pe
      by (auto simp: supersedes_def versions_ok_def)
    ultimately show ?thesis using stored(4,6) by (auto simp: supersedes_def)
  qed (use ok in \<open>auto simp: supersedes_def\<close>)
  then show "versions_ok l'" "ams_lookup l k = Some i \<Longrightarrow> \<exists>j. ams_lookup l' k = Some j \<and> supersedes j i"
    by auto
qed

lemma process_all_supersedes:
  "process_all (ams_process unmarshal reg) xs l = Some (ds, l') \<Longrightarrow> versions_ok l \<Longrightarrow>
   versions_ok l' \<and> (\<forall>k i. ams_lookup l k = Some i \<longrightarrow> (\<exists>j. ams_lookup l' k = Some j \<and> supersedes j i))"
proof (induction xs arbitrary: l ds)
  case Nil
  then show ?case by (simp add: supersedes_def)
next
  case (Cons x xs)
  obtain d l1 ds2 where one: "ams_process unmarshal reg x l = Some (d, l1)"
      and rest: "process_all (ams_process unmarshal reg) xs l1 = Some (ds2, l')"
    using Cons.prems(1) by (auto split: option.splits prod.splits)
  obtain err l0 where run: "processConfig unmarshal reg (fst x) (snd x) l = Some ((dl_instance d, err), l0)"
      "l1 = l0\<lparr>al_subs := subs_send [dl_instance d] (al_subs l0)\<rparr>"
    using ams_process_cases [OF one] by metis
  note step = processConfig_supersedes [OF run(1) Cons.prems(2)]
  have "versions_ok l1" using step(1) by (simp add: run(2) versions_ok_def)
  from Cons.IH [OF rest this] show ?case
    using step(2) supersedes_trans by (simp add: run(2)) blast
qed

text \<open>A tick expires the entry with the earliest expiry time, only once that has passed, and
  announces it; otherwise it changes nothing.\<close>

lemma lifecycle_tick_idle:
  assumes "ams_inv l" "\<forall>e \<in> set (al_ttlHeap l). now \<le> te_ttl e"
  shows "lifecycle_tick now l = l"
  using assms by (cases "al_ttlHeap l") (auto simp: lifecycle_tick_def not_less)

lemma lifecycle_tick_expire:
  assumes inv: "ams_inv l" and e: "e \<in> set (al_ttlHeap l)" "te_ttl e < now"
  shows "\<exists>node :: ttl_entry. te_ttl node < now \<and> (\<forall>x \<in> set (al_ttlHeap l). te_ttl node \<le> te_ttl x) \<and>
    content (al_ttlHeap l) = add_mset (te_key node, te_ttl node) (content (al_ttlHeap (lifecycle_tick now l))) \<and>
    ams_lookup (lifecycle_tick now l) (te_key node) = None \<and>
    (\<forall>k. k \<noteq> te_key node \<longrightarrow> ams_lookup (lifecycle_tick now l) k = ams_lookup l k) \<and>
    (\<forall>i. ams_lookup l (te_key node) = Some i \<longrightarrow>
       al_subs (lifecycle_tick now l) = subs_send [i\<lparr>Expired := True\<rparr>] (al_subs l))"
    (is "\<exists>node. ?P node")
proof -
  have ne: "al_ttlHeap l \<noteq> []" and h: "heap_inv (al_ttlHeap l)" using e inv by (auto simp: ams_inv_def)
  obtain node h' where p: "pop (al_ttlHeap l) = (node, h')" by (cases "pop (al_ttlHeap l)")
  note ps = pop_spec [OF h ne, unfolded p fst_conv snd_conv]
  have lt: "te_ttl node < now" using ps(5) e by force
  have "te_ttl (al_ttlHeap l ! 0) < now" using lt ps(4) ne by (simp add: hd_conv_nth)
  then have tick: "lifecycle_tick now l =
      (case map_of (al_cache l) (te_key node) of
         None \<Rightarrow> l\<lparr>al_ttlHeap := h'\<rparr>
       | Some c \<Rightarrow> l\<lparr>al_ttlHeap := h', al_cache := AList.delete (te_key node) (al_cache l),
                     al_subs := subs_send [(ce_instance c)\<lparr>Expired := True\<rparr>] (al_subs l)\<rparr>)"
    using ne p by (simp add: lifecycle_tick_def Let_def split: option.split)
  have "?P node"
  proof (cases "map_of (al_cache l) (te_key node)")
    case None
    then show ?thesis using ps(2,5) lt by (simp add: tick ams_lookup_def)
  next
    case (Some c)
    then show ?thesis using ps(2,5) lt by (simp add: tick ams_lookup_def delete_conv')
  qed
  then show ?thesis by blast
qed

section \<open>Messages\<close>

lemma accepted_instances:
  "process_all (ams_process unmarshal reg) xs l = Some (ds, l') \<Longrightarrow> \<forall>d \<in> set ds. dl_accepted d \<Longrightarrow>
   map (\<lambda>x. Parse unmarshal reg (snd x)) xs = map (\<lambda>d. (dl_instance d, None)) ds"
proof (induction xs arbitrary: l ds)
  case (Cons x xs)
  obtain d l1 ds2 where one: "ams_process unmarshal reg x l = Some (d, l1)"
      and rest: "process_all (ams_process unmarshal reg) xs l1 = Some (ds2, l')" and ds: "ds = d # ds2"
    using Cons.prems(1) by (auto split: option.splits prod.splits)
  obtain i0 pe err l0 where p: "Parse unmarshal reg (snd x) = (i0, pe)"
      "processConfig unmarshal reg (fst x) (snd x) l = Some ((dl_instance d, err), l0)"
      "dl_accepted d \<longleftrightarrow> err = None"
    using ams_process_cases [OF one] by metis
  have "err = None" using Cons.prems(2) ds p(3) by simp
  then have "Parse unmarshal reg (snd x) = (dl_instance d, None)"
    using p(1) by (cases rule: processConfig_cases [OF p(2,1) refl]) auto
  then show ?case using Cons.IH [OF rest] Cons.prems(2) ds by simp
qed simp

lemma processConfig_seq:
  "processConfig unmarshal reg now obj l = Some (r, l') \<Longrightarrow> al_lastSeqNum l' = al_lastSeqNum l"
  by (auto simp: processConfig_def Let_def addCfgToTTLHeap_def updateCfgInTTLHeap_def
      removeCfgFromTTLHeap_def set_heap_idx_def cache_instance_def
      split: prod.splits sum.splits if_splits option.splits)

lemma process_configs_seq:
  "process_configs unmarshal reg now cs l = Some (errs, l') \<Longrightarrow> al_lastSeqNum l' = al_lastSeqNum l"
proof (induction cs arbitrary: l errs)
  case (Cons c cs)
  then show ?case using processConfig_seq by (fastforce split: option.splits prod.splits)
qed simp

section \<open>The loader as a state machine\<close>

text \<open>The loader's steps, in any order: a response of the stream, a tick of the expiry loop, a
  new watcher, closing.\<close>

inductive ams_step :: "(bytes \<Rightarrow> host_stats_config option) \<Rightarrow> (config_error \<Rightarrow> bytes option) \<Rightarrow>
    'c registry \<Rightarrow> ams_loader \<Rightarrow> ams_loader \<Rightarrow> bool" for unmarshal any_new reg where
  response: "recv_message unmarshal any_new reg now resp l = Some (rq, l') \<Longrightarrow>
    ams_step unmarshal any_new reg l l'"
| tick: "ams_step unmarshal any_new reg l (lifecycle_tick now l)"
| watch: "ams_Watch f l = (ch, l') \<Longrightarrow> ams_step unmarshal any_new reg l l'"
| close: "ams_step unmarshal any_new reg l (ams_Close l)"

definition ams_reachable :: "(bytes \<Rightarrow> host_stats_config option) \<Rightarrow> (config_error \<Rightarrow> bytes option) \<Rightarrow>
    'c registry \<Rightarrow> ams_loader \<Rightarrow> bool" where
  "ams_reachable unmarshal any_new reg l \<longleftrightarrow> (ams_step unmarshal any_new reg)\<^sup>*\<^sup>* NewAMSLoader l"

lemma ams_inv_subs [simp]:
  "ams_inv (l\<lparr>al_subs := s\<rparr>) = ams_inv l" "ams_inv (l\<lparr>al_lastSeqNum := n\<rparr>) = ams_inv l"
  "ams_inv (l\<lparr>al_closed := c\<rparr>) = ams_inv l"
  by (simp_all add: ams_inv_def ams_lookup_def)

lemma versions_ok_subs [simp]:
  "versions_ok (l\<lparr>al_subs := s\<rparr>) = versions_ok l" "versions_ok (l\<lparr>al_lastSeqNum := n\<rparr>) = versions_ok l"
  "versions_ok (l\<lparr>al_closed := c\<rparr>) = versions_ok l"
  by (simp_all add: versions_ok_def ams_lookup_def)

lemma process_configs_inv:
  "process_configs unmarshal reg now cs l = Some (errs, l') \<Longrightarrow> ams_inv l \<Longrightarrow> versions_ok l \<Longrightarrow>
   ams_inv l' \<and> versions_ok l'"
proof (induction cs arbitrary: l errs)
  case (Cons c cs)
  obtain inst err l1 errs2 where one: "processConfig unmarshal reg now (Some c) l = Some ((inst, err), l1)"
    and rest: "process_configs unmarshal reg now cs (l1\<lparr>al_subs := subs_send [inst] (al_subs l1)\<rparr>) = Some (errs2, l')"
    using Cons.prems(1) by (auto split: option.splits prod.splits)
  show ?case
    using Cons.IH [OF rest] processConfig_inv [OF Cons.prems(2) one]
      processConfig_supersedes(1) [OF one Cons.prems(3)] by simp
qed simp

lemma lifecycle_tick_lookup: "ams_lookup (lifecycle_tick now l) k = Some i \<Longrightarrow> ams_lookup l k = Some i"
  by (auto simp: lifecycle_tick_def Let_def ams_lookup_def delete_conv'
      split: if_splits prod.splits option.splits)

lemma ams_step_inv:
  "ams_step unmarshal any_new reg l l' \<Longrightarrow> ams_inv l \<Longrightarrow> versions_ok l \<Longrightarrow> ams_inv l' \<and> versions_ok l'"
proof (induction rule: ams_step.induct)
  case (response now resp l rq l')
  then obtain errs where
    "process_configs unmarshal reg now (rs_configs resp) (l\<lparr>al_lastSeqNum := rs_seq_num resp\<rparr>) = Some (errs, l')"
    by (auto simp: recv_message_def split: option.splits)
  from process_configs_inv [OF this] response.prems show ?case by simp
next
  case (tick l now)
  then show ?case
    using lifecycle_tick_inv lifecycle_tick_lookup unfolding versions_ok_def by blast
next
  case (watch f l ch l')
  then show ?case by (auto simp: ams_Watch_def split: prod.splits)
next
  case (close l)
  then show ?case by (simp add: ams_Close_def)
qed

lemma ams_reachable_inv: "ams_reachable unmarshal any_new reg l \<Longrightarrow> ams_inv l \<and> versions_ok l"
  unfolding ams_reachable_def
proof (induction rule: rtranclp_induct)
  case base
  show ?case using ams_inv_new by (simp add: versions_ok_def ams_lookup_def NewAMSLoader_def)
next
  case (step l l')
  then show ?case using ams_step_inv by blast
qed

end
