(* ===== verification/ConfigProperties.thy ===== *)
theory ConfigProperties
  imports FSLoader AMSLoader
begin

text \<open>
  The guarantees of the two config loaders: the last valid config stays readable, versions only
  grow, acknowledged messages are in force, expiry is in the order of the deadlines, and the
  places where the code departs from its documentation.
\<close>

section \<open>Concrete inputs\<close>

definition demo_object :: "bytes \<Rightarrow> bytes \<Rightarrow> duration option \<Rightarrow> config_object" where
  "demo_object name version ttl =
     \<lparr>cobj_type = Some \<lparr>td_kind = '''', td_type = hostStatsCollectionConfigName\<rparr>, cobj_name = name,
      cobj_version = version, cobj_data = Some ''cpu'', cobj_ttl = ttl\<rparr>"

definition demo_unmarshal :: "bytes \<Rightarrow> host_stats_config option" where
  "demo_unmarshal d = Some \<lparr>hs_collector = d, hs_interval_seconds = 1\<rparr>"

definition demo_registry :: "unit registry" where
  "demo_registry = \<lparr>reg_collectors = [''cpu'' \<mapsto> ()], reg_unavailable = Map.empty\<rparr>"

definition demo_instance :: "bytes \<Rightarrow> bytes \<Rightarrow> config_instance" where
  "demo_instance name version =
     \<lparr>TypeUrl = hostStatsCollectionConfigName, Name = name, Version = version,
      Object = Some \<lparr>hs_collector = ''cpu'', hs_interval_seconds = 1\<rparr>, Status = StatusOK, Expired = False\<rparr>"

definition demo_response :: "bytes \<Rightarrow> config_object list \<Rightarrow> watch_response" where
  "demo_response seq cs = \<lparr>rs_seq_num = seq, rs_configs = cs\<rparr>"

definition demo_recv :: "instant \<Rightarrow> watch_response \<Rightarrow> ams_loader \<Rightarrow> (watch_request \<times> ams_loader) option" where
  "demo_recv now resp l = recv_message demo_unmarshal (\<lambda>_. None) demo_registry now resp l"

text \<open>A directory in which the file \<open>a.json\<close> holds the given config, or garbage.\<close>

definition demo_env :: "config_object option \<Rightarrow> unit fs_env" where
  "demo_env obj =
     \<lparr>read_file = (\<lambda>f. Some ''x''), protojson_unmarshal = (\<lambda>_. obj), yaml_to_json = (\<lambda>_. None),
      cfg_unmarshal = demo_unmarshal, cfg_registry = demo_registry\<rparr>"

section \<open>The directory loader\<close>

text \<open>An event that neither removes a file nor brings a valid config of the key; what a file
  brings does not depend on the loader's state \<open>fl\<close>.\<close>

definition quiet_event :: "fs_loader \<Rightarrow> bytes \<Rightarrow> 'c fs_env \<times> fs_event \<Rightarrow> bool" where
  "quiet_event fl k x =
     (case x of (env, ev) \<Rightarrow> Op_Remove \<notin> set (fse_ops ev) \<and>
        (case fst (loadConfigFile env (fse_name ev) fl) of
           (i, None) \<Rightarrow> instance_key i \<noteq> k | (_, Some _) \<Rightarrow> True))"

lemma quiet_events_keep:
  "\<forall>x \<in> set later. quiet_event fl k x \<Longrightarrow> fs_lookup s k = Some j \<Longrightarrow> Object j \<noteq> None \<Longrightarrow>
   fs_lookup (fold (\<lambda>(env, ev). handleEvent env ev) later s) k = Some j"
proof (induction later arbitrary: s)
  case (Cons x later)
  obtain env ev where x: "x = (env, ev)" by (cases x)
  have q: "quiet_event fl k (env, ev)" using Cons.prems(1) x by simp
  have "fs_lookup (handleEvent env ev s) k = Some j"
    by (rule handleEvent_keeps_valid [OF Cons.prems(2,3)])
      (use q loadConfigFile_fst [of env "fse_name ev" s fl] in \<open>auto simp: quiet_event_def\<close>)
  from Cons.IH [OF _ this Cons.prems(3)] Cons.prems(1) x show ?case by simp
qed simp

text \<open>
  C11. Once a file with a valid config was loaded, that config stays what \<open>GetConfig\<close> returns
  through any later file events other than removals, as long as none of them brings a newer
  valid config of the same type and name; broken or unreadable files never displace it.
\<close>

theorem fs_keeps_last_valid:
  assumes "fst (loadConfigFile env filename fl) = (inst, None)"
    and "\<forall>x \<in> set later. quiet_event fl (instance_key inst) x"
  shows "fs_GetConfig (TypeUrl inst) (Name inst)
    (fold (\<lambda>(env', ev). handleEvent env' ev) later (processConfigFile env filename fl)) = Some inst"
proof -
  have "\<exists>fl'. loadConfigFile env filename fl = ((inst, None), fl')" using assms(1) by (metis surj_pair fst_conv)
  then have run: "fs_process (env, filename) fl =
      Some (\<lparr>dl_instance = inst, dl_accepted = True\<rparr>, processConfigFile env filename fl)"
    by (auto simp: fs_process_def)
  have "fs_lookup (processConfigFile env filename fl) (instance_key inst) = Some inst" "Object inst \<noteq> None"
    using fs.accept [OF run] fs.accept_object [OF run] by simp_all
  from quiet_events_keep [OF assms(2) this] show ?thesis
    by (simp add: fs_GetConfig_def fs_lookup_def instance_key_def)
qed

theorem fs_keeps_last_valid_witness:
  "fs_GetConfig hostStatsCollectionConfigName ''a''
    (handleEvent (demo_env None) \<lparr>fse_name = ''a.json'', fse_ops = [Op_Write]\<rparr>
      (processConfigFile (demo_env (Some (demo_object ''a'' ''1'' None))) ''a.json'' (NewFSLoader (demo_env None) []))) =
   Some (demo_instance ''a'' ''1'')"
proof -
  let ?fl = "NewFSLoader (demo_env None) []" and ?ev = "\<lparr>fse_name = ''a.json'', fse_ops = [Op_Write]\<rparr>"
  let ?i = "demo_instance ''a'' ''1''"
  have good: "fst (loadConfigFile (demo_env (Some (demo_object ''a'' ''1'' None))) ''a.json'' ?fl) = (?i, None)"
    by code_simp
  have "\<forall>x \<in> set [(demo_env None, ?ev)]. quiet_event ?fl (instance_key ?i) x"
    unfolding list.set ball_simps by (intro conjI TrueI) code_simp
  from fs_keeps_last_valid [OF good this] show ?thesis by (simp add: demo_instance_def)
qed

section \<open>The management-service loader\<close>

text \<open>
  C12. An acknowledged response is in force: when the loader answers a response with an ACK, it
  acknowledges that response's sequence number, every config of the response parsed, and
  \<open>GetConfig\<close> returns the last one of each type and name.
\<close>

theorem ams_ack_applied:
  assumes "recv_message unmarshal any_new reg now resp l = Some (rq, l')" "rq_type rq = REQUEST_ACK"
    and "rs_configs resp = before @ c # later"
    and "\<forall>c' \<in> set later. instance_key (fst (Parse unmarshal reg (Some c'))) \<noteq>
           instance_key (fst (Parse unmarshal reg (Some c)))"
  shows "rq_seq_num rq = rs_seq_num resp \<and>
    (\<exists>i. Parse unmarshal reg (Some c) = (i, None) \<and> ams_GetConfig (TypeUrl i) (Name i) l' = Some i)"
proof -
  obtain errs where run: "process_configs unmarshal reg now (rs_configs resp)
      (l\<lparr>al_lastSeqNum := rs_seq_num resp\<rparr>) = Some (errs, l')" and rq: "rq = ack any_new (al_lastSeqNum l') errs"
    using assms(1) by (auto simp: recv_message_def split: option.splits)
  have "errs = []" using assms(2) rq by (auto simp: ack_def split: list.splits)
  then obtain ds where ds: "process_all (ams_process unmarshal reg)
      (map (\<lambda>c. (now, Some c)) (before @ c # later)) (l\<lparr>al_lastSeqNum := rs_seq_num resp\<rparr>) = Some (ds, l')"
      "\<forall>d \<in> set ds. dl_accepted d"
    using process_configs_run [OF run] assms(3) by auto
  have insts: "map (\<lambda>c. Parse unmarshal reg (Some c)) (before @ c # later) = map (\<lambda>d. (dl_instance d, None)) ds"
    using accepted_instances [OF ds] by (simp add: comp_def)
  then obtain ds1 d ds2 where split: "ds = ds1 @ d # ds2" "Parse unmarshal reg (Some c) = (dl_instance d, None)"
      "map (\<lambda>c. Parse unmarshal reg (Some c)) later = map (\<lambda>d. (dl_instance d, None)) ds2"
    by (auto simp: map_eq_append_conv Cons_eq_map_conv append_eq_map_conv)
  let ?k = "instance_key (dl_instance d)"
  have "\<forall>e \<in> set ds2. instance_key (dl_instance e) \<noteq> ?k"
  proof
    fix e assume "e \<in> set ds2"
    then have "(dl_instance e, None) \<in> set (map (\<lambda>c. Parse unmarshal reg (Some c)) later)"
      by (simp add: split(3))
    then obtain c' where "c' \<in> set later" "Parse unmarshal reg (Some c') = (dl_instance e, None)"
      by (metis (no_types, lifting) imageE list.set_map)
    then show "instance_key (dl_instance e) \<noteq> ?k" using assms(4) split(2) by (metis fst_conv)
  qed
  then have "accepted_for ?k ds2 = []" by (auto simp: accepted_for_def filter_empty_conv)
  then have acc: "accepted_for ?k ds = accepted_for ?k ds1 @ [dl_instance d]"
    using ds(2) split(1) by (simp add: accepted_for_def)
  have "ams_lookup l' ?k = Some (dl_instance d)"
    using ams.most_recent_valid [OF ds(1), of ?k] acc by simp
  moreover have "rq_seq_num rq = rs_seq_num resp"
    using rq \<open>errs = []\<close> process_configs_seq [OF run] by (simp add: ack_def)
  ultimately show ?thesis
    using split(2) by (simp add: ams_GetConfig_def ams_lookup_def instance_key_def)
qed

theorem ams_ack_applied_witness:
  "\<exists>rq l. recv_message demo_unmarshal (\<lambda>_. None) demo_registry 0
      (demo_response ''s1'' [demo_object ''a'' ''1'' None]) NewAMSLoader = Some (rq, l) \<and>
    rq_type rq = REQUEST_ACK \<and>
    ams_GetConfig hostStatsCollectionConfigName ''a'' l = Some (demo_instance ''a'' ''1'')"
proof -
  let ?resp = "demo_response ''s1'' [demo_object ''a'' ''1'' None]"
  have "map_option (rq_type \<circ> fst) (recv_message demo_unmarshal (\<lambda>_. None) demo_registry 0 ?resp NewAMSLoader) =
      Some REQUEST_ACK" by code_simp
  then obtain rq l where run: "recv_message demo_unmarshal (\<lambda>_. None) demo_registry 0 ?resp NewAMSLoader =
      Some (rq, l)" "rq_type rq = REQUEST_ACK" by auto
  have "Parse demo_unmarshal demo_registry (Some (demo_object ''a'' ''1'' None)) = (demo_instance ''a'' ''1'', None)"
    by code_simp
  moreover have "rs_configs ?resp = [] @ demo_object ''a'' ''1'' None # []" by (simp add: demo_response_def)
  ultimately have "ams_GetConfig hostStatsCollectionConfigName ''a'' l = Some (demo_instance ''a'' ''1'')"
    using ams_ack_applied [OF run, of "[]" _ "[]"] by (simp add: demo_instance_def)
  then show ?thesis using run by blast
qed

text \<open>
  C13. Whatever the service sends, a cached config is only ever replaced by one that supersedes
  it: over all the configs of a response, the version number of a cached type and name never
  decreases, and a valid config is never replaced by an invalid one.
\<close>

theorem ams_versions_monotone:
  assumes "ams_reachable unmarshal any_new reg l" "recv_message unmarshal any_new reg now resp l = Some (rq, l')"
    and "ams_GetConfig t n l = Some i"
  shows "\<exists>j. ams_GetConfig t n l' = Some j \<and> supersedes j i"
proof -
  obtain errs where run: "process_configs unmarshal reg now (rs_configs resp)
      (l\<lparr>al_lastSeqNum := rs_seq_num resp\<rparr>) = Some (errs, l')"
    using assms(2) by (auto simp: recv_message_def split: option.splits)
  obtain ds where "process_all (ams_process unmarshal reg) (map (\<lambda>c. (now, Some c)) (rs_configs resp))
      (l\<lparr>al_lastSeqNum := rs_seq_num resp\<rparr>) = Some (ds, l')"
    using process_configs_run [OF run] by blast
  from process_all_supersedes [OF this] ams_reachable_inv [OF assms(1)] assms(3) show ?thesis
    by (auto simp: ams_GetConfig_def ams_lookup_def)
qed

definition demo_loader :: "instant \<Rightarrow> config_object list \<Rightarrow> ams_loader" where
  "demo_loader now cs = snd (the (demo_recv now (demo_response ''s1'' cs) NewAMSLoader))"

lemma demo_loader_reachable:
  assumes "demo_recv now (demo_response ''s1'' cs) NewAMSLoader \<noteq> None"
  shows "ams_reachable demo_unmarshal (\<lambda>_. None) demo_registry (demo_loader now cs)"
proof -
  have "recv_message demo_unmarshal (\<lambda>_. None) demo_registry now (demo_response ''s1'' cs) NewAMSLoader =
      Some (fst (the (demo_recv now (demo_response ''s1'' cs) NewAMSLoader)), demo_loader now cs)"
    using assms by (auto simp: demo_loader_def demo_recv_def)
  then show ?thesis unfolding ams_reachable_def by (blast intro: ams_step.response)
qed

theorem ams_versions_monotone_witness:
  "\<exists>rq l j. demo_recv 1 (demo_response ''s2'' [demo_object ''a'' ''1'' None])
      (demo_loader 0 [demo_object ''a'' ''2'' None]) = Some (rq, l) \<and>
    ams_GetConfig hostStatsCollectionConfigName ''a'' l = Some j \<and> supersedes j (demo_instance ''a'' ''2'')"
proof -
  let ?l = "demo_loader 0 [demo_object ''a'' ''2'' None]"
  have "demo_recv 0 (demo_response ''s1'' [demo_object ''a'' ''2'' None]) NewAMSLoader \<noteq> None"
    "demo_recv 1 (demo_response ''s2'' [demo_object ''a'' ''1'' None]) ?l \<noteq> None"
    and i: "ams_GetConfig hostStatsCollectionConfigName ''a'' ?l = Some (demo_instance ''a'' ''2'')"
    by code_simp+
  note reach = demo_loader_reachable [OF this(1)]
  obtain rq l where run: "demo_recv 1 (demo_response ''s2'' [demo_object ''a'' ''1'' None]) ?l = Some (rq, l)"
    using \<open>demo_recv 1 _ ?l \<noteq> None\<close> by auto
  from ams_versions_monotone [OF reach run [unfolded demo_recv_def] i] run show ?thesis by blast
qed

text \<open>
  C14. Every state that the loader reaches by responses, expiry ticks, new watchers and closing
  is well formed: the expiry heap is in heap order with every entry knowing its position, the
  cache has one entry per key, stored under the key of its config, and every cached version has
  a number.
\<close>

theorem ams_reachable_well_formed:
  assumes "ams_reachable unmarshal any_new reg l"
  shows "is_heap (al_ttlHeap l) \<and> indexed (al_ttlHeap l) \<and> distinct (map fst (al_cache l)) \<and>
    (\<forall>k i. ams_lookup l k = Some i \<longrightarrow> instance_key i = k \<and> version_number (Version i) \<noteq> None)"
  using ams_reachable_inv [OF assms] by (auto simp: ams_inv_def versions_ok_def heap_inv_def)

theorem ams_reachable_well_formed_witness:
  "let l = demo_loader 0 [demo_object ''b'' ''1'' (Some 20), demo_object ''a'' ''1'' (Some 10)]
   in length (al_ttlHeap l) = 2 \<and> is_heap (al_ttlHeap l) \<and> indexed (al_ttlHeap l)"
proof -
  let ?cs = "[demo_object ''b'' ''1'' (Some 20), demo_object ''a'' ''1'' (Some 10)]"
  have "demo_recv 0 (demo_response ''s1'' ?cs) NewAMSLoader \<noteq> None"
    "length (al_ttlHeap (demo_loader 0 ?cs)) = 2" by code_simp+
  then show ?thesis
    using ams_reachable_well_formed [OF demo_loader_reachable] by (simp add: Let_def)
qed

section \<open>Expiry\<close>

text \<open>Popping until the heap is empty.\<close>

fun drain_heap :: "nat \<Rightarrow> ttl_heap \<Rightarrow> ttl_entry list" where
  "drain_heap 0 h = []"
| "drain_heap (Suc n) h = (case pop h of (e, h') \<Rightarrow> e # drain_heap n h')"

lemma drain_heap_spec:
  "heap_inv h \<Longrightarrow> length h = n \<Longrightarrow>
   sorted (map te_ttl (drain_heap n h)) \<and> content (drain_heap n h) = content h"
proof (induction n arbitrary: h)
  case (Suc n)
  then have ne: "h \<noteq> []" by auto
  note ps = pop_spec [OF Suc.prems(1) ne]
  obtain e h' where p: "pop h = (e, h')" by (cases "pop h")
  have c: "content h = add_mset (te_key e, te_ttl e) (content h')" using ps(2) p by simp
  then have "size (content h) = Suc (size (content h'))" by simp
  then have "length h' = n" using Suc.prems(2) by (simp add: content_def)
  from Suc.IH [OF _ this] have IH: "sorted (map te_ttl (drain_heap n h'))"
      "content (drain_heap n h') = content h'" using ps(1) p by auto
  have "te_ttl e \<le> te_ttl x" if "x \<in> set (drain_heap n h')" for x
  proof -
    have "(te_key x, te_ttl x) \<in># content (drain_heap n h')" using that by (auto simp: content_def)
    then have "(te_key x, te_ttl x) \<in># content h" by (simp add: IH(2) c)
    then obtain y where "y \<in> set h" "te_ttl y = te_ttl x" by (auto simp: content_def)
    then show ?thesis using ps(5) p by force
  qed
  then show ?case using IH c p by (simp add: content_def)
qed (simp add: content_def)

text \<open>
  C15. The expiry heap is a priority queue: entries pushed in any order and then popped come
  out in the order of their expiry times, each exactly once.
\<close>

theorem ttl_heap_sorts:
  "let h = fold push es [] in
     sorted (map te_ttl (drain_heap (length es) h)) \<and>
     mset (map (\<lambda>e. (te_key e, te_ttl e)) (drain_heap (length es) h)) = mset (map (\<lambda>e. (te_key e, te_ttl e)) es)"
proof -
  have "heap_inv (fold push es h) \<and> content (fold push es h) = content es + content h" if "heap_inv h" for h
    using that
  proof (induction es arbitrary: h)
    case (Cons e es)
    then show ?case using push_spec [OF Cons.prems, of e] by (simp add: content_def)
  qed (simp add: content_def)
  from this [OF heap_inv_empty] have h: "heap_inv (fold push es [])" "content (fold push es []) = content es"
    by (simp_all add: content_def)
  have "length (fold push es []) = length es"
    using arg_cong [OF h(2), of size] by (simp add: content_def)
  from drain_heap_spec [OF h(1) this] h(2) show ?thesis by (simp add: content_def Let_def)
qed

text \<open>
  One tick of the expiry loop removes nothing before a deadline has passed; once one has,
  it removes exactly one heap entry, with the earliest deadline, drops the config of that key
  from the cache, leaves every other config, and tells the watchers that it expired.
\<close>

theorem lifecycle_tick_expires:
  assumes "ams_reachable unmarshal any_new reg l"
  shows "if \<forall>e \<in> set (al_ttlHeap l). now \<le> te_ttl e then lifecycle_tick now l = l
    else \<exists>node \<in> set (al_ttlHeap l). te_ttl node < now \<and> (\<forall>x \<in> set (al_ttlHeap l). te_ttl node \<le> te_ttl x) \<and>
      content (al_ttlHeap l) = add_mset (te_key node, te_ttl node) (content (al_ttlHeap (lifecycle_tick now l))) \<and>
      ams_lookup (lifecycle_tick now l) (te_key node) = None \<and>
      (\<forall>k. k \<noteq> te_key node \<longrightarrow> ams_lookup (lifecycle_tick now l) k = ams_lookup l k) \<and>
      (\<forall>i. ams_lookup l (te_key node) = Some i \<longrightarrow>
         al_subs (lifecycle_tick now l) = subs_send [i\<lparr>Expired := True\<rparr>] (al_subs l))"
proof (cases "\<forall>e \<in> set (al_ttlHeap l). now \<le> te_ttl e")
  case True
  then show ?thesis using lifecycle_tick_idle ams_reachable_inv [OF assms] by simp
next
  case False
  then obtain e where e: "e \<in> set (al_ttlHeap l)" "te_ttl e < now" by force
  have inv: "ams_inv l" using ams_reachable_inv [OF assms] by simp
  obtain node :: ttl_entry where node: "te_ttl node < now" "\<forall>x \<in> set (al_ttlHeap l). te_ttl node \<le> te_ttl x"
      "content (al_ttlHeap l) = add_mset (te_key node, te_ttl node) (content (al_ttlHeap (lifecycle_tick now l)))"
      "ams_lookup (lifecycle_tick now l) (te_key node) = None"
      "\<forall>k. k \<noteq> te_key node \<longrightarrow> ams_lookup (lifecycle_tick now l) k = ams_lookup l k"
      "\<forall>i. ams_lookup l (te_key node) = Some i \<longrightarrow>
         al_subs (lifecycle_tick now l) = subs_send [i\<lparr>Expired := True\<rparr>] (al_subs l)"
    using lifecycle_tick_expire [OF inv e] by blast
  have "(te_key node, te_ttl node) \<in># content (al_ttlHeap l)" by (simp add: node(3))
  then obtain n' where "n' \<in> set (al_ttlHeap l)" "te_key n' = te_key node" "te_ttl n' = te_ttl node"
    by (auto simp: content_def)
  then show ?thesis unfolding if_not_P [OF False] using node by (intro bexI [of _ n']) auto
qed

theorem lifecycle_tick_expires_witness:
  "let l = demo_loader 0 [demo_object ''b'' ''1'' (Some 20), demo_object ''a'' ''1'' (Some 10)]
   in lifecycle_tick 5 l = l \<and>
      (\<exists>node \<in> set (al_ttlHeap l). te_ttl node < 11 \<and> ams_lookup (lifecycle_tick 11 l) (te_key node) = None)"
proof -
  define l where "l = demo_loader 0 [demo_object ''b'' ''1'' (Some 20), demo_object ''a'' ''1'' (Some 10)]"
  have "demo_recv 0 (demo_response ''s1'' [demo_object ''b'' ''1'' (Some 20), demo_object ''a'' ''1'' (Some 10)])
      NewAMSLoader \<noteq> None" by code_simp
  from demo_loader_reachable [OF this] have reach: "ams_reachable demo_unmarshal (\<lambda>_. None) demo_registry l"
    by (simp add: l_def)
  have ttls: "map te_ttl (al_ttlHeap l) = [10, 20]" unfolding l_def by code_simp
  then obtain e1 e2 where "al_ttlHeap l = [e1, e2]" "te_ttl e1 = 10" "te_ttl e2 = 20"
    by (auto simp: map_eq_Cons_conv)
  then have "\<forall>e \<in> set (al_ttlHeap l). 5 \<le> te_ttl e" "\<not> (\<forall>e \<in> set (al_ttlHeap l). 11 \<le> te_ttl e)"
    by simp_all
  note expires = lifecycle_tick_expires [OF reach, of 5, unfolded if_P [OF this(1)]]
    lifecycle_tick_expires [OF reach, of 11, unfolded if_not_P [OF this(2)]]
  then show ?thesis unfolding Let_def l_def [symmetric] by blast
qed

lemma ticks_drain:
  "ams_inv l \<Longrightarrow> size (filter_mset (\<lambda>(k, t). t < now) (content (al_ttlHeap l))) \<le> n \<Longrightarrow>
   \<forall>e \<in> set (al_ttlHeap ((lifecycle_tick now ^^ n) l)). now \<le> te_ttl e"
proof (induction n arbitrary: l)
  case 0
  then show ?case by (force simp: content_def filter_mset_eq_conv simp flip: mset_filter)
next
  case (Suc n)
  have inv': "ams_inv (lifecycle_tick now l)" by (rule lifecycle_tick_inv [OF Suc.prems(1)])
  have "size (filter_mset (\<lambda>(k, t). t < now) (content (al_ttlHeap (lifecycle_tick now l)))) \<le> n"
  proof (cases "\<forall>e \<in> set (al_ttlHeap l). now \<le> te_ttl e")
    case True
    then have "filter_mset (\<lambda>(k, t). t < now) (content (al_ttlHeap l)) = {#}"
      by (auto simp: content_def)
    then show ?thesis
      unfolding lifecycle_tick_idle [OF Suc.prems(1) True] by (simp only: size_empty le0)
  next
    case False
    then obtain e where "e \<in> set (al_ttlHeap l)" "te_ttl e < now" by force
    from lifecycle_tick_expire [OF Suc.prems(1) this] obtain node :: ttl_entry where "te_ttl node < now"
      "content (al_ttlHeap l) = add_mset (te_key node, te_ttl node) (content (al_ttlHeap (lifecycle_tick now l)))"
      by blast
    then show ?thesis using Suc.prems(2) by simp
  qed
  from Suc.IH [OF inv' this] show ?case by (simp add: funpow_swap1)
qed

text \<open>
  Every expired entry goes: running the expiry loop as many times as the heap has entries,
  at any time, leaves no entry whose deadline has passed.
\<close>

theorem lifecycle_drains_expired:
  assumes "ams_reachable unmarshal any_new reg l"
  shows "\<forall>e \<in> set (al_ttlHeap ((lifecycle_tick now ^^ length (al_ttlHeap l)) l)). now \<le> te_ttl e"
proof (rule ticks_drain)
  show "ams_inv l" using ams_reachable_inv [OF assms] by simp
  have "size (content (al_ttlHeap l)) = length (al_ttlHeap l)" by (simp add: content_def)
  then show "size (filter_mset (\<lambda>(k, t). t < now) (content (al_ttlHeap l))) \<le> length (al_ttlHeap l)"
    using size_filter_mset_lesseq by metis
qed

theorem lifecycle_drains_expired_witness:
  "let l = demo_loader 0 [demo_object ''b'' ''1'' (Some 20), demo_object ''a'' ''1'' (Some 10)]
   in \<forall>e \<in> set (al_ttlHeap ((lifecycle_tick 15 ^^ length (al_ttlHeap l)) l)). 15 \<le> te_ttl e"
proof -
  have "demo_recv 0 (demo_response ''s1'' [demo_object ''b'' ''1'' (Some 20), demo_object ''a'' ''1'' (Some 10)])
      NewAMSLoader \<noteq> None" by code_simp
  from lifecycle_drains_expired [OF demo_loader_reachable [OF this]] show ?thesis unfolding Let_def .
qed

section \<open>Departures from the documentation\<close>

text \<open>
  C17. The heap index that a cache entry remembers is not updated when other entries move:
  after one config with a deadline expired, refreshing another one with a new deadline indexes
  the heap out of range and the loader panics.
\<close>

theorem ams_stale_heap_index_panics:
  "\<exists>l. ams_reachable demo_unmarshal (\<lambda>_. None) demo_registry l \<and>
     ams_GetConfig hostStatsCollectionConfigName ''b'' l = Some (demo_instance ''b'' ''1'') \<and>
     processConfig demo_unmarshal demo_registry 12 (Some (demo_object ''b'' ''2'' (Some 20))) l = None"
proof (intro exI conjI)
  let ?cs = "[demo_object ''a'' ''1'' (Some 10), demo_object ''b'' ''1'' (Some 20)]"
  let ?l = "lifecycle_tick 11 (demo_loader 0 ?cs)"
  have "demo_recv 0 (demo_response ''s1'' ?cs) NewAMSLoader \<noteq> None" by code_simp
  from demo_loader_reachable [OF this]
  show "ams_reachable demo_unmarshal (\<lambda>_. None) demo_registry ?l"
    unfolding ams_reachable_def by (rule rtranclp.rtrancl_into_rtrancl) (rule ams_step.tick)
  show "ams_GetConfig hostStatsCollectionConfigName ''b'' ?l = Some (demo_instance ''b'' ''1'')" by code_simp
  show "processConfig demo_unmarshal demo_registry 12 (Some (demo_object ''b'' ''2'' (Some 20))) ?l = None"
    by code_simp
qed

text \<open>
  A message that only renews the deadline of a cached config, without its data, is rejected
  and renews nothing: cache and heap stay as they were, although the message definition says
  that the data need not be populated when the TTL is refreshed.
\<close>

theorem ams_refresh_without_data_rejected:
  assumes "cobj_type obj = Some td" "td_type td \<noteq> ''''" "cobj_name obj \<noteq> ''''" "cobj_data obj = None"
    and "ams_lookup l (getCacheKey (td_type td) (cobj_name obj)) = Some i" "Object i \<noteq> None"
  shows "\<exists>inst e. processConfig unmarshal reg now (Some obj) l = Some ((inst, Some e), l) \<and>
    Status inst = StatusInvalid"
proof -
  let ?inst = "empty_instance\<lparr>TypeUrl := td_type td, Name := cobj_name obj, Version := cobj_version obj,
    Status := StatusInvalid\<rparr>"
  have parse: "Parse unmarshal reg (Some obj) = (?inst, Some EmptyData)"
    using assms(1-4) by (simp add: Parse_def Let_def)
  have key: "instance_key ?inst = getCacheKey (td_type td) (cobj_name obj)" by (simp add: instance_key_def)
  have prev: "\<exists>e. map_of (al_cache l) (getCacheKey (td_type td) (cobj_name obj)) = Some e \<and> ce_instance e = i"
    using assms(5) by (auto simp: ams_lookup_def)
  show ?thesis
    using prev assms(6) unfolding processConfig_def parse prod.case Let_def key
    by (auto split: sum.splits)
qed

theorem ams_refresh_without_data_rejected_witness:
  "\<exists>inst e. processConfig demo_unmarshal demo_registry 5
      (Some ((demo_object ''a'' ''1'' (Some 10))\<lparr>cobj_data := None\<rparr>))
      (demo_loader 0 [demo_object ''a'' ''1'' (Some 10)]) =
    Some ((inst, Some e), demo_loader 0 [demo_object ''a'' ''1'' (Some 10)]) \<and> Status inst = StatusInvalid"
proof -
  let ?obj = "(demo_object ''a'' ''1'' (Some 10))\<lparr>cobj_data := None\<rparr>"
  let ?td = "\<lparr>td_kind = '''', td_type = hostStatsCollectionConfigName\<rparr>"
  have "cobj_type ?obj = Some ?td" "cobj_data ?obj = None" "td_type ?td \<noteq> ''''" "cobj_name ?obj \<noteq> ''''"
    "ams_lookup (demo_loader 0 [demo_object ''a'' ''1'' (Some 10)]) (getCacheKey (td_type ?td) (cobj_name ?obj)) =
      Some (demo_instance ''a'' ''1'')" "Object (demo_instance ''a'' ''1'') \<noteq> None" by code_simp+
  from ams_refresh_without_data_rejected [OF this(1,3,4,2,5,6)] show ?thesis .
qed

text \<open>
  A watcher that leaves the status filter unset is meant to get only configs with status
  OK. The updates obey that, but the initial listing does not: it puts every cached config of
  the listed types on the channel, the invalid ones too.
\<close>

theorem fs_watch_initial_ignores_status:
  assumes "fs_Watch \<lparr>filter_types = [], filter_status = 0\<rparr> fl = (Some ch, fl1)"
    and "(k, i) \<in> set (fl_cache fl)" "Status i = StatusInvalid"
  shows "i \<in> set (sb_ch (subs (fl_subs (fs_Watch_initial id [TypeUrl i]
      \<lparr>filter_types = [], filter_status = 0\<rparr> ch fl1)) ! ch)) \<and>
    \<not> Matches i (sb_filters (subs (fl_subs fl1) ! ch))"
proof -
  let ?f = "\<lparr>filter_types = [], filter_status = 0\<rparr>"
  have ch: "ch = length (subs (fl_subs fl))" and fl1: "fl_cache fl1 = fl_cache fl"
      "subs (fl_subs fl1) = subs (fl_subs fl) @
        [\<lparr>sb_ch = [], sb_closed = False, sb_filters = \<lparr>filter_types = [], filter_status = StatusOK\<rparr>\<rparr>]"
    using assms(1) by (auto simp: fs_Watch_def subs_add_def Let_def split: if_splits prod.splits)
  have push: "ch < length (subs s) \<Longrightarrow> sb_ch (subs (fold (subs_push ch) is s) ! ch) = sb_ch (subs s ! ch) @ is"
    for "is" s by (induction "is" arbitrary: s) (auto simp: subs_push_def)
  have "i \<in> set (fs_ListConfigs id ?f fl1 (TypeUrl i))"
    using assms(2) fl1(1) by (force simp: fs_ListConfigs_def list_by_type_def Matches_def)
  moreover have "\<not> Matches i (sb_filters (subs (fl_subs fl1) ! ch))"
    using assms(3) ch fl1(2) by (simp add: Matches_def status_distinct)
  ultimately show ?thesis
    using push [of "fl_subs fl1"] ch fl1(2) by (simp add: fs_Watch_initial_def)
qed

theorem fs_watch_initial_ignores_status_witness:
  "let f = \<lparr>filter_types = [], filter_status = 0\<rparr>;
       bad = demo_env (Some ((demo_object ''a'' ''1'' None)\<lparr>cobj_data := None\<rparr>));
       fl = snd (loadConfigFile bad ''a.json'' (NewFSLoader bad []));
       i = (demo_instance ''a'' ''1'')\<lparr>Object := None, Status := StatusInvalid\<rparr>
   in i \<in> set (sb_ch (subs (fl_subs (fs_Watch_initial id [TypeUrl i] f 0 (snd (fs_Watch f fl)))) ! 0))"
proof -
  define f where "f = \<lparr>filter_types = [] :: bytes list, filter_status = 0\<rparr>"
  define bad where "bad = demo_env (Some ((demo_object ''a'' ''1'' None)\<lparr>cobj_data := None\<rparr>))"
  define fl where "fl = snd (loadConfigFile bad ''a.json'' (NewFSLoader bad []))"
  define i where "i = (demo_instance ''a'' ''1'')\<lparr>Object := None, Status := StatusInvalid\<rparr>"
  have "fst (fs_Watch f fl) = Some 0" "fl_cache fl = [(instance_key i, i)]"
    unfolding f_def fl_def bad_def i_def by code_simp+
  moreover have "Status i = StatusInvalid" by (simp add: i_def)
  ultimately have "i \<in> set (sb_ch (subs (fl_subs (fs_Watch_initial id [TypeUrl i] f 0 (snd (fs_Watch f fl)))) ! 0))"
    using fs_watch_initial_ignores_status [of fl 0 "snd (fs_Watch f fl)" "instance_key i" i, folded f_def]
    by (metis list.set_intros(1) prod.collapse)
  then show ?thesis unfolding Let_def f_def [symmetric] bad_def [symmetric] fl_def [symmetric] i_def [symmetric] .
qed

end
