(* ===== verification/IntakeWorker.thy ===== *)
theory IntakeWorker
  imports StoreEvents Performance "HOL-Library.Multiset"
begin

text \<open>
  The worker that streams resource changes to the intake service, \<open>internal/intake/worker.go\<close>:
  batching of store events, the flush timer, heartbeats, and sending with re-queueing.

  The work queue (\<open>client-go\<close>) is outside the repository: it is the argument \<open>ops\<close>, a record
  of the operations the worker calls on a queue of type \<open>'q\<close>; \<open>queue_laws\<close> states what their
  documentation promises, deduplication included, in terms of the set of batches the queue holds.
  The queue compares pointers, so a batch carries its address. The goroutines interleave between the
  critical sections of the batch and the calls of the queue and the network.
\<close>

section \<open>Deltas and batches\<close>

datatype delta_op = OP_CREATE | OP_UPDATE | OP_DELETE | OP_HEARTBEAT

record delta =
  dl_op :: delta_op
  dl_objects :: "resource_object list"

record deltas_batch =
  db_addr :: nat
  db_deltas :: "delta list"
  db_id :: "64 word"

definition defaultDeltaTTL :: duration where "defaultDeltaTTL = 5 * minute"
definition defaultMaxBatchSize :: int where "defaultMaxBatchSize = 100"

fun eventTypeToOp :: "event_type \<Rightarrow> delta_op" where
  "eventTypeToOp EventTypeAdd = OP_CREATE"
| "eventTypeToOp EventTypeUpdate = OP_UPDATE"
| "eventTypeToOp EventTypeDelete = OP_DELETE"

section \<open>The work queue\<close>

text \<open>
  \<open>q_add\<close> is \<open>AddRateLimited\<close> and \<open>q_elapse\<close> the passing of a delay inside the queue. Two observations:
  \<open>q_held\<close> are the batches the queue will still hand out, and \<open>q_single\<close> says that it will hand out
  each of them once.
\<close>

record 'q queue_ops =
  q_add :: "'q \<Rightarrow> deltas_batch \<Rightarrow> 'q"
  q_elapse :: "'q \<Rightarrow> 'q"
  q_get :: "'q \<Rightarrow> (deltas_batch \<times> 'q) option"
  q_done :: "'q \<Rightarrow> deltas_batch \<Rightarrow> 'q"
  q_forget :: "'q \<Rightarrow> deltas_batch \<Rightarrow> 'q"
  q_shutdown :: "'q \<Rightarrow> 'q"
  q_shutting_down :: "'q \<Rightarrow> bool"
  q_held :: "'q \<Rightarrow> deltas_batch set"
  q_single :: "'q \<Rightarrow> bool"

text \<open>
  Until it is shut down the queue holds what was added, each batch once however often it is added, and hands
  it out; a batch that is added while the queue does not hold it is handed out once. \<open>Done\<close>, \<open>Forget\<close> and
  the passing of time change nothing of what is held. After \<open>ShutDown\<close> nothing is added.
\<close>

definition q_open :: "'q queue_ops \<Rightarrow> 'q \<Rightarrow> bool" where
  "q_open ops q \<longleftrightarrow> \<not> q_shutting_down ops q \<and> q_single ops q"

definition queue_laws :: "'q queue_ops \<Rightarrow> bool" where
  "queue_laws ops \<longleftrightarrow>
     (\<forall>q b. \<not> q_shutting_down ops q \<longrightarrow> q_held ops (q_add ops q b) = insert b (q_held ops q)) \<and>
     (\<forall>q b. q_shutting_down ops q \<longrightarrow> q_held ops (q_add ops q b) = q_held ops q) \<and>
     (\<forall>q b. q_open ops q \<longrightarrow> b \<notin> q_held ops q \<longrightarrow> q_open ops (q_add ops q b)) \<and>
     (\<forall>q. q_open ops q \<longrightarrow> q_held ops (q_elapse ops q) = q_held ops q \<and> q_open ops (q_elapse ops q)) \<and>
     (\<forall>q b q'. q_open ops q \<longrightarrow> q_get ops q = Some (b, q') \<longrightarrow>
        b \<in> q_held ops q \<and> q_held ops q' = q_held ops q - {b} \<and> q_open ops q') \<and>
     (\<forall>q b. q_open ops q \<longrightarrow> q_held ops (q_done ops q b) = q_held ops q \<and> q_open ops (q_done ops q b)) \<and>
     (\<forall>q b. q_open ops q \<longrightarrow> q_held ops (q_forget ops q b) = q_held ops q \<and> q_open ops (q_forget ops q b)) \<and>
     (\<forall>q. q_shutting_down ops (q_shutdown ops q))"

lemma queue_lawsD:
  assumes "queue_laws ops"
  shows "\<not> q_shutting_down ops q \<Longrightarrow> q_held ops (q_add ops q b) = insert b (q_held ops q)"
    "q_open ops q \<Longrightarrow> b \<notin> q_held ops q \<Longrightarrow> q_open ops (q_add ops q b)"
    "q_open ops q \<Longrightarrow> q_held ops (q_elapse ops q) = q_held ops q" "q_open ops q \<Longrightarrow> q_open ops (q_elapse ops q)"
    "q_open ops q \<Longrightarrow> q_get ops q = Some (b, q') \<Longrightarrow> b \<in> q_held ops q \<and> q_held ops q' = q_held ops q - {b} \<and> q_open ops q'"
    "q_open ops q \<Longrightarrow> q_held ops (q_done ops q b) = q_held ops q" "q_open ops q \<Longrightarrow> q_open ops (q_done ops q b)"
    "q_open ops q \<Longrightarrow> q_held ops (q_forget ops q b) = q_held ops q" "q_open ops q \<Longrightarrow> q_open ops (q_forget ops q b)"
proof -
  note laws = assms [unfolded queue_laws_def]
  note rest = laws [THEN conjunct2, THEN conjunct2]
  note rest2 = rest [THEN conjunct2, THEN conjunct2]
  show "\<not> q_shutting_down ops q \<Longrightarrow> q_held ops (q_add ops q b) = insert b (q_held ops q)"
    by (rule laws [THEN conjunct1, rule_format])
  show "q_open ops q \<Longrightarrow> b \<notin> q_held ops q \<Longrightarrow> q_open ops (q_add ops q b)" by (rule rest [THEN conjunct1, rule_format])
  show "q_open ops q \<Longrightarrow> q_held ops (q_elapse ops q) = q_held ops q" "q_open ops q \<Longrightarrow> q_open ops (q_elapse ops q)"
    using rest [THEN conjunct2, THEN conjunct1, rule_format, of q] by simp_all
  show "q_open ops q \<Longrightarrow> q_get ops q = Some (b, q') \<Longrightarrow> b \<in> q_held ops q \<and> q_held ops q' = q_held ops q - {b} \<and> q_open ops q'"
    by (rule rest2 [THEN conjunct1, rule_format])
  show "q_open ops q \<Longrightarrow> q_held ops (q_done ops q b) = q_held ops q" "q_open ops q \<Longrightarrow> q_open ops (q_done ops q b)"
    using rest2 [THEN conjunct2, THEN conjunct1, rule_format, of q b] by simp_all
  show "q_open ops q \<Longrightarrow> q_held ops (q_forget ops q b) = q_held ops q" "q_open ops q \<Longrightarrow> q_open ops (q_forget ops q b)"
    using rest2 [THEN conjunct2, THEN conjunct2, THEN conjunct1, rule_format, of q b] by simp_all
qed

lemma q_open_down: "q_open ops q \<Longrightarrow> \<not> q_shutting_down ops q"
  by (simp add: q_open_def)

text \<open>
  A queue of that kind, with the delayed batches, the ones ready, the set of those to be processed and the
  set of those in process: the laws can hold.
\<close>

record client_queue =
  cq_waiting :: "deltas_batch list"
  cq_queue :: "deltas_batch list"
  cq_dirty :: "deltas_batch list"
  cq_processing :: "deltas_batch list"
  cq_down :: bool

definition cq_ready :: "deltas_batch \<Rightarrow> client_queue \<Rightarrow> client_queue" where
  "cq_ready b q =
     (if cq_down q \<or> b \<in> set (cq_dirty q) then q
      else q\<lparr>cq_dirty := b # cq_dirty q,
             cq_queue := (if b \<in> set (cq_processing q) then cq_queue q else cq_queue q @ [b])\<rparr>)"

definition client_queue_ops :: "client_queue queue_ops" where
  "client_queue_ops =
     \<lparr>q_add = (\<lambda>q b. if cq_down q \<or> b \<in> set (cq_waiting q) then q else q\<lparr>cq_waiting := cq_waiting q @ [b]\<rparr>),
      q_elapse = (\<lambda>q. case cq_waiting q of [] \<Rightarrow> q | b # bs \<Rightarrow> cq_ready b (q\<lparr>cq_waiting := bs\<rparr>)),
      q_get = (\<lambda>q. case cq_queue q of [] \<Rightarrow> None
                 | b # bs \<Rightarrow> Some (b, q\<lparr>cq_queue := bs, cq_processing := b # cq_processing q,
                                       cq_dirty := removeAll b (cq_dirty q)\<rparr>)),
      q_done = (\<lambda>q b. q\<lparr>cq_processing := removeAll b (cq_processing q),
                        cq_queue := (if b \<in> set (cq_processing q) \<and> b \<in> set (cq_dirty q) then cq_queue q @ [b] else cq_queue q)\<rparr>),
      q_forget = (\<lambda>q b. q),
      q_shutdown = (\<lambda>q. q\<lparr>cq_down := True\<rparr>), q_shutting_down = cq_down,
      q_held = (\<lambda>q. set (cq_waiting q) \<union> set (cq_dirty q)),
      q_single = (\<lambda>q. distinct (cq_waiting q) \<and> distinct (cq_queue q) \<and> set (cq_waiting q) \<inter> set (cq_dirty q) = {} \<and>
                    set (cq_queue q) = set (cq_dirty q) - set (cq_processing q))\<rparr>"

definition empty_queue :: client_queue where
  "empty_queue = \<lparr>cq_waiting = [], cq_queue = [], cq_dirty = [], cq_processing = [], cq_down = False\<rparr>"

lemma client_queue_simps:
  "q_held client_queue_ops q = set (cq_waiting q) \<union> set (cq_dirty q)"
  "q_shutting_down client_queue_ops q = cq_down q"
  "q_open client_queue_ops q \<longleftrightarrow> \<not> cq_down q \<and> distinct (cq_waiting q) \<and> distinct (cq_queue q) \<and>
     set (cq_waiting q) \<inter> set (cq_dirty q) = {} \<and> set (cq_queue q) = set (cq_dirty q) - set (cq_processing q)"
  by (simp_all add: client_queue_ops_def q_open_def)

lemma client_queue_laws: "queue_laws client_queue_ops"
  unfolding queue_laws_def
proof (intro conjI allI impI)
  fix q b assume "q_open client_queue_ops q"
  then show "q_held client_queue_ops (q_done client_queue_ops q b) = q_held client_queue_ops q"
    "q_open client_queue_ops (q_done client_queue_ops q b)"
    by (auto simp: client_queue_simps) (auto simp: client_queue_ops_def split: if_splits)
next
  fix q assume q: "q_open client_queue_ops q"
  have "q_held client_queue_ops (q_elapse client_queue_ops q) = q_held client_queue_ops q \<and>
    q_open client_queue_ops (q_elapse client_queue_ops q)"
  proof (cases "cq_waiting q")
    case Nil
    then show ?thesis using q by (simp add: client_queue_ops_def)
  next
    case (Cons b bs)
    then have "b \<notin> set (cq_dirty q)" "b \<notin> set (cq_queue q)" "\<not> cq_down q" using q by (auto simp: client_queue_simps)
    then have "q_elapse client_queue_ops q = q\<lparr>cq_waiting := bs, cq_dirty := b # cq_dirty q,
        cq_queue := (if b \<in> set (cq_processing q) then cq_queue q else cq_queue q @ [b])\<rparr>"
      using Cons by (simp add: client_queue_ops_def cq_ready_def)
    then show ?thesis using q Cons \<open>b \<notin> set (cq_queue q)\<close> by (simp add: client_queue_simps) blast
  qed
  then show "q_held client_queue_ops (q_elapse client_queue_ops q) = q_held client_queue_ops q"
    "q_open client_queue_ops (q_elapse client_queue_ops q)" by auto
next
  fix q b q' assume "q_open client_queue_ops q" "q_get client_queue_ops q = Some (b, q')"
  moreover from this(2) obtain bs where "cq_queue q = b # bs" "q' = q\<lparr>cq_queue := bs, cq_processing := b # cq_processing q,
      cq_dirty := removeAll b (cq_dirty q)\<rparr>" by (auto simp: client_queue_ops_def split: list.splits)
  ultimately show "b \<in> q_held client_queue_ops q" "q_held client_queue_ops q' = q_held client_queue_ops q - {b}"
    "q_open client_queue_ops q'" by (auto simp: client_queue_simps)
qed (auto simp: client_queue_simps, auto simp: client_queue_ops_def split: if_splits)

section \<open>The worker\<close>

text \<open>
  The streamer's place in \<open>sendDelta\<close>: waiting in \<open>Get\<close>, without a stream, about to send, after a failed
  send, about to put the batch back, about to forget it, about to call the deferred \<open>Done\<close>.
\<close>

datatype sender =
  SendIdle
| SendStream deltas_batch
| SendReady deltas_batch
| SendBroken deltas_batch
| SendRequeue deltas_batch
| SendForget deltas_batch
| SendDone deltas_batch

text \<open>\<open>wk_sent\<close> logs the delta lists that the stream's \<open>Send\<close> accepted, \<open>wk_given_up\<close> those of the batches that
  were dropped.\<close>

record 'q worker =
  wk_queue :: 'q
  wk_batch :: deltas_batch
  wk_counter :: "64 word"
  wk_next :: nat
  wk_max_batch :: int
  wk_version :: bytes
  wk_stream :: bool
  wk_sender :: sender
  wk_sent :: "delta list list"
  wk_given_up :: "delta list list"

definition newDeltasBatch :: "delta list \<Rightarrow> 'q worker \<Rightarrow> deltas_batch \<times> 'q worker" where
  "newDeltasBatch deltas w =
     (\<lparr>db_addr = wk_next w, db_deltas = deltas, db_id = wk_counter w + 1\<rparr>,
      w\<lparr>wk_next := Suc (wk_next w), wk_counter := wk_counter w + 1\<rparr>)"

definition NewWorker :: "'q \<Rightarrow> int \<Rightarrow> bytes \<Rightarrow> 64 word \<Rightarrow> 'q worker" where
  "NewWorker q maxBatch version counter =
     \<lparr>wk_queue = q, wk_batch = \<lparr>db_addr = 0, db_deltas = [], db_id = counter + 1\<rparr>, wk_counter = counter + 1, wk_next = 1,
      wk_max_batch = maxBatch, wk_version = version, wk_stream = False, wk_sender = SendIdle, wk_sent = [], wk_given_up = []\<rparr>"

definition flushBatch :: "'q queue_ops \<Rightarrow> 'q worker \<Rightarrow> 'q worker" where
  "flushBatch ops w =
     (if length (db_deltas (wk_batch w)) = 0 then w
      else (case newDeltasBatch [] (w\<lparr>wk_queue := q_add ops (wk_queue w) (wk_batch w)\<rparr>) of
              (b, w') \<Rightarrow> w'\<lparr>wk_batch := b\<rparr>))"

text \<open>The body of the event loop in \<open>Start\<close>: the critical section, then the flush.\<close>

definition stamp_object :: "bytes \<Rightarrow> resource_object \<Rightarrow> resource_object" where
  "stamp_object version obj = obj\<lparr>obj_ttl := Some defaultDeltaTTL, obj_delta_version := version\<rparr>"

definition event_delta :: "bytes \<Rightarrow> event \<Rightarrow> delta" where
  "event_delta version e =
     \<lparr>dl_op = eventTypeToOp (ev_type e), dl_objects = map (stamp_object version) (ev_objs e)\<rparr>"

definition append_event :: "event \<Rightarrow> 'q worker \<Rightarrow> bool \<times> 'q worker" where
  "append_event e w =
     (let deltas = db_deltas (wk_batch w) @ [event_delta (wk_version w) e]
      in (int (length deltas) \<ge> wk_max_batch w,
          w\<lparr>wk_batch := (wk_batch w)\<lparr>db_deltas := deltas\<rparr>\<rparr>))"

definition handle_event :: "'q queue_ops \<Rightarrow> event \<Rightarrow> 'q worker \<Rightarrow> 'q worker" where
  "handle_event ops e w =
     (case append_event e w of (shouldFlush, w') \<Rightarrow> if shouldFlush then flushBatch ops w' else w')"

definition heartbeat_delta :: "bytes \<Rightarrow> delta" where
  "heartbeat_delta version =
     \<lparr>dl_op = OP_HEARTBEAT, dl_objects =
        [\<lparr>obj_type = None, obj_object = None, obj_ttl = Some defaultDeltaTTL, obj_delta_version = version\<rparr>]\<rparr>"

definition heartbeat_tick :: "'q queue_ops \<Rightarrow> 'q worker \<Rightarrow> 'q worker" where
  "heartbeat_tick ops w =
     (case newDeltasBatch [heartbeat_delta (wk_version w)] w of
        (b, w') \<Rightarrow> w'\<lparr>wk_queue := q_add ops (wk_queue w') b\<rparr>)"

text \<open>
  One step of \<open>sendDelta\<close>, up to the next call that other goroutines can see. The outcome of a network call is
  an argument: it succeeds, fails, or (while a stream is being opened) the context is cancelled. In
  \<open>SendIdle\<close> nothing happens while the queue has no batch ready.
\<close>

datatype net_outcome = NetOk | NetFailed | NetCancelled

definition sendDelta :: "'q queue_ops \<Rightarrow> net_outcome \<Rightarrow> 'q worker \<Rightarrow> 'q worker" where
  "sendDelta ops out w =
     (case wk_sender w of
        SendIdle \<Rightarrow>
          (case q_get ops (wk_queue w) of
             None \<Rightarrow> w
           | Some (batch, q) \<Rightarrow>
               w\<lparr>wk_queue := q, wk_sender := (if wk_stream w then SendReady batch else SendStream batch)\<rparr>)
      | SendStream batch \<Rightarrow>
          (case out of
             NetOk \<Rightarrow> w\<lparr>wk_stream := True, wk_sender := SendReady batch\<rparr>
           | NetFailed \<Rightarrow> w
           | NetCancelled \<Rightarrow> w\<lparr>wk_sender := SendDone batch, wk_given_up := wk_given_up w @ [db_deltas batch]\<rparr>)
      | SendReady batch \<Rightarrow>
          if out = NetOk then w\<lparr>wk_sent := wk_sent w @ [db_deltas batch], wk_sender := SendForget batch\<rparr>
          else w\<lparr>wk_stream := False, wk_sender := SendBroken batch\<rparr>
      | SendBroken batch \<Rightarrow>
          if \<not> q_shutting_down ops (wk_queue w) then w\<lparr>wk_sender := SendRequeue batch\<rparr>
          else w\<lparr>wk_sender := SendDone batch, wk_given_up := wk_given_up w @ [db_deltas batch]\<rparr>
      | SendRequeue batch \<Rightarrow> w\<lparr>wk_queue := q_add ops (wk_queue w) batch, wk_sender := SendDone batch\<rparr>
      | SendForget batch \<Rightarrow> w\<lparr>wk_queue := q_forget ops (wk_queue w) batch, wk_sender := SendDone batch\<rparr>
      | SendDone batch \<Rightarrow> w\<lparr>wk_queue := q_done ops (wk_queue w) batch, wk_sender := SendIdle\<rparr>)"

text \<open>The end of \<open>Start\<close>, when the event channel is closed.\<close>

definition shutdown_worker :: "'q queue_ops \<Rightarrow> 'q worker \<Rightarrow> 'q worker" where
  "shutdown_worker ops w =
     (let w' = flushBatch ops w in w'\<lparr>wk_queue := q_shutdown ops (wk_queue w')\<rparr>)"

section \<open>Nothing is lost while the queue accepts work\<close>

text \<open>The batch in the hands of the streamer, and the deltas that wait anywhere, were sent, or were given up.\<close>

definition hand :: "'q worker \<Rightarrow> deltas_batch set" where
  "hand w =
     (case wk_sender w of SendStream b \<Rightarrow> {b} | SendReady b \<Rightarrow> {b} | SendBroken b \<Rightarrow> {b} | SendRequeue b \<Rightarrow> {b} | _ \<Rightarrow> {})"

definition pending :: "'q queue_ops \<Rightarrow> 'q worker \<Rightarrow> delta multiset" where
  "pending ops w =
     mset (db_deltas (wk_batch w)) + (\<Sum>b \<in> q_held ops (wk_queue w). mset (db_deltas b)) + (\<Sum>b \<in> hand w. mset (db_deltas b))"

definition sent :: "'q worker \<Rightarrow> delta multiset" where
  "sent w = mset (concat (wk_sent w))"

definition given_up :: "'q worker \<Rightarrow> delta multiset" where
  "given_up w = mset (concat (wk_given_up w))"

text \<open>The steps of the goroutines.\<close>

datatype worker_step =
  Step_append event | Step_flush | Step_heartbeat | Step_elapse | Step_send net_outcome

definition worker_do :: "'q queue_ops \<Rightarrow> worker_step \<Rightarrow> 'q worker \<Rightarrow> 'q worker" where
  "worker_do ops st w =
     (case st of
        Step_append e \<Rightarrow> snd (append_event e w)
      | Step_flush \<Rightarrow> flushBatch ops w
      | Step_heartbeat \<Rightarrow> heartbeat_tick ops w
      | Step_elapse \<Rightarrow> w\<lparr>wk_queue := q_elapse ops (wk_queue w)\<rparr>
      | Step_send out \<Rightarrow> sendDelta ops out w)"

fun produced :: "bytes \<Rightarrow> worker_step \<Rightarrow> delta list" where
  "produced v (Step_append e) = [event_delta v e]"
| "produced v Step_heartbeat = [heartbeat_delta v]"
| "produced v _ = []"

text \<open>Addresses tell the batches apart.\<close>

definition worker_inv :: "'q queue_ops \<Rightarrow> 'q worker \<Rightarrow> bool" where
  "worker_inv ops w \<longleftrightarrow> q_open ops (wk_queue w) \<and> finite (q_held ops (wk_queue w)) \<and>
     hand w \<inter> q_held ops (wk_queue w) = {} \<and> db_addr (wk_batch w) < wk_next w \<and>
     (\<forall>b \<in> q_held ops (wk_queue w) \<union> hand w. db_addr b < wk_next w \<and> db_addr b \<noteq> db_addr (wk_batch w))"

lemma hand_cong [simp]:
  "hand (w\<lparr>wk_queue := q\<rparr>) = hand w" "hand (w\<lparr>wk_batch := b\<rparr>) = hand w" "hand (w\<lparr>wk_next := n\<rparr>) = hand w"
  "hand (w\<lparr>wk_counter := c\<rparr>) = hand w"
  by (simp_all add: hand_def)

lemma pending_add:
  assumes "finite (q_held ops q)" "b \<notin> q_held ops q" "q_held ops q' = insert b (q_held ops q)"
  shows "(\<Sum>b \<in> q_held ops q'. mset (db_deltas b)) = mset (db_deltas b) + (\<Sum>b \<in> q_held ops q. mset (db_deltas b))"
  using assms by simp

text \<open>Every step accounts for the deltas it makes, and only a cancelled opening gives a batch up.\<close>

lemma worker_do_conserves:
  assumes laws: "queue_laws ops" and inv: "worker_inv ops w"
  shows "worker_inv ops (worker_do ops st w) \<and> wk_version (worker_do ops st w) = wk_version w \<and>
    wk_max_batch (worker_do ops st w) = wk_max_batch w \<and>
    pending ops (worker_do ops st w) + sent (worker_do ops st w) + given_up (worker_do ops st w) =
      pending ops w + sent w + given_up w + mset (produced (wk_version w) st) \<and>
    (st \<noteq> Step_send NetCancelled \<longrightarrow> wk_given_up (worker_do ops st w) = wk_given_up w)"
proof -
  note open_q = inv [unfolded worker_inv_def, THEN conjunct1]
  note add = queue_lawsD(1) [OF laws q_open_down [OF open_q]] queue_lawsD(2) [OF laws open_q]
  show ?thesis
  proof (cases st)
    case (Step_append e)
    then show ?thesis using inv
      by (simp add: worker_do_def append_event_def Let_def pending_def sent_def given_up_def worker_inv_def)
  next
    case Step_flush
    show ?thesis
    proof (cases "db_deltas (wk_batch w) = []")
      case True
      then show ?thesis using inv Step_flush by (simp add: worker_do_def flushBatch_def)
    next
      case False
      have fresh: "wk_batch w \<notin> q_held ops (wk_queue w)" using inv by (auto simp: worker_inv_def)
      have "wk_batch w \<notin> hand w" using inv by (auto simp: worker_inv_def)
      moreover have "\<forall>b \<in> q_held ops (wk_queue w) \<union> hand w. db_addr b \<noteq> wk_next w"
        using inv unfolding worker_inv_def by (metis less_irrefl)
      ultimately show ?thesis using False add [of "wk_batch w"] fresh inv Step_flush
        by (auto simp: worker_do_def flushBatch_def newDeltasBatch_def pending_def sent_def given_up_def worker_inv_def less_Suc_eq)
    qed
  next
    case Step_heartbeat
    let ?b = "\<lparr>db_addr = wk_next w, db_deltas = [heartbeat_delta (wk_version w)], db_id = wk_counter w + 1\<rparr>"
    have "?b \<notin> q_held ops (wk_queue w) \<union> hand w"
    proof
      assume "?b \<in> q_held ops (wk_queue w) \<union> hand w"
      then have "db_addr ?b < wk_next w" using inv unfolding worker_inv_def by blast
      then show False by simp
    qed
    then have fresh: "?b \<notin> q_held ops (wk_queue w)" "?b \<notin> hand w" by auto
    with add [of ?b] inv Step_heartbeat show ?thesis
      by (auto simp: worker_do_def heartbeat_tick_def newDeltasBatch_def pending_def sent_def given_up_def worker_inv_def less_Suc_eq)
  next
    case Step_elapse
    then show ?thesis using inv queue_lawsD(3,4) [OF laws open_q]
      by (simp add: worker_do_def pending_def sent_def given_up_def worker_inv_def)
  next
    case (Step_send out)
    show ?thesis
    proof (cases "wk_sender w")
      case SendIdle
      show ?thesis
      proof (cases "q_get ops (wk_queue w)")
        case (Some bq)
        obtain b q where bq: "bq = (b, q)" by (cases bq)
        note got = queue_lawsD(5) [OF laws open_q Some [unfolded bq]]
        have "(\<Sum>b \<in> q_held ops (wk_queue w). mset (db_deltas b)) = mset (db_deltas b) + (\<Sum>b \<in> q_held ops q. mset (db_deltas b))"
          using inv got by (intro pending_add) (auto simp: worker_inv_def)
        with got inv Some bq SendIdle Step_send show ?thesis
          by (auto simp: worker_do_def sendDelta_def hand_def pending_def sent_def given_up_def worker_inv_def)
      qed (use inv SendIdle Step_send in \<open>simp add: worker_do_def sendDelta_def\<close>)
    next
      case (SendRequeue b)
      then have "b \<notin> q_held ops (wk_queue w)" using inv by (auto simp: worker_inv_def hand_def)
      with add [of b] inv SendRequeue Step_send show ?thesis
        by (auto simp: worker_do_def sendDelta_def hand_def pending_def sent_def given_up_def worker_inv_def)
    next
      case (SendForget b)
      then show ?thesis using inv Step_send queue_lawsD(8,9) [OF laws open_q]
        by (simp add: worker_do_def sendDelta_def hand_def pending_def sent_def given_up_def worker_inv_def)
    next
      case (SendDone b)
      then show ?thesis using inv Step_send queue_lawsD(6,7) [OF laws open_q]
        by (simp add: worker_do_def sendDelta_def hand_def pending_def sent_def given_up_def worker_inv_def)
    qed (use inv Step_send q_open_down [OF open_q] in \<open>cases out;
          simp add: worker_do_def sendDelta_def hand_def pending_def sent_def given_up_def worker_inv_def\<close>)+
  qed
qed

fun worker_run :: "'q queue_ops \<Rightarrow> worker_step list \<Rightarrow> 'q worker \<Rightarrow> 'q worker" where
  "worker_run ops [] w = w"
| "worker_run ops (st # sts) w = worker_run ops sts (worker_do ops st w)"

lemma worker_run_conserves:
  assumes laws: "queue_laws ops"
  shows "worker_inv ops w \<Longrightarrow>
    pending ops (worker_run ops sts w) + sent (worker_run ops sts w) + given_up (worker_run ops sts w) =
      pending ops w + sent w + given_up w + mset (concat (map (produced (wk_version w)) sts)) \<and>
    (Step_send NetCancelled \<notin> set sts \<longrightarrow> wk_given_up (worker_run ops sts w) = wk_given_up w)"
proof (induction sts arbitrary: w)
  case (Cons st sts)
  note step = worker_do_conserves [OF laws Cons.prems, of st]
  have "worker_inv ops (worker_do ops st w)" using step by blast
  from Cons.IH [OF this] step show ?case by auto
qed simp

section \<open>Batch sizes\<close>

text \<open>With the event loop as the only appender, no batch grows past the limit (one delta at
  least), and what is queued is never empty.\<close>

definition batch_limit :: "'q worker \<Rightarrow> int" where
  "batch_limit w = max 1 (wk_max_batch w)"

definition sizes_ok :: "'q queue_ops \<Rightarrow> 'q worker \<Rightarrow> bool" where
  "sizes_ok ops w \<longleftrightarrow> int (length (db_deltas (wk_batch w))) < batch_limit w \<and>
     (\<forall>b \<in> q_held ops (wk_queue w). db_deltas b \<noteq> [] \<and> int (length (db_deltas b)) \<le> batch_limit w)"

lemma batch_limit_pos: "0 < batch_limit w"
  by (simp add: batch_limit_def)

lemma flushBatch_sizes:
  assumes laws: "queue_laws ops" and open_q: "\<not> q_shutting_down ops (wk_queue w)"
    and b: "int (length (db_deltas (wk_batch w))) \<le> batch_limit w"
    and q: "\<forall>b \<in> q_held ops (wk_queue w). db_deltas b \<noteq> [] \<and> int (length (db_deltas b)) \<le> batch_limit w"
  shows "sizes_ok ops (flushBatch ops w)"
  using b q queue_lawsD(1) [OF laws open_q] batch_limit_pos [of w]
  by (auto simp: sizes_ok_def flushBatch_def newDeltasBatch_def batch_limit_def)

lemma handle_event_sizes:
  assumes laws: "queue_laws ops" and open_q: "\<not> q_shutting_down ops (wk_queue w)"
    and ok: "sizes_ok ops w"
  shows "sizes_ok ops (handle_event ops e w)"
proof -
  let ?w = "snd (append_event e w)"
  have fields: "wk_queue ?w = wk_queue w" "batch_limit ?w = batch_limit w"
    "length (db_deltas (wk_batch ?w)) = Suc (length (db_deltas (wk_batch w)))"
    by (simp_all add: append_event_def Let_def batch_limit_def)
  have "sizes_ok ops (flushBatch ops ?w)"
    using ok by (intro flushBatch_sizes [OF laws]) (use open_q fields in \<open>auto simp: sizes_ok_def\<close>)
  moreover have "\<not> fst (append_event e w) \<Longrightarrow> sizes_ok ops ?w"
    using ok fields by (auto simp: sizes_ok_def append_event_def Let_def batch_limit_def)
  ultimately show ?thesis by (cases "append_event e w") (simp add: handle_event_def)
qed

end
