(* ===== verification/AgentProperties.thy ===== *)
theory AgentProperties
  imports IntakeWorker HostParsers
begin

text \<open>
  The guarantees of the agent's remaining parts: the intake worker, the collector registry, the
  delta bookkeeping, the streaming wrappers and the parsers of host information.
\<close>

section \<open>The intake worker\<close>


definition demo_event :: event where
  "demo_event = \<lparr>ev_type = EventTypeAdd, ev_objs = []\<rparr>"



text \<open>
  Batches stay within the limit: after any sequence of store events the batch being filled
  is below the maximum size, and every queued batch is non-empty and at most the maximum (at
  least one).
\<close>

theorem intake_batches_bounded:
  assumes "queue_laws ops" "q_open ops q" "q_held ops q = {}"
  shows "let w = fold (handle_event ops) events (NewWorker q maxBatch version counter)
    in int (length (db_deltas (wk_batch w))) < max 1 maxBatch \<and>
       (\<forall>b. b \<in> q_held ops (wk_queue w) \<longrightarrow> db_deltas b \<noteq> [] \<and> int (length (db_deltas b)) \<le> max 1 maxBatch)"
proof -
  have step: "worker_inv ops (handle_event ops e w) \<and> wk_max_batch (handle_event ops e w) = wk_max_batch w"
    if w: "worker_inv ops w" for e and w :: "'a worker"
  proof -
    let ?w = "worker_do ops (Step_append e) w"
    have 1: "worker_inv ops ?w" "wk_max_batch ?w = wk_max_batch w" using worker_do_conserves [OF assms(1) w] by blast+
    have 2: "worker_inv ops (worker_do ops Step_flush ?w)" "wk_max_batch (worker_do ops Step_flush ?w) = wk_max_batch ?w"
      using worker_do_conserves [OF assms(1) 1(1)] by blast+
    have "handle_event ops e w = worker_do ops Step_flush ?w \<or> handle_event ops e w = ?w"
      by (simp add: handle_event_def worker_do_def split: prod.split)
    then show ?thesis using 1 2 by presburger
  qed
  have "sizes_ok ops (fold (handle_event ops) events w) \<and> wk_max_batch (fold (handle_event ops) events w) = wk_max_batch w"
    if "sizes_ok ops w" "worker_inv ops w" for w
    using that
  proof (induction events arbitrary: w)
    case (Cons e events)
    have "\<not> q_shutting_down ops (wk_queue w)" using Cons.prems(2) by (simp add: worker_inv_def q_open_down)
    with Cons handle_event_sizes [OF assms(1) _ Cons.prems(1), of e] step [of w e] show ?case by simp
  qed simp
  moreover have "sizes_ok ops (NewWorker q maxBatch version counter)" "worker_inv ops (NewWorker q maxBatch version counter)"
    using assms(2,3) by (simp_all add: sizes_ok_def NewWorker_def batch_limit_def worker_inv_def hand_def)
  ultimately have "sizes_ok ops (fold (handle_event ops) events (NewWorker q maxBatch version counter)) \<and>
      wk_max_batch (fold (handle_event ops) events (NewWorker q maxBatch version counter)) = maxBatch"
    by (simp add: NewWorker_def)
  then show ?thesis by (auto simp: sizes_ok_def batch_limit_def Let_def)
qed

theorem intake_batches_bounded_witness:
  "let w = fold (handle_event client_queue_ops) [demo_event, demo_event, demo_event] (NewWorker empty_queue 2 ''v1'' 0)
   in int (length (db_deltas (wk_batch w))) < 2 \<and>
      (\<forall>b. b \<in> q_held client_queue_ops (wk_queue w) \<longrightarrow> db_deltas b \<noteq> [] \<and> int (length (db_deltas b)) \<le> 2)"
proof -
  have "q_open client_queue_ops empty_queue" "q_held client_queue_ops empty_queue = {}"
    by (simp_all add: client_queue_simps empty_queue_def)
  from intake_batches_bounded [OF client_queue_laws this, of "[demo_event, demo_event, demo_event]" 2 "''v1''" 0]
  show ?thesis by (simp only: max_def) simp
qed

text \<open>
  The flush at the end of \<open>Start\<close> goes through the rate limiter: its batch is still delayed when the queue is shut
  down, and a queue that ignores what becomes ready after that drops it.
\<close>

lemma final_flush_dropped:
  "let w = shutdown_worker client_queue_ops (snd (append_event demo_event (NewWorker empty_queue 100 ''v1'' 0)));
       q = q_elapse client_queue_ops (wk_queue w)
   in db_deltas (wk_batch w) = [] \<and> q_held client_queue_ops q = {} \<and> q_get client_queue_ops q = None \<and> wk_sent w = []"
  by (simp add: Let_def shutdown_worker_def append_event_def NewWorker_def flushBatch_def newDeltasBatch_def client_queue_ops_def
      cq_ready_def empty_queue_def)

section \<open>The collector registry\<close>

text \<open>
  Registering a collector makes it available exactly when it can be created with the
  default settings and the process has every capability it requires; the reported status of
  every other metric type stays the same, and a second registration of an available type
  panics.
\<close>

theorem register_availability:
  assumes "Register create status_file proc_version mt collector reg = Some reg'"
  shows "(GetCollector reg' mt = Some collector \<longleftrightarrow>
      (\<exists>caps. create collector DefaultCollectionConfig = Inr caps \<and>
         (RequiredCapabilities caps = [] \<or>
          (\<exists>current. getCurrentCapabilities status_file = Inr current \<and>
             set (RequiredCapabilities caps) \<subseteq> set current)))) \<and>
    (\<forall>mt'. mt' \<noteq> mt \<longrightarrow> GetCollectorStatus reg' mt' = GetCollectorStatus reg mt') \<and>
    (GetCollector reg' mt \<noteq> None \<longrightarrow> Register create status_file proc_version mt other reg' = None)"
proof -
  have "GetCollector reg' mt \<noteq> None \<Longrightarrow> GetCollector reg' mt = Some collector"
    using assms by (auto simp: Register_def GetCollector_def Let_def
        split: if_splits sum.splits option.splits can_run_error.splits)
  moreover have "fst (GetCollectorStatus reg' mt) \<longleftrightarrow> GetCollector reg' mt \<noteq> None"
    by (auto simp: GetCollectorStatus_def GetCollector_def split: option.splits)
  moreover have "GetCollector reg' mt \<noteq> None \<Longrightarrow> Register create status_file proc_version mt other reg' = None"
    by (simp add: Register_def GetCollector_def)
  ultimately show ?thesis
    using Register_status [OF assms] unfolding CanRun_iff by auto
qed

definition demo_caps :: collector_capabilities where
  "demo_caps = \<lparr>SupportsOneShot = True, SupportsContinuous = False, RequiredCapabilities = [],
     MinKernelVersion = ''2.6.0''\<rparr>"

theorem register_availability_witness:
  "\<exists>reg'. Register (\<lambda>_ _. Inr demo_caps) (Inl ''no proc'') None ''cpu'' (7::int) empty_registry = Some reg' \<and>
     GetCollector reg' ''cpu'' = Some 7 \<and>
     Register (\<lambda>_ _. Inr demo_caps) (Inl ''no proc'') None ''cpu'' (8::int) reg' = None"
proof -
  obtain reg' where run: "Register (\<lambda>_ _. Inr demo_caps) (Inl ''no proc'') None ''cpu'' (7::int) empty_registry = Some reg'"
    by (simp add: Register_def empty_registry_def CanRun_def demo_caps_def Let_def)
  from register_availability [OF run, of 8] have "GetCollector reg' ''cpu'' = Some 7"
    by (simp add: demo_caps_def)
  with register_availability [OF run, of 8] run show ?thesis by auto
qed

section \<open>Deltas between collections\<close>

text \<open>
  Deltas are computed exactly when they are enabled, there is a previous collection, and
  the time since it lies between the two configured bounds; the delta of a 64-bit counter is
  then the difference, except that a counter that went down is reported as a reset with delta
  zero.
\<close>

theorem delta_window:
  assumes "dc_max_interval (Config b) < 2 ^ 63 - 1" "0 \<le> dc_min_interval (Config b)"
    and "CalculateUint64Delta current previous = (d, reset)"
  shows "(fst (ShouldCalculateDeltas now b) \<longleftrightarrow>
      dc_mode (Config b) \<noteq> DeltaModeDisabled \<and> \<not> IsFirst b \<and> LastTime b \<noteq> 0 \<and>
      dc_min_interval (Config b) \<le> now - LastTime b \<and> now - LastTime b \<le> dc_max_interval (Config b)) \<and>
    (if reset then unat current < unat previous \<and> d = 0 else unat current = unat previous + unat d)"
  using ShouldCalculateDeltas_iff [OF assms(1,2)] CalculateUint64Delta_unat [OF assms(3)] assms(3)
  by (auto simp: CalculateUint64Delta_def split: if_splits)

theorem delta_window_witness:
  "let b = UpdateDeltaState () 10 (NewBaseDeltaCollector DefaultCollectionConfig) in
   (fst (ShouldCalculateDeltas 11 b) \<longleftrightarrow> dc_min_interval (Config b) \<le> 1 \<and> 1 \<le> dc_max_interval (Config b)) \<and>
   unat (7 :: 64 word) = unat (5 :: 64 word) + unat (2 :: 64 word)"
proof -
  let ?b = "UpdateDeltaState () 10 (NewBaseDeltaCollector DefaultCollectionConfig)"
  have "dc_max_interval (Config ?b) < 2 ^ 63 - 1" "0 \<le> dc_min_interval (Config ?b)"
    "CalculateUint64Delta 7 5 = (2, False)"
    "dc_mode (Config ?b) \<noteq> DeltaModeDisabled" "\<not> IsFirst ?b" "LastTime ?b = 10"
    by (simp_all add: UpdateDeltaState_def NewBaseDeltaCollector_def DefaultCollectionConfig_def
        DefaultDeltaConfig_def CalculateUint64Delta_def second_def millisecond_def minute_def)
  from delta_window [OF this(1,2,3), of 11] this(4-6) show ?thesis by (simp add: Let_def)
qed

section \<open>Streaming wrappers\<close>

text \<open>
  A continuous collector sends exactly the successful collections, in order; it is degraded
  as soon as one collection has failed, and stays degraded however many succeed afterwards.
\<close>

theorem continuous_collector_run:
  assumes "continuous_Start c = Inr c0"
  shows "let rs = tick_results collect n (cp_point c); c' = run_ticks collect n c0 in
    cp_sent c' = successes rs \<and>
    cp_status c' = (if \<exists>e. Inl e \<in> set rs then CollectorStatusDegraded else CollectorStatusActive)"
proof -
  have c0: "cp_sent c0 = []" "cp_point c0 = cp_point c" "cp_status c0 = CollectorStatusActive"
    using assms by (auto simp: continuous_Start_def split: if_splits)
  then show ?thesis
    using run_ticks_sent [of collect n c0] run_ticks_status [of c0 collect n] by (simp add: Let_def)
qed

definition demo_collect :: "nat \<Rightarrow> (bytes, int perf_event) result \<times> nat" where
  "demo_collect n = (if n = 1 then Inl ''failed'' else Inr \<lparr>pe_metric = ''cpu'', pe_data = Some (int n)\<rparr>, Suc n)"

theorem continuous_collector_run_witness:
  "\<exists>c0. continuous_Start (NewContinuousPointCollector 0) = Inr c0 \<and>
     cp_sent (run_ticks demo_collect 3 c0) =
       [\<lparr>pe_metric = ''cpu'', pe_data = Some 0\<rparr>, \<lparr>pe_metric = ''cpu'', pe_data = Some 2\<rparr>] \<and>
     cp_status (run_ticks demo_collect 3 c0) = CollectorStatusDegraded"
proof -
  obtain c0 where c0: "continuous_Start (NewContinuousPointCollector 0 :: (nat, int) continuous_point) = Inr c0"
    by (simp add: continuous_Start_def NewContinuousPointCollector_def)
  have "tick_results demo_collect 3 0 =
      [Inr \<lparr>pe_metric = ''cpu'', pe_data = Some 0\<rparr>, Inl ''failed'', Inr \<lparr>pe_metric = ''cpu'', pe_data = Some 2\<rparr>]"
    by code_simp
  with continuous_collector_run [OF c0, of demo_collect 3] c0 show ?thesis
    by (auto simp: Let_def NewContinuousPointCollector_def successes_def)
qed

section \<open>Host information\<close>

text \<open>
  The CPU list parser reads back what the kernel prints: on the printed form of any list of
  single CPUs and ranges with numbers below \<open>2 ^ 31\<close> it returns the CPUs in order.
\<close>

theorem cpu_list_roundtrip:
  assumes "list_all item_ok items"
  shows "ParseCPUList (show_cpulist items) = Inr (concat (map item_cpus items))"
  by (rule ParseCPUList_show [OF assms])

theorem cpu_list_roundtrip_witness: "ParseCPUList ''0-2,4'' = Inr [0, 1, 2, 4]"
proof -
  have "list_all item_ok [Range 0 2, Single 4]" by simp
  moreover have "show_cpulist [Range 0 2, Single 4] = ''0-2,4''"
    "concat (map item_cpus [Range 0 2, Single 4]) = [0, 1, 2, 4]" by code_simp+
  ultimately show ?thesis using cpu_list_roundtrip [of "[Range 0 2, Single 4]"] by simp
qed

text \<open>
  A kernel version is read back from its printed form, also with a distribution suffix
  after a dash, and \<open>Compare\<close> orders versions as \<open>IsAtLeast\<close> says.
\<close>

theorem kernel_version_roundtrip:
  assumes "version_ok v" "sfx = [] \<or> hd sfx = CHR ''-''"
  shows "\<exists>w. ParseVersion (version_String v @ sfx) = Inr w \<and> version_Compare w v = 0 \<and>
    (IsAtLeast w major minor \<longleftrightarrow> version_Compare v \<lparr>Major = major, Minor = minor, Patch = Patch v, Raw = ''''\<rparr> \<ge> 0)"
proof -
  let ?w = "v\<lparr>Raw := version_String v @ sfx\<rparr>"
  have "version_Compare ?w v = 0" by (simp add: version_Compare_def)
  moreover have "IsAtLeast ?w major minor \<longleftrightarrow> IsAtLeast v major minor" by (simp add: IsAtLeast_def)
  ultimately show ?thesis
    using ParseVersion_String [OF assms] IsAtLeast_Compare [of v major minor] by simp
qed

theorem kernel_version_roundtrip_witness:
  "\<exists>w. ParseVersion ''6.8.12-generic'' = Inr w \<and> IsAtLeast w 5 10"
proof -
  let ?v = "\<lparr>Major = 6, Minor = 8, Patch = 12, Raw = ''''\<rparr>"
  have "version_ok ?v" "''-generic'' = [] \<or> hd ''-generic'' = CHR ''-''" by (simp_all add: version_ok_def)
  moreover have "version_String ?v @ ''-generic'' = ''6.8.12-generic''" by code_simp
  moreover have "version_Compare ?v \<lparr>Major = 5, Minor = 10, Patch = Patch ?v, Raw = ''''\<rparr> \<ge> 0"
    by (simp add: version_Compare_def)
  ultimately show ?thesis using kernel_version_roundtrip [of ?v "''-generic''" 5 10] by auto
qed

end
