(* ===== verification/ChannelMerger.thy ===== *)
theory ChannelMerger
  imports Go_Prelude
begin

text \<open>
  The channel merger (\<open>pkg/channel/merger.go\<close>): one goroutine receives from a changing set of
  input channels and forwards every value to one output channel.

  Channels are numbered. The queue of a channel holds its buffered values followed by those of
  the senders that wait, in the order in which Go serves them. One event is one atomic step of
  the merger's goroutine or of its environment; a trace of events is an interleaving. A step
  that has to wait is \<open>Blocked\<close>, a run-time panic is \<open>Panicked\<close>.
\<close>

section \<open>State\<close>

record 'a go_chan =
  ch_cap :: nat
  ch_queue :: "'a list"
  ch_closed :: bool

text \<open>A \<open>reflect.SelectCase\<close> of the loop: an input, \<open>addCh\<close> or \<open>done\<close>.\<close>

datatype select_case = CaseInput nat | CaseAdd | CaseDone

text \<open>
  \<open>m_pending\<close> is the value in the statement \<open>m.out <- value\<close> while it waits, \<open>m_adders\<close> the
  callers that wait in \<open>Add\<close>, \<open>m_running\<close> says that \<open>run\<close> has not returned.
\<close>

record 'a merger =
  m_out :: "'a go_chan"
  m_adders :: "nat list"
  m_add_closed :: bool
  m_done_closed :: bool
  m_cases :: "select_case list"
  m_pending :: "'a option"
  m_running :: bool
  m_chans :: "nat \<Rightarrow> 'a go_chan"

datatype stop = Blocked | Panicked

section \<open>Operations\<close>

text \<open>
  \<open>NewMerger\<close> for the channels \<open>inputs\<close>: the output's capacity is the largest of theirs. The
  cases are those that \<open>run\<close> makes before its loop.
\<close>

fun max_cap :: "'a go_chan list \<Rightarrow> nat \<Rightarrow> nat" where
  "max_cap [] buf = buf"
| "max_cap (ch # chs) buf = max_cap chs (if ch_cap ch > buf then ch_cap ch else buf)"

definition initial_cases :: "nat list \<Rightarrow> select_case list" where
  "initial_cases inputs = map CaseInput inputs @ [CaseAdd, CaseDone]"

definition NewMerger :: "(nat \<Rightarrow> 'a go_chan) \<Rightarrow> nat list \<Rightarrow> 'a merger" where
  "NewMerger chans inputs =
     \<lparr>m_out = \<lparr>ch_cap = max_cap (map chans inputs) 0, ch_queue = [], ch_closed = False\<rparr>,
      m_adders = [], m_add_closed = False, m_done_closed = False,
      m_cases = initial_cases inputs, m_pending = None, m_running = True, m_chans = chans\<rparr>"

text \<open>\<open>Add\<close>: the caller waits until the loop receives the channel.\<close>

definition merger_Add :: "nat \<Rightarrow> 'a merger \<Rightarrow> (stop, 'a merger) result" where
  "merger_Add c m =
     (if m_add_closed m then Inl Panicked else Inr (m\<lparr>m_adders := m_adders m @ [c]\<rparr>))"

text \<open>
  \<open>Close\<close>: closing a closed channel panics, and so do the callers that wait in \<open>Add\<close> when
  the channel they send on is closed.
\<close>

definition merger_Close :: "'a merger \<Rightarrow> (stop, 'a merger) result" where
  "merger_Close m =
     (if m_add_closed m \<or> m_adders m \<noteq> [] then Inl Panicked
      else Inr (m\<lparr>m_add_closed := True, m_done_closed := True\<rparr>))"

text \<open>What \<open>reflect.Select\<close> received: \<open>ok\<close> is false for \<open>RecvClosed\<close>.\<close>

datatype 'a received = RecvElem 'a | RecvChan nat | RecvClosed

datatype 'a run_action = RunReturn | RunContinue "select_case list" | RunSend 'a

text \<open>\<open>slices.Insert\<close> and \<open>slices.Delete\<close> of one element.\<close>

definition slice_insert :: "'b list \<Rightarrow> nat \<Rightarrow> 'b \<Rightarrow> 'b list" where
  "slice_insert xs i x = take i xs @ x # drop i xs"

definition slice_delete :: "'b list \<Rightarrow> nat \<Rightarrow> 'b list" where
  "slice_delete xs i = take i xs @ drop (Suc i) xs"

text \<open>The \<open>switch\<close> of the loop of \<open>run\<close> on the chosen index.\<close>

definition run_switch :: "select_case list \<Rightarrow> nat \<Rightarrow> 'a received \<Rightarrow> 'a run_action" where
  "run_switch cases chosen value =
     (if chosen = length cases - 1 then RunReturn
      else if chosen = length cases - 2
      then (case value of
              RecvChan c \<Rightarrow> RunContinue (slice_insert cases (length cases - 2) (CaseInput c))
            | _ \<Rightarrow> RunReturn)
      else (case value of
              RecvElem x \<Rightarrow> RunSend x
            | _ \<Rightarrow> RunContinue (slice_delete cases chosen)))"

text \<open>Receiving from the channel of a case: \<open>None\<close> while nothing can be received.\<close>

fun case_recv :: "'a merger \<Rightarrow> select_case \<Rightarrow> ('a received \<times> 'a merger) option" where
  "case_recv m (CaseInput c) =
     (let ch = m_chans m c in
      case ch_queue ch of
        x # xs \<Rightarrow> Some (RecvElem x, m\<lparr>m_chans := (m_chans m)(c := ch\<lparr>ch_queue := xs\<rparr>)\<rparr>)
      | [] \<Rightarrow> if ch_closed ch then Some (RecvClosed, m) else None)"
| "case_recv m CaseAdd =
     (case m_adders m of
        c # cs \<Rightarrow> Some (RecvChan c, m\<lparr>m_adders := cs\<rparr>)
      | [] \<Rightarrow> if m_add_closed m then Some (RecvClosed, m) else None)"
| "case_recv m CaseDone = (if m_done_closed m then Some (RecvClosed, m) else None)"

text \<open>The deferred \<open>close(m.out)\<close> when \<open>run\<close> returns.\<close>

definition run_return :: "'a merger \<Rightarrow> 'a merger" where
  "run_return m = m\<lparr>m_running := False, m_out := (m_out m)\<lparr>ch_closed := True\<rparr>\<rparr>"

text \<open>One iteration of the loop with the case that \<open>reflect.Select\<close> chose.\<close>

definition run_select :: "nat \<Rightarrow> 'a merger \<Rightarrow> (stop, 'a merger) result" where
  "run_select chosen m =
     (if \<not> m_running m \<or> m_pending m \<noteq> None \<or> length (m_cases m) \<le> chosen then Inl Blocked
      else (case case_recv m (m_cases m ! chosen) of
              None \<Rightarrow> Inl Blocked
            | Some (value, m') \<Rightarrow>
                (case run_switch (m_cases m) chosen value of
                   RunReturn \<Rightarrow> Inr (run_return m')
                 | RunContinue cases \<Rightarrow> Inr (m'\<lparr>m_cases := cases\<rparr>)
                 | RunSend x \<Rightarrow> Inr (m'\<lparr>m_pending := Some x\<rparr>))))"

text \<open>The statement \<open>m.out <- value\<close> when the buffer has room.\<close>

definition run_send :: "'a merger \<Rightarrow> (stop, 'a merger) result" where
  "run_send m =
     (case m_pending m of
        Some x \<Rightarrow>
          if length (ch_queue (m_out m)) < ch_cap (m_out m)
          then Inr (m\<lparr>m_pending := None, m_out := (m_out m)\<lparr>ch_queue := ch_queue (m_out m) @ [x]\<rparr>\<rparr>)
          else Inl Blocked
      | None \<Rightarrow> Inl Blocked)"

text \<open>
  Receiving from \<open>Out()\<close>: a buffered value, or the value of the waiting sender when nothing
  is buffered, or the zero value, here \<open>None\<close>, from the closed channel.
\<close>

definition out_recv :: "'a merger \<Rightarrow> (stop, 'a option \<times> 'a merger) result" where
  "out_recv m =
     (case ch_queue (m_out m) of
        x # xs \<Rightarrow> Inr (Some x, m\<lparr>m_out := (m_out m)\<lparr>ch_queue := xs\<rparr>\<rparr>)
      | [] \<Rightarrow>
          (case m_pending m of
             Some x \<Rightarrow> Inr (Some x, m\<lparr>m_pending := None\<rparr>)
           | None \<Rightarrow> if ch_closed (m_out m) then Inr (None, m) else Inl Blocked))"

section \<open>Interleavings\<close>

datatype 'a merger_event =
  EvSend nat 'a | EvCloseInput nat | EvAdd nat | EvClose
| EvSelect nat | EvForward | EvReceive

definition chan_send :: "'a \<Rightarrow> 'a go_chan \<Rightarrow> (stop, 'a go_chan) result" where
  "chan_send x ch = (if ch_closed ch then Inl Panicked else Inr (ch\<lparr>ch_queue := ch_queue ch @ [x]\<rparr>))"

definition chan_close :: "'a go_chan \<Rightarrow> (stop, 'a go_chan) result" where
  "chan_close ch =
     (if ch_closed ch \<or> ch_cap ch < length (ch_queue ch) then Inl Panicked
      else Inr (ch\<lparr>ch_closed := True\<rparr>))"

text \<open>A step returns what the reader of the output received, if the step is a receive.\<close>

fun merger_step :: "'a merger_event \<Rightarrow> 'a merger \<Rightarrow> (stop, 'a list \<times> 'a merger) result" where
  "merger_step (EvSend c x) m =
     result_bind (chan_send x (m_chans m c)) (\<lambda>ch. Inr ([], m\<lparr>m_chans := (m_chans m)(c := ch)\<rparr>))"
| "merger_step (EvCloseInput c) m =
     result_bind (chan_close (m_chans m c)) (\<lambda>ch. Inr ([], m\<lparr>m_chans := (m_chans m)(c := ch)\<rparr>))"
| "merger_step (EvAdd c) m = result_bind (merger_Add c m) (\<lambda>m'. Inr ([], m'))"
| "merger_step EvClose m = result_bind (merger_Close m) (\<lambda>m'. Inr ([], m'))"
| "merger_step (EvSelect i) m = result_bind (run_select i m) (\<lambda>m'. Inr ([], m'))"
| "merger_step EvForward m = result_bind (run_send m) (\<lambda>m'. Inr ([], m'))"
| "merger_step EvReceive m =
     result_bind (out_recv m) (\<lambda>(x, m'). Inr ((case x of None \<Rightarrow> [] | Some v \<Rightarrow> [v]), m'))"

text \<open>A trace of steps, with all that was received.\<close>

fun trace_run :: "('e \<Rightarrow> 's \<Rightarrow> (stop, 'a list \<times> 's) result) \<Rightarrow> 'e list \<Rightarrow> 's \<Rightarrow> (stop, 'a list \<times> 's) result" where
  "trace_run step [] s = Inr ([], s)"
| "trace_run step (e # es) s =
     result_bind (step e s) (\<lambda>(xs, s1).
     result_bind (trace_run step es s1) (\<lambda>(ys, s2). Inr (xs @ ys, s2)))"

text \<open>What an event sends on a channel, and what a trace does.\<close>

fun event_sends :: "nat \<Rightarrow> 'a merger_event \<Rightarrow> 'a list" where
  "event_sends c (EvSend d x) = (if d = c then [x] else [])"
| "event_sends c _ = []"

section \<open>Order-preserving pipelines\<close>

text \<open>
  The promise "message delivery order is guaranteed within a single input channel": for each
  source, what was received followed by what is still held is what was sent. \<open>src\<close> tells from
  which source a value comes; \<open>held\<close> is what the pipeline holds of a source, oldest first.
\<close>

locale fifo_pipeline =
  fixes step :: "'e \<Rightarrow> 's \<Rightarrow> (stop, 'a list \<times> 's) result"
    and sends :: "nat \<Rightarrow> 'e \<Rightarrow> 'a list"
    and held :: "('a \<Rightarrow> nat) \<Rightarrow> 's \<Rightarrow> nat \<Rightarrow> 'a list"
    and inv :: "('a \<Rightarrow> nat) \<Rightarrow> 's \<Rightarrow> bool"
  assumes step_inv: "step e s = Inr (xs, s') \<Longrightarrow> inv src s \<Longrightarrow>
      \<forall>c. \<forall>x \<in> set (sends c e). src x = c \<Longrightarrow> inv src s'"
    and step_held: "step e s = Inr (xs, s') \<Longrightarrow> inv src s \<Longrightarrow>
      filter (\<lambda>x. src x = c) xs @ held src s' c = held src s c @ sends c e"
begin

lemma run_inv:
  "trace_run step es s = Inr (xs, s') \<Longrightarrow> inv src s \<Longrightarrow>
   \<forall>e \<in> set es. \<forall>c. \<forall>x \<in> set (sends c e). src x = c \<Longrightarrow> inv src s'"
proof (induction es arbitrary: s xs)
  case (Cons e es)
  then obtain ys s1 zs where "step e s = Inr (ys, s1)" "trace_run step es s1 = Inr (zs, s')"
    by (auto simp: result_bind_Inr_iff)
  then show ?case using Cons.IH Cons.prems step_inv by (meson list.set_intros)
qed simp

theorem run_held:
  "trace_run step es s = Inr (xs, s') \<Longrightarrow> inv src s \<Longrightarrow>
   \<forall>e \<in> set es. \<forall>c. \<forall>x \<in> set (sends c e). src x = c \<Longrightarrow>
   filter (\<lambda>x. src x = c) xs @ held src s' c = held src s c @ concat (map (sends c) es)"
proof (induction es arbitrary: s xs)
  case (Cons e es)
  then obtain ys s1 zs where *: "step e s = Inr (ys, s1)" "trace_run step es s1 = Inr (zs, s')"
      "xs = ys @ zs"
    by (auto simp: result_bind_Inr_iff)
  have "inv src s1" using step_inv [OF *(1)] Cons.prems by (meson list.set_intros)
  then show ?case
    using Cons.IH [OF *(2)] Cons.prems(3) step_held [OF *(1) Cons.prems(2), of c] *(3)
    by (metis append.assoc concat.simps(2) filter_append list.set_intros(2) list.simps(9))
qed simp

end

section \<open>The merger is such a pipeline\<close>

definition merger_held :: "('a \<Rightarrow> nat) \<Rightarrow> 'a merger \<Rightarrow> nat \<Rightarrow> 'a list" where
  "merger_held src m c =
     filter (\<lambda>x. src x = c) (ch_queue (m_out m) @ (case m_pending m of None \<Rightarrow> [] | Some x \<Rightarrow> [x]))
       @ ch_queue (m_chans m c)"

text \<open>
  The invariant: the last two cases are \<open>addCh\<close> and \<open>done\<close>, all others are inputs; values
  wait in the channel of their source; the output is closed exactly when \<open>run\<close> has returned,
  and then no send is pending.
\<close>

definition merger_inv :: "('a \<Rightarrow> nat) \<Rightarrow> 'a merger \<Rightarrow> bool" where
  "merger_inv src m \<longleftrightarrow>
     (\<exists>ins. m_cases m = initial_cases ins) \<and>
     (\<forall>c. \<forall>x \<in> set (ch_queue (m_chans m c)). src x = c) \<and>
     (ch_closed (m_out m) \<longleftrightarrow> \<not> m_running m) \<and>
     (m_running m \<or> m_pending m = None) \<and>
     length (ch_queue (m_out m)) \<le> ch_cap (m_out m)"

text \<open>The cases that \<open>run_switch\<close> goes on with, on the list of inputs.\<close>

lemma initial_cases_insert:
  "slice_insert (initial_cases ins) (length (initial_cases ins) - 2) (CaseInput c) = initial_cases (ins @ [c])"
  by (simp add: slice_insert_def initial_cases_def)

lemma initial_cases_delete:
  "i < length ins \<Longrightarrow> slice_delete (initial_cases ins) i = initial_cases (slice_delete ins i)"
  by (simp add: slice_delete_def initial_cases_def take_map drop_map)

lemma initial_cases_nth:
  "i < length (initial_cases ins) \<Longrightarrow>
   (i < length ins \<and> initial_cases ins ! i = CaseInput (ins ! i)) \<or>
   (i = length (initial_cases ins) - 2 \<and> i = length ins \<and> initial_cases ins ! i = CaseAdd) \<or>
   (i = length (initial_cases ins) - 1 \<and> i = Suc (length ins) \<and> initial_cases ins ! i = CaseDone)"
  by (auto simp: initial_cases_def nth_append nth_Cons split: nat.splits)

text \<open>What one iteration of the loop does, by the channel that was ready.\<close>

lemma run_select_cases:
  assumes "run_select i m = Inr m'" and ins: "m_cases m = initial_cases ins"
  obtains (input) x xs where "i < length ins" "ch_queue (m_chans m (ins ! i)) = x # xs"
      "m_running m" "m_pending m = None"
      "m' = m\<lparr>m_chans := (m_chans m)(ins ! i := (m_chans m (ins ! i))\<lparr>ch_queue := xs\<rparr>), m_pending := Some x\<rparr>"
  | (input_closed) "i < length ins" "ch_queue (m_chans m (ins ! i)) = []" "ch_closed (m_chans m (ins ! i))"
      "m_running m" "m_pending m = None" "m' = m\<lparr>m_cases := initial_cases (slice_delete ins i)\<rparr>"
  | (add) c cs where "m_adders m = c # cs" "m_running m" "m_pending m = None"
      "m' = m\<lparr>m_adders := cs, m_cases := initial_cases (ins @ [c])\<rparr>"
  | (return) "m_running m" "m_pending m = None" "m_add_closed m \<or> m_done_closed m" "m' = run_return m"
proof -
  have guard: "m_running m" "m_pending m = None" "i < length (initial_cases ins)"
    using assms by (auto simp: run_select_def split: if_splits)
  then have r: "(case case_recv m (initial_cases ins ! i) of None \<Rightarrow> Inl Blocked
            | Some (value, m') \<Rightarrow>
                (case run_switch (initial_cases ins) i value of
                   RunReturn \<Rightarrow> Inr (run_return m')
                 | RunContinue cases \<Rightarrow> Inr (m'\<lparr>m_cases := cases\<rparr>)
                 | RunSend x \<Rightarrow> Inr (m'\<lparr>m_pending := Some x\<rparr>))) = Inr m'"
    using assms by (simp add: run_select_def ins cong: option.case_cong)
  have len: "length (initial_cases ins) = length ins + 2" by (simp add: initial_cases_def)
  from initial_cases_nth [OF guard(3)] consider
      "i < length ins" "initial_cases ins ! i = CaseInput (ins ! i)"
    | "i = length ins" "initial_cases ins ! i = CaseAdd"
    | "i = Suc (length ins)" "initial_cases ins ! i = CaseDone"
    by auto
  then show thesis
  proof cases
    case 1
    then show thesis
      using r guard that(1,2) ins
      by (auto simp: run_switch_def len initial_cases_delete Let_def split: list.splits if_splits)
  next
    case 2
    have "slice_insert (initial_cases ins) (length ins) (CaseInput c) = initial_cases (ins @ [c])" for c
      using initial_cases_insert [of ins c] len by simp
    then show thesis
      using 2 r guard that(3,4) ins
      by (auto simp: run_switch_def len split: list.splits if_splits)
  next
    case 3
    then show thesis
      using r guard that(4) by (auto simp: run_switch_def len split: if_splits)
  qed
qed

lemma run_send_cases:
  assumes "run_send m = Inr m'"
  obtains x where "m_pending m = Some x" "length (ch_queue (m_out m)) < ch_cap (m_out m)"
    "m' = m\<lparr>m_pending := None, m_out := (m_out m)\<lparr>ch_queue := ch_queue (m_out m) @ [x]\<rparr>\<rparr>"
  using assms by (auto simp: run_send_def split: option.splits if_splits)

lemma out_recv_cases:
  assumes "out_recv m = Inr (v, m')"
  obtains (buffered) x xs where "v = Some x" "ch_queue (m_out m) = x # xs"
      "m' = m\<lparr>m_out := (m_out m)\<lparr>ch_queue := xs\<rparr>\<rparr>"
  | (waiting) x where "v = Some x" "ch_queue (m_out m) = []" "m_pending m = Some x"
      "m' = m\<lparr>m_pending := None\<rparr>"
  | (closed) "v = None" "m' = m" "ch_closed (m_out m)"
  using assms
  by (cases "ch_queue (m_out m)"; cases "m_pending m"; force simp: out_recv_def split: if_splits)

text \<open>The steps of the environment, the loop and the reader, as one case distinction.\<close>

lemma merger_step_cases:
  assumes "merger_step e m = Inr (xs, m')"
  obtains (send) c x where "e = EvSend c x" "xs = []"
      "m' = m\<lparr>m_chans := (m_chans m)(c := (m_chans m c)\<lparr>ch_queue := ch_queue (m_chans m c) @ [x]\<rparr>)\<rparr>"
  | (close_input) c where "e = EvCloseInput c" "xs = []"
      "m' = m\<lparr>m_chans := (m_chans m)(c := (m_chans m c)\<lparr>ch_closed := True\<rparr>)\<rparr>"
  | (add) c where "e = EvAdd c" "xs = []" "m' = m\<lparr>m_adders := m_adders m @ [c]\<rparr>"
  | (close) "e = EvClose" "xs = []" "m' = m\<lparr>m_add_closed := True, m_done_closed := True\<rparr>"
  | (select) i where "e = EvSelect i" "xs = []" "run_select i m = Inr m'"
  | (forward) "e = EvForward" "xs = []" "run_send m = Inr m'"
  | (receive) v where "e = EvReceive" "xs = (case v of None \<Rightarrow> [] | Some x \<Rightarrow> [x])" "out_recv m = Inr (v, m')"
  using assms
  by (cases e) (auto simp: result_bind_Inr_iff chan_send_def chan_close_def merger_Add_def
      merger_Close_def split: if_splits)

lemma select_inv:
  assumes "run_select i m = Inr m'" "merger_inv src m"
  shows "merger_inv src m'"
proof -
  obtain ins where ins: "m_cases m = initial_cases ins" using assms(2) by (auto simp: merger_inv_def)
  from assms show ?thesis
    by (cases rule: run_select_cases [OF _ ins])
      (auto simp: merger_inv_def run_return_def split: if_splits)
qed

lemma select_held:
  assumes "run_select i m = Inr m'" "merger_inv src m"
  shows "merger_held src m' c = merger_held src m c"
proof -
  obtain ins where ins: "m_cases m = initial_cases ins" using assms(2) by (auto simp: merger_inv_def)
  from assms show ?thesis
    by (cases rule: run_select_cases [OF _ ins])
      (auto simp: merger_inv_def merger_held_def run_return_def)
qed

lemma merger_step_inv:
  assumes "merger_step e m = Inr (xs, m')" "merger_inv src m"
    "\<forall>c. \<forall>x \<in> set (event_sends c e). src x = c"
  shows "merger_inv src m'"
  using assms(1)
proof (cases rule: merger_step_cases)
  case (select i)
  then show ?thesis using select_inv assms(2) by blast
next
  case forward
  show ?thesis using forward(3)
    by (rule run_send_cases) (use assms(2) in \<open>simp add: merger_inv_def\<close>)
next
  case (receive v)
  show ?thesis using receive(3) assms(2)
    by (cases rule: out_recv_cases) (auto simp: merger_inv_def)
next
  case (send c x)
  then show ?thesis using assms(2,3) by (auto simp: merger_inv_def split: if_splits)
qed (use assms(2) in \<open>auto simp: merger_inv_def split: if_splits\<close>)

lemma merger_step_held:
  assumes "merger_step e m = Inr (xs, m')" "merger_inv src m"
  shows "filter (\<lambda>x. src x = c) xs @ merger_held src m' c = merger_held src m c @ event_sends c e"
  using assms(1)
proof (cases rule: merger_step_cases)
  case (select i)
  then show ?thesis using select_held [OF _ assms(2)] by simp
next
  case forward
  obtain x where "m_pending m = Some x"
    "m' = m\<lparr>m_pending := None, m_out := (m_out m)\<lparr>ch_queue := ch_queue (m_out m) @ [x]\<rparr>\<rparr>"
    using run_send_cases [OF forward(3)] by metis
  then show ?thesis using forward by (simp add: merger_held_def)
next
  case (receive v)
  show ?thesis using receive(3)
    by (cases rule: out_recv_cases) (simp_all add: receive merger_held_def)
qed (simp_all add: merger_held_def)

interpretation merger: fifo_pipeline merger_step event_sends merger_held merger_inv
  by unfold_locales (rule merger_step_inv merger_step_held; assumption)+

lemma NewMerger_inv:
  "\<forall>c. ch_queue (chans c) = [] \<Longrightarrow> merger_inv src (NewMerger chans inputs)"
  by (auto simp: merger_inv_def NewMerger_def)

lemma NewMerger_held:
  "ch_queue (chans c) = [] \<Longrightarrow> merger_held src (NewMerger chans inputs) c = []"
  by (simp add: merger_held_def NewMerger_def)

text \<open>After \<open>Close\<close> the loop can return as soon as it is back at its \<open>select\<close>.\<close>

lemma closed_can_return:
  assumes "merger_inv src m" "m_done_closed m" "m_running m" "m_pending m = None"
  shows "run_select (length (m_cases m) - 1) m = Inr (run_return m)"
proof -
  obtain ins where ins: "m_cases m = initial_cases ins" using assms(1) by (auto simp: merger_inv_def)
  then have "m_cases m ! (length (m_cases m) - 1) = CaseDone"
    by (simp add: initial_cases_def nth_append)
  then show ?thesis using assms ins
    by (simp add: run_select_def run_switch_def initial_cases_def)
qed

text \<open>Without a reader, a value for an unbuffered output stops the loop for good.\<close>

definition merger_stuck :: "'a merger \<Rightarrow> bool" where
  "merger_stuck m \<longleftrightarrow> m_pending m \<noteq> None \<and> ch_cap (m_out m) \<le> length (ch_queue (m_out m))"

lemma merger_stuck_step:
  assumes "merger_step e m = Inr (xs, m')" "merger_stuck m" "e \<noteq> EvReceive"
  shows "merger_stuck m' \<and> m_running m' = m_running m \<and>
    (\<exists>as. m_adders m' = m_adders m @ as)"
  using assms(1)
proof (cases rule: merger_step_cases)
  case (select i)
  then show ?thesis using assms(2) by (auto simp: run_select_def merger_stuck_def)
next
  case forward
  show ?thesis using forward(3)
    by (rule run_send_cases) (use assms(2) in \<open>simp add: merger_stuck_def\<close>)
qed (use assms(2,3) in \<open>auto simp: merger_stuck_def\<close>)

end
