(* ===== verification/PerfManager.thy ===== *)
theory PerfManager
  imports ChannelMerger ConfigTypes
begin

text \<open>
  The performance manager (\<open>internal/perf/manager/manager.go\<close>): it watches the collection
  configs, starts, restarts and stops one collector per config name, merges the events of all
  collectors and publishes them to the metrics router. \<open>environment\<close> is
  \<open>pkg/config/environment\<close>.

  A context made by \<open>context.WithCancel\<close> is a number, \<open>pm_live\<close> the contexts not yet
  cancelled: those whose collector runs. What the collectors do is an argument: \<open>ce_create\<close>
  makes a collector from a registered factory and \<open>ce_start\<close> its \<open>Start\<close>, which returns the
  number of the event channel or an error. Both may behave differently at every call.
\<close>

section \<open>Environment variables\<close>

record host_paths =
  hp_proc :: bytes
  hp_sys :: bytes
  hp_dev :: bytes
  hp_etc :: bytes
  hp_var :: bytes

text \<open>\<open>os.Getenv\<close> is the argument \<open>getenv\<close>, the empty string for a variable that is not set.\<close>

definition env_or :: "(bytes \<Rightarrow> bytes) \<Rightarrow> bytes \<Rightarrow> bytes \<Rightarrow> bytes" where
  "env_or getenv var dflt = (if getenv var \<noteq> '''' then getenv var else dflt)"

definition GetHostPaths :: "(bytes \<Rightarrow> bytes) \<Rightarrow> host_paths" where
  "GetHostPaths getenv =
     \<lparr>hp_proc = env_or getenv ''HOST_PROC'' ''/proc'', hp_sys = env_or getenv ''HOST_SYS'' ''/sys'',
      hp_dev = env_or getenv ''HOST_DEV'' ''/dev'', hp_etc = env_or getenv ''HOST_ETC'' ''/etc'',
      hp_var = env_or getenv ''HOST_VAR'' ''/var''\<rparr>"

definition GetNodeName :: "(bytes \<Rightarrow> bytes) \<Rightarrow> ('e, bytes) result \<Rightarrow> ('e, bytes) result" where
  "GetNodeName getenv hostname =
     (if getenv ''NODE_NAME'' = '''' then hostname else Inr (getenv ''NODE_NAME''))"

definition GetClusterName :: "(bytes \<Rightarrow> bytes) \<Rightarrow> bytes" where
  "GetClusterName getenv = getenv ''CLUSTER_NAME''"

section \<open>State\<close>

record collector_instance =
  ci_version :: bytes
  ci_ctx :: nat

record 'd perf_manager =
  pm_running :: "bytes \<rightharpoonup> collector_instance"
  pm_events :: "'d perf_event merger"
  pm_next_ctx :: nat
  pm_live :: "nat list"
  pm_proc :: bytes
  pm_sys :: bytes
  pm_dev :: bytes

record ('c, 'k) collector_env =
  ce_registry :: "'c registry"
  ce_create :: "'c \<Rightarrow> collection_config \<Rightarrow> (bytes, 'k) result"
  ce_start :: "'k \<Rightarrow> (bytes, nat) result"

datatype manager_error = NilConfigLoader | NilRouter

text \<open>
  \<open>New\<close>: a nil loader or router is refused; the merger starts without inputs, so its output is
  unbuffered. The options replace the three paths.
\<close>

datatype manager_option = WithProcPath bytes | WithSysPath bytes | WithDevPath bytes

fun apply_option :: "manager_option \<Rightarrow> 'd perf_manager \<Rightarrow> 'd perf_manager" where
  "apply_option (WithProcPath p) m = m\<lparr>pm_proc := p\<rparr>"
| "apply_option (WithSysPath p) m = m\<lparr>pm_sys := p\<rparr>"
| "apply_option (WithDevPath p) m = m\<lparr>pm_dev := p\<rparr>"

definition perf_New :: "(bytes \<Rightarrow> bytes) \<Rightarrow> (nat \<Rightarrow> 'd perf_event go_chan) \<Rightarrow> 'l option \<Rightarrow> 'r option \<Rightarrow>
    manager_option list \<Rightarrow> (manager_error, 'd perf_manager) result" where
  "perf_New getenv chans configLoader router opts =
     (if configLoader = None then Inl NilConfigLoader
      else if router = None then Inl NilRouter
      else let paths = GetHostPaths getenv
           in Inr (fold apply_option opts
                \<lparr>pm_running = Map.empty, pm_events = NewMerger chans [], pm_next_ctx = 0, pm_live = [],
                 pm_proc = hp_proc paths, pm_sys = hp_sys paths, pm_dev = hp_dev paths\<rparr>))"

definition GetRunningCollectors :: "'d perf_manager \<Rightarrow> (bytes \<rightharpoonup> bytes)" where
  "GetRunningCollectors m = (\<lambda>name. map_option ci_version (pm_running m name))"

section \<open>Starting and stopping collectors\<close>

text \<open>\<open>cancel()\<close> of a context.\<close>

definition cancel_ctx :: "nat \<Rightarrow> 'd perf_manager \<Rightarrow> 'd perf_manager" where
  "cancel_ctx n m = m\<lparr>pm_live := removeAll n (pm_live m)\<rparr>"

definition new_ctx :: "'d perf_manager \<Rightarrow> nat \<times> 'd perf_manager" where
  "new_ctx m = (pm_next_ctx m, m\<lparr>pm_next_ctx := pm_next_ctx m + 1, pm_live := pm_live m @ [pm_next_ctx m]\<rparr>)"

datatype start_error =
  InvalidConfigType | EmptyCollectorField | GetCollectorFailed metric_type
| CreateFailed metric_type bytes | StartFailed metric_type bytes

text \<open>The settings of the new collector.\<close>

definition collection_settings :: "'d perf_manager \<Rightarrow> host_stats_config \<Rightarrow> collection_config" where
  "collection_settings m obj =
     ApplyDefaults \<lparr>cc_interval = uint (hs_interval_seconds obj) * second, cc_enabled = None,
       cc_proc = pm_proc m, cc_sys = pm_sys m, cc_dev = pm_dev m, cc_top = 0,
       cc_delta = \<lparr>dc_mode = DeltaModeUnset, dc_min_interval = 0, dc_max_interval = 0\<rparr>\<rparr>"

text \<open>
  \<open>startCollector\<close> returns the error or the new context. \<open>None\<close> is a panic of \<open>Add\<close>. From
  \<open>Add\<close> on the caller waits until the merger's loop has received the channel; the lock that it
  holds keeps what follows invisible until then.
\<close>

definition startCollector :: "('c, 'k) collector_env \<Rightarrow> config_instance \<Rightarrow> 'd perf_manager \<Rightarrow>
    ((start_error, nat) result \<times> 'd perf_manager) option" where
  "startCollector env inst m =
     (case Object inst of
        None \<Rightarrow> Some (Inl InvalidConfigType, m)
      | Some obj \<Rightarrow>
          (let mt = hs_collector obj in
           if mt = '''' then Some (Inl EmptyCollectorField, m)
           else (case GetCollector (ce_registry env) mt of
              None \<Rightarrow> Some (Inl (GetCollectorFailed mt), m)
            | Some factory \<Rightarrow>
                (case ce_create env factory (collection_settings m obj) of
                   Inl e \<Rightarrow> Some (Inl (CreateFailed mt e), m)
                 | Inr c \<Rightarrow>
                     (case new_ctx m of
                        (ctx, m1) \<Rightarrow>
                          (case ce_start env c of
                             Inl e \<Rightarrow> Some (Inl (StartFailed mt e), cancel_ctx ctx m1)
                           | Inr events \<Rightarrow>
                               (case merger_Add events (pm_events m1) of
                                  Inl _ \<Rightarrow> None
                                | Inr mg \<Rightarrow> Some (Inr ctx, m1\<lparr>pm_events := mg\<rparr>))))))))"

definition handleExpiredConfig :: "config_instance \<Rightarrow> 'd perf_manager \<Rightarrow> 'd perf_manager" where
  "handleExpiredConfig config m =
     (case pm_running m (Name config) of
        Some inst \<Rightarrow>
          (cancel_ctx (ci_ctx inst) m)\<lparr>pm_running := (pm_running m)(Name config := None)\<rparr>
      | None \<Rightarrow> m)"

text \<open>The part of \<open>handleActiveConfig\<close> after the check for the same version.\<close>

definition start_and_record :: "('c, 'k) collector_env \<Rightarrow> config_instance \<Rightarrow> 'd perf_manager \<Rightarrow>
    'd perf_manager option" where
  "start_and_record env config m =
     (case startCollector env config m of
        None \<Rightarrow> None
      | Some (Inl _, m1) \<Rightarrow> Some m1
      | Some (Inr ctx, m1) \<Rightarrow>
          Some (m1\<lparr>pm_running := (pm_running m1)(Name config \<mapsto> \<lparr>ci_version = Version config, ci_ctx = ctx\<rparr>)\<rparr>))"

definition handleActiveConfig :: "('c, 'k) collector_env \<Rightarrow> config_instance \<Rightarrow> 'd perf_manager \<Rightarrow>
    'd perf_manager option" where
  "handleActiveConfig env config m =
     (case pm_running m (Name config) of
        Some inst \<Rightarrow>
          if ci_version inst = Version config then Some m
          else start_and_record env config
                 ((cancel_ctx (ci_ctx inst) m)\<lparr>pm_running := (pm_running m)(Name config := None)\<rparr>)
      | None \<Rightarrow> start_and_record env config m)"

text \<open>One config received by \<open>collectorManager\<close>.\<close>

definition handle_config :: "('c, 'k) collector_env \<Rightarrow> config_instance \<Rightarrow> 'd perf_manager \<Rightarrow>
    'd perf_manager option" where
  "handle_config env config m =
     (if Expired config then Some (handleExpiredConfig config m) else handleActiveConfig env config m)"

text \<open>The map's iteration order is an argument.\<close>

definition stopAllCollectors :: "bytes list \<Rightarrow> 'd perf_manager \<Rightarrow> 'd perf_manager" where
  "stopAllCollectors order m =
     (fold (\<lambda>name s. case pm_running m name of None \<Rightarrow> s | Some inst \<Rightarrow> cancel_ctx (ci_ctx inst) s)
        order m)\<lparr>pm_running := Map.empty\<rparr>"

section \<open>What the manager runs\<close>

text \<open>The running collectors and their contexts correspond one to one.\<close>

definition contexts_ok :: "'d perf_manager \<Rightarrow> bool" where
  "contexts_ok m \<longleftrightarrow>
     distinct (pm_live m) \<and> (\<forall>x \<in> set (pm_live m). x < pm_next_ctx m) \<and>
     set (pm_live m) = ci_ctx ` ran (pm_running m) \<and>
     (\<forall>n n' i i'. pm_running m n = Some i \<longrightarrow> pm_running m n' = Some i' \<longrightarrow> ci_ctx i = ci_ctx i' \<longrightarrow> n = n')"

text \<open>Whether \<open>startCollector\<close> succeeds, and the abstract effect of one config on its name.\<close>

definition can_start :: "('c, 'k) collector_env \<Rightarrow> config_instance \<Rightarrow> 'd perf_manager \<Rightarrow> bool" where
  "can_start env inst m \<longleftrightarrow>
     (\<exists>obj factory c events. Object inst = Some obj \<and> hs_collector obj \<noteq> '''' \<and>
        GetCollector (ce_registry env) (hs_collector obj) = Some factory \<and>
        ce_create env factory (collection_settings m obj) = Inr c \<and> ce_start env c = Inr events)"

definition next_version :: "config_instance \<Rightarrow> bool \<Rightarrow> bytes option \<Rightarrow> bytes option" where
  "next_version config ok running =
     (if Expired config then None
      else if running = Some (Version config) then running
      else if ok then Some (Version config) else None)"

lemma collection_settings_frame:
  "pm_proc m = pm_proc m' \<Longrightarrow> pm_sys m = pm_sys m' \<Longrightarrow> pm_dev m = pm_dev m' \<Longrightarrow>
   collection_settings m obj = collection_settings m' obj"
  by (simp add: collection_settings_def)

lemma can_start_frame:
  "pm_proc m = pm_proc m' \<Longrightarrow> pm_sys m = pm_sys m' \<Longrightarrow> pm_dev m = pm_dev m' \<Longrightarrow>
   can_start env inst m = can_start env inst m'"
  by (simp add: can_start_def collection_settings_frame [of m m'])

definition same_paths :: "'d perf_manager \<Rightarrow> 'd perf_manager \<Rightarrow> bool" where
  "same_paths m m' \<longleftrightarrow> pm_proc m = pm_proc m' \<and> pm_sys m = pm_sys m' \<and> pm_dev m = pm_dev m'"

lemma startCollector_cases:
  assumes "\<not> m_add_closed (pm_events m)" "pm_next_ctx m \<notin> set (pm_live m)"
  obtains (started) events where "can_start env inst m"
      "startCollector env inst m = Some (Inr (pm_next_ctx m),
         m\<lparr>pm_next_ctx := pm_next_ctx m + 1, pm_live := pm_live m @ [pm_next_ctx m],
           pm_events := (pm_events m)\<lparr>m_adders := m_adders (pm_events m) @ [events]\<rparr>\<rparr>)"
  | (failed) e n where "\<not> can_start env inst m" "pm_next_ctx m \<le> n"
      "startCollector env inst m = Some (Inl e, m\<lparr>pm_next_ctx := n\<rparr>)"
proof (cases "startCollector env inst m")
  case None
  then show thesis using assms(1)
    by (auto simp: startCollector_def new_ctx_def merger_Add_def Let_def
        split: option.splits if_splits sum.splits)
next
  case (Some r)
  obtain res m' where r: "r = (res, m')" by (cases r)
  have upd: "m\<lparr>pm_next_ctx := pm_next_ctx m\<rparr> = m" by simp
  have rem: "removeAll (pm_next_ctx m) (pm_live m) = pm_live m" using assms(2) by simp
  show thesis
  proof (cases res)
    case (Inr ctx)
    then show thesis using Some r assms(1) that(1)
      by (auto simp: startCollector_def new_ctx_def merger_Add_def Let_def can_start_def
          split: option.splits if_splits sum.splits)
  next
    case (Inl e)
    have "\<not> can_start env inst m" using Some r Inl
      by (auto simp: startCollector_def new_ctx_def Let_def can_start_def
          split: option.splits if_splits sum.splits)
    moreover have "m' = m \<or> m' = m\<lparr>pm_next_ctx := pm_next_ctx m + 1\<rparr>" using Some r Inl rem
      by (auto simp: startCollector_def new_ctx_def Let_def cancel_ctx_def
          split: option.splits if_splits sum.splits)
    ultimately show thesis
      using that(2) [of "pm_next_ctx m" e] that(2) [of "pm_next_ctx m + 1" e] Some r Inl upd by auto
  qed
qed

lemma contexts_okD:
  assumes "contexts_ok m"
  shows "distinct (pm_live m)" "x \<in> set (pm_live m) \<Longrightarrow> x < pm_next_ctx m"
    "set (pm_live m) = ci_ctx ` ran (pm_running m)"
    "pm_running m n = Some i \<Longrightarrow> pm_running m n' = Some i' \<Longrightarrow> ci_ctx i = ci_ctx i' \<Longrightarrow> n = n'"
  using assms unfolding contexts_ok_def by blast+

lemma contexts_ok_next: "contexts_ok m \<Longrightarrow> pm_next_ctx m \<notin> set (pm_live m)"
  using contexts_okD(2) by blast

lemma contexts_ok_frame:
  "contexts_ok m \<Longrightarrow> pm_next_ctx m \<le> k \<Longrightarrow> contexts_ok (m\<lparr>pm_next_ctx := k\<rparr>)"
  by (fastforce simp: contexts_ok_def)

text \<open>Cancelling the collector of a name.\<close>

definition drop_collector :: "bytes \<Rightarrow> collector_instance \<Rightarrow> 'd perf_manager \<Rightarrow> 'd perf_manager" where
  "drop_collector name inst m =
     (cancel_ctx (ci_ctx inst) m)\<lparr>pm_running := (pm_running m)(name := None)\<rparr>"

lemma drop_collector_ok:
  assumes "contexts_ok m" "pm_running m name = Some inst"
  shows "contexts_ok (drop_collector name inst m)"
proof -
  have "ci_ctx ` ran ((pm_running m)(name := None)) = ci_ctx ` ran (pm_running m) - {ci_ctx inst}"
  proof (rule set_eqI)
    fix x
    have "x \<in> ci_ctx ` ran ((pm_running m)(name := None)) \<longleftrightarrow>
        (\<exists>n i. n \<noteq> name \<and> pm_running m n = Some i \<and> x = ci_ctx i)"
      by (auto simp: ran_def split: if_splits)
    also have "\<dots> \<longleftrightarrow> (\<exists>n i. pm_running m n = Some i \<and> x = ci_ctx i) \<and> x \<noteq> ci_ctx inst"
      using assms(2) contexts_okD(4) [OF assms(1), of _ _ name inst] by (metis option.inject)
    finally show "x \<in> ci_ctx ` ran ((pm_running m)(name := None)) \<longleftrightarrow>
        x \<in> ci_ctx ` ran (pm_running m) - {ci_ctx inst}"
      by (auto simp: ran_def)
  qed
  then show ?thesis
    using contexts_okD [OF assms(1)]
    by (auto simp: contexts_ok_def drop_collector_def cancel_ctx_def distinct_removeAll split: if_splits)
qed

lemma drop_collector_simps [simp]:
  "pm_running (drop_collector name inst m) = (pm_running m)(name := None)"
  "pm_events (drop_collector name inst m) = pm_events m"
  "pm_next_ctx (drop_collector name inst m) = pm_next_ctx m"
  "same_paths m (drop_collector name inst m)"
  by (simp_all add: drop_collector_def cancel_ctx_def same_paths_def)

lemma start_ok:
  assumes "contexts_ok m" "pm_running m name = None"
  shows "contexts_ok (m\<lparr>pm_next_ctx := pm_next_ctx m + 1, pm_live := pm_live m @ [pm_next_ctx m],
      pm_events := mg, pm_running := (pm_running m)(name \<mapsto> \<lparr>ci_version = v, ci_ctx = pm_next_ctx m\<rparr>)\<rparr>)"
proof -
  have "ran ((pm_running m)(name \<mapsto> \<lparr>ci_version = v, ci_ctx = pm_next_ctx m\<rparr>)) =
      insert \<lparr>ci_version = v, ci_ctx = pm_next_ctx m\<rparr> (ran (pm_running m))"
    using assms(2) by simp
  moreover have "ci_ctx i < pm_next_ctx m" if "pm_running m n = Some i" for n i
    using that contexts_okD(2,3) [OF assms(1)] by (auto simp: ran_def)
  ultimately show ?thesis
    using contexts_okD [OF assms(1)] contexts_ok_next [OF assms(1)]
    by (fastforce simp: contexts_ok_def split: if_splits)
qed

lemma start_and_record_spec:
  assumes "contexts_ok m" "pm_running m (Name config) = None" "\<not> m_add_closed (pm_events m)"
  shows "\<exists>m'. start_and_record env config m = Some m' \<and> contexts_ok m' \<and> same_paths m m' \<and>
    \<not> m_add_closed (pm_events m') \<and>
    GetRunningCollectors m' = (GetRunningCollectors m)
      (Name config := if can_start env config m then Some (Version config) else None)"
  using assms(3) contexts_ok_next [OF assms(1)]
proof (cases rule: startCollector_cases [of m env config])
  case (started events)
  then show ?thesis using start_ok [OF assms(1,2)] assms(3)
    by (auto simp: start_and_record_def GetRunningCollectors_def same_paths_def fun_eq_iff)
next
  case (failed e n)
  then show ?thesis using contexts_ok_frame [OF assms(1)] assms(2,3)
    by (auto simp: start_and_record_def GetRunningCollectors_def same_paths_def fun_eq_iff)
qed

text \<open>
  The handlers refine the abstract effect on versions, and other names are not touched.
\<close>

lemma handle_config_spec:
  assumes "contexts_ok m" "\<not> m_add_closed (pm_events m)"
  shows "\<exists>m'. handle_config env config m = Some m' \<and> contexts_ok m' \<and> same_paths m m' \<and>
    \<not> m_add_closed (pm_events m') \<and>
    GetRunningCollectors m' = (GetRunningCollectors m)
      (Name config := next_version config (can_start env config m) (GetRunningCollectors m (Name config)))"
proof (cases "pm_running m (Name config)")
  case None
  then show ?thesis using assms start_and_record_spec [OF assms(1) None assms(2), of env]
    by (auto simp: handle_config_def handleExpiredConfig_def handleActiveConfig_def next_version_def
        GetRunningCollectors_def same_paths_def fun_eq_iff)
next
  case (Some inst)
  let ?d = "drop_collector (Name config) inst m"
  have drop: "contexts_ok ?d" "GetRunningCollectors ?d = (GetRunningCollectors m)(Name config := None)"
    using drop_collector_ok [OF assms(1) Some] by (auto simp: GetRunningCollectors_def fun_eq_iff)
  have paths: "can_start env config ?d = can_start env config m"
    by (rule can_start_frame) (simp_all add: drop_collector_def cancel_ctx_def)
  have start: "\<exists>m'. start_and_record env config ?d = Some m' \<and> contexts_ok m' \<and> same_paths m m' \<and>
    \<not> m_add_closed (pm_events m') \<and>
    GetRunningCollectors m' = (GetRunningCollectors m)
      (Name config := if can_start env config m then Some (Version config) else None)"
    using start_and_record_spec [OF drop(1), of config env] assms(2) drop(2) paths
      drop_collector_simps(4) [of m "Name config" inst]
    by (auto simp: same_paths_def)
  consider "Expired config" | "\<not> Expired config" "ci_version inst = Version config"
    | "\<not> Expired config" "ci_version inst \<noteq> Version config" by blast
  then show ?thesis
  proof cases
    case 1
    then show ?thesis using Some drop assms(2)
      by (auto simp: handle_config_def handleExpiredConfig_def next_version_def
          drop_collector_def [symmetric])
  next
    case 2
    then show ?thesis using Some assms
      by (auto simp: handle_config_def handleActiveConfig_def next_version_def same_paths_def
          GetRunningCollectors_def fun_eq_iff)
  next
    case 3
    then show ?thesis using Some start
      by (auto simp: handle_config_def handleActiveConfig_def next_version_def
          drop_collector_def [symmetric] GetRunningCollectors_def)
  qed
qed

lemma cancel_all:
  "pm_live (fold (\<lambda>name s. case r name of None \<Rightarrow> s | Some inst \<Rightarrow> cancel_ctx (ci_ctx inst) s) order m) =
     filter (\<lambda>x. \<forall>name \<in> set order. \<forall>inst. r name = Some inst \<longrightarrow> x \<noteq> ci_ctx inst) (pm_live m)"
proof (induction order arbitrary: m)
  case (Cons name order)
  then show ?case
    by (cases "r name") (auto simp: cancel_ctx_def removeAll_filter_not_eq intro: filter_cong)
qed simp

lemma stopAllCollectors_spec:
  assumes "contexts_ok m" "map_order (pm_running m) order"
  shows "pm_live (stopAllCollectors order m) = []" "pm_running (stopAllCollectors order m) = Map.empty"
proof -
  have "\<exists>name \<in> set order. \<exists>inst. pm_running m name = Some inst \<and> x = ci_ctx inst" if "x \<in> set (pm_live m)" for x
    using that contexts_okD(3) [OF assms(1)] assms(2) by (fastforce simp: map_order_def ran_def)
  then show "pm_live (stopAllCollectors order m) = []"
    by (fastforce simp: stopAllCollectors_def cancel_all filter_empty_conv)
qed (simp add: stopAllCollectors_def)

lemma stopAllCollectors_events [simp]: "pm_events (stopAllCollectors order m) = pm_events m"
proof -
  have "pm_events (fold (\<lambda>name s. case r name of None \<Rightarrow> s | Some inst \<Rightarrow> cancel_ctx (ci_ctx inst) s) order m) =
      pm_events m" for r
    by (induction order arbitrary: m) (auto simp: cancel_ctx_def split: option.splits)
  then show ?thesis by (simp add: stopAllCollectors_def)
qed

text \<open>The handlers touch the merger only through \<open>Add\<close>.\<close>

definition adders_extended :: "'d merger \<Rightarrow> 'd merger \<Rightarrow> bool" where
  "adders_extended mg mg' \<longleftrightarrow> (\<exists>as. mg' = mg\<lparr>m_adders := m_adders mg @ as\<rparr>)"

lemma adders_extended_intros [simp]:
  "adders_extended mg mg" "adders_extended mg (mg\<lparr>m_adders := m_adders mg @ as\<rparr>)"
  by (auto simp: adders_extended_def intro: exI [of _ "[]"])

lemma handle_config_events:
  assumes "handle_config env config m = Some m'"
  shows "adders_extended (pm_events m) (pm_events m')"
proof -
  have start: "adders_extended (pm_events m1) (pm_events m2)"
    if "start_and_record env config m1 = Some m2" for m1 m2 :: "'a perf_manager"
    using that
    by (auto simp: start_and_record_def startCollector_def Let_def new_ctx_def cancel_ctx_def merger_Add_def
        split: option.splits if_splits sum.splits)
  show ?thesis
  proof (cases "pm_running m (Name config)")
    case None
    then show ?thesis using assms start
      by (auto simp: handle_config_def handleExpiredConfig_def handleActiveConfig_def split: if_splits)
  next
    case (Some inst)
    then show ?thesis using assms start [of "drop_collector (Name config) inst m" m']
      by (auto simp: handle_config_def handleExpiredConfig_def handleActiveConfig_def
          drop_collector_def [symmetric] split: if_splits)
  qed
qed

section \<open>The goroutines of the manager\<close>

text \<open>
  \<open>Start\<close> runs \<open>eventCollector\<close> and \<open>collectorManager\<close> beside the merger's loop. The system
  state adds the context of \<open>Start\<close>, the watcher's channel, which goroutine still runs, the
  router and the events published. \<open>collectorManager\<close> waits in \<open>Add\<close> while the merger has
  an adder, as it is the only caller.
\<close>

record ('d, 'r) perf_system =
  ps_manager :: "'d perf_manager"
  ps_ctx_done :: bool
  ps_configs :: "config_instance list"
  ps_configs_closed :: bool
  ps_collecting :: bool
  ps_managing :: bool
  ps_returned :: bool
  ps_router :: 'r

text \<open>The event handed to the router; the clock and the node names are filled in later.\<close>

definition metric_of_event :: "instant \<Rightarrow> 'd perf_event \<Rightarrow> 'd option metric_event" where
  "metric_of_event now event =
     \<lparr>Timestamp = now, Source = ''performance-collector'', NodeName = '''', ClusterName = '''',
      MetricType = pe_metric event, Data = pe_data event\<rparr>"

text \<open>
  One iteration of \<open>eventCollector\<close>: its context is done, or it receives an event and
  publishes it (\<open>publish\<close> is \<open>Publish\<close> of the router, whose error is only logged).
\<close>

definition eventCollector_done :: "('d, 'r) perf_system \<Rightarrow> ('d, 'r) perf_system option" where
  "eventCollector_done s =
     (if ps_collecting s \<and> ps_ctx_done s then Some (s\<lparr>ps_collecting := False\<rparr>) else None)"

definition eventCollector_recv :: "('d option metric_event \<Rightarrow> 'r \<Rightarrow> 'r) \<Rightarrow> instant \<Rightarrow> ('d, 'r) perf_system \<Rightarrow>
    ('d, 'r) perf_system option" where
  "eventCollector_recv publish now s =
     (if \<not> ps_collecting s then None
      else (case out_recv (pm_events (ps_manager s)) of
              Inl _ \<Rightarrow> None
            | Inr (None, mg) \<Rightarrow> Some (s\<lparr>ps_collecting := False\<rparr>)
            | Inr (Some ev, mg) \<Rightarrow>
                Some (s\<lparr>ps_manager := (ps_manager s)\<lparr>pm_events := mg\<rparr>,
                        ps_router := publish (metric_of_event now ev) (ps_router s)\<rparr>)))"

text \<open>
  One iteration of \<open>collectorManager\<close>. A closed config channel keeps delivering the zero
  instance, which the code handles like any other.
\<close>

definition collectorManager_done :: "bytes list \<Rightarrow> ('d, 'r) perf_system \<Rightarrow> ('d, 'r) perf_system option" where
  "collectorManager_done order s =
     (if ps_managing s \<and> m_adders (pm_events (ps_manager s)) = [] \<and> ps_ctx_done s
      then Some (s\<lparr>ps_manager := stopAllCollectors order (ps_manager s), ps_managing := False\<rparr>)
      else None)"

definition collectorManager_recv :: "('c, 'k) collector_env \<Rightarrow> ('d, 'r) perf_system \<Rightarrow>
    ('d, 'r) perf_system option" where
  "collectorManager_recv env s =
     (if \<not> (ps_managing s \<and> m_adders (pm_events (ps_manager s)) = []) then None
      else (case ps_configs s of
              config # rest \<Rightarrow>
                map_option (\<lambda>m. s\<lparr>ps_manager := m, ps_configs := rest\<rparr>)
                  (handle_config env config (ps_manager s))
            | [] \<Rightarrow>
                if ps_configs_closed s
                then map_option (\<lambda>m. s\<lparr>ps_manager := m\<rparr>) (handle_config env empty_instance (ps_manager s))
                else None))"

text \<open>The end of \<open>Start\<close>, after \<open>wg.Wait()\<close>.\<close>

definition Start_return :: "('d, 'r) perf_system \<Rightarrow> ('d, 'r) perf_system option" where
  "Start_return s =
     (if ps_collecting s \<or> ps_managing s \<or> ps_returned s then None
      else (case merger_Close (pm_events (ps_manager s)) of
              Inl _ \<Rightarrow> None
            | Inr mg \<Rightarrow> Some (s\<lparr>ps_manager := (ps_manager s)\<lparr>pm_events := mg\<rparr>, ps_returned := True\<rparr>)))"

text \<open>
  Steps of the system. The environment cancels the context, delivers configs, closes the config
  channel, and the collectors send events and close their channels; the merger's loop selects
  and forwards.
\<close>

datatype ('c, 'k, 'd) perf_event_step =
  PsCancel | PsDeliver config_instance | PsCloseConfigs
| PsSend nat "'d perf_event" | PsCloseInput nat | PsSelect nat | PsForward
| PsEventDone | PsEvent instant | PsManagerDone "bytes list" | PsConfig "('c, 'k) collector_env" | PsReturn

text \<open>The steps of the manager's own goroutines.\<close>

fun own_step :: "('c, 'k, 'd) perf_event_step \<Rightarrow> bool" where
  "own_step PsCancel = False"
| "own_step (PsDeliver _) = False"
| "own_step PsCloseConfigs = False"
| "own_step (PsSend _ _) = False"
| "own_step (PsCloseInput _) = False"
| "own_step _ = True"

definition merger_part :: "'d perf_event merger_event \<Rightarrow> ('d, 'r) perf_system \<Rightarrow> ('d, 'r) perf_system option" where
  "merger_part e s =
     (case merger_step e (pm_events (ps_manager s)) of
        Inl _ \<Rightarrow> None
      | Inr (_, mg) \<Rightarrow> Some (s\<lparr>ps_manager := (ps_manager s)\<lparr>pm_events := mg\<rparr>\<rparr>))"

fun perf_step :: "('d option metric_event \<Rightarrow> 'r \<Rightarrow> 'r) \<Rightarrow> ('c, 'k, 'd) perf_event_step \<Rightarrow>
    ('d, 'r) perf_system \<Rightarrow> ('d, 'r) perf_system option" where
  "perf_step publish PsCancel s = Some (s\<lparr>ps_ctx_done := True\<rparr>)"
| "perf_step publish (PsDeliver c) s =
     (if ps_configs_closed s then None else Some (s\<lparr>ps_configs := ps_configs s @ [c]\<rparr>))"
| "perf_step publish PsCloseConfigs s = Some (s\<lparr>ps_configs_closed := True\<rparr>)"
| "perf_step publish (PsSend c ev) s = merger_part (EvSend c ev) s"
| "perf_step publish (PsCloseInput c) s = merger_part (EvCloseInput c) s"
| "perf_step publish (PsSelect i) s = merger_part (EvSelect i) s"
| "perf_step publish PsForward s = merger_part EvForward s"
| "perf_step publish PsEventDone s = eventCollector_done s"
| "perf_step publish (PsEvent now) s = eventCollector_recv publish now s"
| "perf_step publish (PsManagerDone order) s = collectorManager_done order s"
| "perf_step publish (PsConfig env) s = collectorManager_recv env s"
| "perf_step publish PsReturn s = Start_return s"

definition perf_Start :: "'d perf_manager \<Rightarrow> 'r \<Rightarrow> ('d, 'r) perf_system" where
  "perf_Start m router =
     \<lparr>ps_manager = m, ps_ctx_done = False, ps_configs = [], ps_configs_closed = False,
      ps_collecting = True, ps_managing = True, ps_returned = False, ps_router = router\<rparr>"

text \<open>
  Reachable states. The order in which \<open>stopAllCollectors\<close> visits its map is one of the map's
  iteration orders.
\<close>

definition order_ok :: "('c, 'k, 'd) perf_event_step \<Rightarrow> ('d, 'r) perf_system \<Rightarrow> bool" where
  "order_ok e s \<longleftrightarrow> (\<forall>order. e = PsManagerDone order \<longrightarrow> map_order (pm_running (ps_manager s)) order)"

inductive perf_reachable :: "('d option metric_event \<Rightarrow> 'r \<Rightarrow> 'r) \<Rightarrow> ('d, 'r) perf_system \<Rightarrow>
    ('c, 'k, 'd) perf_event_step list \<Rightarrow> ('d, 'r) perf_system \<Rightarrow> bool"
  for publish :: "'d option metric_event \<Rightarrow> 'r \<Rightarrow> 'r" and s0 :: "('d, 'r) perf_system" where
  start: "perf_reachable publish s0 [] s0"
| step: "perf_reachable publish s0 es s \<Longrightarrow> order_ok e s \<Longrightarrow> perf_step publish e s = Some s' \<Longrightarrow>
    perf_reachable publish s0 (es @ [e]) s'"

inductive_cases perf_reachable_snocE: "perf_reachable publish s0 (es @ [e]) s"

section \<open>Invariants of the running manager\<close>

text \<open>A run over a list of configs, each with the environment it meets.\<close>

fun handle_configs :: "(('c, 'k) collector_env \<times> config_instance) list \<Rightarrow> 'd perf_manager \<Rightarrow>
    'd perf_manager option" where
  "handle_configs [] m = Some m"
| "handle_configs ((env, config) # cs) m =
     (case handle_config env config m of None \<Rightarrow> None | Some m' \<Rightarrow> handle_configs cs m')"

definition configs_of :: "bytes \<Rightarrow> ('a \<times> config_instance) list \<Rightarrow> ('a \<times> config_instance) list" where
  "configs_of name cs = filter (\<lambda>(env, c). Name c = name) cs"

lemma handle_configs_spec:
  assumes "contexts_ok m" "\<not> m_add_closed (pm_events m)"
  shows "\<exists>m'. handle_configs cs m = Some m' \<and> contexts_ok m' \<and> same_paths m m' \<and>
    \<not> m_add_closed (pm_events m') \<and>
    (\<forall>name. GetRunningCollectors m' name =
       fold (\<lambda>(env, c). next_version c (can_start env c m)) (configs_of name cs) (GetRunningCollectors m name))"
  using assms
proof (induction cs arbitrary: m)
  case Nil
  then show ?case by (auto simp: same_paths_def configs_of_def)
next
  case (Cons ec cs)
  obtain env c where ec: "ec = (env, c)" by (cases ec)
  obtain m1 where m1: "handle_config env c m = Some m1" "contexts_ok m1" "same_paths m m1"
      "\<not> m_add_closed (pm_events m1)"
    and run: "GetRunningCollectors m1 = (GetRunningCollectors m)
      (Name c := next_version c (can_start env c m) (GetRunningCollectors m (Name c)))"
    using handle_config_spec [OF Cons.prems, of env c] by auto
  obtain m' where m': "handle_configs cs m1 = Some m'" "contexts_ok m'" "same_paths m1 m'"
      "\<not> m_add_closed (pm_events m')"
    and run': "\<forall>name. GetRunningCollectors m' name =
       fold (\<lambda>(env, c). next_version c (can_start env c m1)) (configs_of name cs) (GetRunningCollectors m1 name)"
    using Cons.IH [OF m1(2,4)] by auto
  have paths: "pm_proc m1 = pm_proc m" "pm_sys m1 = pm_sys m" "pm_dev m1 = pm_dev m"
    using m1(3) by (auto simp: same_paths_def)
  have "\<forall>name. GetRunningCollectors m' name = fold (\<lambda>(env, c). next_version c (can_start env c m))
      (configs_of name (ec # cs)) (GetRunningCollectors m name)"
    using run run' by (simp add: ec configs_of_def can_start_frame [OF paths])
  then show ?case using m1 m' by (auto simp: ec same_paths_def)
qed

text \<open>
  The invariant of the system: contexts as above; when \<open>collectorManager\<close> has ended nothing
  runs and nobody waits in \<open>Add\<close>; the merger is closed exactly when \<open>Start\<close> has returned,
  which it does after both goroutines.
\<close>

definition perf_inv :: "('d, 'r) perf_system \<Rightarrow> bool" where
  "perf_inv s \<longleftrightarrow>
     contexts_ok (ps_manager s) \<and>
     (\<not> ps_managing s \<longrightarrow> pm_live (ps_manager s) = [] \<and> pm_running (ps_manager s) = Map.empty \<and>
        m_adders (pm_events (ps_manager s)) = []) \<and>
     (m_add_closed (pm_events (ps_manager s)) \<longleftrightarrow> ps_returned s) \<and>
     (ps_returned s \<longrightarrow> \<not> ps_managing s \<and> \<not> ps_collecting s)"

lemma contexts_ok_events [simp]: "contexts_ok (m\<lparr>pm_events := mg\<rparr>) = contexts_ok m"
  by (simp add: contexts_ok_def)

lemma select_adders:
  assumes "run_select i m = Inr m'"
  shows "m_add_closed m' = m_add_closed m" "m_adders m = [] \<Longrightarrow> m_adders m' = []"
  using assms
  by (cases "m_cases m ! i"; auto simp: run_select_def run_return_def Let_def
      split: if_splits option.splits list.splits run_action.splits)+

lemma merger_step_adders:
  assumes "merger_step e m = Inr (xs, m')" "e \<noteq> EvClose" "\<forall>c. e \<noteq> EvAdd c"
  shows "m_add_closed m' = m_add_closed m \<and> (m_adders m = [] \<longrightarrow> m_adders m' = [])"
  using assms(1)
proof (cases rule: merger_step_cases)
  case (select i)
  then show ?thesis using select_adders by blast
next
  case forward
  show ?thesis using forward(3) by (rule run_send_cases) simp
next
  case (receive v)
  show ?thesis using receive(3) by (cases rule: out_recv_cases) auto
qed (use assms(2,3) in auto)

lemma merger_part_inv:
  assumes "merger_part e s = Some s'" "perf_inv s" "e \<noteq> EvClose" "\<forall>c. e \<noteq> EvAdd c"
  shows "perf_inv s'"
proof -
  obtain xs mg where "merger_step e (pm_events (ps_manager s)) = Inr (xs, mg)"
    "s' = s\<lparr>ps_manager := (ps_manager s)\<lparr>pm_events := mg\<rparr>\<rparr>"
    using assms(1) by (auto simp: merger_part_def split: sum.splits)
  then show ?thesis using merger_step_adders [OF _ assms(3,4)] assms(2)
    by (fastforce simp: perf_inv_def)
qed

lemma perf_inv_configs [simp]: "perf_inv (s\<lparr>ps_manager := m, ps_configs := cs\<rparr>) = perf_inv (s\<lparr>ps_manager := m\<rparr>)"
  by (simp add: perf_inv_def)

lemma config_inv:
  assumes "handle_config env c (ps_manager s) = Some m" "perf_inv s" "ps_managing s"
  shows "perf_inv (s\<lparr>ps_manager := m\<rparr>)"
proof -
  have "\<not> m_add_closed (pm_events (ps_manager s))" "contexts_ok (ps_manager s)"
    using assms(2,3) by (auto simp: perf_inv_def)
  from handle_config_spec [OF this(2,1), of env c] assms show ?thesis by (auto simp: perf_inv_def)
qed

lemma perf_step_inv:
  assumes "perf_step publish e s = Some s'" "order_ok e s" "perf_inv s"
  shows "perf_inv s'"
proof (cases e)
  case (PsConfig env)
  then obtain c m where "handle_config env c (ps_manager s) = Some m" "ps_managing s"
      "perf_inv s' = perf_inv (s\<lparr>ps_manager := m\<rparr>)"
    using assms(1) by (cases "ps_configs s") (auto simp: collectorManager_recv_def split: if_splits)
  then show ?thesis using config_inv [OF _ assms(3)] by blast
next
  case (PsManagerDone order)
  have ord: "map_order (pm_running (ps_manager s)) order" using assms(2) PsManagerDone by (simp add: order_ok_def)
  have ctx: "contexts_ok (ps_manager s)" using assms(3) by (simp add: perf_inv_def)
  show ?thesis using assms(1,3) PsManagerDone stopAllCollectors_spec [OF ctx ord]
    by (auto simp: collectorManager_done_def perf_inv_def contexts_ok_def split: if_splits)
next
  case (PsEvent now)
  show ?thesis
  proof (cases "out_recv (pm_events (ps_manager s))")
    case (Inl e)
    then show ?thesis using assms(1) PsEvent by (simp add: eventCollector_recv_def split: if_splits)
  next
    case (Inr r)
    obtain v mg where r: "r = (v, mg)" by (cases r)
    have "m_add_closed mg = m_add_closed (pm_events (ps_manager s))" "m_adders mg = m_adders (pm_events (ps_manager s))"
      using Inr unfolding r by (cases rule: out_recv_cases; simp)+
    then show ?thesis using assms(1,3) PsEvent Inr r
      by (auto simp: eventCollector_recv_def perf_inv_def split: if_splits option.splits)
  qed
next
  case PsReturn
  then show ?thesis using assms(1,3)
    by (auto simp: Start_return_def merger_Close_def perf_inv_def split: if_splits sum.splits)
qed (use assms merger_part_inv in \<open>auto simp: perf_inv_def eventCollector_done_def split: if_splits\<close>)

lemma perf_reachable_inv: "perf_reachable publish s0 es s \<Longrightarrow> perf_inv s0 \<Longrightarrow> perf_inv s"
  by (induction rule: perf_reachable.induct) (auto intro: perf_step_inv)

lemma apply_options_frame [simp]:
  "pm_running (fold apply_option opts m) = pm_running m" "pm_events (fold apply_option opts m) = pm_events m"
  "pm_next_ctx (fold apply_option opts m) = pm_next_ctx m" "pm_live (fold apply_option opts m) = pm_live m"
proof -
  have "pm_running (apply_option opt m) = pm_running m \<and> pm_events (apply_option opt m) = pm_events m \<and>
      pm_next_ctx (apply_option opt m) = pm_next_ctx m \<and> pm_live (apply_option opt m) = pm_live m"
    for opt and m :: "'a perf_manager"
    by (cases opt) simp_all
  then show "pm_running (fold apply_option opts m) = pm_running m"
    "pm_events (fold apply_option opts m) = pm_events m"
    "pm_next_ctx (fold apply_option opts m) = pm_next_ctx m" "pm_live (fold apply_option opts m) = pm_live m"
    by (induction opts arbitrary: m) simp_all
qed

lemma perf_New_fresh:
  assumes "perf_New getenv chans l r opts = Inr m"
  shows "pm_running m = Map.empty" "pm_events m = NewMerger chans []" "pm_live m = []" "pm_next_ctx m = 0"
  using assms by (auto simp: perf_New_def Let_def split: if_splits)

lemma perf_New_inv:
  assumes "perf_New getenv chans l r opts = Inr m"
  shows "perf_inv (perf_Start m router)"
  using perf_New_fresh [OF assms] by (simp add: perf_inv_def perf_Start_def contexts_ok_def NewMerger_def)

section \<open>Events on their way to the router\<close>

text \<open>What the collectors send on a channel in a trace.\<close>

fun perf_sends :: "nat \<Rightarrow> ('c, 'k, 'd) perf_event_step \<Rightarrow> 'd perf_event list" where
  "perf_sends c (PsSend d ev) = (if d = c then [ev] else [])"
| "perf_sends c _ = []"

text \<open>
  To observe the router, let it be the list of the events published; this is the collector's
  event in a published one.
\<close>

definition event_of_metric :: "'d option metric_event \<Rightarrow> 'd perf_event" where
  "event_of_metric e = \<lparr>pe_metric = MetricType e, pe_data = Data e\<rparr>"

lemma event_of_metric [simp]: "event_of_metric (metric_of_event now ev) = ev"
  by (simp add: event_of_metric_def metric_of_event_def)

definition log_event :: "'d option metric_event \<Rightarrow> 'd option metric_event list \<Rightarrow> 'd option metric_event list" where
  "log_event e log = log @ [e]"

text \<open>What has been published or is still on its way, of one collector.\<close>

definition perf_stream :: "('d perf_event \<Rightarrow> nat) \<Rightarrow> nat \<Rightarrow> ('d, 'd option metric_event list) perf_system \<Rightarrow>
    'd perf_event list" where
  "perf_stream src c s =
     filter (\<lambda>ev. src ev = c) (map event_of_metric (ps_router s)) @ merger_held src (pm_events (ps_manager s)) c"

lemma merger_frame [simp]:
  "merger_inv src (m\<lparr>m_adders := as\<rparr>) = merger_inv src m"
  "merger_held src (m\<lparr>m_adders := as\<rparr>) c = merger_held src m c"
  "merger_inv src (m\<lparr>m_add_closed := a, m_done_closed := b\<rparr>) = merger_inv src m"
  "merger_held src (m\<lparr>m_add_closed := a, m_done_closed := b\<rparr>) c = merger_held src m c"
  by (simp_all add: merger_inv_def merger_held_def)

lemma merger_part_stream:
  assumes "merger_part e s = Some s'" "merger_inv src (pm_events (ps_manager s))" "e \<noteq> EvReceive"
    "\<forall>c. \<forall>x \<in> set (event_sends c e). src x = c"
  shows "merger_inv src (pm_events (ps_manager s')) \<and>
    perf_stream src c s' = perf_stream src c s @ event_sends c e"
proof -
  obtain xs mg where mg: "merger_step e (pm_events (ps_manager s)) = Inr (xs, mg)"
      "s' = s\<lparr>ps_manager := (ps_manager s)\<lparr>pm_events := mg\<rparr>\<rparr>"
    using assms(1) by (auto simp: merger_part_def split: sum.splits)
  have "xs = []" using mg(1) assms(3) by (cases rule: merger_step_cases) auto
  then show ?thesis
    using merger_step_inv [OF mg(1) assms(2,4)] merger_step_held [OF mg(1) assms(2), of c] mg(2)
    by (simp add: perf_stream_def)
qed

lemma event_recv_stream:
  assumes "eventCollector_recv log_event now s = Some s'" "merger_inv src (pm_events (ps_manager s))"
  shows "merger_inv src (pm_events (ps_manager s')) \<and> perf_stream src c s' = perf_stream src c s"
proof -
  obtain v mg where v: "out_recv (pm_events (ps_manager s)) = Inr (v, mg)" and
    s': "s' = (case v of None \<Rightarrow> s\<lparr>ps_collecting := False\<rparr>
      | Some ev \<Rightarrow> s\<lparr>ps_manager := (ps_manager s)\<lparr>pm_events := mg\<rparr>,
                     ps_router := log_event (metric_of_event now ev) (ps_router s)\<rparr>)"
    using assms(1) by (auto simp: eventCollector_recv_def split: if_splits sum.splits option.splits)
  have step: "merger_step EvReceive (pm_events (ps_manager s)) =
      Inr ((case v of None \<Rightarrow> [] | Some x \<Rightarrow> [x]), mg)"
    using v by simp
  have "merger_inv src mg" by (rule merger_step_inv [OF step assms(2)]) simp
  then show ?thesis using merger_step_held [OF step assms(2), of c] s' assms(2)
    by (auto simp: perf_stream_def log_event_def split: option.splits)
qed

lemma config_recv_stream:
  assumes "collectorManager_recv env s = Some s'"
  shows "\<exists>as. pm_events (ps_manager s') = (pm_events (ps_manager s))\<lparr>m_adders := as\<rparr>"
    and "ps_router s' = ps_router s"
proof -
  obtain c m where "handle_config env c (ps_manager s) = Some m" "ps_manager s' = m" "ps_router s' = ps_router s"
    using assms by (auto simp: collectorManager_recv_def split: if_splits list.splits)
  then show "\<exists>as. pm_events (ps_manager s') = (pm_events (ps_manager s))\<lparr>m_adders := as\<rparr>"
    and "ps_router s' = ps_router s"
    using handle_config_events [of env c "ps_manager s" m] by (auto simp: adders_extended_def)
qed

lemma perf_step_stream:
  assumes "perf_step log_event e s = Some s'" "merger_inv src (pm_events (ps_manager s))"
    "\<forall>c. \<forall>x \<in> set (perf_sends c e). src x = c"
  shows "merger_inv src (pm_events (ps_manager s')) \<and>
    perf_stream src c s' = perf_stream src c s @ perf_sends c e"
proof (cases e)
  case (PsSend d ev)
  then show ?thesis using merger_part_stream [of "EvSend d ev" s s' src c] assms by (auto split: if_splits)
next
  case (PsCloseInput d)
  then show ?thesis using merger_part_stream [of "EvCloseInput d" s s' src c] assms by auto
next
  case (PsSelect i)
  then show ?thesis using merger_part_stream [of "EvSelect i" s s' src c] assms by auto
next
  case PsForward
  then show ?thesis using merger_part_stream [of "EvForward" s s' src c] assms by auto
next
  case (PsEvent now)
  then show ?thesis using event_recv_stream [of now s s' src c] assms by auto
next
  case (PsConfig env)
  then show ?thesis using config_recv_stream [of env s s'] assms by (auto simp: perf_stream_def)
next
  case PsReturn
  then show ?thesis using assms(1,2)
    by (auto simp: Start_return_def merger_Close_def perf_stream_def split: if_splits sum.splits)
qed (use assms in \<open>auto simp: perf_stream_def eventCollector_done_def collectorManager_done_def split: if_splits\<close>)

lemma perf_reachable_stream:
  assumes "perf_reachable log_event s0 es s" "merger_inv src (pm_events (ps_manager s0))"
    "\<forall>e \<in> set es. \<forall>c. \<forall>x \<in> set (perf_sends c e). src x = c"
  shows "merger_inv src (pm_events (ps_manager s)) \<and>
    perf_stream src c s = perf_stream src c s0 @ concat (map (perf_sends c) es)"
  using assms
proof (induction rule: perf_reachable.induct)
  case (step es s e s')
  then show ?case using perf_step_stream [of e s s' src c] by simp
qed simp

section \<open>A shutdown that never ends\<close>

text \<open>
  \<open>collectorManager\<close> waits in \<open>Add\<close> for the merger's loop, which waits for a reader of its
  unbuffered output, and the only reader, \<open>eventCollector\<close>, has ended.
\<close>

definition shutdown_stuck :: "('d, 'r) perf_system \<Rightarrow> bool" where
  "shutdown_stuck s \<longleftrightarrow>
     ps_managing s \<and> \<not> ps_collecting s \<and> \<not> ps_returned s \<and>
     m_adders (pm_events (ps_manager s)) \<noteq> [] \<and> merger_stuck (pm_events (ps_manager s))"

lemma merger_part_stuck:
  assumes "merger_part e s = Some s'" "shutdown_stuck s" "e \<noteq> EvReceive"
  shows "shutdown_stuck s'"
  using assms merger_stuck_step [OF _ _ assms(3)]
  by (fastforce simp: merger_part_def shutdown_stuck_def split: sum.splits)

lemma shutdown_stuck_step:
  assumes "perf_step publish e s = Some s'" "shutdown_stuck s"
  shows "shutdown_stuck s'"
proof (cases e)
  case (PsSend d ev)
  then show ?thesis using merger_part_stuck [of "EvSend d ev" s s'] assms by simp
next
  case (PsCloseInput d)
  then show ?thesis using merger_part_stuck [of "EvCloseInput d" s s'] assms by simp
next
  case (PsSelect i)
  then show ?thesis using merger_part_stuck [of "EvSelect i" s s'] assms by simp
next
  case PsForward
  then show ?thesis using merger_part_stuck [of "EvForward" s s'] assms by simp
qed (use assms in \<open>auto simp: shutdown_stuck_def eventCollector_done_def eventCollector_recv_def
    collectorManager_done_def collectorManager_recv_def Start_return_def split: if_splits\<close>)

lemma shutdown_stuck_forever: "perf_reachable publish s es s' \<Longrightarrow> shutdown_stuck s \<Longrightarrow> shutdown_stuck s'"
  by (induction rule: perf_reachable.induct) (auto intro: shutdown_stuck_step)

end
