(* ===== verification/ConfigPipeline.thy ===== *)
theory ConfigPipeline
  imports PerfManager FSLoader "HOL-Library.Multiset"
begin

text \<open>
  From a config file to a running collector: the directory loader's watcher channel feeds the
  performance manager. The watcher is the one that \<open>collectorManager\<close> makes: it filters by the
  type of the collection configs and leaves the status unset, so that the subscription stands
  for valid configs.
\<close>

section \<open>The manager's watcher\<close>

definition manager_filters :: filters where
  "manager_filters = \<lparr>filter_types = [hostStatsCollectionConfigName], filter_status = 0\<rparr>"

text \<open>What the channel of the watcher received after the loader handled some events.\<close>

definition fs_events :: "('c fs_env \<times> fs_event) list \<Rightarrow> fs_loader \<Rightarrow> fs_loader" where
  "fs_events evs fl = fold (\<lambda>(env, ev). handleEvent env ev) evs fl"

definition watcher_channel :: "nat \<Rightarrow> fs_loader \<Rightarrow> config_instance list" where
  "watcher_channel n fl = sb_ch (subs (fl_subs fl) ! n)"

text \<open>The version of the valid config cached for a name.\<close>

definition configured_version :: "fs_loader \<Rightarrow> bytes \<Rightarrow> bytes option" where
  "configured_version fl name =
     (case fs_GetConfig hostStatsCollectionConfigName name fl of
        None \<Rightarrow> None
      | Some i \<Rightarrow> if Object i = None then None else Some (Version i))"

section \<open>Invariant\<close>

text \<open>A valid cached config names a registered collector; an invalid one carries no message.\<close>

definition valid_instance :: "'c registry \<Rightarrow> config_instance \<Rightarrow> bool" where
  "valid_instance reg i \<longleftrightarrow>
     TypeUrl i = hostStatsCollectionConfigName \<and> Status i = StatusOK \<and> \<not> Expired i \<and>
     (\<exists>msg. Object i = Some msg \<and> hs_collector msg \<noteq> '''' \<and> GetCollector reg (hs_collector msg) \<noteq> None)"

definition invalid_instance :: "config_instance \<Rightarrow> bool" where
  "invalid_instance i \<longleftrightarrow> Status i = StatusInvalid \<and> Object i = None \<and> \<not> Expired i"

definition cache_ok :: "'c registry \<Rightarrow> fs_loader \<Rightarrow> bool" where
  "cache_ok reg fl \<longleftrightarrow>
     (\<forall>k i. fs_lookup fl k = Some i \<longrightarrow> instance_key i = k \<and> (valid_instance reg i \<or> invalid_instance i))"

lemma cache_okD:
  "cache_ok reg fl \<Longrightarrow> fs_lookup fl k = Some i \<Longrightarrow>
   instance_key i = k \<and> (valid_instance reg i \<or> invalid_instance i)"
  by (auto simp: cache_ok_def)

text \<open>Collectors of the environment can all be created and started.\<close>

definition starts_all :: "('c, 'k) collector_env \<Rightarrow> bool" where
  "starts_all env \<longleftrightarrow> (\<forall>f config. \<exists>c events. ce_create env f config = Inr c \<and> ce_start env c = Inr events)"

lemma valid_can_start:
  "starts_all env \<Longrightarrow> valid_instance (ce_registry env) i \<Longrightarrow> can_start env i m"
  by (fastforce simp: starts_all_def valid_instance_def can_start_def)

lemma Parse_valid:
  assumes "Parse unmarshal reg p = (i, err)"
  shows "(err = None \<longrightarrow> valid_instance reg i) \<and> (err \<noteq> None \<longrightarrow> invalid_instance i)"
proof (cases err)
  case None
  then show ?thesis
    using assms Parse_accept [of unmarshal reg p i] Parse_collector [of unmarshal reg p i]
    by (auto simp: valid_instance_def)
next
  case (Some e)
  then show ?thesis using assms Parse_reject [of unmarshal reg p i e] by (auto simp: invalid_instance_def)
qed

text \<open>Which instances pass the watcher's filter.\<close>

lemma manager_matches:
  "valid_instance reg i \<Longrightarrow>
     Matches i (manager_filters\<lparr>filter_status := StatusOK\<rparr>)"
  "valid_instance reg i \<Longrightarrow> Matches (i\<lparr>Expired := True\<rparr>) (manager_filters\<lparr>filter_status := StatusOK\<rparr>)"
  "invalid_instance i \<Longrightarrow> \<not> Matches i (manager_filters\<lparr>filter_status := StatusOK\<rparr>)"
  "invalid_instance i \<Longrightarrow> \<not> Matches (i\<lparr>Expired := True\<rparr>) (manager_filters\<lparr>filter_status := StatusOK\<rparr>)"
  by (auto simp: Matches_def manager_filters_def valid_instance_def invalid_instance_def status_distinct)

lemma key_inj: "getCacheKey t n = getCacheKey t n' \<longleftrightarrow> n = n'"
  by (simp add: getCacheKey_def)

section \<open>One file event\<close>

text \<open>What one event does to the cache and sends to the watcher, in one of four ways.\<close>

lemma handleEvent_cases:
  assumes "cfg_registry env = reg" "cache_ok reg fl"
  obtains (quiet) "\<And>k. fs_lookup (handleEvent env ev fl) k = fs_lookup fl k" "fl_subs (handleEvent env ev fl) = fl_subs fl"
  | (valid) i where "valid_instance reg i" "fl_subs (handleEvent env ev fl) = subs_send [i] (fl_subs fl)"
      "\<And>k. fs_lookup (handleEvent env ev fl) k = (if k = instance_key i then Some i else fs_lookup fl k)"
  | (invalid) i where "invalid_instance i" "fl_subs (handleEvent env ev fl) = subs_send [i] (fl_subs fl)"
      "\<And>k. fs_lookup (handleEvent env ev fl) k = fs_lookup fl k \<or>
        (k = instance_key i \<and> (\<forall>j. fs_lookup fl k = Some j \<longrightarrow> Object j = None) \<and>
         fs_lookup (handleEvent env ev fl) k = Some i)"
  | (removed) i where "fs_lookup fl (instance_key i) = Some i"
      "fl_subs (handleEvent env ev fl) = subs_send [i\<lparr>Expired := True\<rparr>] (fl_subs fl)"
      "\<And>k. fs_lookup (handleEvent env ev fl) k = (if k = instance_key i then None else fs_lookup fl k)"
proof -
  consider (none) "handleEvent env ev fl = fl"
    | (load) "handleEvent env ev fl = processConfigFile env (fse_name ev) fl"
    | (delete) "handleEvent env ev fl = handleFileDelete (fse_name ev) fl"
    by (metis handleEvent_def)
  then show thesis
  proof cases
    case none
    then show thesis using quiet by simp
  next
    case load
    obtain inst err fl' where l: "loadConfigFile env (fse_name ev) fl = ((inst, err), fl')" by (metis surj_pair)
    have subs: "fl_subs fl' = fl_subs fl"
      using l by (auto simp: loadConfigFile_def store_config_def Let_def
          split: option.splits if_splits sum.splits prod.splits)
    have new: "fl_subs (handleEvent env ev fl) = subs_send [inst] (fl_subs fl)"
      "fs_lookup (handleEvent env ev fl) k = fs_lookup fl' k" for k
      using l subs by (simp_all add: load processConfigFile_def)
    show thesis
    proof (cases rule: loadConfigFile_cases [OF l])
      case 1
      have "invalid_instance inst" using l 1
        by (auto simp: loadConfigFile_def invalid_instance_def empty_instance_def
            split: option.splits if_splits sum.splits prod.splits
            dest: Parse_reject)
      then show thesis using invalid new 1 by simp
    next
      case (2 obj parseErr)
      show thesis
      proof (cases parseErr)
        case None
        then show thesis using valid [of inst] new Parse_valid [OF 2(1)] assms(1) 2(3)
          by (simp add: store_config_lookup)
      next
        case (Some e)
        have "fs_lookup (handleEvent env ev fl) k = fs_lookup fl k \<or>
          (k = instance_key inst \<and> (\<forall>j. fs_lookup fl k = Some j \<longrightarrow> Object j = None) \<and>
           fs_lookup (handleEvent env ev fl) k = Some inst)" for k
          using new(2) [of k] Some 2(3) by (auto simp: store_config_lookup split: option.splits)
        then show thesis using invalid [of inst] new(1) Parse_valid [OF 2(1)] Some by blast
      qed
    qed
  next
    case delete
    show thesis
    proof (cases "handleFileDelete (fse_name ev) fl = fl")
      case True
      then show thesis using quiet delete by simp
    next
      case False
      then obtain k i where k: "map_of (fl_files fl) (fse_name ev) = Some k" "fs_lookup fl k = Some i"
        by (auto simp: handleFileDelete_def fs_lookup_def split: option.splits)
      have "instance_key i = k" using assms(2) k(2) by (auto simp: cache_ok_def)
      then show thesis
        using removed [of i] k handleFileDelete_removes [OF k] delete by auto
    qed
  qed
qed

section \<open>Collectors follow the configs\<close>

text \<open>The version the manager runs for a name after reading the channel.\<close>

definition watched_version :: "('c, 'k) collector_env \<Rightarrow> 'd perf_manager \<Rightarrow> config_instance list \<Rightarrow>
    bytes \<Rightarrow> bytes option" where
  "watched_version env m ch name =
     fold (\<lambda>(env, c). next_version c (can_start env c m)) (configs_of name (map (Pair env) ch)) None"

lemma watched_version_Nil [simp]: "watched_version env m [] name = None"
  by (simp add: watched_version_def configs_of_def)

lemma watched_version_snoc [simp]:
  "watched_version env m (ch @ [c]) name =
     (if Name c = name then next_version c (can_start env c m) (watched_version env m ch name)
      else watched_version env m ch name)"
  by (simp add: watched_version_def configs_of_def)

lemma next_version_valid:
  "starts_all env \<Longrightarrow> valid_instance (ce_registry env) i \<Longrightarrow>
   next_version i (can_start env i m) r = Some (Version i)"
  using valid_can_start [of env i m] by (auto simp: next_version_def valid_instance_def)

text \<open>The watcher is open and has the manager's filters.\<close>

definition watching :: "nat \<Rightarrow> fs_loader \<Rightarrow> bool" where
  "watching n fl \<longleftrightarrow> \<not> subs_closed (fl_subs fl) \<and> n < length (subs (fl_subs fl)) \<and>
     sb_filters (subs (fl_subs fl) ! n) = manager_filters\<lparr>filter_status := StatusOK\<rparr>"

lemma watching_send:
  assumes "watching n fl" "fl_subs fl' = subs_send [i] (fl_subs fl)"
  shows "watching n fl'"
    "watcher_channel n fl' = watcher_channel n fl @
       (if Matches i (manager_filters\<lparr>filter_status := StatusOK\<rparr>) then [i] else [])"
proof -
  show "watcher_channel n fl' = watcher_channel n fl @
       (if Matches i (manager_filters\<lparr>filter_status := StatusOK\<rparr>) then [i] else [])"
    using assms subs_send_ch [of "fl_subs fl" n "[i]"] by (simp add: watching_def watcher_channel_def)
  show "watching n fl'"
    using assms by (simp add: watching_def subs_send_def sub_deliver_def)
qed

definition in_sync :: "('c, 'k) collector_env \<Rightarrow> 'd perf_manager \<Rightarrow> nat \<Rightarrow> fs_loader \<Rightarrow> bool" where
  "in_sync env m n fl \<longleftrightarrow>
     watching n fl \<and> cache_ok (ce_registry env) fl \<and>
     (\<forall>name. watched_version env m (watcher_channel n fl) name = configured_version fl name)"

lemma configured_version_lookup:
  "configured_version fl name =
     (case fs_lookup fl (getCacheKey hostStatsCollectionConfigName name) of
        None \<Rightarrow> None | Some i \<Rightarrow> if Object i = None then None else Some (Version i))"
  by (simp add: configured_version_def fs_GetConfig_def fs_lookup_def)

lemma valid_key:
  "valid_instance reg i \<Longrightarrow>
   getCacheKey hostStatsCollectionConfigName name = instance_key i \<longleftrightarrow> name = Name i"
  by (auto simp: valid_instance_def instance_key_def key_inj)

text \<open>The three ways in which an event changes the cache keep watcher and cache in step.\<close>

lemma in_sync_valid:
  assumes "in_sync cenv m n fl" "starts_all cenv" "valid_instance (ce_registry cenv) i"
    and "fl_subs fl' = subs_send [i] (fl_subs fl)"
    and look: "\<And>k. fs_lookup fl' k = (if k = instance_key i then Some i else fs_lookup fl k)"
  shows "in_sync cenv m n fl'"
proof -
  have "cache_ok (ce_registry cenv) fl'" using assms(1,3) look by (simp add: in_sync_def cache_ok_def)
  moreover have "Object i \<noteq> None" using assms(3) by (auto simp: valid_instance_def)
  then have "configured_version fl' name = (if Name i = name then Some (Version i) else configured_version fl name)" for name
    unfolding configured_version_lookup look valid_key [OF assms(3)] by auto
  ultimately show ?thesis
    using watching_send [OF _ assms(4), of n] manager_matches(1) [OF assms(3)] assms(1)
      next_version_valid [OF assms(2,3)] by (simp add: in_sync_def)
qed

lemma in_sync_invalid:
  assumes "in_sync cenv m n fl" "invalid_instance i" "fl_subs fl' = subs_send [i] (fl_subs fl)"
    and look: "\<And>k. fs_lookup fl' k = fs_lookup fl k \<or>
      (k = instance_key i \<and> (\<forall>j. fs_lookup fl k = Some j \<longrightarrow> Object j = None) \<and> fs_lookup fl' k = Some i)"
  shows "in_sync cenv m n fl'"
proof -
  have "instance_key j = k \<and> (valid_instance (ce_registry cenv) j \<or> invalid_instance j)"
    if "fs_lookup fl' k = Some j" for k j
    using that assms(1,2) look [of k] unfolding in_sync_def cache_ok_def by (metis option.inject)
  then have "cache_ok (ce_registry cenv) fl'" by (simp add: cache_ok_def)
  moreover have "configured_version fl' name = configured_version fl name" for name
    using look [of "getCacheKey hostStatsCollectionConfigName name"]
  proof
    assume "fs_lookup fl' (getCacheKey hostStatsCollectionConfigName name) =
      fs_lookup fl (getCacheKey hostStatsCollectionConfigName name)"
    then show ?thesis unfolding configured_version_lookup by simp
  next
    assume "getCacheKey hostStatsCollectionConfigName name = instance_key i \<and>
      (\<forall>j. fs_lookup fl (getCacheKey hostStatsCollectionConfigName name) = Some j \<longrightarrow> Object j = None) \<and>
      fs_lookup fl' (getCacheKey hostStatsCollectionConfigName name) = Some i"
    then have "fs_lookup fl' (getCacheKey hostStatsCollectionConfigName name) = Some i"
      "\<forall>j. fs_lookup fl (getCacheKey hostStatsCollectionConfigName name) = Some j \<longrightarrow> Object j = None"
      by blast+
    moreover have "Object i = None" using assms(2) by (simp add: invalid_instance_def)
    ultimately show ?thesis unfolding configured_version_lookup
      by (cases "fs_lookup fl (getCacheKey hostStatsCollectionConfigName name)") simp_all
  qed
  ultimately show ?thesis
    using watching_send [OF _ assms(3), of n] manager_matches(3) [OF assms(2)] assms(1) by (simp add: in_sync_def)
qed

lemma in_sync_removed:
  assumes "in_sync cenv m n fl" "fs_lookup fl (instance_key i) = Some i"
    and "fl_subs fl' = subs_send [i\<lparr>Expired := True\<rparr>] (fl_subs fl)"
    and look: "\<And>k. fs_lookup fl' k = (if k = instance_key i then None else fs_lookup fl k)"
  shows "in_sync cenv m n fl'"
proof -
  have cache: "cache_ok (ce_registry cenv) fl" using assms(1) by (simp add: in_sync_def)
  then have ok: "cache_ok (ce_registry cenv) fl'" using look by (simp add: cache_ok_def)
  have "valid_instance (ce_registry cenv) i \<or> invalid_instance i"
    using cache assms(2) by (auto simp: cache_ok_def)
  then consider (valid) "valid_instance (ce_registry cenv) i" | (invalid) "invalid_instance i" by blast
  then show ?thesis
  proof cases
    case valid
    have "configured_version fl' name = (if Name i = name then None else configured_version fl name)" for name
      unfolding configured_version_lookup look valid_key [OF valid] by auto
    then show ?thesis
      using watching_send [OF _ assms(3), of n] manager_matches(2) [OF valid] assms(1) ok
      by (simp add: in_sync_def next_version_def)
  next
    case invalid
    have "Object i = None" using invalid by (simp add: invalid_instance_def)
    then have "configured_version fl' name = configured_version fl name" for name
      using assms(2) by (cases "getCacheKey hostStatsCollectionConfigName name = instance_key i")
        (simp_all add: configured_version_lookup look)
    then show ?thesis
      using watching_send [OF _ assms(3), of n] manager_matches(4) [OF invalid] assms(1) ok
      by (simp add: in_sync_def)
  qed
qed

lemma in_sync_step:
  assumes "in_sync cenv m n fl" "starts_all cenv" "cfg_registry env = ce_registry cenv"
  shows "in_sync cenv m n (handleEvent env ev fl)"
proof -
  have "cache_ok (ce_registry cenv) fl" using assms(1) by (simp add: in_sync_def)
  with assms(3) show ?thesis
  proof (cases rule: handleEvent_cases [of env _ fl ev])
    case quiet
    then show ?thesis using assms(1)
      unfolding in_sync_def watching_def cache_ok_def watcher_channel_def configured_version_lookup by simp
  next
    case (valid i)
    then show ?thesis by (rule in_sync_valid [OF assms(1,2)])
  next
    case (invalid i)
    then show ?thesis by (rule in_sync_invalid [OF assms(1)])
  next
    case (removed i)
    then show ?thesis by (rule in_sync_removed [OF assms(1)])
  qed
qed

lemma in_sync_events:
  assumes "in_sync cenv m n fl" "starts_all cenv" "\<forall>(env, ev) \<in> set evs. cfg_registry env = ce_registry cenv"
  shows "in_sync cenv m n (fs_events evs fl)"
  using assms(1,3)
proof (induction evs arbitrary: fl)
  case Nil
  then show ?case by (simp add: fs_events_def)
next
  case (Cons x evs)
  obtain env ev where x: "x = (env, ev)" by (cases x)
  have "in_sync cenv m n (handleEvent env ev fl)"
    using in_sync_step [OF Cons.prems(1) assms(2)] Cons.prems(2) x by auto
  then show ?case using Cons.IH Cons.prems(2) x by (auto simp: fs_events_def)
qed

section \<open>The initial listing\<close>

lemma configs_of_Pair: "configs_of name (map (Pair env) L) = map (Pair env) (filter (\<lambda>i. Name i = name) L)"
  by (simp add: configs_of_def filter_map comp_def)

lemma filter_name:
  "distinct (map Name L) \<Longrightarrow> i \<in> set L \<Longrightarrow> filter (\<lambda>j. Name j = Name i) L = [i]"
proof (induction L)
  case (Cons j L)
  have "filter (\<lambda>l. Name l = Name j) L = []" using Cons.prems(1) by (auto simp: filter_empty_conv image_iff)
  then show ?case using Cons by (auto simp: image_iff)
qed simp

lemma watched_version_list:
  assumes "distinct (map Name L)"
  shows "i \<in> set L \<Longrightarrow> watched_version env m L (Name i) = next_version i (can_start env i m) None"
    and "name \<notin> Name ` set L \<Longrightarrow> watched_version env m L name = None"
proof -
  show "watched_version env m L (Name i) = next_version i (can_start env i m) None" if "i \<in> set L"
    using filter_name [OF assms that] by (simp add: watched_version_def configs_of_Pair)
  have "filter (\<lambda>i. Name i = name) L = []" if "name \<notin> Name ` set L"
    using that by (auto simp: filter_empty_conv)
  then show "watched_version env m L name = None" if "name \<notin> Name ` set L"
    using that by (simp add: watched_version_def configs_of_Pair)
qed

text \<open>The configs that the manager's watcher is sent first: those of its type, valid or not.\<close>

definition cached_configs :: "((bytes \<times> config_instance) list \<Rightarrow> (bytes \<times> config_instance) list) \<Rightarrow>
    fs_loader \<Rightarrow> config_instance list" where
  "cached_configs arrange fl = fs_ListConfigs arrange manager_filters fl hostStatsCollectionConfigName"

lemma cached_configs_set:
  assumes "set (arrange (fl_cache fl)) = set (fl_cache fl)" "distinct (map fst (fl_cache fl))" "cache_ok reg fl"
  shows "i \<in> set (cached_configs arrange fl) \<longleftrightarrow>
    TypeUrl i = hostStatsCollectionConfigName \<and>
    fs_lookup fl (getCacheKey hostStatsCollectionConfigName (Name i)) = Some i"
proof -
  have look: "(k, i) \<in> set (fl_cache fl) \<longleftrightarrow> fs_lookup fl k = Some i" for k
    using assms(2) by (simp add: fs_lookup_def)
  have "(\<exists>k. fs_lookup fl k = Some i) \<longleftrightarrow> fs_lookup fl (instance_key i) = Some i"
    using assms(3) by (auto simp: cache_ok_def)
  then show ?thesis using look assms(1)
    by (auto simp: cached_configs_def fs_ListConfigs_def list_by_type_def Matches_def manager_filters_def
        instance_key_def image_iff Bex_def)
qed

lemma cached_configs_distinct:
  assumes "mset (arrange (fl_cache fl)) = mset (fl_cache fl)" "distinct (map fst (fl_cache fl))" "cache_ok reg fl"
  shows "distinct (map Name (cached_configs arrange fl))"
proof -
  let ?L = "filter (\<lambda>x. TypeUrl (snd x) = hostStatsCollectionConfigName) (arrange (fl_cache fl))"
  have eq: "cached_configs arrange fl = map snd ?L"
    by (auto simp: cached_configs_def fs_ListConfigs_def list_by_type_def Matches_def manager_filters_def
        filter_map comp_def intro!: arg_cong [where f = "map snd"] filter_cong)
  have dist: "distinct (map fst ?L)"
    using assms(1,2) by (metis distinct_map_filter mset_eq_imp_distinct_iff mset_map)
  have inst: "fst x = getCacheKey hostStatsCollectionConfigName (Name (snd x))" if "x \<in> set ?L" for x
  proof -
    have "x \<in> set (fl_cache fl)" using that assms(1) by (metis filter_is_subset mset_eq_setD subsetD)
    then have "fs_lookup fl (fst x) = Some (snd x)" using assms(2) by (simp add: fs_lookup_def)
    then have "instance_key (snd x) = fst x" using assms(3) by (auto simp: cache_ok_def)
    then show ?thesis using that by (simp add: instance_key_def)
  qed
  have "map fst ?L = map (getCacheKey hostStatsCollectionConfigName) (map Name (map snd ?L))"
    using inst by simp
  then show ?thesis using dist unfolding eq by (metis distinct_map)
qed

lemma subs_push_fold:
  "n < length (subs s) \<Longrightarrow> fold (subs_push n) L s = s\<lparr>subs := (subs s)[n := (subs s ! n)\<lparr>sb_ch := sb_ch (subs s ! n) @ L\<rparr>]\<rparr>"
  by (induction L arbitrary: s) (simp_all add: subs_push_def)

text \<open>A watcher whose listing ran to its end before the next event is in step with the cache.\<close>

lemma watch_in_sync:
  assumes "fs_Watch manager_filters fl = (Some n, fl1)"
    and "mset (arrange (fl_cache fl)) = mset (fl_cache fl)" "distinct (map fst (fl_cache fl))"
    and "cache_ok (ce_registry env) fl" "starts_all env"
  shows "in_sync env m n (fs_Watch_initial arrange [hostStatsCollectionConfigName] manager_filters n fl1)"
proof -
  let ?L = "cached_configs arrange fl"
  let ?fl = "fs_Watch_initial arrange [hostStatsCollectionConfigName] manager_filters n fl1"
  have fl1: "fl_cache fl1 = fl_cache fl" "watching n fl1" "watcher_channel n fl1 = []"
    using assms(1) by (auto simp: fs_Watch_def subs_add_def watching_def watcher_channel_def Let_def
        manager_filters_def split: if_splits)
  have w: "watching n ?fl" "watcher_channel n ?fl = ?L" "fl_cache ?fl = fl_cache fl"
    using fl1 by (auto simp: fs_Watch_initial_def watching_def watcher_channel_def subs_push_fold
        cached_configs_def fs_ListConfigs_def)
  have look: "fs_lookup ?fl k = fs_lookup fl k" for k using w(3) by (simp add: fs_lookup_def)
  have perm: "set (arrange (fl_cache fl)) = set (fl_cache fl)" using assms(2) by (rule mset_eq_setD)
  note mem = cached_configs_set [of arrange fl, OF perm assms(3,4)]
  note dist = cached_configs_distinct [of arrange fl, OF assms(2-4)]
  have "watched_version env m ?L name = configured_version ?fl name" for name
  proof (cases "\<exists>i \<in> set ?L. Name i = name")
    case True
    then obtain i where i: "i \<in> set ?L" "Name i = name" by blast
    have conf: "configured_version ?fl name = (if Object i = None then None else Some (Version i))"
      using mem [of i] i by (simp add: configured_version_lookup look)
    have "valid_instance (ce_registry env) i \<or> invalid_instance i"
      using mem [of i] i(1) assms(4) by (auto simp: cache_ok_def)
    then have "next_version i (can_start env i m) None = (if Object i = None then None else Some (Version i))"
    proof
      assume v: "valid_instance (ce_registry env) i"
      then have "Object i \<noteq> None" by (auto simp: valid_instance_def)
      then show ?thesis using next_version_valid [OF assms(5) v, of m None] by simp
    next
      assume "invalid_instance i"
      then show ?thesis by (simp add: next_version_def invalid_instance_def can_start_def)
    qed
    then show ?thesis using watched_version_list(1) [OF dist i(1), of env m] i(2) conf by simp
  next
    case False
    have "Object i = None" if "fs_lookup fl (getCacheKey hostStatsCollectionConfigName name) = Some i" for i
    proof (rule ccontr)
      assume "Object i \<noteq> None"
      then have "valid_instance (ce_registry env) i"
        using cache_okD [OF assms(4) that] by (auto simp: invalid_instance_def)
      moreover from this have "Name i = name"
        using cache_okD [OF assms(4) that] valid_key [of "ce_registry env" i name] by simp
      ultimately show False using False mem [of i] that by (auto simp: valid_instance_def)
    qed
    then show ?thesis using watched_version_list(2) [OF dist, of name env m] False
      by (auto simp: configured_version_lookup look split: option.splits)
  qed
  then show ?thesis using w assms(4) by (simp add: in_sync_def cache_ok_def look)
qed

end
