(* ===== verification/PerfProperties.thy ===== *)
theory PerfProperties
  imports ConfigPipeline ConfigProperties
begin

text \<open>
  The guarantees of the performance manager: which collectors run, in which order their events
  reach the router, what shutting down leaves behind and when it hangs.
\<close>

section \<open>Concrete inputs\<close>

text \<open>Every collector starts, and its events come on channel \<open>ch\<close>.\<close>

definition demo_collectors :: "nat \<Rightarrow> (unit, unit) collector_env" where
  "demo_collectors ch =
     \<lparr>ce_registry = demo_registry, ce_create = (\<lambda>_ _. Inr ()), ce_start = (\<lambda>_. Inr ch)\<rparr>"

definition demo_chans :: "nat \<Rightarrow> nat perf_event go_chan" where
  "demo_chans = (\<lambda>_. \<lparr>ch_cap = 10000, ch_queue = [], ch_closed = False\<rparr>)"

definition demo_manager :: "nat perf_manager" where
  "demo_manager =
     \<lparr>pm_running = Map.empty, pm_events = NewMerger demo_chans [], pm_next_ctx = 0, pm_live = [],
      pm_proc = ''/proc'', pm_sys = ''/sys'', pm_dev = ''/dev''\<rparr>"

lemma demo_manager_new: "perf_New (\<lambda>_. '''') demo_chans (Some ()) (Some ()) [] = Inr demo_manager"
  by (simp add: perf_New_def demo_manager_def GetHostPaths_def env_or_def)

definition demo_sample :: "nat \<Rightarrow> nat perf_event" where
  "demo_sample n = \<lparr>pe_metric = ''cpu'', pe_data = Some n\<rparr>"

lemmas demo_perf_defs = demo_collectors_def demo_chans_def demo_manager_def demo_sample_def
  demo_instance_def demo_registry_def

section \<open>Which collectors run\<close>

text \<open>
  C19. The manager runs what the configs ask for. After any sequence of configs, each met by
  collectors that may or may not start, the version running under a name depends on the configs
  of that name only: an expired config stops the collector, a config of the running version
  changes nothing, and any other config leaves its version running if its collector could be
  started and nothing otherwise. No handler panics, and the contexts not cancelled are exactly
  those of the running collectors, one for each: no collector is left behind.
\<close>

theorem perf_manager_runs_configs:
  assumes "perf_New getenv chans l r opts = Inr m"
  shows "\<exists>m'. handle_configs cs m = Some m' \<and> contexts_ok m' \<and>
    (\<forall>name. GetRunningCollectors m' name =
       fold (\<lambda>(env, c). next_version c (can_start env c m)) (configs_of name cs) None)"
proof -
  have "perf_inv (perf_Start m ())" by (rule perf_New_inv [OF assms])
  then have "contexts_ok m" "\<not> m_add_closed (pm_events m)" by (auto simp: perf_inv_def perf_Start_def)
  moreover have "pm_running m = Map.empty" by (rule perf_New_fresh [OF assms])
  then have "GetRunningCollectors m name = None" for name by (simp add: GetRunningCollectors_def)
  ultimately show ?thesis using handle_configs_spec [of m cs] by auto
qed

theorem perf_manager_runs_configs_witness:
  "\<exists>m'. handle_configs [(demo_collectors 0, demo_instance ''a'' ''v1''), (demo_collectors 1, demo_instance ''b'' ''v1''),
      (demo_collectors 2, demo_instance ''a'' ''v2'')] demo_manager = Some m' \<and> contexts_ok m' \<and>
    GetRunningCollectors m' ''a'' = Some ''v2'' \<and> GetRunningCollectors m' ''b'' = Some ''v1''"
proof -
  let ?cs = "[(demo_collectors 0, demo_instance ''a'' ''v1''), (demo_collectors 1, demo_instance ''b'' ''v1''),
      (demo_collectors 2, demo_instance ''a'' ''v2'')]"
  have "can_start (demo_collectors n) (demo_instance name v) demo_manager" for n name v
    by (simp add: can_start_def demo_perf_defs GetCollector_def)
  then have "fold (\<lambda>(env, c). next_version c (can_start env c demo_manager)) (configs_of ''a'' ?cs) None = Some ''v2''"
    "fold (\<lambda>(env, c). next_version c (can_start env c demo_manager)) (configs_of ''b'' ?cs) None = Some ''v1''"
    by (simp_all add: configs_of_def next_version_def demo_instance_def)
  then show ?thesis using perf_manager_runs_configs [OF demo_manager_new, of ?cs] by auto
qed

section \<open>Events\<close>

text \<open>
  C20. Collected events reach the metrics router in order, once each and unchanged. In every
  interleaving of the collectors, the merger's loop, the config handling and the publishing
  goroutine, for every collector the events published followed by those still on their way are
  exactly the events it sent, in the order sent. (The router is observed as the list of what is
  published to it; \<open>src\<close> tells the channel an event was sent on.)
\<close>

theorem perf_events_in_order:
  assumes "perf_New getenv chans l r opts = Inr m" "\<forall>c. ch_queue (chans c) = []"
    and "perf_reachable log_event (perf_Start m []) es s"
    and "\<forall>e \<in> set es. \<forall>c. \<forall>ev \<in> set (perf_sends c e). src ev = c"
  shows "filter (\<lambda>ev. src ev = c) (map event_of_metric (ps_router s)) @
      merger_held src (pm_events (ps_manager s)) c = concat (map (perf_sends c) es)"
proof -
  have "pm_events m = NewMerger chans []" by (rule perf_New_fresh [OF assms(1)])
  moreover obtain s0 where s0: "s0 = perf_Start m []" "perf_reachable log_event s0 es s" using assms(3) by blast
  ultimately have "merger_inv src (pm_events (ps_manager s0))" "perf_stream src c s0 = []"
    using NewMerger_inv [OF assms(2)] NewMerger_held [of chans c src] assms(2)
    by (simp_all add: perf_Start_def perf_stream_def)
  then show ?thesis
    using perf_reachable_stream [OF s0(2) _ assms(4), of c] by (simp add: perf_stream_def)
qed

text \<open>The steps of a run, for concrete traces.\<close>

fun perf_run :: "('d option metric_event \<Rightarrow> 'r \<Rightarrow> 'r) \<Rightarrow> ('c, 'k, 'd) perf_event_step list \<Rightarrow>
    ('d, 'r) perf_system \<Rightarrow> ('d, 'r) perf_system option" where
  "perf_run publish [] s = Some s"
| "perf_run publish (e # es) s =
     (case perf_step publish e s of None \<Rightarrow> None | Some s' \<Rightarrow> perf_run publish es s')"

lemma perf_run_snoc:
  "perf_run publish (es @ [e]) s =
     (case perf_run publish es s of None \<Rightarrow> None | Some s' \<Rightarrow> perf_step publish e s')"
  by (induction es arbitrary: s) (auto split: option.splits)

lemma perf_run_reachable:
  assumes "perf_run publish es s0 = Some s" "\<forall>order. PsManagerDone order \<notin> set es"
  shows "perf_reachable publish s0 es s"
  using assms
proof (induction es arbitrary: s rule: rev_induct)
  case Nil
  then show ?case by (simp add: perf_reachable.start)
next
  case (snoc e es)
  then show ?case
    by (auto simp: perf_run_snoc order_ok_def split: option.splits intro!: perf_reachable.step)
qed

definition demo_trace :: "(unit, unit, nat) perf_event_step list" where
  "demo_trace = [PsDeliver (demo_instance ''a'' ''v1''), PsConfig (demo_collectors 0), PsSelect 0,
     PsSend 0 (demo_sample 1), PsSend 0 (demo_sample 2), PsSelect 0, PsEvent 5, PsSelect 0]"

lemmas perf_eval = demo_trace_def demo_perf_defs perf_Start_def collectorManager_recv_def handle_config_def
  handleActiveConfig_def start_and_record_def startCollector_def GetCollector_def new_ctx_def
  merger_Add_def merger_part_def run_select_def run_switch_def run_send_def out_recv_def slice_insert_def
  slice_delete_def initial_cases_def NewMerger_def chan_send_def eventCollector_recv_def
  eventCollector_done_def log_event_def metric_of_event_def

lemma demo_trace_run:
  "\<exists>s. perf_run log_event demo_trace (perf_Start demo_manager []) = Some s \<and>
     map event_of_metric (ps_router s) = [demo_sample 1] \<and> merger_held (\<lambda>_. 0) (pm_events (ps_manager s)) 0 = [demo_sample 2]"
  by (simp add: perf_eval event_of_metric_def merger_held_def)

theorem perf_events_in_order_witness:
  "\<exists>s. perf_run log_event demo_trace (perf_Start demo_manager []) = Some s \<and>
     filter (\<lambda>ev. (0::nat) = 0) (map event_of_metric (ps_router s)) @
       merger_held (\<lambda>_. 0) (pm_events (ps_manager s)) 0 = [demo_sample 1, demo_sample 2]"
proof -
  obtain s where s: "perf_run log_event demo_trace (perf_Start demo_manager []) = Some s"
    using demo_trace_run by blast
  have reach: "perf_reachable log_event (perf_Start demo_manager []) demo_trace s"
    by (rule perf_run_reachable [OF s]) (simp add: demo_trace_def)
  have "\<forall>e \<in> set demo_trace. \<forall>c. \<forall>ev \<in> set (perf_sends c e). 0 = c"
    by (auto simp: demo_trace_def split: if_splits)
  then show ?thesis
    using perf_events_in_order [OF demo_manager_new _ reach, of "\<lambda>_. 0" 0] s
    by (simp add: demo_chans_def demo_trace_def)
qed

section \<open>Shutting down\<close>

text \<open>
  Stopping the manager leaves no collector running. In every reachable state, the contexts
  that are not cancelled are those of the collectors it reports as running, one for each; once
  the goroutine that handles configs has ended, whatever configs were still waiting, there are
  none; and \<open>Start\<close> returns only after that, with the merger closed exactly then.
\<close>

theorem perf_shutdown_cancels_all:
  assumes "perf_New getenv chans l r opts = Inr m"
    and "perf_reachable publish (perf_Start m router) es s"
  shows "contexts_ok (ps_manager s) \<and>
    (\<not> ps_managing s \<longrightarrow> pm_live (ps_manager s) = [] \<and> GetRunningCollectors (ps_manager s) = Map.empty) \<and>
    (ps_returned s \<longrightarrow> \<not> ps_managing s \<and> \<not> ps_collecting s) \<and>
    (m_add_closed (pm_events (ps_manager s)) \<longleftrightarrow> ps_returned s)"
  using perf_reachable_inv [OF assms(2) perf_New_inv [OF assms(1)]]
  by (auto simp: perf_inv_def GetRunningCollectors_def)

definition demo_shutdown :: "(unit, unit, nat) perf_event_step list" where
  "demo_shutdown = [PsDeliver (demo_instance ''a'' ''v1''), PsConfig (demo_collectors 0), PsSelect 0, PsCancel]"

theorem perf_shutdown_cancels_all_witness:
  "\<exists>s s'. perf_run log_event demo_shutdown (perf_Start demo_manager []) = Some s \<and>
     pm_live (ps_manager s) = [0] \<and>
     perf_step log_event (PsManagerDone [''a''] :: (unit, unit, nat) perf_event_step) s = Some s' \<and>
     pm_live (ps_manager s') = [] \<and> contexts_ok (ps_manager s')"
proof -
  obtain s where s: "perf_run log_event demo_shutdown (perf_Start demo_manager []) = Some s"
    "pm_live (ps_manager s) = [0]" "map_order (pm_running (ps_manager s)) [''a'']"
    "ps_managing s" "ps_ctx_done s" "m_adders (pm_events (ps_manager s)) = []"
    by (simp add: demo_shutdown_def perf_eval map_order_def)
  let ?e = "PsManagerDone [''a''] :: (unit, unit, nat) perf_event_step"
  obtain s' where s': "perf_step log_event ?e s = Some s'" "\<not> ps_managing s'"
    using s(4-6) by (simp add: collectorManager_done_def)
  have "perf_reachable log_event (perf_Start demo_manager []) demo_shutdown s"
    by (rule perf_run_reachable [OF s(1)]) (simp add: demo_shutdown_def)
  from perf_reachable.step [OF this, of ?e s'] s(3) s'(1)
  have "perf_reachable log_event (perf_Start demo_manager []) (demo_shutdown @ [?e]) s'"
    by (simp add: order_ok_def)
  from perf_shutdown_cancels_all [OF demo_manager_new this] s s' show ?thesis by blast
qed

text \<open>
  C21. Shutting down can hang. There is a run in which the context is cancelled while the config
  goroutine waits in \<open>Add\<close>, the merger's loop waits to hand over an event and the goroutine that
  receives events ends first; from then on, whatever happens, the config goroutine never ends
  and \<open>Start\<close> never returns.
\<close>

theorem perf_shutdown_hangs:
  "\<exists>es s. perf_reachable log_event (perf_Start demo_manager []) (es :: (unit, unit, nat) perf_event_step list) s \<and>
     ps_ctx_done s \<and>
     (\<forall>es' s'. perf_reachable log_event s (es' :: (unit, unit, nat) perf_event_step list) s' \<longrightarrow>
        ps_managing s' \<and> \<not> ps_returned s')"
proof -
  let ?es = "[PsDeliver (demo_instance ''a'' ''v1''), PsDeliver (demo_instance ''b'' ''v1''),
      PsConfig (demo_collectors 0), PsSelect 0, PsSend 0 (demo_sample 1), PsSelect 0,
      PsConfig (demo_collectors 1), PsCancel, PsEventDone] :: (unit, unit, nat) perf_event_step list"
  obtain s where s: "perf_run log_event ?es (perf_Start demo_manager []) = Some s" "ps_ctx_done s" "shutdown_stuck s"
    by (simp add: perf_eval shutdown_stuck_def merger_stuck_def)
  have "perf_reachable log_event (perf_Start demo_manager []) ?es s"
    by (rule perf_run_reachable [OF s(1)]) simp
  moreover have "ps_managing s' \<and> \<not> ps_returned s'"
    if "perf_reachable log_event s (es' :: (unit, unit, nat) perf_event_step list) s'" for es' s'
    using shutdown_stuck_forever [OF that s(3)] by (simp add: shutdown_stuck_def)
  ultimately show ?thesis using s(2) by blast
qed

theorem perf_shutdown_hangs_witness:
  "\<exists>es s. perf_reachable log_event (perf_Start demo_manager []) (es :: (unit, unit, nat) perf_event_step list) s \<and>
     ps_ctx_done s \<and> ps_managing s \<and> \<not> ps_returned s"
proof -
  obtain es s where "perf_reachable log_event (perf_Start demo_manager []) (es :: (unit, unit, nat) perf_event_step list) s"
      "ps_ctx_done s" "\<forall>es' s'. perf_reachable log_event s (es' :: (unit, unit, nat) perf_event_step list) s' \<longrightarrow>
        ps_managing s' \<and> \<not> ps_returned s'"
    using perf_shutdown_hangs by blast
  then show ?thesis using perf_reachable.start [of log_event s] by blast
qed

end
