(* ===== verification/Float64.thy ===== *)
theory Float64
  imports Go_Prelude "HOL-Library.Log_Nat" "HOL-Library.Word"
begin

text \<open>
  The floating-point arithmetic of Go's \<open>float64\<close> as far as the collectors use it: a value is a
  rational number, and every operation rounds the exact result to 53 significant bits, to the
  nearest number and to the even one in the middle, as IEEE 754 and the Go specification say.
  The collectors divide and multiply 64-bit counters, durations and percentages, so the results
  are far inside the range of normal numbers; infinities, not-a-number and subnormal numbers do
  not occur.
\<close>

section \<open>Rounding\<close>

text \<open>To the nearest integer, to the even one in the middle.\<close>

definition round_half_even :: "rat \<Rightarrow> int" where
  "round_half_even x =
     (let f = \<lfloor>x\<rfloor>; r = x - of_int f
      in if r < 1 / 2 then f else if r > 1 / 2 then f + 1 else if even f then f else f + 1)"

text \<open>The exponent of the leading bit of a positive number.\<close>

definition leading_bit :: "rat \<Rightarrow> int" where
  "leading_bit x =
     (case quotient_of x of (n, d) \<Rightarrow>
        (let k = bitlen n - bitlen d in if x < 2 powi k then k - 1 else k))"

definition fl :: "rat \<Rightarrow> rat" where
  "fl x =
     (if x = 0 then 0
      else let e = leading_bit \<bar>x\<bar> - 52
           in sgn x * (of_int (round_half_even (\<bar>x\<bar> / 2 powi e)) * 2 powi e))"

section \<open>Conversions\<close>

definition float64_of_uint64 :: "64 word \<Rightarrow> rat" where
  "float64_of_uint64 w = fl (of_nat (unat w))"

definition float64_of_int :: "int \<Rightarrow> rat" where
  "float64_of_int i = fl (of_int i)"

definition float64_div :: "rat \<Rightarrow> rat \<Rightarrow> rat" where
  "float64_div x y = fl (x / y)"

definition float64_mul :: "rat \<Rightarrow> rat \<Rightarrow> rat" where
  "float64_mul x y = fl (x * y)"

text \<open>
  \<open>uint64(x)\<close> truncates; what it gives for a value out of range depends on the implementation
  and is the argument \<open>out_of_range\<close>.
\<close>

definition uint64_of_float :: "(rat \<Rightarrow> 64 word) \<Rightarrow> rat \<Rightarrow> 64 word" where
  "uint64_of_float out_of_range x =
     (if - 1 < x \<and> x < 2 ^ 64 then of_nat (nat \<lfloor>x\<rfloor>) else out_of_range x)"

text \<open>\<open>Duration.Seconds\<close>. Go's integer division truncates; durations here are not negative.\<close>

definition Seconds :: "duration \<Rightarrow> rat" where
  "Seconds d =
     (let sec = d div second; nsec = d mod second
      in fl (float64_of_int sec + fl (float64_of_int nsec / 1000000000)))"

section \<open>Properties of rounding\<close>

lemma round_half_even_bounds: "\<lfloor>x\<rfloor> \<le> round_half_even x \<and> round_half_even x \<le> \<lfloor>x\<rfloor> + 1"
  by (simp add: round_half_even_def Let_def)

lemma round_half_even_mono:
  assumes "x \<le> y"
  shows "round_half_even x \<le> round_half_even y"
proof (cases "\<lfloor>x\<rfloor> = \<lfloor>y\<rfloor>")
  case True
  then show ?thesis using assms by (auto simp: round_half_even_def Let_def)
next
  case False
  then have "\<lfloor>x\<rfloor> + 1 \<le> \<lfloor>y\<rfloor>" using floor_mono [OF assms] by simp
  then show ?thesis using round_half_even_bounds [of x] round_half_even_bounds [of y] by linarith
qed

lemma round_half_even_int [simp]: "round_half_even (of_int i) = i"
  by (simp add: round_half_even_def Let_def)

lemma powi_2_pos [simp]: "0 < (2 :: rat) powi e"
  by simp

lemma powi_2_mono: "a \<le> b \<Longrightarrow> (2 :: rat) powi a \<le> 2 powi b"
  by (rule power_int_increasing) simp_all

lemma powi_2_add: "(2 :: rat) powi (a + b) = 2 powi a * 2 powi b"
  by (simp add: power_int_add)

lemma bitlen_rat:
  assumes "0 < n"
  shows "(2::rat) powi (bitlen n - 1) \<le> of_int n" "of_int n < (2::rat) powi bitlen n"
proof -
  have 1: "1 \<le> bitlen n" using assms by (simp add: bitlen_alt_def)
  then have "(2::rat) powi (bitlen n - 1) = of_int (2 ^ nat (bitlen n - 1))"
    "(2::rat) powi bitlen n = of_int (2 ^ nat (bitlen n))"
    by (simp_all add: power_int_def)
  then show "(2::rat) powi (bitlen n - 1) \<le> of_int n" "of_int n < (2::rat) powi bitlen n"
    using bitlen_bounds [OF assms] by (simp_all only: of_int_le_iff of_int_less_iff)
qed

lemma leading_bit_bounds:
  assumes "0 < x"
  shows "2 powi (leading_bit x) \<le> x" "x < 2 powi (leading_bit x + 1)"
proof -
  obtain n d where q: "quotient_of x = (n, d)" by (cases "quotient_of x")
  have d: "0 < d" using quotient_of_denom_pos [OF q] .
  have x: "x = of_int n / of_int d" using quotient_of_div [OF q] .
  then have n: "0 < n" using assms d by (simp add: zero_less_divide_iff)
  let ?k = "bitlen n - bitlen d"
  have "2 powi (?k - 1) * of_int d \<le> 2 powi (?k - 1) * (2::rat) powi bitlen d"
    using bitlen_rat(2) [OF d] by simp
  also have "\<dots> = 2 powi (bitlen n - 1)" by (simp flip: powi_2_add)
  finally have low: "2 powi (?k - 1) \<le> x" using bitlen_rat(1) [OF n] d by (simp add: x field_simps)
  have "2 powi bitlen n = 2 powi (?k + 1) * (2::rat) powi (bitlen d - 1)" by (simp flip: powi_2_add)
  also have "\<dots> \<le> 2 powi (?k + 1) * of_int d" using bitlen_rat(1) [OF d] by simp
  finally have high: "x < 2 powi (?k + 1)" using bitlen_rat(2) [OF n] d by (simp add: x field_simps)
  show "2 powi (leading_bit x) \<le> x" "x < 2 powi (leading_bit x + 1)"
    using low high by (auto simp: leading_bit_def q Let_def)
qed

lemma leading_bit_mono: "0 < x \<Longrightarrow> x \<le> y \<Longrightarrow> leading_bit x \<le> leading_bit y"
proof (rule ccontr)
  assume "0 < x" "x \<le> y" "\<not> leading_bit x \<le> leading_bit y"
  then have "2 powi (leading_bit y + 1) \<le> (2::rat) powi leading_bit x" by (intro powi_2_mono) simp
  also have "\<dots> \<le> x" using leading_bit_bounds(1) [OF \<open>0 < x\<close>] .
  finally show False using leading_bit_bounds(2) [of y] \<open>0 < x\<close> \<open>x \<le> y\<close> by simp
qed

text \<open>A positive number is rounded within its binade, boundaries included.\<close>

lemma fl_binade:
  assumes "0 < x"
  shows "2 powi leading_bit x \<le> fl x" "fl x \<le> 2 powi (leading_bit x + 1)"
proof -
  define e where "e = leading_bit x - 52"
  have fl: "fl x = of_int (round_half_even (x / 2 powi e)) * 2 powi e"
    using assms by (simp add: fl_def e_def Let_def)
  have split: "2 powi leading_bit x = of_int (2 ^ 52) * (2::rat) powi e"
    "2 powi (leading_bit x + 1) = of_int (2 ^ 53) * (2::rat) powi e"
    using powi_2_add [of 52 e] powi_2_add [of 53 e] by (simp_all add: e_def add.commute)
  have "of_int (2 ^ 52) \<le> x / 2 powi e" "x / 2 powi e \<le> of_int (2 ^ 53)"
    using leading_bit_bounds [OF assms] unfolding split by (simp_all add: field_simps)
  from this [THEN round_half_even_mono] show "2 powi leading_bit x \<le> fl x" "fl x \<le> 2 powi (leading_bit x + 1)"
    unfolding fl split round_half_even_int
    by (intro mult_right_mono less_imp_le [OF powi_2_pos]; simp only: of_int_le_iff)+
qed

lemma fl_0 [simp]: "fl 0 = 0"
  by (simp add: fl_def)

lemma fl_pos: "0 < x \<Longrightarrow> 0 < fl x"
  using fl_binade(1) [of x] powi_2_pos [of "leading_bit x"] by (meson less_le_trans)

lemma fl_nonneg: "0 \<le> x \<Longrightarrow> 0 \<le> fl x"
  using fl_pos [of x] by (cases "x = 0") auto

lemma fl_mono:
  assumes "0 \<le> x" "x \<le> y"
  shows "fl x \<le> fl y"
proof (cases "x = 0")
  case True
  then show ?thesis using fl_nonneg assms by simp
next
  case False
  then have x: "0 < x" "0 < y" using assms by auto
  show ?thesis
  proof (cases "leading_bit x = leading_bit y")
    case True
    have "x / 2 powi e \<le> y / 2 powi e" for e :: int using assms(2) by (simp add: divide_right_mono)
    from round_half_even_mono [OF this] show ?thesis using x
      by (simp add: fl_def Let_def True)
  next
    case False
    then have "leading_bit x + 1 \<le> leading_bit y" using leading_bit_mono [OF x(1) assms(2)] by simp
    then have "2 powi (leading_bit x + 1) \<le> (2::rat) powi leading_bit y" by (rule powi_2_mono)
    then show ?thesis using fl_binade(2) [OF x(1)] fl_binade(1) [OF x(2)] by linarith
  qed
qed

text \<open>Integers of at most 53 bits are exact.\<close>

lemma fl_int:
  assumes "0 \<le> i" "i < 2 ^ 53"
  shows "fl (of_int i) = of_int i"
proof (cases "i = 0")
  case False
  then have x: "0 < (of_int i :: rat)" using assms by simp
  define e where "e = leading_bit (of_int i) - 52"
  have "(2::rat) powi leading_bit (of_int i) < of_int (2 ^ 53)"
    using leading_bit_bounds(1) [OF x] assms(2) by (metis le_less_trans of_int_less_iff)
  then have "leading_bit (of_int i) < 53"
    using powi_2_mono [of 53 "leading_bit (of_int i)"] by (force simp: not_less [symmetric])
  then have "(2::rat) powi (- e) = of_int (2 ^ nat (- e))" by (simp add: e_def power_int_def)
  then have "of_int i / (2::rat) powi e = of_int (i * 2 ^ nat (- e))"
    by (simp add: power_int_minus divide_inverse)
  then have "of_int (round_half_even (of_int i / (2::rat) powi e)) = of_int i / (2::rat) powi e"
    by (simp only: round_half_even_int)
  then show ?thesis using x by (simp add: fl_def e_def Let_def)
qed simp

lemma fl_numeral [simp]: "numeral n < (2 ^ 53 :: int) \<Longrightarrow> fl (numeral n) = numeral n"
  using fl_int [of "numeral n"] by simp

lemma fl_1 [simp]: "fl 1 = 1"
  using fl_int [of 1] by simp

text \<open>Rounding does not fall below a power of two.\<close>

lemma fl_ge_power:
  assumes "2 ^ n \<le> x"
  shows "2 ^ n \<le> fl x"
proof -
  have x: "0 < x" using assms zero_less_power [of "2 :: rat" n] by linarith
  have "(2 :: rat) powi int n < 2 powi (leading_bit x + 1)"
    using assms leading_bit_bounds(2) [OF x] by simp
  then have "int n \<le> leading_bit x"
    using powi_2_mono [of "leading_bit x + 1" "int n"] by (force simp: not_less [symmetric])
  then have "(2 :: rat) powi int n \<le> 2 powi leading_bit x" by (rule powi_2_mono)
  then show ?thesis using fl_binade(1) [OF x] by simp
qed

section \<open>Ratios, percentages and rates\<close>

lemma float64_of_uint64_mono: "unat v \<le> unat w \<Longrightarrow> float64_of_uint64 v \<le> float64_of_uint64 w"
  unfolding float64_of_uint64_def by (rule fl_mono) (simp_all only: of_nat_0_le_iff of_nat_le_iff)

lemma float64_of_uint64_nonneg [simp]: "0 \<le> float64_of_uint64 w"
  unfolding float64_of_uint64_def by (rule fl_nonneg) (rule of_nat_0_le_iff)

lemma float64_of_uint64_pos: "w \<noteq> 0 \<Longrightarrow> 0 < float64_of_uint64 w"
  unfolding float64_of_uint64_def by (rule fl_pos) (simp only: of_nat_0_less_iff unat_gt_0 simp_thms)

lemma float64_div_nonneg: "0 \<le> x \<Longrightarrow> 0 \<le> y \<Longrightarrow> 0 \<le> float64_div x y"
  by (simp add: float64_div_def fl_nonneg)

lemma float64_div_le_1: "0 \<le> x \<Longrightarrow> x \<le> y \<Longrightarrow> float64_div x y \<le> 1"
  using fl_mono [of "x / y" 1] by (cases "y = 0") (simp_all add: float64_div_def)

lemma float64_mul_nonneg: "0 \<le> x \<Longrightarrow> 0 \<le> y \<Longrightarrow> 0 \<le> float64_mul x y"
  by (simp add: float64_mul_def fl_nonneg)

text \<open>A part of a whole is between 0 and 100 percent, rounding included.\<close>

lemma percent_bounds:
  assumes "0 \<le> x" "x \<le> y"
  shows "0 \<le> float64_mul (float64_div x y) 100" "float64_mul (float64_div x y) 100 \<le> 100"
proof -
  have r: "0 \<le> float64_div x y" "float64_div x y \<le> 1"
    using assms float64_div_nonneg float64_div_le_1 by auto
  then show "0 \<le> float64_mul (float64_div x y) 100" by (simp add: float64_mul_nonneg)
  show "float64_mul (float64_div x y) 100 \<le> 100"
    using fl_mono [of "float64_div x y * 100" 100] r by (simp add: float64_mul_def)
qed

end
