(* ===== verification/HostFiles.thy ===== *)
theory HostFiles
  imports Performance Float64
begin

text \<open>
  What the collectors under \<open>pkg/performance/collectors\<close> share: reading files of the host and
  scanning their lines, parsing counters, and the bookkeeping of counter deltas.

  A file of the host is an argument: it may be missing, have some content, or fail to be read
  after some bytes. A struct of counters whose fields are named after those of a kernel
  file is a function from those names to 64-bit words.
\<close>

section \<open>Files\<close>

datatype host_file = Missing | Content bytes | Broken bytes

definition os_ReadFile :: "host_file \<Rightarrow> bytes option" where
  "os_ReadFile f = (case f of Content b \<Rightarrow> Some b | _ \<Rightarrow> None)"

text \<open>
  \<open>bufio.Scanner\<close> over an open file: the lines without their line end (a trailing carriage
  return is dropped, a final empty line is not delivered), and \<open>Err()\<close> after the last one. A
  line of 65536 bytes or more ends the scan with an error; so does a read error, after the
  lines read before. \<open>sc_tail\<close> tells that the error is already set when the last line is
  delivered: that line is what was read before the error, without a line end.
\<close>

record scan =
  sc_lines :: "bytes list"
  sc_err :: bool
  sc_tail :: bool

definition drop_cr :: "bytes \<Rightarrow> bytes" where
  "drop_cr l = (if l \<noteq> [] \<and> last l = CHR 0x0D then butlast l else l)"

definition raw_lines :: "bytes \<Rightarrow> bytes list" where
  "raw_lines b =
     (let ls = split_on (CHR 0x0A) b in if last ls = [] then butlast ls else ls)"

definition line_limit :: int where
  "line_limit = 65536"

definition short_lines :: "bytes list \<Rightarrow> bytes list" where
  "short_lines ls = takeWhile (\<lambda>l. int (length l) < line_limit) ls"

definition scan_bytes :: "bool \<Rightarrow> bytes \<Rightarrow> scan" where
  "scan_bytes broken b =
     (let raw = raw_lines b; ok = short_lines raw
      in \<lparr>sc_lines = map drop_cr ok, sc_err = (broken \<or> length ok < length raw),
          sc_tail = (broken \<and> ok = raw \<and> b \<noteq> [] \<and> last b \<noteq> CHR 0x0A)\<rparr>)"

text \<open>\<open>os.Open\<close> followed by a scan; \<open>None\<close> when the file cannot be opened.\<close>

definition scan_file :: "host_file \<Rightarrow> scan option" where
  "scan_file f =
     (case f of Missing \<Rightarrow> None | Content b \<Rightarrow> Some (scan_bytes False b) | Broken b \<Rightarrow> Some (scan_bytes True b))"

text \<open>
  \<open>filepath.Clean\<close> and \<open>filepath.Join\<close> on Linux: empty elements and dots are dropped, two dots
  remove the element before them.
\<close>

fun clean_elements :: "bool \<Rightarrow> bytes list \<Rightarrow> bytes list \<Rightarrow> bytes list" where
  "clean_elements rooted stack [] = rev stack"
| "clean_elements rooted stack (e # es) =
     (if e = '''' \<or> e = ''.'' then clean_elements rooted stack es
      else if e = ''..''
      then (case stack of
              prev # rest \<Rightarrow>
                if prev \<noteq> ''..'' then clean_elements rooted rest es
                else clean_elements rooted (e # stack) es
            | [] \<Rightarrow> clean_elements rooted (if rooted then [] else [e]) es)
      else clean_elements rooted (e # stack) es)"

definition filepath_Clean :: "bytes \<Rightarrow> bytes" where
  "filepath_Clean p =
     (let rooted = has_prefix p ''/'';
          out = (if rooted then ''/'' else []) @
            join_with (CHR ''/'') (clean_elements rooted [] (split_on (CHR ''/'') p))
      in if out = [] then ''.'' else out)"

definition filepath_Join :: "bytes list \<Rightarrow> bytes" where
  "filepath_Join es =
     (case filter (\<lambda>e. e \<noteq> []) es of [] \<Rightarrow> [] | ps \<Rightarrow> filepath_Clean (join_with (CHR ''/'') ps))"

text \<open>The files of the host, by path.\<close>

type_synonym host_fs = "bytes \<Rightarrow> host_file"

text \<open>The content of a file without surrounding white space.\<close>

definition read_trimmed :: "host_fs \<Rightarrow> bytes \<Rightarrow> bytes option" where
  "read_trimmed fs path = map_option trim_space (os_ReadFile (fs path))"

section \<open>Counters\<close>

type_synonym uint64 = "64 word"
type_synonym counters = "bytes \<Rightarrow> uint64"

definition zero_counters :: counters where
  "zero_counters = (\<lambda>_. 0)"

text \<open>
  \<open>strconv.ParseUint(s, 10, 64)\<close> with its value also on error: 0 for a syntax error, the
  largest number when the value is out of range.
\<close>

definition ParseUint64 :: "bytes \<Rightarrow> uint64 option" where
  "ParseUint64 s = map_option of_nat (parse_uint 64 s)"

definition ParseUint64_value :: "bytes \<Rightarrow> uint64" where
  "ParseUint64_value s =
     (case parse_digits s of
        None \<Rightarrow> 0
      | Some n \<Rightarrow> if int n < 2 ^ 64 then of_nat n else - 1)"

text \<open>
  Fields by position: the counters of a line whose columns are \<open>names\<close>. One reading keeps the
  value that the parser returns on error, the other leaves the field at 0.
\<close>

definition columns :: "bytes list \<Rightarrow> bytes list \<Rightarrow> counters" where
  "columns names texts = (\<lambda>f. case map_of (zip names texts) f of None \<Rightarrow> 0 | Some t \<Rightarrow> ParseUint64_value t)"

text \<open>\<open>strings.Contains\<close> and the position of the last occurrence of a byte (\<open>strings.LastIndex\<close>).\<close>

definition str_contains :: "bytes \<Rightarrow> bytes \<Rightarrow> bool" where
  "str_contains s p = list_ex (\<lambda>i. has_prefix (drop i s) p) [0..<Suc (length s)]"

definition last_index :: "char \<Rightarrow> bytes \<Rightarrow> nat option" where
  "last_index c s =
     (if c \<in> set s then Some (length s - 1 - length (takeWhile (\<lambda>d. d \<noteq> c) (rev s))) else None)"

text \<open>The map of the previous statistics by key: a later entry replaces an earlier one.\<close>

definition by_key :: "('s \<Rightarrow> 'k) \<Rightarrow> 's list \<Rightarrow> 'k \<rightharpoonup> 's" where
  "by_key key xs = map_of (rev (map (\<lambda>s. (key s, s)) xs))"

section \<open>Files of name-value lines\<close>

text \<open>
  Lines with exactly two words, the second a number, assign a field; the table gives the
  field of a name and the conversion of its value.
\<close>

type_synonym stat_table = "(bytes \<times> bytes \<times> uint64) list"

definition stat_line :: "stat_table \<Rightarrow> bytes \<Rightarrow> counters \<Rightarrow> counters" where
  "stat_line table line c =
     (let fields = str_fields line in
      if length fields \<noteq> 2 then c
      else (case ParseUint64 (fields ! 1) of
              None \<Rightarrow> c
            | Some value \<Rightarrow>
                (case map_of table (fields ! 0) of None \<Rightarrow> c | Some (f, unit) \<Rightarrow> c(f := value * unit))))"

text \<open>The listing of a directory: names in lexical order, with a flag for directories.\<close>

datatype dir_listing = DirMissing | DirBroken | DirEntries "(bytes \<times> bool) list"

text \<open>\<open>time.Duration(x)\<close> truncates; out of range it depends on the implementation.\<close>

definition duration_of_float :: "(rat \<Rightarrow> duration) \<Rightarrow> rat \<Rightarrow> duration" where
  "duration_of_float out_of_range x =
     (if \<bar>x\<bar> < 2 ^ 63 then (if x < 0 then - \<lfloor>- x\<rfloor> else \<lfloor>x\<rfloor>) else out_of_range x)"

section \<open>Delta collectors\<close>

text \<open>
  The collectors for CPU, memory, system and TCP statistics keep the state of the last
  collection whose deltas were computed: \<open>Collect\<close> updates it only on the first collection and
  after computing deltas. \<open>calc\<close> computes the deltas of a collection from the previous one.
\<close>

definition hold_Collect :: "('s \<Rightarrow> 's \<Rightarrow> instant \<Rightarrow> 's delta_state \<Rightarrow> 's) \<Rightarrow> ('e, 's) result \<Rightarrow> instant \<Rightarrow>
    's delta_state \<Rightarrow> ('e, 's) result \<times> 's delta_state" where
  "hold_Collect calc collected currentTime b =
     (case collected of
        Inl err \<Rightarrow> (Inl err, b)
      | Inr currentStats \<Rightarrow>
          if \<not> fst (ShouldCalculateDeltas currentTime b)
          then (Inr currentStats, if IsFirst b then UpdateDeltaState currentStats currentTime b else b)
          else (case LastSnapshot b of
                  None \<Rightarrow> (Inr currentStats, UpdateDeltaState currentStats currentTime b)
                | Some previousStats \<Rightarrow>
                    (let stats = calc currentStats previousStats currentTime b
                     in (Inr stats, UpdateDeltaState stats currentTime b))))"

text \<open>The collectors for network, disk and NUMA statistics update the state at every collection.\<close>

definition roll_Collect :: "('s \<Rightarrow> 's \<Rightarrow> instant \<Rightarrow> 's delta_state \<Rightarrow> 's) \<Rightarrow> ('e, 's) result \<Rightarrow> instant \<Rightarrow>
    's delta_state \<Rightarrow> ('e, 's) result \<times> 's delta_state" where
  "roll_Collect calc collected currentTime b =
     (case collected of
        Inl err \<Rightarrow> (Inl err, b)
      | Inr stats \<Rightarrow>
          (let stats' =
             (if HasDeltaState b \<and> fst (ShouldCalculateDeltas currentTime b)
              then (case LastSnapshot b of None \<Rightarrow> stats | Some previous \<Rightarrow> calc stats previous currentTime b)
              else stats)
           in (Inr stats', UpdateDeltaState stats' currentTime b)))"

text \<open>
  The deltas of named counters: each is the difference, or 0 with a reset when the counter went
  back, and the rates per second, left at 0 after a reset.
\<close>

definition counter_delta :: "counters \<Rightarrow> counters \<Rightarrow> counters" where
  "counter_delta current previous = (\<lambda>f. fst (CalculateUint64Delta (current f) (previous f)))"

definition counter_reset :: "bytes list \<Rightarrow> counters \<Rightarrow> counters \<Rightarrow> bool" where
  "counter_reset names current previous = list_ex (\<lambda>f. snd (CalculateUint64Delta (current f) (previous f))) names"

definition per_second :: "(rat \<Rightarrow> uint64) \<Rightarrow> duration \<Rightarrow> uint64 \<Rightarrow> uint64" where
  "per_second out_of_range interval d =
     uint64_of_float out_of_range (float64_div (float64_of_uint64 d) (Seconds interval))"

text \<open>Restriction of a counter function to the fields of a struct.\<close>

definition only :: "bytes list \<Rightarrow> counters \<Rightarrow> counters" where
  "only names c = (\<lambda>f. if f \<in> set names then c f else 0)"

record counter_deltas =
  cd_metadata :: delta_metadata
  cd_deltas :: counters
  cd_rates :: counters

definition calculate_deltas :: "(rat \<Rightarrow> uint64) \<Rightarrow> bytes list \<Rightarrow> bytes list \<Rightarrow> counters \<Rightarrow> counters \<Rightarrow>
    instant \<Rightarrow> 's delta_state \<Rightarrow> counter_deltas" where
  "calculate_deltas out_of_range names rated current previous currentTime b =
     (let interval = time_Sub currentTime (LastTime b);
          delta = only names (counter_delta current previous);
          resetDetected = counter_reset names current previous
      in \<lparr>cd_metadata = CreateDeltaMetadata currentTime resetDetected b,
          cd_deltas = delta,
          cd_rates = (if \<not> resetDetected \<and> Seconds interval > 0
                      then only rated (\<lambda>f. per_second out_of_range interval (delta f))
                      else zero_counters)\<rparr>)"

section \<open>The contract of delta collectors\<close>

text \<open>
  A run of collections, each with its time, and the reference: every collection is compared
  with the one before it.
\<close>

fun delta_run :: "(('e, 's) result \<Rightarrow> instant \<Rightarrow> 's delta_state \<Rightarrow> ('e, 's) result \<times> 's delta_state) \<Rightarrow>
    (('e, 's) result \<times> instant) list \<Rightarrow> 's delta_state \<Rightarrow> ('e, 's) result list \<times> 's delta_state" where
  "delta_run collect [] b = ([], b)"
| "delta_run collect ((r, t) # rest) b =
     (case collect r t b of (out, b1) \<Rightarrow>
        (case delta_run collect rest b1 of (outs, b2) \<Rightarrow> (out # outs, b2)))"

fun chained_deltas :: "('s \<Rightarrow> 's \<Rightarrow> instant \<Rightarrow> 's delta_state \<Rightarrow> 's) \<Rightarrow> ('s \<times> instant) list \<Rightarrow> 's \<Rightarrow>
    's delta_state \<Rightarrow> 's list" where
  "chained_deltas calc [] prev b = []"
| "chained_deltas calc ((cur, t) # rest) prev b =
     (let stats = calc cur prev t b in stats # chained_deltas calc rest stats (UpdateDeltaState stats t b))"

text \<open>Times whose gaps all lie in the window of the configuration.\<close>

fun gaps_in_window :: "delta_config \<Rightarrow> instant \<Rightarrow> instant list \<Rightarrow> bool" where
  "gaps_in_window cfg t [] = True"
| "gaps_in_window cfg t (u # us) =
     (dc_min_interval cfg \<le> u - t \<and> u - t \<le> dc_max_interval cfg \<and> gaps_in_window cfg u us)"

definition window_ok :: "delta_config \<Rightarrow> bool" where
  "window_ok cfg \<longleftrightarrow>
     dc_mode cfg \<noteq> DeltaModeDisabled \<and> 0 \<le> dc_min_interval cfg \<and> dc_max_interval cfg < 2 ^ 63 - 1"

lemma should_calculate:
  assumes "window_ok (Config b)"
  shows "fst (ShouldCalculateDeltas now b) \<longleftrightarrow>
    \<not> IsFirst b \<and> LastTime b \<noteq> 0 \<and>
    dc_min_interval (Config b) \<le> now - LastTime b \<and> now - LastTime b \<le> dc_max_interval (Config b)"
  using assms ShouldCalculateDeltas_iff [of b now] by (auto simp: window_ok_def)

lemma UpdateDeltaState_simps [simp]:
  "Config (UpdateDeltaState s t b) = Config b" "LastSnapshot (UpdateDeltaState s t b) = Some s"
  "LastTime (UpdateDeltaState s t b) = t" "IsFirst (UpdateDeltaState s t b) = False"
  by (simp_all add: UpdateDeltaState_def)

locale delta_collector =
  fixes collect :: "('s \<Rightarrow> 's \<Rightarrow> instant \<Rightarrow> 's delta_state \<Rightarrow> 's) \<Rightarrow> ('e, 's) result \<Rightarrow> instant \<Rightarrow>
      's delta_state \<Rightarrow> ('e, 's) result \<times> 's delta_state"
  assumes failure: "collect calc (Inl e) t b = (Inl e, b)"
    and first: "IsFirst b \<Longrightarrow> collect calc (Inr cur) t b = (Inr cur, UpdateDeltaState cur t b)"
    and computes: "fst (ShouldCalculateDeltas t b) \<Longrightarrow> LastSnapshot b = Some prev \<Longrightarrow>
      collect calc (Inr cur) t b =
        (Inr (calc cur prev t b), UpdateDeltaState (calc cur prev t b) t b)"
begin

lemma steady_run:
  assumes "window_ok (Config b)" "\<not> IsFirst b" "LastSnapshot b = Some prev" "LastTime b = t0" "0 < t0"
    and "gaps_in_window (Config b) t0 (map snd xs)"
  shows "fst (delta_run (collect calc) (map (\<lambda>(s, t). (Inr s, t)) xs) b) =
    map Inr (chained_deltas calc xs prev b)"
  using assms
proof (induction xs arbitrary: b prev t0)
  case (Cons x xs)
  obtain cur t where x: "x = (cur, t)" by (cases x)
  have gap: "dc_min_interval (Config b) \<le> t - t0" "t - t0 \<le> dc_max_interval (Config b)"
      "gaps_in_window (Config b) t (map snd xs)"
    using Cons.prems(6) x by auto
  have "fst (ShouldCalculateDeltas t b)" using Cons.prems gap by (simp add: should_calculate)
  from computes [OF this Cons.prems(3)]
  have step: "collect calc (Inr cur) t b = (Inr (calc cur prev t b), UpdateDeltaState (calc cur prev t b) t b)" .
  have "0 < t" using gap(1) Cons.prems(1,5) by (simp add: window_ok_def)
  then show ?case
    using Cons.IH [of "UpdateDeltaState (calc cur prev t b) t b" "calc cur prev t b" t] Cons.prems(1) gap(3)
    by (simp add: x step Let_def split: prod.splits) (metis fst_conv)
qed simp

theorem fresh_run:
  assumes "window_ok (cc_delta config)" "0 < t0" "gaps_in_window (cc_delta config) t0 (map snd xs)"
  shows "fst (delta_run (collect calc) ((Inr s0, t0) # map (\<lambda>(s, t). (Inr s, t)) xs)
      (NewBaseDeltaCollector config)) =
    Inr s0 # map Inr (chained_deltas calc xs s0 (UpdateDeltaState s0 t0 (NewBaseDeltaCollector config)))"
proof -
  let ?b = "NewBaseDeltaCollector config :: 's delta_state"
  have cfg: "Config ?b = cc_delta config" "IsFirst ?b" by (simp_all add: NewBaseDeltaCollector_def)
  show ?thesis
    using steady_run [of "UpdateDeltaState s0 t0 ?b" s0 t0 xs calc] first [OF cfg(2)] assms cfg(1)
    by (simp split: prod.splits) (metis fst_conv)
qed

end

interpretation hold: delta_collector hold_Collect
  by unfold_locales
    (auto simp: hold_Collect_def ShouldCalculateDeltas_def Let_def split: option.splits)

interpretation roll: delta_collector roll_Collect
  by unfold_locales
    (auto simp: roll_Collect_def HasDeltaState_def ShouldCalculateDeltas_def Let_def
      split: option.splits if_splits)

section \<open>After a gap\<close>

text \<open>
  A collector that keeps its state when it skips never computes deltas again once a gap was
  longer than the window: its last time only moves further away.
\<close>

lemma hold_stuck:
  assumes "window_ok (Config b)" "\<not> IsFirst b"
    and "\<forall>t \<in> set (map snd xs). dc_max_interval (Config b) < t - LastTime b"
  shows "delta_run (hold_Collect calc) xs b = (map fst xs, b)"
  using assms(3)
proof (induction xs)
  case (Cons x xs)
  obtain r t where x: "x = (r, t)" by (cases x)
  have "\<not> fst (ShouldCalculateDeltas t b)"
    using Cons.prems x assms(1) by (simp add: should_calculate)
  then have "hold_Collect calc r t b = (r, b)"
    using assms(2) by (cases r) (simp_all add: hold_Collect_def)
  then show ?case using Cons x by simp
qed simp

text \<open>One that always updates computes deltas again at the next collection in the window.\<close>

lemma roll_recovers:
  assumes "roll_Collect calc (Inr s) t b = (out, b')" "window_ok (Config b)" "0 < t"
    and "dc_min_interval (Config b) \<le> u - t" "u - t \<le> dc_max_interval (Config b)"
  shows "\<exists>s'. out = Inr s' \<and> fst (roll_Collect calc (Inr cur) u b') = Inr (calc cur s' u b')"
proof -
  obtain s' where s': "out = Inr s'" "b' = UpdateDeltaState s' t b"
    using assms(1) by (auto simp: roll_Collect_def Let_def)
  have "fst (ShouldCalculateDeltas u b')" using assms(2-5) by (simp add: s' should_calculate)
  then show ?thesis by (simp add: s' roll_Collect_def HasDeltaState_def Let_def)
qed

section \<open>Lines of words\<close>

text \<open>Words are separated by single spaces; their bytes are plain.\<close>

definition word_ok :: "bytes \<Rightarrow> bool" where
  "word_ok w \<longleftrightarrow> w \<noteq> [] \<and> list_all plain_char w"

definition words_line :: "bytes list \<Rightarrow> bytes" where
  "words_line ws = join_with (CHR 0x20) ws"

lemma drop_space_plain: "plain_char c \<Longrightarrow> drop_space wide_spaces (c # s) = None"
  by (rule drop_space_None_plain [OF _ wide_spaces_hd]) (simp_all add: plain_char_def)

lemma fields_acc_plain:
  "list_all plain_char w \<Longrightarrow> fields_acc acc (w @ s) = fields_acc (rev w @ acc) s"
  by (induction w arbitrary: acc) (simp_all add: drop_space_plain del: drop_space.simps)

lemma drop_space_blank [simp]: "drop_space wide_spaces (CHR 0x20 # s) = Some s"
  by (simp add: is_ascii_space_def)

lemma str_fields_words_line: "list_all word_ok ws \<Longrightarrow> str_fields (words_line ws) = ws"
proof -
  have "fields_acc [] (join_with (CHR 0x20) ws) = ws" if "list_all word_ok ws"
    using that
  proof (induction "CHR 0x20" ws rule: join_with.induct)
    case (2 p)
    then show ?case using fields_acc_plain [of p "[]" "[]"] by (simp add: word_ok_def)
  next
    case (3 p q ps)
    then show ?case
      using fields_acc_plain [of p "[]" "CHR 0x20 # join_with (CHR 0x20) (q # ps)"]
      by (simp add: word_ok_def join_with_Cons del: drop_space.simps join_with.simps)
  qed simp
  then show "list_all word_ok ws \<Longrightarrow> ?thesis" by (simp add: str_fields_def words_line_def)
qed

text \<open>A file made of lines is scanned back, if no line is too long or has a line end of its own.\<close>

definition file_of_lines :: "bytes list \<Rightarrow> host_file" where
  "file_of_lines ls = Content (concat (map (\<lambda>l. l @ [CHR 0x0A]) ls))"

definition line_ok :: "bytes \<Rightarrow> bool" where
  "line_ok l \<longleftrightarrow> CHR 0x0A \<notin> set l \<and> (l = [] \<or> last l \<noteq> CHR 0x0D) \<and> int (length l) < line_limit"

lemma split_on_lines:
  "\<forall>l \<in> set ls. CHR 0x0A \<notin> set l \<Longrightarrow> split_on (CHR 0x0A) (concat (map (\<lambda>l. l @ [CHR 0x0A]) ls)) = ls @ [[]]"
  by (induction ls) (simp_all add: split_on_append)

lemma scan_file_of_lines:
  assumes "list_all line_ok ls"
  shows "scan_file (file_of_lines ls) = Some \<lparr>sc_lines = ls, sc_err = False, sc_tail = False\<rparr>"
proof -
  have raw: "raw_lines (concat (map (\<lambda>l. l @ [CHR 0x0A]) ls)) = ls"
    using assms split_on_lines [of ls] by (simp add: raw_lines_def list_all_iff line_ok_def Let_def)
  have "short_lines ls = ls" "map drop_cr ls = ls"
    using assms by (auto simp: short_lines_def list_all_iff line_ok_def drop_cr_def intro!: map_idI)
  then show ?thesis by (simp add: scan_file_def file_of_lines_def scan_bytes_def raw Let_def)
qed

lemma show_nat_word [simp]: "word_ok (show_nat n)"
proof -
  have "plain_char c" if "is_digit c" for c
    using that by (auto simp: plain_char_def is_digit_def is_ascii_space_def)
  then show ?thesis using show_nat_digits [of n] by (auto simp: word_ok_def list_all_iff)
qed

lemma ParseUint64_show [simp]: "ParseUint64 (show_nat (unat w)) = Some (w :: uint64)"
proof -
  have "int (unat w) < 2 ^ 64" using uint_range_size [of w] by (simp add: word_size)
  then show ?thesis by (simp add: ParseUint64_def parse_uint_def)
qed

lemma ParseUint64_value_show [simp]: "ParseUint64_value (show_nat (unat w)) = (w :: uint64)"
proof -
  have "int (unat w) < 2 ^ 64" using uint_range_size [of w] by (simp add: word_size)
  then show ?thesis by (simp add: ParseUint64_value_def)
qed

lemma map_of_zip_map: "map_of (zip ks (map f vs)) k = map_option f (map_of (zip ks vs) k)"
proof (induction ks arbitrary: vs)
  case (Cons a ks)
  then show ?case by (cases vs) simp_all
qed simp

lemma CalculateUint64Delta_simps:
  "fst (CalculateUint64Delta c p) = (if c < p then 0 else c - p)"
  "snd (CalculateUint64Delta c p) = (c < p)"
  by (simp_all add: CalculateUint64Delta_def)

text \<open>What the deltas of named counters are.\<close>

lemma calculate_deltas_spec:
  assumes "f \<in> set names"
  shows "cd_deltas (calculate_deltas oor names rated cur prev t b) f =
      (if cur f < prev f then 0 else cur f - prev f)"
    and "CounterResetDetected (cd_metadata (calculate_deltas oor names rated cur prev t b)) \<longleftrightarrow>
      (\<exists>g \<in> set names. cur g < prev g)"
    and "(\<exists>g \<in> set names. cur g < prev g) \<Longrightarrow> cd_rates (calculate_deltas oor names rated cur prev t b) = zero_counters"
proof -
  have reset: "counter_reset names cur prev \<longleftrightarrow> (\<exists>g \<in> set names. cur g < prev g)"
    by (auto simp: counter_reset_def list_ex_iff CalculateUint64Delta_simps)
  show "cd_deltas (calculate_deltas oor names rated cur prev t b) f = (if cur f < prev f then 0 else cur f - prev f)"
    using assms by (simp add: calculate_deltas_def Let_def only_def counter_delta_def CalculateUint64Delta_simps)
  show "CounterResetDetected (cd_metadata (calculate_deltas oor names rated cur prev t b)) \<longleftrightarrow>
      (\<exists>g \<in> set names. cur g < prev g)"
    by (simp add: calculate_deltas_def Let_def CreateDeltaMetadata_def reset)
  show "cd_rates (calculate_deltas oor names rated cur prev t b) = zero_counters"
    if "\<exists>g \<in> set names. cur g < prev g"
    using that reset by (simp add: calculate_deltas_def Let_def)
qed

lemma join_with_hd_last:
  "list_all (\<lambda>w. w \<noteq> []) ws \<Longrightarrow> ws \<noteq> [] \<Longrightarrow>
   join_with c ws \<noteq> [] \<and> hd (join_with c ws) = hd (hd ws) \<and> last (join_with c ws) = last (last ws)"
proof (induction c ws rule: join_with.induct)
  case (3 c p q ps)
  then show ?case by auto
qed simp_all

lemma trim_space_words_line:
  assumes "list_all word_ok ws"
  shows "trim_space (words_line ws) = words_line ws"
proof (cases "ws = []")
  case False
  have "word_ok (hd ws)" "word_ok (last ws)" using assms False by (auto simp: list_all_iff)
  then have "plain_char (hd (hd ws))" "plain_char (last (last ws))" by (auto simp: word_ok_def list_all_iff)
  moreover have "list_all (\<lambda>w. w \<noteq> []) ws" using assms by (auto simp: list_all_iff word_ok_def)
  ultimately show ?thesis
    using join_with_hd_last [OF _ False, of "CHR 0x20"] by (simp add: trim_space_plain words_line_def)
qed (simp add: words_line_def)

lemma trim_space_newline:
  assumes "s \<noteq> []" "plain_char (hd s)" "plain_char (last s)"
  shows "trim_space (s @ [CHR 0x0A]) = s"
proof -
  have "trim_left_space (s @ [CHR 0x0A]) = s @ [CHR 0x0A]"
    using assms(1,2) by (intro trim_left_space_plain) (simp add: plain_char_def)
  moreover have "trim_right_space (s @ [CHR 0x0A]) = trim_right_space s"
    by (simp add: trim_right_space_def trim_spaces.simps [of _ "CHR 0x0A # rev s"] is_ascii_space_def)
  moreover have "trim_right_space s = s"
    using assms(1,3) by (intro trim_right_space_plain) (simp add: plain_char_def)
  ultimately show ?thesis by (simp add: trim_space_def)
qed

end
