(* ===== verification/TcpCollector.thy ===== *)
theory TcpCollector
  imports HostFiles
begin

text \<open>
  The collector of TCP statistics, \<open>pkg/performance/collectors/tcp.go\<close>: counters from
  \<open>/proc/net/snmp\<close> and \<open>/proc/net/netstat\<close>, connections by state from \<open>/proc/net/tcp\<close> and
  \<open>tcp6\<close>, and the deltas of the counters.
\<close>

section \<open>State\<close>

record tcp_stats =
  tcp_counters :: counters
  tcp_by_state :: "bytes \<rightharpoonup> uint64"
  tcp_delta :: "counter_deltas option"

record tcp_collector =
  tcp_base :: "tcp_stats delta_state"
  snmpPath :: bytes
  netstatPath :: bytes
  tcpPath :: bytes
  tcp6Path :: bytes

definition tcpStates :: "(bytes \<times> bytes) list" where
  "tcpStates =
     [(''01'', ''ESTABLISHED''), (''02'', ''SYN_SENT''), (''03'', ''SYN_RECV''), (''04'', ''FIN_WAIT1''),
      (''05'', ''FIN_WAIT2''), (''06'', ''TIME_WAIT''), (''07'', ''CLOSE''), (''08'', ''CLOSE_WAIT''),
      (''09'', ''LAST_ACK''), (''0A'', ''LISTEN''), (''0B'', ''CLOSING'')]"

definition NewTCPCollector :: "collection_config \<Rightarrow> (path_error, tcp_collector) result" where
  "NewTCPCollector config =
     (case collection_Validate \<lparr>RequireHostProcPath = True, RequireHostSysPath = False,
             RequireHostDevPath = False\<rparr> config of
        Some err \<Rightarrow> Inl err
      | None \<Rightarrow>
          Inr \<lparr>tcp_base = NewBaseDeltaCollector config,
               snmpPath = filepath_Join [cc_proc config, ''net'', ''snmp''],
               netstatPath = filepath_Join [cc_proc config, ''net'', ''netstat''],
               tcpPath = filepath_Join [cc_proc config, ''net'', ''tcp''],
               tcp6Path = filepath_Join [cc_proc config, ''net'', ''tcp6'']\<rparr>)"

section \<open>Parsing\<close>

text \<open>
  The loop that looks for a header line and the value line after it, both starting with
  \<open>proto\<close>. The result is the header, the values, and whether the loop was left with lines to
  come; the error of the scanner is then not set unless the last line was a partial one.
\<close>

fun find_header_values :: "bytes \<Rightarrow> bytes list option \<Rightarrow> bytes list \<Rightarrow>
    bytes list option \<times> bytes list option \<times> bytes list" where
  "find_header_values proto header [] = (header, None, [])"
| "find_header_values proto header (line # lines) =
     (let fields = str_fields line in
      if length fields < 2 then find_header_values proto header lines
      else if hd fields = proto
      then (case header of
              None \<Rightarrow> find_header_values proto (Some (tl fields)) lines
            | Some h \<Rightarrow> (header, Some (tl fields), lines))
      else find_header_values proto header lines)"

text \<open>\<open>scanner.Err()\<close> after that loop.\<close>

definition loop_error :: "scan \<Rightarrow> bytes list option \<Rightarrow> bytes list \<Rightarrow> bool" where
  "loop_error sc values rest =
     (if values = None then sc_err sc else sc_tail sc \<and> rest = [])"

text \<open>The loop over the header: fields that cannot be parsed or are not known are skipped.\<close>

fun assign_counters :: "bytes list \<Rightarrow> (bytes \<times> bytes) list \<Rightarrow> counters \<Rightarrow> counters" where
  "assign_counters known [] c = c"
| "assign_counters known ((header, text) # rest) c =
     assign_counters known rest
       (case ParseUint64 text of
          None \<Rightarrow> c
        | Some v \<Rightarrow> if header \<in> set known then c(header := v) else c)"

datatype tcp_error = OpenFailed bytes | ScanFailed bytes | NotFound bytes | LengthMismatch nat nat

definition snmpFields :: "bytes list" where
  "snmpFields = [''ActiveOpens'', ''PassiveOpens'', ''AttemptFails'', ''EstabResets'', ''CurrEstab'',
     ''InSegs'', ''OutSegs'', ''RetransSegs'', ''InErrs'', ''OutRsts'', ''InCsumErrors'']"

definition parseSNMP :: "host_fs \<Rightarrow> bytes \<Rightarrow> tcp_stats \<Rightarrow> (tcp_error, tcp_stats) result" where
  "parseSNMP fs path stats =
     (case scan_file (fs path) of
        None \<Rightarrow> Inl (OpenFailed path)
      | Some sc \<Rightarrow>
          (case find_header_values ''Tcp:'' None (sc_lines sc) of
             (tcpHeader, tcpValues, rest) \<Rightarrow>
               if loop_error sc tcpValues rest then Inl (ScanFailed path)
               else (case (tcpHeader, tcpValues) of
                       (Some h, Some v) \<Rightarrow>
                         if length h \<noteq> length v then Inl (LengthMismatch (length h) (length v))
                         else Inr (stats\<lparr>tcp_counters := assign_counters snmpFields (zip h v) (tcp_counters stats)\<rparr>)
                     | _ \<Rightarrow> Inl (NotFound path))))"

definition netstatFields :: "bytes list" where
  "netstatFields = [''SyncookiesSent'', ''SyncookiesRecv'', ''SyncookiesFailed'', ''ListenOverflows'',
     ''ListenDrops'', ''TCPLostRetransmit'', ''TCPFastRetrans'', ''TCPSlowStartRetrans'', ''TCPTimeouts'']"

text \<open>A missing \<open>TcpExt\<close> section is no error.\<close>

definition parseNetstat :: "host_fs \<Rightarrow> bytes \<Rightarrow> tcp_stats \<Rightarrow> (tcp_error, tcp_stats) result" where
  "parseNetstat fs path stats =
     (case scan_file (fs path) of
        None \<Rightarrow> Inl (OpenFailed path)
      | Some sc \<Rightarrow>
          (case find_header_values ''TcpExt:'' None (sc_lines sc) of
             (tcpExtHeader, tcpExtValues, rest) \<Rightarrow>
               if loop_error sc tcpExtValues rest then Inl (ScanFailed path)
               else (case (tcpExtHeader, tcpExtValues) of
                       (Some h, Some v) \<Rightarrow>
                         if length h \<noteq> length v then Inl (LengthMismatch (length h) (length v))
                         else Inr (stats\<lparr>tcp_counters := assign_counters netstatFields (zip h v) (tcp_counters stats)\<rparr>)
                     | _ \<Rightarrow> Inr stats)))"

text \<open>One line of the connection table, then the whole table after its header line.\<close>

definition count_connection :: "bytes \<Rightarrow> (bytes \<rightharpoonup> uint64) \<Rightarrow> (bytes \<rightharpoonup> uint64)" where
  "count_connection line m =
     (let fields = str_fields line in
      if length fields < 4 then m
      else (case map_of tcpStates (fields ! 3) of
              None \<Rightarrow> m
            | Some name \<Rightarrow> m(name \<mapsto> (case m name of None \<Rightarrow> 0 | Some n \<Rightarrow> n) + 1)))"

text \<open>The table may be read in part: what was counted before the error stays.\<close>

definition countConnectionsFromFile :: "host_fs \<Rightarrow> bytes \<Rightarrow> tcp_stats \<Rightarrow> bool \<times> tcp_stats" where
  "countConnectionsFromFile fs path stats =
     (case scan_file (fs path) of
        None \<Rightarrow> (False, stats)
      | Some sc \<Rightarrow>
          (\<not> sc_err sc, stats\<lparr>tcp_by_state := fold count_connection (drop 1 (sc_lines sc)) (tcp_by_state stats)\<rparr>))"

definition countConnectionStates :: "host_fs \<Rightarrow> tcp_collector \<Rightarrow> tcp_stats \<Rightarrow> tcp_stats" where
  "countConnectionStates fs c stats =
     (let s0 = stats\<lparr>tcp_by_state := fold (\<lambda>(_, name) m. m(name \<mapsto> 0)) tcpStates (tcp_by_state stats)\<rparr>;
          s1 = snd (countConnectionsFromFile fs (tcpPath c) s0)
      in snd (countConnectionsFromFile fs (tcp6Path c) s1))"

definition collectTCPStats :: "host_fs \<Rightarrow> tcp_collector \<Rightarrow> (tcp_error, tcp_stats) result" where
  "collectTCPStats fs c =
     result_bind (parseSNMP fs (snmpPath c)
         \<lparr>tcp_counters = zero_counters, tcp_by_state = Map.empty, tcp_delta = None\<rparr>) (\<lambda>stats.
       Inr (countConnectionStates fs c
         (case parseNetstat fs (netstatPath c) stats of Inl _ \<Rightarrow> stats | Inr s \<Rightarrow> s)))"

section \<open>Deltas and collection\<close>

text \<open>Every counter but the gauge \<open>CurrEstab\<close> has a delta and a rate.\<close>

definition tcpDeltaFields :: "bytes list" where
  "tcpDeltaFields = filter (\<lambda>f. f \<noteq> ''CurrEstab'') (snmpFields @ netstatFields)"

definition calculateTCPDeltas :: "(rat \<Rightarrow> uint64) \<Rightarrow> tcp_stats \<Rightarrow> tcp_stats \<Rightarrow> instant \<Rightarrow>
    tcp_stats delta_state \<Rightarrow> tcp_stats" where
  "calculateTCPDeltas oor current previous currentTime b =
     current\<lparr>tcp_delta := Some (calculate_deltas oor tcpDeltaFields tcpDeltaFields
       (tcp_counters current) (tcp_counters previous) currentTime b)\<rparr>"

definition tcp_Collect :: "(rat \<Rightarrow> uint64) \<Rightarrow> host_fs \<Rightarrow> instant \<Rightarrow> tcp_collector \<Rightarrow>
    (tcp_error, tcp_stats) result \<times> tcp_collector" where
  "tcp_Collect oor fs currentTime c =
     (case hold_Collect (calculateTCPDeltas oor) (collectTCPStats fs c) currentTime (tcp_base c) of
        (out, b) \<Rightarrow> (out, c\<lparr>tcp_base := b\<rparr>))"

section \<open>What is parsed\<close>

lemma assign_counters_spec:
  assumes "distinct h" "length h = length v"
  shows "assign_counters known (zip h (map (show_nat \<circ> unat) v)) c f =
    (if f \<in> set known then (case map_of (zip h v) f of None \<Rightarrow> c f | Some w \<Rightarrow> w) else c f)"
  using assms
proof (induction h arbitrary: v c)
  case (Cons a h)
  then obtain w ws where v: "v = w # ws" by (cases v) auto
  define m where "m = map_of (zip h ws)"
  have "m a = None" using Cons.prems by (auto simp: v m_def map_of_eq_None_iff dest: set_zip_leftD)
  moreover have "map_of (zip (a # h) v) = m(a \<mapsto> w)" by (simp add: v m_def)
  moreover have "distinct h" "length h = length ws" using Cons.prems by (simp_all add: v)
  ultimately show ?case
    using Cons.IH [of ws "if a \<in> set known then c(a := w) else c"]
    by (cases "f = a"; cases "m f") (simp_all add: v m_def [symmetric])
qed simp

text \<open>Lines that neither start with the protocol nor have two words are skipped.\<close>

definition other_line :: "bytes \<Rightarrow> bytes \<Rightarrow> bool" where
  "other_line proto line \<longleftrightarrow> length (str_fields line) < 2 \<or> hd (str_fields line) \<noteq> proto"

lemma find_header_values_skip:
  "list_all (other_line proto) pre \<Longrightarrow>
   find_header_values proto header (pre @ lines) = find_header_values proto header lines"
  by (induction pre) (auto simp: other_line_def Let_def)

lemma find_header_values_pair:
  assumes "list_all (other_line proto) pre" "list_all (other_line proto) mid"
    and "str_fields l1 = proto # h" "h \<noteq> []" "str_fields l2 = proto # v" "v \<noteq> []"
  shows "find_header_values proto None (pre @ l1 # mid @ l2 # post) = (Some h, Some v, post)"
  using assms find_header_values_skip [OF assms(1), of None "l1 # mid @ l2 # post"]
    find_header_values_skip [OF assms(2), of "Some h" "l2 # post"]
  by (cases h; cases v) (simp_all add: Let_def)

text \<open>A section of the file as the kernel prints it.\<close>

definition proto_lines :: "bytes \<Rightarrow> bytes list \<Rightarrow> uint64 list \<Rightarrow> bytes list" where
  "proto_lines proto h v = [words_line (proto # h), words_line (proto # map (show_nat \<circ> unat) v)]"

lemma parseSNMP_roundtrip:
  assumes "fs path = file_of_lines (pre @ proto_lines ''Tcp:'' h v @ post)"
    and "list_all line_ok (pre @ proto_lines ''Tcp:'' h v @ post)"
    and "list_all (other_line ''Tcp:'') pre" "list_all word_ok h" "distinct h" "h \<noteq> []" "length v = length h"
  shows "parseSNMP fs path stats = Inr (stats\<lparr>tcp_counters := (\<lambda>f. if f \<in> set snmpFields
      then (case map_of (zip h v) f of None \<Rightarrow> tcp_counters stats f | Some w \<Rightarrow> w) else tcp_counters stats f)\<rparr>)"
proof -
  have tcp: "word_ok ''Tcp:''" by (simp add: word_ok_def plain_char_def is_ascii_space_def)
  have fields: "str_fields (words_line (''Tcp:'' # h)) = ''Tcp:'' # h"
    "str_fields (words_line (''Tcp:'' # map (show_nat \<circ> unat) v)) = ''Tcp:'' # map (show_nat \<circ> unat) v"
    by (rule str_fields_words_line; use tcp assms(4) in \<open>simp add: list_all_iff\<close>)+
  have "find_header_values ''Tcp:'' None (pre @ proto_lines ''Tcp:'' h v @ post) =
      (Some h, Some (map (show_nat \<circ> unat) v), post)"
    using find_header_values_pair [OF assms(3) _ fields(1) assms(6) fields(2), of "[]" post] assms(6,7)
    by (cases v) (simp_all add: proto_lines_def)
  moreover have "assign_counters snmpFields (zip h (map (show_nat \<circ> unat) v)) (tcp_counters stats) =
      (\<lambda>f. if f \<in> set snmpFields
        then (case map_of (zip h v) f of None \<Rightarrow> tcp_counters stats f | Some w \<Rightarrow> w) else tcp_counters stats f)"
    using assign_counters_spec [OF assms(5), of v snmpFields] assms(7) by (simp add: fun_eq_iff)
  ultimately show ?thesis
    using scan_file_of_lines [OF assms(2)] assms(7)
    by (simp add: parseSNMP_def assms(1) loop_error_def)
qed

text \<open>Connections by state are counted exactly.\<close>

definition line_state :: "bytes \<Rightarrow> bytes option" where
  "line_state line =
     (if length (str_fields line) < 4 then None else map_of tcpStates (str_fields line ! 3))"

definition get_count :: "(bytes \<rightharpoonup> uint64) \<Rightarrow> bytes \<Rightarrow> uint64" where
  "get_count m name = (case m name of None \<Rightarrow> 0 | Some n \<Rightarrow> n)"

lemma count_connection_get:
  "get_count (count_connection line m) name = get_count m name + (if line_state line = Some name then 1 else 0)"
  by (auto simp: count_connection_def line_state_def get_count_def Let_def split: option.splits)

lemma count_connections_get:
  "get_count (fold count_connection lines m) name =
     get_count m name + of_nat (length (filter (\<lambda>l. line_state l = Some name) lines))"
  by (induction lines arbitrary: m) (simp_all add: count_connection_get)

definition table_lines :: "host_file \<Rightarrow> bytes list" where
  "table_lines f = (case scan_file f of None \<Rightarrow> [] | Some sc \<Rightarrow> drop 1 (sc_lines sc))"

lemma countConnectionsFromFile_get:
  "get_count (tcp_by_state (snd (countConnectionsFromFile fs path stats))) name =
     get_count (tcp_by_state stats) name +
     of_nat (length (filter (\<lambda>l. line_state l = Some name) (table_lines (fs path))))"
  by (simp add: countConnectionsFromFile_def table_lines_def count_connections_get split: option.splits)

lemma init_states_zero:
  "get_count (fold (\<lambda>(_, name) m. m(name \<mapsto> 0)) l m) name = (if name \<in> snd ` set l then 0 else get_count m name)"
  by (induction l arbitrary: m) (auto simp: get_count_def)

lemma collectTCPStats_states:
  assumes "collectTCPStats fs c = Inr stats"
  shows "get_count (tcp_by_state stats) name =
    of_nat (length (filter (\<lambda>l. line_state l = Some name)
      (table_lines (fs (tcpPath c)) @ table_lines (fs (tcp6Path c)))))"
proof -
  obtain s where s: "stats = countConnectionStates fs c s" "tcp_by_state s = Map.empty"
  proof -
    obtain s0 where s0: "parseSNMP fs (snmpPath c)
         \<lparr>tcp_counters = zero_counters, tcp_by_state = Map.empty, tcp_delta = None\<rparr> = Inr s0"
      and eq: "stats = countConnectionStates fs c
         (case parseNetstat fs (netstatPath c) s0 of Inl _ \<Rightarrow> s0 | Inr s \<Rightarrow> s)"
      using assms by (auto simp: collectTCPStats_def result_bind_Inr_iff)
    have "tcp_by_state s0 = Map.empty"
      using s0 by (auto simp: parseSNMP_def split: option.splits prod.splits if_splits)
    moreover have "tcp_by_state s1 = tcp_by_state s0" if "parseNetstat fs (netstatPath c) s0 = Inr s1" for s1
      using that by (auto simp: parseNetstat_def split: option.splits prod.splits if_splits)
    ultimately show thesis using that eq by (auto split: sum.splits)
  qed
  have "get_count (Map.empty :: bytes \<rightharpoonup> uint64) name = 0" by (simp add: get_count_def)
  then show ?thesis
    using s(2) by (simp add: s(1) countConnectionStates_def Let_def countConnectionsFromFile_get init_states_zero)
qed

section \<open>Two collections\<close>

lemma tcp_Collect_first:
  assumes "NewTCPCollector config = Inr c" "collectTCPStats fs c = Inr s"
  shows "tcp_Collect oor fs t c = (Inr s, c\<lparr>tcp_base := UpdateDeltaState s t (tcp_base c)\<rparr>)"
proof -
  have "IsFirst (tcp_base c)"
    using assms(1) by (auto simp: NewTCPCollector_def NewBaseDeltaCollector_def split: option.splits)
  then show ?thesis by (simp add: tcp_Collect_def assms(2) hold.first)
qed

lemma collectTCPStats_base: "collectTCPStats fs (c\<lparr>tcp_base := b\<rparr>) = collectTCPStats fs c"
  by (simp add: collectTCPStats_def countConnectionStates_def)

end
