(* ===== verification/CpuCollector.thy ===== *)
theory CpuCollector
  imports HostFiles
begin

text \<open>
  The collector of CPU statistics, \<open>pkg/performance/collectors/cpu.go\<close>: the times of every CPU
  from \<open>/proc/stat\<close>, their deltas and the percentages of the time between two collections. A
  gap in the CPU numbers is only logged.
\<close>

section \<open>State\<close>

record cpu_delta =
  cpud_metadata :: delta_metadata
  cpud_times :: counters
  cpud_percent :: "bytes \<Rightarrow> rat"

record cpu_stats =
  CPUIndex :: int
  cpu_times :: counters
  cpu_delta :: "cpu_delta option"

record cpu_collector =
  cpu_base :: "cpu_stats list delta_state"
  statPath :: bytes

text \<open>The fields of a line after the CPU's name, in their order; the last three are optional.\<close>

definition cpuFields :: "bytes list" where
  "cpuFields = [''User'', ''Nice'', ''System'', ''Idle'', ''IOWait'', ''IRQ'', ''SoftIRQ'', ''Steal'',
     ''Guest'', ''GuestNice'']"

definition NewCPUCollector :: "collection_config \<Rightarrow> (path_error, cpu_collector) result" where
  "NewCPUCollector config =
     (case collection_Validate \<lparr>RequireHostProcPath = True, RequireHostSysPath = False,
             RequireHostDevPath = False\<rparr> config of
        Some err \<Rightarrow> Inl err
      | None \<Rightarrow> Inr \<lparr>cpu_base = NewBaseDeltaCollector config,
                      statPath = filepath_Join [cc_proc config, ''stat'']\<rparr>)"

section \<open>Parsing\<close>

text \<open>The index of a CPU name: -1 for the aggregate line, \<open>None\<close> for a name to skip.\<close>

definition cpu_index :: "bytes \<Rightarrow> int option" where
  "cpu_index cpuName =
     (if cpuName = ''cpu'' then Some (- 1)
      else if length cpuName \<le> 3 \<or> ord (cpuName ! 3) < 48 \<or> ord (cpuName ! 3) > 57 then None
      else parse_int 32 (trim_prefix cpuName ''cpu''))"

text \<open>Fields that cannot be parsed stay 0.\<close>

definition parse_times :: "bytes list \<Rightarrow> counters" where
  "parse_times texts =
     (\<lambda>f. case map_of (zip cpuFields texts) f of
            None \<Rightarrow> 0
          | Some text \<Rightarrow> (case ParseUint64 text of None \<Rightarrow> 0 | Some v \<Rightarrow> v))"

definition parse_cpu_line :: "bytes \<Rightarrow> cpu_stats option" where
  "parse_cpu_line raw =
     (let line = trim_space raw in
      if line = '''' \<or> \<not> has_prefix line ''cpu'' then None
      else let fields = str_fields line in
        if length fields < 8 then None
        else (case cpu_index (hd fields) of
                None \<Rightarrow> None
              | Some i \<Rightarrow> Some \<lparr>CPUIndex = i, cpu_times = parse_times (tl fields), cpu_delta = None\<rparr>))"

datatype cpu_error = CpuReadFailed bytes | NoCpuStats bytes

definition collectCPUStats :: "host_fs \<Rightarrow> cpu_collector \<Rightarrow> (cpu_error, cpu_stats list) result" where
  "collectCPUStats fs c =
     (case os_ReadFile (fs (statPath c)) of
        None \<Rightarrow> Inl (CpuReadFailed (statPath c))
      | Some data \<Rightarrow>
          (let cpuStats = List.map_filter parse_cpu_line (split_on (CHR 0x0A) data)
           in if length cpuStats = 0 then Inl (NoCpuStats (statPath c)) else Inr cpuStats))"

section \<open>Deltas\<close>

text \<open>The sum of the deltas is in 64-bit arithmetic, before it is converted.\<close>

definition total_time :: "counters \<Rightarrow> uint64" where
  "total_time d = sum_list (map d cpuFields)"

definition calculateCPUPercentages :: "counters \<Rightarrow> bytes \<Rightarrow> rat" where
  "calculateCPUPercentages d =
     (let totalTime = float64_of_uint64 (total_time d)
      in if totalTime > 0
         then (\<lambda>f. if f \<in> set cpuFields then float64_mul (float64_div (float64_of_uint64 (d f)) totalTime) 100 else 0)
         else (\<lambda>_. 0))"

text \<open>The metadata takes the time anew: \<open>now\<close> is that later instant.\<close>

definition calculateCPUCoreDeltas :: "instant \<Rightarrow> cpu_stats \<Rightarrow> cpu_stats \<Rightarrow> 's delta_state \<Rightarrow> cpu_stats" where
  "calculateCPUCoreDeltas now current previous b =
     (let d = only cpuFields (counter_delta (cpu_times current) (cpu_times previous));
          resetDetected = counter_reset cpuFields (cpu_times current) (cpu_times previous)
      in current\<lparr>cpu_delta := Some
           \<lparr>cpud_metadata = CreateDeltaMetadata now resetDetected b, cpud_times = d,
            cpud_percent = (if \<not> resetDetected then calculateCPUPercentages d else (\<lambda>_. 0))\<rparr>\<rparr>)"

definition calculateCPUDeltas :: "(int \<Rightarrow> instant) \<Rightarrow> cpu_stats list \<Rightarrow> cpu_stats list \<Rightarrow> instant \<Rightarrow>
    cpu_stats list delta_state \<Rightarrow> cpu_stats list" where
  "calculateCPUDeltas nows current previous currentTime b =
     (let prevStatsMap = by_key CPUIndex previous
      in map (\<lambda>cur. case prevStatsMap (CPUIndex cur) of
                      None \<Rightarrow> cur
                    | Some prev \<Rightarrow> calculateCPUCoreDeltas (nows (CPUIndex cur)) cur prev b) current)"

definition cpu_Collect :: "(int \<Rightarrow> instant) \<Rightarrow> host_fs \<Rightarrow> instant \<Rightarrow> cpu_collector \<Rightarrow>
    (cpu_error, cpu_stats list) result \<times> cpu_collector" where
  "cpu_Collect nows fs currentTime c =
     (case hold_Collect (calculateCPUDeltas nows) (collectCPUStats fs c) currentTime (cpu_base c) of
        (out, b) \<Rightarrow> (out, c\<lparr>cpu_base := b\<rparr>))"

section \<open>Properties\<close>

text \<open>A line as the kernel prints it.\<close>

definition cpu_name :: "int \<Rightarrow> bytes" where
  "cpu_name i = (if i = - 1 then ''cpu'' else ''cpu'' @ show_nat (nat i))"

definition show_cpu :: "int \<times> uint64 list \<Rightarrow> bytes" where
  "show_cpu x = (case x of (i, v) \<Rightarrow> words_line (cpu_name i # map (show_nat \<circ> unat) v))"

lemma cpu_index_name:
  assumes "- 1 \<le> i" "i < 2 ^ 31"
  shows "cpu_index (cpu_name i) = Some i"
proof (cases "i = - 1")
  case False
  obtain d ds where d: "show_nat (nat i) = d # ds" using show_nat_digits [of "nat i"] by (cases "show_nat (nat i)") auto
  have "is_digit d" using show_nat_digit_set [of d "nat i"] d by simp
  moreover have "parse_int 32 (show_nat (nat i)) = Some i"
    using parse_int_show_nat [of "nat i" 32] assms False by simp
  ultimately show ?thesis
    using False d by (auto simp: cpu_index_def cpu_name_def is_digit_def trim_prefix_def has_prefix_def)
qed (simp add: cpu_index_def cpu_name_def)

lemma cpu_name_word: "word_ok (cpu_name i)"
  using show_nat_word [of "nat i"]
  by (auto simp: cpu_name_def word_ok_def plain_char_def is_ascii_space_def)

definition stats_of :: "int \<times> uint64 list \<Rightarrow> cpu_stats" where
  "stats_of x =
     (case x of (i, v) \<Rightarrow>
        \<lparr>CPUIndex = i, cpu_times = (\<lambda>f. case map_of (zip cpuFields v) f of None \<Rightarrow> 0 | Some w \<Rightarrow> w),
         cpu_delta = None\<rparr>)"

lemma parse_times_show:
  "parse_times (map (show_nat \<circ> unat) v) = (\<lambda>f. case map_of (zip cpuFields v) f of None \<Rightarrow> 0 | Some w \<Rightarrow> w)"
  unfolding parse_times_def map_of_zip_map by (auto split: option.splits)

lemma parse_cpu_line_show:
  assumes "- 1 \<le> i" "i < 2 ^ 31" "7 \<le> length v"
  shows "parse_cpu_line (show_cpu (i, v)) = Some (stats_of (i, v))"
proof -
  have words: "list_all word_ok (cpu_name i # map (show_nat \<circ> unat) v)"
    using cpu_name_word by (simp add: list_all_iff)
  have "has_prefix (show_cpu (i, v)) ''cpu''"
    using assms(3) by (cases v) (auto simp: show_cpu_def words_line_def cpu_name_def has_prefix_def)
  moreover have "show_cpu (i, v) \<noteq> ''''" using calculation by (auto simp: has_prefix_def)
  moreover have "trim_space (show_cpu (i, v)) = show_cpu (i, v)"
    "str_fields (show_cpu (i, v)) = cpu_name i # map (show_nat \<circ> unat) v"
    using trim_space_words_line [OF words] str_fields_words_line [OF words] by (simp_all add: show_cpu_def)
  ultimately show ?thesis
    using assms(3) cpu_index_name [OF assms(1,2)]
    by (simp add: parse_cpu_line_def Let_def stats_of_def parse_times_show)
qed

lemma map_filter_append: "List.map_filter f (xs @ ys) = List.map_filter f xs @ List.map_filter f ys"
  by (simp add: List.map_filter_def)

text \<open>The statistics read back from a file of the kernel's form.\<close>

lemma collectCPUStats_roundtrip:
  assumes "fs (statPath c) = file_of_lines (map show_cpu cpus @ others)" "cpus \<noteq> []"
    and "\<forall>(i, v) \<in> set cpus. - 1 \<le> i \<and> i < 2 ^ 31 \<and> 7 \<le> length v"
    and "\<forall>l \<in> set others. CHR 0x0A \<notin> set l \<and> parse_cpu_line l = None"
  shows "collectCPUStats fs c = Inr (map stats_of cpus)"
proof -
  have nl: "CHR 0x0A \<notin> set (words_line ws)" if "list_all word_ok ws" for ws
    using that unfolding words_line_def
    by (induction "CHR 0x20" ws rule: join_with.induct)
      (auto simp: word_ok_def list_all_iff plain_char_def is_ascii_space_def)
  have "CHR 0x0A \<notin> set (show_cpu x)" for x
    using nl [of "cpu_name (fst x) # map (show_nat \<circ> unat) (snd x)"] cpu_name_word
    by (cases x) (simp add: show_cpu_def list_all_iff)
  then have lines: "\<forall>l \<in> set (map show_cpu cpus @ others). CHR 0x0A \<notin> set l" using assms(4) by auto
  have "List.map_filter parse_cpu_line (map show_cpu xs) = map stats_of xs"
    if "\<forall>(i, v) \<in> set xs. - 1 \<le> i \<and> i < 2 ^ 31 \<and> 7 \<le> length v" for xs
    using that by (induction xs) (auto simp: List.map_filter_simps parse_cpu_line_show)
  moreover have "List.map_filter parse_cpu_line others = []"
    using assms(4) by (induction others) (auto simp: List.map_filter_simps)
  moreover have "parse_cpu_line [] = None" by (simp add: parse_cpu_line_def)
  ultimately have "List.map_filter parse_cpu_line ((map show_cpu cpus @ others) @ [[]]) = map stats_of cpus"
    using assms(3) by (simp add: map_filter_append List.map_filter_simps)
  then show ?thesis
    using assms(2) by (simp add: collectCPUStats_def assms(1) os_ReadFile_def file_of_lines_def
        split_on_lines [OF lines, simplified] Let_def)
qed

lemma sum_list_unat:
  fixes ws :: "uint64 list"
  assumes "sum_list (map unat ws) < 2 ^ 64"
  shows "unat (sum_list ws) = sum_list (map unat ws)"
  using assms
proof (induction ws)
  case (Cons w ws)
  then have "unat (sum_list ws) = sum_list (map unat ws)" by simp
  then show ?case using Cons.prems by (simp add: unat_word_ariths)
qed simp

lemma cpu_percent_bounds:
  assumes "sum_list (map (unat \<circ> d) cpuFields) < 2 ^ 64"
  shows "0 \<le> calculateCPUPercentages d f \<and> calculateCPUPercentages d f \<le> 100"
proof (cases "f \<in> set cpuFields \<and> 0 < float64_of_uint64 (total_time d)")
  case True
  have "unat (d f) \<le> sum_list (map (unat \<circ> d) cpuFields)"
    using True by (intro member_le_sum_list) auto
  also have "\<dots> = unat (total_time d)"
    using sum_list_unat [of "map d cpuFields"] assms by (simp add: total_time_def comp_def)
  finally have "float64_of_uint64 (d f) \<le> float64_of_uint64 (total_time d)" by (rule float64_of_uint64_mono)
  then show ?thesis
    using True percent_bounds [of "float64_of_uint64 (d f)" "float64_of_uint64 (total_time d)"]
    by (simp add: calculateCPUPercentages_def Let_def)
next
  case False
  then show ?thesis by (auto simp: calculateCPUPercentages_def Let_def)
qed

end
