(* ===== verification/MemoryCollector.thy ===== *)
theory MemoryCollector
  imports HostFiles
begin

text \<open>
  The collectors of memory and system activity, \<open>pkg/performance/collectors/memory.go\<close> and
  \<open>system.go\<close>: gauges from \<open>/proc/meminfo\<close> converted to bytes, the swap counters of
  \<open>/proc/vmstat\<close>, and the interrupt and context-switch counters of \<open>/proc/stat\<close>. A struct of
  counters is a function from the names of its Go fields.
\<close>

section \<open>Memory\<close>

record memory_stats =
  mem_fields :: counters
  mem_delta :: "counter_deltas option"

record memory_collector =
  mem_base :: "memory_stats delta_state"
  meminfoPath :: bytes
  vmstatPath :: bytes

definition NewMemoryCollector :: "collection_config \<Rightarrow> (path_error, memory_collector) result" where
  "NewMemoryCollector config =
     (case collection_Validate \<lparr>RequireHostProcPath = True, RequireHostSysPath = False,
             RequireHostDevPath = False\<rparr> config of
        Some err \<Rightarrow> Inl err
      | None \<Rightarrow> Inr \<lparr>mem_base = NewBaseDeltaCollector config,
                      meminfoPath = filepath_Join [cc_proc config, ''meminfo''],
                      vmstatPath = filepath_Join [cc_proc config, ''vmstat'']\<rparr>)"

text \<open>The fields in kilobytes: the name in the file and the name in the struct.\<close>

definition kilobyteFields :: "(bytes \<times> bytes) list" where
  "kilobyteFields =
     map (\<lambda>f. (f, f)) [''MemTotal'', ''MemFree'', ''MemAvailable'', ''Buffers'', ''Cached'', ''SwapCached'',
       ''Active'', ''Inactive'', ''SwapTotal'', ''SwapFree'', ''Dirty'', ''Writeback'', ''AnonPages'', ''Mapped'',
       ''Shmem'', ''Slab'', ''SReclaimable'', ''SUnreclaim'', ''KernelStack'', ''PageTables'', ''CommitLimit'']
     @ [(''Committed_AS'', ''CommittedAS''), (''VmallocTotal'', ''VmallocTotal''), (''VmallocUsed'', ''VmallocUsed''),
        (''Hugepagesize'', ''HugePagesize''), (''Hugetlb'', ''Hugetlb'')]"

text \<open>The fields that count huge pages.\<close>

definition hugePagesCountFields :: "bytes list" where
  "hugePagesCountFields = [''HugePages_Total'', ''HugePages_Free'', ''HugePages_Rsvd'', ''HugePages_Surp'']"

definition fieldMap :: "(bytes \<times> bytes) list" where
  "fieldMap = kilobyteFields @ map (\<lambda>f. (f, f)) hugePagesCountFields"

definition meminfo_line :: "bytes \<Rightarrow> counters \<Rightarrow> counters" where
  "meminfo_line line c =
     (let parts = str_fields line in
      if length parts < 2 then c
      else (case map_of fieldMap (trim_suffix (parts ! 0) '':'') of
              None \<Rightarrow> c
            | Some field \<Rightarrow>
                (case ParseUint64 (parts ! 1) of None \<Rightarrow> c | Some v \<Rightarrow> c(field := v))))"

definition vmstat_line :: "bytes \<Rightarrow> counters \<Rightarrow> counters" where
  "vmstat_line line c =
     (let parts = str_fields line in
      if length parts \<noteq> 2 then c
      else (case map_of [(''pswpin'', ''SwapIn''), (''pswpout'', ''SwapOut'')] (parts ! 0) of
              None \<Rightarrow> c
            | Some field \<Rightarrow>
                (case ParseUint64 (parts ! 1) of None \<Rightarrow> c | Some v \<Rightarrow> c(field := v))))"

text \<open>The file is optional; what was read before an error is kept.\<close>

definition collectSwapActivity :: "host_fs \<Rightarrow> bytes \<Rightarrow> counters \<Rightarrow> counters" where
  "collectSwapActivity fs path c =
     (case scan_file (fs path) of None \<Rightarrow> c | Some sc \<Rightarrow> fold vmstat_line (sc_lines sc) c)"

text \<open>Conversion to bytes: counts of huge pages are multiplied with the size of one.\<close>

definition convertToBytes :: "counters \<Rightarrow> counters" where
  "convertToBytes c =
     (let c1 = (\<lambda>f. if f \<in> snd ` set kilobyteFields then c f * 1024 else c f)
      in if c1 ''HugePagesize'' > 0
         then (\<lambda>f. if f \<in> set hugePagesCountFields then c1 f * c1 ''HugePagesize'' else c1 f)
         else c1)"

datatype proc_error = ProcOpenFailed bytes | ProcReadFailed bytes

definition collectMemoryStats :: "host_fs \<Rightarrow> memory_collector \<Rightarrow> (proc_error, memory_stats) result" where
  "collectMemoryStats fs c =
     (case scan_file (fs (meminfoPath c)) of
        None \<Rightarrow> Inl (ProcOpenFailed (meminfoPath c))
      | Some sc \<Rightarrow>
          if sc_err sc then Inl (ProcReadFailed (meminfoPath c))
          else Inr \<lparr>mem_fields = convertToBytes (collectSwapActivity fs (vmstatPath c)
                      (fold meminfo_line (sc_lines sc) zero_counters)),
                    mem_delta = None\<rparr>)"

definition swapFields :: "bytes list" where
  "swapFields = [''SwapIn'', ''SwapOut'']"

definition calculateMemoryDeltas :: "(rat \<Rightarrow> uint64) \<Rightarrow> memory_stats \<Rightarrow> memory_stats \<Rightarrow> instant \<Rightarrow>
    memory_stats delta_state \<Rightarrow> memory_stats" where
  "calculateMemoryDeltas oor current previous currentTime b =
     current\<lparr>mem_delta := Some (calculate_deltas oor swapFields swapFields
       (mem_fields current) (mem_fields previous) currentTime b)\<rparr>"

definition memory_Collect :: "(rat \<Rightarrow> uint64) \<Rightarrow> host_fs \<Rightarrow> instant \<Rightarrow> memory_collector \<Rightarrow>
    (proc_error, memory_stats) result \<times> memory_collector" where
  "memory_Collect oor fs currentTime c =
     (case hold_Collect (calculateMemoryDeltas oor) (collectMemoryStats fs c) currentTime (mem_base c) of
        (out, b) \<Rightarrow> (out, c\<lparr>mem_base := b\<rparr>))"

section \<open>System activity\<close>

record system_stats =
  sys_fields :: counters
  sys_delta :: "counter_deltas option"

record system_collector =
  sys_base :: "system_stats delta_state"
  sysStatPath :: bytes

definition NewSystemStatsCollector :: "collection_config \<Rightarrow> (path_error, system_collector) result" where
  "NewSystemStatsCollector config =
     (case collection_Validate \<lparr>RequireHostProcPath = True, RequireHostSysPath = False,
             RequireHostDevPath = False\<rparr> config of
        Some err \<Rightarrow> Inl err
      | None \<Rightarrow> Inr \<lparr>sys_base = NewBaseDeltaCollector config,
                      sysStatPath = filepath_Join [cc_proc config, ''stat'']\<rparr>)"

definition system_line :: "bytes \<Rightarrow> counters \<Rightarrow> counters" where
  "system_line line c =
     (let parts = str_fields line in
      if length parts < 2 then c
      else (case map_of [(''intr'', ''Interrupts''), (''ctxt'', ''ContextSwitches'')] (parts ! 0) of
              None \<Rightarrow> c
            | Some field \<Rightarrow>
                (case ParseUint64 (parts ! 1) of None \<Rightarrow> c | Some v \<Rightarrow> c(field := v))))"

definition collectSystemStats :: "host_fs \<Rightarrow> system_collector \<Rightarrow> (proc_error, system_stats) result" where
  "collectSystemStats fs c =
     (case scan_file (fs (sysStatPath c)) of
        None \<Rightarrow> Inl (ProcOpenFailed (sysStatPath c))
      | Some sc \<Rightarrow>
          if sc_err sc then Inl (ProcReadFailed (sysStatPath c))
          else Inr \<lparr>sys_fields = fold system_line (sc_lines sc) zero_counters, sys_delta = None\<rparr>)"

definition systemFields :: "bytes list" where
  "systemFields = [''Interrupts'', ''ContextSwitches'']"

definition calculateSystemDeltas :: "(rat \<Rightarrow> uint64) \<Rightarrow> system_stats \<Rightarrow> system_stats \<Rightarrow> instant \<Rightarrow>
    system_stats delta_state \<Rightarrow> system_stats" where
  "calculateSystemDeltas oor current previous currentTime b =
     current\<lparr>sys_delta := Some (calculate_deltas oor systemFields systemFields
       (sys_fields current) (sys_fields previous) currentTime b)\<rparr>"

definition system_Collect :: "(rat \<Rightarrow> uint64) \<Rightarrow> host_fs \<Rightarrow> instant \<Rightarrow> system_collector \<Rightarrow>
    (proc_error, system_stats) result \<times> system_collector" where
  "system_Collect oor fs currentTime c =
     (case hold_Collect (calculateSystemDeltas oor) (collectSystemStats fs c) currentTime (sys_base c) of
        (out, b) \<Rightarrow> (out, c\<lparr>sys_base := b\<rparr>))"

section \<open>What is read\<close>

text \<open>A line of \<open>/proc/meminfo\<close> as the kernel prints it.\<close>

definition show_meminfo :: "bytes \<times> uint64 \<Rightarrow> bytes" where
  "show_meminfo x = (case x of (name, v) \<Rightarrow> words_line [name @ '':'', show_nat (unat v), ''kB''])"

definition struct_field :: "bytes \<Rightarrow> bytes" where
  "struct_field name = (case map_of fieldMap name of None \<Rightarrow> '''' | Some f \<Rightarrow> f)"

lemma fieldMap_words: "list_all word_ok (map fst fieldMap)"
  by code_simp

lemma fieldMap_injective: "distinct (map snd fieldMap)"
  by code_simp

lemma struct_field_inj:
  assumes "name \<in> fst ` set fieldMap" "name' \<in> fst ` set fieldMap" "struct_field name = struct_field name'"
  shows "name = name'"
proof -
  obtain f f' where f: "map_of fieldMap name = Some f" "map_of fieldMap name' = Some f'"
    using assms(1,2) by (metis domIff dom_map_of_conv_image_fst option.exhaust)
  then have "(name, f) \<in> set fieldMap" "(name', f) \<in> set fieldMap"
    using assms(3) by (auto simp: struct_field_def dest: map_of_SomeD)
  then show ?thesis using fieldMap_injective by (metis eq_snd_iff fst_conv inj_onD distinct_map snd_conv)
qed

lemma meminfo_line_show:
  assumes "name \<in> fst ` set fieldMap"
  shows "meminfo_line (show_meminfo (name, v)) c = c(struct_field name := v)"
proof -
  have name: "word_ok name" using assms fieldMap_words by (auto simp: list_all_iff)
  obtain f where f: "map_of fieldMap name = Some f"
    using assms by (metis domIff dom_map_of_conv_image_fst option.exhaust)
  have "list_all word_ok [name @ '':'', show_nat (unat v), ''kB'']"
    using name by (simp add: word_ok_def plain_char_def is_ascii_space_def) (use show_nat_word [of "unat v"] in \<open>simp add: word_ok_def\<close>)
  then have "str_fields (show_meminfo (name, v)) = [name @ '':'', show_nat (unat v), ''kB'']"
    by (simp add: show_meminfo_def str_fields_words_line)
  then show ?thesis
    by (simp add: meminfo_line_def Let_def trim_suffix_def has_suffix_def f struct_field_def)
qed

lemma meminfo_lines_show:
  assumes "fst ` set entries \<subseteq> fst ` set fieldMap" "distinct (map fst entries)"
  shows "fold meminfo_line (map show_meminfo entries) c f =
    (case find (\<lambda>x. struct_field (fst x) = f) entries of None \<Rightarrow> c f | Some x \<Rightarrow> snd x)"
  using assms
proof (induction entries arbitrary: c)
  case (Cons x entries)
  obtain name v where x: "x = (name, v)" by (cases x)
  have rest: "fst ` set entries \<subseteq> fst ` set fieldMap" "distinct (map fst entries)" "name \<in> fst ` set fieldMap"
    using Cons.prems by (auto simp: x)
  have "struct_field (fst y) \<noteq> struct_field name" if "y \<in> set entries" for y
  proof -
    have "fst y \<noteq> name" "fst y \<in> fst ` set fieldMap" using that Cons.prems rest(1) by (auto simp: x)
    then show ?thesis using struct_field_inj [OF _ rest(3)] by blast
  qed
  then have "find (\<lambda>y. struct_field (fst y) = struct_field name) entries = None"
    unfolding find_None_iff by blast
  then show ?case
    using Cons.IH [OF rest(1,2)] meminfo_line_show [OF rest(3), of v c]
    by (cases "struct_field name = f") (simp_all add: x split: option.split)
qed simp

end
