(* ===== verification/DiskNetworkCollectors.thy ===== *)
theory DiskNetworkCollectors
  imports HostFiles
begin

text \<open>
  The collectors of network and disk statistics, \<open>pkg/performance/collectors/network.go\<close> and
  \<open>disk.go\<close>. Both update their state at every collection and compare each interface or device
  with the one of the same name before. A counter that cannot be parsed keeps the value that
  the parser returns with its error.
\<close>

datatype dev_error = DevOpenFailed bytes | DevReadFailed bytes

section \<open>Network interfaces\<close>

record network_stats =
  Interface :: bytes
  net_counters :: counters
  Speed :: uint64
  Duplex :: bytes
  OperState :: bytes
  LinkDetected :: bool
  net_delta :: "counter_deltas option"

record network_collector =
  net_base :: "network_stats list delta_state"
  procNetDevPath :: bytes
  sysClassNetPath :: bytes

definition NewNetworkCollector :: "collection_config \<Rightarrow> (path_error, network_collector) result" where
  "NewNetworkCollector config =
     (case collection_Validate \<lparr>RequireHostProcPath = True, RequireHostSysPath = True,
             RequireHostDevPath = False\<rparr> config of
        Some err \<Rightarrow> Inl err
      | None \<Rightarrow> Inr \<lparr>net_base = NewBaseDeltaCollector config,
                      procNetDevPath = filepath_Join [cc_proc config, ''net'', ''dev''],
                      sysClassNetPath = filepath_Join [cc_sys config, ''class'', ''net'']\<rparr>)"

definition networkColumns :: "bytes list" where
  "networkColumns = [''RxBytes'', ''RxPackets'', ''RxErrors'', ''RxDropped'', ''RxFIFO'', ''RxFrame'',
     ''RxCompressed'', ''RxMulticast'', ''TxBytes'', ''TxPackets'', ''TxErrors'', ''TxDropped'', ''TxFIFO'',
     ''TxCollisions'', ''TxCarrier'', ''TxCompressed'']"

definition readInterfaceMetadata :: "host_fs \<Rightarrow> bytes \<Rightarrow> network_stats \<Rightarrow> network_stats" where
  "readInterfaceMetadata fs sysClassNet stat =
     (let ifacePath = filepath_Join [sysClassNet, Interface stat];
          file = (\<lambda>name. read_trimmed fs (filepath_Join [ifacePath, name]))
      in stat\<lparr>Speed := (case file ''speed'' of
                  None \<Rightarrow> Speed stat
                | Some s \<Rightarrow> (case ParseUint64 s of None \<Rightarrow> Speed stat | Some v \<Rightarrow> v)),
              Duplex := (case file ''duplex'' of None \<Rightarrow> Duplex stat | Some s \<Rightarrow> s),
              OperState := (case file ''operstate'' of None \<Rightarrow> OperState stat | Some s \<Rightarrow> s),
              LinkDetected := (case file ''carrier'' of None \<Rightarrow> LinkDetected stat | Some s \<Rightarrow> s = ''1'')\<rparr>)"

definition parse_network_line :: "bytes \<Rightarrow> network_stats option" where
  "parse_network_line line =
     (case split_on (CHR '':'') line of
        [name, rest] \<Rightarrow>
          (let fields = str_fields rest in
           if length fields < 16 then None
           else Some \<lparr>Interface = trim_space name, net_counters = columns networkColumns fields,
                      Speed = 0, Duplex = '''', OperState = '''', LinkDetected = False, net_delta = None\<rparr>)
      | _ \<Rightarrow> None)"

text \<open>The first two lines are headers.\<close>

definition collectNetworkStats :: "host_fs \<Rightarrow> network_collector \<Rightarrow> (dev_error, network_stats list) result" where
  "collectNetworkStats fs c =
     (case scan_file (fs (procNetDevPath c)) of
        None \<Rightarrow> Inl (DevOpenFailed (procNetDevPath c))
      | Some sc \<Rightarrow>
          if sc_err sc then Inl (DevReadFailed (procNetDevPath c))
          else Inr (map (readInterfaceMetadata fs (sysClassNetPath c))
                 (List.map_filter parse_network_line (drop 2 (sc_lines sc)))))"

definition networkDeltaFields :: "bytes list" where
  "networkDeltaFields = [''RxBytes'', ''TxBytes'', ''RxPackets'', ''TxPackets'', ''RxErrors'', ''TxErrors'',
     ''RxDropped'', ''TxDropped'']"

text \<open>The interval is that of the collection; the metadata takes the time anew (\<open>now\<close>).\<close>

definition calculateInterfaceDeltas :: "(rat \<Rightarrow> uint64) \<Rightarrow> instant \<Rightarrow> network_stats \<Rightarrow> network_stats \<Rightarrow>
    instant \<Rightarrow> 's delta_state \<Rightarrow> network_stats" where
  "calculateInterfaceDeltas oor now current previous currentTime b =
     current\<lparr>net_delta := Some ((calculate_deltas oor networkDeltaFields networkDeltaFields
         (net_counters current) (net_counters previous) currentTime b)
       \<lparr>cd_metadata := CreateDeltaMetadata now
          (counter_reset networkDeltaFields (net_counters current) (net_counters previous)) b\<rparr>)\<rparr>"

definition calculateNetworkDeltas :: "(rat \<Rightarrow> uint64) \<Rightarrow> (bytes \<Rightarrow> instant) \<Rightarrow> network_stats list \<Rightarrow>
    network_stats list \<Rightarrow> instant \<Rightarrow> network_stats list delta_state \<Rightarrow> network_stats list" where
  "calculateNetworkDeltas oor nows current previous currentTime b =
     (let prevStatsMap = by_key Interface previous
      in map (\<lambda>cur. case prevStatsMap (Interface cur) of
                      None \<Rightarrow> cur
                    | Some prev \<Rightarrow> calculateInterfaceDeltas oor (nows (Interface cur)) cur prev currentTime b) current)"

definition network_Collect :: "(rat \<Rightarrow> uint64) \<Rightarrow> (bytes \<Rightarrow> instant) \<Rightarrow> host_fs \<Rightarrow> instant \<Rightarrow>
    network_collector \<Rightarrow> (dev_error, network_stats list) result \<times> network_collector" where
  "network_Collect oor nows fs currentTime c =
     (case roll_Collect (calculateNetworkDeltas oor nows) (collectNetworkStats fs c) currentTime (net_base c) of
        (out, b) \<Rightarrow> (out, c\<lparr>net_base := b\<rparr>))"

section \<open>Disks\<close>

record disk_delta =
  dd_metadata :: delta_metadata
  dd_deltas :: counters
  dd_rates :: counters
  Utilization :: rat
  AvgQueueSize :: rat

record disk_stats =
  Device :: bytes
  Major :: "32 word"
  Minor :: "32 word"
  disk_counters :: counters
  disk_delta :: "disk_delta option"

record disk_collector =
  disk_base :: "disk_stats list delta_state"
  diskstatsPath :: bytes

definition NewDiskCollector :: "collection_config \<Rightarrow> (path_error, disk_collector) result" where
  "NewDiskCollector config =
     (case collection_Validate \<lparr>RequireHostProcPath = True, RequireHostSysPath = False,
             RequireHostDevPath = False\<rparr> config of
        Some err \<Rightarrow> Inl err
      | None \<Rightarrow> Inr \<lparr>disk_base = NewBaseDeltaCollector config,
                      diskstatsPath = filepath_Join [cc_proc config, ''diskstats'']\<rparr>)"

definition IsPartition :: "bytes \<Rightarrow> bool" where
  "IsPartition device =
     (if device = '''' then False
      else if has_prefix device ''loop'' \<or> has_prefix device ''dm-'' then False
      else if str_contains device ''nvme'' \<or> str_contains device ''mmcblk''
      then (case last_index (CHR ''p'') device of
              None \<Rightarrow> False
            | Some idx \<Rightarrow>
                if 0 < idx \<and> idx < length device - 1 then list_all is_digit (drop (idx + 1) device) else False)
      else is_digit (last device))"

definition diskColumns :: "bytes list" where
  "diskColumns = [''ReadsCompleted'', ''ReadsMerged'', ''SectorsRead'', ''ReadTime'', ''WritesCompleted'',
     ''WritesMerged'', ''SectorsWritten'', ''WriteTime'', ''IOsInProgress'', ''IOTime'', ''WeightedIOTime'']"

definition diskstatsFieldCount :: nat where "diskstatsFieldCount = 14"

definition parse_disk_line :: "bytes \<Rightarrow> disk_stats option" where
  "parse_disk_line line =
     (let fields = str_fields line in
      if length fields < diskstatsFieldCount then None
      else (case (parse_uint 32 (fields ! 0), parse_uint 32 (fields ! 1)) of
              (Some major, Some minor) \<Rightarrow>
                if IsPartition (fields ! 2) then None
                else Some \<lparr>Device = fields ! 2, Major = of_nat major, Minor = of_nat minor,
                           disk_counters = columns diskColumns (drop 3 fields), disk_delta = None\<rparr>
            | _ \<Rightarrow> None))"

definition collectDiskStats :: "host_fs \<Rightarrow> disk_collector \<Rightarrow> (dev_error, disk_stats list) result" where
  "collectDiskStats fs c =
     (case scan_file (fs (diskstatsPath c)) of
        None \<Rightarrow> Inl (DevOpenFailed (diskstatsPath c))
      | Some sc \<Rightarrow>
          if sc_err sc then Inl (DevReadFailed (diskstatsPath c))
          else Inr (List.map_filter parse_disk_line (sc_lines sc)))"

text \<open>Every counter but the gauge \<open>IOsInProgress\<close> has a delta.\<close>

definition diskDeltaFields :: "bytes list" where
  "diskDeltaFields = filter (\<lambda>f. f \<noteq> ''IOsInProgress'') diskColumns"

text \<open>The rates of \<open>calculateDeviceDeltas\<close>: the struct's names and the deltas they come from.\<close>

definition diskRates :: "(bytes \<times> bytes) list" where
  "diskRates = [(''ReadsPerSec'', ''ReadsCompleted''), (''WritesPerSec'', ''WritesCompleted''),
     (''SectorsReadPerSec'', ''SectorsRead''), (''SectorsWrittenPerSec'', ''SectorsWritten'')]"

definition basic_rates :: "(rat \<Rightarrow> uint64) \<Rightarrow> rat \<Rightarrow> counters \<Rightarrow> counters" where
  "basic_rates oor secs d =
     (\<lambda>f. case map_of diskRates f of
            None \<Rightarrow> 0
          | Some g \<Rightarrow> uint64_of_float oor (float64_div (float64_of_uint64 (d g)) secs))"

definition latency :: "(rat \<Rightarrow> uint64) \<Rightarrow> uint64 \<Rightarrow> uint64 \<Rightarrow> uint64" where
  "latency oor time completed =
     (if completed > 0 then uint64_of_float oor (float64_div (float64_of_uint64 time) (float64_of_uint64 completed))
      else 0)"

text \<open>The derived metrics: sums and products of rates in 64-bit arithmetic, a capped percentage.\<close>

definition calculatePerformanceMetrics :: "(rat \<Rightarrow> uint64) \<Rightarrow> rat \<Rightarrow> disk_delta \<Rightarrow> disk_delta" where
  "calculatePerformanceMetrics oor intervalSecs delta =
     (let r = dd_rates delta; d = dd_deltas delta;
          millis = float64_mul intervalSecs 1000;
          util = float64_mul (float64_div (float64_of_uint64 (d ''IOTime'')) millis) 100
      in delta\<lparr>dd_rates := r(''IOPS'' := r ''ReadsPerSec'' + r ''WritesPerSec'',
                 ''ReadBytesPerSec'' := r ''SectorsReadPerSec'' * 512,
                 ''WriteBytesPerSec'' := r ''SectorsWrittenPerSec'' * 512,
                 ''AvgReadLatency'' := latency oor (d ''ReadTime'') (d ''ReadsCompleted''),
                 ''AvgWriteLatency'' := latency oor (d ''WriteTime'') (d ''WritesCompleted'')),
               Utilization := (if util > 100 then 100 else util),
               AvgQueueSize := float64_div (float64_of_uint64 (d ''WeightedIOTime'')) millis\<rparr>)"

definition calculateDeviceDeltas :: "(rat \<Rightarrow> uint64) \<Rightarrow> instant \<Rightarrow> disk_stats \<Rightarrow> disk_stats \<Rightarrow>
    instant \<Rightarrow> 's delta_state \<Rightarrow> disk_stats" where
  "calculateDeviceDeltas oor now current previous currentTime b =
     (let interval = time_Sub currentTime (LastTime b);
          secs = Seconds interval;
          d = only diskDeltaFields (counter_delta (disk_counters current) (disk_counters previous));
          resetDetected = counter_reset diskDeltaFields (disk_counters current) (disk_counters previous);
          delta = \<lparr>dd_metadata = CreateDeltaMetadata now resetDetected b, dd_deltas = d,
                   dd_rates = zero_counters, Utilization = 0, AvgQueueSize = 0\<rparr>
      in current\<lparr>disk_delta := Some
           (if \<not> resetDetected \<and> secs > 0
            then calculatePerformanceMetrics oor secs (delta\<lparr>dd_rates := basic_rates oor secs d\<rparr>)
            else delta)\<rparr>)"

definition calculateDiskDeltas :: "(rat \<Rightarrow> uint64) \<Rightarrow> (bytes \<Rightarrow> instant) \<Rightarrow> disk_stats list \<Rightarrow>
    disk_stats list \<Rightarrow> instant \<Rightarrow> disk_stats list delta_state \<Rightarrow> disk_stats list" where
  "calculateDiskDeltas oor nows current previous currentTime b =
     (let prevStatsMap = by_key Device previous
      in map (\<lambda>cur. case prevStatsMap (Device cur) of
                      None \<Rightarrow> cur
                    | Some prev \<Rightarrow> calculateDeviceDeltas oor (nows (Device cur)) cur prev currentTime b) current)"

definition disk_Collect :: "(rat \<Rightarrow> uint64) \<Rightarrow> (bytes \<Rightarrow> instant) \<Rightarrow> host_fs \<Rightarrow> instant \<Rightarrow>
    disk_collector \<Rightarrow> (dev_error, disk_stats list) result \<times> disk_collector" where
  "disk_Collect oor nows fs currentTime c =
     (case roll_Collect (calculateDiskDeltas oor nows) (collectDiskStats fs c) currentTime (disk_base c) of
        (out, b) \<Rightarrow> (out, c\<lparr>disk_base := b\<rparr>))"

section \<open>Properties\<close>

lemma Seconds_nonneg: "0 \<le> d \<Longrightarrow> 0 \<le> Seconds d"
  unfolding Seconds_def Let_def float64_of_int_def
  by (intro fl_nonneg add_nonneg_nonneg divide_nonneg_nonneg) (simp_all add: second_def)

text \<open>The utilization is a percentage, and rates are zero after a reset.\<close>

lemma disk_utilization_bounds:
  assumes "disk_delta (calculateDeviceDeltas oor now cur prev t b) = Some d"
  shows "0 \<le> Utilization d \<and> Utilization d \<le> 100"
proof -
  let ?secs = "Seconds (time_Sub t (LastTime b))"
  have "0 \<le> float64_mul (float64_div (float64_of_uint64 w) (float64_mul ?secs 1000)) 100" if "0 < ?secs" for w
    using that by (intro float64_mul_nonneg float64_div_nonneg) simp_all
  then show ?thesis
    using assms by (auto simp: calculateDeviceDeltas_def calculatePerformanceMetrics_def Let_def split: if_splits)
qed

text \<open>Names of whole disks and of their partitions.\<close>

lemma IsPartition_sd:
  assumes "device = letters @ digits" "letters \<noteq> []" "\<not> has_prefix device ''loop''" "\<not> has_prefix device ''dm-''"
    and "\<not> str_contains device ''nvme''" "\<not> str_contains device ''mmcblk''"
    and "\<not> is_digit (last letters)" "list_all is_digit digits"
  shows "IsPartition device \<longleftrightarrow> digits \<noteq> []"
proof (cases "digits = []")
  case False
  then have "is_digit (last device)" using assms(1,8) by (simp add: list_all_iff)
  then show ?thesis using assms False by (simp add: IsPartition_def)
qed (use assms in \<open>simp add: IsPartition_def\<close>)

text \<open>A device line as the kernel prints it.\<close>

definition show_disk :: "nat \<times> nat \<times> bytes \<times> uint64 list \<Rightarrow> bytes" where
  "show_disk x = (case x of (major, minor, device, v) \<Rightarrow>
     words_line (show_nat major # show_nat minor # device # map (show_nat \<circ> unat) v))"

lemma columns_show:
  "columns names (map (show_nat \<circ> unat) v) f = (case map_of (zip names v) f of None \<Rightarrow> 0 | Some w \<Rightarrow> w)"
  unfolding columns_def map_of_zip_map by (cases "map_of (zip names v) f") simp_all

lemma parse_disk_line_show:
  assumes "word_ok device" "\<not> IsPartition device" "major < 2 ^ 32" "minor < 2 ^ 32" "11 \<le> length v"
  shows "parse_disk_line (show_disk (major, minor, device, v)) =
    Some \<lparr>Device = device, Major = of_nat major, Minor = of_nat minor,
          disk_counters = (\<lambda>f. case map_of (zip diskColumns v) f of None \<Rightarrow> 0 | Some w \<Rightarrow> w), disk_delta = None\<rparr>"
proof -
  have "list_all word_ok (show_nat major # show_nat minor # device # map (show_nat \<circ> unat) v)"
    using assms(1) by (simp add: list_all_iff)
  then have "str_fields (show_disk (major, minor, device, v)) =
      show_nat major # show_nat minor # device # map (show_nat \<circ> unat) v"
    by (simp add: show_disk_def str_fields_words_line)
  moreover have "parse_uint 32 (show_nat n) = Some n" if "n < 2 ^ 32" for n
    using that by (simp add: parse_uint_def)
  ultimately show ?thesis
    using assms by (simp add: parse_disk_line_def diskstatsFieldCount_def Let_def columns_show [abs_def])
qed

text \<open>The entry of a name is the last one.\<close>

lemma by_key_distinct:
  assumes "distinct (map key xs)" "x \<in> set xs"
  shows "by_key key xs (key x) = Some x"
proof -
  have "distinct (map fst (rev (map (\<lambda>s. (key s, s)) xs)))"
    using assms(1) by (simp add: rev_map [symmetric] comp_def)
  then show ?thesis using assms(2) by (auto simp: by_key_def intro!: map_of_is_SomeI)
qed

lemma by_key_None: "k \<notin> key ` set xs \<Longrightarrow> by_key key xs k = None"
  by (auto simp: by_key_def map_of_eq_None_iff)

end
