(* ===== verification/ProcessCollector.thy ===== *)
theory ProcessCollector
  imports HostFiles "HOL-Library.AList" "HOL-Library.Multiset"
begin

text \<open>
  Process statistics: \<open>pkg/proc/proc.go\<close> (constants of the host, read once) and the continuous
  collector \<open>pkg/performance/collectors/process.go\<close>, which ranks all processes by the CPU time
  since the last collection and reads the details of the first ones.
\<close>

section \<open>Constants of the host\<close>

text \<open>The number stored in eight bytes, least significant first.\<close>

fun little_endian :: "bytes \<Rightarrow> uint64" where
  "little_endian [] = 0"
| "little_endian (c # s) = of_nat (of_char c) + 256 * little_endian s"

text \<open>The entry of a key in the auxiliary vector, which ends at the key 0.\<close>

fun find_auxv :: "uint64 \<Rightarrow> bytes \<Rightarrow> uint64 option" where
  "find_auxv key data =
     (if length data < 16 then None
      else let k = little_endian (take 8 data); v = little_endian (take 8 (drop 8 data)) in
        if k = key then Some v else if k = 0 then None else find_auxv key (drop 16 data))"

declare find_auxv.simps [simp del]

definition read_auxv :: "uint64 \<Rightarrow> int \<Rightarrow> host_fs \<Rightarrow> bytes \<Rightarrow> int" where
  "read_auxv key dflt fs procPath =
     (case os_ReadFile (fs (filepath_Join [procPath, ''self'', ''auxv''])) of
        None \<Rightarrow> dflt
      | Some data \<Rightarrow> (case find_auxv key data of None \<Rightarrow> dflt | Some v \<Rightarrow> sint v))"

definition readUserHZ :: "host_fs \<Rightarrow> bytes \<Rightarrow> int" where
  "readUserHZ fs procPath = read_auxv 17 100 fs procPath"

definition readPageSize :: "host_fs \<Rightarrow> bytes \<Rightarrow> int" where
  "readPageSize fs procPath = read_auxv 6 4096 fs procPath"

text \<open>\<open>time.Unix(s, 0)\<close>, counted from the year 1 as instants are.\<close>

definition unix_time :: "int \<Rightarrow> instant" where
  "unix_time s = (62135596800 + s) * second"

text \<open>The first line of at least two words that starts with \<open>btime\<close> decides.\<close>

fun find_btime :: "bytes list \<Rightarrow> instant option" where
  "find_btime [] = None"
| "find_btime (line # lines) =
     (if has_prefix line ''btime '' \<and> 2 \<le> length (str_fields line)
      then map_option unix_time (parse_int 64 (str_fields line ! 1))
      else find_btime lines)"

definition readBootTime :: "host_fs \<Rightarrow> bytes \<Rightarrow> instant option" where
  "readBootTime fs procPath =
     (case os_ReadFile (fs (filepath_Join [procPath, ''stat''])) of
        None \<Rightarrow> None
      | Some data \<Rightarrow> find_btime (split_on (CHR 0x0A) data))"

text \<open>
  The cache holds, for every path, what the first call of each function gave; later calls
  return it, whatever the files say then. At most one path may be given, and the empty path and
  no path mean the default.
\<close>

record proc_entry =
  once_bootTime :: "instant option option"
  once_userHZ :: "int option"
  once_pageSize :: "int option"

definition newProc :: proc_entry where
  "newProc = \<lparr>once_bootTime = None, once_userHZ = None, once_pageSize = None\<rparr>"

type_synonym proc_cache = "bytes \<Rightarrow> proc_entry"

definition proc_path :: "bytes list \<Rightarrow> bytes option" where
  "proc_path path =
     (case path of [] \<Rightarrow> Some ''/proc'' | [p] \<Rightarrow> Some (if p \<noteq> [] then p else ''/proc'') | _ \<Rightarrow> None)"

definition BootTime :: "host_fs \<Rightarrow> bytes list \<Rightarrow> proc_cache \<Rightarrow> instant option \<times> proc_cache" where
  "BootTime fs path cache =
     (case proc_path path of
        None \<Rightarrow> (None, cache)
      | Some p \<Rightarrow>
          (let v = (case once_bootTime (cache p) of None \<Rightarrow> readBootTime fs p | Some v \<Rightarrow> v)
           in (v, cache(p := (cache p)\<lparr>once_bootTime := Some v\<rparr>))))"

definition UserHZ :: "host_fs \<Rightarrow> bytes list \<Rightarrow> proc_cache \<Rightarrow> int option \<times> proc_cache" where
  "UserHZ fs path cache =
     (case proc_path path of
        None \<Rightarrow> (None, cache)
      | Some p \<Rightarrow>
          (let v = (case once_userHZ (cache p) of None \<Rightarrow> readUserHZ fs p | Some v \<Rightarrow> v)
           in (Some v, cache(p := (cache p)\<lparr>once_userHZ := Some v\<rparr>))))"

definition PageSize :: "host_fs \<Rightarrow> bytes list \<Rightarrow> proc_cache \<Rightarrow> int option \<times> proc_cache" where
  "PageSize fs path cache =
     (case proc_path path of
        None \<Rightarrow> (None, cache)
      | Some p \<Rightarrow>
          (let v = (case once_pageSize (cache p) of None \<Rightarrow> readPageSize fs p | Some v \<Rightarrow> v)
           in (Some v, cache(p := (cache p)\<lparr>once_pageSize := Some v\<rparr>))))"

section \<open>Process statistics\<close>

record process_stats =
  ps_PID :: int
  ps_PPID :: int
  ps_PGID :: int
  ps_SID :: int
  ps_Command :: bytes
  ps_Cmdline :: bytes
  ps_State :: bytes
  ps_CPUTime :: uint64
  ps_CPUPercent :: rat
  ps_MemoryVSZ :: uint64
  ps_MemoryRSS :: uint64
  ps_MemoryPSS :: uint64
  ps_MemoryUSS :: uint64
  ps_Threads :: int
  ps_MinorFaults :: uint64
  ps_MajorFaults :: uint64
  ps_StartTime :: instant
  ps_Nice :: int
  ps_Priority :: int
  ps_NumFds :: int
  ps_NumThreads :: int
  ps_VoluntaryCtxt :: uint64
  ps_InvoluntaryCtxt :: uint64

record minimal_process_stats =
  min_PID :: int
  min_CPUTime :: uint64
  min_CPUPercent :: rat

record process_cpu_time =
  TotalTime :: uint64
  Timestamp :: instant

record process_collector =
  proc_status :: collector_status
  proc_error :: bool
  ProcPath :: bytes
  TopProcesses :: int
  proc_interval :: duration
  lastCPUTimes :: "(int \<times> process_cpu_time) list"
  lastUpdateTime :: instant
  proc_sent :: "process_stats list list"
  proc_open :: bool

definition defaultTopProcessCount :: int where
  "defaultTopProcessCount = 20"

definition NewProcessCollector :: "collection_config \<Rightarrow> (path_error, process_collector) result" where
  "NewProcessCollector config =
     (case collection_Validate \<lparr>RequireHostProcPath = True, RequireHostSysPath = False,
             RequireHostDevPath = False\<rparr> config of
        Some err \<Rightarrow> Inl err
      | None \<Rightarrow>
          Inr \<lparr>proc_status = CollectorStatusDisabled, proc_error = False, ProcPath = cc_proc config,
               TopProcesses = (if cc_top config \<le> 0 then defaultTopProcessCount else cc_top config),
               proc_interval = (if cc_interval config \<le> 0 then second else cc_interval config),
               lastCPUTimes = [], lastUpdateTime = 0, proc_sent = [], proc_open = False\<rparr>)"

text \<open>
  The clock, and what the functions of \<open>pkg/proc\<close> return for the collector's path: they give
  the same result at every call. The clock frequency is not 0.
\<close>

record proc_env =
  env_hz :: "int option"
  env_page :: "int option"
  env_boot :: "instant option"
  env_oor :: "rat \<Rightarrow> duration"

definition user_hz :: "proc_env \<Rightarrow> int" where
  "user_hz env = (case env_hz env of None \<Rightarrow> 100 | Some v \<Rightarrow> v)"

definition page_size :: "proc_env \<Rightarrow> int" where
  "page_size env = (case env_page env of None \<Rightarrow> 4096 | Some v \<Rightarrow> v)"

section \<open>Parsing\<close>

text \<open>A number that cannot be parsed leaves the default.\<close>

definition uint_or :: "uint64 \<Rightarrow> bytes \<Rightarrow> uint64" where
  "uint_or d s = (case ParseUint64 s of None \<Rightarrow> d | Some v \<Rightarrow> v)"

definition int32_or :: "int \<Rightarrow> bytes \<Rightarrow> int" where
  "int32_or d s = (case parse_int 32 s of None \<Rightarrow> d | Some v \<Rightarrow> v)"

definition stat_fields :: "bytes \<Rightarrow> bytes list option" where
  "stat_fields statData =
     (case last_index (CHR '')'') statData of
        None \<Rightarrow> None
      | Some lastParen \<Rightarrow> Some (str_fields (trim_space (drop (lastParen + 1) statData))))"

definition stat_command :: "bytes \<Rightarrow> bytes \<Rightarrow> bytes" where
  "stat_command statData dflt =
     (case last_index (CHR '')'') statData of
        None \<Rightarrow> dflt
      | Some lastParen \<Rightarrow>
          (let firstParen = length (takeWhile (\<lambda>c. c \<noteq> CHR ''('') statData) in
           if firstParen < length statData \<and> firstParen < lastParen
           then drop (firstParen + 1) (take lastParen statData) else dflt))"

text \<open>\<open>ReadMinimalStats\<close>: the CPU time, and its share of the time since the last collection.\<close>

definition ReadMinimalStats :: "proc_env \<Rightarrow> host_fs \<Rightarrow> int \<Rightarrow> rat \<Rightarrow> (int \<times> process_cpu_time) list \<Rightarrow>
    process_collector \<Rightarrow> minimal_process_stats option" where
  "ReadMinimalStats env fs pid timeDelta lastTimes c =
     (case os_ReadFile (fs (filepath_Join [ProcPath c, show_int pid, ''stat''])) of
        None \<Rightarrow> None
      | Some statStr \<Rightarrow>
          (case stat_fields statStr of
             None \<Rightarrow> None
           | Some cols \<Rightarrow>
               if length cols < 13 then None
               else
                 let cpuTime = uint_or 0 (cols ! 11) + uint_or 0 (cols ! 12)
                 in Some \<lparr>min_PID = pid, min_CPUTime = cpuTime,
                      min_CPUPercent =
                        (case map_of lastTimes pid of
                           None \<Rightarrow> 0
                         | Some lastCPU \<Rightarrow>
                             if timeDelta > 0
                             then float64_mul (float64_div (float64_div (float64_of_uint64 (cpuTime - TotalTime lastCPU))
                                    (float64_of_int (user_hz env))) timeDelta) 100
                             else 0)\<rparr>))"

text \<open>
  \<open>ParseStatFull\<close>. The code checks for 21 fields and reads the field of index 21: \<open>None\<close> is the
  panic of that access.
\<close>

definition start_time :: "proc_env \<Rightarrow> bytes \<Rightarrow> instant \<Rightarrow> instant" where
  "start_time env text dflt =
     (case (ParseUint64 text, env_boot env) of
        (Some starttime, Some bootTime) \<Rightarrow>
          (let seconds = float64_div (float64_of_uint64 starttime) (float64_of_int (user_hz env))
           in bootTime + duration_of_float (env_oor env) (float64_mul seconds 1000000000))
      | _ \<Rightarrow> dflt)"

definition ParseStatFull :: "proc_env \<Rightarrow> bytes \<Rightarrow> process_stats \<Rightarrow> (unit, process_stats) result option" where
  "ParseStatFull env statData stats =
     (case stat_fields statData of
        None \<Rightarrow> Some (Inl ())
      | Some cols \<Rightarrow>
          if length cols < 21 then Some (Inl ())
          else if length cols \<le> 21 then None
          else Some (Inr (stats
            \<lparr>ps_Command := stat_command statData (ps_Command stats),
             ps_State := cols ! 0,
             ps_PPID := int32_or (ps_PPID stats) (cols ! 1),
             ps_PGID := int32_or (ps_PGID stats) (cols ! 2),
             ps_SID := int32_or (ps_SID stats) (cols ! 3),
             ps_MinorFaults := uint_or (ps_MinorFaults stats) (cols ! 7),
             ps_MajorFaults := uint_or (ps_MajorFaults stats) (cols ! 9),
             ps_CPUTime := uint_or 0 (cols ! 11) + uint_or 0 (cols ! 12),
             ps_Priority := int32_or (ps_Priority stats) (cols ! 15),
             ps_Nice := int32_or (ps_Nice stats) (cols ! 16),
             ps_Threads := int32_or (ps_Threads stats) (cols ! 17),
             ps_MemoryVSZ := uint_or (ps_MemoryVSZ stats) (cols ! 20),
             ps_MemoryRSS := (case ParseUint64 (cols ! 21) of
                                None \<Rightarrow> ps_MemoryRSS stats
                              | Some rss \<Rightarrow> rss * of_int (page_size env)),
             ps_StartTime := start_time env (cols ! 19) (ps_StartTime stats)\<rparr>)))"

definition status_line :: "bytes \<Rightarrow> process_stats \<Rightarrow> process_stats" where
  "status_line line stats =
     (let parts = str_fields line in
      if length parts < 2 then stats
      else if parts ! 0 = ''Threads:'' then stats\<lparr>ps_NumThreads := int32_or (ps_NumThreads stats) (parts ! 1)\<rparr>
      else if parts ! 0 = ''voluntary_ctxt_switches:''
      then stats\<lparr>ps_VoluntaryCtxt := uint_or (ps_VoluntaryCtxt stats) (parts ! 1)\<rparr>
      else if parts ! 0 = ''nonvoluntary_ctxt_switches:''
      then stats\<lparr>ps_InvoluntaryCtxt := uint_or (ps_InvoluntaryCtxt stats) (parts ! 1)\<rparr>
      else stats)"

definition ParseStatus :: "bytes \<Rightarrow> process_stats \<Rightarrow> process_stats" where
  "ParseStatus statusData stats = fold status_line (sc_lines (scan_bytes False statusData)) stats"

definition smaps_line :: "bytes \<Rightarrow> process_stats \<Rightarrow> process_stats" where
  "smaps_line line stats =
     (let parts = str_fields line in
      if length parts < 3 then stats
      else if parts ! 0 = ''Pss:''
      then (case ParseUint64 (parts ! 1) of None \<Rightarrow> stats | Some pss \<Rightarrow> stats\<lparr>ps_MemoryPSS := pss * 1024\<rparr>)
      else if parts ! 0 = ''Private_Clean:'' \<or> parts ! 0 = ''Private_Dirty:''
      then (case ParseUint64 (parts ! 1) of None \<Rightarrow> stats
            | Some uss \<Rightarrow> stats\<lparr>ps_MemoryUSS := ps_MemoryUSS stats + uss * 1024\<rparr>)
      else stats)"

definition parseSmapsRollup :: "bytes \<Rightarrow> process_stats \<Rightarrow> process_stats" where
  "parseSmapsRollup smapsData stats = fold smaps_line (sc_lines (scan_bytes False smapsData)) stats"

definition trim_right_nulls :: "bytes \<Rightarrow> bytes" where
  "trim_right_nulls s = rev (dropWhile (\<lambda>c. c = CHR 0x00) (rev s))"

definition ParseCmdline :: "bytes \<Rightarrow> process_stats \<Rightarrow> process_stats" where
  "ParseCmdline cmdlineData stats =
     (let s = trim_right_nulls cmdlineData in
      if s = [] then stats
      else stats\<lparr>ps_Cmdline := join_with (CHR 0x20) (split_on (CHR 0x00) s)\<rparr>)"

text \<open>\<open>int32(n)\<close>.\<close>

definition int32 :: "int \<Rightarrow> int" where
  "int32 n = sint (word_of_int n :: 32 word)"

definition collectFullProcessData :: "proc_env \<Rightarrow> (bytes \<Rightarrow> dir_listing) \<Rightarrow> host_fs \<Rightarrow> int \<Rightarrow>
    minimal_process_stats \<Rightarrow> process_collector \<Rightarrow> (unit, process_stats) result option" where
  "collectFullProcessData env dir fs pid minimal c =
     (let path = (\<lambda>name. filepath_Join [ProcPath c, show_int pid, name]);
          stats = \<lparr>ps_PID = pid, ps_PPID = 0, ps_PGID = 0, ps_SID = 0, ps_Command = [], ps_Cmdline = [],
            ps_State = [], ps_CPUTime = min_CPUTime minimal, ps_CPUPercent = min_CPUPercent minimal,
            ps_MemoryVSZ = 0, ps_MemoryRSS = 0, ps_MemoryPSS = 0, ps_MemoryUSS = 0, ps_Threads = 0,
            ps_MinorFaults = 0, ps_MajorFaults = 0, ps_StartTime = 0, ps_Nice = 0, ps_Priority = 0,
            ps_NumFds = 0, ps_NumThreads = 0, ps_VoluntaryCtxt = 0, ps_InvoluntaryCtxt = 0\<rparr>
      in (case os_ReadFile (fs (path ''stat'')) of
            None \<Rightarrow> Some (Inl ())
          | Some statData \<Rightarrow>
              (case ParseStatFull env statData stats of
                 None \<Rightarrow> None
               | Some (Inl err) \<Rightarrow> Some (Inl err)
               | Some (Inr s1) \<Rightarrow>
                   (let s2 = (case os_ReadFile (fs (path ''status'')) of None \<Rightarrow> s1 | Some d \<Rightarrow> ParseStatus d s1);
                        s3 = (case os_ReadFile (fs (path ''cmdline'')) of None \<Rightarrow> s2 | Some d \<Rightarrow> ParseCmdline d s2);
                        s4 = (case dir (path ''fd'') of
                                DirEntries es \<Rightarrow> s3\<lparr>ps_NumFds := int32 (int (length es))\<rparr> | _ \<Rightarrow> s3);
                        s5 = (case os_ReadFile (fs (path ''smaps_rollup'')) of None \<Rightarrow> s4 | Some d \<Rightarrow> parseSmapsRollup d s4)
                    in Some (Inr s5)))))"

section \<open>Collection\<close>

text \<open>The process IDs among the entries of the directory.\<close>

definition entry_pid :: "bytes \<times> bool \<Rightarrow> int option" where
  "entry_pid entry = (case entry of (name, isDir) \<Rightarrow> if isDir then parse_int 32 name else None)"

text \<open>
  The loop over the entries; the context is checked before each. \<open>None\<close> when it is done.
\<close>

fun minimal_loop :: "(int \<Rightarrow> minimal_process_stats option) \<Rightarrow> (nat \<Rightarrow> bool) \<Rightarrow> nat \<Rightarrow> (bytes \<times> bool) list \<Rightarrow>
    minimal_process_stats list \<Rightarrow> minimal_process_stats list option" where
  "minimal_loop read done_at n [] acc = Some acc"
| "minimal_loop read done_at n (entry # entries) acc =
     (if done_at n then None
      else minimal_loop read done_at (Suc n) entries
        (case entry_pid entry of
           None \<Rightarrow> acc
         | Some pid \<Rightarrow> (case read pid of None \<Rightarrow> acc | Some m \<Rightarrow> acc @ [m])))"

definition collectMinimalStats :: "proc_env \<Rightarrow> (nat \<Rightarrow> bool) \<Rightarrow> dir_listing \<Rightarrow> host_fs \<Rightarrow> instant \<Rightarrow>
    process_collector \<Rightarrow> minimal_process_stats list option \<times> process_collector" where
  "collectMinimalStats env done_at listing fs currentTime c =
     (case listing of
        DirEntries entries \<Rightarrow>
          (let secs = Seconds (time_Sub currentTime (lastUpdateTime c));
               timeDelta = (if secs \<le> 0 then 1 else secs)
           in (case minimal_loop (\<lambda>pid. ReadMinimalStats env fs pid timeDelta (lastCPUTimes c) c) done_at 0 entries [] of
                 None \<Rightarrow> (None, c)
               | Some stats \<Rightarrow> (Some stats, c\<lparr>lastUpdateTime := currentTime\<rparr>)))
      | _ \<Rightarrow> (None, c))"

text \<open>
  The times of all processes are kept; entries of processes that are gone are removed only when
  there are more than 100 entries and more than twice as many as processes.
\<close>

definition updateLastCPUTimesFromMinimal :: "minimal_process_stats list \<Rightarrow> instant \<Rightarrow> process_collector \<Rightarrow>
    process_collector" where
  "updateLastCPUTimesFromMinimal minimalStats now c =
     (let times = fold (\<lambda>m. AList.update (min_PID m) \<lparr>TotalTime = min_CPUTime m, Timestamp = now\<rparr>)
            minimalStats (lastCPUTimes c);
          seen = set (map min_PID minimalStats)
      in c\<lparr>lastCPUTimes :=
            (if length times > length (remdups (map min_PID minimalStats)) * 2 \<and> length times > 100
             then filter (\<lambda>(pid, _). pid \<in> seen) times else times)\<rparr>)"

text \<open>
  \<open>sort.Slice\<close> by decreasing percentage. The sort is not stable: \<open>ties\<close> is the order in which
  processes of equal percentage come out.
\<close>

definition sort_by_cpu :: "(minimal_process_stats list \<Rightarrow> minimal_process_stats list) \<Rightarrow>
    minimal_process_stats list \<Rightarrow> minimal_process_stats list" where
  "sort_by_cpu ties xs = sort_key (\<lambda>m. - min_CPUPercent m) (ties xs)"

text \<open>The details of the first processes; \<open>None\<close> is a panic.\<close>

fun full_loop :: "(minimal_process_stats \<Rightarrow> (unit, process_stats) result option) \<Rightarrow>
    minimal_process_stats list \<Rightarrow> process_stats list option" where
  "full_loop collect [] = Some []"
| "full_loop collect (m # ms) =
     (case collect m of
        None \<Rightarrow> None
      | Some r \<Rightarrow>
          (case full_loop collect ms of
             None \<Rightarrow> None
           | Some rest \<Rightarrow> Some (case r of Inl _ \<Rightarrow> rest | Inr s \<Rightarrow> s # rest)))"

text \<open>
  What one collection sees: files when it ranks the processes and when it reads the details,
  the time when it begins and after ranking, when the context is done, and how ties are sorted.
\<close>

record proc_world =
  pw_env :: proc_env
  pw_dir :: "bytes \<Rightarrow> dir_listing"
  pw_minimal_fs :: host_fs
  pw_full_fs :: host_fs
  pw_now :: instant
  pw_after :: instant
  pw_done :: "nat \<Rightarrow> bool"
  pw_ties :: "minimal_process_stats list \<Rightarrow> minimal_process_stats list"

text \<open>One collection: \<open>None\<close> is a panic, \<open>Inl\<close> an error.\<close>

definition collectWithDeltas :: "proc_world \<Rightarrow> process_collector \<Rightarrow>
    ((unit, process_stats list) result \<times> process_collector) option" where
  "collectWithDeltas w c =
     (case collectMinimalStats (pw_env w) (pw_done w) (pw_dir w (ProcPath c)) (pw_minimal_fs w) (pw_now w) c of
        (None, c1) \<Rightarrow> Some (Inl (), c1)
      | (Some minimalStats, c1) \<Rightarrow>
          (let c2 = updateLastCPUTimesFromMinimal minimalStats (pw_after w) c1;
               topN = take (nat (TopProcesses c2)) (sort_by_cpu (pw_ties w) minimalStats)
           in (case full_loop (\<lambda>m. collectFullProcessData (pw_env w) (pw_dir w) (pw_full_fs w) (min_PID m) m c2) topN of
                 None \<Rightarrow> None
               | Some processes \<Rightarrow> Some (Inr processes, c2))))"

text \<open>\<open>Start\<close> takes a first snapshot; the goroutine then ticks until the context is done.\<close>

definition process_Start :: "proc_world \<Rightarrow> process_collector \<Rightarrow> (unit, process_collector) result \<times> process_collector" where
  "process_Start w c =
     (if proc_status c \<noteq> CollectorStatusDisabled then (Inl (), c)
      else let c0 = c\<lparr>proc_status := CollectorStatusActive\<rparr> in
        (case collectMinimalStats (pw_env w) (pw_done w) (pw_dir w (ProcPath c0)) (pw_minimal_fs w) (pw_now w) c0 of
           (None, c1) \<Rightarrow> (Inl (), c1\<lparr>proc_status := CollectorStatusFailed\<rparr>)
         | (Some initial, c1) \<Rightarrow>
             (let c2 = (updateLastCPUTimesFromMinimal initial (pw_after w) c1)
                    \<lparr>lastUpdateTime := pw_after w, proc_open := True, proc_sent := []\<rparr>
              in (Inr c2, c2))))"

definition process_tick :: "proc_world \<Rightarrow> process_collector \<Rightarrow> process_collector option" where
  "process_tick w c =
     (case collectWithDeltas w c of
        None \<Rightarrow> None
      | Some (Inl _, c1) \<Rightarrow> Some (c1\<lparr>proc_error := True, proc_status := CollectorStatusFailed\<rparr>)
      | Some (Inr processes, c1) \<Rightarrow> Some (c1\<lparr>proc_sent := proc_sent c1 @ [processes]\<rparr>))"

definition process_stop :: "process_collector \<Rightarrow> process_collector" where
  "process_stop c = c\<lparr>proc_open := False, proc_status := CollectorStatusDisabled\<rparr>"

section \<open>Ranking\<close>

definition collected :: "(minimal_process_stats \<Rightarrow> (unit, process_stats) result option) \<Rightarrow>
    minimal_process_stats \<Rightarrow> process_stats option" where
  "collected collect m = (case collect m of Some (Inr s) \<Rightarrow> Some s | _ \<Rightarrow> None)"

lemma full_loop_eq:
  "full_loop collect ms =
     (if \<exists>m \<in> set ms. collect m = None then None else Some (List.map_filter (collected collect) ms))"
proof (induction ms)
  case (Cons m ms)
  have "collect m = Some (Inr s) \<Longrightarrow> collected collect m = Some s" "collect m = Some (Inl e) \<Longrightarrow> collected collect m = None"
    for s e by (simp_all add: collected_def)
  then show ?case using Cons by (auto simp: List.map_filter_simps split: option.splits sum.splits)
qed (simp add: List.map_filter_simps)

lemma fold_frame: "(\<And>l s. P (f l s) = P s) \<Longrightarrow> P (fold f ls s) = P s"
  by (induction ls arbitrary: s) simp_all

lemma status_frame [simp]:
  "ps_PID (ParseStatus d s) = ps_PID s" "ps_CPUPercent (ParseStatus d s) = ps_CPUPercent s"
  unfolding ParseStatus_def by (rule fold_frame; simp add: status_line_def Let_def)+

lemma smaps_frame [simp]:
  "ps_PID (parseSmapsRollup d s) = ps_PID s" "ps_CPUPercent (parseSmapsRollup d s) = ps_CPUPercent s"
  unfolding parseSmapsRollup_def by (rule fold_frame; simp add: smaps_line_def Let_def split: option.split)+

lemma cmdline_frame [simp]:
  "ps_PID (ParseCmdline d s) = ps_PID s" "ps_CPUPercent (ParseCmdline d s) = ps_CPUPercent s"
  by (simp_all add: ParseCmdline_def Let_def)

lemma ParseStatFull_frame:
  "ParseStatFull env d s = Some (Inr t) \<Longrightarrow> ps_PID t = ps_PID s \<and> ps_CPUPercent t = ps_CPUPercent s"
  by (auto simp: ParseStatFull_def split: option.splits if_splits)

lemma collectFullProcessData_frame:
  assumes "collectFullProcessData env dir fs pid m c = Some (Inr s)"
  shows "ps_PID s = pid \<and> ps_CPUPercent s = min_CPUPercent m"
  using assms
  by (auto simp: collectFullProcessData_def Let_def dest!: ParseStatFull_frame
      split: option.splits sum.splits dir_listing.splits)

text \<open>Sorting puts the largest percentages first.\<close>

lemma sort_by_cpu_sorted: "sorted_wrt (\<lambda>m n. min_CPUPercent n \<le> min_CPUPercent m) (sort_by_cpu ties xs)"
proof -
  have "sorted (map (\<lambda>m. - min_CPUPercent m) (sort_by_cpu ties xs))" by (simp add: sort_by_cpu_def)
  then show ?thesis by (simp add: sorted_wrt_map)
qed

lemma sort_by_cpu_mset: "mset (ties xs) = mset xs \<Longrightarrow> mset (sort_by_cpu ties xs) = mset xs"
  by (simp add: sort_by_cpu_def)

lemma sorted_wrt_map_filter:
  assumes "sorted_wrt P xs" "\<And>x y a b. P x y \<Longrightarrow> f x = Some a \<Longrightarrow> f y = Some b \<Longrightarrow> Q a b"
  shows "sorted_wrt Q (List.map_filter f xs)"
  using assms(1)
proof (induction xs)
  case (Cons x xs)
  have "Q a b" if "f x = Some a" "b \<in> set (List.map_filter f xs)" for a b
    using that Cons.prems assms(2) by (fastforce simp: List.map_filter_def)
  then show ?case using Cons by (auto simp: List.map_filter_simps split: option.split)
qed (simp add: List.map_filter_simps)

lemma NewProcessCollector_top: "NewProcessCollector config = Inr c \<Longrightarrow> 0 < TopProcesses c"
  by (auto simp: NewProcessCollector_def defaultTopProcessCount_def split: option.splits if_splits)

lemma updateLast_frame [simp]:
  "TopProcesses (updateLastCPUTimesFromMinimal ms now c) = TopProcesses c"
  "ProcPath (updateLastCPUTimesFromMinimal ms now c) = ProcPath c"
  by (simp_all add: updateLastCPUTimesFromMinimal_def Let_def)

lemma collectMinimalStats_frame:
  "collectMinimalStats env done_at listing fs now c = (r, c') \<Longrightarrow> TopProcesses c' = TopProcesses c"
  by (auto simp: collectMinimalStats_def Let_def split: dir_listing.splits option.splits)

lemma collectWithDeltas_ranked:
  assumes "collectWithDeltas w c = Some (Inr ps, c')" "\<And>xs. mset (pw_ties w xs) = mset xs"
  shows "\<exists>ms c1 tops rest. collectMinimalStats (pw_env w) (pw_done w) (pw_dir w (ProcPath c)) (pw_minimal_fs w) (pw_now w) c =
      (Some ms, c1) \<and> mset ms = mset (tops @ rest) \<and> length tops = min (nat (TopProcesses c)) (length ms) \<and>
    sorted_wrt (\<lambda>m n. min_CPUPercent n \<le> min_CPUPercent m) tops \<and>
    (\<forall>t \<in> set tops. \<forall>m \<in> set rest. min_CPUPercent m \<le> min_CPUPercent t) \<and>
    ps = List.map_filter (collected (\<lambda>m. collectFullProcessData (pw_env w) (pw_dir w) (pw_full_fs w) (min_PID m) m c')) tops \<and>
    sorted_wrt (\<lambda>p q. ps_CPUPercent q \<le> ps_CPUPercent p) ps \<and>
    (\<forall>p \<in> set ps. \<exists>t \<in> set tops. ps_PID p = min_PID t \<and> ps_CPUPercent p = min_CPUPercent t)"
proof -
  obtain ms c1 where ms: "collectMinimalStats (pw_env w) (pw_done w) (pw_dir w (ProcPath c)) (pw_minimal_fs w) (pw_now w) c = (Some ms, c1)"
    using assms(1) by (cases "collectMinimalStats (pw_env w) (pw_done w) (pw_dir w (ProcPath c)) (pw_minimal_fs w) (pw_now w) c")
      (auto simp: collectWithDeltas_def split: option.splits)
  define ranked where "ranked = sort_by_cpu (pw_ties w) ms"
  define tops where "tops = take (nat (TopProcesses c)) ranked"
  define rest where "rest = drop (nat (TopProcesses c)) ranked"
  define full where "full = (\<lambda>m. collectFullProcessData (pw_env w) (pw_dir w) (pw_full_fs w) (min_PID m) m c')"
  have "TopProcesses (updateLastCPUTimesFromMinimal ms (pw_after w) c1) = TopProcesses c" using collectMinimalStats_frame [OF ms] by simp
  then have ps: "ps = List.map_filter (collected full) tops"
    using assms(1) ms by (auto simp: collectWithDeltas_def Let_def full_loop_eq full_def tops_def ranked_def split: if_splits)
  have full: "ps_PID p = min_PID m \<and> ps_CPUPercent p = min_CPUPercent m" if "collected full m = Some p" for m p
    using that collectFullProcessData_frame
    by (auto simp: collected_def full_def split: option.splits sum.splits)
  have mem: "\<forall>p \<in> set ps. \<exists>t \<in> set tops. ps_PID p = min_PID t \<and> ps_CPUPercent p = min_CPUPercent t"
    using full unfolding ps by (fastforce simp: List.map_filter_def)
  have mset: "mset ranked = mset ms" unfolding ranked_def by (rule sort_by_cpu_mset [OF assms(2)])
  then have len: "length ranked = length ms" by (rule mset_eq_length)
  have cut: "ranked = tops @ rest" by (simp add: tops_def rest_def)
  have "sorted_wrt (\<lambda>m n. min_CPUPercent n \<le> min_CPUPercent m) (tops @ rest)"
    using sort_by_cpu_sorted [of "pw_ties w" ms] by (simp add: ranked_def [symmetric] cut)
  then have sorted: "sorted_wrt (\<lambda>m n. min_CPUPercent n \<le> min_CPUPercent m) tops"
    "\<forall>t \<in> set tops. \<forall>m \<in> set rest. min_CPUPercent m \<le> min_CPUPercent t" by (simp_all add: sorted_wrt_append)
  have "sorted_wrt (\<lambda>p q. ps_CPUPercent q \<le> ps_CPUPercent p) ps"
    unfolding ps by (rule sorted_wrt_map_filter [OF sorted(1)]) (auto dest!: full)
  moreover have "mset ms = mset (tops @ rest)" using mset cut by simp
  moreover have "length tops = min (nat (TopProcesses c)) (length ms)" by (simp add: tops_def len min.commute)
  ultimately show ?thesis using ms mem sorted ps unfolding full_def by blast
qed

end
