(* ===== verification/KernelCollector.thy ===== *)
theory KernelCollector
  imports ProcessCollector
begin

unbundle bit_operations_syntax

text \<open>
  The collector of kernel messages, \<open>pkg/performance/collectors/kernel.go\<close>: parsing of the lines
  of \<open>/dev/kmsg\<close> and the goroutine that first sends all messages there are and then follows the
  log. What a read of the device gives is an argument.
\<close>

section \<open>Messages\<close>

record kernel_message =
  km_Timestamp :: instant
  Facility :: "8 word"
  Severity :: "8 word"
  SequenceNum :: uint64
  Message :: bytes
  Subsystem :: bytes
  km_Device :: bytes

definition maxPrefixLength :: nat where "maxPrefixLength = 50"

definition index_of :: "char \<Rightarrow> bytes \<Rightarrow> nat option" where
  "index_of c s = (if c \<in> set s then Some (length (takeWhile (\<lambda>d. d \<noteq> c) s)) else None)"

text \<open>The subsystem and the device that the text of a message names.\<close>

definition prefix_content :: "bytes \<Rightarrow> bytes \<times> bytes" where
  "prefix_content message =
     (case index_of (CHR '':'') message of
        None \<Rightarrow> ([], [])
      | Some idx \<Rightarrow>
          if 0 < idx \<and> idx < maxPrefixLength
          then let prefix = trim_space (take idx message); parts = str_fields prefix in
            if length parts = 2 then (parts ! 0, parts ! 1)
            else if CHR 0x20 \<notin> set prefix \<and> length prefix < 20 then (prefix, [])
            else ([], [])
          else ([], []))"

definition parseMessageContent :: "bytes \<Rightarrow> bytes \<times> bytes" where
  "parseMessageContent message =
     (if has_prefix message ''[''
      then (case last_index (CHR '']'') message of
              Some stop \<Rightarrow> if stop > 1 then (take (stop - 1) (drop 1 message), []) else prefix_content message
            | None \<Rightarrow> prefix_content message)
      else prefix_content message)"

text \<open>\<open>strings.SplitN(line, ";", 2)\<close>.\<close>

definition split_semicolon :: "char \<Rightarrow> bytes \<Rightarrow> (bytes \<times> bytes) option" where
  "split_semicolon c s =
     (case index_of c s of None \<Rightarrow> None | Some i \<Rightarrow> Some (take i s, drop (Suc i) s))"

definition trim_right_newlines :: "bytes \<Rightarrow> bytes" where
  "trim_right_newlines s = rev (dropWhile (\<lambda>c. c = CHR 0x0A) (rev s))"

text \<open>\<open>time.Duration(n) * time.Microsecond\<close> in 64-bit arithmetic.\<close>

definition microseconds :: "int \<Rightarrow> duration" where
  "microseconds n = sint (word_of_int (n * 1000) :: 64 word)"

datatype kmsg_error = NoSemicolon | ShortHeader nat | BadPriority bytes | BadSequence bytes | BadTimestamp bytes

definition parseKmsgLine :: "bytes \<Rightarrow> instant \<Rightarrow> (kmsg_error, kernel_message) result" where
  "parseKmsgLine raw bootTime =
     (case split_semicolon (CHR '';'') (trim_right_newlines raw) of
        None \<Rightarrow> Inl NoSemicolon
      | Some (header, message) \<Rightarrow>
          (let headerFields = split_on (CHR '','') header in
           if length headerFields < 3 then Inl (ShortHeader (length headerFields))
           else (case parse_uint 8 (headerFields ! 0) of
                   None \<Rightarrow> Inl (BadPriority (headerFields ! 0))
                 | Some p \<Rightarrow>
                     (case ParseUint64 (headerFields ! 1) of
                        None \<Rightarrow> Inl (BadSequence (headerFields ! 1))
                      | Some sequence \<Rightarrow>
                          (case parse_int 64 (headerFields ! 2) of
                             None \<Rightarrow> Inl (BadTimestamp (headerFields ! 2))
                           | Some usSinceBoot \<Rightarrow>
                               (let priority = (of_nat p :: 8 word);
                                    content = parseMessageContent message
                                in Inr \<lparr>km_Timestamp = bootTime + microseconds usSinceBoot,
                                        Facility = drop_bit 3 priority, Severity = priority AND 7,
                                        SequenceNum = sequence, Message = message,
                                        Subsystem = fst content, km_Device = snd content\<rparr>))))))"

section \<open>The collector\<close>

definition continuousChannelBuffer :: nat where "continuousChannelBuffer = 100"

datatype kernel_phase = KOpening | KInitial | KTailing | KEnded

text \<open>
  \<open>kc_chan\<close> is the content of the channel, \<open>kc_received\<close> what its reader took from it.
\<close>

record kernel_collector =
  kmsgPath :: bytes
  kc_procPath :: bytes
  kc_chan :: "kernel_message list"
  kc_received :: "kernel_message list"
  isRunning :: bool
  kc_lastError :: "bytes option"
  kc_phase :: kernel_phase
  kc_boot :: instant

definition NewKernelCollector :: "collection_config \<Rightarrow> (path_error, kernel_collector) result" where
  "NewKernelCollector config =
     (case collection_Validate \<lparr>RequireHostProcPath = True, RequireHostSysPath = False,
             RequireHostDevPath = True\<rparr> config of
        Some err \<Rightarrow> Inl err
      | None \<Rightarrow> Inr \<lparr>kmsgPath = filepath_Join [cc_dev config, ''kmsg''], kc_procPath = cc_proc config,
                      kc_chan = [], kc_received = [], isRunning = False, kc_lastError = None,
                      kc_phase = KEnded, kc_boot = 0\<rparr>)"

definition kernel_Start :: "host_fs \<Rightarrow> proc_cache \<Rightarrow> kernel_collector \<Rightarrow>
    (unit, kernel_collector) result \<times> proc_cache" where
  "kernel_Start fs cache c =
     (if isRunning c then (Inl (), cache)
      else (case BootTime fs [kc_procPath c] cache of
              (None, cache') \<Rightarrow> (Inl (), cache')
            | (Some bootTime, cache') \<Rightarrow>
                (Inr (c\<lparr>kc_chan := [], kc_received := [], isRunning := True, kc_lastError := None,
                        kc_phase := KOpening, kc_boot := bootTime\<rparr>), cache')))"

definition kernel_Status :: "kernel_collector \<Rightarrow> collector_status" where
  "kernel_Status c =
     (if isRunning c then CollectorStatusActive
      else if kc_lastError c \<noteq> None then CollectorStatusFailed
      else CollectorStatusDisabled)"

text \<open>The deferred function: the channel is closed and the error cleared.\<close>

definition kernel_cleanup :: "kernel_collector \<Rightarrow> kernel_collector" where
  "kernel_cleanup c = c\<lparr>isRunning := False, kc_lastError := None, kc_phase := KEnded\<rparr>"

definition kernel_fail :: "bytes \<Rightarrow> kernel_collector \<Rightarrow> kernel_collector" where
  "kernel_fail err c = kernel_cleanup (c\<lparr>kc_lastError := Some err\<rparr>)"

text \<open>What a non-blocking read gives.\<close>

datatype kmsg_read = ReadData bytes | EAGAIN | EPIPE | ReadError bytes

datatype kernel_step = KOpen "bytes option" | KCancelled | KRead kmsg_read | KReceive

text \<open>
  One step of the goroutine or of the channel's reader; \<open>None\<close> when it cannot be taken. While the
  backlog is read a full channel makes the send wait; later it makes the message be dropped.
\<close>

definition kernel_do :: "kernel_step \<Rightarrow> kernel_collector \<Rightarrow> kernel_collector option" where
  "kernel_do s c =
     (case s of
        KOpen outcome \<Rightarrow>
          if kc_phase c \<noteq> KOpening then None
          else (case outcome of None \<Rightarrow> Some (c\<lparr>kc_phase := KInitial\<rparr>) | Some err \<Rightarrow> Some (kernel_fail err c))
      | KCancelled \<Rightarrow> if kc_phase c = KInitial \<or> kc_phase c = KTailing then Some (kernel_cleanup c) else None
      | KReceive \<Rightarrow>
          (case kc_chan c of [] \<Rightarrow> None | m # ms \<Rightarrow> Some (c\<lparr>kc_chan := ms, kc_received := kc_received c @ [m]\<rparr>))
      | KRead r \<Rightarrow>
          if kc_phase c = KInitial
          then (case r of
                  EAGAIN \<Rightarrow> Some (c\<lparr>kc_phase := KTailing\<rparr>)
                | EPIPE \<Rightarrow> Some c
                | ReadError err \<Rightarrow> Some (kernel_fail err c)
                | ReadData line \<Rightarrow>
                    (case parseKmsgLine line (kc_boot c) of
                       Inl _ \<Rightarrow> Some c
                     | Inr msg \<Rightarrow> if length (kc_chan c) < continuousChannelBuffer
                                  then Some (c\<lparr>kc_chan := kc_chan c @ [msg]\<rparr>) else None))
          else if kc_phase c = KTailing
          then (case r of
                  EAGAIN \<Rightarrow> Some c
                | EPIPE \<Rightarrow> Some c
                | ReadError err \<Rightarrow> Some (kernel_fail err c)
                | ReadData line \<Rightarrow>
                    (case parseKmsgLine line (kc_boot c) of
                       Inl _ \<Rightarrow> Some c
                     | Inr msg \<Rightarrow> Some (if length (kc_chan c) < continuousChannelBuffer
                                        then c\<lparr>kc_chan := kc_chan c @ [msg]\<rparr> else c)))
          else None)"

fun kernel_run :: "kernel_step list \<Rightarrow> kernel_collector \<Rightarrow> kernel_collector option" where
  "kernel_run [] c = Some c"
| "kernel_run (s # ss) c = (case kernel_do s c of None \<Rightarrow> None | Some c' \<Rightarrow> kernel_run ss c')"

section \<open>Properties\<close>

lemma index_of_append: "c \<notin> set p \<Longrightarrow> index_of c (p @ c # s) = Some (length p)"
proof -
  assume "c \<notin> set p"
  then have "takeWhile (\<lambda>d. d \<noteq> c) (p @ c # s) = p" by (subst takeWhile_append2) auto
  then show ?thesis by (simp add: index_of_def)
qed

lemma split_semicolon_append: "c \<notin> set p \<Longrightarrow> split_semicolon c (p @ c # s) = Some (p, s)"
  by (simp add: split_semicolon_def index_of_append)

text \<open>A record as the kernel writes it.\<close>

definition show_kmsg :: "8 word \<Rightarrow> uint64 \<Rightarrow> nat \<Rightarrow> bytes \<Rightarrow> bytes \<Rightarrow> bytes" where
  "show_kmsg priority sequence us flags message =
     join_with (CHR '','') [show_nat (unat priority), show_nat (unat sequence), show_nat us, flags] @
     '';'' @ message @ [CHR 0x0A]"

lemma parseKmsgLine_show:
  assumes "us < 2 ^ 63" "CHR '','' \<notin> set flags" "CHR '';'' \<notin> set flags"
    and "message = [] \<or> last message \<noteq> CHR 0x0A"
  shows "parseKmsgLine (show_kmsg priority sequence us flags message) bootTime =
    Inr \<lparr>km_Timestamp = bootTime + microseconds (int us), Facility = drop_bit 3 priority,
         Severity = priority AND 7, SequenceNum = sequence, Message = message,
         Subsystem = fst (parseMessageContent message), km_Device = snd (parseMessageContent message)\<rparr>"
proof -
  let ?header = "join_with (CHR '','') [show_nat (unat priority), show_nat (unat sequence), show_nat us, flags]"
  have digits: "CHR '','' \<notin> set (show_nat n)" "CHR '';'' \<notin> set (show_nat n)" for n
    using show_nat_digits [of n] by (auto simp: list_all_iff is_digit_def)
  have "dropWhile (\<lambda>c. c = CHR 0x0A) (rev message @ CHR '';'' # rev ?header) = rev message @ CHR '';'' # rev ?header"
    using assms(4) by (cases message rule: rev_cases) auto
  then have "trim_right_newlines (show_kmsg priority sequence us flags message) = ?header @ CHR '';'' # message"
    unfolding trim_right_newlines_def show_kmsg_def by simp
  moreover have "CHR '';'' \<notin> set ?header" using digits(2) assms(3) by simp
  then have "split_semicolon (CHR '';'') (?header @ CHR '';'' # message) = Some (?header, message)"
    by (rule split_semicolon_append)
  ultimately have split: "split_semicolon (CHR '';'') (trim_right_newlines (show_kmsg priority sequence us flags message)) =
      Some (?header, message)"
    by (simp only:)
  have fields: "split_on (CHR '','') ?header = [show_nat (unat priority), show_nat (unat sequence), show_nat us, flags]"
    by (rule split_join) (use digits(1) assms(2) in auto)
  have "int (unat priority) < 2 ^ 8" using uint_range_size [of priority] by (simp add: word_size)
  then have "parse_uint 8 (show_nat (unat priority)) = Some (unat priority)" by (simp add: parse_uint_def)
  moreover have "parse_int 64 (show_nat us) = Some (int us)"
    using parse_int_show_nat [of us 64] assms(1) by simp
  ultimately show ?thesis
    by (simp add: parseKmsgLine_def split fields Let_def del: join_with.simps)
qed

text \<open>Priority is the facility shifted by three bits, with the severity in the low ones.\<close>

lemma priority_parts: "push_bit 3 (drop_bit 3 (p :: 8 word)) OR (p AND 7) = p"
proof (rule bit_word_eqI)
  fix n
  assume "n < LENGTH(8)"
  moreover have "(7 :: 8 word) = mask 3" by (simp add: mask_eq_decr_exp)
  then have "bit (7 :: 8 word) n \<longleftrightarrow> n < 3 \<and> n < 8"
    by (simp only: bit_mask_iff) auto
  ultimately show "bit (push_bit 3 (drop_bit 3 p) OR (p AND 7)) n \<longleftrightarrow> bit p n"
    by (auto simp: bit_simps)
qed

text \<open>
  The messages received and waiting are the parsed lines that were read, in order; only lines
  read while the channel was full are missing, and none in the backlog.
\<close>

definition parsed_line :: "instant \<Rightarrow> kernel_step \<Rightarrow> kernel_message list" where
  "parsed_line boot s =
     (case s of KRead (ReadData line) \<Rightarrow> (case parseKmsgLine line boot of Inr msg \<Rightarrow> [msg] | Inl _ \<Rightarrow> [])
      | _ \<Rightarrow> [])"

definition parsed_lines :: "instant \<Rightarrow> kernel_step list \<Rightarrow> kernel_message list" where
  "parsed_lines boot ss = concat (map (parsed_line boot) ss)"

text \<open>What one step does to the messages: nothing, or the parsed line at the end.\<close>

lemma kernel_do_messages:
  assumes "kernel_do s c = Some c'"
  shows "kc_received c' @ kc_chan c' = kc_received c @ kc_chan c @ parsed_line (kc_boot c) s \<or>
    (kc_received c' @ kc_chan c' = kc_received c @ kc_chan c \<and> kc_phase c = KTailing \<and>
     length (kc_chan c) = length (kc_chan c'))"
  using assms
  by (auto simp: kernel_do_def kernel_fail_def kernel_cleanup_def parsed_line_def
      split: kernel_step.splits kmsg_read.splits if_splits option.splits list.splits sum.splits)

lemma kernel_do_boot: "kernel_do s c = Some c' \<Longrightarrow> kc_boot c' = kc_boot c"
  by (auto simp: kernel_do_def kernel_fail_def kernel_cleanup_def
      split: kernel_step.splits kmsg_read.splits if_splits option.splits list.splits sum.splits)

lemma kernel_do_initial:
  "kernel_do s c = Some c' \<Longrightarrow> kc_phase c' \<in> {KOpening, KInitial} \<Longrightarrow> kc_phase c \<in> {KOpening, KInitial}"
  by (auto simp: kernel_do_def kernel_fail_def kernel_cleanup_def
      split: kernel_step.splits kmsg_read.splits if_splits option.splits list.splits sum.splits)

lemma kernel_do_no_error:
  "kernel_do s c = Some c' \<Longrightarrow> kc_lastError c = None \<Longrightarrow> kc_lastError c' = None"
  by (auto simp: kernel_do_def kernel_fail_def kernel_cleanup_def
      split: kernel_step.splits kmsg_read.splits if_splits option.splits list.splits sum.splits)

lemma kernel_do_bounded:
  "kernel_do s c = Some c' \<Longrightarrow> length (kc_chan c) \<le> continuousChannelBuffer \<Longrightarrow>
   length (kc_chan c') \<le> continuousChannelBuffer"
  by (auto simp: kernel_do_def kernel_fail_def kernel_cleanup_def
      split: kernel_step.splits kmsg_read.splits if_splits option.splits list.splits sum.splits)

text \<open>A run with the invariants of the steps put together.\<close>

lemma kernel_run_messages:
  assumes "kernel_run ss c = Some c'"
  shows "subseq (kc_received c' @ kc_chan c') (kc_received c @ kc_chan c @ parsed_lines (kc_boot c) ss)"
  using assms
proof (induction ss arbitrary: c)
  case Nil
  then show ?case by (simp add: parsed_lines_def)
next
  case (Cons s ss)
  then obtain d where d: "kernel_do s c = Some d" "kernel_run ss d = Some c'"
    by (auto split: option.splits)
  have "subseq (kc_received d @ kc_chan d @ parsed_lines (kc_boot c) ss)
      (kc_received c @ kc_chan c @ parsed_line (kc_boot c) s @ parsed_lines (kc_boot c) ss)"
    using kernel_do_messages [OF d(1)]
    by (metis (no_types, lifting) append.assoc list_emb_append_mono subseq_order.order_refl list_emb_append2)
  with Cons.IH [OF d(2)] kernel_do_boot [OF d(1)] show ?case
    by (auto simp: parsed_lines_def intro: subseq_order.order_trans)
qed

lemma kernel_run_initial:
  "kernel_run ss c = Some c' \<Longrightarrow> kc_phase c' \<in> {KOpening, KInitial} \<Longrightarrow> kc_phase c \<in> {KOpening, KInitial}"
  by (induction ss arbitrary: c) (auto split: option.splits dest: kernel_do_initial)

lemma kernel_run_backlog:
  assumes "kernel_run ss c = Some c'" "kc_phase c' \<in> {KOpening, KInitial}"
  shows "kc_received c' @ kc_chan c' = kc_received c @ kc_chan c @ parsed_lines (kc_boot c) ss"
  using assms
proof (induction ss arbitrary: c)
  case Nil
  then show ?case by (simp add: parsed_lines_def)
next
  case (Cons s ss)
  then obtain d where d: "kernel_do s c = Some d" "kernel_run ss d = Some c'"
    by (auto split: option.splits)
  have "kc_phase c \<noteq> KTailing" using kernel_run_initial [OF Cons.prems] by auto
  then have "kc_received d @ kc_chan d = kc_received c @ kc_chan c @ parsed_line (kc_boot c) s"
    using kernel_do_messages [OF d(1)] by blast
  with Cons.IH [OF d(2) Cons.prems(2)] kernel_do_boot [OF d(1)] show ?case
    by (simp add: parsed_lines_def)
qed

lemma kernel_run_no_error:
  "kernel_run ss c = Some c' \<Longrightarrow> kc_lastError c = None \<Longrightarrow> kc_lastError c' = None"
  by (induction ss arbitrary: c) (auto split: option.splits dest: kernel_do_no_error)

lemma kernel_run_bounded:
  "kernel_run ss c = Some c' \<Longrightarrow> length (kc_chan c) \<le> continuousChannelBuffer \<Longrightarrow>
   length (kc_chan c') \<le> continuousChannelBuffer"
  by (induction ss arbitrary: c) (auto split: option.splits dest: kernel_do_bounded)

end
