(* ===== verification/CollectorProperties.thy ===== *)
theory CollectorProperties
  imports TcpCollector CpuCollector MemoryCollector DiskNetworkCollectors KernelCollector
begin

text \<open>
  Properties of the collectors that read counters from \<open>/proc\<close>: what two collections report,
  what stays bounded, and what happens after a long gap.
\<close>

section \<open>TCP\<close>

text \<open>
  Two collections of a new TCP collector. The first reports what the files say. The second, when
  the time between the two lies in the configured window, reports what the files say then,
  together with deltas: of every cumulative counter the difference to the first collection, or
  0 if the counter went back, which is flagged as a reset and leaves all rates at 0. Connections
  are counted per state over both address families.
\<close>

theorem tcp_two_collections:
  assumes "NewTCPCollector config = Inr c"
    and "collectTCPStats fs0 c = Inr s0" "collectTCPStats fs1 c = Inr s1"
    and "window_ok (cc_delta config)" "0 < t0"
    and "dc_min_interval (cc_delta config) \<le> t1 - t0" "t1 - t0 \<le> dc_max_interval (cc_delta config)"
  shows "\<exists>c1 s d. tcp_Collect oor fs0 t0 c = (Inr s0, c1) \<and> fst (tcp_Collect oor fs1 t1 c1) = Inr s \<and>
    tcp_counters s = tcp_counters s1 \<and> tcp_delta s = Some d \<and>
    (\<forall>f \<in> set tcpDeltaFields. cd_deltas d f =
       (if tcp_counters s1 f < tcp_counters s0 f then 0 else tcp_counters s1 f - tcp_counters s0 f)) \<and>
    (CounterResetDetected (cd_metadata d) \<longleftrightarrow> (\<exists>f \<in> set tcpDeltaFields. tcp_counters s1 f < tcp_counters s0 f)) \<and>
    (CounterResetDetected (cd_metadata d) \<longrightarrow> cd_rates d = zero_counters) \<and>
    (\<forall>name. get_count (tcp_by_state s) name = of_nat (length (filter (\<lambda>l. line_state l = Some name)
      (table_lines (fs1 (tcpPath c)) @ table_lines (fs1 (tcp6Path c))))))"
proof -
  define c1 where "c1 = c\<lparr>tcp_base := UpdateDeltaState s0 t0 (tcp_base c)\<rparr>"
  define d where "d = calculate_deltas oor tcpDeltaFields tcpDeltaFields (tcp_counters s1) (tcp_counters s0) t1 (tcp_base c1)"
  have config: "Config (tcp_base c) = cc_delta config"
    using assms(1) by (auto simp: NewTCPCollector_def NewBaseDeltaCollector_def split: option.splits)
  have fst1: "tcp_Collect oor fs0 t0 c = (Inr s0, c1)"
    unfolding c1_def by (rule tcp_Collect_first [OF assms(1,2)])
  have "fst (ShouldCalculateDeltas t1 (tcp_base c1))"
    using assms(4-7) config by (simp add: c1_def should_calculate)
  then have snd1: "fst (tcp_Collect oor fs1 t1 c1) = Inr (s1\<lparr>tcp_delta := Some d\<rparr>)"
    by (simp add: tcp_Collect_def c1_def collectTCPStats_base assms(3) hold.computes calculateTCPDeltas_def d_def)
  have "''ActiveOpens'' \<in> set tcpDeltaFields" by (simp add: tcpDeltaFields_def snmpFields_def)
  note reset = calculate_deltas_spec(2,3) [OF this, where oor = oor and rated = tcpDeltaFields
    and cur = "tcp_counters s1" and prev = "tcp_counters s0" and t = t1 and b = "tcp_base c1", folded d_def]
  have delta: "\<forall>f \<in> set tcpDeltaFields. cd_deltas d f =
       (if tcp_counters s1 f < tcp_counters s0 f then 0 else tcp_counters s1 f - tcp_counters s0 f)"
    unfolding d_def by (intro ballI calculate_deltas_spec(1))
  have "get_count (tcp_by_state (s1\<lparr>tcp_delta := Some d\<rparr>)) name = of_nat (length (filter (\<lambda>l. line_state l = Some name)
      (table_lines (fs1 (tcpPath c)) @ table_lines (fs1 (tcp6Path c)))))" for name
    using collectTCPStats_states [OF assms(3)] by simp
  with fst1 snd1 reset delta show ?thesis
    by (intro exI [of _ c1] exI [of _ "s1\<lparr>tcp_delta := Some d\<rparr>"] exI [of _ d]) simp
qed

definition demo_tcp :: tcp_collector where
  "demo_tcp = \<lparr>tcp_base = NewBaseDeltaCollector DefaultCollectionConfig, snmpPath = ''/proc/net/snmp'',
     netstatPath = ''/proc/net/netstat'', tcpPath = ''/proc/net/tcp'', tcp6Path = ''/proc/net/tcp6''\<rparr>"

definition demo_snmp :: "uint64 \<Rightarrow> host_fs" where
  "demo_snmp n = (\<lambda>_. Missing)(''/proc/net/snmp'' := file_of_lines (proto_lines ''Tcp:'' [''ActiveOpens''] [n]))"

lemma default_window: "window_ok (cc_delta DefaultCollectionConfig)"
  "dc_min_interval (cc_delta DefaultCollectionConfig) \<le> 2 * second - second"
  "2 * second - second \<le> dc_max_interval (cc_delta DefaultCollectionConfig)"
  by code_simp+

lemma demo_snmp_collected:
  assumes "list_all line_ok (proto_lines ''Tcp:'' [''ActiveOpens''] [n])"
  shows "\<exists>s. collectTCPStats (demo_snmp n) demo_tcp = Inr s \<and> tcp_counters s = (\<lambda>_. 0)(''ActiveOpens'' := n)"
proof -
  let ?lines = "proto_lines ''Tcp:'' [''ActiveOpens''] [n]"
  have word: "word_ok ''ActiveOpens''" by code_simp
  have "list_all line_ok ([] @ ?lines @ [])" using assms by simp
  from parseSNMP_roundtrip [OF _ this, of "demo_snmp n" "''/proc/net/snmp''"
      "\<lparr>tcp_counters = zero_counters, tcp_by_state = Map.empty, tcp_delta = None\<rparr>"] word
  show ?thesis
    by (auto simp: demo_snmp_def collectTCPStats_def demo_tcp_def parseNetstat_def scan_file_def
        countConnectionStates_def countConnectionsFromFile_def zero_counters_def snmpFields_def Let_def fun_eq_iff)
qed

lemma demo_lines_ok:
  "list_all line_ok (proto_lines ''Tcp:'' [''ActiveOpens''] [12])"
  "list_all line_ok (proto_lines ''Tcp:'' [''ActiveOpens''] [15])"
  by code_simp+

lemma demo_tcp_new: "NewTCPCollector DefaultCollectionConfig = Inr demo_tcp"
proof -
  have "filepath_Join [''/proc'', ''net'', ''snmp''] = ''/proc/net/snmp''"
    "filepath_Join [''/proc'', ''net'', ''netstat''] = ''/proc/net/netstat''"
    "filepath_Join [''/proc'', ''net'', ''tcp''] = ''/proc/net/tcp''"
    "filepath_Join [''/proc'', ''net'', ''tcp6''] = ''/proc/net/tcp6''"
    by code_simp+
  moreover have "cc_proc DefaultCollectionConfig = ''/proc''" by (simp add: DefaultCollectionConfig_def)
  moreover have "collection_Validate \<lparr>RequireHostProcPath = True, RequireHostSysPath = False,
      RequireHostDevPath = False\<rparr> DefaultCollectionConfig = None" by code_simp
  ultimately show ?thesis by (simp add: NewTCPCollector_def demo_tcp_def)
qed

theorem tcp_two_collections_witness:
  "\<exists>s0 c1 s d. tcp_Collect (\<lambda>_. 0) (demo_snmp 12) second demo_tcp = (Inr s0, c1) \<and>
     fst (tcp_Collect (\<lambda>_. 0) (demo_snmp 15) (2 * second) c1) = Inr s \<and> tcp_delta s = Some d \<and>
     cd_deltas d ''ActiveOpens'' = 3 \<and> \<not> CounterResetDetected (cd_metadata d)"
proof -
  have pos: "0 < second" by (simp add: second_def)
  have mem: "''ActiveOpens'' \<in> set tcpDeltaFields" by code_simp
  obtain s0 where s0: "collectTCPStats (demo_snmp 12) demo_tcp = Inr s0" "tcp_counters s0 = (\<lambda>_. 0)(''ActiveOpens'' := 12)"
    using demo_snmp_collected [OF demo_lines_ok(1)] by blast
  obtain s1 where s1: "collectTCPStats (demo_snmp 15) demo_tcp = Inr s1" "tcp_counters s1 = (\<lambda>_. 0)(''ActiveOpens'' := 15)"
    using demo_snmp_collected [OF demo_lines_ok(2)] by blast
  have le: "tcp_counters s0 f \<le> tcp_counters s1 f" for f by (simp add: s0(2) s1(2))
  obtain c1 s d where "tcp_Collect (\<lambda>_. 0) (demo_snmp 12) second demo_tcp = (Inr s0, c1)"
      "fst (tcp_Collect (\<lambda>_. 0) (demo_snmp 15) (2 * second) c1) = Inr s" "tcp_delta s = Some d"
    and d: "cd_deltas d ''ActiveOpens'' = tcp_counters s1 ''ActiveOpens'' - tcp_counters s0 ''ActiveOpens''"
      "\<not> CounterResetDetected (cd_metadata d)"
    using tcp_two_collections [OF demo_tcp_new s0(1) s1(1) default_window(1) pos default_window(2,3), of "\<lambda>_. 0"]
      mem le by (auto simp: not_less [symmetric])
  moreover have "tcp_counters s1 ''ActiveOpens'' - tcp_counters s0 ''ActiveOpens'' = 3" by (simp add: s0(2) s1(2))
  ultimately show ?thesis by auto
qed

section \<open>After a gap\<close>

text \<open>A run of CPU collections: the files and the clock at each.\<close>

fun cpu_run :: "((int \<Rightarrow> instant) \<times> host_fs \<times> instant) list \<Rightarrow> cpu_collector \<Rightarrow>
    (cpu_error, cpu_stats list) result list \<times> cpu_collector" where
  "cpu_run [] c = ([], c)"
| "cpu_run ((nows, fs, t) # rest) c =
     (case cpu_Collect nows fs t c of (out, c1) \<Rightarrow> (case cpu_run rest c1 of (outs, c2) \<Rightarrow> (out # outs, c2)))"

text \<open>
  Once more than the maximal interval has passed after the last collection with deltas, the CPU
  collector never computes deltas again: each later collection, whatever the files say and
  however close in time they follow each other, reports the raw times only, because a collection
  without deltas does not become the new reference.
\<close>

theorem cpu_deltas_never_resume:
  assumes "NewCPUCollector config = Inr c" "window_ok (cc_delta config)"
    and "cpu_Collect nows0 fs0 t0 c = (Inr s0, c1)"
    and "list_all (\<lambda>(nows, fs, t). dc_max_interval (cc_delta config) < t - t0) xs"
  shows "cpu_run xs c1 = (map (\<lambda>(nows, fs, t). collectCPUStats fs c) xs, c1)"
proof -
  have config: "Config (cpu_base c) = cc_delta config" "IsFirst (cpu_base c)"
    using assms(1) by (auto simp: NewCPUCollector_def NewBaseDeltaCollector_def split: option.splits)
  have "\<exists>s. collectCPUStats fs0 c = Inr s"
    using assms(3) by (cases "collectCPUStats fs0 c") (simp_all add: cpu_Collect_def hold.failure)
  then have c1: "c1 = c\<lparr>cpu_base := UpdateDeltaState s0 t0 (cpu_base c)\<rparr>"
    using assms(3) by (auto simp: cpu_Collect_def hold.first [OF config(2)])
  have base: "collectCPUStats fs c1 = collectCPUStats fs c" for fs by (simp add: c1 collectCPUStats_def Let_def split: option.split)
  have "cpu_Collect nows fs t c1 = (collectCPUStats fs c, c1)"
    if "dc_max_interval (cc_delta config) < t - t0" for nows fs t
  proof -
    have "\<not> fst (ShouldCalculateDeltas t (cpu_base c1))"
      using that assms(2) config by (simp add: c1 should_calculate)
    then show ?thesis
      by (cases "collectCPUStats fs c") (simp_all add: cpu_Collect_def hold_Collect_def base, simp_all add: c1)
  qed
  then show ?thesis using assms(4) by (induction xs) auto
qed

definition demo_cpu :: cpu_collector where
  "demo_cpu = \<lparr>cpu_base = NewBaseDeltaCollector DefaultCollectionConfig, statPath = ''/proc/stat''\<rparr>"

lemma demo_cpu_new: "NewCPUCollector DefaultCollectionConfig = Inr demo_cpu"
proof -
  have "filepath_Join [''/proc'', ''stat''] = ''/proc/stat''" by code_simp
  moreover have "cc_proc DefaultCollectionConfig = ''/proc''" by (simp add: DefaultCollectionConfig_def)
  moreover have "collection_Validate \<lparr>RequireHostProcPath = True, RequireHostSysPath = False,
      RequireHostDevPath = False\<rparr> DefaultCollectionConfig = None" by code_simp
  ultimately show ?thesis by (simp add: NewCPUCollector_def demo_cpu_def)
qed

definition demo_stat :: "uint64 \<Rightarrow> host_fs" where
  "demo_stat n = (\<lambda>_. Missing)(''/proc/stat'' := file_of_lines [show_cpu (0, [n, 0, 0, 0, 0, 0, 0])])"

lemma demo_stat_collected: "collectCPUStats (demo_stat n) demo_cpu = Inr [stats_of (0, [n, 0, 0, 0, 0, 0, 0])]"
  using collectCPUStats_roundtrip [of "demo_stat n" demo_cpu "[(0, [n, 0, 0, 0, 0, 0, 0])]" "[]"]
  by (simp add: demo_stat_def demo_cpu_def)

lemma demo_cpu_first:
  "cpu_Collect nows (demo_stat n) t demo_cpu = (Inr [stats_of (0, [n, 0, 0, 0, 0, 0, 0])],
     demo_cpu\<lparr>cpu_base := UpdateDeltaState [stats_of (0, [n, 0, 0, 0, 0, 0, 0])] t (cpu_base demo_cpu)\<rparr>)"
proof -
  have "IsFirst (cpu_base demo_cpu)" by (simp add: demo_cpu_def NewBaseDeltaCollector_def)
  then show ?thesis by (simp add: cpu_Collect_def demo_stat_collected hold.first)
qed

text \<open>Collections at one second, and at one and two seconds past an hour.\<close>

theorem cpu_deltas_never_resume_witness:
  "\<exists>c1. cpu_Collect (\<lambda>_. 0) (demo_stat 5) second demo_cpu = (Inr [stats_of (0, [5, 0, 0, 0, 0, 0, 0])], c1) \<and>
     cpu_run [(\<lambda>_. 0, demo_stat 8, 3601 * second), (\<lambda>_. 0, demo_stat 9, 3602 * second)] c1 =
       ([Inr [stats_of (0, [8, 0, 0, 0, 0, 0, 0])], Inr [stats_of (0, [9, 0, 0, 0, 0, 0, 0])]], c1)"
proof -
  obtain c1 where c1: "cpu_Collect (\<lambda>_. 0) (demo_stat 5) second demo_cpu = (Inr [stats_of (0, [5, 0, 0, 0, 0, 0, 0])], c1)"
    by (simp add: demo_cpu_first)
  have "list_all (\<lambda>(nows, fs, t). dc_max_interval (cc_delta DefaultCollectionConfig) < t - second)
     [(\<lambda>_. 0, demo_stat 8, 3601 * second), (\<lambda>_. 0, demo_stat 9, 3602 * second)]"
    by (simp add: DefaultCollectionConfig_def DefaultDeltaConfig_def second_def minute_def)
  from cpu_deltas_never_resume [OF demo_cpu_new default_window(1) c1 this] c1
  show ?thesis by (auto simp: demo_stat_collected)
qed

section \<open>Bounds\<close>

text \<open>
  C22. The percentages of a CPU lie between 0 and 100 in every collection with deltas whose time
  deltas add up to less than \<open>2 ^ 64\<close>, and are all 0 after a counter reset, rounding of the
  floating-point operations included.
\<close>

theorem cpu_percentages_bounded:
  assumes "fst (cpu_Collect nows fs t c) = Inr stats" "s \<in> set stats" "cpu_delta s = Some d"
    and "sum_list (map (unat \<circ> cpud_times d) cpuFields) < 2 ^ 64"
  shows "0 \<le> cpud_percent d f \<and> cpud_percent d f \<le> 100 \<and>
    (CounterResetDetected (cpud_metadata d) \<longrightarrow> cpud_percent d f = 0)"
proof -
  obtain raw where raw: "collectCPUStats fs c = Inr raw"
    using assms(1) by (cases "collectCPUStats fs c") (simp_all add: cpu_Collect_def hold.failure split: prod.splits)
  have no_delta: "cpu_delta x = None" if "x \<in> set raw" for x
    using raw that
    by (auto simp: collectCPUStats_def parse_cpu_line_def List.map_filter_def Let_def split: option.splits if_splits)
  then obtain prev where "stats = calculateCPUDeltas nows raw prev t (cpu_base c)"
    using assms(1-3) raw
    by (auto simp: cpu_Collect_def hold_Collect_def Let_def split: option.splits if_splits prod.splits)
  then obtain cur p where "cur \<in> set raw" "s = cur \<or> s = calculateCPUCoreDeltas (nows (CPUIndex cur)) cur p (cpu_base c)"
    using assms(2) by (fastforce simp: calculateCPUDeltas_def Let_def split: option.splits)
  then have "s = calculateCPUCoreDeltas (nows (CPUIndex cur)) cur p (cpu_base c)"
    using assms(3) no_delta by auto
  then show ?thesis
    using assms(3,4) cpu_percent_bounds [of "cpud_times d" f]
    by (auto simp: calculateCPUCoreDeltas_def Let_def CreateDeltaMetadata_def)
qed

lemma demo_cpu_second:
  assumes "cpu_Collect nows (demo_stat 5) second demo_cpu = (Inr s0, c1)"
  shows "fst (cpu_Collect nows (demo_stat 8) (2 * second) c1) =
    Inr [calculateCPUCoreDeltas (nows 0) (stats_of (0, [8, 0, 0, 0, 0, 0, 0])) (stats_of (0, [5, 0, 0, 0, 0, 0, 0])) (cpu_base c1)]"
proof -
  have c1: "s0 = [stats_of (0, [5, 0, 0, 0, 0, 0, 0])]" "c1 = demo_cpu\<lparr>cpu_base := UpdateDeltaState s0 second (cpu_base demo_cpu)\<rparr>"
    using assms by (auto simp: demo_cpu_first)
  have "collectCPUStats fs c1 = collectCPUStats fs demo_cpu" for fs
    by (simp add: c1 collectCPUStats_def Let_def split: option.split)
  moreover have "fst (ShouldCalculateDeltas (2 * second) (cpu_base c1))"
    using default_window by (simp add: c1 should_calculate demo_cpu_def NewBaseDeltaCollector_def second_def)
  moreover have "LastSnapshot (cpu_base c1) = Some s0" by (simp add: c1(2))
  ultimately show ?thesis
    by (simp add: cpu_Collect_def demo_stat_collected hold.computes calculateCPUDeltas_def c1(1) by_key_def stats_of_def
        split: prod.splits)
qed

theorem cpu_percentages_bounded_witness:
  "\<exists>c1 s d. fst (cpu_Collect (\<lambda>_. 0) (demo_stat 8) (2 * second) c1) = Inr [s] \<and> cpu_delta s = Some d \<and>
     cpud_times d ''User'' = 3 \<and> 0 \<le> cpud_percent d ''User'' \<and> cpud_percent d ''User'' \<le> 100"
proof -
  obtain s0 c1 where "cpu_Collect (\<lambda>_. 0) (demo_stat 5) second demo_cpu = (Inr s0, c1)"
    by (simp add: demo_cpu_first)
  note out = demo_cpu_second [OF this]
  let ?s = "calculateCPUCoreDeltas 0 (stats_of (0, [8, 0, 0, 0, 0, 0, 0])) (stats_of (0, [5, 0, 0, 0, 0, 0, 0])) (cpu_base c1)"
  obtain d where d: "cpu_delta ?s = Some d" by (simp add: calculateCPUCoreDeltas_def Let_def)
  then have times: "cpud_times d = (\<lambda>_. 0)(''User'' := 3)"
    by (auto simp: calculateCPUCoreDeltas_def Let_def only_def counter_delta_def CalculateUint64Delta_def
        stats_of_def cpuFields_def fun_eq_iff)
  then have "sum_list (map (unat \<circ> cpud_times d) cpuFields) < 2 ^ 64" by (simp add: cpuFields_def)
  from cpu_percentages_bounded [OF out _ d this, of "''User''"] out d times show ?thesis
    by (intro exI [of _ c1] exI [of _ ?s] exI [of _ d]) simp
qed

text \<open>
  The disk collector reports whole disks only, and the utilization of a disk is a percentage, in
  every state of the collector and whatever the counters do.
\<close>

theorem disk_reports:
  assumes "fst (disk_Collect oor nows fs t c) = Inr stats" "s \<in> set stats"
  shows "\<not> IsPartition (Device s) \<and>
    (\<forall>d. disk_delta s = Some d \<longrightarrow> 0 \<le> Utilization d \<and> Utilization d \<le> 100)"
proof -
  obtain raw where raw: "collectDiskStats fs c = Inr raw"
    using assms(1) by (cases "collectDiskStats fs c") (simp_all add: disk_Collect_def roll.failure split: prod.splits)
  have line: "\<not> IsPartition (Device x) \<and> disk_delta x = None" if x: "x \<in> set raw" for x
  proof -
    obtain l where "parse_disk_line l = Some x"
      using raw x by (fastforce simp: collectDiskStats_def List.map_filter_def split: option.splits if_splits)
    then show ?thesis by (auto simp: parse_disk_line_def Let_def split: option.splits if_splits)
  qed
  have "stats = raw \<or> (\<exists>prev. stats = calculateDiskDeltas oor nows raw prev t (disk_base c))"
    using assms(1) raw
    by (auto simp: disk_Collect_def roll_Collect_def Let_def split: option.splits if_splits prod.splits)
  then obtain cur p where "cur \<in> set raw" "s = cur \<or> s = calculateDeviceDeltas oor (nows (Device cur)) cur p t (disk_base c)"
    using assms(2) by (fastforce simp: calculateDiskDeltas_def Let_def split: option.splits)
  moreover have "Device (calculateDeviceDeltas oor n cur p t (disk_base c)) = Device cur" for n
    by (simp add: calculateDeviceDeltas_def Let_def)
  ultimately show ?thesis using line disk_utilization_bounds by (elim disjE) (simp, fastforce)
qed

definition demo_disk :: disk_collector where
  "demo_disk = \<lparr>disk_base = NewBaseDeltaCollector DefaultCollectionConfig, diskstatsPath = ''/proc/diskstats''\<rparr>"

definition demo_diskstats :: host_fs where
  "demo_diskstats = (\<lambda>_. Missing)(''/proc/diskstats'' :=
     Content (''8 0 sda 1 0 8 3 0 0 0 0 0 3 3'' @ [CHR 0x0A] @ ''8 1 sda1 1 0 8 3 0 0 0 0 0 3 3'' @ [CHR 0x0A]))"

theorem disk_reports_witness:
  "\<exists>s. fst (disk_Collect (\<lambda>_. 0) (\<lambda>_. 0) demo_diskstats second demo_disk) = Inr [s] \<and>
     Device s = ''sda'' \<and> \<not> IsPartition ''sda'' \<and> IsPartition ''sda1''"
proof -
  have devs: "map Device (projr (fst (disk_Collect (\<lambda>_. 0) (\<lambda>_. 0) demo_diskstats second demo_disk))) = [''sda'']"
    "\<not> isl (fst (disk_Collect (\<lambda>_. 0) (\<lambda>_. 0) demo_diskstats second demo_disk))" "IsPartition ''sda1''"
    by code_simp+
  then obtain s where s: "fst (disk_Collect (\<lambda>_. 0) (\<lambda>_. 0) demo_diskstats second demo_disk) = Inr [s]" "Device s = ''sda''"
    by (cases "fst (disk_Collect (\<lambda>_. 0) (\<lambda>_. 0) demo_diskstats second demo_disk)") auto
  from disk_reports [OF s(1), of s] s devs(3) show ?thesis by auto
qed

section \<open>Processes\<close>

text \<open>
  C23. A collection of process statistics ranks the measured processes: they are split into the first
  \<open>TopProcesses\<close> (all, when there are fewer) and the rest, no process of the rest having a larger CPU
  percentage than one of the first, and the report lists the details of exactly the first ones whose files can
  still be read, by decreasing percentage, each with the percentage it was ranked by. The order of
  equal percentages is left open.
\<close>

theorem process_ranking:
  assumes "collectWithDeltas w c = Some (Inr ps, c')" "\<And>xs. mset (pw_ties w xs) = mset xs"
  shows "\<exists>ms c1 tops rest. collectMinimalStats (pw_env w) (pw_done w) (pw_dir w (ProcPath c)) (pw_minimal_fs w) (pw_now w) c =
      (Some ms, c1) \<and> mset ms = mset (tops @ rest) \<and> length tops = min (nat (TopProcesses c)) (length ms) \<and>
    sorted_wrt (\<lambda>m n. min_CPUPercent n \<le> min_CPUPercent m) tops \<and>
    (\<forall>t \<in> set tops. \<forall>m \<in> set rest. min_CPUPercent m \<le> min_CPUPercent t) \<and>
    ps = List.map_filter (collected (\<lambda>m. collectFullProcessData (pw_env w) (pw_dir w) (pw_full_fs w) (min_PID m) m c')) tops \<and>
    sorted_wrt (\<lambda>p q. ps_CPUPercent q \<le> ps_CPUPercent p) ps \<and>
    (\<forall>p \<in> set ps. \<exists>t \<in> set tops. ps_PID p = min_PID t \<and> ps_CPUPercent p = min_CPUPercent t)"
  using assms by (rule collectWithDeltas_ranked)

text \<open>A process with the given number of fields after its name.\<close>

definition demo_stat_of :: "nat \<Rightarrow> bytes" where
  "demo_stat_of n = ''7 (sh) '' @ words_line (''R'' # replicate (n - 1) ''1'')"

definition demo_world :: "nat \<Rightarrow> proc_world" where
  "demo_world n = \<lparr>pw_env = \<lparr>env_hz = Some 100, env_page = Some 4096, env_boot = None, env_oor = (\<lambda>_. 0)\<rparr>,
     pw_dir = (\<lambda>p. if p = ''/proc'' then DirEntries [(''7'', True), (''self'', False)] else DirMissing),
     pw_minimal_fs = (\<lambda>_. Content (demo_stat_of n)), pw_full_fs = (\<lambda>_. Content (demo_stat_of n)),
     pw_now = 5 * second, pw_after = 5 * second, pw_done = (\<lambda>_. False), pw_ties = id\<rparr>"

definition demo_processes :: process_collector where
  "demo_processes = projr (NewProcessCollector DefaultCollectionConfig)"

definition demo_started :: "nat \<Rightarrow> process_collector" where
  "demo_started n = projr (fst (process_Start (demo_world n) demo_processes))"

text \<open>Two processes of which the second has used more CPU time, and a collector that reports one.\<close>

definition demo_two_stat :: "bytes \<Rightarrow> bytes \<Rightarrow> bytes" where
  "demo_two_stat name ticks = ''1 ('' @ name @ '') '' @ words_line (''R'' # replicate 10 ''1'' @ ticks # replicate 10 ''1'')"

definition demo_two :: proc_world where
  "demo_two = (demo_world 22)\<lparr>pw_env := \<lparr>env_hz = Some 1, env_page = Some 4096, env_boot = None, env_oor = (\<lambda>_. 0)\<rparr>, pw_now := 1,
     pw_dir := (\<lambda>p. if p = ''/proc'' then DirEntries [(''7'', True), (''8'', True)] else DirMissing),
     pw_minimal_fs := (\<lambda>p. Content (demo_two_stat ''sh'' (if p = ''/proc/7/stat'' then ''1'' else ''2''))),
     pw_full_fs := (\<lambda>p. Content (demo_two_stat (if p = ''/proc/7/stat'' then ''sh'' else ''busy'') ''90''))\<rparr>"

definition demo_top_one :: process_collector where
  "demo_top_one = demo_processes\<lparr>TopProcesses := 1,
     lastUpdateTime := 1, lastCPUTimes := [(8, \<lparr>TotalTime = 2, Timestamp = 0\<rparr>)]\<rparr>"

lemma demo_two_reads:
  "ReadMinimalStats (pw_env demo_two) (pw_minimal_fs demo_two) 7 1 (lastCPUTimes demo_top_one) demo_top_one =
     Some \<lparr>min_PID = 7, min_CPUTime = 2, min_CPUPercent = 0\<rparr>"
  "ReadMinimalStats (pw_env demo_two) (pw_minimal_fs demo_two) 8 1 (lastCPUTimes demo_top_one) demo_top_one =
     Some \<lparr>min_PID = 8, min_CPUTime = 3, min_CPUPercent = 100\<rparr>"
proof -
  have top: "ProcPath demo_top_one = ''/proc''" "lastCPUTimes demo_top_one = [(8, \<lparr>TotalTime = 2, Timestamp = 0\<rparr>)]" by code_simp+
  have paths: "filepath_Join [''/proc'', show_int 7, ''stat''] = ''/proc/7/stat''"
    "filepath_Join [''/proc'', show_int 8, ''stat''] = ''/proc/8/stat''" by code_simp+
  have stats: "stat_fields (demo_two_stat ''sh'' ''1'') = Some (''R'' # replicate 21 ''1'')"
    "stat_fields (demo_two_stat ''sh'' ''2'') = Some (''R'' # replicate 10 ''1'' @ ''2'' # replicate 10 ''1'')"
    "uint_or 0 ''1'' = 1" "uint_or 0 ''2'' = 2" by code_simp+
  have fl: "fl 1 = 1" "fl 100 = 100" using fl_int [of 1] fl_int [of 100] by simp_all
  have fs: "pw_minimal_fs demo_two ''/proc/7/stat'' = Content (demo_two_stat ''sh'' ''1'')"
    "pw_minimal_fs demo_two ''/proc/8/stat'' = Content (demo_two_stat ''sh'' ''2'')" "user_hz (pw_env demo_two) = 1"
    by (simp_all add: demo_two_def user_hz_def)
  note read = ReadMinimalStats_def os_ReadFile_def top paths fs stats Let_def
  show "ReadMinimalStats (pw_env demo_two) (pw_minimal_fs demo_two) 7 1 (lastCPUTimes demo_top_one) demo_top_one =
     Some \<lparr>min_PID = 7, min_CPUTime = 2, min_CPUPercent = 0\<rparr>" by (simp add: read)
  show "ReadMinimalStats (pw_env demo_two) (pw_minimal_fs demo_two) 8 1 (lastCPUTimes demo_top_one) demo_top_one =
     Some \<lparr>min_PID = 8, min_CPUTime = 3, min_CPUPercent = 100\<rparr>"
    by (simp add: read float64_div_def float64_mul_def float64_of_uint64_def float64_of_int_def fl nth_append)
qed

lemma demo_two_minimal:
  "\<exists>c1. collectMinimalStats (pw_env demo_two) (pw_done demo_two) (pw_dir demo_two (ProcPath demo_top_one))
     (pw_minimal_fs demo_two) (pw_now demo_two) demo_top_one =
     (Some [\<lparr>min_PID = 7, min_CPUTime = 2, min_CPUPercent = 0\<rparr>, \<lparr>min_PID = 8, min_CPUTime = 3, min_CPUPercent = 100\<rparr>], c1) \<and>
     ProcPath c1 = ''/proc'' \<and> TopProcesses c1 = 1"
proof -
  have world: "pw_dir demo_two ''/proc'' = DirEntries [(''7'', True), (''8'', True)]" "pw_done demo_two n = False"
    "Seconds (time_Sub (pw_now demo_two) (lastUpdateTime demo_top_one)) \<le> 0" "entry_pid (''7'', True) = Some 7"
    "entry_pid (''8'', True) = Some 8" "ProcPath demo_top_one = ''/proc''" "TopProcesses demo_top_one = 1" for n by code_simp+
  show ?thesis by (simp add: collectMinimalStats_def world demo_two_reads Let_def)
qed

theorem process_ranking_witness:
  "\<exists>p c' t r. collectWithDeltas demo_two demo_top_one = Some (Inr [p], c') \<and> ps_PID p = 8 \<and> ps_Command p = ''busy'' \<and>
     ps_CPUPercent p = min_CPUPercent t \<and> min_CPUPercent r \<le> min_CPUPercent t \<and> r \<noteq> t \<and>
     (\<exists>ms c1. collectMinimalStats (pw_env demo_two) (pw_done demo_two) (pw_dir demo_two (ProcPath demo_top_one))
        (pw_minimal_fs demo_two) (pw_now demo_two) demo_top_one = (Some ms, c1) \<and> mset ms = {#t, r#})"
proof -
  let ?m7 = "\<lparr>min_PID = 7, min_CPUTime = 2, min_CPUPercent = 0\<rparr>" and ?m8 = "\<lparr>min_PID = 8, min_CPUTime = 3, min_CPUPercent = 100\<rparr>"
  obtain c1 where c1: "collectMinimalStats (pw_env demo_two) (pw_done demo_two) (pw_dir demo_two (ProcPath demo_top_one))
     (pw_minimal_fs demo_two) (pw_now demo_two) demo_top_one = (Some [?m7, ?m8], c1)" "ProcPath c1 = ''/proc''" "TopProcesses c1 = 1"
    using demo_two_minimal by blast
  define c2 where "c2 = updateLastCPUTimesFromMinimal [?m7, ?m8] (pw_after demo_two) c1"
  have c2: "ProcPath c2 = ''/proc''" "TopProcesses c2 = 1" using c1 by (simp_all add: c2_def)
  have "(case collectFullProcessData (pw_env demo_two) (pw_dir demo_two) (pw_full_fs demo_two) 8 ?m8 demo_top_one of
      Some (Inr p) \<Rightarrow> ps_Command p = ''busy'' | _ \<Rightarrow> False)" "ProcPath demo_top_one = ''/proc''" by code_simp+
  moreover from this(2) have "collectFullProcessData (pw_env demo_two) (pw_dir demo_two) (pw_full_fs demo_two) 8 ?m8 c2 =
      collectFullProcessData (pw_env demo_two) (pw_dir demo_two) (pw_full_fs demo_two) 8 ?m8 demo_top_one"
    by (simp add: collectFullProcessData_def c2)
  ultimately obtain p where p: "collectFullProcessData (pw_env demo_two) (pw_dir demo_two) (pw_full_fs demo_two) 8 ?m8 c2 = Some (Inr p)"
    "ps_Command p = ''busy''" by (auto split: option.splits sum.splits)
  have "sort_by_cpu (pw_ties demo_two) [?m7, ?m8] = [?m8, ?m7]" by (simp add: sort_by_cpu_def demo_two_def demo_world_def)
  then have run: "collectWithDeltas demo_two demo_top_one = Some (Inr [p], c2)"
    by (simp add: collectWithDeltas_def c1 Let_def p(1) [unfolded c2_def]) (simp add: c2_def)
  have ties: "mset (pw_ties demo_two xs) = mset xs" for xs by (simp add: demo_two_def demo_world_def)
  from process_ranking [OF run ties] c1(1) obtain tops rest where
    ranked: "mset [?m7, ?m8] = mset (tops @ rest)" "length tops = min (nat (TopProcesses demo_top_one)) (length [?m7, ?m8])"
      "\<forall>t \<in> set tops. \<forall>m \<in> set rest. min_CPUPercent m \<le> min_CPUPercent t"
      "\<forall>q \<in> set [p]. \<exists>t \<in> set tops. ps_PID q = min_PID t \<and> ps_CPUPercent q = min_CPUPercent t" by auto
  have "TopProcesses demo_top_one = 1" by (simp add: demo_top_one_def)
  with ranked(2) have "length tops = 1" by simp
  moreover have "2 = length (tops @ rest)" using ranked(1) by (metis length_Cons list.size(3) mset_eq_length One_nat_def Suc_1)
  ultimately have "length tops = Suc 0" "length rest = Suc 0" by simp_all
  then obtain t r where tr: "tops = [t]" "rest = [r]" by (auto simp: length_Suc_conv)
  then have "{#t, r#} = {#?m7, ?m8#}" using ranked(1) by simp
  moreover from arg_cong [OF this, of set_mset] have "{t, r} = {?m7, ?m8}" by simp
  then have "r \<noteq> t" by (auto simp: doubleton_eq_iff)
  moreover have "ps_PID p = 8" using collectFullProcessData_frame [OF p(1)] by simp
  ultimately show ?thesis using run p(2) ranked(3,4) tr c1(1)
    by (intro exI [of _ p] exI [of _ c2] exI [of _ t] exI [of _ r]) auto
qed

text \<open>
  A process whose stat file has exactly 21 fields after its name stops the agent: the parser
  accepts 21 fields and reads a twenty-second one, and the goroutine that runs the collection
  does not recover from the panic.
\<close>

theorem process_short_stat_panics:
  "\<exists>w c c1. NewProcessCollector DefaultCollectionConfig = Inr c \<and> fst (process_Start w c) = Inr c1 \<and>
     process_tick w c1 = None"
proof -
  have ok: "\<not> isl (NewProcessCollector DefaultCollectionConfig)" "\<not> isl (fst (process_Start (demo_world 21) demo_processes))"
    by code_simp+
  have "process_tick (demo_world 21) (demo_started 21) = None" by code_simp
  then show ?thesis
    using ok [THEN projr_ok]
    by (intro exI [of _ "demo_world 21"] exI [of _ demo_processes] exI [of _ "demo_started 21"])
      (simp add: demo_processes_def demo_started_def)
qed

text \<open>
  A process ID that is used again: when the process now running under it has used less CPU time
  than the one remembered for it, the unsigned difference wraps around and the percentage is
  more than four thousand million million, so the process is ranked first.
\<close>

theorem process_pid_reuse:
  assumes "ReadMinimalStats env fs pid timeDelta tracked c = Some m" "map_of tracked pid = Some last_cpu"
    and "min_CPUTime m < TotalTime last_cpu" "unat (TotalTime last_cpu) \<le> 2 ^ 63"
    and "0 < user_hz env" "user_hz env \<le> 128" "0 < timeDelta" "timeDelta \<le> 1024"
  shows "2 ^ 52 \<le> min_CPUPercent m"
proof -
  define x0 where "x0 = float64_of_uint64 (min_CPUTime m - TotalTime last_cpu)"
  define x1 where "x1 = float64_div x0 (float64_of_int (user_hz env))"
  define x2 where "x2 = float64_div x1 timeDelta"
  have percent: "min_CPUPercent m = float64_mul x2 100"
    using assms(1,2,7) by (auto simp: ReadMinimalStats_def Let_def x0_def x1_def x2_def split: option.splits if_splits)
  have "unat (min_CPUTime m) < unat (TotalTime last_cpu)" using assms(3) by (simp add: word_less_nat_alt)
  then have "2 ^ 63 \<le> unat (min_CPUTime m - TotalTime last_cpu)"
    using assms(4) by (simp add: unat_sub_if' word_less_nat_alt)
  then have "(2 ^ 63 :: rat) \<le> of_nat (unat (min_CPUTime m - TotalTime last_cpu))"
    by (metis of_nat_le_iff of_nat_numeral of_nat_power)
  then have x0: "2 ^ 63 \<le> x0" unfolding x0_def float64_of_uint64_def by (rule fl_ge_power)
  have hz: "float64_of_int (user_hz env) = of_int (user_hz env)" "(of_int (user_hz env) :: rat) \<le> 2 ^ 7"
    "(0 :: rat) < of_int (user_hz env)"
    using fl_int [of "user_hz env"] assms(5,6) by (simp_all add: float64_of_int_def)
  have "2 ^ 56 \<le> x0 / of_int (user_hz env)"
    using x0 hz(2,3) by (simp add: pos_le_divide_eq)
  then have x1: "2 ^ 56 \<le> x1" unfolding x1_def float64_div_def hz(1) by (rule fl_ge_power)
  then have "2 ^ 46 \<le> x1 / timeDelta" using assms(7,8) by (simp add: pos_le_divide_eq)
  then have "2 ^ 46 \<le> x2" unfolding x2_def float64_div_def by (rule fl_ge_power)
  then have "2 ^ 52 \<le> x2 * 100" by simp
  then show ?thesis unfolding percent float64_mul_def by (rule fl_ge_power)
qed

theorem process_pid_reuse_witness:
  "\<exists>m. ReadMinimalStats (pw_env (demo_world 22)) (pw_minimal_fs (demo_world 22)) 7 1
       [(7, \<lparr>TotalTime = 900, Timestamp = 0\<rparr>)] demo_processes = Some m \<and> 2 ^ 52 \<le> min_CPUPercent m"
proof -
  let ?read = "ReadMinimalStats (pw_env (demo_world 22)) (pw_minimal_fs (demo_world 22)) 7 1
       [(7, \<lparr>TotalTime = 900, Timestamp = 0\<rparr>)] demo_processes"
  have "stat_fields (demo_stat_of 22) = Some (''R'' # replicate 21 ''1'')" "uint_or 0 ''1'' = 1"
    by code_simp+
  then obtain m where m: "?read = Some m" "min_CPUTime m = 2"
    by (simp add: ReadMinimalStats_def demo_world_def os_ReadFile_def Let_def)
  have hz: "0 < user_hz (pw_env (demo_world 22))" "user_hz (pw_env (demo_world 22)) \<le> 128"
    by (simp_all add: user_hz_def demo_world_def)
  from process_pid_reuse [OF m(1), of "\<lparr>TotalTime = 900, Timestamp = 0\<rparr>"] m hz show ?thesis
    by (simp add: word_less_nat_alt)
qed

section \<open>Kernel messages\<close>

text \<open>
  A started kernel collector, in every interleaving with its reader: the messages received and
  waiting are parsed lines in the order in which they were read, all of them as long as the
  backlog is read, and at most 100 wait. A failure is never reported: the status of a collector
  that stopped, for whatever reason, is disabled.
\<close>

theorem kernel_collector_messages:
  assumes "kernel_Start fs cache c0 = (Inr c, cache')" "kernel_run ss c = Some c'"
  shows "subseq (kc_received c' @ kc_chan c') (parsed_lines (kc_boot c) ss) \<and>
    (kc_phase c' \<in> {KOpening, KInitial} \<longrightarrow> kc_received c' @ kc_chan c' = parsed_lines (kc_boot c) ss) \<and>
    length (kc_chan c') \<le> continuousChannelBuffer \<and> kernel_Status c' \<noteq> CollectorStatusFailed"
proof -
  have c: "kc_chan c = []" "kc_received c = []" "kc_lastError c = None"
    using assms(1) by (auto simp: kernel_Start_def split: if_splits option.splits prod.splits)
  show ?thesis
    using kernel_run_messages [OF assms(2)] kernel_run_backlog [OF assms(2)] kernel_run_bounded [OF assms(2)]
      kernel_run_no_error [OF assms(2) c(3)] c
    by (simp add: kernel_Status_def)
qed

definition demo_kernel :: kernel_collector where
  "demo_kernel = \<lparr>kmsgPath = ''/dev/kmsg'', kc_procPath = ''/proc'', kc_chan = [], kc_received = [],
     isRunning = False, kc_lastError = None, kc_phase = KEnded, kc_boot = 0\<rparr>"

definition demo_boot :: proc_cache where
  "demo_boot = (\<lambda>_. \<lparr>once_bootTime = Some (Some 5), once_userHZ = None, once_pageSize = None\<rparr>)"

definition demo_kernel_steps :: "kernel_step list" where
  "demo_kernel_steps =
     [KOpen None, KRead (ReadData ''6,1,7,-;usb: new device''), KRead (ReadData ''bad''),
      KRead (ReadData ''3,2,9,-;disk failed''), KReceive, KRead EAGAIN, KRead (ReadError ''EIO'')]"

theorem kernel_collector_messages_witness:
  "\<exists>c c' cache'. kernel_Start (\<lambda>_. file_of_lines []) demo_boot demo_kernel = (Inr c, cache') \<and>
     kernel_run demo_kernel_steps c = Some c' \<and> map SequenceNum (kc_received c' @ kc_chan c') = [1, 2] \<and>
     subseq (kc_received c' @ kc_chan c') (parsed_lines (kc_boot c) demo_kernel_steps) \<and>
     kernel_Status c' \<noteq> CollectorStatusFailed"
proof -
  let ?c = "demo_kernel\<lparr>isRunning := True, kc_phase := KOpening, kc_boot := 5\<rparr>"
  obtain cache' where start: "kernel_Start (\<lambda>_. file_of_lines []) demo_boot demo_kernel = (Inr ?c, cache')"
    by (simp add: kernel_Start_def demo_kernel_def BootTime_def proc_path_def demo_boot_def Let_def)
  have "map_option (\<lambda>c'. map SequenceNum (kc_received c' @ kc_chan c')) (kernel_run demo_kernel_steps ?c) = Some [1, 2]"
    by code_simp
  then obtain c' where run: "kernel_run demo_kernel_steps ?c = Some c'" "map SequenceNum (kc_received c' @ kc_chan c') = [1, 2]"
    by auto
  from kernel_collector_messages [OF start run(1)] start run show ?thesis
    by (intro exI [of _ ?c] exI [of _ c'] exI [of _ cache']) simp
qed

end
