(* ===== verification/Containers.thy ===== *)
theory Containers
  imports HostFiles
begin

text \<open>
  Discovery of containers in the cgroup file systems, \<open>pkg/containers/discovery.go\<close>: container
  IDs and runtimes are read off the names of cgroup directories, in the hierarchies of version
  1 and of the unified version 2.

  The directory tree is an argument: the tree below a path as \<open>filepath.Walk\<close> sees it, whether
  a path exists, and the listing of a directory.
\<close>

section \<open>Names\<close>

datatype container_runtime =
    CONTAINER_RUNTIME_UNKNOWN | CONTAINER_RUNTIME_DOCKER | CONTAINER_RUNTIME_CONTAINERD
  | CONTAINER_RUNTIME_CRI_CONTAINERD | CONTAINER_RUNTIME_CRI_O | CONTAINER_RUNTIME_PODMAN

text \<open>
  \<open>strings.ToLower\<close>: ASCII letters are lowered; a text with bytes outside ASCII is lowered by
  the Unicode tables, which are an argument.
\<close>

definition lower_char :: "char \<Rightarrow> char" where
  "lower_char c = (if 65 \<le> (of_char c :: nat) \<and> (of_char c :: nat) \<le> 90 then char_of (of_char c + 32 :: nat) else c)"

definition ToLower :: "(bytes \<Rightarrow> bytes) \<Rightarrow> bytes \<Rightarrow> bytes" where
  "ToLower unicode s = (if list_all (\<lambda>c. (of_char c :: nat) < 128) s then map lower_char s else unicode s)"

definition ParseContainerRuntime :: "(bytes \<Rightarrow> bytes) \<Rightarrow> bytes \<Rightarrow> container_runtime" where
  "ParseContainerRuntime unicode runtime =
     (let r = ToLower unicode runtime in
      if r = ''docker'' then CONTAINER_RUNTIME_DOCKER
      else if r = ''containerd'' then CONTAINER_RUNTIME_CONTAINERD
      else if r = ''cri-containerd'' then CONTAINER_RUNTIME_CRI_CONTAINERD
      else if r = ''cri-o'' \<or> r = ''crio'' then CONTAINER_RUNTIME_CRI_O
      else if r = ''podman'' then CONTAINER_RUNTIME_PODMAN
      else CONTAINER_RUNTIME_UNKNOWN)"

definition detectRuntimeFromPath :: "(bytes \<Rightarrow> bytes) \<Rightarrow> bytes \<Rightarrow> container_runtime" where
  "detectRuntimeFromPath unicode path =
     (let p = ToLower unicode path in
      if str_contains p ''cri-containerd'' then CONTAINER_RUNTIME_CRI_CONTAINERD
      else if str_contains p ''cri-o'' \<or> str_contains p ''crio'' then CONTAINER_RUNTIME_CRI_O
      else if str_contains p ''docker'' then CONTAINER_RUNTIME_DOCKER
      else if str_contains p ''containerd'' then CONTAINER_RUNTIME_CONTAINERD
      else if str_contains p ''podman'' then CONTAINER_RUNTIME_PODMAN
      else CONTAINER_RUNTIME_UNKNOWN)"

definition is_hex_char :: "char \<Rightarrow> bool" where
  "is_hex_char c = (let n = (of_char c :: nat) in (48 \<le> n \<and> n \<le> 57) \<or> (97 \<le> n \<and> n \<le> 102) \<or> (65 \<le> n \<and> n \<le> 70))"

definition IsHexString :: "bytes \<Rightarrow> bool" where
  "IsHexString s = (s \<noteq> [] \<and> list_all is_hex_char s)"

definition minContainerIDLength :: nat where
  "minContainerIDLength = 12"

text \<open>The test that is repeated for every candidate.\<close>

definition container_id :: "bytes \<Rightarrow> bool" where
  "container_id s = (IsHexString s \<and> length s \<ge> minContainerIDLength)"

text \<open>What follows the last dash, when it is not the first byte.\<close>

definition after_last_dash :: "bytes \<Rightarrow> bytes option" where
  "after_last_dash s =
     (case last_index (CHR ''-'') s of None \<Rightarrow> None | Some idx \<Rightarrow> if 0 < idx then Some (drop (idx + 1) s) else None)"

text \<open>\<open>strings.SplitN(s, "-", 2)[1]\<close>, when there are two parts.\<close>

definition after_first_dash :: "bytes \<Rightarrow> bytes option" where
  "after_first_dash s = (if CHR ''-'' \<in> set s then Some (tl (dropWhile (\<lambda>c. c \<noteq> CHR ''-'') s)) else None)"

definition candidate :: "bytes option \<Rightarrow> bytes option" where
  "candidate x = (case x of Some s \<Rightarrow> if container_id s then Some s else None | None \<Rightarrow> None)"

text \<open>The branch for systemd scope units, on the name without its suffix.\<close>

definition scope_id :: "bytes \<Rightarrow> bytes option" where
  "scope_id nameWithoutScope =
     (case (if has_prefix nameWithoutScope ''cri-'' then candidate (after_last_dash nameWithoutScope) else None) of
        Some i \<Rightarrow> Some i
      | None \<Rightarrow>
          (case after_first_dash nameWithoutScope of
             None \<Rightarrow> None
           | Some i \<Rightarrow> if container_id i then Some i else candidate (after_last_dash i)))"

definition runtime_dir :: "bytes \<Rightarrow> bool" where
  "runtime_dir part = (part = ''docker'' \<or> part = ''containerd'' \<or> part = ''crio'' \<or> part = ''podman'')"

text \<open>The loop over the parts of a path: the part after a directory named after a runtime.\<close>

fun dir_id :: "bytes list \<Rightarrow> bytes option" where
  "dir_id (part # next_part # parts) =
     (if runtime_dir part \<and> container_id next_part then Some next_part else dir_id (next_part # parts))"
| "dir_id _ = None"

definition ExtractContainerID :: "bytes \<Rightarrow> bytes" where
  "ExtractContainerID name =
     (case (if has_suffix name ''.scope'' then scope_id (trim_suffix name ''.scope'') else None) of
        Some i \<Rightarrow> i
      | None \<Rightarrow>
          (let parts = split_on (CHR ''/'') name in
           case dir_id parts of
             Some i \<Rightarrow> i
           | None \<Rightarrow>
               if container_id (last parts) then last parts
               else if container_id name then name
               else []))"

section \<open>Walking a tree\<close>

text \<open>
  What \<open>filepath.Walk\<close> finds at a path: a directory with its entries in lexical order, or
  something that is not a directory or cannot be read; the callbacks below do nothing there.
\<close>

datatype cg_node = CgOther | CgDir "(bytes \<times> cg_node) list"

record cgroup_fs =
  cg_lstat :: "bytes \<Rightarrow> cg_node"
  cg_stat :: "bytes \<Rightarrow> bool"
  cg_readdir :: "bytes \<Rightarrow> (bytes \<times> bool) list option"

text \<open>A callback returns the new state and whether to skip the directory.\<close>

fun walk :: "(bytes \<Rightarrow> 'a \<Rightarrow> 'a \<times> bool) \<Rightarrow> bytes \<Rightarrow> cg_node \<Rightarrow> 'a \<Rightarrow> 'a"
  and walk_entries :: "(bytes \<Rightarrow> 'a \<Rightarrow> 'a \<times> bool) \<Rightarrow> bytes \<Rightarrow> (bytes \<times> cg_node) list \<Rightarrow> 'a \<Rightarrow> 'a" where
  "walk visit path CgOther acc = acc"
| "walk visit path (CgDir entries) acc =
     (case visit path acc of (acc', skip) \<Rightarrow> if skip then acc' else walk_entries visit path entries acc')"
| "walk_entries visit path [] acc = acc"
| "walk_entries visit path ((name, node) # entries) acc =
     walk_entries visit path entries (walk visit (filepath_Join [path, name]) node acc)"

section \<open>Discovery\<close>

record container =
  cont_ID :: bytes
  cont_Runtime :: container_runtime
  CgroupPath :: bytes
  CgroupVersion :: int
  ImageName :: bytes
  ImageTag :: bytes
  ContainerName :: bytes
  WorkloadName :: bytes
  Labels :: "(bytes \<rightharpoonup> bytes) option"
  CPUShares :: "32 word option"
  CPUQuotaUs :: "32 word option"
  CPUPeriodUs :: "32 word option"
  MemoryLimitBytes :: "uint64 option"
  CpusetCpus :: bytes
  CpusetMems :: bytes

definition found_container :: "(bytes \<Rightarrow> bytes) \<Rightarrow> bytes \<Rightarrow> bytes \<Rightarrow> bytes \<Rightarrow> int \<Rightarrow> container" where
  "found_container unicode i name path version =
     \<lparr>cont_ID = i, cont_Runtime = detectRuntimeFromPath unicode name, CgroupPath = path, CgroupVersion = version,
      ImageName = [], ImageTag = [], ContainerName = [], WorkloadName = [], Labels = None, CPUShares = None,
      CPUQuotaUs = None, CPUPeriodUs = None, MemoryLimitBytes = None, CpusetCpus = [], CpusetMems = []\<rparr>"

definition DetectCgroupVersion :: "cgroup_fs \<Rightarrow> bytes \<Rightarrow> int option" where
  "DetectCgroupVersion fs cgroupPath =
     (if cg_stat fs (filepath_Join [cgroupPath, ''cgroup.controllers'']) then Some 2
      else if list_ex (\<lambda>controller. cg_stat fs (filepath_Join [cgroupPath, controller]))
                [''cpu'', ''memory'', ''cpuacct'', ''blkio'', ''devices''] then Some 1
      else None)"

definition visit_v1 :: "(bytes \<Rightarrow> bytes) \<Rightarrow> bytes \<Rightarrow> int \<Rightarrow> bytes \<Rightarrow> container list \<Rightarrow> container list \<times> bool" where
  "visit_v1 unicode basePath version path containers =
     (let relativePath = trim_prefix path basePath; containerID = ExtractContainerID relativePath
      in if containerID \<noteq> [] then (containers @ [found_container unicode containerID relativePath path version], False)
         else (containers, False))"

definition system_dir :: "bytes \<Rightarrow> bool" where
  "system_dir name =
     (name = ''.'' \<or> name = ''..'' \<or> name = ''init.scope'' \<or> name = ''system.slice'' \<or> name = ''user.slice'')"

definition direct_container :: "(bytes \<Rightarrow> bytes) \<Rightarrow> bytes \<Rightarrow> int \<Rightarrow> bytes \<times> bool \<Rightarrow> container option" where
  "direct_container unicode basePath version entry =
     (case entry of (name, isDir) \<Rightarrow>
        if \<not> isDir \<or> system_dir name then None
        else let containerID = ExtractContainerID name in
          if containerID \<noteq> [] then Some (found_container unicode containerID name (filepath_Join [basePath, name]) version)
          else None)"

definition scanCgroupV1Directory :: "(bytes \<Rightarrow> bytes) \<Rightarrow> cgroup_fs \<Rightarrow> bytes \<Rightarrow> int \<Rightarrow> container list" where
  "scanCgroupV1Directory unicode fs basePath version =
     (let searchPaths = map (\<lambda>d. filepath_Join [basePath, d])
            [''docker'', ''containerd'', ''system.slice'', ''crio'', ''machine.slice''];
          walked = fold (\<lambda>p. walk (visit_v1 unicode basePath version) p (cg_lstat fs p)) searchPaths []
      in (case cg_readdir fs basePath of
            None \<Rightarrow> walked
          | Some entries \<Rightarrow> walked @ List.map_filter (direct_container unicode basePath version) entries))"

definition visit_v2 :: "(bytes \<Rightarrow> bytes) \<Rightarrow> cgroup_fs \<Rightarrow> bytes \<Rightarrow> int \<Rightarrow> bytes \<Rightarrow> container list \<Rightarrow>
    container list \<times> bool" where
  "visit_v2 unicode fs basePath version path containers =
     (if path = basePath then (containers, False)
      else let relativePath = trim_prefix path basePath; containerID = ExtractContainerID relativePath in
        if containerID \<noteq> [] \<and> cg_stat fs (filepath_Join [path, ''cgroup.procs''])
        then (containers @ [found_container unicode containerID relativePath path version], True)
        else (containers, False))"

definition scanCgroupV2Directory :: "(bytes \<Rightarrow> bytes) \<Rightarrow> cgroup_fs \<Rightarrow> bytes \<Rightarrow> int \<Rightarrow> container list" where
  "scanCgroupV2Directory unicode fs basePath version =
     walk (visit_v2 unicode fs basePath version) basePath (cg_lstat fs basePath) []"

datatype discovery_error = SubsystemNotFound bytes | UnsupportedVersion int

definition DiscoverContainers :: "(bytes \<Rightarrow> bytes) \<Rightarrow> cgroup_fs \<Rightarrow> bytes \<Rightarrow> bytes \<Rightarrow> int \<Rightarrow>
    (discovery_error, container list) result" where
  "DiscoverContainers unicode fs cgroupPath subsystem version =
     (if version = 1
      then let basePath = filepath_Join [cgroupPath, subsystem] in
        if \<not> cg_stat fs basePath then Inl (SubsystemNotFound subsystem)
        else Inr (scanCgroupV1Directory unicode fs basePath version)
      else if version = 2 then Inr (scanCgroupV2Directory unicode fs cgroupPath version)
      else Inl (UnsupportedVersion version))"

text \<open>The v1 scan looks at the first subsystem that exists.\<close>

definition DiscoverAllContainers :: "(bytes \<Rightarrow> bytes) \<Rightarrow> cgroup_fs \<Rightarrow> bytes \<Rightarrow> container list" where
  "DiscoverAllContainers unicode fs cgroupPath =
     (let v2 = scanCgroupV2Directory unicode fs cgroupPath 2 in
      case find (cg_stat fs) (map (\<lambda>s. filepath_Join [cgroupPath, s])
             [''cpu'', ''memory'', ''cpuacct'', ''blkio'', ''devices'']) of
        None \<Rightarrow> v2
      | Some v1Path \<Rightarrow>
          v2 @ filter (\<lambda>c. cont_ID c \<notin> cont_ID ` set v2) (scanCgroupV1Directory unicode fs v1Path 1))"

section \<open>Container IDs\<close>

lemma candidate_Some: "candidate x = Some i \<Longrightarrow> container_id i"
  by (auto simp: candidate_def split: option.splits if_splits)

lemma scope_id_Some: "scope_id n = Some i \<Longrightarrow> container_id i"
  by (auto simp: scope_id_def dest: candidate_Some split: option.splits if_splits)

lemma dir_id_Some: "dir_id parts = Some i \<Longrightarrow> container_id i"
  by (induction parts rule: dir_id.induct) (auto split: if_splits)

lemma ExtractContainerID_valid:
  "ExtractContainerID name = [] \<or> container_id (ExtractContainerID name)"
  by (auto simp: ExtractContainerID_def Let_def dest: scope_id_Some dir_id_Some split: option.splits if_splits)

lemma hex_no_sep: "IsHexString s \<Longrightarrow> c \<in> {CHR ''-'', CHR ''/'', CHR ''.''} \<Longrightarrow> c \<notin> set s"
  by (auto simp: IsHexString_def list_all_iff is_hex_char_def Let_def)

lemma last_index_unique: "c \<notin> set t \<Longrightarrow> last_index c (s @ c # t) = Some (length s)"
proof -
  assume "c \<notin> set t"
  then have "takeWhile (\<lambda>d. d \<noteq> c) (rev t @ c # rev s) = rev t"
    by (subst takeWhile_append2) auto
  then show ?thesis by (simp add: last_index_def)
qed

lemma after_last_dash_unique:
  "CHR ''-'' \<notin> set i \<Longrightarrow> p \<noteq> [] \<Longrightarrow> after_last_dash (p @ CHR ''-'' # i) = Some i"
  by (simp add: after_last_dash_def last_index_unique)

lemma dropWhile_dash: "c \<notin> set q \<Longrightarrow> dropWhile (\<lambda>d. d \<noteq> c) (q @ c # r) = c # r"
  by (induction q) auto

text \<open>A scope unit gives the ID after its last dash, whatever its prefix.\<close>

lemma scope_id_unit:
  assumes "container_id i" "p \<noteq> []" "last p \<noteq> CHR ''-''"
  shows "scope_id (p @ CHR ''-'' # i) = Some i"
proof -
  have dash: "CHR ''-'' \<notin> set i" using hex_no_sep assms(1) by (auto simp: container_id_def)
  have last: "after_last_dash (q @ CHR ''-'' # i) = Some i" if "q \<noteq> []" for q
    using after_last_dash_unique dash that by blast
  have "(case after_first_dash (p @ CHR ''-'' # i) of None \<Rightarrow> None
      | Some j \<Rightarrow> if container_id j then Some j else candidate (after_last_dash j)) = Some i"
  proof (cases "CHR ''-'' \<in> set p")
    case False
    then show ?thesis using assms(1) by (simp add: after_first_dash_def dropWhile_dash)
  next
    case True
    then obtain q r where p: "p = q @ CHR ''-'' # r" "CHR ''-'' \<notin> set q" using split_list_first by metis
    then have r: "r \<noteq> []" using assms(3) by auto
    have "after_first_dash (p @ CHR ''-'' # i) = Some (r @ CHR ''-'' # i)"
      using p by (simp add: after_first_dash_def dropWhile_dash)
    moreover have "\<not> container_id (r @ CHR ''-'' # i)"
      using hex_no_sep [of "r @ CHR ''-'' # i" "CHR ''-''"] by (auto simp: container_id_def)
    ultimately show ?thesis using last [OF r] assms(1) by (simp add: candidate_def)
  qed
  then show ?thesis using last [OF assms(2)] assms(1) by (simp add: scope_id_def candidate_def)
qed

lemma ExtractContainerID_scope:
  assumes "container_id i" "p \<noteq> []" "last p \<noteq> CHR ''-''"
  shows "ExtractContainerID (p @ ''-'' @ i @ ''.scope'') = i"
proof -
  have "trim_suffix ((p @ CHR ''-'' # i) @ ''.scope'') ''.scope'' = p @ CHR ''-'' # i"
    "has_suffix ((p @ CHR ''-'' # i) @ ''.scope'') ''.scope''"
    by (simp_all add: trim_suffix_def has_suffix_def)
  then show ?thesis using scope_id_unit [OF assms] by (simp add: ExtractContainerID_def)
qed

text \<open>A directory named by an ID, below directories that are not.\<close>

lemma dir_id_last:
  assumes "list_all (\<lambda>part. \<not> container_id part) parts"
  shows "dir_id (parts @ [i]) = None \<or> dir_id (parts @ [i]) = Some i"
  using assms
proof (induction parts)
  case (Cons part parts)
  then show ?case by (cases parts) auto
qed simp

lemma ExtractContainerID_dir:
  assumes "container_id i" "list_all (\<lambda>part. \<not> container_id part) (split_on (CHR ''/'') p)"
  shows "ExtractContainerID (p @ ''/'' @ i) = i"
proof -
  have i: "CHR ''/'' \<notin> set i" "CHR ''.'' \<notin> set i" using hex_no_sep assms(1) by (auto simp: container_id_def)
  have split: "split_on (CHR ''/'') (p @ CHR ''/'' # i) = split_on (CHR ''/'') p @ [i]"
    using i(1) by (simp add: split_on_append_all split_on_single)
  have "length ''.scope'' \<le> length i" using assms(1) by (simp add: container_id_def minContainerIDLength_def)
  then have "has_suffix (p @ ''/'' @ i) ''.scope'' \<Longrightarrow> \<exists>n. ''.scope'' = drop n i"
    by (cases "length i - 5") (auto simp: has_suffix_def Suc_diff_le drop_Cons' intro: sym)
  then have "\<not> has_suffix (p @ ''/'' @ i) ''.scope''"
    using i(2) by (metis in_set_dropD list.set_intros(1))
  then show ?thesis
    using dir_id_last [OF assms(2), of i] assms(1) by (auto simp: ExtractContainerID_def Let_def split)
qed

section \<open>The unified hierarchy\<close>

text \<open>All directories below a node in the order of the walk, each with the directories above it.\<close>

fun dirs :: "bytes list \<Rightarrow> bytes \<Rightarrow> cg_node \<Rightarrow> (bytes list \<times> bytes) list"
  and dirs_entries :: "bytes list \<Rightarrow> bytes \<Rightarrow> (bytes \<times> cg_node) list \<Rightarrow> (bytes list \<times> bytes) list" where
  "dirs outer path CgOther = []"
| "dirs outer path (CgDir entries) = (outer, path) # dirs_entries (path # outer) path entries"
| "dirs_entries outer path [] = []"
| "dirs_entries outer path ((name, node) # entries) =
     dirs outer (filepath_Join [path, name]) node @ dirs_entries outer path entries"

definition container_dir :: "cgroup_fs \<Rightarrow> bytes \<Rightarrow> bytes \<Rightarrow> bool" where
  "container_dir fs base path \<longleftrightarrow>
     path \<noteq> base \<and> ExtractContainerID (trim_prefix path base) \<noteq> [] \<and>
     cg_stat fs (filepath_Join [path, ''cgroup.procs''])"

definition outermost :: "cgroup_fs \<Rightarrow> bytes \<Rightarrow> bytes list \<times> bytes \<Rightarrow> bool" where
  "outermost fs base d \<longleftrightarrow> container_dir fs base (snd d) \<and> \<not> list_ex (container_dir fs base) (fst d)"

definition container_at :: "(bytes \<Rightarrow> bytes) \<Rightarrow> bytes \<Rightarrow> int \<Rightarrow> bytes list \<times> bytes \<Rightarrow> container" where
  "container_at unicode base version d =
     (let rel = trim_prefix (snd d) base in found_container unicode (ExtractContainerID rel) rel (snd d) version)"

lemma visit_v2_cases:
  "visit_v2 unicode fs base v path acc =
     (if container_dir fs base path then (acc @ [container_at unicode base v (outer, path)], True) else (acc, False))"
  by (simp add: visit_v2_def container_dir_def container_at_def Let_def)

lemma nested_not_outermost:
  "list_ex (container_dir fs base) outer \<Longrightarrow> filter (outermost fs base) (dirs outer path node) = []"
  "list_ex (container_dir fs base) outer \<Longrightarrow> filter (outermost fs base) (dirs_entries outer path entries) = []"
  by (induction outer path node and outer path entries rule: dirs_dirs_entries.induct)
    (auto simp: outermost_def)

lemma walk_v2:
  "\<not> list_ex (container_dir fs base) outer \<Longrightarrow>
     walk (visit_v2 unicode fs base v) path node acc =
     acc @ map (container_at unicode base v) (filter (outermost fs base) (dirs outer path node))"
  "\<not> list_ex (container_dir fs base) outer \<Longrightarrow>
     walk_entries (visit_v2 unicode fs base v) path entries acc =
     acc @ map (container_at unicode base v) (filter (outermost fs base) (dirs_entries outer path entries))"
proof (induction outer path node and outer path entries arbitrary: acc and acc rule: dirs_dirs_entries.induct)
  case (2 outer path entries)
  have "outermost fs base (outer, path) \<longleftrightarrow> container_dir fs base path"
    using 2 by (simp add: outermost_def)
  then show ?case
    using 2 nested_not_outermost(2) [of fs base "path # outer" path entries]
    by (auto simp: visit_v2_cases [where outer = outer])
qed auto

lemma scanCgroupV2Directory_eq:
  "scanCgroupV2Directory unicode fs base v =
     map (container_at unicode base v) (filter (outermost fs base) (dirs [] base (cg_lstat fs base)))"
  using walk_v2(1) [of fs base "[]"] by (simp add: scanCgroupV2Directory_def)

end
