(* ===== verification/CgroupCollectors.thy ===== *)
theory CgroupCollectors
  imports Containers
begin

text \<open>
  The collectors of container CPU and memory statistics, \<open>pkg/performance/collectors/\<close>
  \<open>cgroup_cpu.go\<close> and \<open>cgroup_memory.go\<close>: for every container that discovery finds, counters from
  the files of its cgroup, in the layout of version 1 or 2. The container's name and the CPU
  percentage, which the collectors never set, are left out.
\<close>

section \<open>Files\<close>

text \<open>A whole file of name-value lines.\<close>

definition parse_stat :: "stat_table \<Rightarrow> bytes \<Rightarrow> counters \<Rightarrow> counters" where
  "parse_stat table data c = fold (stat_line table) (split_on (CHR 0x0A) (trim_space data)) c"

text \<open>A file with one number.\<close>

definition read_counter :: "host_fs \<Rightarrow> bytes \<Rightarrow> bytes \<Rightarrow> counters \<Rightarrow> counters" where
  "read_counter fs path f c =
     (case read_trimmed fs path of
        None \<Rightarrow> c
      | Some s \<Rightarrow> (case ParseUint64 s of None \<Rightarrow> c | Some v \<Rightarrow> c(f := v)))"

section \<open>CPU\<close>

record cgroup_cpu_stats =
  gcpu_ContainerID :: bytes
  gcpu_CgroupPath :: bytes
  gcpu_counters :: counters
  CpuQuotaUs :: int
  ThrottlePercent :: rat

record cgroup_collector =
  cgroupPath :: bytes

definition NewCgroupCPUCollector :: "collection_config \<Rightarrow> (path_error, cgroup_collector) result" where
  "NewCgroupCPUCollector config =
     (case collection_Validate \<lparr>RequireHostProcPath = False, RequireHostSysPath = True,
             RequireHostDevPath = False\<rparr> config of
        Some err \<Rightarrow> Inl err
      | None \<Rightarrow> Inr \<lparr>cgroupPath = filepath_Join [cc_sys config, ''fs'', ''cgroup'']\<rparr>)"

definition parseCPUStat :: "bytes \<Rightarrow> counters \<Rightarrow> counters" where
  "parseCPUStat = parse_stat [(''nr_periods'', ''NrPeriods'', 1), (''nr_throttled'', ''NrThrottled'', 1),
     (''throttled_time'', ''ThrottledTime'', 1)]"

definition parseCgroupV2CPUStat :: "bytes \<Rightarrow> counters \<Rightarrow> counters" where
  "parseCgroupV2CPUStat = parse_stat [(''usage_usec'', ''UsageNanos'', 1000), (''nr_periods'', ''NrPeriods'', 1),
     (''nr_throttled'', ''NrThrottled'', 1), (''throttled_usec'', ''ThrottledTime'', 1000)]"

text \<open>Version 1: every file is optional.\<close>

definition cpu_readCgroupV1Stats :: "host_fs \<Rightarrow> container \<Rightarrow> cgroup_cpu_stats \<Rightarrow> cgroup_cpu_stats" where
  "cpu_readCgroupV1Stats fs cont stats =
     (let file = (\<lambda>name. filepath_Join [CgroupPath cont, name]);
          cpuacctPath = replace_first ''/cpu/'' ''/cpuacct/'' (CgroupPath cont);
          c0 = gcpu_counters stats;
          c1 = (case os_ReadFile (fs (file ''cpu.stat'')) of None \<Rightarrow> c0 | Some data \<Rightarrow> parseCPUStat data c0);
          c2 = read_counter fs (filepath_Join [cpuacctPath, ''cpuacct.usage'']) ''UsageNanos'' c1;
          c3 = read_counter fs (file ''cpu.shares'') ''CpuShares'' c2;
          quota = (case read_trimmed fs (file ''cpu.cfs_quota_us'') of
                     None \<Rightarrow> CpuQuotaUs stats
                   | Some s \<Rightarrow> (case parse_int 64 s of None \<Rightarrow> CpuQuotaUs stats | Some q \<Rightarrow> q));
          c4 = read_counter fs (file ''cpu.cfs_period_us'') ''CpuPeriodUs'' c3
      in stats\<lparr>gcpu_counters := c4, CpuQuotaUs := quota\<rparr>)"

text \<open>The file \<open>cpu.max\<close>: a quota or \<open>max\<close>, and a period.\<close>

definition apply_cpu_max :: "bytes \<Rightarrow> cgroup_cpu_stats \<Rightarrow> cgroup_cpu_stats" where
  "apply_cpu_max data stats =
     (case str_fields data of
        [q, p] \<Rightarrow>
          stats\<lparr>CpuQuotaUs := (if q \<noteq> ''max'' then (case parse_int 64 q of None \<Rightarrow> CpuQuotaUs stats | Some v \<Rightarrow> v)
                              else - 1),
                gcpu_counters := (case ParseUint64 p of None \<Rightarrow> gcpu_counters stats
                                  | Some v \<Rightarrow> (gcpu_counters stats)(''CpuPeriodUs'' := v))\<rparr>
      | _ \<Rightarrow> stats)"

text \<open>Version 2: \<open>None\<close> when \<open>cpu.stat\<close> cannot be read.\<close>

definition cpu_readCgroupV2Stats :: "host_fs \<Rightarrow> container \<Rightarrow> cgroup_cpu_stats \<Rightarrow> cgroup_cpu_stats option" where
  "cpu_readCgroupV2Stats fs cont stats =
     (let file = (\<lambda>name. filepath_Join [CgroupPath cont, name]) in
      case os_ReadFile (fs (file ''cpu.stat'')) of
        None \<Rightarrow> None
      | Some data \<Rightarrow>
          (let s1 = stats\<lparr>gcpu_counters := parseCgroupV2CPUStat data (gcpu_counters stats)\<rparr>;
               s2 = (case os_ReadFile (fs (file ''cpu.max'')) of None \<Rightarrow> s1 | Some d \<Rightarrow> apply_cpu_max d s1)
           in Some (case read_trimmed fs (file ''cpu.weight'') of
                      None \<Rightarrow> s2
                    | Some w \<Rightarrow> (case ParseUint64 w of
                                   None \<Rightarrow> s2
                                 | Some weight \<Rightarrow> s2\<lparr>gcpu_counters := (gcpu_counters s2)
                                     (''CpuShares'' := (weight * 1024) div 100)\<rparr>))))"

definition throttle_percent :: "cgroup_cpu_stats \<Rightarrow> cgroup_cpu_stats" where
  "throttle_percent stats =
     (let c = gcpu_counters stats in
      if c ''NrPeriods'' > 0
      then stats\<lparr>ThrottlePercent := float64_mul (float64_div (float64_of_uint64 (c ''NrThrottled''))
             (float64_of_uint64 (c ''NrPeriods''))) 100\<rparr>
      else stats)"

definition cpu_collectContainerStats :: "host_fs \<Rightarrow> container \<Rightarrow> cgroup_cpu_stats option" where
  "cpu_collectContainerStats fs cont =
     (let stats = \<lparr>gcpu_ContainerID = cont_ID cont, gcpu_CgroupPath = CgroupPath cont,
            gcpu_counters = zero_counters, CpuQuotaUs = 0, ThrottlePercent = 0\<rparr>
      in map_option throttle_percent
           (if CgroupVersion cont = 1 then Some (cpu_readCgroupV1Stats fs cont stats)
            else cpu_readCgroupV2Stats fs cont stats))"

section \<open>Collection\<close>

text \<open>
  The loop over the containers, with the state of the context before each: when it is done, the
  statistics so far are returned with its error.
\<close>

fun collect_each :: "('c \<Rightarrow> 's option) \<Rightarrow> (nat \<Rightarrow> bool) \<Rightarrow> nat \<Rightarrow> 'c list \<Rightarrow> 's list \<Rightarrow> 's list \<times> bool" where
  "collect_each collect done_at n [] stats = (stats, False)"
| "collect_each collect done_at n (c # cs) stats =
     (if done_at n then (stats, True)
      else collect_each collect done_at (Suc n) cs (case collect c of None \<Rightarrow> stats | Some s \<Rightarrow> stats @ [s]))"

datatype cgroup_error = VersionNotDetected bytes | DiscoverFailed discovery_error | ContextDone

definition collect_containers :: "(bytes \<Rightarrow> bytes) \<Rightarrow> cgroup_fs \<Rightarrow> (nat \<Rightarrow> bool) \<Rightarrow> bytes \<Rightarrow>
    (container \<Rightarrow> 's option) \<Rightarrow> cgroup_collector \<Rightarrow> 's list \<times> cgroup_error option" where
  "collect_containers unicode cg done_at subsystem collect c =
     (case DetectCgroupVersion cg (cgroupPath c) of
        None \<Rightarrow> ([], Some (VersionNotDetected (cgroupPath c)))
      | Some version \<Rightarrow>
          (case DiscoverContainers unicode cg (cgroupPath c) subsystem version of
             Inl err \<Rightarrow> ([], Some (DiscoverFailed err))
           | Inr containers \<Rightarrow>
               (case collect_each collect done_at 0 containers [] of
                  (stats, cancelled) \<Rightarrow> (stats, if cancelled then Some ContextDone else None))))"

definition cgroup_cpu_Collect :: "(bytes \<Rightarrow> bytes) \<Rightarrow> cgroup_fs \<Rightarrow> host_fs \<Rightarrow> (nat \<Rightarrow> bool) \<Rightarrow>
    cgroup_collector \<Rightarrow> cgroup_cpu_stats list \<times> cgroup_error option" where
  "cgroup_cpu_Collect unicode cg fs done_at c =
     collect_containers unicode cg done_at ''cpu'' (cpu_collectContainerStats fs) c"

section \<open>Memory\<close>

record cgroup_memory_stats =
  gmem_ContainerID :: bytes
  gmem_CgroupPath :: bytes
  gmem_counters :: counters
  UnderOOM :: bool
  gmem_UsagePercent :: rat
  CachePercent :: rat

definition NewCgroupMemoryCollector :: "collection_config \<Rightarrow> (path_error, cgroup_collector) result" where
  "NewCgroupMemoryCollector config =
     (case collection_Validate \<lparr>RequireHostProcPath = False, RequireHostSysPath = True,
             RequireHostDevPath = False\<rparr> config of
        Some err \<Rightarrow> Inl err
      | None \<Rightarrow> Inr \<lparr>cgroupPath = filepath_Join [cc_sys config, ''fs'', ''cgroup'']\<rparr>)"

text \<open>The fields that both versions name alike.\<close>

definition shared_memory_fields :: stat_table where
  "shared_memory_fields = [(''swap'', ''Swap'', 1), (''active_anon'', ''ActiveAnon'', 1),
     (''inactive_anon'', ''InactiveAnon'', 1), (''active_file'', ''ActiveFile'', 1),
     (''inactive_file'', ''InactiveFile'', 1)]"

definition parseMemoryStat :: "bytes \<Rightarrow> counters \<Rightarrow> counters" where
  "parseMemoryStat = parse_stat ([(''rss'', ''RSS'', 1), (''cache'', ''Cache'', 1),
     (''mapped_file'', ''MappedFile'', 1)] @ shared_memory_fields)"

definition parseCgroupV2MemoryStat :: "bytes \<Rightarrow> counters \<Rightarrow> counters" where
  "parseCgroupV2MemoryStat = parse_stat ([(''anon'', ''RSS'', 1), (''file'', ''Cache'', 1),
     (''file_mapped'', ''MappedFile'', 1)] @ shared_memory_fields)"

definition parseMemoryEvents :: "bytes \<Rightarrow> counters \<Rightarrow> counters" where
  "parseMemoryEvents = parse_stat [(''max'', ''FailCount'', 1), (''oom_kill'', ''OOMKillCount'', 1)]"

definition oom_line :: "bytes \<Rightarrow> cgroup_memory_stats \<Rightarrow> cgroup_memory_stats" where
  "oom_line line stats =
     (case str_fields line of
        [name, value] \<Rightarrow>
          if name = ''under_oom'' then (if value = ''1'' then stats\<lparr>UnderOOM := True\<rparr> else stats)
          else if name = ''oom_kill''
          then (case ParseUint64 value of None \<Rightarrow> stats
                | Some v \<Rightarrow> stats\<lparr>gmem_counters := (gmem_counters stats)(''OOMKillCount'' := v)\<rparr>)
          else stats
      | _ \<Rightarrow> stats)"

definition parseOOMControl :: "bytes \<Rightarrow> cgroup_memory_stats \<Rightarrow> cgroup_memory_stats" where
  "parseOOMControl data stats = fold oom_line (split_on (CHR 0x0A) (trim_space data)) stats"

definition mem_readCgroupV1Stats :: "host_fs \<Rightarrow> container \<Rightarrow> cgroup_memory_stats \<Rightarrow> cgroup_memory_stats option" where
  "mem_readCgroupV1Stats fs cont stats =
     (let file = (\<lambda>name. filepath_Join [CgroupPath cont, name]) in
      case os_ReadFile (fs (file ''memory.stat'')) of
        None \<Rightarrow> None
      | Some data \<Rightarrow>
          (let c1 = parseMemoryStat data (gmem_counters stats);
               c2 = read_counter fs (file ''memory.usage_in_bytes'') ''UsageBytes'' c1;
               c3 = read_counter fs (file ''memory.limit_in_bytes'') ''LimitBytes'' c2;
               c4 = read_counter fs (file ''memory.max_usage_in_bytes'') ''MaxUsageBytes'' c3;
               c5 = read_counter fs (file ''memory.failcnt'') ''FailCount'' c4;
               s1 = stats\<lparr>gmem_counters := c5\<rparr>
           in Some (case os_ReadFile (fs (file ''memory.oom_control'')) of
                      None \<Rightarrow> s1 | Some d \<Rightarrow> parseOOMControl d s1)))"

text \<open>A limit of \<open>max\<close> is the largest number.\<close>

definition apply_memory_max :: "bytes \<Rightarrow> counters \<Rightarrow> counters" where
  "apply_memory_max limitStr c =
     (if limitStr \<noteq> ''max'' then (case ParseUint64 limitStr of None \<Rightarrow> c | Some v \<Rightarrow> c(''LimitBytes'' := v))
      else c(''LimitBytes'' := - 1))"

definition mem_readCgroupV2Stats :: "host_fs \<Rightarrow> container \<Rightarrow> cgroup_memory_stats \<Rightarrow> cgroup_memory_stats option" where
  "mem_readCgroupV2Stats fs cont stats =
     (let file = (\<lambda>name. filepath_Join [CgroupPath cont, name]) in
      case os_ReadFile (fs (file ''memory.stat'')) of
        None \<Rightarrow> None
      | Some data \<Rightarrow>
          (let c1 = parseCgroupV2MemoryStat data (gmem_counters stats);
               c2 = read_counter fs (file ''memory.current'') ''UsageBytes'' c1;
               c3 = (case read_trimmed fs (file ''memory.max'') of None \<Rightarrow> c2 | Some s \<Rightarrow> apply_memory_max s c2);
               c4 = (case os_ReadFile (fs (file ''memory.events'')) of None \<Rightarrow> c3 | Some d \<Rightarrow> parseMemoryEvents d c3);
               c5 = read_counter fs (file ''memory.peak'') ''MaxUsageBytes'' c4
           in Some (stats\<lparr>gmem_counters := c5\<rparr>)))"

definition half_MaxUint64 :: uint64 where
  "half_MaxUint64 = (- 1) div 2"

definition memory_percentages :: "cgroup_memory_stats \<Rightarrow> cgroup_memory_stats" where
  "memory_percentages stats =
     (let c = gmem_counters stats;
          s1 = (if c ''LimitBytes'' > 0 \<and> c ''LimitBytes'' < half_MaxUint64
                then stats\<lparr>gmem_UsagePercent := float64_mul (float64_div (float64_of_uint64 (c ''UsageBytes''))
                       (float64_of_uint64 (c ''LimitBytes''))) 100\<rparr>
                else stats)
      in if c ''UsageBytes'' > 0
         then s1\<lparr>CachePercent := float64_mul (float64_div (float64_of_uint64 (c ''Cache''))
                (float64_of_uint64 (c ''UsageBytes''))) 100\<rparr>
         else s1)"

definition mem_collectContainerStats :: "host_fs \<Rightarrow> container \<Rightarrow> cgroup_memory_stats option" where
  "mem_collectContainerStats fs cont =
     (let stats = \<lparr>gmem_ContainerID = cont_ID cont, gmem_CgroupPath = CgroupPath cont,
            gmem_counters = zero_counters, UnderOOM = False, gmem_UsagePercent = 0, CachePercent = 0\<rparr>
      in map_option memory_percentages
           (if CgroupVersion cont = 1 then mem_readCgroupV1Stats fs cont stats
            else mem_readCgroupV2Stats fs cont stats))"

definition cgroup_memory_Collect :: "(bytes \<Rightarrow> bytes) \<Rightarrow> cgroup_fs \<Rightarrow> host_fs \<Rightarrow> (nat \<Rightarrow> bool) \<Rightarrow>
    cgroup_collector \<Rightarrow> cgroup_memory_stats list \<times> cgroup_error option" where
  "cgroup_memory_Collect unicode cg fs done_at c =
     collect_containers unicode cg done_at ''memory'' (mem_collectContainerStats fs) c"

section \<open>What is collected\<close>

lemma collect_each_all:
  "\<forall>n. \<not> done_at n \<Longrightarrow>
   collect_each collect done_at n cs stats = (stats @ List.map_filter collect cs, False)"
  by (induction cs arbitrary: n stats) (auto simp: List.map_filter_simps split: option.splits)

text \<open>Each statistic belongs to the container it was collected from.\<close>

lemma cpu_stages_id [simp]:
  "gcpu_ContainerID (apply_cpu_max d s) = gcpu_ContainerID s" "gcpu_CgroupPath (apply_cpu_max d s) = gcpu_CgroupPath s"
  "gcpu_ContainerID (throttle_percent s) = gcpu_ContainerID s" "gcpu_CgroupPath (throttle_percent s) = gcpu_CgroupPath s"
  "gcpu_ContainerID (cpu_readCgroupV1Stats fs cont s) = gcpu_ContainerID s"
  "gcpu_CgroupPath (cpu_readCgroupV1Stats fs cont s) = gcpu_CgroupPath s"
  by (simp_all add: apply_cpu_max_def throttle_percent_def cpu_readCgroupV1Stats_def Let_def split: list.split)

lemma cpu_readCgroupV2Stats_id:
  "cpu_readCgroupV2Stats fs cont s = Some t \<Longrightarrow> gcpu_ContainerID t = gcpu_ContainerID s \<and> gcpu_CgroupPath t = gcpu_CgroupPath s"
  by (auto simp: cpu_readCgroupV2Stats_def Let_def split: option.splits)

lemma cpu_collectContainerStats_Some:
  "cpu_collectContainerStats fs cont = Some s \<Longrightarrow>
     gcpu_ContainerID s = cont_ID cont \<and> gcpu_CgroupPath s = CgroupPath cont"
  by (auto simp: cpu_collectContainerStats_def Let_def dest: cpu_readCgroupV2Stats_id split: if_splits)

lemma cpu_collectContainerStats_defined:
  "CgroupVersion cont \<noteq> 1 \<Longrightarrow> cpu_collectContainerStats fs cont = None \<longleftrightarrow>
     os_ReadFile (fs (filepath_Join [CgroupPath cont, ''cpu.stat''])) = None"
  by (auto simp: cpu_collectContainerStats_def cpu_readCgroupV2Stats_def Let_def split: option.splits)

lemma parseOOMControl_id:
  "gmem_ContainerID (parseOOMControl d s) = gmem_ContainerID s \<and> gmem_CgroupPath (parseOOMControl d s) = gmem_CgroupPath s"
proof -
  have line: "gmem_ContainerID (oom_line l x) = gmem_ContainerID x \<and> gmem_CgroupPath (oom_line l x) = gmem_CgroupPath x"
    for l x by (simp add: oom_line_def split: list.splits option.splits)
  have "gmem_ContainerID (fold oom_line ls s) = gmem_ContainerID s \<and> gmem_CgroupPath (fold oom_line ls s) = gmem_CgroupPath s"
    for ls by (induction ls arbitrary: s) (simp_all add: line)
  then show ?thesis by (simp add: parseOOMControl_def)
qed

lemma mem_collectContainerStats_Some:
  "mem_collectContainerStats fs cont = Some s \<Longrightarrow>
     gmem_ContainerID s = cont_ID cont \<and> gmem_CgroupPath s = CgroupPath cont"
  by (auto simp: mem_collectContainerStats_def mem_readCgroupV1Stats_def mem_readCgroupV2Stats_def
      parseOOMControl_id memory_percentages_def Let_def split: if_splits option.splits)

lemma mem_collectContainerStats_defined:
  "mem_collectContainerStats fs cont = None \<longleftrightarrow>
     os_ReadFile (fs (filepath_Join [CgroupPath cont, ''memory.stat''])) = None"
  by (auto simp: mem_collectContainerStats_def mem_readCgroupV1Stats_def mem_readCgroupV2Stats_def
      Let_def split: option.splits)

text \<open>
  What is to be reported: every outermost container directory whose file \<open>critical\<close> can be read.
  The interface of a container collector: it reports a container exactly when a file of its
  cgroup can be read, under the container's path and ID. What a collection in the unified
  hierarchy reports follows from that alone.
\<close>

definition reported_containers :: "cgroup_fs \<Rightarrow> host_fs \<Rightarrow> bytes \<Rightarrow> bytes \<Rightarrow> (bytes \<times> bytes) list" where
  "reported_containers cg fs base critical =
     map (\<lambda>d. (snd d, ExtractContainerID (trim_prefix (snd d) base)))
       (filter (\<lambda>d. outermost cg base d \<and> os_ReadFile (fs (filepath_Join [snd d, critical])) \<noteq> None)
         (dirs [] base (cg_lstat cg base)))"

locale container_collector =
  fixes collect :: "host_fs \<Rightarrow> container \<Rightarrow> 's option"
    and stat_ID :: "'s \<Rightarrow> bytes" and stat_path :: "'s \<Rightarrow> bytes" and critical :: bytes and subsystem :: bytes
  assumes identity: "collect fs cont = Some s \<Longrightarrow> stat_ID s = cont_ID cont \<and> stat_path s = CgroupPath cont"
    and defined: "CgroupVersion cont \<noteq> 1 \<Longrightarrow>
      collect fs cont = None \<longleftrightarrow> os_ReadFile (fs (filepath_Join [CgroupPath cont, critical])) = None"
begin

lemma collected_paths:
  assumes "list_all (\<lambda>cont. CgroupVersion cont \<noteq> 1) cs"
  shows "map (\<lambda>s. (stat_path s, stat_ID s)) (List.map_filter (collect fs) cs) =
    map (\<lambda>cont. (CgroupPath cont, cont_ID cont))
      (filter (\<lambda>cont. os_ReadFile (fs (filepath_Join [CgroupPath cont, critical])) \<noteq> None) cs)"
  using assms
proof (induction cs)
  case (Cons cont cs)
  show ?case
  proof (cases "collect fs cont")
    case None
    then show ?thesis using Cons defined [of cont fs] by (simp add: List.map_filter_simps)
  next
    case (Some s)
    then have "os_ReadFile (fs (filepath_Join [CgroupPath cont, critical])) \<noteq> None"
      using Cons.prems defined [of cont fs] by auto
    then show ?thesis using Some Cons identity [OF Some] by (simp add: List.map_filter_simps)
  qed
qed (simp add: List.map_filter_simps)

theorem unified_collection:
  assumes "cg_stat cg (filepath_Join [cgroupPath c, ''cgroup.controllers''])" "\<forall>n. \<not> done_at n"
  shows "\<exists>stats. collect_containers unicode cg done_at subsystem (collect fs) c = (stats, None) \<and>
    map (\<lambda>s. (stat_path s, stat_ID s)) stats = reported_containers cg fs (cgroupPath c) critical"
proof -
  let ?found = "scanCgroupV2Directory unicode cg (cgroupPath c) 2"
  have run: "collect_containers unicode cg done_at subsystem (collect fs) c = (List.map_filter (collect fs) ?found, None)"
    using assms by (simp add: collect_containers_def DetectCgroupVersion_def DiscoverContainers_def collect_each_all)
  have "list_all (\<lambda>cont. CgroupVersion cont \<noteq> 1) ?found"
    by (simp add: scanCgroupV2Directory_eq list_all_iff container_at_def found_container_def Let_def)
  from collected_paths [OF this, of fs] run show ?thesis
    by (simp add: scanCgroupV2Directory_eq container_at_def found_container_def Let_def comp_def filter_map conj_commute
        reported_containers_def)
qed

end

interpretation cgroup_cpu: container_collector cpu_collectContainerStats gcpu_ContainerID gcpu_CgroupPath
    "''cpu.stat''" "''cpu''"
  by unfold_locales (fact cpu_collectContainerStats_Some, fact cpu_collectContainerStats_defined)

interpretation cgroup_memory: container_collector mem_collectContainerStats gmem_ContainerID gmem_CgroupPath
    "''memory.stat''" "''memory''"
  by unfold_locales (auto dest: mem_collectContainerStats_Some simp: mem_collectContainerStats_defined)

text \<open>The share of throttled periods is a percentage when the kernel's counters are consistent.\<close>

lemma throttle_percent_bounds:
  assumes "unat (gcpu_counters s ''NrThrottled'') \<le> unat (gcpu_counters s ''NrPeriods'')"
    and "0 \<le> ThrottlePercent s \<and> ThrottlePercent s \<le> 100"
  shows "0 \<le> ThrottlePercent (throttle_percent s) \<and> ThrottlePercent (throttle_percent s) \<le> 100"
  using assms(2) percent_bounds [of "float64_of_uint64 (gcpu_counters s ''NrThrottled'')" "float64_of_uint64 (gcpu_counters s ''NrPeriods'')"]
    float64_of_uint64_mono [OF assms(1)] float64_of_uint64_pos [of "gcpu_counters s ''NrPeriods''"]
  by (auto simp: throttle_percent_def Let_def word_gt_0)

text \<open>
  The limit that the kernel reports for a version 1 cgroup without one, the largest multiple of
  the page size below \<open>2 ^ 63\<close>, passes the test for a limit, so a percentage of it is reported.
\<close>

lemma unlimited_v1_percentage:
  assumes "gmem_counters s ''LimitBytes'' = 0x7FFFFFFFFFFFF000"
  shows "gmem_UsagePercent (memory_percentages s) =
    float64_mul (float64_div (float64_of_uint64 (gmem_counters s ''UsageBytes'')) (float64_of_uint64 0x7FFFFFFFFFFFF000)) 100"
proof -
  have "(0x7FFFFFFFFFFFF000 :: uint64) < half_MaxUint64" by code_simp
  then show ?thesis using assms by (simp add: memory_percentages_def Let_def)
qed

text \<open>A file of name-value lines is read back.\<close>

definition stat_file :: "(bytes \<times> uint64) list \<Rightarrow> bytes" where
  "stat_file entries = join_with (CHR 0x0A) (map (\<lambda>(name, v). words_line [name, show_nat (unat v)]) entries)"

definition stat_entry :: "stat_table \<Rightarrow> bytes \<times> uint64 \<Rightarrow> counters \<Rightarrow> counters" where
  "stat_entry table e c =
     (case map_of table (fst e) of None \<Rightarrow> c | Some (f, unit) \<Rightarrow> c(f := snd e * unit))"

lemma stat_line_show:
  assumes "word_ok (fst e)"
  shows "stat_line table (words_line [fst e, show_nat (unat (snd e))]) = stat_entry table e"
proof
  fix c
  have "str_fields (words_line [fst e, show_nat (unat (snd e))]) = [fst e, show_nat (unat (snd e))]"
    by (rule str_fields_words_line) (simp add: assms)
  then show "stat_line table (words_line [fst e, show_nat (unat (snd e))]) c = stat_entry table e c"
    by (simp add: stat_line_def stat_entry_def Let_def)
qed

text \<open>A whole file, with its final line end, in the order of its lines.\<close>

lemma parse_stat_roundtrip:
  assumes "list_all (\<lambda>e. word_ok (fst e)) entries" "entries \<noteq> []"
  shows "parse_stat table (stat_file entries @ [CHR 0x0A]) c = fold (stat_entry table) entries c"
proof -
  let ?line = "\<lambda>e. words_line [fst e, show_nat (unat (snd e))]"
  have as_lines: "stat_file entries = join_with (CHR 0x0A) (map ?line entries)"
    by (simp add: stat_file_def case_prod_beta')
  have line: "?line e \<noteq> []" "plain_char (hd (?line e))" "plain_char (last (?line e))" "CHR 0x0A \<notin> set (?line e)"
    if "word_ok (fst e)" for e
    using that show_nat_word [of "unat (snd e)"]
    by (auto simp: words_line_def word_ok_def list_all_iff plain_char_def is_ascii_space_def)
  have "list_all (\<lambda>w. w \<noteq> []) (map ?line entries)" using assms(1) line(1) by (auto simp: list_all_iff)
  from join_with_hd_last [OF this, of "CHR 0x0A"]
  have ends: "stat_file entries \<noteq> []" "hd (stat_file entries) = hd (?line (hd entries))"
      "last (stat_file entries) = last (?line (last entries))"
    using assms(2) by (simp_all add: as_lines hd_map last_map)
  have "word_ok (fst (hd entries))" "word_ok (fst (last entries))" using assms by (simp_all add: list_all_iff)
  then have "trim_space (stat_file entries @ [CHR 0x0A]) = stat_file entries"
    using ends line(2,3) by (intro trim_space_newline) simp_all
  moreover have "split_on (CHR 0x0A) (stat_file entries) = map ?line entries"
    unfolding as_lines using assms line(4) by (intro split_join) (auto simp: list_all_iff)
  moreover have "fold (stat_line table) (map ?line entries) c = fold (stat_entry table) entries c"
    using assms(1) by (induction entries arbitrary: c) (simp_all add: stat_line_show)
  ultimately show ?thesis by (simp add: parse_stat_def)
qed

end
