(* ===== verification/NumaLoadCollectors.thy ===== *)
theory NumaLoadCollectors
  imports HostFiles
begin

text \<open>
  The collectors of NUMA statistics and of the system load,
  \<open>pkg/performance/collectors/numa_stats.go\<close> and \<open>load.go\<close>. The NUMA collector updates its
  state at every collection on a host with several nodes; the load collector has no state.
\<close>

section \<open>NUMA\<close>

record numa_node =
  numa_ID :: int
  numa_memory :: counters
  numa_counters :: counters
  numa_delta :: "counter_deltas option"

record numa_stats =
  numa_Enabled :: bool
  NodeCount :: nat
  Nodes :: "numa_node list"
  AutoBalanceEnabled :: bool

record numa_collector =
  numa_base :: "numa_stats delta_state"
  sysNodesPath :: bytes
  procPath :: bytes

definition NewNUMAStatsCollector :: "collection_config \<Rightarrow> (path_error, numa_collector) result" where
  "NewNUMAStatsCollector config =
     (case collection_Validate \<lparr>RequireHostProcPath = True, RequireHostSysPath = True,
             RequireHostDevPath = False\<rparr> config of
        Some err \<Rightarrow> Inl err
      | None \<Rightarrow> Inr \<lparr>numa_base = NewBaseDeltaCollector config,
                      sysNodesPath = filepath_Join [cc_sys config, ''devices'', ''system'', ''node''],
                      procPath = cc_proc config\<rparr>)"

definition numa_node_id :: "bytes \<times> bool \<Rightarrow> int option" where
  "numa_node_id entry =
     (case entry of (name, isDir) \<Rightarrow>
        if \<not> isDir \<or> \<not> has_prefix name ''node'' then None else atoi (trim_prefix name ''node''))"

text \<open>A missing directory means that the kernel has no NUMA support; \<open>None\<close> is an error.\<close>

definition detectNUMANodes :: "(bytes \<Rightarrow> dir_listing) \<Rightarrow> numa_collector \<Rightarrow> int list option" where
  "detectNUMANodes dir c =
     (case dir (sysNodesPath c) of
        DirMissing \<Rightarrow> Some []
      | DirBroken \<Rightarrow> None
      | DirEntries entries \<Rightarrow> Some (List.map_filter numa_node_id entries))"

definition numastat_table :: stat_table where
  "numastat_table = [(''numa_hit'', ''NumaHit'', 1), (''numa_miss'', ''NumaMiss'', 1), (''numa_foreign'', ''NumaForeign'', 1),
     (''interleave_hit'', ''InterleaveHit'', 1), (''local_node'', ''LocalNode'', 1), (''other_node'', ''OtherNode'', 1)]"

definition numaFields :: "bytes list" where
  "numaFields = [''NumaHit'', ''NumaMiss'', ''NumaForeign'', ''InterleaveHit'', ''LocalNode'', ''OtherNode'']"

definition readNodeNumaStat :: "host_fs \<Rightarrow> bytes \<Rightarrow> counters option" where
  "readNodeNumaStat fs path =
     (case scan_file (fs path) of
        None \<Rightarrow> None
      | Some sc \<Rightarrow>
          (let stats = fold (stat_line numastat_table) (sc_lines sc) zero_counters in
           if sc_err sc then None
           else if list_all (\<lambda>f. stats f = 0) numaFields then None
           else Some stats))"

definition node_meminfo_line :: "bytes \<Rightarrow> counters \<Rightarrow> counters" where
  "node_meminfo_line line c =
     (let fields = str_fields line in
      if length fields < 4 then c
      else (case ParseUint64 (fields ! 3) of
              None \<Rightarrow> c
            | Some value \<Rightarrow>
                (let fieldName = trim_suffix (fields ! 2) '':'' in
                 if fieldName \<in> set [''MemFree'', ''MemUsed'', ''FilePages'', ''AnonPages'']
                 then c(fieldName := value * 1024) else c)))"

definition readNodeMeminfo :: "host_fs \<Rightarrow> bytes \<Rightarrow> counters option" where
  "readNodeMeminfo fs path =
     (case scan_file (fs path) of
        None \<Rightarrow> None
      | Some sc \<Rightarrow>
          if sc_err sc then None else Some (fold node_meminfo_line (sc_lines sc) zero_counters))"

definition collectNodeStats :: "host_fs \<Rightarrow> numa_collector \<Rightarrow> int \<Rightarrow> numa_node option" where
  "collectNodeStats fs c nodeID =
     (let nodePath = filepath_Join [sysNodesPath c, ''node'' @ show_int nodeID] in
      case readNodeNumaStat fs (filepath_Join [nodePath, ''numastat'']) of
        None \<Rightarrow> None
      | Some numastat \<Rightarrow>
          Some \<lparr>numa_ID = nodeID,
                numa_memory = (case readNodeMeminfo fs (filepath_Join [nodePath, ''meminfo'']) of
                                 None \<Rightarrow> zero_counters | Some m \<Rightarrow> m),
                numa_counters = numastat, numa_delta = None\<rparr>)"

text \<open>The metadata takes the time anew (\<open>now\<close>).\<close>

definition calculateNUMANodeDeltas :: "(rat \<Rightarrow> uint64) \<Rightarrow> instant \<Rightarrow> numa_node \<Rightarrow> numa_node \<Rightarrow>
    instant \<Rightarrow> 's delta_state \<Rightarrow> numa_node" where
  "calculateNUMANodeDeltas oor now current previous currentTime b =
     current\<lparr>numa_delta := Some ((calculate_deltas oor numaFields numaFields
         (numa_counters current) (numa_counters previous) currentTime b)
       \<lparr>cd_metadata := CreateDeltaMetadata now
          (counter_reset numaFields (numa_counters current) (numa_counters previous)) b\<rparr>)\<rparr>"

definition calculateNUMADeltas :: "(rat \<Rightarrow> uint64) \<Rightarrow> (int \<Rightarrow> instant) \<Rightarrow> numa_stats \<Rightarrow> numa_stats \<Rightarrow>
    instant \<Rightarrow> numa_stats delta_state \<Rightarrow> numa_stats" where
  "calculateNUMADeltas oor nows current previous currentTime b =
     (let prevNodesMap = by_key numa_ID (Nodes previous)
      in current\<lparr>Nodes := map (\<lambda>cur. case prevNodesMap (numa_ID cur) of
             None \<Rightarrow> cur
           | Some prev \<Rightarrow> calculateNUMANodeDeltas oor (nows (numa_ID cur)) cur prev currentTime b) (Nodes current)\<rparr>)"

definition numa_basic :: "host_fs \<Rightarrow> numa_collector \<Rightarrow> int list \<Rightarrow> numa_stats" where
  "numa_basic fs c nodes =
     \<lparr>numa_Enabled = (length nodes > 1), NodeCount = length nodes, Nodes = [],
      AutoBalanceEnabled =
        (read_trimmed fs (filepath_Join [procPath c, ''sys'', ''kernel'', ''numa_balancing'']) = Some ''1'')\<rparr>"

definition numa_Collect :: "(rat \<Rightarrow> uint64) \<Rightarrow> (int \<Rightarrow> instant) \<Rightarrow> (bytes \<Rightarrow> dir_listing) \<Rightarrow> host_fs \<Rightarrow>
    instant \<Rightarrow> numa_collector \<Rightarrow> (unit, numa_stats) result \<times> numa_collector" where
  "numa_Collect oor nows dir fs currentTime c =
     (case detectNUMANodes dir c of
        None \<Rightarrow> (Inl (), c)
      | Some nodes \<Rightarrow>
          (let stats = numa_basic fs c nodes in
           if \<not> numa_Enabled stats then (Inr stats, c)
           else (case roll_Collect (calculateNUMADeltas oor nows)
                        (Inr (stats\<lparr>Nodes := List.map_filter (collectNodeStats fs c) nodes\<rparr>)) currentTime (numa_base c) of
                   (out, b) \<Rightarrow> (out, c\<lparr>numa_base := b\<rparr>))))"

section \<open>Load\<close>

text \<open>
  \<open>strconv.ParseFloat\<close>: decimal numbers with an optional sign and fraction are rounded to the
  nearest float; what the function says of other spellings (exponents, hexadecimal numbers,
  infinities) and of values outside the normal range is an argument.
\<close>

definition parse_unsigned_decimal :: "bytes \<Rightarrow> rat option" where
  "parse_unsigned_decimal s =
     (case split_on (CHR ''.'') s of
        [a] \<Rightarrow> map_option of_nat (parse_digits a)
      | [a, b] \<Rightarrow> map_option (\<lambda>n. of_nat n / 10 ^ length b) (parse_digits (a @ b))
      | _ \<Rightarrow> None)"

definition parse_decimal :: "bytes \<Rightarrow> rat option" where
  "parse_decimal s =
     (if has_prefix s ''-'' then map_option uminus (parse_unsigned_decimal (tl s))
      else parse_unsigned_decimal (if has_prefix s ''+'' then tl s else s))"

definition ParseFloat :: "(bytes \<Rightarrow> rat option) \<Rightarrow> bytes \<Rightarrow> rat option" where
  "ParseFloat other s =
     (case parse_decimal s of
        None \<Rightarrow> other s
      | Some q \<Rightarrow> if q = 0 \<or> 1 \<le> \<bar>q\<bar> * 2 ^ 1022 \<and> \<bar>q\<bar> < 2 ^ 1023 then Some (fl q) else other s)"

record load_stats =
  Load1Min :: rat
  Load5Min :: rat
  Load15Min :: rat
  RunningProcs :: int
  TotalProcs :: int
  BlockedProcs :: int
  LastPID :: int
  Uptime :: duration

record load_collector =
  loadavgPath :: bytes
  uptimePath :: bytes
  loadStatPath :: bytes

definition NewLoadCollector :: "collection_config \<Rightarrow> (path_error, load_collector) result" where
  "NewLoadCollector config =
     (case collection_Validate \<lparr>RequireHostProcPath = True, RequireHostSysPath = False,
             RequireHostDevPath = False\<rparr> config of
        Some err \<Rightarrow> Inl err
      | None \<Rightarrow> Inr \<lparr>loadavgPath = filepath_Join [cc_proc config, ''loadavg''],
                      uptimePath = filepath_Join [cc_proc config, ''uptime''],
                      loadStatPath = filepath_Join [cc_proc config, ''stat'']\<rparr>)"

datatype load_error = LoadReadFailed bytes | LoadFormat nat | LoadNumber bytes | ProcFormat bytes

text \<open>The first line with the prefix decides, whether it can be parsed or not.\<close>

definition collectBlockedProcs :: "host_fs \<Rightarrow> bytes \<Rightarrow> load_stats \<Rightarrow> load_stats" where
  "collectBlockedProcs fs path stats =
     (case scan_file (fs path) of
        None \<Rightarrow> stats
      | Some sc \<Rightarrow>
          (case find (\<lambda>line. has_prefix line ''procs_blocked '') (sc_lines sc) of
             None \<Rightarrow> stats
           | Some line \<Rightarrow>
               (case str_fields line of
                  [_, text] \<Rightarrow> (case parse_int 32 text of None \<Rightarrow> stats | Some n \<Rightarrow> stats\<lparr>BlockedProcs := n\<rparr>)
                | _ \<Rightarrow> stats)))"

definition read_uptime :: "(bytes \<Rightarrow> rat option) \<Rightarrow> (rat \<Rightarrow> duration) \<Rightarrow> host_fs \<Rightarrow> bytes \<Rightarrow> load_stats \<Rightarrow> load_stats" where
  "read_uptime other oor fs path stats =
     (case os_ReadFile (fs path) of
        None \<Rightarrow> stats
      | Some uptimeData \<Rightarrow>
          (case str_fields uptimeData of
             [up, _] \<Rightarrow>
               (case ParseFloat other up of
                  None \<Rightarrow> stats
                | Some secs \<Rightarrow> stats\<lparr>Uptime := duration_of_float oor (float64_mul secs 1000000000)\<rparr>)
           | _ \<Rightarrow> stats))"

definition parse_load :: "(bytes \<Rightarrow> rat option) \<Rightarrow> bytes \<Rightarrow> (load_error, rat) result" where
  "parse_load other text = (case ParseFloat other text of None \<Rightarrow> Inl (LoadNumber text) | Some x \<Rightarrow> Inr x)"

definition parse_proc_count :: "bytes \<Rightarrow> (load_error, int) result" where
  "parse_proc_count text = (case parse_int 32 text of None \<Rightarrow> Inl (LoadNumber text) | Some n \<Rightarrow> Inr n)"

definition collectLoadStats :: "(bytes \<Rightarrow> rat option) \<Rightarrow> (rat \<Rightarrow> duration) \<Rightarrow> host_fs \<Rightarrow> load_collector \<Rightarrow>
    (load_error, load_stats) result" where
  "collectLoadStats other oor fs c =
     (case os_ReadFile (fs (loadavgPath c)) of
        None \<Rightarrow> Inl (LoadReadFailed (loadavgPath c))
      | Some loadavgData \<Rightarrow>
          (let fields = str_fields loadavgData in
           if length fields < 5 then Inl (LoadFormat (length fields))
           else
             result_bind (parse_load other (fields ! 0)) (\<lambda>load1.
             result_bind (parse_load other (fields ! 1)) (\<lambda>load5.
             result_bind (parse_load other (fields ! 2)) (\<lambda>load15.
             (case split_on (CHR ''/'') (fields ! 3) of
                [running_text, total_text] \<Rightarrow>
                  result_bind (parse_proc_count running_text) (\<lambda>running.
                  result_bind (parse_proc_count total_text) (\<lambda>total.
                  result_bind (parse_proc_count (fields ! 4)) (\<lambda>lastPID.
                  Inr (collectBlockedProcs fs (loadStatPath c) (read_uptime other oor fs (uptimePath c)
                    \<lparr>Load1Min = load1, Load5Min = load5, Load15Min = load15, RunningProcs = running,
                     TotalProcs = total, BlockedProcs = 0, LastPID = lastPID, Uptime = 0\<rparr>)))))
              | _ \<Rightarrow> Inl (ProcFormat (fields ! 3))))))))"

definition load_Collect :: "(bytes \<Rightarrow> rat option) \<Rightarrow> (rat \<Rightarrow> duration) \<Rightarrow> host_fs \<Rightarrow> load_collector \<Rightarrow>
    (load_error, load_stats) result" where
  "load_Collect other oor fs c = collectLoadStats other oor fs c"

section \<open>What is read\<close>

text \<open>A number of hundredths as the kernel prints it.\<close>

definition show_hundredths :: "nat \<Rightarrow> bytes" where
  "show_hundredths n = show_nat (n div 100) @ ''.'' @ [digit_char (n mod 100 div 10), digit_char (n mod 10)]"

lemma digits_no_dot: "list_all is_digit s \<Longrightarrow> CHR ''.'' \<notin> set s"
  by (auto simp: list_all_iff is_digit_def)

lemma parse_digits_hundredths:
  "parse_digits (show_nat (n div 100) @ [digit_char (n mod 100 div 10), digit_char (n mod 10)]) = Some n"
proof -
  have tens: "n mod 100 div 10 < 10" by simp
  have "digits_val (show_nat (n div 100)) = n div 100"
    using parse_digits_show_nat [of "n div 100"] by (simp add: parse_digits_def split: if_splits)
  then have "digits_val ((show_nat (n div 100) @ [digit_char (n mod 100 div 10)]) @ [digit_char (n mod 10)]) =
      10 * (10 * (n div 100) + n mod 100 div 10) + n mod 10"
    by (simp only: digits_val_snoc digit_char_props [OF tens] digit_char_props [of "n mod 10"])
  also have "\<dots> = n"
  proof -
    have "n div 100 = n div 10 div 10" "n mod 100 div 10 = n div 10 mod 10"
      using mod_mult2_eq [of n 10 10] by (simp_all add: div_mult2_eq [symmetric])
    then have "10 * (n div 100) + n mod 100 div 10 = n div 10" by simp
    then show ?thesis by simp
  qed
  finally show ?thesis
    using show_nat_digits [of "n div 100"] digit_char_props [OF tens] digit_char_props [of "n mod 10"]
    by (simp add: parse_digits_def)
qed

lemma parse_decimal_hundredths: "parse_decimal (show_hundredths n) = Some (of_nat n / 100)"
proof -
  obtain d ds where d: "show_nat (n div 100) = d # ds" "is_digit d"
    using show_nat_digits [of "n div 100"] by (cases "show_nat (n div 100)") auto
  have "CHR ''.'' \<notin> set (show_nat (n div 100))" "CHR ''.'' \<notin> set [digit_char (n mod 100 div 10), digit_char (n mod 10)]"
    using show_nat_digits [of "n div 100"] digit_char_props [of "n mod 100 div 10"] digit_char_props [of "n mod 10"]
    by (intro digits_no_dot; simp add: div_less_dividend less_mult_imp_div_less)+
  then have "split_on (CHR ''.'') (show_hundredths n) =
      [show_nat (n div 100), [digit_char (n mod 100 div 10), digit_char (n mod 10)]]"
    by (auto simp: show_hundredths_def split_on_append split_on_single)
  then have "parse_unsigned_decimal (show_hundredths n) = Some (of_nat n / 100)"
    using parse_digits_hundredths [of n] by (simp add: parse_unsigned_decimal_def power2_eq_square)
  moreover have "\<not> has_prefix (show_hundredths n) ''-''" "\<not> has_prefix (show_hundredths n) ''+''"
    using d by (auto simp: show_hundredths_def has_prefix_def is_digit_def)
  ultimately show ?thesis by (simp add: parse_decimal_def)
qed

lemma ParseFloat_hundredths:
  assumes "n < 2 ^ 64"
  shows "ParseFloat other (show_hundredths n) = Some (fl (of_nat n / 100))"
proof -
  have "1 \<le> (of_nat n / 100 :: rat) * 2 ^ 1022" if "n \<noteq> 0"
  proof -
    have "(1 :: rat) \<le> 1 / 100 * 2 ^ 1022" by simp
    also have "\<dots> \<le> of_nat n / 100 * 2 ^ 1022" using that by (intro mult_right_mono divide_right_mono) simp_all
    finally show ?thesis .
  qed
  moreover have "(of_nat n / 100 :: rat) < 2 ^ 1023"
  proof -
    have "(of_nat n :: rat) < of_nat (2 ^ 64)" using assms by (simp only: of_nat_less_iff)
    then show ?thesis by simp
  qed
  ultimately have "(of_nat n / 100 :: rat) = 0 \<or> 1 \<le> \<bar>of_nat n / 100 :: rat\<bar> * 2 ^ 1022 \<and> \<bar>of_nat n / 100 :: rat\<bar> < 2 ^ 1023"
    by (cases "n = 0") simp_all
  then show ?thesis unfolding ParseFloat_def parse_decimal_hundredths by (simp only: option.case if_True)
qed

text \<open>The load file as the kernel prints it.\<close>

definition show_loadavg :: "nat \<times> nat \<times> nat \<Rightarrow> nat \<times> nat \<times> nat \<Rightarrow> bytes" where
  "show_loadavg loads counts =
     (case (loads, counts) of ((l1, l5, l15), (running, procs, pid)) \<Rightarrow>
        words_line [show_hundredths l1, show_hundredths l5, show_hundredths l15,
          show_nat running @ ''/'' @ show_nat procs, show_nat pid])"

lemma show_hundredths_word: "word_ok (show_hundredths n)"
proof -
  have "plain_char (digit_char d)" if "d < 10" for d
    using digit_char_props [OF that] by (auto simp: plain_char_def is_digit_def is_ascii_space_def)
  then show ?thesis
    using show_nat_word [of "n div 100"]
    by (simp add: show_hundredths_def word_ok_def) (simp add: plain_char_def is_ascii_space_def)
qed

lemma collectLoadStats_roundtrip:
  assumes "fs (loadavgPath c) = Content (show_loadavg (l1, l5, l15) (running, procs, pid))"
    and "fs (uptimePath c) = Missing" "fs (loadStatPath c) = Missing"
    and "l1 < 2 ^ 64" "l5 < 2 ^ 64" "l15 < 2 ^ 64" "running < 2 ^ 31" "procs < 2 ^ 31" "pid < 2 ^ 31"
  shows "collectLoadStats other oor fs c = Inr \<lparr>Load1Min = fl (of_nat l1 / 100), Load5Min = fl (of_nat l5 / 100),
    Load15Min = fl (of_nat l15 / 100), RunningProcs = int running, TotalProcs = int procs, BlockedProcs = 0,
    LastPID = int pid, Uptime = 0\<rparr>"
proof -
  let ?words = "[show_hundredths l1, show_hundredths l5, show_hundredths l15, show_nat running @ ''/'' @ show_nat procs, show_nat pid]"
  have slash: "CHR ''/'' \<notin> set (show_nat n)" for n
    using show_nat_digits [of n] by (auto simp: list_all_iff is_digit_def)
  have "word_ok (show_nat running @ ''/'' @ show_nat procs)"
    using show_nat_word [of running] show_nat_word [of procs]
    by (simp add: word_ok_def) (simp add: plain_char_def is_ascii_space_def)
  then have "str_fields (show_loadavg (l1, l5, l15) (running, procs, pid)) = ?words"
    by (simp add: show_loadavg_def str_fields_words_line show_hundredths_word)
  moreover have "split_on (CHR ''/'') (show_nat running @ ''/'' @ show_nat procs) = [show_nat running, show_nat procs]"
    using slash by (simp add: split_on_append split_on_single)
  moreover have "parse_load other (show_hundredths n) = Inr (fl (of_nat n / 100))" if "n < 2 ^ 64" for n
    using ParseFloat_hundredths [OF that] by (simp add: parse_load_def)
  moreover have "parse_proc_count (show_nat n) = Inr (int n)" if "n < 2 ^ 31" for n
    using parse_int_show_nat [of n 32] that by (simp add: parse_proc_count_def)
  ultimately show ?thesis
    using assms by (simp add: collectLoadStats_def os_ReadFile_def Let_def collectBlockedProcs_def read_uptime_def scan_file_def)
qed

end
