(* ===== verification/GraphStore.thy ===== *)
theory GraphStore
  imports StoreHistory "HOL-Library.Countable"
begin

text \<open>
  How the graph builders (\<open>internal/hardware/graph\<close>, \<open>internal/containers/graph\<close>) use the
  resource store: a builder writes nodes with \<open>UpdateResource\<close> and hands lists of relationships to
  \<open>addRelationships\<close>, which asks the store for each whether one of that kind exists and adds the
  others in one call. What a builder writes does not depend on the store, so a builder is the list
  of its commands, run in order until one fails.

  The interface is the locale \<open>graph_store\<close>; the store of \<open>ResourceStore\<close> on a database and codec
  that keep their promises provides it (\<open>store_env\<close>).
\<close>

section \<open>Commands\<close>

record 's store_ops =
  so_update :: "resource \<Rightarrow> 's \<Rightarrow> (store_error, 's) result"
  so_related :: "resource_ref option \<Rightarrow> resource_ref option \<Rightarrow> bytes \<Rightarrow> 's \<Rightarrow> store_error option"
  so_relate :: "relationship list \<Rightarrow> 's \<Rightarrow> (store_error, 's) result"

datatype graph_error =
  StoreFailed store_error
| MessageNotFound bytes
| SpecNotMarshalled bytes
| NoCanonicalName
| NoCoreForPackage int

datatype graph_command = UpdateNode resource | AddRelations "relationship list" | GraphFail graph_error

definition rel_type_name :: "relationship \<Rightarrow> bytes" where
  "rel_type_name rel = get_or '''' td_type (rel_type rel)"

text \<open>The loop of \<open>addRelationships\<close>: the relationships the store does not have.\<close>

fun missing_relationships :: "(bytes \<Rightarrow> bool) \<Rightarrow> 's store_ops \<Rightarrow> 's \<Rightarrow> relationship list \<Rightarrow>
    (graph_error, relationship list) result" where
  "missing_relationships registered ops s [] = Inr []"
| "missing_relationships registered ops s (rel # rels) =
     (if \<not> registered (rel_type_name rel) then Inl (MessageNotFound (rel_type_name rel))
      else (case so_related ops (rel_subject rel) (rel_object rel) (rel_type_name rel) s of
              None \<Rightarrow> missing_relationships registered ops s rels
            | Some err \<Rightarrow>
                if err \<noteq> ErrRelationshipsNotFound then Inl (StoreFailed err)
                else result_bind (missing_relationships registered ops s rels) (\<lambda>more. Inr (rel # more))))"

definition graph_addRelationships :: "(bytes \<Rightarrow> bool) \<Rightarrow> 's store_ops \<Rightarrow> relationship list \<Rightarrow> 's \<Rightarrow>
    graph_error option \<times> 's" where
  "graph_addRelationships registered ops rels s =
     (case missing_relationships registered ops s rels of
        Inl err \<Rightarrow> (Some err, s)
      | Inr relsToAdd \<Rightarrow>
          if length relsToAdd > 0
          then (case so_relate ops relsToAdd s of Inl err \<Rightarrow> (Some (StoreFailed err), s) | Inr s' \<Rightarrow> (None, s'))
          else (None, s))"

definition run_command :: "(bytes \<Rightarrow> bool) \<Rightarrow> 's store_ops \<Rightarrow> graph_command \<Rightarrow> 's \<Rightarrow> graph_error option \<times> 's" where
  "run_command registered ops cmd s =
     (case cmd of
        UpdateNode r \<Rightarrow> (case so_update ops r s of Inl err \<Rightarrow> (Some (StoreFailed err), s) | Inr s' \<Rightarrow> (None, s'))
      | AddRelations rels \<Rightarrow>
          if length rels > 0 then graph_addRelationships registered ops rels s else (None, s)
      | GraphFail err \<Rightarrow> (Some err, s))"

fun run_commands :: "(bytes \<Rightarrow> bool) \<Rightarrow> 's store_ops \<Rightarrow> graph_command list \<Rightarrow> 's \<Rightarrow> graph_error option \<times> 's" where
  "run_commands registered ops [] s = (None, s)"
| "run_commands registered ops (cmd # cmds) s =
     (case run_command registered ops cmd s of
        (Some err, s') \<Rightarrow> (Some err, s')
      | (None, s') \<Rightarrow> run_commands registered ops cmds s')"

text \<open>\<open>anypb.New\<close>, and the metadata with no field set.\<close>

definition any_new :: "('m \<Rightarrow> bytes option) \<Rightarrow> ('m \<Rightarrow> bytes) \<Rightarrow> 'm \<Rightarrow> any_message option" where
  "any_new marshal name m =
     map_option (\<lambda>v. \<lparr>any_type_url = ''type.googleapis.com/'' @ name m, any_value = v\<rparr>) (marshal m)"

definition empty_meta :: resource_meta where
  "empty_meta = \<lparr>meta_id = [], meta_provider = 0, meta_provider_id = [], meta_account = None, meta_service = [],
     meta_name = [], meta_tags = [], meta_provider_group = [], meta_region = [], meta_zone = [],
     meta_created_at = None, meta_updated_at = None, meta_deleted_at = None, meta_namespace = None\<rparr>"

text \<open>What a list of commands writes.\<close>

definition planned_nodes :: "graph_command list \<Rightarrow> resource list" where
  "planned_nodes cmds = concat (map (\<lambda>c. case c of UpdateNode r \<Rightarrow> [r] | _ \<Rightarrow> []) cmds)"

definition planned_rels :: "graph_command list \<Rightarrow> relationship list" where
  "planned_rels cmds = concat (map (\<lambda>c. case c of AddRelations rels \<Rightarrow> rels | _ \<Rightarrow> []) cmds)"

definition never_fails :: "graph_command list \<Rightarrow> bool" where
  "never_fails cmds \<longleftrightarrow> list_all (\<lambda>c. case c of GraphFail _ \<Rightarrow> False | _ \<Rightarrow> True) cmds"

lemma planned_append [simp]:
  "planned_nodes (xs @ ys) = planned_nodes xs @ planned_nodes ys"
  "planned_rels (xs @ ys) = planned_rels xs @ planned_rels ys"
  "never_fails (xs @ ys) \<longleftrightarrow> never_fails xs \<and> never_fails ys"
  by (simp_all add: planned_nodes_def planned_rels_def never_fails_def)

lemma planned_simps [simp]:
  "planned_nodes [] = []" "planned_rels [] = []" "never_fails []"
  "planned_nodes (UpdateNode r # cs) = r # planned_nodes cs" "planned_rels (UpdateNode r # cs) = planned_rels cs"
  "planned_nodes (AddRelations rs # cs) = planned_nodes cs" "planned_rels (AddRelations rs # cs) = rs @ planned_rels cs"
  "planned_nodes (GraphFail e # cs) = planned_nodes cs" "planned_rels (GraphFail e # cs) = planned_rels cs"
  "never_fails (UpdateNode r # cs) = never_fails cs" "never_fails (AddRelations rs # cs) = never_fails cs"
  "\<not> never_fails (GraphFail e # cs)"
  by (simp_all add: planned_nodes_def planned_rels_def never_fails_def)

text \<open>Two relationships of the same kind between the same resources, as the store's query sees it.\<close>

definition same_relation :: "relationship \<Rightarrow> relationship \<Rightarrow> bool" where
  "same_relation a b \<longleftrightarrow> query_match (rel_subject a) (rel_object a) (Some (rel_type_name a)) b"

definition rel_formed :: "relationship \<Rightarrow> bool" where
  "rel_formed rel \<longleftrightarrow> rel_subject rel \<noteq> None \<and> rel_object rel \<noteq> None \<and> rel_subject rel \<noteq> rel_object rel \<and>
     rel_predicate rel \<noteq> None \<and> predicate_name rel = rel_type_name rel"

lemma same_relation_refl: "rel_formed a \<Longrightarrow> same_relation a a"
  by (simp add: same_relation_def query_match_def rel_formed_def)

lemma same_relation_cong:
  "rel_formed a \<Longrightarrow> same_relation a b \<Longrightarrow> rel_formed b \<Longrightarrow> same_relation b c \<Longrightarrow> same_relation a c"
  by (auto simp: same_relation_def query_match_def rel_formed_def)

definition plan_ok :: "(resource \<Rightarrow> bool) \<Rightarrow> (relationship \<Rightarrow> bool) \<Rightarrow> (bytes \<Rightarrow> bool) \<Rightarrow>
    graph_command list \<Rightarrow> bool" where
  "plan_ok storable addable registered cmds \<longleftrightarrow> never_fails cmds \<and>
     (\<forall>r \<in> set (planned_nodes cmds). storable r \<and> (\<exists>k. encodeResourceKey (Some (ref r)) = Inr k)) \<and>
     (\<forall>rel \<in> set (planned_rels cmds). addable rel \<and> rel_formed rel \<and> registered (rel_type_name rel))"

section \<open>The interface\<close>

locale graph_store =
  fixes ops :: "'s store_ops"
    and inv :: "'s \<Rightarrow> bool"
    and keys :: "'s \<Rightarrow> bytes set"
    and rels :: "'s \<Rightarrow> relationship set"
    and storable :: "resource \<Rightarrow> bool"
    and addable :: "relationship \<Rightarrow> bool"
  assumes update_ok: "inv s \<Longrightarrow> storable r \<Longrightarrow> encodeResourceKey (Some (ref r)) = Inr k \<Longrightarrow>
      \<exists>s'. so_update ops r s = Inr s' \<and> inv s' \<and> keys s' = insert k (keys s) \<and> rels s' = rels s"
    and related_ok: "inv s \<Longrightarrow> addable rel \<Longrightarrow> rel_formed rel \<Longrightarrow>
      so_related ops (rel_subject rel) (rel_object rel) (rel_type_name rel) s =
        (if \<exists>r \<in> rels s. same_relation rel r then None else Some ErrRelationshipsNotFound)"
    and relate_ok: "inv s \<Longrightarrow> \<forall>rel \<in> set rs. addable rel \<and> rel_formed rel \<Longrightarrow>
      \<exists>s'. so_relate ops rs s = Inr s' \<and> inv s' \<and> keys s' = keys s \<and> rels s' = rels s \<union> set rs"
begin

lemma missing_ok:
  assumes "inv s" "\<forall>rel \<in> set rs. addable rel \<and> rel_formed rel \<and> registered (rel_type_name rel)"
  shows "missing_relationships registered ops s rs =
    Inr (filter (\<lambda>rel. \<not> (\<exists>r \<in> rels s. same_relation rel r)) rs)"
  using assms(2) by (induction rs) (auto simp: related_ok [OF assms(1)])

text \<open>Added are the relationships that the store has none of the kind of.\<close>

lemma add_ok:
  assumes "inv s" "\<forall>rel \<in> set rs. addable rel \<and> rel_formed rel \<and> registered (rel_type_name rel)"
  shows "\<exists>s'. graph_addRelationships registered ops rs s = (None, s') \<and> inv s' \<and> keys s' = keys s \<and>
    rels s' = rels s \<union> {rel \<in> set rs. \<not> (\<exists>r \<in> rels s. same_relation rel r)}"
proof -
  let ?new = "filter (\<lambda>rel. \<not> (\<exists>r \<in> rels s. same_relation rel r)) rs"
  have missing: "missing_relationships registered ops s rs = Inr ?new" by (rule missing_ok [OF assms])
  have "\<forall>rel \<in> set ?new. addable rel \<and> rel_formed rel" using assms(2) by simp
  from relate_ok [OF assms(1) this] obtain s' where
    "so_relate ops ?new s = Inr s' \<and> inv s' \<and> keys s' = keys s \<and> rels s' = rels s \<union> set ?new" ..
  then show ?thesis using missing assms(1)
    by (cases "?new = []") (auto simp: graph_addRelationships_def filter_empty_conv)
qed

text \<open>A plan runs to its end: all its nodes are stored, nothing but its relationships is added,
  and each of them is in the store afterwards or one of the same kind is.\<close>

lemma run_ok:
  assumes "inv s" "plan_ok storable addable registered cmds"
  shows "\<exists>s'. run_commands registered ops cmds s = (None, s') \<and> inv s' \<and>
    keys s' = keys s \<union> {k. \<exists>r \<in> set (planned_nodes cmds). encodeResourceKey (Some (ref r)) = Inr k} \<and>
    rels s \<subseteq> rels s' \<and> rels s' \<subseteq> rels s \<union> set (planned_rels cmds) \<and>
    (\<forall>rel \<in> set (planned_rels cmds). \<exists>r \<in> rels s'. same_relation rel r)"
  using assms
proof (induction cmds arbitrary: s)
  case (Cons cmd cmds)
  have rest: "plan_ok storable addable registered cmds" using Cons.prems(2) by (cases cmd) (auto simp: plan_ok_def)
  show ?case
  proof (cases cmd)
    case (UpdateNode r)
    then obtain k where r: "storable r" "encodeResourceKey (Some (ref r)) = Inr k"
      using Cons.prems(2) by (auto simp: plan_ok_def)
    from update_ok [OF Cons.prems(1) r] obtain s1 where s1: "so_update ops r s = Inr s1" "inv s1"
      "keys s1 = insert k (keys s)" "rels s1 = rels s" by blast
    with Cons.IH [OF s1(2) rest] r(2) UpdateNode show ?thesis
      by (auto simp: run_command_def)
  next
    case (AddRelations rs)
    have rs: "\<forall>rel \<in> set rs. addable rel \<and> rel_formed rel \<and> registered (rel_type_name rel)"
      using Cons.prems(2) AddRelations by (auto simp: plan_ok_def)
    from add_ok [OF Cons.prems(1) this] obtain s1 where s1: "graph_addRelationships registered ops rs s = (None, s1)"
      "inv s1" "keys s1 = keys s" "rels s1 = rels s \<union> {rel \<in> set rs. \<not> (\<exists>r \<in> rels s. same_relation rel r)}"
      by blast
    have found: "\<forall>rel \<in> set rs. \<exists>r \<in> rels s1. same_relation rel r"
      using s1(4) rs same_relation_refl by fastforce
    have "\<exists>s2. run_command registered ops cmd s = (None, s2) \<and> inv s2 \<and> keys s2 = keys s \<and>
        rels s \<subseteq> rels s2 \<and> rels s2 \<subseteq> rels s \<union> set rs \<and> (\<forall>rel \<in> set rs. \<exists>r \<in> rels s2. same_relation rel r)"
      using s1 found Cons.prems(1) AddRelations by (cases "rs = []") (auto simp: run_command_def)
    then obtain s2 where s2: "run_command registered ops cmd s = (None, s2)" "inv s2" "keys s2 = keys s"
      "rels s \<subseteq> rels s2" "rels s2 \<subseteq> rels s \<union> set rs" "\<forall>rel \<in> set rs. \<exists>r \<in> rels s2. same_relation rel r" by blast
    from Cons.IH [OF s2(2) rest] obtain s3 where s3: "run_commands registered ops cmds s2 = (None, s3)" "inv s3"
      "keys s3 = keys s2 \<union> {k. \<exists>r \<in> set (planned_nodes cmds). encodeResourceKey (Some (ref r)) = Inr k}"
      "rels s2 \<subseteq> rels s3" "rels s3 \<subseteq> rels s2 \<union> set (planned_rels cmds)"
      "\<forall>rel \<in> set (planned_rels cmds). \<exists>r \<in> rels s3. same_relation rel r" by blast
    have "\<forall>rel \<in> set rs. \<exists>r \<in> rels s3. same_relation rel r" using s2(6) s3(4) by blast
    then show ?thesis using s2 s3 AddRelations by (intro exI [of _ s3]) auto
  next
    case (GraphFail e)
    then show ?thesis using Cons.prems(2) by (simp add: plan_ok_def)
  qed
qed simp

text \<open>Once every relationship of a plan has one of its kind in the store, the plan adds none.\<close>

lemma run_again:
  assumes "inv s" "plan_ok storable addable registered cmds" "\<forall>rel \<in> set (planned_rels cmds). \<exists>r \<in> rels s. same_relation rel r"
  shows "\<exists>s'. run_commands registered ops cmds s = (None, s') \<and> inv s' \<and> rels s' = rels s"
  using assms
proof (induction cmds arbitrary: s)
  case (Cons cmd cmds)
  have rest: "plan_ok storable addable registered cmds" using Cons.prems(2) by (cases cmd) (auto simp: plan_ok_def)
  show ?case
  proof (cases cmd)
    case (UpdateNode r)
    then obtain k where r: "storable r" "encodeResourceKey (Some (ref r)) = Inr k"
      using Cons.prems(2) by (auto simp: plan_ok_def)
    from update_ok [OF Cons.prems(1) r] obtain s1 where s1: "so_update ops r s = Inr s1" "inv s1"
      "rels s1 = rels s" by blast
    with Cons.IH [OF s1(2) rest] Cons.prems(3) UpdateNode show ?thesis by (auto simp: run_command_def)
  next
    case (AddRelations rs)
    have rs: "\<forall>rel \<in> set rs. addable rel \<and> rel_formed rel \<and> registered (rel_type_name rel)"
      using Cons.prems(2) AddRelations by (auto simp: plan_ok_def)
    have "missing_relationships registered ops s rs = Inr []"
      using missing_ok [OF Cons.prems(1) rs] Cons.prems(3) AddRelations by simp
    then have "run_command registered ops cmd s = (None, s)"
      using AddRelations by (simp add: run_command_def graph_addRelationships_def)
    with Cons.IH [OF Cons.prems(1) rest] Cons.prems(3) AddRelations show ?thesis by auto
  next
    case (GraphFail e)
    then show ?thesis using Cons.prems(2) by (simp add: plan_ok_def)
  qed
qed simp

text \<open>
  A plan whose relationships are between nodes it writes: the nodes are stored, no relationship is
  added with an end that is not stored, and running it again adds none.
\<close>

lemma graph_built:
  assumes "inv s" "plan_ok storable addable registered cmds"
    and ends: "\<forall>rel \<in> set (planned_rels cmds). \<forall>p \<in> {rel_subject rel, rel_object rel}.
      \<exists>r \<in> set (planned_nodes cmds). p = Some (ref r)"
  shows "\<exists>s'. run_commands registered ops cmds s = (None, s') \<and> inv s' \<and>
    (\<forall>a \<in> ref ` set (planned_nodes cmds). \<exists>k \<in> keys s'. encodeResourceKey (Some a) = Inr k) \<and>
    (\<forall>rel \<in> rels s' - rels s. \<forall>p \<in> {rel_subject rel, rel_object rel}. \<exists>k \<in> keys s'. encodeResourceKey p = Inr k) \<and>
    (\<forall>rel \<in> set (planned_rels cmds). \<exists>r \<in> rels s'. same_relation rel r) \<and>
    (\<exists>s''. run_commands registered ops cmds s' = (None, s'') \<and> inv s'' \<and> rels s'' = rels s')"
proof -
  from run_ok [OF assms(1,2)] obtain s' where s': "run_commands registered ops cmds s = (None, s')" "inv s'"
    "keys s' = keys s \<union> {k. \<exists>r \<in> set (planned_nodes cmds). encodeResourceKey (Some (ref r)) = Inr k}"
    "rels s' \<subseteq> rels s \<union> set (planned_rels cmds)" "\<forall>rel \<in> set (planned_rels cmds). \<exists>r \<in> rels s'. same_relation rel r"
    by blast
  have nodes: "\<exists>k \<in> keys s'. encodeResourceKey (Some (ref r)) = Inr k" if "r \<in> set (planned_nodes cmds)" for r
    using that assms(2) unfolding s'(3) plan_ok_def by blast
  have new: "\<exists>k \<in> keys s'. encodeResourceKey p = Inr k"
    if "rel \<in> rels s' - rels s" "p \<in> {rel_subject rel, rel_object rel}" for rel p
  proof -
    have "rel \<in> set (planned_rels cmds)" using that(1) s'(4) by blast
    from bspec [OF bspec [OF ends this] that(2)] obtain r where "r \<in> set (planned_nodes cmds)" "p = Some (ref r)" by blast
    then show ?thesis using nodes by simp
  qed
  from run_again [OF s'(2) assms(2) s'(5)] s' nodes new show ?thesis by (intro exI [of _ s']) auto
qed

end

section \<open>The resource store provides it\<close>

text \<open>
  The state is the store and the number of updates so far; \<open>clock\<close> is the time the n-th update
  reads.
\<close>

definition resource_store_ops :: "('t, 'i) kv \<Rightarrow> codec \<Rightarrow> (bytes list \<Rightarrow> bytes list) \<Rightarrow> (nat \<Rightarrow> timestamp) \<Rightarrow>
    (nat \<times> 't store) store_ops" where
  "resource_store_ops kv env arrange clock =
     \<lparr>so_update = (\<lambda>r (n, s). result_bind (UpdateResource kv env (clock n) r s) (\<lambda>(_, s'). Inr (Suc n, s'))),
      so_related = (\<lambda>a b p (n, s). snd (GetRelationships kv env arrange a b (Some p) s)),
      so_relate = (\<lambda>rels (n, s). result_bind (AddRelationships kv env rels s) (\<lambda>s'. Inr (n, s')))\<rparr>"

definition graph_inv :: "('t, 'i) kv \<Rightarrow> codec \<Rightarrow> bytes set \<Rightarrow> nat \<times> 't store \<Rightarrow> bool" where
  "graph_inv kv env U x \<longleftrightarrow> \<not> st_closed (snd x) \<and> rels_inv kv env U (st_db (snd x)) \<and>
     (\<forall>k w. kv_map kv (st_db (snd x)) (rsrc_key k) = Some w \<longrightarrow> unmarshal_resource env w \<noteq> None)"

definition stored_keys :: "('t, 'i) kv \<Rightarrow> nat \<times> 't store \<Rightarrow> bytes set" where
  "stored_keys kv x = {k. kv_map kv (st_db (snd x)) (rsrc_key k) \<noteq> None}"

definition stored_rels :: "('t, 'i) kv \<Rightarrow> codec \<Rightarrow> nat \<times> 't store \<Rightarrow> relationship set" where
  "stored_rels kv env x = {rel. \<exists>h. rel_stored kv env (st_db (snd x)) h rel}"

locale store_env =
  fixes kv :: "('t, 'i) kv" and env :: codec and U :: "bytes set"
    and arrange :: "bytes list \<Rightarrow> bytes list" and clock :: "nat \<Rightarrow> timestamp"
  assumes laws: "kv_laws kv" and codec: "codec_roundtrip env" and sha: "sha_ok env U"
    and arranges: "permutes arrange" and total: "\<And>r. marshal_resource env r \<noteq> None"
begin

lemma store_written:
  assumes "graph_inv kv env U x" "rsrc_metadata r \<noteq> None" "encodeResourceKey (Some (ref r)) = Inr k"
  shows "\<exists>y v created. so_update (resource_store_ops kv env arrange clock) r x = Inr y \<and> st_closed (snd y) = st_closed (snd x) \<and>
    kv_map kv (st_db (snd y)) = (kv_map kv (st_db (snd x)))(rsrc_key k \<mapsto> v) \<and>
    unmarshal_resource env v = Some (stamped created (clock (fst x)) r)"
proof -
  obtain n s where x: "x = (n, s)" by (cases x)
  have s: "\<not> st_closed s" "\<And>k w. kv_map kv (st_db s) (rsrc_key k) = Some w \<Longrightarrow> unmarshal_resource env w \<noteq> None"
    using assms(1) by (auto simp: graph_inv_def x)
  define created where "created = (case kv_map kv (st_db s) (rsrc_key k) of
      None \<Rightarrow> Some (clock n)
    | Some w \<Rightarrow> get_or None meta_created_at (rsrc_metadata (the (unmarshal_resource env w))))"
  obtain v where v: "marshal_resource env (stamped created (clock n) r) = Some v" using total by blast
  obtain db where db: "UpdateResource kv env (clock n) r s = Inr (stamped created (clock n) r,
      emit (resource_event EventTypeUpdate (rsrc_type r) resourceTypeUrl v) (s\<lparr>st_db := db\<rparr>))"
    "kv_map kv db = (kv_map kv (st_db s))(rsrc_key k \<mapsto> v)"
    using UpdateResource_spec [OF laws s(1) assms(3) created_def _ assms(2) v] s(2) by blast
  then show ?thesis using codec_roundtripD(1) [OF codec v] by (auto simp: resource_store_ops_def x)
qed

lemma store_update:
  assumes "graph_inv kv env U x" "rsrc_metadata r \<noteq> None" "encodeResourceKey (Some (ref r)) = Inr k"
  shows "\<exists>y. so_update (resource_store_ops kv env arrange clock) r x = Inr y \<and> graph_inv kv env U y \<and>
    stored_keys kv y = insert k (stored_keys kv x) \<and> stored_rels kv env y = stored_rels kv env x"
proof -
  from store_written [OF assms] obtain y v created where
    y: "so_update (resource_store_ops kv env arrange clock) r x = Inr y" "st_closed (snd y) = st_closed (snd x)"
      "kv_map kv (st_db (snd y)) = (kv_map kv (st_db (snd x)))(rsrc_key k \<mapsto> v)"
      "unmarshal_resource env v = Some (stamped created (clock (fst x)) r)" by blast
  note frame = rels_inv_resource [OF y(3)]
  have "graph_inv kv env U y" using assms(1) frame(1) y(2-4) by (auto simp: graph_inv_def store_keys)
  moreover have "stored_keys kv y = insert k (stored_keys kv x)" by (auto simp: stored_keys_def y(3) store_keys)
  moreover have "stored_rels kv env y = stored_rels kv env x" by (simp add: stored_rels_def frame(2))
  ultimately show ?thesis using y(1) by blast
qed

lemma store_related:
  assumes "graph_inv kv env U x" "writable env U rel" "rel_formed rel"
  shows "so_related (resource_store_ops kv env arrange clock) (rel_subject rel) (rel_object rel) (rel_type_name rel) x =
    (if \<exists>r \<in> stored_rels kv env x. same_relation rel r then None else Some ErrRelationshipsNotFound)"
proof -
  obtain n s where x: "x = (n, s)" by (cases x)
  have s: "\<not> st_closed s" "rels_inv kv env U (st_db s)" using assms(1) by (auto simp: graph_inv_def x)
  obtain ks ko where "encodeResourceKey (rel_subject rel) = Inr ks" "encodeResourceKey (rel_object rel) = Inr ko"
    using assms(2) by (auto simp: writable_def)
  then obtain ixs where ixs: "lookup_indexes (rel_subject rel) (rel_object rel) (Some (rel_type_name rel)) = Inr ixs" "ixs \<noteq> []"
    using assms(3) by (auto simp: lookup_indexes_def rel_formed_def split: option.splits)
  have "\<not> lists_deleted kv (st_db s) ixs"
    using lists_deleted_endpoints [OF s(2)] ixs(1) assms(3) by (auto simp: rel_formed_def)
  with GetRelationships_query [OF laws arranges s(2,1) ixs refl] show ?thesis
    by (auto simp: resource_store_ops_def x stored_rels_def same_relation_def split: if_splits)
qed

lemma store_relate_frame:
  assumes "graph_inv kv env U x" "\<forall>rel \<in> set rs. writable env U rel \<and> rel_formed rel"
  shows "\<exists>y. so_relate (resource_store_ops kv env arrange clock) rs x = Inr y \<and> graph_inv kv env U y \<and>
    (\<forall>k. kv_map kv (st_db (snd y)) (rsrc_key k) = kv_map kv (st_db (snd x)) (rsrc_key k)) \<and>
    stored_rels kv env y = stored_rels kv env x \<union> set rs"
proof -
  obtain n s where x: "x = (n, s)" by (cases x)
  have s: "\<not> st_closed s" "rels_inv kv env U (st_db s)"
    "\<And>k w. kv_map kv (st_db s) (rsrc_key k) = Some w \<Longrightarrow> unmarshal_resource env w \<noteq> None"
    using assms(1) by (auto simp: graph_inv_def x)
  have check: "check_relationships rs = None"
    using assms(2) by (induction rs) (auto simp: rel_formed_def)
  obtain db where db: "AddRelationships kv env rs s =
      Inr (emit_each (map (\<lambda>rel. relationship_object rel (the (marshal_relationship env rel))) rs) (s\<lparr>st_db := db\<rparr>))"
    "rels_inv kv env U db"
    "\<And>h rel'. rel_stored kv env db h rel' \<longleftrightarrow> rel_stored kv env (st_db s) h rel' \<or>
       (rel' \<in> set rs \<and> h = sha256 env (the (marshal_relationship env rel')))"
    "\<And>k. kv_map kv db (rsrc_key k) = kv_map kv (st_db s) (rsrc_key k)"
    using AddRelationships_spec [OF laws codec sha s(1) check s(2)] assms(2) by blast
  have "graph_inv kv env U (n, emit_each es (s\<lparr>st_db := db\<rparr>))" for es
    using s db by (auto simp: graph_inv_def)
  moreover have "stored_rels kv env (n, emit_each es (s\<lparr>st_db := db\<rparr>)) = stored_rels kv env x \<union> set rs" for es
    by (auto simp: stored_rels_def x db(3))
  ultimately show ?thesis by (simp add: resource_store_ops_def x db(1,4))
qed

lemma store_relate:
  assumes "graph_inv kv env U x" "\<forall>rel \<in> set rs. writable env U rel \<and> rel_formed rel"
  shows "\<exists>y. so_relate (resource_store_ops kv env arrange clock) rs x = Inr y \<and> graph_inv kv env U y \<and>
    stored_keys kv y = stored_keys kv x \<and> stored_rels kv env y = stored_rels kv env x \<union> set rs"
  using store_relate_frame [OF assms] by (auto simp: stored_keys_def)

end

sublocale store_env \<subseteq> graph_store "resource_store_ops kv env arrange clock" "graph_inv kv env U" "stored_keys kv"
    "stored_rels kv env" "\<lambda>r. rsrc_metadata r \<noteq> None" "writable env U"
  by unfold_locales (rule store_update store_related store_relate, assumption+)+


context store_env
begin

lemmas store_graph_built = graph_built and store_graph_run = run_ok

end

section \<open>A database in memory\<close>

text \<open>
  Messages are countable, so a codec that encodes every one of them exists: the wire form of a
  message is a number in unary. With it the store on the database in memory provides the interface,
  for any set of encoded relationships on which the hash has no collision.
\<close>

instance provider_account_ext :: (countable) countable
  by (rule countable_classI [of "\<lambda>r. to_nat (AccountId r, AccountName r, provider_account.more r)"]) simp

instance cloud_namespace_ext :: (countable) countable
  by (rule countable_classI [of "\<lambda>r. to_nat (ns_account r, ns_region r, ns_group r, cloud_namespace.more r)"]) simp

instance kubernetes_namespace_ext :: (countable) countable
  by (rule countable_classI [of "\<lambda>r. to_nat (kube_cluster r, kube_namespace r, kubernetes_namespace.more r)"]) simp

instance host_namespace_ext :: (countable) countable
  by (rule countable_classI [of "\<lambda>r. to_nat (host_name r, host_container r, host_namespace.more r)"]) simp

instance namespace :: countable
  by countable_datatype

instance resource_ref_ext :: (countable) countable
  by (rule countable_classI [of "\<lambda>r. to_nat (ref_type_url r, ref_name r, ref_namespace r, resource_ref.more r)"]) simp

instance type_descriptor_ext :: (countable) countable
  by (rule countable_classI [of "\<lambda>r. to_nat (td_kind r, td_type r, type_descriptor.more r)"]) simp

instance tag_ext :: (countable) countable
  by (rule countable_classI [of "\<lambda>r. to_nat (tag_key r, tag_value r, tag.more r)"]) simp

instance resource_meta_ext :: (countable) countable
  by (rule countable_classI [of "\<lambda>r. to_nat ((meta_id r, meta_provider r, meta_provider_id r, meta_account r, meta_service r),
      (meta_name r, meta_tags r, meta_provider_group r, meta_region r, meta_zone r),
      (meta_created_at r, meta_updated_at r, meta_deleted_at r, meta_namespace r, resource_meta.more r))"]) simp

instance any_message_ext :: (countable) countable
  by (rule countable_classI [of "\<lambda>r. to_nat (any_type_url r, any_value r, any_message.more r)"]) simp

instance resource_ext :: (countable) countable
  by (rule countable_classI [of "\<lambda>r. to_nat (rsrc_type r, rsrc_metadata r, rsrc_spec r, resource.more r)"]) simp

instance relationship_ext :: (countable) countable
  by (rule countable_classI [of "\<lambda>r. to_nat ((rel_type r, rel_id r, rel_subject r, rel_object r, rel_predicate r),
      (rel_created_at r, rel_updated_at r, rel_deleted_at r, relationship.more r))"]) simp

definition unary_codec :: "(bytes \<Rightarrow> bytes) \<Rightarrow> codec" where
  "unary_codec hash =
     \<lparr>marshal_resource = (\<lambda>r. Some (replicate (to_nat r) (CHR ''1''))),
      unmarshal_resource = (\<lambda>v. Some (from_nat (length v))),
      marshal_relationship = (\<lambda>r. Some (replicate (to_nat r) (CHR ''1''))),
      unmarshal_relationship = (\<lambda>v. Some (from_nat (length v))),
      sha256 = hash\<rparr>"

lemma unary_codec_ok: "codec_roundtrip (unary_codec hash)" "marshal_resource (unary_codec hash) r \<noteq> None"
  by (auto simp: codec_roundtrip_def unary_codec_def)

lemma unary_store_env:
  assumes "inj_on hash U" "\<And>v. length (hash v) = 32"
  shows "store_env mem_kv (unary_codec hash) U id"
  using assms unary_codec_ok
  by unfold_locales (auto simp: mem_kv_laws sha_ok_def permutes_def objKeySize_def, simp_all add: unary_codec_def)

text \<open>The hash that pads: no collision among the first encoded relationships.\<close>

definition pad_hash :: "bytes \<Rightarrow> bytes" where
  "pad_hash v = take 32 (v @ replicate 32 (CHR ''x''))"

definition short_values :: "bytes set" where
  "short_values = (\<lambda>n. replicate n (CHR ''1'')) ` {..32}"

lemma pad_hash_inj: "inj_on pad_hash short_values"
proof (rule inj_onI)
  fix v w assume vw: "v \<in> short_values" "w \<in> short_values" "pad_hash v = pad_hash w"
  have ones: "length (filter (\<lambda>c. c = CHR ''1'') (pad_hash v)) = length v" if v: "v \<in> short_values" for v
  proof -
    obtain n where n: "v = replicate n (CHR ''1'')" "n \<le> 32" using v unfolding short_values_def image_iff atMost_iff Bex_def by blast
    have none: "filter (\<lambda>c. c = CHR ''1'') (replicate m (CHR ''x'')) = []" for m by (simp add: filter_empty_conv)
    have "filter (\<lambda>c. c = CHR ''1'') (replicate n (CHR ''1'')) = replicate n (CHR ''1'')" for n
      by (rule filter_True) simp
    moreover have "pad_hash v = replicate n (CHR ''1'') @ replicate (32 - n) (CHR ''x'')"
      unfolding pad_hash_def n(1) take_append using n(2) by (simp only: length_replicate take_replicate min_absorb2 min.absorb1 diff_le_self)
    ultimately show ?thesis by (simp only: n(1) filter_append none length_append length_replicate list.size add_0_right)
  qed
  from vw ones [OF vw(1)] ones [OF vw(2)] show "v = w"
    unfolding short_values_def by (elim imageE) (simp only: length_replicate)
qed

interpretation unary: store_env mem_kv "unary_codec pad_hash" short_values id "\<lambda>n. int n"
  by (rule unary_store_env [OF pad_hash_inj]) (simp add: pad_hash_def)

text \<open>An empty store, and hashes without collisions for a few relationships.\<close>

definition no_graph :: "nat \<times> (bytes \<times> bytes) list store" where
  "no_graph = (0, \<lparr>st_closed = False, st_db = [], st_subscribers = []\<rparr>)"

lemma no_graph_inv: "graph_inv mem_kv env U no_graph"
  using empty_rels_inv [of mem_kv "[]" env U] by (simp add: graph_inv_def no_graph_def mem_kv_map fun_eq_iff)

text \<open>A hash for a few values: the position in the list, 32 times.\<close>

definition list_hash :: "bytes list \<Rightarrow> bytes \<Rightarrow> bytes" where
  "list_hash vs v = replicate 32 (byte (length (takeWhile (\<lambda>w. w \<noteq> v) vs)))"

lemma list_hash_ok:
  assumes "length vs \<le> 256"
  shows "sha_ok (unary_codec (list_hash vs)) (set vs)"
proof -
  have at: "vs ! length (takeWhile (\<lambda>w. w \<noteq> v) vs) = v" "length (takeWhile (\<lambda>w. w \<noteq> v) vs) < length vs" if "v \<in> set vs" for v
    using that by (induction vs) auto
  have "inj_on (list_hash vs) (set vs)"
  proof (rule inj_onI)
    fix v w assume vw: "v \<in> set vs" "w \<in> set vs" "list_hash vs v = list_hash vs w"
    let ?n = "\<lambda>v. length (takeWhile (\<lambda>w. w \<noteq> v) vs)"
    have "byte (?n v) = byte (?n w)" using vw(3) by (simp add: list_hash_def)
    then have "ord (byte (?n v)) = ord (byte (?n w))" by simp
    moreover have "?n v < 256" "?n w < 256" using at(2) [OF vw(1)] at(2) [OF vw(2)] assms by simp_all
    ultimately have "?n v = ?n w" by (simp add: byte_def)
    then show "v = w" using at(1) [OF vw(1)] at(1) [OF vw(2)] by metis
  qed
  then show ?thesis by (simp add: sha_ok_def unary_codec_def list_hash_def objKeySize_def)
qed

definition unary_wire :: "relationship \<Rightarrow> bytes" where
  "unary_wire rel = replicate (to_nat rel) (CHR ''1'')"

lemma unary_wire_ok:
  assumes "length rels \<le> 256"
  shows "sha_ok (unary_codec (list_hash (map unary_wire rels))) (set (map unary_wire rels))"
    "\<forall>rel \<in> set rels. \<exists>v \<in> set (map unary_wire rels). marshal_relationship (unary_codec hash) rel = Some v"
  using list_hash_ok [of "map unary_wire rels"] assms by (simp_all add: unary_codec_def unary_wire_def)

end
