(* ===== verification/HostIdentity.thy ===== *)
theory HostIdentity
  imports HostFiles PerfManager
begin

text \<open>
  Names of the host, \<open>pkg/host/host.go\<close> and \<open>pkg/host/host_linux.go\<close>. Files are an argument, as
  are the answers of the resolver and of the cloud provider. An index out of range panics and is
  \<open>None\<close>.
\<close>

section \<open>Files\<close>

record machine_information =
  PrettyHostname :: bytes
  IconName :: bytes
  Chassis :: bytes
  Deployment :: bytes
  Location :: bytes
  HardwareVendor :: bytes
  HardwareModel :: bytes
  HardwareSKU :: bytes
  HardwareVersion :: bytes

definition trim_quotes :: "bytes \<Rightarrow> bytes" where
  "trim_quotes s =
     rev (dropWhile (\<lambda>c. c = CHR 0x22) (rev (dropWhile (\<lambda>c. c = CHR 0x22) s)))"

text \<open>The first read, of at most 512 bytes; reading at the end of the file is an error.\<close>

definition hostname :: "host_fs \<Rightarrow> host_paths \<Rightarrow> bytes option" where
  "hostname fs paths =
     (case os_ReadFile (fs (filepath_Join [hp_proc paths, ''sys/kernel/hostname''])) of
        None \<Rightarrow> None
      | Some content \<Rightarrow>
          (let buf = take 512 content in
           if buf = [] then None
           else Some (if last buf = CHR 0x0A then butlast buf else buf)))"

definition nonempty_file :: "host_fs \<Rightarrow> bytes \<Rightarrow> bytes option" where
  "nonempty_file fs path =
     (case os_ReadFile (fs path) of
        None \<Rightarrow> None
      | Some content \<Rightarrow> if trim_space content \<noteq> [] then Some (trim_space content) else None)"

definition machineID :: "host_fs \<Rightarrow> host_paths \<Rightarrow> bytes option" where
  "machineID fs paths =
     (case nonempty_file fs (filepath_Join [hp_etc paths, ''machine-id'']) of
        Some i \<Rightarrow> Some i
      | None \<Rightarrow> nonempty_file fs (filepath_Join [hp_var paths, ''lib/dbus/machine-id'']))"

definition systemUUID :: "host_fs \<Rightarrow> host_paths \<Rightarrow> bytes option" where
  "systemUUID fs paths = nonempty_file fs (filepath_Join [hp_sys paths, ''class/dmi/id/product_uuid''])"

definition machine_info_line :: "bytes \<Rightarrow> machine_information \<Rightarrow> machine_information" where
  "machine_info_line raw info =
     (let line = trim_space raw in
      if line = [] \<or> has_prefix line ''#'' then info
      else (case split_on (CHR ''='') line of
              k # v # vs \<Rightarrow>
                (let key = trim_space k;
                     val = trim_quotes (trim_space (join_with (CHR ''='') (v # vs)))
                 in if key = ''PRETTY_HOSTNAME'' then info\<lparr>PrettyHostname := val\<rparr>
                    else if key = ''ICON_NAME'' then info\<lparr>IconName := val\<rparr>
                    else if key = ''CHASSIS'' then info\<lparr>Chassis := val\<rparr>
                    else if key = ''DEPLOYMENT'' then info\<lparr>Deployment := val\<rparr>
                    else if key = ''LOCATION'' then info\<lparr>Location := val\<rparr>
                    else if key = ''HARDWARE_VENDOR'' then info\<lparr>HardwareVendor := val\<rparr>
                    else if key = ''HARDWARE_MODEL'' then info\<lparr>HardwareModel := val\<rparr>
                    else if key = ''HARDWARE_SKU'' then info\<lparr>HardwareSKU := val\<rparr>
                    else if key = ''HARDWARE_VERSION'' then info\<lparr>HardwareVersion := val\<rparr>
                    else info)
            | _ \<Rightarrow> info))"

definition machineInfo :: "host_fs \<Rightarrow> host_paths \<Rightarrow> machine_information option" where
  "machineInfo fs paths =
     (case os_ReadFile (fs (filepath_Join [hp_etc paths, ''machine-info''])) of
        None \<Rightarrow> None
      | Some content \<Rightarrow> Some (fold machine_info_line (split_on (CHR 0x0A) content)
          \<lparr>PrettyHostname = [], IconName = [], Chassis = [], Deployment = [], Location = [],
           HardwareVendor = [], HardwareModel = [], HardwareSKU = [], HardwareVersion = []\<rparr>))"

section \<open>Names\<close>

definition createHostNameFromMachineInfo :: "machine_information \<Rightarrow> bytes" where
  "createHostNameFromMachineInfo info =
     (if Location info \<noteq> [] \<and> Deployment info \<noteq> [] \<and> PrettyHostname info \<noteq> []
      then Location info @ ''-'' @ Deployment info @ ''-'' @ PrettyHostname info
      else if Deployment info \<noteq> [] \<and> PrettyHostname info \<noteq> []
      then Deployment info @ ''-'' @ PrettyHostname info
      else PrettyHostname info)"

text \<open>The resolver: a value and whether there was no error.\<close>

record resolver =
  LookupCNAME :: "bytes \<Rightarrow> bytes \<times> bool"
  LookupIP :: "bytes \<Rightarrow> bytes list option"
  LookupAddr :: "bytes \<Rightarrow> bytes list \<times> bool"

text \<open>The loop over the addresses: the name found, and whether the last lookup had no error.\<close>

fun reverse_lookup :: "resolver \<Rightarrow> bytes list \<Rightarrow> (bytes \<times> bool) option" where
  "reverse_lookup net [] = Some ([], True)"
| "reverse_lookup net (addr # addrs) =
     (case LookupAddr net addr of
        (hosts, ok) \<Rightarrow>
          if ok \<or> length hosts > 0
          then (case hosts of [] \<Rightarrow> None | h # _ \<Rightarrow> Some (h, ok))
          else if addrs = [] then Some ([], False)
          else reverse_lookup net addrs)"

definition FQDN :: "host_fs \<Rightarrow> host_paths \<Rightarrow> resolver \<Rightarrow> (unit, bytes) result option" where
  "FQDN fs paths net =
     (case hostname fs paths of
        None \<Rightarrow> Some (Inl ())
      | Some h \<Rightarrow>
          (case LookupCNAME net h of
             (fqdn, ok) \<Rightarrow>
               if ok \<or> length fqdn > 0 then Some (Inr (trim_suffix fqdn ''.''))
               else (case LookupIP net h of
                       None \<Rightarrow> Some (Inl ())
                     | Some addrs \<Rightarrow>
                         (case reverse_lookup net addrs of
                            None \<Rightarrow> None
                          | Some (name, True) \<Rightarrow> Some (Inr (if addrs = [] then fqdn else name))
                          | Some (_, False) \<Rightarrow> Some (Inl ())))))"

text \<open>The first of the sources that gives a name that is not empty.\<close>

definition CanonicalName :: "host_fs \<Rightarrow> host_paths \<Rightarrow> resolver \<Rightarrow> bytes option \<Rightarrow> (unit, bytes) result option" where
  "CanonicalName fs paths net cloudID =
     (let pretty = (case machineInfo fs paths of None \<Rightarrow> [] | Some info \<Rightarrow> createHostNameFromMachineInfo info) in
      if pretty \<noteq> [] then Some (Inr pretty)
      else if get_or [] id cloudID \<noteq> [] then Some (Inr (the cloudID))
      else (case FQDN fs paths net of
              None \<Rightarrow> None
            | Some fqdn \<Rightarrow>
                (case fqdn of
                   Inr name \<Rightarrow>
                     if name \<noteq> [] then Some (Inr name)
                     else Some (of_option () (machineID fs paths))
                 | Inl _ \<Rightarrow> Some (of_option () (machineID fs paths)))))"

text \<open>A name that is found is not empty.\<close>

lemma nonempty_file_nonempty: "nonempty_file fs path = Some i \<Longrightarrow> i \<noteq> []"
  by (auto simp: nonempty_file_def split: option.splits if_splits)

lemma CanonicalName_nonempty:
  assumes "CanonicalName fs paths net cloudID = Some (Inr name)"
  shows "name \<noteq> []"
  using assms
  by (cases cloudID) (auto simp: CanonicalName_def Let_def machineID_def of_option_def nonempty_file_nonempty
      split: option.splits if_splits sum.splits)

text \<open>With a name of the cloud provider and no machine info, the resolver is not asked.\<close>

lemma CanonicalName_cloud:
  "machineInfo fs paths = None \<Longrightarrow> i \<noteq> [] \<Longrightarrow> CanonicalName fs paths net (Some i) = Some (Inr i)"
  by (simp add: CanonicalName_def)

end
