(* ===== verification/HardwareInfo.thy ===== *)
theory HardwareInfo
  imports NumaLoadCollectors HostParsers
begin

text \<open>
  The collectors of hardware information, \<open>pkg/performance/collectors/cpu_info.go\<close>, \<open>memory_info.go\<close>,
  \<open>disk_info.go\<close> and \<open>network_info.go\<close>: what they read below \<open>/proc\<close> and \<open>/sys\<close> and the information they
  make of it. The file tree of the host is an argument: its files, the entries of its directories in
  order of their names with whether they are directories, what \<open>os.Stat\<close> says of a path, and links.
\<close>

section \<open>Hardware information\<close>

record cpu_core =
  Processor :: int
  CoreID :: int
  PhysicalID :: int
  Siblings :: int
  CPUMHz :: rat

record cpu_info =
  PhysicalCores :: int
  LogicalCores :: int
  ModelName :: bytes
  VendorID :: bytes
  CPUFamily :: int
  cpu_Model :: int
  Stepping :: int
  Microcode :: bytes
  ci_CPUMHz :: rat
  CPUMinMHz :: rat
  CPUMaxMHz :: rat
  CacheSize :: bytes
  CacheAlignment :: int
  Flags :: "bytes list"
  ci_NUMANodes :: int
  BogoMIPS :: rat
  Cores :: "cpu_core list"

record numa_info =
  NodeID :: int
  numa_TotalBytes :: uint64
  CPUs :: "int list"
  Distances :: "int list"

record memory_info =
  TotalBytes :: uint64
  NUMAEnabled :: bool
  NUMABalancingAvailable :: bool
  NUMANodes :: "numa_info list"

record partition_info =
  part_Name :: bytes
  part_SizeBytes :: uint64
  StartSector :: uint64

record disk_info =
  di_Device :: bytes
  di_Model :: bytes
  Vendor :: bytes
  SizeBytes :: uint64
  BlockSize :: "32 word"
  Rotational :: bool
  QueueDepth :: "32 word"
  Scheduler :: bytes
  PhysicalBlockSize :: "32 word"
  Partitions :: "partition_info list"

record network_info =
  ni_Interface :: bytes
  Driver :: bytes
  MACAddress :: bytes
  ni_Speed :: uint64
  ni_Duplex :: bytes
  MTU :: "32 word"
  ni_Type :: bytes
  ni_OperState :: bytes
  Carrier :: bool

record sys_fs =
  sf_file :: host_fs
  sf_dir :: "bytes \<Rightarrow> (bytes \<times> bool) list option"
  sf_stat :: "bytes \<Rightarrow> bool option"
  sf_link :: "bytes \<Rightarrow> bytes option"

text \<open>\<open>filepath.Glob\<close> with a pattern of a name, a digit and a star; errors of the directory are ignored.\<close>

definition numbered_name :: "bytes \<Rightarrow> bytes \<Rightarrow> bool" where
  "numbered_name pre n \<longleftrightarrow> has_prefix n pre \<and> (case drop (length pre) n of c # _ \<Rightarrow> is_digit c | [] \<Rightarrow> False)"

definition glob_numbered :: "sys_fs \<Rightarrow> bytes \<Rightarrow> bytes \<Rightarrow> bytes list" where
  "glob_numbered fs dir pre =
     (case sf_dir fs dir of
        None \<Rightarrow> []
      | Some entries \<Rightarrow> map (\<lambda>n. filepath_Join [dir, n]) (filter (numbered_name pre) (map fst entries)))"

definition filepath_Base :: "bytes \<Rightarrow> bytes" where
  "filepath_Base path =
     (if path = [] then ''.''
      else (let p = rev (dropWhile (\<lambda>c. c = CHR ''/'') (rev path)) in
            if p = [] then ''/'' else rev (takeWhile (\<lambda>c. c \<noteq> CHR ''/'') (rev p))))"

text \<open>A number in a file: kept when the file is missing or does not hold one.\<close>

definition uint_in :: "nat \<Rightarrow> sys_fs \<Rightarrow> bytes \<Rightarrow> nat option" where
  "uint_in width fs path = Option.bind (read_trimmed (sf_file fs) path) (parse_uint width)"

definition uint32_or_zero :: "sys_fs \<Rightarrow> bytes \<Rightarrow> 32 word" where
  "uint32_or_zero fs path = (case uint_in 32 fs path of None \<Rightarrow> 0 | Some n \<Rightarrow> of_nat n)"

definition text_or_empty :: "sys_fs \<Rightarrow> bytes \<Rightarrow> bytes" where
  "text_or_empty fs path = (case read_trimmed (sf_file fs) path of None \<Rightarrow> [] | Some t \<Rightarrow> t)"

section \<open>Processors\<close>

record cpu_info_collector =
  ci_cpuinfoPath :: bytes
  ci_cpufreqPath :: bytes
  ci_nodeSystemPath :: bytes

definition NewCPUInfoCollector :: "collection_config \<Rightarrow> (path_error, cpu_info_collector) result" where
  "NewCPUInfoCollector config =
     (case collection_Validate \<lparr>RequireHostProcPath = True, RequireHostSysPath = True, RequireHostDevPath = False\<rparr> config of
        Some err \<Rightarrow> Inl err
      | None \<Rightarrow> Inr \<lparr>ci_cpuinfoPath = filepath_Join [cc_proc config, ''cpuinfo''],
                      ci_cpufreqPath = filepath_Join [cc_sys config, ''devices'', ''system'', ''cpu''],
                      ci_nodeSystemPath = filepath_Join [cc_sys config, ''devices'', ''system'', ''node'']\<rparr>)"

definition zero_core :: cpu_core where
  "zero_core = \<lparr>Processor = 0, CoreID = 0, PhysicalID = 0, Siblings = 0, CPUMHz = 0\<rparr>"

definition zero_cpu_info :: cpu_info where
  "zero_cpu_info = \<lparr>PhysicalCores = 0, LogicalCores = 0, ModelName = [], VendorID = [], CPUFamily = 0, cpu_Model = 0,
     Stepping = 0, Microcode = [], ci_CPUMHz = 0, CPUMinMHz = 0, CPUMaxMHz = 0, CacheSize = [], CacheAlignment = 0,
     Flags = [], ci_NUMANodes = 0, BogoMIPS = 0, Cores = []\<rparr>"

text \<open>The state of the scan: the information so far, the current processor, whether one is open.\<close>

type_synonym cpuinfo_scan = "cpu_info \<times> cpu_core \<times> bool"

definition flush_core :: "cpuinfo_scan \<Rightarrow> cpuinfo_scan" where
  "flush_core s =
     (case s of (info, core, inProcessor) \<Rightarrow>
        if inProcessor
        then (info\<lparr>Cores := Cores info @ [core], LogicalCores := LogicalCores info + 1\<rparr>, zero_core, False)
        else s)"

definition cpuinfo_field :: "(bytes \<Rightarrow> rat option) \<Rightarrow> bytes \<Rightarrow> bytes \<Rightarrow> cpuinfo_scan \<Rightarrow> cpuinfo_scan" where
  "cpuinfo_field other key value s =
     (case s of (info, core, inProcessor) \<Rightarrow>
        if key = ''processor'' then
          (case parse_int 32 value of None \<Rightarrow> s | Some p \<Rightarrow> (info, core\<lparr>Processor := p\<rparr>, True))
        else if key = ''vendor_id'' then
          (if VendorID info = [] then (info\<lparr>VendorID := value\<rparr>, core, inProcessor) else s)
        else if key = ''cpu family'' then
          (if CPUFamily info = 0
           then (case parse_int 32 value of None \<Rightarrow> s | Some n \<Rightarrow> (info\<lparr>CPUFamily := n\<rparr>, core, inProcessor)) else s)
        else if key = ''model'' then
          (if cpu_Model info = 0
           then (case parse_int 32 value of None \<Rightarrow> s | Some n \<Rightarrow> (info\<lparr>cpu_Model := n\<rparr>, core, inProcessor)) else s)
        else if key = ''model name'' then
          (if ModelName info = [] then (info\<lparr>ModelName := value\<rparr>, core, inProcessor) else s)
        else if key = ''stepping'' then
          (if Stepping info = 0
           then (case parse_int 32 value of None \<Rightarrow> s | Some n \<Rightarrow> (info\<lparr>Stepping := n\<rparr>, core, inProcessor)) else s)
        else if key = ''microcode'' then
          (if Microcode info = [] then (info\<lparr>Microcode := value\<rparr>, core, inProcessor) else s)
        else if key = ''cpu MHz'' then
          (case ParseFloat other value of
             None \<Rightarrow> s
           | Some mhz \<Rightarrow> (if ci_CPUMHz info = 0 then info\<lparr>ci_CPUMHz := mhz\<rparr> else info, core\<lparr>CPUMHz := mhz\<rparr>, inProcessor))
        else if key = ''cache size'' then
          (if CacheSize info = [] then (info\<lparr>CacheSize := value\<rparr>, core, inProcessor) else s)
        else if key = ''cache_alignment'' then
          (case parse_int 32 value of None \<Rightarrow> s | Some n \<Rightarrow> (info\<lparr>CacheAlignment := n\<rparr>, core, inProcessor))
        else if key = ''physical id'' then
          (case parse_int 32 value of None \<Rightarrow> s | Some n \<Rightarrow> (info, core\<lparr>PhysicalID := n\<rparr>, inProcessor))
        else if key = ''siblings'' then
          (case parse_int 32 value of None \<Rightarrow> s | Some n \<Rightarrow> (info, core\<lparr>Siblings := n\<rparr>, inProcessor))
        else if key = ''core id'' then
          (case parse_int 32 value of None \<Rightarrow> s | Some n \<Rightarrow> (info, core\<lparr>CoreID := n\<rparr>, inProcessor))
        else if key = ''flags'' \<or> key = ''Features'' then
          (if Flags info = [] then (info\<lparr>Flags := str_fields value\<rparr>, core, inProcessor) else s)
        else if key = ''bogomips'' \<or> key = ''BogoMIPS'' then
          (case ParseFloat other value of
             None \<Rightarrow> s
           | Some mips \<Rightarrow> if BogoMIPS info = 0 then (info\<lparr>BogoMIPS := mips\<rparr>, core, inProcessor) else s)
        else s)"

definition cpuinfo_line :: "(bytes \<Rightarrow> rat option) \<Rightarrow> bytes \<Rightarrow> cpuinfo_scan \<Rightarrow> cpuinfo_scan" where
  "cpuinfo_line other line s =
     (if line = [] then flush_core s
      else (case split_on (CHR '':'') line of
              k # v # vs \<Rightarrow> cpuinfo_field other (trim_space k) (trim_space (join_with (CHR '':'') (v # vs))) s
            | _ \<Rightarrow> s))"

definition count_physical :: "cpu_info \<Rightarrow> int" where
  "count_physical info =
     (let hasPhysicalInfo = (list_ex (\<lambda>c. PhysicalID c \<noteq> 0 \<or> CoreID c \<noteq> 0) (Cores info) \<or>
                             card (CoreID ` set (Cores info)) > 1)
      in if hasPhysicalInfo then int (card ((\<lambda>c. (PhysicalID c, CoreID c)) ` set (Cores info)))
         else LogicalCores info)"

definition parseCPUInfo :: "(bytes \<Rightarrow> rat option) \<Rightarrow> sys_fs \<Rightarrow> cpu_info_collector \<Rightarrow> cpu_info option" where
  "parseCPUInfo other fs c =
     (case scan_file (sf_file fs (ci_cpuinfoPath c)) of
        None \<Rightarrow> None
      | Some sc \<Rightarrow>
          (let info = fst (flush_core (fold (cpuinfo_line other) (sc_lines sc) (zero_cpu_info, zero_core, False))) in
           if sc_err sc then None else Some (info\<lparr>PhysicalCores := count_physical info\<rparr>)))"

definition freq_in :: "(bytes \<Rightarrow> rat option) \<Rightarrow> sys_fs \<Rightarrow> bytes \<Rightarrow> rat option" where
  "freq_in other fs path =
     map_option (\<lambda>freq. fl (freq / 1000)) (Option.bind (read_trimmed (sf_file fs) path) (ParseFloat other))"

definition parseCPUFrequency :: "(bytes \<Rightarrow> rat option) \<Rightarrow> sys_fs \<Rightarrow> cpu_info_collector \<Rightarrow> cpu_info \<Rightarrow> cpu_info" where
  "parseCPUFrequency other fs c info =
     (let cpu0 = filepath_Join [ci_cpufreqPath c, ''cpu0'', ''cpufreq''];
          info1 = (case freq_in other fs (filepath_Join [cpu0, ''cpuinfo_min_freq'']) of None \<Rightarrow> info | Some f \<Rightarrow> info\<lparr>CPUMinMHz := f\<rparr>)
      in case freq_in other fs (filepath_Join [cpu0, ''cpuinfo_max_freq'']) of None \<Rightarrow> info1 | Some f \<Rightarrow> info1\<lparr>CPUMaxMHz := f\<rparr>)"

definition countNUMANodes :: "sys_fs \<Rightarrow> cpu_info_collector \<Rightarrow> cpu_info \<Rightarrow> cpu_info" where
  "countNUMANodes fs c info =
     (let matches = glob_numbered fs (ci_nodeSystemPath c) ''node'' in
      info\<lparr>ci_NUMANodes := (if length matches > 0 then int (length matches) else 1)\<rparr>)"

definition collectCPUInfo :: "(bytes \<Rightarrow> rat option) \<Rightarrow> sys_fs \<Rightarrow> cpu_info_collector \<Rightarrow> cpu_info option" where
  "collectCPUInfo other fs c =
     map_option (\<lambda>info. countNUMANodes fs c (parseCPUFrequency other fs c info)) (parseCPUInfo other fs c)"

section \<open>Memory\<close>

record memory_info_collector =
  mi_meminfoPath :: bytes
  mi_nodeSystemPath :: bytes

definition NewMemoryInfoCollector :: "collection_config \<Rightarrow> (path_error, memory_info_collector) result" where
  "NewMemoryInfoCollector config =
     (case collection_Validate \<lparr>RequireHostProcPath = True, RequireHostSysPath = True, RequireHostDevPath = False\<rparr> config of
        Some err \<Rightarrow> Inl err
      | None \<Rightarrow> Inr \<lparr>mi_meminfoPath = filepath_Join [cc_proc config, ''meminfo''],
                      mi_nodeSystemPath = filepath_Join [cc_sys config, ''devices'', ''system'', ''node'']\<rparr>)"

definition mem_total_line :: "bytes \<Rightarrow> uint64 option" where
  "mem_total_line line =
     (if has_prefix line ''MemTotal:''
      then (case str_fields line of a # b # _ \<Rightarrow> map_option (\<lambda>kb. kb * 1024) (ParseUint64 b) | _ \<Rightarrow> None)
      else None)"

text \<open>The first line that has a value; \<open>None\<close> when the file has none or cannot be read.\<close>

definition parseTotalMemory :: "sys_fs \<Rightarrow> memory_info_collector \<Rightarrow> uint64 option" where
  "parseTotalMemory fs c =
     (case scan_file (sf_file fs (mi_meminfoPath c)) of
        None \<Rightarrow> None
      | Some sc \<Rightarrow> (case List.map_filter mem_total_line (sc_lines sc) of [] \<Rightarrow> None | v # _ \<Rightarrow> Some v))"

definition extractNodeID :: "bytes \<Rightarrow> int" where
  "extractNodeID nodePath =
     (let base = filepath_Base nodePath in
      if has_prefix base ''node''
      then (case parse_int 32 (trim_prefix base ''node'') of Some i \<Rightarrow> i | None \<Rightarrow> - 1)
      else - 1)"

text \<open>The loop over the fields stops at the first value; later lines overwrite.\<close>

fun node_total_fields :: "bytes list \<Rightarrow> uint64 \<Rightarrow> uint64" where
  "node_total_fields (f # v # fs) old =
     (if f = ''MemTotal:'' then (case ParseUint64 v of Some kb \<Rightarrow> kb * 1024 | None \<Rightarrow> node_total_fields (v # fs) old)
      else node_total_fields (v # fs) old)"
| "node_total_fields fs old = old"

definition parseNodeMemory :: "sys_fs \<Rightarrow> bytes \<Rightarrow> numa_info \<Rightarrow> numa_info" where
  "parseNodeMemory fs nodePath node =
     (case os_ReadFile (sf_file fs (filepath_Join [nodePath, ''meminfo''])) of
        None \<Rightarrow> node
      | Some text \<Rightarrow>
          node\<lparr>numa_TotalBytes := fold (\<lambda>line old. if str_contains line ''MemTotal:'' then node_total_fields (str_fields line) old else old)
             (split_on (CHR 0x0A) text) (numa_TotalBytes node)\<rparr>)"

definition parseNodeCPUs :: "sys_fs \<Rightarrow> bytes \<Rightarrow> numa_info \<Rightarrow> numa_info" where
  "parseNodeCPUs fs nodePath node =
     (case os_ReadFile (sf_file fs (filepath_Join [nodePath, ''cpulist''])) of
        None \<Rightarrow> node
      | Some text \<Rightarrow> (case ParseCPUList text of Inl _ \<Rightarrow> node | Inr cpus \<Rightarrow> node\<lparr>CPUs := cpus\<rparr>))"

definition parseNodeDistances :: "sys_fs \<Rightarrow> bytes \<Rightarrow> numa_info \<Rightarrow> numa_info" where
  "parseNodeDistances fs nodePath node =
     (case read_trimmed (sf_file fs) (filepath_Join [nodePath, ''distance'']) of
        None \<Rightarrow> node
      | Some text \<Rightarrow> if text = [] then node else node\<lparr>Distances := List.map_filter (parse_int 32) (str_fields text)\<rparr>)"

definition getAllCPUs :: "sys_fs \<Rightarrow> memory_info_collector \<Rightarrow> int list" where
  "getAllCPUs fs c =
     List.map_filter (\<lambda>path. let base = filepath_Base path in
         if has_prefix base ''cpu'' then parse_int 32 (trim_prefix base ''cpu'') else None)
       (glob_numbered fs (filepath_Join [mi_nodeSystemPath c, ''..'', ''cpu'']) ''cpu'')"

definition numa_node_at :: "sys_fs \<Rightarrow> bytes \<Rightarrow> numa_info option" where
  "numa_node_at fs nodePath =
     (let nodeID = extractNodeID nodePath in
      if nodeID < 0 then None
      else Some (parseNodeDistances fs nodePath (parseNodeCPUs fs nodePath (parseNodeMemory fs nodePath
             \<lparr>NodeID = nodeID, numa_TotalBytes = 0, CPUs = [], Distances = []\<rparr>))))"

definition parseNUMAInfo :: "sys_fs \<Rightarrow> memory_info_collector \<Rightarrow> memory_info \<Rightarrow> memory_info" where
  "parseNUMAInfo fs c info =
     (let info1 = (if sf_stat fs (filepath_Join [mi_meminfoPath c, ''..'', ''sys'', ''kernel'', ''numa_balancing'']) \<noteq> None
                   then info\<lparr>NUMABalancingAvailable := True\<rparr> else info);
          nodeMatches = glob_numbered fs (mi_nodeSystemPath c) ''node''
      in if nodeMatches = []
         then (if TotalBytes info1 > 0
               then info1\<lparr>NUMAEnabled := False, NUMANodes := NUMANodes info1 @
                      [\<lparr>NodeID = 0, numa_TotalBytes = TotalBytes info1, CPUs = getAllCPUs fs c, Distances = [10]\<rparr>]\<rparr>
               else info1\<lparr>NUMAEnabled := False\<rparr>)
         else info1\<lparr>NUMAEnabled := length nodeMatches > 1,
                NUMANodes := NUMANodes info1 @ List.map_filter (numa_node_at fs) nodeMatches\<rparr>)"

definition collectMemoryInfo :: "sys_fs \<Rightarrow> memory_info_collector \<Rightarrow> memory_info option" where
  "collectMemoryInfo fs c =
     map_option (\<lambda>bytes. parseNUMAInfo fs c
       \<lparr>TotalBytes = bytes, NUMAEnabled = False, NUMABalancingAvailable = False, NUMANodes = []\<rparr>) (parseTotalMemory fs c)"

section \<open>Disks\<close>

definition NewDiskInfoCollector :: "collection_config \<Rightarrow> (path_error, bytes) result" where
  "NewDiskInfoCollector config =
     (case collection_Validate \<lparr>RequireHostProcPath = False, RequireHostSysPath = True, RequireHostDevPath = False\<rparr> config of
        Some err \<Rightarrow> Inl err | None \<Rightarrow> Inr (filepath_Join [cc_sys config, ''block'']))"

text \<open>The loop cuts the digits at the end.\<close>

definition isPartition :: "sys_fs \<Rightarrow> bytes \<Rightarrow> bytes \<Rightarrow> bool" where
  "isPartition fs blockPath name =
     (if name = [] \<or> \<not> is_digit (last name) then False
      else (let parentName = trim_suffix (rev (dropWhile is_digit (rev name))) ''p'' in
            parentName \<noteq> name \<and> parentName \<noteq> [] \<and> sf_stat fs (filepath_Join [blockPath, parentName]) \<noteq> None))"

text \<open>\<open>strings.Trim\<close> with the two brackets.\<close>

definition trim_brackets :: "bytes \<Rightarrow> bytes" where
  "trim_brackets s = (let b = (\<lambda>c. c = CHR ''['' \<or> c = CHR '']'') in rev (dropWhile b (rev (dropWhile b s))))"

definition active_scheduler :: "bytes \<Rightarrow> bytes" where
  "active_scheduler text =
     (let chosen = (case find (\<lambda>s. has_prefix s ''['' \<and> has_suffix s '']'') (str_fields text) of
                      Some s \<Rightarrow> trim_brackets s | None \<Rightarrow> [])
      in if chosen = [] then text else chosen)"

definition sectors_in :: "sys_fs \<Rightarrow> bytes \<Rightarrow> uint64" where
  "sectors_in fs path = (case uint_in 64 fs path of None \<Rightarrow> 0 | Some n \<Rightarrow> of_nat n * 512)"

definition parseDiskProperties :: "sys_fs \<Rightarrow> bytes \<Rightarrow> disk_info \<Rightarrow> disk_info" where
  "parseDiskProperties fs devicePath disk =
     disk\<lparr>di_Model := text_or_empty fs (filepath_Join [devicePath, ''device'', ''model'']),
          Vendor := text_or_empty fs (filepath_Join [devicePath, ''device'', ''vendor'']),
          SizeBytes := sectors_in fs (filepath_Join [devicePath, ''size'']),
          BlockSize := uint32_or_zero fs (filepath_Join [devicePath, ''queue'', ''logical_block_size'']),
          PhysicalBlockSize := uint32_or_zero fs (filepath_Join [devicePath, ''queue'', ''physical_block_size'']),
          Rotational := (read_trimmed (sf_file fs) (filepath_Join [devicePath, ''queue'', ''rotational'']) = Some ''1''),
          QueueDepth := uint32_or_zero fs (filepath_Join [devicePath, ''queue'', ''nr_requests'']),
          Scheduler := (case read_trimmed (sf_file fs) (filepath_Join [devicePath, ''queue'', ''scheduler'']) of
                          None \<Rightarrow> [] | Some text \<Rightarrow> active_scheduler text)\<rparr>"

definition partition_at :: "sys_fs \<Rightarrow> bytes \<Rightarrow> bytes \<Rightarrow> partition_info" where
  "partition_at fs devicePath name =
     (let partPath = filepath_Join [devicePath, name] in
      \<lparr>part_Name = name, part_SizeBytes = sectors_in fs (filepath_Join [partPath, ''size'']),
       StartSector = (case uint_in 64 fs (filepath_Join [partPath, ''start'']) of None \<Rightarrow> 0 | Some n \<Rightarrow> of_nat n)\<rparr>)"

definition parsePartitions :: "sys_fs \<Rightarrow> bytes \<Rightarrow> disk_info \<Rightarrow> disk_info" where
  "parsePartitions fs devicePath disk =
     (case sf_dir fs devicePath of
        None \<Rightarrow> disk
      | Some entries \<Rightarrow>
          disk\<lparr>Partitions := Partitions disk @ map (\<lambda>e. partition_at fs devicePath (fst e))
             (filter (\<lambda>e. snd e \<and> has_prefix (fst e) (di_Device disk) \<and> fst e \<noteq> di_Device disk) entries)\<rparr>)"

definition new_disk :: "bytes \<Rightarrow> disk_info" where
  "new_disk name = \<lparr>di_Device = name, di_Model = [], Vendor = [], SizeBytes = 0, BlockSize = 0, Rotational = False,
     QueueDepth = 0, Scheduler = [], PhysicalBlockSize = 0, Partitions = []\<rparr>"

definition disk_device :: "sys_fs \<Rightarrow> bytes \<Rightarrow> bytes \<Rightarrow> bool" where
  "disk_device fs blockPath name \<longleftrightarrow>
     sf_stat fs (filepath_Join [blockPath, name]) = Some True \<and>
     \<not> (has_prefix name ''loop'' \<or> has_prefix name ''ram'') \<and> \<not> isPartition fs blockPath name"

definition collectDiskInfo :: "sys_fs \<Rightarrow> bytes \<Rightarrow> disk_info list option" where
  "collectDiskInfo fs blockPath =
     map_option (\<lambda>entries.
       map (\<lambda>name. let devicePath = filepath_Join [blockPath, name] in
            parsePartitions fs devicePath (parseDiskProperties fs devicePath (new_disk name)))
         (filter (disk_device fs blockPath) (map fst entries))) (sf_dir fs blockPath)"

section \<open>Network interfaces\<close>

definition NewNetworkInfoCollector :: "collection_config \<Rightarrow> (path_error, bytes) result" where
  "NewNetworkInfoCollector config =
     (case collection_Validate \<lparr>RequireHostProcPath = False, RequireHostSysPath = True, RequireHostDevPath = False\<rparr> config of
        Some err \<Rightarrow> Inl err | None \<Rightarrow> Inr (filepath_Join [cc_sys config, ''class'', ''net'']))"

definition arphrd_type :: "bytes \<Rightarrow> bytes option" where
  "arphrd_type n = map_of [(''1'', ''ethernet''), (''772'', ''loopback''), (''776'', ''tunnel''), (''778'', ''tunnel'')] n"

definition name_type :: "bytes \<Rightarrow> bytes option" where
  "name_type name =
     map_option snd (find (\<lambda>(pre, ty). has_prefix name pre)
       [(''eth'', ''ethernet''), (''wlan'', ''wireless''), (''tun'', ''tunnel''), (''tap'', ''tap''), (''veth'', ''virtual''),
        (''docker'', ''bridge''), (''br-'', ''bridge''), (''virbr'', ''bridge'')])"

definition getInterfaceType :: "sys_fs \<Rightarrow> bytes \<Rightarrow> bytes \<Rightarrow> bytes" where
  "getInterfaceType fs name path =
     (if sf_stat fs (filepath_Join [path, ''wireless'']) \<noteq> None then ''wireless''
      else if name = ''lo'' then ''loopback''
      else (case Option.bind (read_trimmed (sf_file fs) (filepath_Join [path, ''type''])) arphrd_type of
              Some ty \<Rightarrow> ty
            | None \<Rightarrow>
                (case name_type name of
                   Some ty \<Rightarrow> ty
                 | None \<Rightarrow> if sf_stat fs (filepath_Join [path, ''device'']) \<noteq> None then ''ethernet'' else ''virtual'')))"

definition parseInterfaceProperties :: "sys_fs \<Rightarrow> bytes \<Rightarrow> network_info \<Rightarrow> network_info" where
  "parseInterfaceProperties fs path info =
     info\<lparr>MACAddress := text_or_empty fs (filepath_Join [path, ''address'']),
          ni_Speed := (case Option.bind (read_trimmed (sf_file fs) (filepath_Join [path, ''speed''])) (parse_int 64) of
                         Some speed \<Rightarrow> if speed > 0 then of_int speed else 0 | None \<Rightarrow> 0),
          ni_Duplex := text_or_empty fs (filepath_Join [path, ''duplex'']),
          MTU := uint32_or_zero fs (filepath_Join [path, ''mtu'']),
          ni_OperState := text_or_empty fs (filepath_Join [path, ''operstate'']),
          Carrier := (read_trimmed (sf_file fs) (filepath_Join [path, ''carrier'']) = Some ''1''),
          Driver := (case sf_link fs (filepath_Join [path, ''device'', ''driver'']) of
                       Some target \<Rightarrow> filepath_Base target | None \<Rightarrow> [])\<rparr>"

definition new_interface :: "bytes \<Rightarrow> bytes \<Rightarrow> network_info" where
  "new_interface name ty = \<lparr>ni_Interface = name, Driver = [], MACAddress = [], ni_Speed = 0, ni_Duplex = [], MTU = 0,
     ni_Type = ty, ni_OperState = [], Carrier = False\<rparr>"

definition collectNetworkInfo :: "sys_fs \<Rightarrow> bytes \<Rightarrow> network_info list option" where
  "collectNetworkInfo fs netClassPath =
     map_option (\<lambda>entries.
       map (\<lambda>name. let path = filepath_Join [netClassPath, name] in
            parseInterfaceProperties fs path (new_interface name (getInterfaceType fs name path)))
         (filter (\<lambda>name. sf_stat fs (filepath_Join [netClassPath, name]) = Some True) (map fst entries)))
       (sf_dir fs netClassPath)"

end
