(* ===== verification/HardwareGraph.thy ===== *)
theory HardwareGraph
  imports GraphStore HostIdentity HardwareInfo
begin

text \<open>
  The hardware graph, \<open>internal/hardware/graph\<close>: the nodes of \<open>nodes.go\<close>, the relationships of
  \<open>relationships.go\<close> and the builder of \<open>builder.go\<close>, as the commands it gives to the store. The
  messages of \<open>hardware.proto\<close> are values; \<open>marshal\<close> stands for their encoding, which may fail. The
  order in which a map is visited is an argument.
\<close>

section \<open>Snapshots and messages\<close>

record hardware_snapshot =
  CPUInfo :: "cpu_info option"
  MemoryInfo :: "memory_info option"
  DiskInfo :: "disk_info list"
  NetworkInfo :: "network_info list"


datatype architecture = ARCHITECTURE_UNKNOWN | ARCHITECTURE_X86_64 | ARCHITECTURE_ARM64 | ARCHITECTURE_X86
datatype duplex_mode = DUPLEX_MODE_UNKNOWN | DUPLEX_MODE_FULL | DUPLEX_MODE_HALF
datatype interface_type =
  INTERFACE_TYPE_UNKNOWN | INTERFACE_TYPE_ETHERNET | INTERFACE_TYPE_WIRELESS | INTERFACE_TYPE_LOOPBACK
| INTERFACE_TYPE_BRIDGE | INTERFACE_TYPE_VLAN | INTERFACE_TYPE_BOND
datatype operational_state =
  OPERATIONAL_STATE_UNKNOWN | OPERATIONAL_STATE_UP | OPERATIONAL_STATE_DOWN | OPERATIONAL_STATE_TESTING
| OPERATIONAL_STATE_DORMANT | OPERATIONAL_STATE_NOT_PRESENT | OPERATIONAL_STATE_LOWER_LAYER_DOWN
datatype containment_type =
  CONTAINMENT_TYPE_UNKNOWN | CONTAINMENT_TYPE_PHYSICAL | CONTAINMENT_TYPE_LOGICAL | CONTAINMENT_TYPE_PARTITION
datatype bus_type =
  BUS_TYPE_UNKNOWN | BUS_TYPE_PCI | BUS_TYPE_PCIE | BUS_TYPE_USB | BUS_TYPE_SATA | BUS_TYPE_NVME | BUS_TYPE_SAS
| BUS_TYPE_IDE | BUS_TYPE_SCSI | BUS_TYPE_VIRTIO

text \<open>The arguments of a constructor are the fields the code sets, in its order.\<close>

datatype hardware_message =
  SystemNode bytes architecture instant bytes bytes
| CPUPackageNode int bytes bytes int int int bytes bytes nat nat
| CPUCoreNode int int int rat int
| MemoryModuleNode uint64 bool bool nat
| NUMANode int uint64 "int list" "int list"
| DiskDeviceNode bytes bytes bytes uint64 bool "32 word" "32 word" bytes "32 word"
| DiskPartitionNode bytes bytes uint64 uint64
| NetworkInterfaceNode bytes bytes uint64 duplex_mode "32 word" bytes interface_type operational_state bool
| HwContains containment_type
| NUMAAffinity int int
| SocketSharing int int
| ConnectedTo bus_type bytes

definition hardware_package :: bytes where "hardware_package = ''antimetal.hardware.v1.''"

definition message_name :: "hardware_message \<Rightarrow> bytes" where
  "message_name m = hardware_package @
     (case m of SystemNode _ _ _ _ _ \<Rightarrow> ''SystemNode'' | CPUPackageNode _ _ _ _ _ _ _ _ _ _ \<Rightarrow> ''CPUPackageNode''
      | CPUCoreNode _ _ _ _ _ \<Rightarrow> ''CPUCoreNode'' | MemoryModuleNode _ _ _ _ \<Rightarrow> ''MemoryModuleNode''
      | NUMANode _ _ _ _ \<Rightarrow> ''NUMANode'' | DiskDeviceNode _ _ _ _ _ _ _ _ _ \<Rightarrow> ''DiskDeviceNode''
      | DiskPartitionNode _ _ _ _ \<Rightarrow> ''DiskPartitionNode''
      | NetworkInterfaceNode _ _ _ _ _ _ _ _ _ \<Rightarrow> ''NetworkInterfaceNode''
      | HwContains _ \<Rightarrow> ''Contains'' | NUMAAffinity _ _ \<Rightarrow> ''NUMAAffinity''
      | SocketSharing _ _ \<Rightarrow> ''SocketSharing'' | ConnectedTo _ _ \<Rightarrow> ''ConnectedTo'')"

definition PROVIDER_ANTIMETAL :: nat where "PROVIDER_ANTIMETAL = 5"

section \<open>Nodes\<close>

text \<open>
  The end of every create function: the specification is marshalled, the resource and its
  reference carry the name of the message and the given name.
\<close>

type_synonym marshaller = "hardware_message \<Rightarrow> bytes option"

definition hardware_node :: "marshaller \<Rightarrow> hardware_message \<Rightarrow> bytes \<Rightarrow> tag list \<Rightarrow> resource option" where
  "hardware_node marshal spec name tags =
     map_option (\<lambda>specAny.
       \<lparr>rsrc_type = Some \<lparr>td_kind = ''resource.v1.Resource'', td_type = message_name spec\<rparr>,
        rsrc_metadata = Some (empty_meta\<lparr>meta_provider := PROVIDER_ANTIMETAL, meta_provider_id := name,
          meta_name := name, meta_tags := tags\<rparr>),
        rsrc_spec = Some specAny\<rparr>) (any_new marshal message_name spec)"

definition hardware_ref :: "hardware_message \<Rightarrow> bytes \<Rightarrow> resource_ref" where
  "hardware_ref spec name = \<lparr>ref_type_url = message_name spec, ref_name = name, ref_namespace = None\<rparr>"

text \<open>Create a node and write it, or fail.\<close>

definition put_node :: "marshaller \<Rightarrow> hardware_message \<Rightarrow> bytes \<Rightarrow> tag list \<Rightarrow> graph_command" where
  "put_node marshal spec name tags =
     (case hardware_node marshal spec name tags of
        None \<Rightarrow> GraphFail (SpecNotMarshalled (message_name spec))
      | Some r \<Rightarrow> UpdateNode r)"

record system_env =
  se_fs :: host_fs
  se_paths :: host_paths
  se_net :: resolver
  se_cloud :: "bytes option"
  se_goarch :: bytes
  se_boot :: "instant option"
  se_now :: instant
  se_kernel :: "bytes option"

definition system_architecture :: "bytes \<Rightarrow> architecture" where
  "system_architecture goarch =
     (if goarch = ''amd64'' then ARCHITECTURE_X86_64 else if goarch = ''arm64'' then ARCHITECTURE_ARM64
      else if goarch = ''386'' then ARCHITECTURE_X86 else ARCHITECTURE_UNKNOWN)"

definition getOSInfo :: "host_fs \<Rightarrow> host_paths \<Rightarrow> bytes" where
  "getOSInfo fs paths =
     (let scan = (case scan_file (fs (filepath_Join [hp_etc paths, ''os-release''])) of
                    Some sc \<Rightarrow> Some sc | None \<Rightarrow> scan_file (fs ''/usr/lib/os-release''))
      in case scan of
           None \<Rightarrow> ''Linux''
         | Some sc \<Rightarrow>
             (case find (\<lambda>line. has_prefix line ''PRETTY_NAME='') (sc_lines sc) of
                None \<Rightarrow> ''Linux''
              | Some line \<Rightarrow> trim_quotes (trim_prefix line ''PRETTY_NAME='')))"

definition getSystemInfo :: "system_env \<Rightarrow> architecture \<times> instant \<times> bytes \<times> bytes" where
  "getSystemInfo e =
     (system_architecture (se_goarch e),
      (case se_boot e of None \<Rightarrow> se_now e | Some b \<Rightarrow> b),
      (case se_kernel e of None \<Rightarrow> ''unknown'' | Some raw \<Rightarrow> raw),
      getOSInfo (se_fs e) (se_paths e))"

text \<open>The system's message and tags, for its canonical name; \<open>None\<close> when asking for the name panics.\<close>

definition system_spec :: "system_env \<Rightarrow> hardware_message" where
  "system_spec e =
     (case getSystemInfo e of (arch, bootTime, kernelVersion, osInfo) \<Rightarrow>
        SystemNode (case hostname (se_fs e) (se_paths e) of None \<Rightarrow> ''unknown'' | Some h \<Rightarrow> h)
          arch bootTime kernelVersion osInfo)"

definition nonempty_tag :: "bytes \<Rightarrow> bytes \<Rightarrow> tag list" where
  "nonempty_tag key v = (if v \<noteq> [] then [\<lparr>tag_key = key, tag_value = v\<rparr>] else [])"

definition system_tags :: "system_env \<Rightarrow> tag list option" where
  "system_tags e =
     map_option (\<lambda>fqdn.
       nonempty_tag ''machine-id'' (get_or [] id (machineID (se_fs e) (se_paths e))) @
       nonempty_tag ''system-uuid'' (get_or [] id (systemUUID (se_fs e) (se_paths e))) @
       (case fqdn of Inr v \<Rightarrow> nonempty_tag ''fqdn'' v | Inl _ \<Rightarrow> []))
       (FQDN (se_fs e) (se_paths e) (se_net e))"

definition createSystemNode :: "marshaller \<Rightarrow> system_env \<Rightarrow> bytes \<Rightarrow> tag list \<Rightarrow> graph_command" where
  "createSystemNode marshal e canonicalName tags = put_node marshal (system_spec e) canonicalName tags"

definition cpu_package_spec :: "cpu_info \<Rightarrow> int \<Rightarrow> hardware_message" where
  "cpu_package_spec cpuInfo physicalID =
     (let n = length (filter (\<lambda>core. PhysicalID core = physicalID) (Cores cpuInfo)) in
      CPUPackageNode physicalID (VendorID cpuInfo) (ModelName cpuInfo) (CPUFamily cpuInfo) (cpu_Model cpuInfo)
        (Stepping cpuInfo) (Microcode cpuInfo) (CacheSize cpuInfo) n n)"

definition package_name :: "resource_ref \<Rightarrow> int \<Rightarrow> bytes" where
  "package_name systemRef physicalID = ref_name systemRef @ ''-cpu-package-'' @ show_int physicalID"

definition createCPUPackageNode :: "marshaller \<Rightarrow> cpu_info \<Rightarrow> int \<Rightarrow> resource_ref \<Rightarrow> graph_command" where
  "createCPUPackageNode marshal cpuInfo physicalID systemRef =
     (case find (\<lambda>core. PhysicalID core = physicalID) (Cores cpuInfo) of
        None \<Rightarrow> GraphFail (NoCoreForPackage physicalID)
      | Some sampleCore \<Rightarrow>
          put_node marshal (cpu_package_spec cpuInfo physicalID) (package_name systemRef physicalID) [])"

definition cpu_core_spec :: "cpu_core \<Rightarrow> hardware_message" where
  "cpu_core_spec core = CPUCoreNode (Processor core) (CoreID core) (PhysicalID core) (CPUMHz core) (Siblings core)"

definition core_name :: "bytes \<Rightarrow> int \<Rightarrow> bytes" where
  "core_name system processor = system @ ''-cpu-core-'' @ show_int processor"

definition createCPUCoreNode :: "marshaller \<Rightarrow> cpu_core \<Rightarrow> resource_ref \<Rightarrow> graph_command" where
  "createCPUCoreNode marshal core systemRef =
     put_node marshal (cpu_core_spec core) (core_name (ref_name systemRef) (Processor core)) []"

definition memory_spec :: "memory_info \<Rightarrow> hardware_message" where
  "memory_spec m = MemoryModuleNode (TotalBytes m) (NUMAEnabled m) (NUMABalancingAvailable m) (length (NUMANodes m))"

definition createMemoryModuleNode :: "marshaller \<Rightarrow> memory_info \<Rightarrow> resource_ref \<Rightarrow> graph_command" where
  "createMemoryModuleNode marshal memInfo systemRef = put_node marshal (memory_spec memInfo) (ref_name systemRef) []"

text \<open>The loop that copies the distances writes every index.\<close>

definition numa_spec :: "numa_info \<Rightarrow> hardware_message" where
  "numa_spec numa = NUMANode (NodeID numa) (numa_TotalBytes numa) (CPUs numa) (Distances numa)"

definition numa_name :: "bytes \<Rightarrow> int \<Rightarrow> bytes" where
  "numa_name system node = system @ ''-numa-node-'' @ show_int node"

definition createNUMANode :: "marshaller \<Rightarrow> numa_info \<Rightarrow> resource_ref \<Rightarrow> graph_command" where
  "createNUMANode marshal numa systemRef =
     put_node marshal (numa_spec numa) (numa_name (ref_name systemRef) (NodeID numa)) []"

definition disk_spec :: "disk_info \<Rightarrow> hardware_message" where
  "disk_spec d = DiskDeviceNode (di_Device d) (di_Model d) (Vendor d) (SizeBytes d) (Rotational d) (BlockSize d)
     (PhysicalBlockSize d) (Scheduler d) (QueueDepth d)"

definition disk_name :: "resource_ref \<Rightarrow> bytes \<Rightarrow> bytes" where
  "disk_name systemRef device = ref_name systemRef @ ''-disk-'' @ device"

definition createDiskDeviceNode :: "marshaller \<Rightarrow> disk_info \<Rightarrow> resource_ref \<Rightarrow> graph_command" where
  "createDiskDeviceNode marshal disk systemRef = put_node marshal (disk_spec disk) (disk_name systemRef (di_Device disk)) []"

definition partition_spec :: "partition_info \<Rightarrow> bytes \<Rightarrow> hardware_message" where
  "partition_spec p parentDevice = DiskPartitionNode (part_Name p) parentDevice (part_SizeBytes p) (StartSector p)"

definition partition_name :: "resource_ref \<Rightarrow> bytes \<Rightarrow> bytes" where
  "partition_name systemRef name = ref_name systemRef @ ''-partition-'' @ name"

definition createDiskPartitionNode :: "marshaller \<Rightarrow> partition_info \<Rightarrow> bytes \<Rightarrow> resource_ref \<Rightarrow> graph_command" where
  "createDiskPartitionNode marshal p parentDevice systemRef =
     put_node marshal (partition_spec p parentDevice) (partition_name systemRef (part_Name p)) []"

text \<open>\<open>strings.ToLower\<close> as the comparisons below see it: no letter outside ASCII has a lower form among them.\<close>

definition lower_bytes :: "bytes \<Rightarrow> bytes" where
  "lower_bytes s = map (\<lambda>c. if of_char c \<in> {65..(90::nat)} then char_of (of_char c + (32::nat)) else c) s"

definition map_duplex :: "bytes \<Rightarrow> duplex_mode" where
  "map_duplex s = (let l = lower_bytes s in
     if l = ''full'' then DUPLEX_MODE_FULL else if l = ''half'' then DUPLEX_MODE_HALF else DUPLEX_MODE_UNKNOWN)"

definition map_interface_type :: "bytes \<Rightarrow> interface_type" where
  "map_interface_type ty =
     (case map_of [(''ethernet'', INTERFACE_TYPE_ETHERNET), (''wireless'', INTERFACE_TYPE_WIRELESS),
        (''loopback'', INTERFACE_TYPE_LOOPBACK), (''bridge'', INTERFACE_TYPE_BRIDGE), (''vlan'', INTERFACE_TYPE_VLAN),
        (''bond'', INTERFACE_TYPE_BOND)] ty of Some t \<Rightarrow> t | None \<Rightarrow> INTERFACE_TYPE_UNKNOWN)"

definition map_oper_state :: "bytes \<Rightarrow> operational_state" where
  "map_oper_state s =
     (case map_of [(''up'', OPERATIONAL_STATE_UP), (''down'', OPERATIONAL_STATE_DOWN),
        (''testing'', OPERATIONAL_STATE_TESTING), (''dormant'', OPERATIONAL_STATE_DORMANT),
        (''notpresent'', OPERATIONAL_STATE_NOT_PRESENT),
        (''lowerlayerdown'', OPERATIONAL_STATE_LOWER_LAYER_DOWN)] (lower_bytes s) of
        Some t \<Rightarrow> t | None \<Rightarrow> OPERATIONAL_STATE_UNKNOWN)"

definition interface_spec :: "network_info \<Rightarrow> hardware_message" where
  "interface_spec i = NetworkInterfaceNode (ni_Interface i) (MACAddress i) (ni_Speed i) (map_duplex (ni_Duplex i)) (MTU i)
     (Driver i) (map_interface_type (ni_Type i)) (map_oper_state (ni_OperState i)) (Carrier i)"

definition interface_name :: "resource_ref \<Rightarrow> bytes \<Rightarrow> bytes" where
  "interface_name systemRef iface = ref_name systemRef @ ''-net-'' @ iface"

definition createNetworkInterfaceNode :: "marshaller \<Rightarrow> network_info \<Rightarrow> resource_ref \<Rightarrow> graph_command" where
  "createNetworkInterfaceNode marshal iface systemRef =
     put_node marshal (interface_spec iface) (interface_name systemRef (ni_Interface iface)) []"

section \<open>Relationships\<close>

text \<open>A relationship with a predicate, or the failure to marshal it.\<close>

definition hardware_relation :: "marshaller \<Rightarrow> hardware_message \<Rightarrow> resource_ref \<Rightarrow> resource_ref \<Rightarrow>
    (graph_error, relationship) result" where
  "hardware_relation marshal predicate subject object =
     (case any_new marshal message_name predicate of
        None \<Rightarrow> Inl (SpecNotMarshalled (message_name predicate))
      | Some predicateAny \<Rightarrow>
          Inr \<lparr>rel_type = Some \<lparr>td_kind = ''resource.v1.Relationship'', td_type = message_name predicate\<rparr>,
               rel_id = [], rel_subject = Some subject, rel_object = Some object, rel_predicate = Some predicateAny,
               rel_created_at = None, rel_updated_at = None, rel_deleted_at = None\<rparr>)"

definition createContainsRelationship :: "marshaller \<Rightarrow> resource_ref \<Rightarrow> resource_ref \<Rightarrow> bytes \<Rightarrow>
    (graph_error, relationship) result" where
  "createContainsRelationship marshal subject object containsType =
     hardware_relation marshal (HwContains
       (if containsType = ''physical'' then CONTAINMENT_TYPE_PHYSICAL
        else if containsType = ''logical'' then CONTAINMENT_TYPE_LOGICAL
        else if containsType = ''partition'' then CONTAINMENT_TYPE_PARTITION
        else CONTAINMENT_TYPE_UNKNOWN)) subject object"

definition createNUMAAffinityRelationship :: "marshaller \<Rightarrow> resource_ref \<Rightarrow> resource_ref \<Rightarrow> int \<Rightarrow>
    (graph_error, relationship) result" where
  "createNUMAAffinityRelationship marshal subject object nodeID =
     hardware_relation marshal (NUMAAffinity nodeID 0) subject object"

definition createSocketSharingRelationship :: "marshaller \<Rightarrow> resource_ref \<Rightarrow> resource_ref \<Rightarrow> int \<Rightarrow>
    (graph_error, relationship) result" where
  "createSocketSharingRelationship marshal core1 core2 physicalID =
     hardware_relation marshal (SocketSharing physicalID physicalID) core1 core2"

definition createNUMADistanceRelationship :: "marshaller \<Rightarrow> resource_ref \<Rightarrow> resource_ref \<Rightarrow> int \<Rightarrow> int \<Rightarrow>
    (graph_error, relationship) result" where
  "createNUMADistanceRelationship marshal sourceNode targetNode targetNodeID distance =
     hardware_relation marshal (NUMAAffinity targetNodeID distance) sourceNode targetNode"

definition inferDiskBusType :: "bytes \<Rightarrow> bytes" where
  "inferDiskBusType device =
     (if has_prefix device ''nvme'' then ''nvme'' else if has_prefix device ''sd'' then ''sata''
      else if has_prefix device ''hd'' then ''ide'' else if has_prefix device ''vd'' then ''virtio''
      else if has_prefix device ''xvd'' then ''virtio'' else ''unknown'')"

definition inferNetworkBusType :: "network_info \<Rightarrow> bytes" where
  "inferNetworkBusType iface =
     (if ni_Type iface \<in> set [''loopback'', ''bridge'', ''vlan'', ''bond''] then ''virtual''
      else if str_contains (Driver iface) ''virtio'' then ''virtio''
      else if str_contains (Driver iface) ''usb'' then ''usb''
      else ''pci'')"

definition createBusConnectionRelationship :: "marshaller \<Rightarrow> resource_ref \<Rightarrow> resource_ref \<Rightarrow> bytes \<Rightarrow> bytes \<Rightarrow>
    (graph_error, relationship) result" where
  "createBusConnectionRelationship marshal device system busType busAddress =
     hardware_relation marshal (ConnectedTo
       (case map_of [(''pci'', BUS_TYPE_PCI), (''pcie'', BUS_TYPE_PCIE), (''usb'', BUS_TYPE_USB), (''sata'', BUS_TYPE_SATA),
          (''nvme'', BUS_TYPE_NVME), (''sas'', BUS_TYPE_SAS), (''ide'', BUS_TYPE_IDE), (''scsi'', BUS_TYPE_SCSI),
          (''virtio'', BUS_TYPE_VIRTIO)] busType of Some b \<Rightarrow> b | None \<Rightarrow> BUS_TYPE_UNKNOWN) busAddress) device system"

section \<open>The builder\<close>

text \<open>
  A topology function writes nodes and creates relationships, stops at the first failure, and at
  its end hands the relationships to the store.
\<close>

datatype build_step = PutNode graph_command | MakeRelation "(graph_error, relationship) result"

definition step_command :: "build_step \<Rightarrow> graph_command list" where
  "step_command st =
     (case st of PutNode c \<Rightarrow> [c] | MakeRelation r \<Rightarrow> (case r of Inl e \<Rightarrow> [GraphFail e] | Inr _ \<Rightarrow> []))"

definition step_relation :: "build_step \<Rightarrow> relationship list" where
  "step_relation st =
     (case st of PutNode _ \<Rightarrow> [] | MakeRelation r \<Rightarrow> (case r of Inl _ \<Rightarrow> [] | Inr rel \<Rightarrow> [rel]))"

definition topology :: "build_step list \<Rightarrow> graph_command list" where
  "topology steps = concat (map step_command steps) @ [AddRelations (concat (map step_relation steps))]"

text \<open>The keys of the package map, in the order in which they are inserted.\<close>

fun first_occurrences :: "'a list \<Rightarrow> 'a list \<Rightarrow> 'a list" where
  "first_occurrences seen [] = []"
| "first_occurrences seen (x # xs) =
     (if x \<in> set seen then first_occurrences seen xs else x # first_occurrences (x # seen) xs)"

definition package_ref :: "cpu_info \<Rightarrow> resource_ref \<Rightarrow> int \<Rightarrow> resource_ref" where
  "package_ref cpuInfo systemRef physicalID =
     hardware_ref (cpu_package_spec cpuInfo physicalID) (package_name systemRef physicalID)"

definition core_ref :: "resource_ref \<Rightarrow> cpu_core \<Rightarrow> resource_ref" where
  "core_ref systemRef core = hardware_ref (cpu_core_spec core) (core_name (ref_name systemRef) (Processor core))"

definition socket_sharing :: "marshaller \<Rightarrow> cpu_info \<Rightarrow> resource_ref \<Rightarrow> int \<Rightarrow> build_step list" where
  "socket_sharing marshal cpuInfo systemRef physicalID =
     (let cores = map (core_ref systemRef) (filter (\<lambda>core. PhysicalID core = physicalID) (Cores cpuInfo)) in
      concat (map (\<lambda>i. concat (map (\<lambda>j.
        if i \<noteq> j then [MakeRelation (createSocketSharingRelationship marshal (cores ! i) (cores ! j) physicalID)] else [])
        [0..<length cores])) [0..<length cores]))"

definition buildCPUTopology :: "marshaller \<Rightarrow> (int list \<Rightarrow> int list) \<Rightarrow> cpu_info \<Rightarrow> resource_ref \<Rightarrow> build_step list" where
  "buildCPUTopology marshal order cpuInfo systemRef =
     (let ids = first_occurrences [] (map PhysicalID (Cores cpuInfo)) in
      concat (map (\<lambda>physicalID.
        [PutNode (createCPUPackageNode marshal cpuInfo physicalID systemRef),
         MakeRelation (createContainsRelationship marshal systemRef (package_ref cpuInfo systemRef physicalID) ''physical'')]) ids) @
      concat (map (\<lambda>core.
        [PutNode (createCPUCoreNode marshal core systemRef),
         MakeRelation (createContainsRelationship marshal (package_ref cpuInfo systemRef (PhysicalID core))
           (core_ref systemRef core) ''physical'')]) (Cores cpuInfo)) @
      concat (map (socket_sharing marshal cpuInfo systemRef) (order ids)))"

definition numa_ref :: "resource_ref \<Rightarrow> numa_info \<Rightarrow> resource_ref" where
  "numa_ref systemRef numa = hardware_ref (numa_spec numa) (numa_name (ref_name systemRef) (NodeID numa))"

text \<open>The maps from node identifiers to nodes keep the last node of an identifier.\<close>

definition numa_by_id :: "numa_info list \<Rightarrow> int \<rightharpoonup> numa_info" where
  "numa_by_id nodes i = find (\<lambda>n. NodeID n = i) (rev nodes)"

definition numa_distances :: "marshaller \<Rightarrow> numa_info list \<Rightarrow> resource_ref \<Rightarrow> int \<Rightarrow> build_step list" where
  "numa_distances marshal nodes systemRef nodeID =
     (case numa_by_id nodes nodeID of
        None \<Rightarrow> []
      | Some node \<Rightarrow>
          concat (map (\<lambda>(otherNodeID, distance).
            case numa_by_id nodes (int otherNodeID) of
              None \<Rightarrow> []
            | Some other \<Rightarrow>
                if nodeID \<noteq> int otherNodeID
                then [MakeRelation (createNUMADistanceRelationship marshal (numa_ref systemRef node)
                        (numa_ref systemRef other) (int otherNodeID) distance)]
                else []) (enumerate 0 (Distances node))))"

definition memory_ref :: "memory_info \<Rightarrow> resource_ref \<Rightarrow> resource_ref" where
  "memory_ref memInfo systemRef = hardware_ref (memory_spec memInfo) (ref_name systemRef)"

definition buildMemoryTopology :: "marshaller \<Rightarrow> (int list \<Rightarrow> int list) \<Rightarrow> memory_info \<Rightarrow> resource_ref \<Rightarrow> build_step list" where
  "buildMemoryTopology marshal order memInfo systemRef =
     [PutNode (createMemoryModuleNode marshal memInfo systemRef),
      MakeRelation (createContainsRelationship marshal systemRef (memory_ref memInfo systemRef) ''physical'')] @
     (if NUMAEnabled memInfo
      then concat (map (\<lambda>numa.
             [PutNode (createNUMANode marshal numa systemRef),
              MakeRelation (createContainsRelationship marshal systemRef (numa_ref systemRef numa) ''logical''),
              MakeRelation (createNUMAAffinityRelationship marshal (memory_ref memInfo systemRef)
                (numa_ref systemRef numa) (NodeID numa))]) (NUMANodes memInfo)) @
           concat (map (numa_distances marshal (NUMANodes memInfo) systemRef)
             (order (first_occurrences [] (map NodeID (NUMANodes memInfo)))))
      else [])"

definition disk_ref :: "resource_ref \<Rightarrow> disk_info \<Rightarrow> resource_ref" where
  "disk_ref systemRef disk = hardware_ref (disk_spec disk) (disk_name systemRef (di_Device disk))"

definition partition_ref :: "resource_ref \<Rightarrow> disk_info \<Rightarrow> partition_info \<Rightarrow> resource_ref" where
  "partition_ref systemRef disk p =
     hardware_ref (partition_spec p (di_Device disk)) (partition_name systemRef (part_Name p))"

definition buildDiskTopology :: "marshaller \<Rightarrow> disk_info list \<Rightarrow> resource_ref \<Rightarrow> build_step list" where
  "buildDiskTopology marshal disks systemRef =
     concat (map (\<lambda>disk.
       [PutNode (createDiskDeviceNode marshal disk systemRef),
        MakeRelation (createContainsRelationship marshal systemRef (disk_ref systemRef disk) ''physical''),
        MakeRelation (createBusConnectionRelationship marshal (disk_ref systemRef disk) systemRef
          (inferDiskBusType (di_Device disk)) [])] @
       concat (map (\<lambda>p.
         [PutNode (createDiskPartitionNode marshal p (di_Device disk) systemRef),
          MakeRelation (createContainsRelationship marshal (disk_ref systemRef disk)
            (partition_ref systemRef disk p) ''partition'')]) (Partitions disk))) disks)"

definition interface_ref :: "resource_ref \<Rightarrow> network_info \<Rightarrow> resource_ref" where
  "interface_ref systemRef iface = hardware_ref (interface_spec iface) (interface_name systemRef (ni_Interface iface))"

definition buildNetworkTopology :: "marshaller \<Rightarrow> network_info list \<Rightarrow> resource_ref \<Rightarrow> build_step list" where
  "buildNetworkTopology marshal interfaces systemRef =
     concat (map (\<lambda>iface.
       [PutNode (createNetworkInterfaceNode marshal iface systemRef),
        MakeRelation (createContainsRelationship marshal systemRef (interface_ref systemRef iface) ''physical''),
        MakeRelation (createBusConnectionRelationship marshal (interface_ref systemRef iface) systemRef
          (inferNetworkBusType iface) [])]) interfaces)"

definition hardware_plan :: "marshaller \<Rightarrow> (int list \<Rightarrow> int list) \<Rightarrow> system_env \<Rightarrow> bytes \<Rightarrow> tag list \<Rightarrow>
    hardware_snapshot \<Rightarrow> graph_command list" where
  "hardware_plan marshal order e canonicalName tags snapshot =
     (let systemRef = hardware_ref (system_spec e) canonicalName in
      createSystemNode marshal e canonicalName tags #
      (case CPUInfo snapshot of None \<Rightarrow> [] | Some info \<Rightarrow> topology (buildCPUTopology marshal order info systemRef)) @
      (case MemoryInfo snapshot of None \<Rightarrow> [] | Some info \<Rightarrow> topology (buildMemoryTopology marshal order info systemRef)) @
      (if DiskInfo snapshot \<noteq> [] then topology (buildDiskTopology marshal (DiskInfo snapshot) systemRef) else []) @
      (if NetworkInfo snapshot \<noteq> [] then topology (buildNetworkTopology marshal (NetworkInfo snapshot) systemRef) else []))"

text \<open>\<open>BuildFromSnapshot\<close>; \<open>None\<close> when the lookup of a name panics.\<close>

definition hardware_BuildFromSnapshot :: "marshaller \<Rightarrow> (int list \<Rightarrow> int list) \<Rightarrow> (bytes \<Rightarrow> bool) \<Rightarrow> 's store_ops \<Rightarrow>
    system_env \<Rightarrow> hardware_snapshot \<Rightarrow> 's \<Rightarrow> (graph_error option \<times> 's) option" where
  "hardware_BuildFromSnapshot marshal order registered ops e snapshot s =
     (case CanonicalName (se_fs e) (se_paths e) (se_net e) (se_cloud e) of
        None \<Rightarrow> None
      | Some (Inl _) \<Rightarrow> Some (Some NoCanonicalName, s)
      | Some (Inr canonicalName) \<Rightarrow>
          map_option (\<lambda>tags. run_commands registered ops
            (hardware_plan marshal order e canonicalName tags snapshot) s) (system_tags e))"

section \<open>Plans\<close>

lemmas create_node_defs =
  createCPUCoreNode_def createMemoryModuleNode_def createNUMANode_def createDiskDeviceNode_def
  createDiskPartitionNode_def createNetworkInterfaceNode_def

lemmas buildCPUTopology_eq = buildCPUTopology_def [unfolded create_node_defs]
lemmas buildMemoryTopology_eq = buildMemoryTopology_def [unfolded create_node_defs]
lemmas buildDiskTopology_eq = buildDiskTopology_def [unfolded create_node_defs]
lemmas buildNetworkTopology_eq = buildNetworkTopology_def [unfolded create_node_defs]

text \<open>
  When every message can be marshalled, the steps of a topology function write nodes and create
  relationships between these nodes and the system.
\<close>

definition step_refs :: "build_step \<Rightarrow> resource_ref list" where
  "step_refs st = (case st of PutNode c \<Rightarrow> (case c of UpdateNode r \<Rightarrow> [ref r] | _ \<Rightarrow> []) | _ \<Rightarrow> [])"

definition step_ok :: "resource_ref set \<Rightarrow> build_step \<Rightarrow> bool" where
  "step_ok R st =
     (case st of
        PutNode c \<Rightarrow>
          (case c of UpdateNode r \<Rightarrow> rsrc_metadata r \<noteq> None \<and> ref_type_url (ref r) \<noteq> [] | _ \<Rightarrow> False)
      | MakeRelation r \<Rightarrow>
          (case r of
             Inl _ \<Rightarrow> False
           | Inr rel \<Rightarrow> rel_formed rel \<and> (\<exists>a \<in> R. rel_subject rel = Some a) \<and> (\<exists>b \<in> R. rel_object rel = Some b) \<and>
               (\<exists>m. rel_type_name rel = message_name m)))"

definition steps_closed :: "resource_ref \<Rightarrow> build_step list \<Rightarrow> bool" where
  "steps_closed systemRef steps \<longleftrightarrow>
     list_all (step_ok (insert systemRef (set (concat (map step_refs steps))))) steps"

definition rels_between :: "resource_ref set \<Rightarrow> relationship list \<Rightarrow> bool" where
  "rels_between R rels \<longleftrightarrow>
     list_all (\<lambda>rel. rel_formed rel \<and> (\<exists>a \<in> R. rel_subject rel = Some a) \<and> (\<exists>b \<in> R. rel_object rel = Some b) \<and>
       (\<exists>m. rel_type_name rel = message_name m)) rels"

lemma message_name_nonempty [simp]: "message_name m \<noteq> []"
  by (simp add: message_name_def hardware_package_def)

lemma rels_between_mono: "rels_between R rels \<Longrightarrow> R \<subseteq> S \<Longrightarrow> rels_between S rels"
  unfolding rels_between_def list_all_iff by blast

lemma planned_concat [simp]:
  "planned_nodes (concat css) = concat (map planned_nodes css)"
  "planned_rels (concat css) = concat (map planned_rels css)"
  "never_fails (concat css) = list_all never_fails css"
  by (induction css) auto

lemma step_ok_commands:
  assumes "step_ok R st"
  shows "never_fails (step_command st)" "planned_rels (step_command st) = []"
    "map ref (planned_nodes (step_command st)) = step_refs st"
    "list_all (\<lambda>r. rsrc_metadata r \<noteq> None \<and> ref_type_url (ref r) \<noteq> []) (planned_nodes (step_command st))"
    "rels_between R (step_relation st)"
  using assms
  by (auto simp: step_ok_def step_command_def step_relation_def step_refs_def rels_between_def
      split: build_step.splits graph_command.splits sum.splits)

lemma topology_plan:
  assumes "steps_closed systemRef steps"
  shows "never_fails (topology steps)"
    and "map ref (planned_nodes (topology steps)) = concat (map step_refs steps)"
    and "list_all (\<lambda>r. rsrc_metadata r \<noteq> None \<and> ref_type_url (ref r) \<noteq> []) (planned_nodes (topology steps))"
    and "rels_between (insert systemRef (set (concat (map step_refs steps)))) (planned_rels (topology steps))"
proof -
  let ?R = "insert systemRef (set (concat (map step_refs steps)))"
  have ok: "\<And>st. st \<in> set steps \<Longrightarrow> step_ok ?R st" using assms by (simp add: steps_closed_def list_all_iff)
  note cmds = step_ok_commands [OF ok]
  show "never_fails (topology steps)"
    using cmds(1) by (auto simp: topology_def list_all_iff)
  have "map planned_rels (map step_command steps) = map (\<lambda>_. []) steps" using cmds(2) by simp
  then have rels: "planned_rels (topology steps) = concat (map step_relation steps)"
    by (simp add: topology_def)
  show "rels_between ?R (planned_rels (topology steps))"
    using cmds(5) unfolding rels rels_between_def by (auto simp: list_all_iff)
  have "map (\<lambda>st. map ref (planned_nodes (step_command st))) steps = map step_refs steps"
    by (rule map_cong [OF refl]) (rule cmds(3))
  then show "map ref (planned_nodes (topology steps)) = concat (map step_refs steps)"
    by (simp only: topology_def planned_append planned_concat planned_simps append_Nil2 map_concat map_map comp_def)
  show "list_all (\<lambda>r. rsrc_metadata r \<noteq> None \<and> ref_type_url (ref r) \<noteq> []) (planned_nodes (topology steps))"
    using cmds(4) by (auto simp: topology_def list_all_iff)
qed

lemma put_node_total:
  assumes "marshal spec \<noteq> None"
  shows "\<exists>r. put_node marshal spec name tags = UpdateNode r \<and> ref r = hardware_ref spec name \<and> rsrc_metadata r \<noteq> None"
  using assms by (auto simp: put_node_def hardware_node_def any_new_def ref_def hardware_ref_def empty_meta_def)

lemma hardware_relation_total:
  assumes "marshal p \<noteq> None" "a \<noteq> b"
  shows "\<exists>rel. hardware_relation marshal p a b = Inr rel \<and> rel_formed rel \<and> rel_subject rel = Some a \<and>
    rel_object rel = Some b \<and> rel_type_name rel = message_name p"
  using assms
  by (auto simp: hardware_relation_def any_new_def rel_formed_def predicate_name_def rel_type_name_def
      trim_prefix_def has_prefix_def)

lemmas relation_defs =
  createContainsRelationship_def createNUMAAffinityRelationship_def createSocketSharingRelationship_def
  createNUMADistanceRelationship_def createBusConnectionRelationship_def

lemma step_put:
  assumes "\<And>m. marshal m \<noteq> None"
  shows "step_ok R (PutNode (put_node marshal spec name tags))"
    "step_refs (PutNode (put_node marshal spec name tags)) = [hardware_ref spec name]"
  using put_node_total [of marshal spec name tags] assms by (auto simp: step_ok_def step_refs_def hardware_ref_def)

lemma step_relation_ok:
  assumes "\<And>m. marshal m \<noteq> None" "a \<noteq> b" "a \<in> R" "b \<in> R"
  shows "step_ok R (MakeRelation (hardware_relation marshal p a b))"
  using hardware_relation_total [of marshal p a b] assms by (auto simp: step_ok_def)

lemma step_refs_relation [simp]: "step_refs (MakeRelation r) = []"
  by (simp add: step_refs_def)

lemma hardware_ref_neq: "message_name m \<noteq> message_name m' \<Longrightarrow> hardware_ref m n \<noteq> hardware_ref m' n'"
  by (simp add: hardware_ref_def)

lemma set_first_occurrences: "set (first_occurrences seen xs) = set xs - set seen"
  by (induction seen xs rule: first_occurrences.induct) auto

lemma show_int_inject:
  assumes "show_int i = show_int j"
  shows "i = j"
proof -
  have minus: "CHR ''-'' # s \<noteq> show_nat n" for s n
    using show_nat_digit_set [of "CHR ''-''" n] by (metis is_digit_neq list.set_intros(1))
  have "show_nat m = show_nat n \<Longrightarrow> m = n" for m n by (metis option.inject parse_digits_show_nat)
  from this [of "nat (- i)" "nat (- j)"] this [of "nat i" "nat j"] show ?thesis
    using assms minus minus [symmetric] by (auto simp: show_int_def split: if_splits)
qed

lemma cpu_refs_neq:
  "package_ref info sys i \<noteq> core_ref sys c" "hardware_ref (system_spec e) n \<noteq> package_ref info sys i"
  "Processor c \<noteq> Processor d \<Longrightarrow> core_ref sys c \<noteq> core_ref sys d"
  using show_int_inject
  by (auto simp: package_ref_def core_ref_def hardware_ref_def message_name_def cpu_package_spec_def cpu_core_spec_def
      system_spec_def core_name_def Let_def split: prod.splits)

lemma cpu_closed:
  assumes marshal: "\<And>m. marshal m \<noteq> None" and sys: "sys = hardware_ref (system_spec e) n"
    and order: "\<And>xs. set (order xs) = set xs" and cores: "distinct (map Processor (Cores info))"
  shows "steps_closed sys (buildCPUTopology marshal order info sys)"
proof -
  let ?ids = "first_occurrences [] (map PhysicalID (Cores info))"
  have ids: "set ?ids = PhysicalID ` set (Cores info)" by (simp add: set_first_occurrences)
  have pkg: "createCPUPackageNode marshal info i sys =
      put_node marshal (cpu_package_spec info i) (package_name sys i) []" if "i \<in> set ?ids" for i
  proof -
    have "find (\<lambda>core. PhysicalID core = i) (Cores info) \<noteq> None" using that ids by (auto simp: find_None_iff)
    then show ?thesis by (auto simp: createCPUPackageNode_def)
  qed
  let ?R = "insert sys (set (concat (map step_refs (buildCPUTopology marshal order info sys))))"
  have refs: "package_ref info sys i \<in> ?R" if "i \<in> set ?ids" for i
    using that pkg step_put(2) [OF marshal]
    by (auto simp: buildCPUTopology_eq Let_def package_ref_def intro!: bexI [of _ i])
  have crefs: "core_ref sys c \<in> ?R" if "c \<in> set (Cores info)" for c
    using that step_put(2) [OF marshal]
    by (auto simp: buildCPUTopology_eq Let_def core_ref_def intro!: bexI [of _ c])
  have sharing: "step_ok ?R st" if st: "st \<in> set (socket_sharing marshal info sys i)" for i st
  proof -
    let ?cores = "filter (\<lambda>core. PhysicalID core = i) (Cores info)"
    obtain a b where ab: "a < length ?cores" "b < length ?cores" "a \<noteq> b"
      "st = MakeRelation (createSocketSharingRelationship marshal (core_ref sys (?cores ! a)) (core_ref sys (?cores ! b)) i)"
      using st by (auto simp: socket_sharing_def Let_def split: if_splits)
    have "distinct (map Processor ?cores)" using cores by (simp add: distinct_map_filter)
    then have "Processor (?cores ! a) \<noteq> Processor (?cores ! b)"
      using ab(1-3) nth_eq_iff_index_eq [of "map Processor ?cores" a b] by simp
    moreover have "?cores ! a \<in> set (Cores info)" "?cores ! b \<in> set (Cores info)"
      using nth_mem [OF ab(1)] nth_mem [OF ab(2)] filter_is_subset [of _ "Cores info"] by blast+
    ultimately show ?thesis
      unfolding ab(4) relation_defs using cpu_refs_neq(3) crefs by (intro step_relation_ok marshal) auto
  qed
  have "step_ok ?R st" if "st \<in> set (buildCPUTopology marshal order info sys)" for st
  proof -
    from that consider
      (package) i where "i \<in> set ?ids" "st = PutNode (createCPUPackageNode marshal info i sys)"
    | (contains) i where "i \<in> set ?ids"
        "st = MakeRelation (createContainsRelationship marshal sys (package_ref info sys i) ''physical'')"
    | (core) c where "c \<in> set (Cores info)"
        "st = PutNode (put_node marshal (cpu_core_spec c) (core_name (ref_name sys) (Processor c)) [])"
    | (core_contains) c where "c \<in> set (Cores info)"
        "st = MakeRelation (createContainsRelationship marshal (package_ref info sys (PhysicalID c)) (core_ref sys c) ''physical'')"
    | (socket) i where "st \<in> set (socket_sharing marshal info sys i)"
      unfolding buildCPUTopology_eq Let_def by auto
    then show ?thesis
    proof cases
      case (package i)
      show ?thesis unfolding package(2) pkg [OF package(1)] by (rule step_put(1) [OF marshal])
    next
      case (contains i)
      then show ?thesis unfolding contains(2) relation_defs
        using cpu_refs_neq(2) refs by (intro step_relation_ok marshal) (auto simp: sys)
    next
      case (core c)
      then show ?thesis using step_put(1) [OF marshal] by simp
    next
      case (core_contains c)
      then show ?thesis unfolding core_contains(2) relation_defs
        using cpu_refs_neq(1) refs crefs ids by (intro step_relation_ok marshal) auto
    next
      case (socket i)
      then show ?thesis by (rule sharing)
    qed
  qed
  then show ?thesis by (simp add: steps_closed_def list_all_iff)
qed

lemma memory_refs_neq:
  "hardware_ref (system_spec e) n \<noteq> memory_ref info sys" "hardware_ref (system_spec e) n \<noteq> numa_ref sys a"
  "memory_ref info sys \<noteq> numa_ref sys a" "NodeID a \<noteq> NodeID b \<Longrightarrow> numa_ref sys a \<noteq> numa_ref sys b"
  using show_int_inject
  by (auto simp: memory_ref_def numa_ref_def hardware_ref_def message_name_def memory_spec_def numa_spec_def
      system_spec_def numa_name_def split: prod.splits)

lemma numa_by_id_some:
  assumes "numa_by_id nodes i = Some a"
  shows "a \<in> set nodes" "NodeID a = i"
  using assms by (auto simp: numa_by_id_def find_Some_iff) (metis length_rev nth_mem set_rev)

lemma memory_closed:
  assumes marshal: "\<And>m. marshal m \<noteq> None" and sys: "sys = hardware_ref (system_spec e) n"
  shows "steps_closed sys (buildMemoryTopology marshal order info sys)"
proof -
  let ?R = "insert sys (set (concat (map step_refs (buildMemoryTopology marshal order info sys))))"
  have mem: "memory_ref info sys \<in> ?R"
    using step_put(2) [OF marshal] by (simp add: buildMemoryTopology_eq memory_ref_def)
  have nrefs: "numa_ref sys a \<in> ?R" if "a \<in> set (NUMANodes info)" "NUMAEnabled info" for a
    using that step_put(2) [OF marshal]
    by (auto simp: buildMemoryTopology_eq numa_ref_def intro!: bexI [of _ a])
  have distances: "step_ok ?R st"
    if st: "st \<in> set (numa_distances marshal (NUMANodes info) sys i)" and on: "NUMAEnabled info" for i st
  proof -
    obtain a b k d where ab: "numa_by_id (NUMANodes info) i = Some a" "numa_by_id (NUMANodes info) k = Some b" "i \<noteq> k"
      "st = MakeRelation (createNUMADistanceRelationship marshal (numa_ref sys a) (numa_ref sys b) k d)"
      using st by (auto simp: numa_distances_def eq_commute split: option.splits if_splits)
    note nodes = numa_by_id_some [OF ab(1)] numa_by_id_some [OF ab(2)]
    show ?thesis unfolding ab(4) relation_defs
      by (rule step_relation_ok [OF marshal memory_refs_neq(4) nrefs nrefs]) (use nodes ab(3) on in auto)
  qed
  have "step_ok ?R st" if "st \<in> set (buildMemoryTopology marshal order info sys)" for st
  proof -
    from that consider
      (node) spec nm where "st = PutNode (put_node marshal spec nm [])"
    | (contains) "st = MakeRelation (createContainsRelationship marshal sys (memory_ref info sys) ''physical'')"
    | (numa) a where "a \<in> set (NUMANodes info)" "NUMAEnabled info"
        "st = MakeRelation (createContainsRelationship marshal sys (numa_ref sys a) ''logical'')"
    | (affinity) a where "a \<in> set (NUMANodes info)" "NUMAEnabled info"
        "st = MakeRelation (createNUMAAffinityRelationship marshal (memory_ref info sys) (numa_ref sys a) (NodeID a))"
    | (distance) i where "st \<in> set (numa_distances marshal (NUMANodes info) sys i)" "NUMAEnabled info"
      unfolding buildMemoryTopology_eq by (auto split: if_splits)
    then show ?thesis
    proof cases
      case node
      then show ?thesis using step_put(1) [OF marshal] by simp
    next
      case contains
      then show ?thesis unfolding contains relation_defs
        using memory_refs_neq(1) mem by (intro step_relation_ok marshal) (auto simp: sys)
    next
      case (numa a)
      then show ?thesis unfolding numa(3) relation_defs
        using memory_refs_neq(2) nrefs by (intro step_relation_ok marshal) (auto simp: sys)
    next
      case (affinity a)
      then show ?thesis unfolding affinity(3) relation_defs
        using memory_refs_neq(3) nrefs mem by (intro step_relation_ok marshal) auto
    qed (rule distances)
  qed
  then show ?thesis by (simp add: steps_closed_def list_all_iff)
qed

lemma device_refs_neq:
  "hardware_ref (system_spec e) n \<noteq> disk_ref sys d" "disk_ref sys d \<noteq> partition_ref sys d' p"
  "hardware_ref (system_spec e) n \<noteq> interface_ref sys i"
  by (simp_all add: disk_ref_def partition_ref_def interface_ref_def hardware_ref_def message_name_def disk_spec_def
      partition_spec_def interface_spec_def system_spec_def split: prod.splits)

lemma disk_closed:
  assumes marshal: "\<And>m. marshal m \<noteq> None" and sys: "sys = hardware_ref (system_spec e) n"
  shows "steps_closed sys (buildDiskTopology marshal disks sys)"
proof -
  let ?R = "insert sys (set (concat (map step_refs (buildDiskTopology marshal disks sys))))"
  have drefs: "disk_ref sys d \<in> ?R" if "d \<in> set disks" for d
    using that step_put(2) [OF marshal] by (auto simp: buildDiskTopology_eq disk_ref_def intro!: bexI [of _ d])
  have prefs: "partition_ref sys d p \<in> ?R" if "d \<in> set disks" "p \<in> set (Partitions d)" for d p
    using that step_put(2) [OF marshal]
    by (auto simp: buildDiskTopology_eq partition_ref_def intro!: bexI [of _ d] bexI [of _ p])
  have "step_ok ?R st" if "st \<in> set (buildDiskTopology marshal disks sys)" for st
  proof -
    from that consider
      (node) spec nm where "st = PutNode (put_node marshal spec nm [])"
    | (contains) d where "d \<in> set disks"
        "st = MakeRelation (createContainsRelationship marshal sys (disk_ref sys d) ''physical'')"
    | (bus) d where "d \<in> set disks"
        "st = MakeRelation (createBusConnectionRelationship marshal (disk_ref sys d) sys (inferDiskBusType (di_Device d)) [])"
    | (part) d p where "d \<in> set disks" "p \<in> set (Partitions d)"
        "st = MakeRelation (createContainsRelationship marshal (disk_ref sys d) (partition_ref sys d p) ''partition'')"
      unfolding buildDiskTopology_eq by auto
    then show ?thesis
    proof cases
      case node
      then show ?thesis using step_put(1) [OF marshal] by simp
    next
      case (contains d)
      then show ?thesis unfolding contains(2) relation_defs
        using device_refs_neq(1) drefs by (intro step_relation_ok marshal) (auto simp: sys)
    next
      case (bus d)
      then show ?thesis unfolding bus(2) relation_defs
        using device_refs_neq(1) [symmetric] drefs by (intro step_relation_ok marshal) (auto simp: sys)
    next
      case (part d p)
      then show ?thesis unfolding part(3) relation_defs
        using device_refs_neq(2) drefs prefs by (intro step_relation_ok marshal) auto
    qed
  qed
  then show ?thesis by (simp add: steps_closed_def list_all_iff)
qed

lemma network_closed:
  assumes marshal: "\<And>m. marshal m \<noteq> None" and sys: "sys = hardware_ref (system_spec e) n"
  shows "steps_closed sys (buildNetworkTopology marshal ifaces sys)"
proof -
  let ?R = "insert sys (set (concat (map step_refs (buildNetworkTopology marshal ifaces sys))))"
  have irefs: "interface_ref sys i \<in> ?R" if "i \<in> set ifaces" for i
    using that step_put(2) [OF marshal] by (auto simp: buildNetworkTopology_eq interface_ref_def intro!: bexI [of _ i])
  have "step_ok ?R st" if "st \<in> set (buildNetworkTopology marshal ifaces sys)" for st
  proof -
    from that consider
      (node) spec nm where "st = PutNode (put_node marshal spec nm [])"
    | (rel) m i where "i \<in> set ifaces" "st = MakeRelation (hardware_relation marshal m sys (interface_ref sys i))"
    | (bus) m i where "i \<in> set ifaces" "st = MakeRelation (hardware_relation marshal m (interface_ref sys i) sys)"
      unfolding buildNetworkTopology_eq relation_defs by auto
    then show ?thesis
    proof cases
      case node
      then show ?thesis using step_put(1) [OF marshal] by simp
    next
      case (rel m i)
      then show ?thesis unfolding rel(2)
        using device_refs_neq(3) irefs by (intro step_relation_ok marshal) (auto simp: sys)
    next
      case (bus m i)
      then show ?thesis unfolding bus(2)
        using device_refs_neq(3) [symmetric] irefs by (intro step_relation_ok marshal) (auto simp: sys)
    qed
  qed
  then show ?thesis by (simp add: steps_closed_def list_all_iff)
qed

section \<open>The whole plan\<close>

definition plan_closed :: "resource_ref \<Rightarrow> graph_command list \<Rightarrow> bool" where
  "plan_closed sys cmds \<longleftrightarrow> never_fails cmds \<and>
     list_all (\<lambda>r. rsrc_metadata r \<noteq> None \<and> ref_type_url (ref r) \<noteq> []) (planned_nodes cmds) \<and>
     rels_between (insert sys (ref ` set (planned_nodes cmds))) (planned_rels cmds)"

lemma plan_closed_append: "plan_closed sys xs \<Longrightarrow> plan_closed sys ys \<Longrightarrow> plan_closed sys (xs @ ys)"
  unfolding plan_closed_def by (auto simp: rels_between_def list_all_iff)

lemma plan_closed_Nil: "plan_closed sys []"
  by (simp add: plan_closed_def rels_between_def)

lemma plan_closed_topology: "steps_closed sys steps \<Longrightarrow> plan_closed sys (topology steps)"
proof -
  assume steps: "steps_closed sys steps"
  have "ref ` set (planned_nodes (topology steps)) = set (concat (map step_refs steps))"
    by (simp only: topology_plan(2) [OF steps, symmetric] set_map)
  then show ?thesis using topology_plan(1,3,4) [OF steps] by (simp only: plan_closed_def simp_thms)
qed

lemma hardware_plan_closed:
  fixes e :: system_env and name :: bytes
  assumes marshal: "\<And>m. marshal m \<noteq> None" and order: "\<And>xs. set (order xs) = set xs"
    and cores: "\<And>info. CPUInfo snapshot = Some info \<Longrightarrow> distinct (map Processor (Cores info))"
  defines "sys \<equiv> hardware_ref (system_spec e) name"
  shows "plan_closed sys (hardware_plan marshal order e name tags snapshot)"
    "\<exists>r \<in> set (planned_nodes (hardware_plan marshal order e name tags snapshot)). ref r = sys"
proof -
  obtain r where r: "put_node marshal (system_spec e) name tags = UpdateNode r" "ref r = sys" "rsrc_metadata r \<noteq> None"
    using put_node_total [of marshal "system_spec e" name tags] marshal unfolding sys_def by blast
  have sys: "plan_closed sys [UpdateNode r]"
    using r by (simp add: plan_closed_def rels_between_def sys_def hardware_ref_def)
  have cpu: "plan_closed sys (case CPUInfo snapshot of None \<Rightarrow> [] | Some info \<Rightarrow> topology (buildCPUTopology marshal order info sys))"
    using cpu_closed [OF marshal meta_eq_to_obj_eq [OF sys_def] order cores]
    by (simp add: plan_closed_Nil plan_closed_topology split: option.split)
  have mem: "plan_closed sys (case MemoryInfo snapshot of None \<Rightarrow> [] | Some info \<Rightarrow> topology (buildMemoryTopology marshal order info sys))"
    using memory_closed [OF marshal meta_eq_to_obj_eq [OF sys_def]]
    by (simp add: plan_closed_Nil plan_closed_topology split: option.split)
  have disk: "plan_closed sys (if DiskInfo snapshot \<noteq> [] then topology (buildDiskTopology marshal (DiskInfo snapshot) sys) else [])"
    using disk_closed [OF marshal meta_eq_to_obj_eq [OF sys_def]] by (simp add: plan_closed_Nil plan_closed_topology)
  have net: "plan_closed sys (if NetworkInfo snapshot \<noteq> [] then topology (buildNetworkTopology marshal (NetworkInfo snapshot) sys) else [])"
    using network_closed [OF marshal meta_eq_to_obj_eq [OF sys_def]] by (simp add: plan_closed_Nil plan_closed_topology)
  have plan: "hardware_plan marshal order e name tags snapshot = [UpdateNode r] @
      (case CPUInfo snapshot of None \<Rightarrow> [] | Some info \<Rightarrow> topology (buildCPUTopology marshal order info sys)) @
      (case MemoryInfo snapshot of None \<Rightarrow> [] | Some info \<Rightarrow> topology (buildMemoryTopology marshal order info sys)) @
      (if DiskInfo snapshot \<noteq> [] then topology (buildDiskTopology marshal (DiskInfo snapshot) sys) else []) @
      (if NetworkInfo snapshot \<noteq> [] then topology (buildNetworkTopology marshal (NetworkInfo snapshot) sys) else [])"
    by (simp only: hardware_plan_def createSystemNode_def Let_def sys_def [symmetric] r append_Cons append_Nil)
  show "plan_closed sys (hardware_plan marshal order e name tags snapshot)"
    unfolding plan by (intro plan_closed_append sys cpu mem disk net)
  show "\<exists>r \<in> set (planned_nodes (hardware_plan marshal order e name tags snapshot)). ref r = sys"
    unfolding plan using r by simp
qed

section \<open>The nodes of a snapshot\<close>

text \<open>What the graph of a snapshot has: the references of its devices.\<close>

definition snapshot_refs :: "resource_ref \<Rightarrow> hardware_snapshot \<Rightarrow> resource_ref set" where
  "snapshot_refs sys snapshot = insert sys
     ((case CPUInfo snapshot of None \<Rightarrow> {}
       | Some info \<Rightarrow> (\<lambda>c. package_ref info sys (PhysicalID c)) ` set (Cores info) \<union> core_ref sys ` set (Cores info)) \<union>
      (case MemoryInfo snapshot of None \<Rightarrow> {}
       | Some info \<Rightarrow> insert (memory_ref info sys) (if NUMAEnabled info then numa_ref sys ` set (NUMANodes info) else {})) \<union>
      (\<Union>d \<in> set (DiskInfo snapshot). insert (disk_ref sys d) (partition_ref sys d ` set (Partitions d))) \<union>
      interface_ref sys ` set (NetworkInfo snapshot))"

lemma cpu_step_refs:
  assumes "\<And>m. marshal m \<noteq> None"
  shows "set (concat (map step_refs (buildCPUTopology marshal order info sys))) =
    (\<lambda>c. package_ref info sys (PhysicalID c)) ` set (Cores info) \<union> core_ref sys ` set (Cores info)"
proof -
  have pkg: "step_refs (PutNode (createCPUPackageNode marshal info (PhysicalID c) sys)) = [package_ref info sys (PhysicalID c)]"
    if "c \<in> set (Cores info)" for c
  proof -
    have "find (\<lambda>core. PhysicalID core = PhysicalID c) (Cores info) \<noteq> None" using that by (auto simp: find_None_iff)
    then show ?thesis using step_put(2) [OF assms] by (auto simp: createCPUPackageNode_def package_ref_def)
  qed
  have none: "step_refs st = []" if "st \<in> set (socket_sharing marshal info sys i)" for st i
    using that by (auto simp: socket_sharing_def Let_def split: if_splits)
  show ?thesis using pkg none step_put(2) [OF assms]
    by (auto simp: buildCPUTopology_eq Let_def set_first_occurrences core_ref_def)
qed

lemma memory_step_refs:
  assumes "\<And>m. marshal m \<noteq> None"
  shows "set (concat (map step_refs (buildMemoryTopology marshal order info sys))) =
    insert (memory_ref info sys) (if NUMAEnabled info then numa_ref sys ` set (NUMANodes info) else {})"
proof -
  have none: "step_refs st = []" if "st \<in> set (numa_distances marshal (NUMANodes info) sys i)" for st i
    using that by (auto simp: numa_distances_def split: option.splits if_splits)
  show ?thesis using none step_put(2) [OF assms]
    by (auto simp: buildMemoryTopology_eq memory_ref_def numa_ref_def)
qed

lemma device_step_refs:
  assumes "\<And>m. marshal m \<noteq> None"
  shows "set (concat (map step_refs (buildDiskTopology marshal disks sys))) =
      (\<Union>d \<in> set disks. insert (disk_ref sys d) (partition_ref sys d ` set (Partitions d)))"
    "set (concat (map step_refs (buildNetworkTopology marshal ifaces sys))) = interface_ref sys ` set ifaces"
  using step_put(2) [OF assms]
  by (auto simp: buildDiskTopology_eq buildNetworkTopology_eq disk_ref_def partition_ref_def interface_ref_def)

lemma topology_refs:
  assumes "steps_closed sys steps"
  shows "ref ` set (planned_nodes (topology steps)) = set (concat (map step_refs steps))"
  by (simp only: topology_plan(2) [OF assms, symmetric] set_map)

lemma hardware_plan_refs:
  fixes e :: system_env and name :: bytes
  assumes marshal: "\<And>m. marshal m \<noteq> None" and order: "\<And>xs. set (order xs) = set xs"
    and cores: "\<And>info. CPUInfo snapshot = Some info \<Longrightarrow> distinct (map Processor (Cores info))"
  defines "sys \<equiv> hardware_ref (system_spec e) name"
  shows "ref ` set (planned_nodes (hardware_plan marshal order e name tags snapshot)) = snapshot_refs sys snapshot"
proof -
  obtain r where r: "put_node marshal (system_spec e) name tags = UpdateNode r" "ref r = sys" "rsrc_metadata r \<noteq> None"
    using put_node_total [of marshal "system_spec e" name tags] marshal unfolding sys_def by blast
  note sys = meta_eq_to_obj_eq [OF sys_def]
  let ?refs = "\<lambda>cmds. ref ` set (planned_nodes cmds)"
  have cpu: "?refs (case CPUInfo snapshot of None \<Rightarrow> [] | Some info \<Rightarrow> topology (buildCPUTopology marshal order info sys)) =
      (case CPUInfo snapshot of None \<Rightarrow> {}
       | Some info \<Rightarrow> (\<lambda>c. package_ref info sys (PhysicalID c)) ` set (Cores info) \<union> core_ref sys ` set (Cores info))"
  proof (cases "CPUInfo snapshot")
    case (Some info)
    have "?refs (topology (buildCPUTopology marshal order info sys)) =
        (\<lambda>c. package_ref info sys (PhysicalID c)) ` set (Cores info) \<union> core_ref sys ` set (Cores info)"
      by (simp only: topology_refs [OF cpu_closed [OF marshal sys order cores [OF Some]]] cpu_step_refs [OF marshal])
    then show ?thesis by (simp only: Some option.case)
  qed simp
  have mem: "?refs (case MemoryInfo snapshot of None \<Rightarrow> [] | Some info \<Rightarrow> topology (buildMemoryTopology marshal order info sys)) =
      (case MemoryInfo snapshot of None \<Rightarrow> {}
       | Some info \<Rightarrow> insert (memory_ref info sys) (if NUMAEnabled info then numa_ref sys ` set (NUMANodes info) else {}))"
  proof (cases "MemoryInfo snapshot")
    case (Some info)
    have "?refs (topology (buildMemoryTopology marshal order info sys)) =
        insert (memory_ref info sys) (if NUMAEnabled info then numa_ref sys ` set (NUMANodes info) else {})"
      by (simp only: topology_refs [OF memory_closed [OF marshal sys]] memory_step_refs [OF marshal])
    then show ?thesis by (simp only: Some option.case)
  qed simp
  have disk: "?refs (if DiskInfo snapshot \<noteq> [] then topology (buildDiskTopology marshal (DiskInfo snapshot) sys) else []) =
      (\<Union>d \<in> set (DiskInfo snapshot). insert (disk_ref sys d) (partition_ref sys d ` set (Partitions d)))"
  proof (cases "DiskInfo snapshot = []")
    case False
    have "?refs (topology (buildDiskTopology marshal (DiskInfo snapshot) sys)) =
        (\<Union>d \<in> set (DiskInfo snapshot). insert (disk_ref sys d) (partition_ref sys d ` set (Partitions d)))"
      by (simp only: topology_refs [OF disk_closed [OF marshal sys]] device_step_refs(1) [OF marshal])
    then show ?thesis using False by (simp only: if_True not_False_eq_True)
  qed simp
  have net: "?refs (if NetworkInfo snapshot \<noteq> [] then topology (buildNetworkTopology marshal (NetworkInfo snapshot) sys) else []) =
      interface_ref sys ` set (NetworkInfo snapshot)"
  proof (cases "NetworkInfo snapshot = []")
    case False
    have "?refs (topology (buildNetworkTopology marshal (NetworkInfo snapshot) sys)) =
        interface_ref sys ` set (NetworkInfo snapshot)"
      by (simp only: topology_refs [OF network_closed [OF marshal sys]] device_step_refs(2) [OF marshal])
    then show ?thesis using False by (simp only: if_True not_False_eq_True)
  qed simp
  show ?thesis unfolding hardware_plan_def createSystemNode_def Let_def snapshot_refs_def sys_def [symmetric] r(1)
    by (simp only: planned_simps planned_append set_append list.set image_Un image_insert r(2) cpu mem disk net Un_assoc)
qed

end
