(* ===== verification/ContainerGraph.thy ===== *)
theory ContainerGraph
  imports HardwareGraph Containers HostParsers
begin

text \<open>
  The container graph, \<open>internal/containers/graph\<close>: nodes for containers and processes, and
  relationships in both directions to the processors and memory nodes a container is pinned to, from
  a process to its parent and to its container. \<open>ContainerInfo\<close> has the fields of the \<open>Container\<close> of
  \<open>pkg/containers\<close>, whose record is used for both.
\<close>

section \<open>Messages\<close>

datatype cgroup_version = CGROUP_VERSION_V1 | CGROUP_VERSION_V2
datatype process_state =
  PROCESS_STATE_UNKNOWN | PROCESS_STATE_RUNNING | PROCESS_STATE_SLEEPING | PROCESS_STATE_DISK_SLEEP
| PROCESS_STATE_ZOMBIE | PROCESS_STATE_STOPPED | PROCESS_STATE_TRACING_STOP | PROCESS_STATE_PAGING
| PROCESS_STATE_DEAD | PROCESS_STATE_WAKEKILL | PROCESS_STATE_PARKED

record process_info =
  pi_PID :: int
  pi_PPID :: int
  pi_PGID :: int
  pi_SID :: int
  pi_Command :: bytes
  pi_Cmdline :: bytes
  pi_State :: bytes

datatype runtime_message =
  ContainerNode bytes container_runtime cgroup_version bytes bytes bytes "(bytes \<rightharpoonup> bytes) option" bytes bytes
    "32 word option" "32 word option" "32 word option" "uint64 option" bytes bytes
| ProcessNode int int int int bytes bytes process_state
| RtContains
| RtContainedBy

type_synonym runtime_marshaller = "runtime_message \<Rightarrow> bytes option"

definition runtime_name :: "runtime_message \<Rightarrow> bytes" where
  "runtime_name m = ''antimetal.runtime.v1.'' @
     (case m of ContainerNode _ _ _ _ _ _ _ _ _ _ _ _ _ _ _ \<Rightarrow> ''ContainerNode''
      | ProcessNode _ _ _ _ _ _ _ \<Rightarrow> ''ProcessNode'' | RtContains \<Rightarrow> ''Contains'' | RtContainedBy \<Rightarrow> ''ContainedBy'')"

definition typeContainer :: bytes where "typeContainer = ''antimetal.runtime.v1.ContainerNode''"
definition typeProcess :: bytes where "typeProcess = ''antimetal.runtime.v1.ProcessNode''"

definition parseCgroupVersion :: "int \<Rightarrow> cgroup_version" where
  "parseCgroupVersion version = (if version = 1 then CGROUP_VERSION_V1 else if version = 2 then CGROUP_VERSION_V2
     else CGROUP_VERSION_V1)"

definition parseProcessState :: "bytes \<Rightarrow> process_state" where
  "parseProcessState state =
     (case map_of [(''R'', PROCESS_STATE_RUNNING), (''S'', PROCESS_STATE_SLEEPING), (''D'', PROCESS_STATE_DISK_SLEEP),
        (''Z'', PROCESS_STATE_ZOMBIE), (''T'', PROCESS_STATE_STOPPED), (''t'', PROCESS_STATE_TRACING_STOP),
        (''W'', PROCESS_STATE_PAGING), (''X'', PROCESS_STATE_DEAD), (''K'', PROCESS_STATE_WAKEKILL),
        (''P'', PROCESS_STATE_PARKED)] state of Some s \<Rightarrow> s | None \<Rightarrow> PROCESS_STATE_UNKNOWN)"

section \<open>Nodes\<close>

definition host_ns :: "bytes \<Rightarrow> bytes \<Rightarrow> namespace" where
  "host_ns systemID container = NamespaceHost \<lparr>host_name = systemID, host_container = container\<rparr>"

definition runtime_node :: "runtime_marshaller \<Rightarrow> runtime_message \<Rightarrow> bytes \<Rightarrow> namespace \<Rightarrow> resource option" where
  "runtime_node marshal spec name ns =
     map_option (\<lambda>specAny.
       \<lparr>rsrc_type = Some \<lparr>td_kind = ''resource.v1.Resource'', td_type = runtime_name spec\<rparr>,
        rsrc_metadata = Some (empty_meta\<lparr>meta_provider := PROVIDER_ANTIMETAL, meta_name := name,
          meta_namespace := Some ns\<rparr>),
        rsrc_spec = Some specAny\<rparr>) (any_new marshal runtime_name spec)"

definition runtime_put :: "runtime_marshaller \<Rightarrow> runtime_message \<Rightarrow> bytes \<Rightarrow> namespace \<Rightarrow> graph_command" where
  "runtime_put marshal spec name ns =
     (case runtime_node marshal spec name ns of
        None \<Rightarrow> GraphFail (SpecNotMarshalled (runtime_name spec))
      | Some r \<Rightarrow> UpdateNode r)"

definition container_spec :: "container \<Rightarrow> runtime_message" where
  "container_spec c = ContainerNode (cont_ID c) (cont_Runtime c) (parseCgroupVersion (CgroupVersion c)) (CgroupPath c)
     (ImageName c) (ImageTag c) (Labels c) (ContainerName c) (WorkloadName c) (CPUShares c) (CPUQuotaUs c)
     (CPUPeriodUs c) (MemoryLimitBytes c) (CpusetCpus c) (CpusetMems c)"

definition createContainerNode :: "runtime_marshaller \<Rightarrow> bytes \<Rightarrow> container \<Rightarrow> graph_command" where
  "createContainerNode marshal systemID c = runtime_put marshal (container_spec c) (cont_ID c) (host_ns systemID [])"

definition container_ref :: "bytes \<Rightarrow> bytes \<Rightarrow> resource_ref" where
  "container_ref systemID i = \<lparr>ref_type_url = typeContainer, ref_name = i, ref_namespace = Some (host_ns systemID [])\<rparr>"

text \<open>The line is split at the first two colons; the rest is the path.\<close>

definition cgroup_line_path :: "bytes \<Rightarrow> bytes option" where
  "cgroup_line_path line =
     (case split_on (CHR '':'') line of a # b # c # rest \<Rightarrow> Some (join_with (CHR '':'') (c # rest)) | _ \<Rightarrow> None)"

definition processMatchesContainer :: "bytes \<Rightarrow> container \<Rightarrow> bool" where
  "processMatchesContainer cgroupContent c =
     list_ex (\<lambda>line.
       case cgroup_line_path line of
         None \<Rightarrow> False
       | Some path \<Rightarrow>
           cont_ID c \<noteq> [] \<and> str_contains path (cont_ID c) \<or>
           CgroupPath c \<noteq> [] \<and> str_contains path (CgroupPath c) \<or>
           (case cont_Runtime c of
              CONTAINER_RUNTIME_DOCKER \<Rightarrow> str_contains path ''docker'' \<and> str_contains path (cont_ID c)
            | CONTAINER_RUNTIME_CONTAINERD \<Rightarrow> str_contains path ''containerd'' \<and> str_contains path (cont_ID c)
            | CONTAINER_RUNTIME_CRI_CONTAINERD \<Rightarrow> str_contains path ''containerd'' \<and> str_contains path (cont_ID c)
            | CONTAINER_RUNTIME_CRI_O \<Rightarrow> str_contains path ''crio'' \<and> str_contains path (cont_ID c)
            | _ \<Rightarrow> False)) (split_on (CHR 0x0A) (trim_space cgroupContent))"

text \<open>\<open>exists\<close> tells whether \<open>os.Stat\<close> of a path succeeds.\<close>

definition findProcessContainer :: "(bytes \<Rightarrow> bool) \<Rightarrow> host_fs \<Rightarrow> bytes \<Rightarrow> int \<Rightarrow> container list \<Rightarrow> bytes" where
  "findProcessContainer exists fs proc pid containers =
     (let procDir = filepath_Join [proc, show_int pid] in
      if \<not> exists procDir then []
      else (case os_ReadFile (fs (filepath_Join [procDir, ''cgroup''])) of
              None \<Rightarrow> []
            | Some content \<Rightarrow>
                (case find (processMatchesContainer content) containers of None \<Rightarrow> [] | Some c \<Rightarrow> cont_ID c)))"

definition process_spec :: "process_info \<Rightarrow> runtime_message" where
  "process_spec p = ProcessNode (pi_PID p) (pi_PPID p) (pi_PGID p) (pi_SID p) (pi_Command p) (pi_Cmdline p)
     (parseProcessState (pi_State p))"

definition createProcessNode :: "runtime_marshaller \<Rightarrow> (int \<Rightarrow> bytes) \<Rightarrow> bytes \<Rightarrow> process_info \<Rightarrow> graph_command" where
  "createProcessNode marshal container_of systemID p =
     runtime_put marshal (process_spec p) (show_int (pi_PID p)) (host_ns systemID (container_of (pi_PID p)))"

definition process_ref :: "(int \<Rightarrow> bytes) \<Rightarrow> bytes \<Rightarrow> int \<Rightarrow> resource_ref" where
  "process_ref container_of systemID pid =
     \<lparr>ref_type_url = typeProcess, ref_name = show_int pid, ref_namespace = Some (host_ns systemID (container_of pid))\<rparr>"

section \<open>Relationships\<close>

definition runtime_relation :: "runtime_marshaller \<Rightarrow> runtime_message \<Rightarrow> resource_ref \<Rightarrow> resource_ref \<Rightarrow>
    relationship option" where
  "runtime_relation marshal predicate subject object =
     map_option (\<lambda>predicateAny.
       \<lparr>rel_type = Some \<lparr>td_kind = ''resource.v1.Relationship'', td_type = runtime_name predicate\<rparr>,
        rel_id = [], rel_subject = Some subject, rel_object = Some object, rel_predicate = Some predicateAny,
        rel_created_at = None, rel_updated_at = None, rel_deleted_at = None\<rparr>) (any_new marshal runtime_name predicate)"

text \<open>The outer contains the inner, and the inner is contained by the outer; both or none.\<close>

definition contains_both_ways :: "runtime_marshaller \<Rightarrow> resource_ref \<Rightarrow> resource_ref \<Rightarrow> relationship list option" where
  "contains_both_ways marshal outer inner =
     (case runtime_relation marshal RtContains outer inner of
        None \<Rightarrow> None
      | Some containsRel \<Rightarrow>
          (case runtime_relation marshal RtContainedBy inner outer of
             None \<Rightarrow> None | Some containedByRel \<Rightarrow> Some [containsRel, containedByRel]))"

definition createParentOfRelationship :: "runtime_marshaller \<Rightarrow> resource_ref \<Rightarrow> resource_ref \<Rightarrow> relationship list option" where
  "createParentOfRelationship marshal parentRef childRef = contains_both_ways marshal parentRef childRef"

definition createContainerProcessRelationship :: "runtime_marshaller \<Rightarrow> resource_ref \<Rightarrow> resource_ref \<Rightarrow> relationship list option" where
  "createContainerProcessRelationship marshal containerRef processRef = contains_both_ways marshal containerRef processRef"

definition createContainerHardwareRelationship :: "runtime_marshaller \<Rightarrow> resource_ref \<Rightarrow> resource_ref \<Rightarrow> relationship list option" where
  "createContainerHardwareRelationship marshal containerRef hardwareRef = contains_both_ways marshal hardwareRef containerRef"

text \<open>A relationship that cannot be created is logged and left out.\<close>

definition made_relations :: "relationship list option list \<Rightarrow> relationship list" where
  "made_relations rss = concat (map (\<lambda>rs. case rs of None \<Rightarrow> [] | Some xs \<Rightarrow> xs) rss)"

section \<open>The builder\<close>

definition builder_systemID :: "(unit, bytes) result \<Rightarrow> bytes" where
  "builder_systemID name = (case name of Inl _ \<Rightarrow> ''unknown'' | Inr n \<Rightarrow> n)"

definition cpu_core_ref :: "bytes \<Rightarrow> int \<Rightarrow> resource_ref" where
  "cpu_core_ref systemID i =
     \<lparr>ref_type_url = ''antimetal.hardware.v1.CPUCoreNode'', ref_name = core_name systemID i, ref_namespace = None\<rparr>"

definition numa_node_ref :: "bytes \<Rightarrow> int \<Rightarrow> resource_ref" where
  "numa_node_ref systemID i =
     \<lparr>ref_type_url = ''antimetal.hardware.v1.NUMANode'', ref_name = numa_name systemID i, ref_namespace = None\<rparr>"

definition pinned_relations :: "runtime_marshaller \<Rightarrow> (int \<Rightarrow> resource_ref) \<Rightarrow> resource_ref \<Rightarrow> bytes \<Rightarrow> relationship list" where
  "pinned_relations marshal hardware containerRef cpuset =
     (case ParseCPUList cpuset of
        Inl _ \<Rightarrow> []
      | Inr ids \<Rightarrow> made_relations (map (\<lambda>i. createContainerHardwareRelationship marshal containerRef (hardware i)) ids))"

definition createContainerCPURelationships :: "runtime_marshaller \<Rightarrow> bytes \<Rightarrow> resource_ref \<Rightarrow> bytes \<Rightarrow> graph_command" where
  "createContainerCPURelationships marshal systemID containerRef cpusetCpus =
     AddRelations (pinned_relations marshal (cpu_core_ref systemID) containerRef cpusetCpus)"

definition createContainerNUMARelationships :: "runtime_marshaller \<Rightarrow> bytes \<Rightarrow> resource_ref \<Rightarrow> bytes \<Rightarrow> graph_command" where
  "createContainerNUMARelationships marshal systemID containerRef cpusetMems =
     AddRelations (pinned_relations marshal (numa_node_ref systemID) containerRef cpusetMems)"

text \<open>An error of a command that is logged only.\<close>

definition try_command :: "(bytes \<Rightarrow> bool) \<Rightarrow> 's store_ops \<Rightarrow> graph_command \<Rightarrow> 's \<Rightarrow> 's" where
  "try_command registered ops cmd s = snd (run_command registered ops cmd s)"

fun buildContainerTopology :: "runtime_marshaller \<Rightarrow> (bytes \<Rightarrow> bool) \<Rightarrow> 's store_ops \<Rightarrow> bytes \<Rightarrow> container list \<Rightarrow> 's \<Rightarrow>
    graph_error option \<times> 's" where
  "buildContainerTopology marshal registered ops systemID [] s = (None, s)"
| "buildContainerTopology marshal registered ops systemID (c # cs) s =
     (case run_command registered ops (createContainerNode marshal systemID c) s of
        (Some err, s1) \<Rightarrow> (Some err, s1)
      | (None, s1) \<Rightarrow>
          (let containerRef = container_ref systemID (cont_ID c);
               s2 = (if CpusetCpus c \<noteq> []
                     then try_command registered ops (createContainerCPURelationships marshal systemID containerRef (CpusetCpus c)) s1
                     else s1);
               s3 = (if CpusetMems c \<noteq> []
                     then try_command registered ops (createContainerNUMARelationships marshal systemID containerRef (CpusetMems c)) s2
                     else s2)
           in buildContainerTopology marshal registered ops systemID cs s3))"

definition getContainerRefFromProcessNamespace :: "bytes \<Rightarrow> resource_ref \<Rightarrow> resource_ref option" where
  "getContainerRefFromProcessNamespace systemID processRef =
     (case ref_namespace processRef of
        Some (NamespaceHost ns) \<Rightarrow>
          if host_container ns = [] then None else Some (container_ref systemID (host_container ns))
      | _ \<Rightarrow> None)"

text \<open>\<open>pids\<close> are the keys of the map of processes.\<close>

definition process_relations :: "runtime_marshaller \<Rightarrow> (int \<Rightarrow> bytes) \<Rightarrow> bytes \<Rightarrow> int set \<Rightarrow> process_info \<Rightarrow> relationship list" where
  "process_relations marshal container_of systemID pids p =
     (let processRef = process_ref container_of systemID (pi_PID p) in
      made_relations
        ((if pi_PPID p \<noteq> 0 \<and> pi_PPID p \<in> pids
          then [createParentOfRelationship marshal (process_ref container_of systemID (pi_PPID p)) processRef] else []) @
         (case getContainerRefFromProcessNamespace systemID processRef of
            None \<Rightarrow> [] | Some containerRef \<Rightarrow> [createContainerProcessRelationship marshal containerRef processRef])))"

definition buildProcessTopology :: "runtime_marshaller \<Rightarrow> (int \<Rightarrow> bytes) \<Rightarrow> bytes \<Rightarrow> process_info list \<Rightarrow> graph_command list" where
  "buildProcessTopology marshal container_of systemID processes =
     map (createProcessNode marshal container_of systemID) processes @
     [AddRelations (concat (map (process_relations marshal container_of systemID (pi_PID ` set processes)) processes))]"

definition container_BuildFromSnapshot :: "runtime_marshaller \<Rightarrow> (bytes \<Rightarrow> bool) \<Rightarrow> 's store_ops \<Rightarrow>
    (bytes \<Rightarrow> bool) \<Rightarrow> host_fs \<Rightarrow> bytes \<Rightarrow> bytes \<Rightarrow> container list \<Rightarrow> process_info list \<Rightarrow> 's \<Rightarrow> graph_error option \<times> 's" where
  "container_BuildFromSnapshot marshal registered ops exists fs proc systemID containers processes s =
     (case (if length containers > 0 then buildContainerTopology marshal registered ops systemID containers s else (None, s)) of
        (Some err, s1) \<Rightarrow> (Some err, s1)
      | (None, s1) \<Rightarrow>
          if length processes > 0
          then run_commands registered ops (buildProcessTopology marshal
                 (\<lambda>pid. findProcessContainer exists fs proc pid containers) systemID processes) s1
          else (None, s1))"

section \<open>The plan of the containers\<close>

definition container_plan :: "runtime_marshaller \<Rightarrow> bytes \<Rightarrow> container list \<Rightarrow> graph_command list" where
  "container_plan marshal systemID cs =
     concat (map (\<lambda>c.
       [createContainerNode marshal systemID c,
        createContainerCPURelationships marshal systemID (container_ref systemID (cont_ID c)) (CpusetCpus c),
        createContainerNUMARelationships marshal systemID (container_ref systemID (cont_ID c)) (CpusetMems c)]) cs)"

lemma container_plan_simps [simp]:
  "container_plan marshal systemID [] = []"
  "container_plan marshal systemID (c # cs) =
     createContainerNode marshal systemID c #
     createContainerCPURelationships marshal systemID (container_ref systemID (cont_ID c)) (CpusetCpus c) #
     createContainerNUMARelationships marshal systemID (container_ref systemID (cont_ID c)) (CpusetMems c) #
     container_plan marshal systemID cs"
  by (simp_all add: container_plan_def)

lemma pinned_none: "pinned_relations marshal hardware cref [] = []"
proof -
  have "ParseCPUList [] = Inr []" by code_simp
  then show ?thesis by (simp add: pinned_relations_def made_relations_def)
qed

text \<open>Where the plan runs to its end, so does the builder, which forgives errors of relationships.\<close>

lemma container_topology_run:
  assumes "run_commands registered ops (container_plan marshal systemID cs) s = (None, s')"
  shows "buildContainerTopology marshal registered ops systemID cs s = (None, s')"
  using assms
proof (induction cs arbitrary: s)
  case (Cons c cs)
  let ?cpu = "createContainerCPURelationships marshal systemID (container_ref systemID (cont_ID c)) (CpusetCpus c)"
  let ?mem = "createContainerNUMARelationships marshal systemID (container_ref systemID (cont_ID c)) (CpusetMems c)"
  obtain s1 s2 s3 where run: "run_command registered ops (createContainerNode marshal systemID c) s = (None, s1)"
    "run_command registered ops ?cpu s1 = (None, s2)" "run_command registered ops ?mem s2 = (None, s3)"
    "run_commands registered ops (container_plan marshal systemID cs) s3 = (None, s')"
    using Cons.prems by (auto split: prod.splits option.splits)
  have "s2 = s1" if "CpusetCpus c = []"
    using run(2) that by (simp add: createContainerCPURelationships_def pinned_none run_command_def)
  moreover have "s3 = s2" if "CpusetMems c = []"
    using run(3) that by (simp add: createContainerNUMARelationships_def pinned_none run_command_def)
  ultimately show ?case using run Cons.IH [OF run(4)]
    by (cases "CpusetCpus c = []"; cases "CpusetMems c = []") (simp_all add: Let_def try_command_def)
qed simp

lemma contains_total:
  assumes "\<And>m. marshal m \<noteq> None" "a \<noteq> b"
  shows "\<exists>x y. contains_both_ways marshal a b = Some [x, y] \<and> rel_formed x \<and> rel_formed y \<and>
    rel_subject x = Some a \<and> rel_object x = Some b \<and> rel_type_name x = runtime_name RtContains \<and>
    rel_subject y = Some b \<and> rel_object y = Some a \<and> rel_type_name y = runtime_name RtContainedBy"
proof -
  obtain v w where "marshal RtContains = Some v" "marshal RtContainedBy = Some w" using assms(1) by blast
  with assms(2) show ?thesis
    by (simp add: contains_both_ways_def runtime_relation_def any_new_def rel_formed_def predicate_name_def
        rel_type_name_def trim_prefix_def has_prefix_def)
qed

text \<open>The relationships of a pinned container, by the lists of its \<open>cpuset\<close>.\<close>

lemma pinned_relations_ok:
  assumes marshal: "\<And>m. marshal m \<noteq> None" and differ: "\<And>i. hardware i \<noteq> cref"
    and rel: "rel \<in> set (pinned_relations marshal hardware cref cpuset)"
  shows "rel_formed rel" "rel_type_name rel \<in> {runtime_name RtContains, runtime_name RtContainedBy}"
    "\<exists>ids. ParseCPUList cpuset = Inr ids \<and> (\<exists>i \<in> set ids. {rel_subject rel, rel_object rel} = {Some cref, Some (hardware i)})"
proof -
  obtain ids i where ids: "ParseCPUList cpuset = Inr ids" "i \<in> set ids"
    "rel \<in> set (case contains_both_ways marshal (hardware i) cref of None \<Rightarrow> [] | Some xs \<Rightarrow> xs)"
    using rel
    by (cases "ParseCPUList cpuset") (auto simp: pinned_relations_def made_relations_def createContainerHardwareRelationship_def)
  note both = contains_total [of marshal "hardware i" cref, OF marshal differ]
  show "rel_formed rel" "rel_type_name rel \<in> {runtime_name RtContains, runtime_name RtContainedBy}"
    "\<exists>ids. ParseCPUList cpuset = Inr ids \<and> (\<exists>i \<in> set ids. {rel_subject rel, rel_object rel} = {Some cref, Some (hardware i)})"
    using both ids by (auto intro!: bexI [of _ i])
qed

lemma pinned_relations_complete:
  assumes marshal: "\<And>m. marshal m \<noteq> None" and differ: "\<And>i. hardware i \<noteq> cref"
    and "ParseCPUList cpuset = Inr ids" "i \<in> set ids"
  shows "\<exists>rel \<in> set (pinned_relations marshal hardware cref cpuset). rel_formed rel \<and> rel_subject rel = Some cref \<and>
    rel_object rel = Some (hardware i) \<and> rel_type_name rel = runtime_name RtContainedBy"
proof -
  obtain x y where xy: "contains_both_ways marshal (hardware i) cref = Some [x, y]" "rel_formed y" "rel_subject y = Some cref"
    "rel_object y = Some (hardware i)" "rel_type_name y = runtime_name RtContainedBy"
    using contains_total [of marshal "hardware i" cref, OF marshal differ] by blast
  then have "y \<in> set (pinned_relations marshal hardware cref cpuset)"
    using assms(3,4)
    by (auto simp: pinned_relations_def made_relations_def createContainerHardwareRelationship_def intro!: bexI [of _ i])
  then show ?thesis using xy by blast
qed

lemma runtime_put_total:
  assumes "marshal spec \<noteq> None"
  shows "\<exists>r. runtime_put marshal spec name ns = UpdateNode r \<and> rsrc_metadata r \<noteq> None \<and>
    ref r = \<lparr>ref_type_url = runtime_name spec, ref_name = name, ref_namespace = Some ns\<rparr>"
  using assms by (auto simp: runtime_put_def runtime_node_def any_new_def ref_def empty_meta_def)

lemma container_node_total:
  assumes "\<And>m. marshal m \<noteq> None"
  shows "\<exists>r. createContainerNode marshal systemID c = UpdateNode r \<and> rsrc_metadata r \<noteq> None \<and>
    ref r = container_ref systemID (cont_ID c)"
  using runtime_put_total [of marshal "container_spec c" "cont_ID c" "host_ns systemID []"] assms
  by (simp add: createContainerNode_def container_ref_def typeContainer_def runtime_name_def container_spec_def)

text \<open>The names agree with those of the hardware graph.\<close>

lemma hardware_refs_agree:
  "ref_name sys = systemID \<Longrightarrow> core_ref sys core = cpu_core_ref systemID (Processor core)"
  "ref_name sys = systemID \<Longrightarrow> numa_ref sys numa = numa_node_ref systemID (NodeID numa)"
  by (simp_all add: core_ref_def cpu_core_ref_def numa_ref_def numa_node_ref_def hardware_ref_def message_name_def
      cpu_core_spec_def numa_spec_def hardware_package_def)

lemma hardware_refs_differ: "cpu_core_ref systemID i \<noteq> container_ref s j" "numa_node_ref systemID i \<noteq> container_ref s j"
  by (simp_all add: cpu_core_ref_def numa_node_ref_def container_ref_def typeContainer_def)

definition container_rels :: "runtime_marshaller \<Rightarrow> bytes \<Rightarrow> container \<Rightarrow> relationship list" where
  "container_rels marshal systemID c =
     pinned_relations marshal (cpu_core_ref systemID) (container_ref systemID (cont_ID c)) (CpusetCpus c) @
     pinned_relations marshal (numa_node_ref systemID) (container_ref systemID (cont_ID c)) (CpusetMems c)"

lemma container_plan_parts:
  assumes "\<And>m. marshal m \<noteq> None"
  shows "never_fails (container_plan marshal systemID cs)"
    "map ref (planned_nodes (container_plan marshal systemID cs)) = map (\<lambda>c. container_ref systemID (cont_ID c)) cs"
    "list_all (\<lambda>r. rsrc_metadata r \<noteq> None) (planned_nodes (container_plan marshal systemID cs))"
    "planned_rels (container_plan marshal systemID cs) = concat (map (container_rels marshal systemID) cs)"
proof (induction cs)
  case (Cons c cs)
  { case 1 show ?case using Cons container_node_total [of marshal systemID c, OF assms]
      by (auto simp: createContainerCPURelationships_def createContainerNUMARelationships_def) }
  { case 2 show ?case using Cons container_node_total [of marshal systemID c, OF assms]
      by (auto simp: createContainerCPURelationships_def createContainerNUMARelationships_def) }
  { case 3 show ?case using Cons container_node_total [of marshal systemID c, OF assms]
      by (auto simp: createContainerCPURelationships_def createContainerNUMARelationships_def) }
  { case 4 show ?case using Cons container_node_total [of marshal systemID c, OF assms]
      by (auto simp: createContainerCPURelationships_def createContainerNUMARelationships_def container_rels_def) }
qed simp_all

lemma container_plan_ok:
  assumes "\<And>m. marshal m \<noteq> None" "\<And>m. registered (runtime_name m)"
    "\<forall>c \<in> set cs. \<forall>rel \<in> set (container_rels marshal systemID c). \<exists>v \<in> U. marshal_relationship env rel = Some v"
  shows "plan_ok (\<lambda>r. rsrc_metadata r \<noteq> None) (writable env U) registered (container_plan marshal systemID cs)"
proof -
  note parts = container_plan_parts [of marshal systemID cs, OF assms(1)]
  have "ref r \<in> set (map ref (planned_nodes (container_plan marshal systemID cs)))"
    if "r \<in> set (planned_nodes (container_plan marshal systemID cs))" for r using that by simp
  then have nodes: "\<exists>k. encodeResourceKey (Some (ref r)) = Inr k"
    if "r \<in> set (planned_nodes (container_plan marshal systemID cs))" for r
    using that unfolding parts(2) by (fastforce simp: encodeResourceKey_def container_ref_def typeContainer_def)
  have rels: "writable env U rel \<and> rel_formed rel \<and> registered (rel_type_name rel)"
    if c: "c \<in> set cs" and rel: "rel \<in> set (container_rels marshal systemID c)" for c rel
  proof -
    obtain hardware cpuset where hw: "rel \<in> set (pinned_relations marshal hardware (container_ref systemID (cont_ID c)) cpuset)"
      "hardware = cpu_core_ref systemID \<or> hardware = numa_node_ref systemID"
      using rel by (auto simp: container_rels_def)
    have differ: "\<And>i. hardware i \<noteq> container_ref systemID (cont_ID c)" using hw(2) hardware_refs_differ by blast
    note ok = pinned_relations_ok [of marshal hardware, OF assms(1) differ hw(1)]
    obtain i where ends: "{rel_subject rel, rel_object rel} = {Some (container_ref systemID (cont_ID c)), Some (hardware i)}"
      using ok(3) by blast
    have "\<exists>k. encodeResourceKey (Some (container_ref systemID (cont_ID c))) = Inr k" "\<exists>k. encodeResourceKey (Some (hardware i)) = Inr k"
      using hw(2) by (auto simp: encodeResourceKey_def container_ref_def typeContainer_def cpu_core_ref_def numa_node_ref_def)
    then have "\<exists>k. encodeResourceKey (rel_subject rel) = Inr k" "\<exists>k. encodeResourceKey (rel_object rel) = Inr k"
      using ends by (metis insert_iff singletonD)+
    moreover have "registered (rel_type_name rel)" using ok(2) assms(2) by (elim insertE emptyE) simp_all
    ultimately show ?thesis using ok(1) assms(3) c rel unfolding writable_def by blast
  qed
  show ?thesis unfolding plan_ok_def parts(4) using parts(1,3) nodes rels by (auto simp: list_all_iff)
qed

end
