(* ===== verification/ContainerMetadata.thy ===== *)
theory ContainerMetadata
  imports Containers HardwareInfo ResourceKey
begin

text \<open>
  What the agent learns about a container from the files of its runtime and of its cgroup,
  \<open>pkg/containers/metadata.go\<close>: the image, the labels, the names derived from them, and the resource
  limits. The syntax of JSON texts and the folding of letters when a key is compared with the name of a
  field are arguments; how a value is decoded into the structs of this file is not.
\<close>

section \<open>Decoding JSON values\<close>

datatype json = JNull | JBool bool | JNumber bytes | JString bytes | JArray "json list" | JObject "(bytes \<times> json) list"

record json_env =
  je_parse :: "bytes \<Rightarrow> json option"
  je_fold :: "bytes \<Rightarrow> bytes"

text \<open>
  \<open>json.Unmarshal\<close> into a struct: the members of the object in order, each into the field with its name or,
  up to letter case, with that name; null changes nothing; a value of another type is an error at the end.
\<close>

definition json_members :: "json \<Rightarrow> (bytes \<times> json) list option" where
  "json_members j = (case j of JObject kvs \<Rightarrow> Some kvs | JNull \<Rightarrow> Some [] | _ \<Rightarrow> None)"

definition field_values :: "json_env \<Rightarrow> bytes \<Rightarrow> (bytes \<times> json) list \<Rightarrow> json list" where
  "field_values env name kvs = map snd (filter (\<lambda>(k, v). k = name \<or> je_fold env k = je_fold env name) kvs)"

definition object_field :: "json_env \<Rightarrow> bytes \<Rightarrow> (bytes \<times> json) list \<Rightarrow> (bytes \<times> json) list option" where
  "object_field env name kvs =
     (let vs = map json_members (field_values env name kvs) in
      if None \<in> set vs then None else Some (concat (map the vs)))"

fun string_values :: "json list \<Rightarrow> bytes \<Rightarrow> bytes option" where
  "string_values [] old = Some old"
| "string_values (v # vs) old =
     (case v of JString s \<Rightarrow> string_values vs s | JNull \<Rightarrow> string_values vs old | _ \<Rightarrow> None)"

definition string_field :: "json_env \<Rightarrow> bytes \<Rightarrow> (bytes \<times> json) list \<Rightarrow> bytes option" where
  "string_field env name kvs = string_values (field_values env name kvs) []"

definition strings_ok :: "json \<Rightarrow> bool" where
  "strings_ok j = (case j of JNull \<Rightarrow> True
     | JArray vs \<Rightarrow> list_all (\<lambda>v. case v of JString _ \<Rightarrow> True | JNull \<Rightarrow> True | _ \<Rightarrow> False) vs | _ \<Rightarrow> False)"

text \<open>A Go map of strings; the inner \<open>None\<close> is the nil map.\<close>

type_synonym go_labels = "(bytes \<rightharpoonup> bytes) option"

fun map_members :: "(bytes \<times> json) list \<Rightarrow> (bytes \<rightharpoonup> bytes) \<Rightarrow> (bytes \<rightharpoonup> bytes) option" where
  "map_members [] m = Some m"
| "map_members ((k, v) # kvs) m =
     (case v of JString s \<Rightarrow> map_members kvs (m(k \<mapsto> s)) | JNull \<Rightarrow> map_members kvs (m(k \<mapsto> [])) | _ \<Rightarrow> None)"

fun map_values :: "json list \<Rightarrow> go_labels \<Rightarrow> go_labels option" where
  "map_values [] old = Some old"
| "map_values (v # vs) old =
     (case v of
        JNull \<Rightarrow> map_values vs None
      | JObject kvs \<Rightarrow>
          (case map_members kvs (case old of None \<Rightarrow> Map.empty | Some m \<Rightarrow> m) of
             None \<Rightarrow> None | Some m \<Rightarrow> map_values vs (Some m))
      | _ \<Rightarrow> None)"

definition map_field :: "json_env \<Rightarrow> bytes \<Rightarrow> (bytes \<times> json) list \<Rightarrow> go_labels option" where
  "map_field env name kvs = map_values (field_values env name kvs) None"

definition json_top :: "json_env \<Rightarrow> bytes \<Rightarrow> (bytes \<times> json) list option" where
  "json_top env text = Option.bind (je_parse env text) json_members"

definition map_get :: "go_labels \<Rightarrow> bytes \<Rightarrow> bytes option" where
  "map_get labels key = (case labels of None \<Rightarrow> None | Some m \<Rightarrow> m key)"

section \<open>Image references\<close>

definition extractImageName :: "bytes \<Rightarrow> bytes" where
  "extractImageName fullName = last (split_on (CHR ''/'') fullName)"

definition tag_char :: "char \<Rightarrow> bool" where
  "tag_char c \<longleftrightarrow> ord c \<in> {97..122} \<or> ord c \<in> {65..90} \<or> is_digit c \<or> c = CHR ''.'' \<or> c = CHR ''-'' \<or> c = CHR ''_''"

definition isValidTag :: "bytes \<Rightarrow> bool" where
  "isValidTag s \<longleftrightarrow> s \<noteq> [] \<and> list_all tag_char s"

definition parse_tagged :: "bytes \<Rightarrow> bytes \<times> bytes" where
  "parse_tagged imageRef =
     (let parts = split_on (CHR '':'') imageRef;
          (name, tag) =
            (if length parts = 1 then (parts ! 0, ''latest'')
             else if length parts = 2 then (parts ! 0, parts ! 1)
             else if isValidTag (last parts) then (join_with (CHR '':'') (butlast parts), last parts)
             else (imageRef, ''latest''))
      in (extractImageName name, tag))"

text \<open>The name and the tag; \<open>None\<close> for the empty reference. A digest follows an @ that is not the first character.\<close>

definition parseImageReference :: "bytes \<Rightarrow> (bytes \<times> bytes) option" where
  "parseImageReference imageRef =
     (if imageRef = [] then None
      else Some (case split_on (CHR ''@'') imageRef of
        imagePart # d # ds \<Rightarrow>
          if imagePart \<noteq> [] then (extractImageName imagePart, join_with (CHR ''@'') (d # ds))
          else parse_tagged imageRef
      | _ \<Rightarrow> parse_tagged imageRef))"

section \<open>Files of the runtimes\<close>

definition glob_starting :: "sys_fs \<Rightarrow> bytes \<Rightarrow> bytes \<Rightarrow> bytes list" where
  "glob_starting fs dir pre =
     (case sf_dir fs dir of
        None \<Rightarrow> []
      | Some entries \<Rightarrow> map (\<lambda>n. filepath_Join [dir, n]) (filter (\<lambda>n. has_prefix n pre) (map fst entries)))"

definition read_file :: "sys_fs \<Rightarrow> bytes list \<Rightarrow> bytes option" where
  "read_file fs parts = os_ReadFile (sf_file fs (filepath_Join parts))"

definition docker_config :: "sys_fs \<Rightarrow> bytes \<Rightarrow> bytes \<Rightarrow> bytes option" where
  "docker_config fs containerID hostRoot =
     (case glob_starting fs (filepath_Join [hostRoot, ''/var/lib/docker/containers'']) containerID of
        [] \<Rightarrow> None
      | m # _ \<Rightarrow> read_file fs [m, ''config.v2.json''])"

definition containerd_configs :: "sys_fs \<Rightarrow> bytes \<Rightarrow> bytes \<Rightarrow> bytes list" where
  "containerd_configs fs containerID hostRoot =
     List.map_filter (\<lambda>ns. read_file fs
         [filepath_Join [hostRoot, ''/run/containerd/io.containerd.runtime.v2.task''], ns, containerID, ''config.json''])
       [''k8s.io'', ''default'', ''moby'']"

definition crio_root :: "bytes \<Rightarrow> bytes" where
  "crio_root hostRoot = filepath_Join [hostRoot, ''/var/run/crio/containers'']"

text \<open>The state under the exact identifier or, when that cannot be read, under the first that starts with it.\<close>

datatype crio_state = CrioNoMatch | CrioUnreadable | CrioState bytes

definition crio_state_file :: "sys_fs \<Rightarrow> bytes \<Rightarrow> bytes \<Rightarrow> crio_state" where
  "crio_state_file fs containerID hostRoot =
     (case read_file fs [crio_root hostRoot, containerID, ''state.json''] of
        Some data \<Rightarrow> CrioState data
      | None \<Rightarrow>
          (case glob_starting fs (crio_root hostRoot) containerID of
             [] \<Rightarrow> CrioNoMatch
           | m # _ \<Rightarrow> (case read_file fs [m, ''state.json''] of None \<Rightarrow> CrioUnreadable | Some data \<Rightarrow> CrioState data)))"

definition podman_configs :: "sys_fs \<Rightarrow> bytes \<Rightarrow> bytes \<Rightarrow> bytes list" where
  "podman_configs fs containerID hostRoot =
     List.map_filter (\<lambda>storagePath.
         case read_file fs [storagePath, containerID, ''userdata'', ''config.json''] of
           Some data \<Rightarrow> Some data
         | None \<Rightarrow>
             (case glob_starting fs storagePath containerID of
                [] \<Rightarrow> None | m # _ \<Rightarrow> read_file fs [m, ''userdata'', ''config.json'']))
       [filepath_Join [hostRoot, ''/var/lib/containers/storage/overlay-containers''],
        filepath_Join [hostRoot, ''/var/lib/containers/storage/vfs-containers'']]"

subsection \<open>Images\<close>

definition config_image :: "json_env \<Rightarrow> bytes \<Rightarrow> bytes option" where
  "config_image env data =
     Option.bind (json_top env data) (\<lambda>kvs. Option.bind (object_field env ''Config'' kvs) (string_field env ''Image''))"

definition extractDockerImageMetadata :: "json_env \<Rightarrow> sys_fs \<Rightarrow> bytes \<Rightarrow> bytes \<Rightarrow> (bytes \<times> bytes) option" where
  "extractDockerImageMetadata env fs containerID hostRoot =
     Option.bind (docker_config fs containerID hostRoot) (\<lambda>data. Option.bind (config_image env data) parseImageReference)"

definition image_annotation :: bytes where
  "image_annotation = ''io.kubernetes.cri.image-name''"

text \<open>The struct also has the environment of the process, which must be a list of strings.\<close>

definition containerd_annotations :: "json_env \<Rightarrow> bytes \<Rightarrow> go_labels option" where
  "containerd_annotations env data =
     Option.bind (json_top env data) (\<lambda>kvs.
     Option.bind (object_field env ''process'' kvs) (\<lambda>process.
     if list_all strings_ok (field_values env ''env'' process) then map_field env ''annotations'' kvs else None))"

fun containerd_image :: "json_env \<Rightarrow> bytes list \<Rightarrow> (bytes \<times> bytes) option" where
  "containerd_image env [] = None"
| "containerd_image env (data # rest) =
     (case Option.bind (containerd_annotations env data) (\<lambda>a. map_get a image_annotation) of
        Some img \<Rightarrow> parseImageReference img
      | None \<Rightarrow> containerd_image env rest)"

definition extractContainerdImageMetadata :: "json_env \<Rightarrow> sys_fs \<Rightarrow> bytes \<Rightarrow> bytes \<Rightarrow> (bytes \<times> bytes) option" where
  "extractContainerdImageMetadata env fs containerID hostRoot = containerd_image env (containerd_configs fs containerID hostRoot)"

definition extractCRIOImageMetadata :: "json_env \<Rightarrow> sys_fs \<Rightarrow> bytes \<Rightarrow> bytes \<Rightarrow> (bytes \<times> bytes) option" where
  "extractCRIOImageMetadata env fs containerID hostRoot =
     (case crio_state_file fs containerID hostRoot of
        CrioState data \<Rightarrow>
          Option.bind (json_top env data) (\<lambda>kvs. Option.bind (map_field env ''annotations'' kvs) (\<lambda>a.
          Option.bind (map_get a image_annotation) parseImageReference))
      | _ \<Rightarrow> None)"

fun podman_image :: "json_env \<Rightarrow> bytes list \<Rightarrow> (bytes \<times> bytes) option" where
  "podman_image env [] = None"
| "podman_image env (data # rest) =
     (case config_image env data of Some img \<Rightarrow> parseImageReference img | None \<Rightarrow> podman_image env rest)"

definition extractPodmanImageMetadata :: "json_env \<Rightarrow> sys_fs \<Rightarrow> bytes \<Rightarrow> bytes \<Rightarrow> (bytes \<times> bytes) option" where
  "extractPodmanImageMetadata env fs containerID hostRoot = podman_image env (podman_configs fs containerID hostRoot)"

definition extractImageMetadata :: "json_env \<Rightarrow> sys_fs \<Rightarrow> container \<Rightarrow> bytes \<Rightarrow> (bytes \<times> bytes) option" where
  "extractImageMetadata env fs c hostRoot =
     (case cont_Runtime c of
        CONTAINER_RUNTIME_DOCKER \<Rightarrow> extractDockerImageMetadata env fs (cont_ID c) hostRoot
      | CONTAINER_RUNTIME_CONTAINERD \<Rightarrow> extractContainerdImageMetadata env fs (cont_ID c) hostRoot
      | CONTAINER_RUNTIME_CRI_CONTAINERD \<Rightarrow> extractContainerdImageMetadata env fs (cont_ID c) hostRoot
      | CONTAINER_RUNTIME_CRI_O \<Rightarrow> extractCRIOImageMetadata env fs (cont_ID c) hostRoot
      | CONTAINER_RUNTIME_PODMAN \<Rightarrow> extractPodmanImageMetadata env fs (cont_ID c) hostRoot
      | CONTAINER_RUNTIME_UNKNOWN \<Rightarrow> None)"

subsection \<open>Labels\<close>

definition config_labels :: "json_env \<Rightarrow> bytes \<Rightarrow> go_labels option" where
  "config_labels env data =
     Option.bind (json_top env data) (\<lambda>kvs. Option.bind (object_field env ''Config'' kvs) (map_field env ''Labels''))"

definition extractDockerLabels :: "json_env \<Rightarrow> sys_fs \<Rightarrow> bytes \<Rightarrow> bytes \<Rightarrow> go_labels option" where
  "extractDockerLabels env fs containerID hostRoot =
     Option.bind (docker_config fs containerID hostRoot) (config_labels env)"

definition first_some :: "('a \<Rightarrow> 'b option) \<Rightarrow> 'a list \<Rightarrow> 'b option" where
  "first_some f xs = (case List.map_filter f xs of [] \<Rightarrow> None | y # _ \<Rightarrow> Some y)"

definition extractContainerdLabels :: "json_env \<Rightarrow> sys_fs \<Rightarrow> bytes \<Rightarrow> bytes \<Rightarrow> go_labels option" where
  "extractContainerdLabels env fs containerID hostRoot =
     first_some (\<lambda>data. Option.bind (json_top env data) (map_field env ''annotations''))
       (containerd_configs fs containerID hostRoot)"

text \<open>With no directory that starts with the identifier, the error of the glob is returned, and there is none.\<close>

definition extractCRIOLabels :: "json_env \<Rightarrow> sys_fs \<Rightarrow> bytes \<Rightarrow> bytes \<Rightarrow> go_labels option" where
  "extractCRIOLabels env fs containerID hostRoot =
     (case crio_state_file fs containerID hostRoot of
        CrioNoMatch \<Rightarrow> Some None
      | CrioUnreadable \<Rightarrow> None
      | CrioState data \<Rightarrow>
          Option.bind (json_top env data) (\<lambda>kvs.
          Option.bind (map_field env ''annotations'' kvs) (\<lambda>annotations.
          Option.bind (map_field env ''labels'' kvs) (\<lambda>labels.
          Some (Some (get_or Map.empty id labels ++ get_or Map.empty id annotations))))))"

definition extractPodmanLabels :: "json_env \<Rightarrow> sys_fs \<Rightarrow> bytes \<Rightarrow> bytes \<Rightarrow> go_labels option" where
  "extractPodmanLabels env fs containerID hostRoot =
     first_some (config_labels env) (podman_configs fs containerID hostRoot)"

definition extractLabels :: "json_env \<Rightarrow> sys_fs \<Rightarrow> container \<Rightarrow> bytes \<Rightarrow> go_labels option" where
  "extractLabels env fs c hostRoot =
     (case cont_Runtime c of
        CONTAINER_RUNTIME_DOCKER \<Rightarrow> extractDockerLabels env fs (cont_ID c) hostRoot
      | CONTAINER_RUNTIME_CONTAINERD \<Rightarrow> extractContainerdLabels env fs (cont_ID c) hostRoot
      | CONTAINER_RUNTIME_CRI_CONTAINERD \<Rightarrow> extractContainerdLabels env fs (cont_ID c) hostRoot
      | CONTAINER_RUNTIME_CRI_O \<Rightarrow> extractCRIOLabels env fs (cont_ID c) hostRoot
      | CONTAINER_RUNTIME_PODMAN \<Rightarrow> extractPodmanLabels env fs (cont_ID c) hostRoot
      | CONTAINER_RUNTIME_UNKNOWN \<Rightarrow> None)"

subsection \<open>Names\<close>

definition isAlphanumeric :: "bytes \<Rightarrow> bool" where
  "isAlphanumeric s \<longleftrightarrow> list_all (\<lambda>c. ord c \<in> {97..122} \<or> is_digit c) s"

definition isKubernetesHash :: "bytes \<Rightarrow> bool" where
  "isKubernetesHash s \<longleftrightarrow> 5 \<le> length s \<and> length s \<le> 10 \<and> isAlphanumeric s \<and>
     list_ex (\<lambda>c. ord c \<in> {97..122}) s \<and> list_ex is_digit s"

definition stripPodHash :: "bytes \<Rightarrow> bytes" where
  "stripPodHash podName =
     (let parts = split_on (CHR ''-'') podName in
      if length parts < 2 then podName
      else (let lastIsHash = isKubernetesHash (last parts);
                secondLastPart = (if length parts \<ge> 3 then parts ! (length parts - 2) else []);
                secondLastIsHash = (secondLastPart \<noteq> [] \<and> isKubernetesHash secondLastPart)
            in if lastIsHash \<and> secondLastIsHash then join_with (CHR ''-'') (take (length parts - 2) parts)
               else if lastIsHash then join_with (CHR ''-'') (take (length parts - 1) parts)
               else podName))"

definition label :: "go_labels \<Rightarrow> bytes \<Rightarrow> bytes" where
  "label labels key = get_or [] id (map_get labels key)"

definition extractHumanNames :: "go_labels \<Rightarrow> container \<Rightarrow> container" where
  "extractHumanNames labels c =
     (let c1 = (if label labels ''io.kubernetes.container.name'' \<noteq> [] then c\<lparr>ContainerName := label labels ''io.kubernetes.container.name''\<rparr>
                else if label labels ''com.docker.compose.service'' \<noteq> [] then c\<lparr>ContainerName := label labels ''com.docker.compose.service''\<rparr>
                else if ImageName c \<noteq> [] then c\<lparr>ContainerName := ImageName c\<rparr> else c);
          podName = label labels ''io.kubernetes.pod.name''
      in if podName \<noteq> [] then c1\<lparr>WorkloadName := stripPodHash podName\<rparr> else c1)"

section \<open>Resource limits\<close>

definition int32_in :: "sys_fs \<Rightarrow> bytes list \<Rightarrow> int option" where
  "int32_in fs parts = Option.bind (read_trimmed (sf_file fs) (filepath_Join parts)) (parse_int 32)"

text \<open>An assignment that is made when there is a value.\<close>

definition set_some :: "'v option \<Rightarrow> ('v \<Rightarrow> 'c \<Rightarrow> 'c) \<Rightarrow> 'c \<Rightarrow> 'c" where
  "set_some x f c = (case x of None \<Rightarrow> c | Some v \<Rightarrow> f v c)"

definition extractCgroupV1Limits :: "sys_fs \<Rightarrow> container \<Rightarrow> container" where
  "extractCgroupV1Limits fs c =
     (let path = CgroupPath c;
          cpuPath = replace_first ''/memory'' ''/cpu,cpuacct'' (replace_first ''/memory/'' ''/cpu,cpuacct/'' path);
          c1 = set_some (int32_in fs [cpuPath, ''cpu.shares'']) (\<lambda>v c. c\<lparr>CPUShares := Some (of_int v)\<rparr>) c;
          c2 = set_some (int32_in fs [cpuPath, ''cpu.cfs_quota_us''])
                 (\<lambda>v c. if v > 0 then c\<lparr>CPUQuotaUs := Some (of_int v)\<rparr> else c) c1;
          c3 = set_some (int32_in fs [cpuPath, ''cpu.cfs_period_us'']) (\<lambda>v c. c\<lparr>CPUPeriodUs := Some (of_int v)\<rparr>) c2;
          c4 = set_some (read_trimmed (sf_file fs) (filepath_Join [cpuPath, ''cpuset.cpus''])) (\<lambda>t c. c\<lparr>CpusetCpus := t\<rparr>) c3;
          c5 = set_some (read_trimmed (sf_file fs) (filepath_Join [cpuPath, ''cpuset.mems''])) (\<lambda>t c. c\<lparr>CpusetMems := t\<rparr>) c4;
          memPath = (if str_contains path ''/memory'' then path
                     else replace_first ''/cpu/'' ''/memory/'' (replace_first ''/cpu,cpuacct/'' ''/memory/'' path))
      in set_some (uint_in 64 fs (filepath_Join [memPath, ''memory.limit_in_bytes'']))
           (\<lambda>v c. if v < 2 ^ 62 then c\<lparr>MemoryLimitBytes := Some (of_nat v)\<rparr> else c) c5)"

text \<open>Arithmetic of \<open>int64\<close>: wrap around, and division that truncates.\<close>

definition wrap64 :: "int \<Rightarrow> int" where
  "wrap64 i = sint (word_of_int i :: 64 word)"

definition quot64 :: "int \<Rightarrow> int \<Rightarrow> int" where
  "quot64 a b = sgn a * sgn b * (\<bar>a\<bar> div \<bar>b\<bar>)"

definition weight_shares :: "int \<Rightarrow> 32 word" where
  "weight_shares weight = of_int (wrap64 (quot64 (wrap64 (wrap64 (weight - 1) * 1024)) 9999 + 2))"

definition cpu_max :: "bytes \<Rightarrow> container \<Rightarrow> container" where
  "cpu_max text c =
     (case str_fields text of
        q # p # _ \<Rightarrow>
          (let c1 = (if q \<noteq> ''max'' then set_some (parse_int 32 q) (\<lambda>v c. c\<lparr>CPUQuotaUs := Some (of_int v)\<rparr>) c else c)
           in set_some (parse_int 32 p) (\<lambda>v c. c\<lparr>CPUPeriodUs := Some (of_int v)\<rparr>) c1)
      | _ \<Rightarrow> c)"

definition extractCgroupV2Limits :: "sys_fs \<Rightarrow> container \<Rightarrow> container" where
  "extractCgroupV2Limits fs c =
     (let path = CgroupPath c;
          text = (\<lambda>name. read_trimmed (sf_file fs) (filepath_Join [path, name]));
          c1 = set_some (Option.bind (text ''cpu.weight'') (parse_int 64)) (\<lambda>w c. c\<lparr>CPUShares := Some (weight_shares w)\<rparr>) c;
          c2 = set_some (text ''cpu.max'') cpu_max c1;
          c3 = set_some (text ''cpuset.cpus'') (\<lambda>t c. c\<lparr>CpusetCpus := t\<rparr>) c2;
          c4 = set_some (text ''cpuset.mems'') (\<lambda>t c. c\<lparr>CpusetMems := t\<rparr>) c3
      in set_some (text ''memory.max'')
           (\<lambda>t c. if t \<noteq> ''max'' then set_some (parse_uint 64 t) (\<lambda>v c. c\<lparr>MemoryLimitBytes := Some (of_nat v)\<rparr>) c else c) c4)"

definition extractResourceLimits :: "sys_fs \<Rightarrow> container \<Rightarrow> container" where
  "extractResourceLimits fs c =
     (if CgroupVersion c = 2 then extractCgroupV2Limits fs c
      else if CgroupVersion c = 1 then extractCgroupV1Limits fs c else c)"

section \<open>All metadata\<close>

definition ExtractMetadata :: "json_env \<Rightarrow> sys_fs \<Rightarrow> bytes \<Rightarrow> container \<Rightarrow> container" where
  "ExtractMetadata env fs hostRoot c =
     (let c1 = (if Labels c = None then c\<lparr>Labels := Some Map.empty\<rparr> else c);
          c2 = set_some (extractImageMetadata env fs c1 hostRoot) (\<lambda>im c. c\<lparr>ImageName := fst im, ImageTag := snd im\<rparr>) c1;
          c3 = extractResourceLimits fs c2
      in set_some (extractLabels env fs c3 hostRoot) (\<lambda>labels c. extractHumanNames labels (c\<lparr>Labels := labels\<rparr>)) c3)"

end
