(* ===== verification/ContainersManager.thy ===== *)
theory ContainersManager
  imports ContainerGraph ContainerMetadata ProcessCollector
begin

text \<open>
  The containers manager, \<open>internal/containers/manager.go\<close>: it discovers the containers, reads their
  metadata, builds the container graph and keeps counters of its discoveries. An update reads a host
  that does not change while it runs; times are arguments.
\<close>

section \<open>Snapshots\<close>

record runtime_snapshot =
  rs_Containers :: "container list"
  rs_Processes :: "process_stats list option"

text \<open>
  \<open>collectRuntimeSnapshot\<close>: the metadata of the first three containers is read for the log, which changes
  them. The list of processes is empty.
\<close>

record runtime_host =
  rh_unicode :: "bytes \<Rightarrow> bytes"
  rh_cgroup :: cgroup_fs
  rh_json :: json_env
  rh_fs :: sys_fs
  rh_exists :: "bytes \<Rightarrow> bool"
  rh_proc :: bytes
  rh_marshal :: runtime_marshaller
  rh_registered :: "bytes \<Rightarrow> bool"

definition collectRuntimeSnapshot :: "runtime_host \<Rightarrow> bytes \<Rightarrow> runtime_snapshot" where
  "collectRuntimeSnapshot h cgroup =
     (let allContainers = DiscoverAllContainers (rh_unicode h) (rh_cgroup h) cgroup in
      \<lparr>rs_Containers = map (ExtractMetadata (rh_json h) (rh_fs h) []) (take 3 allContainers) @ drop 3 allContainers,
       rs_Processes = Some []\<rparr>)"

text \<open>\<open>GetContainers\<close> reads the metadata of all containers, of the first three for a second time.\<close>

definition GetContainers :: "runtime_host \<Rightarrow> runtime_snapshot \<Rightarrow> container list" where
  "GetContainers h s = map (ExtractMetadata (rh_json h) (rh_fs h) []) (rs_Containers s)"

definition GetProcesses :: "runtime_snapshot \<Rightarrow> process_info list" where
  "GetProcesses s =
     (case rs_Processes s of
        None \<Rightarrow> []
      | Some ps \<Rightarrow> map (\<lambda>p. \<lparr>pi_PID = ps_PID p, pi_PPID = ps_PPID p, pi_PGID = ps_PGID p, pi_SID = ps_SID p,
          pi_Command = ps_Command p, pi_Cmdline = ps_Cmdline p, pi_State = ps_State p\<rparr>) ps)"

section \<open>The manager\<close>

record discovery_metrics =
  LastDiscoveryDuration :: duration
  LastContainerCount :: nat
  LastProcessCount :: nat
  LastDiscoveryErrors :: nat
  TotalDiscoveries :: uint64
  TotalDiscoveryErrors :: uint64
  LastDiscoveryTimestamp :: instant

record containers_manager =
  cm_systemID :: bytes
  cm_cgroupPath :: bytes
  cm_interval :: duration
  cm_lastUpdate :: instant
  cm_metrics :: discovery_metrics

definition zero_metrics :: discovery_metrics where
  "zero_metrics = \<lparr>LastDiscoveryDuration = 0, LastContainerCount = 0, LastProcessCount = 0, LastDiscoveryErrors = 0,
     TotalDiscoveries = 0, TotalDiscoveryErrors = 0, LastDiscoveryTimestamp = 0\<rparr>"

definition NewContainersManager :: "duration \<Rightarrow> host_paths \<Rightarrow> (unit, bytes) result \<Rightarrow> bool \<Rightarrow> duration \<Rightarrow> bytes \<Rightarrow>
    containers_manager option" where
  "NewContainersManager defaultUpdateInterval paths name storeGiven updateInterval cgroup =
     (if \<not> storeGiven then None
      else Some \<lparr>cm_systemID = builder_systemID name,
                  cm_cgroupPath = (if cgroup = [] then filepath_Join [hp_sys paths, ''fs'', ''cgroup''] else cgroup),
                  cm_interval = (if updateInterval = 0 then defaultUpdateInterval else updateInterval),
                  cm_lastUpdate = 0, cm_metrics = zero_metrics\<rparr>)"

definition updateMetrics :: "instant \<Rightarrow> duration \<Rightarrow> runtime_snapshot option \<Rightarrow> nat \<Rightarrow> discovery_metrics \<Rightarrow> discovery_metrics" where
  "updateMetrics startTime elapsed snapshot errorCount x =
     (let x1 = x\<lparr>LastDiscoveryDuration := elapsed, LastDiscoveryTimestamp := startTime, LastDiscoveryErrors := errorCount,
                 TotalDiscoveries := TotalDiscoveries x + 1\<rparr>;
          x2 = (if errorCount > 0 then x1\<lparr>TotalDiscoveryErrors := TotalDiscoveryErrors x1 + of_nat errorCount\<rparr> else x1)
      in case snapshot of
           None \<Rightarrow> x2
         | Some s \<Rightarrow>
             (let x3 = x2\<lparr>LastContainerCount := length (rs_Containers s)\<rparr>
              in case rs_Processes s of None \<Rightarrow> x3 | Some ps \<Rightarrow> x3\<lparr>LastProcessCount := length ps\<rparr>))"

definition updateRuntimeGraph :: "runtime_host \<Rightarrow> 's store_ops \<Rightarrow> instant \<Rightarrow> duration \<Rightarrow> instant \<Rightarrow> containers_manager \<Rightarrow> 's \<Rightarrow>
    graph_error option \<times> containers_manager \<times> 's" where
  "updateRuntimeGraph h ops startTime elapsed now m s =
     (let snapshot = collectRuntimeSnapshot h (cm_cgroupPath m) in
      case container_BuildFromSnapshot (rh_marshal h) (rh_registered h) ops (rh_exists h) (sf_file (rh_fs h)) (rh_proc h)
          (cm_systemID m) (GetContainers h snapshot) (GetProcesses snapshot) s of
        (Some err, s') \<Rightarrow> (Some err, m\<lparr>cm_metrics := updateMetrics startTime elapsed (Some snapshot) 1 (cm_metrics m)\<rparr>, s')
      | (None, s') \<Rightarrow>
          (None, m\<lparr>cm_metrics := updateMetrics startTime elapsed (Some snapshot) 0 (cm_metrics m), cm_lastUpdate := now\<rparr>, s'))"

record runtime_tick =
  rt_host :: runtime_host
  rt_start :: instant
  rt_elapsed :: duration
  rt_now :: instant

text \<open>\<open>Start\<close>: the first update and one at each tick; the errors of the updates are logged.\<close>

fun containers_manager_run :: "'s store_ops \<Rightarrow> runtime_tick list \<Rightarrow> containers_manager \<Rightarrow> 's \<Rightarrow>
    graph_error option list \<times> containers_manager \<times> 's" where
  "containers_manager_run ops [] m s = ([], m, s)"
| "containers_manager_run ops (t # ticks) m s =
     (case updateRuntimeGraph (rt_host t) ops (rt_start t) (rt_elapsed t) (rt_now t) m s of
        (err, m', s') \<Rightarrow>
          (case containers_manager_run ops ticks m' s' of (errs, m'', s'') \<Rightarrow> (err # errs, m'', s'')))"

section \<open>Counters\<close>

lemma updateRuntimeGraph_counts:
  assumes "updateRuntimeGraph h ops startTime elapsed now m s = (err, m', s')"
  shows "TotalDiscoveries (cm_metrics m') = TotalDiscoveries (cm_metrics m) + 1"
    "TotalDiscoveryErrors (cm_metrics m') = TotalDiscoveryErrors (cm_metrics m) + (if err = None then 0 else 1)"
  using assms
  by (auto simp: updateRuntimeGraph_def updateMetrics_def Let_def collectRuntimeSnapshot_def split: prod.splits option.splits)

text \<open>The counters count the updates and those that failed.\<close>

lemma containers_manager_counts:
  assumes "containers_manager_run ops ticks m s = (errs, m', s')"
  shows "TotalDiscoveries (cm_metrics m') = TotalDiscoveries (cm_metrics m) + of_nat (length ticks) \<and>
    TotalDiscoveryErrors (cm_metrics m') = TotalDiscoveryErrors (cm_metrics m) + of_nat (length (filter (\<lambda>e. e \<noteq> None) errs))"
  using assms
proof (induction ticks arbitrary: m s errs m' s')
  case (Cons t ticks)
  obtain err m1 s1 where one: "updateRuntimeGraph (rt_host t) ops (rt_start t) (rt_elapsed t) (rt_now t) m s = (err, m1, s1)"
    by (metis prod_cases3)
  obtain es m2 s2 where rest: "containers_manager_run ops ticks m1 s1 = (es, m2, s2)" by (metis prod_cases3)
  have "errs = err # es" "m' = m2" using Cons.prems by (simp_all add: one rest)
  then show ?case using updateRuntimeGraph_counts [OF one] Cons.IH [OF rest] by auto
qed simp

section \<open>Metadata\<close>

text \<open>Metadata does not change what identifies the container; the list of its processors comes from its cgroup.\<close>

lemma set_some_frame: "(\<And>v. get (f v c) = get c) \<Longrightarrow> get (set_some x f c) = get c"
  by (simp add: set_some_def split: option.split)

lemma set_some_simp [simp]: "set_some (Some v) f c = f v c"
  by (simp add: set_some_def)

lemma limits_frame:
  "cont_ID (extractResourceLimits fs c) = cont_ID c" "CgroupVersion (extractResourceLimits fs c) = CgroupVersion c"
  "CgroupPath (extractResourceLimits fs c) = CgroupPath c" "cont_Runtime (extractResourceLimits fs c) = cont_Runtime c"
  by (simp_all add: extractResourceLimits_def extractCgroupV1Limits_def extractCgroupV2Limits_def cpu_max_def Let_def
      set_some_frame [where get = cont_ID] set_some_frame [where get = CgroupVersion] set_some_frame [where get = CgroupPath]
      set_some_frame [where get = cont_Runtime] split: list.split)

lemma limits_cpuset:
  assumes "CgroupVersion c = 2" "read_trimmed (sf_file fs) (filepath_Join [CgroupPath c, ''cpuset.cpus'']) = Some t"
  shows "CpusetCpus (extractResourceLimits fs c) = t"
  using assms
  by (simp add: extractResourceLimits_def extractCgroupV2Limits_def Let_def set_some_frame [where get = CpusetCpus])

lemma limits_shares:
  assumes "CgroupVersion c = 2" "read_trimmed (sf_file fs) (filepath_Join [CgroupPath c, ''cpu.weight'']) = Some t"
    "parse_int 64 t = Some w"
  shows "CPUShares (extractResourceLimits fs c) = Some (weight_shares w)"
  using assms
  by (simp add: extractResourceLimits_def extractCgroupV2Limits_def cpu_max_def Let_def set_some_frame [where get = CPUShares]
      split: list.split)

lemma human_names_frame:
  "cont_ID (extractHumanNames labels c) = cont_ID c" "CgroupVersion (extractHumanNames labels c) = CgroupVersion c"
  "CgroupPath (extractHumanNames labels c) = CgroupPath c" "CpusetCpus (extractHumanNames labels c) = CpusetCpus c"
  by (simp_all add: extractHumanNames_def Let_def)

lemma metadata_frame:
  "cont_ID (ExtractMetadata env fs hostRoot c) = cont_ID c"
  "CgroupVersion (ExtractMetadata env fs hostRoot c) = CgroupVersion c"
  "CgroupPath (ExtractMetadata env fs hostRoot c) = CgroupPath c"
  by (simp_all add: ExtractMetadata_def Let_def limits_frame human_names_frame
      set_some_frame [where get = cont_ID] set_some_frame [where get = CgroupVersion] set_some_frame [where get = CgroupPath])

lemma metadata_cpuset:
  assumes "CgroupVersion c = 2" "read_trimmed (sf_file fs) (filepath_Join [CgroupPath c, ''cpuset.cpus'']) = Some t"
  shows "CpusetCpus (ExtractMetadata env fs hostRoot c) = t"
proof -
  define c2 where "c2 = (let c1 = (if Labels c = None then c\<lparr>Labels := Some Map.empty\<rparr> else c) in
    set_some (extractImageMetadata env fs c1 hostRoot) (\<lambda>im c. c\<lparr>ImageName := fst im, ImageTag := snd im\<rparr>) c1)"
  have "CgroupVersion c2 = 2" "CgroupPath c2 = CgroupPath c"
    using assms(1) by (simp_all add: c2_def Let_def set_some_frame [where get = CgroupVersion] set_some_frame [where get = CgroupPath])
  with assms(2) have "CpusetCpus (extractResourceLimits fs c2) = t" by (intro limits_cpuset) simp_all
  then show ?thesis
    by (simp add: ExtractMetadata_def Let_def c2_def [symmetric, unfolded Let_def] human_names_frame set_some_frame [where get = CpusetCpus])
qed

text \<open>The containers of the graph are the discovered ones with their metadata.\<close>

lemma GetContainers_discovered:
  assumes "c \<in> set (DiscoverAllContainers (rh_unicode h) (rh_cgroup h) cgroup)"
  shows "\<exists>c' \<in> set (GetContainers h (collectRuntimeSnapshot h cgroup)). cont_ID c' = cont_ID c \<and>
    (\<forall>t. CgroupVersion c = 2 \<longrightarrow>
       read_trimmed (sf_file (rh_fs h)) (filepath_Join [CgroupPath c, ''cpuset.cpus'']) = Some t \<longrightarrow> CpusetCpus c' = t)"
proof -
  let ?all = "DiscoverAllContainers (rh_unicode h) (rh_cgroup h) cgroup"
  let ?meta = "ExtractMetadata (rh_json h) (rh_fs h) []"
  have "c \<in> set (take 3 ?all) \<union> set (drop 3 ?all)" using assms by (metis append_take_drop_id set_append)
  then consider "?meta (?meta c) \<in> set (GetContainers h (collectRuntimeSnapshot h cgroup))"
    | "?meta c \<in> set (GetContainers h (collectRuntimeSnapshot h cgroup))"
    by (auto simp: GetContainers_def collectRuntimeSnapshot_def Let_def)
  then show ?thesis
    by cases (rule bexI [of _ "?meta (?meta c)"] bexI [of _ "?meta c"]; simp add: metadata_frame metadata_cpuset)+
qed

end
