(* ===== verification/ContainerProperties.thy ===== *)
theory ContainerProperties
  imports CgroupCollectors NumaLoadCollectors ContainersManager
begin

text \<open>
  Properties of container discovery and of the collectors of container statistics.
\<close>

text \<open>
  Container IDs are recognised in the forms the runtimes use: in a systemd scope unit after its
  last dash, whatever the prefix (\<open>docker-\<close>, \<open>cri-containerd-\<close>, a whole path of slices), and as
  the last directory of a path. Whatever the name, the result is empty or a string of at least
  twelve hexadecimal digits.
\<close>

theorem container_id_extracted:
  assumes "container_id i" "p \<noteq> []" "last p \<noteq> CHR ''-''"
    and "list_all (\<lambda>part. \<not> container_id part) (split_on (CHR ''/'') q)"
  shows "ExtractContainerID (p @ ''-'' @ i @ ''.scope'') = i \<and>
    ExtractContainerID (q @ ''/'' @ i) = i \<and>
    (ExtractContainerID name = [] \<or>
     IsHexString (ExtractContainerID name) \<and> 12 \<le> length (ExtractContainerID name))"
  using ExtractContainerID_scope [OF assms(1-3)] ExtractContainerID_dir [OF assms(1,4)]
    ExtractContainerID_valid [of name]
  by (simp add: container_id_def minContainerIDLength_def)

theorem container_id_extracted_witness:
  "ExtractContainerID ''/system.slice/docker-0123456789ab.scope'' = ''0123456789ab'' \<and>
   ExtractContainerID ''/kubepods.slice/pod7/0123456789ab'' = ''0123456789ab'' \<and>
   (ExtractContainerID ''init.scope'' = [] \<or> IsHexString (ExtractContainerID ''init.scope''))"
proof -
  have "container_id ''0123456789ab''"
    "list_all (\<lambda>part. \<not> container_id part) (split_on (CHR ''/'') ''/kubepods.slice/pod7'')"
    by code_simp+
  from container_id_extracted [OF this(1) _ _ this(2), of "''/system.slice/docker''" "''init.scope''"]
  show ?thesis by auto
qed

text \<open>
  C24. On a host with the unified hierarchy both container collectors report, in the order of the
  walk, exactly one entry for every outermost directory that is a container (its name has a
  container ID and it holds processes) and whose statistics can be read; each entry carries
  the path and the ID of its directory.
\<close>

theorem cgroup_reports_containers:
  assumes "cg_stat cg (filepath_Join [cgroupPath c, ''cgroup.controllers''])" "\<forall>n. \<not> done_at n"
  shows "\<exists>cpu mem. cgroup_cpu_Collect unicode cg fs done_at c = (cpu, None) \<and>
    map (\<lambda>s. (gcpu_CgroupPath s, gcpu_ContainerID s)) cpu = reported_containers cg fs (cgroupPath c) ''cpu.stat'' \<and>
    cgroup_memory_Collect unicode cg fs done_at c = (mem, None) \<and>
    map (\<lambda>s. (gmem_CgroupPath s, gmem_ContainerID s)) mem = reported_containers cg fs (cgroupPath c) ''memory.stat''"
  using cgroup_cpu.unified_collection [OF assms, of unicode fs] cgroup_memory.unified_collection [OF assms, of unicode fs]
  by (auto simp: cgroup_cpu_Collect_def cgroup_memory_Collect_def)

definition demo_cg :: cgroup_fs where
  "demo_cg = \<lparr>cg_lstat = (\<lambda>p. if p = ''/c'' then CgDir [(''a.slice'', CgDir
       [(''docker-0123456789ab.scope'', CgDir [(''0123456789cd'', CgDir [])])])] else CgOther),
     cg_stat = (\<lambda>_. True), cg_readdir = (\<lambda>_. None)\<rparr>"

definition demo_cpu_stat :: host_fs where
  "demo_cpu_stat = (\<lambda>_. Content (''usage_usec 7'' @ [CHR 0x0A]))"

theorem cgroup_reports_containers_witness:
  "\<exists>cpu. cgroup_cpu_Collect id demo_cg demo_cpu_stat (\<lambda>_. False) \<lparr>cgroupPath = ''/c''\<rparr> = (cpu, None) \<and>
     map (\<lambda>s. (gcpu_CgroupPath s, gcpu_ContainerID s)) cpu =
       [(''/c/a.slice/docker-0123456789ab.scope'', ''0123456789ab'')]"
proof -
  let ?c = "\<lparr>cgroupPath = ''/c''\<rparr>"
  have stat: "cg_stat demo_cg (filepath_Join [cgroupPath ?c, ''cgroup.controllers''])" by (simp add: demo_cg_def)
  have "reported_containers demo_cg demo_cpu_stat (cgroupPath ?c) ''cpu.stat'' =
      [(''/c/a.slice/docker-0123456789ab.scope'', ''0123456789ab'')]"
    by code_simp
  with cgroup_reports_containers [OF stat, of "\<lambda>_. False" id demo_cpu_stat] show ?thesis by auto
qed

section \<open>Metadata\<close>

lemma valid_tag_plain: "isValidTag t \<Longrightarrow> CHR '':'' \<notin> set t \<and> CHR ''@'' \<notin> set t \<and> t \<noteq> []"
  by (auto simp: isValidTag_def tag_char_def is_digit_def list_all_iff)

lemma parse_tagged_tag:
  assumes "isValidTag t"
  shows "parse_tagged (a @ CHR '':'' # t) = (extractImageName a, t)"
proof -
  have t: "split_on (CHR '':'') t = [t]" using valid_tag_plain [OF assms] by (simp add: split_on_single)
  have parts: "split_on (CHR '':'') (a @ CHR '':'' # t) = split_on (CHR '':'') a @ [t]" by (simp add: split_on_append_all t)
  show ?thesis
  proof (cases "length (split_on (CHR '':'') a) = 1")
    case True
    then obtain p where p: "split_on (CHR '':'') a = [p]" by (auto simp: length_Suc_conv)
    then have "p = a" using join_split_on [of "CHR '':''" a] by simp
    then show ?thesis by (simp add: parse_tagged_def parts p)
  next
    case False
    moreover have "length (split_on (CHR '':'') a) \<noteq> 0" by simp
    ultimately have "length (split_on (CHR '':'') a @ [t]) \<noteq> 1" "length (split_on (CHR '':'') a @ [t]) \<noteq> 2" by simp_all
    then show ?thesis using assms by (simp add: parse_tagged_def parts join_split_on)
  qed
qed

lemma extractImageName_path: "CHR ''/'' \<notin> set n \<Longrightarrow> extractImageName (p @ CHR ''/'' # n) = n"
  by (simp add: extractImageName_def split_on_append_all split_on_single)

text \<open>
  Image references. A reference that is a path (a registry, with or without a port, and repositories),
  a name and a tag is split into the name and the tag; with a digest instead of the tag, into the name and
  the digest. A reference with the port of a registry and no tag is misread: the host is taken for the name
  and the port with the rest of the path for the tag.
\<close>

theorem image_reference_parsed:
  assumes "CHR ''@'' \<notin> set path" "{CHR ''/'', CHR ''@'', CHR '':''} \<inter> set name = {}" "isValidTag tag"
    and "{CHR ''/'', CHR ''@'', CHR '':''} \<inter> set (host @ port) = {}" "host \<noteq> []"
  shows "parseImageReference (path @ ''/'' @ name @ '':'' @ tag) = Some (name, tag) \<and>
    parseImageReference (path @ ''/'' @ name @ ''@'' @ digest) = Some (name, digest) \<and>
    parseImageReference (host @ '':'' @ port @ ''/'' @ name) = Some (host, port @ ''/'' @ name)"
proof (intro conjI)
  note tag = valid_tag_plain [OF assms(3)]
  have name: "extractImageName (path @ CHR ''/'' # name) = name" using assms(2) by (intro extractImageName_path) auto
  have "split_on (CHR ''@'') (path @ CHR ''/'' # name @ CHR '':'' # tag) = [path @ CHR ''/'' # name @ CHR '':'' # tag]"
    using assms(1,2) tag by (intro split_on_single) auto
  then show "parseImageReference (path @ ''/'' @ name @ '':'' @ tag) = Some (name, tag)"
    using parse_tagged_tag [OF assms(3), of "path @ CHR ''/'' # name"] name by (simp add: parseImageReference_def)
  have "split_on (CHR ''@'') (path @ CHR ''/'' # name @ CHR ''@'' # digest) =
      (path @ CHR ''/'' # name) # split_on (CHR ''@'') digest"
    using split_on_append [of "CHR ''@''" "path @ CHR ''/'' # name" digest] assms(1,2) by simp
  moreover obtain d ds where d: "split_on (CHR ''@'') digest = d # ds" by (cases "split_on (CHR ''@'') digest") auto
  moreover have "join_with (CHR ''@'') (d # ds) = digest" using join_split_on [of "CHR ''@''" digest] d by simp
  ultimately show "parseImageReference (path @ ''/'' @ name @ ''@'' @ digest) = Some (name, digest)"
    using name by (simp add: parseImageReference_def)
  have "split_on (CHR ''@'') (host @ CHR '':'' # port @ CHR ''/'' # name) = [host @ CHR '':'' # port @ CHR ''/'' # name]"
    using assms(2,4) by (intro split_on_single) auto
  moreover have "split_on (CHR '':'') (host @ CHR '':'' # port @ CHR ''/'' # name) = [host, port @ CHR ''/'' # name]"
    using assms(2,4) split_on_single [of "CHR '':''" "port @ CHR ''/'' # name"]
    by (subst split_on_append) auto
  moreover have "extractImageName host = host" using assms(4) by (simp add: extractImageName_def split_on_single)
  ultimately show "parseImageReference (host @ '':'' @ port @ ''/'' @ name) = Some (host, port @ ''/'' @ name)"
    by (simp add: parseImageReference_def parse_tagged_def)
qed

theorem image_reference_parsed_witness:
  "parseImageReference (''registry:5000/app'' @ ''/'' @ ''nginx'' @ '':'' @ ''1.21'') = Some (''nginx'', ''1.21'') \<and>
   parseImageReference (''registry:5000/app'' @ ''/'' @ ''nginx'' @ ''@'' @ ''sha256:ab'') = Some (''nginx'', ''sha256:ab'') \<and>
   parseImageReference (''registry'' @ '':'' @ ''5000'' @ ''/'' @ ''nginx'') = Some (''registry'', ''5000'' @ ''/'' @ ''nginx'')"
proof -
  have "isValidTag ''1.21''" by code_simp
  then show ?thesis by (intro image_reference_parsed) simp_all
qed

text \<open>
  C32. The CPU weight of a container of the unified hierarchy, between 1 and 10000, is reported as CPU shares
  between 2 and 1026; the code's comment promises values up to 262144.
\<close>

theorem cpu_weight_shares:
  assumes "CgroupVersion c = 2" "read_trimmed (sf_file fs) (filepath_Join [CgroupPath c, ''cpu.weight'']) = Some t"
    and "parse_int 64 t = Some w" "1 \<le> w" "w \<le> 10000"
  shows "\<exists>s. CPUShares (extractResourceLimits fs c) = Some s \<and> uint s = (w - 1) * 1024 div 9999 + 2 \<and> 2 \<le> uint s \<and> uint s \<le> 1026"
proof -
  have small: "wrap64 i = i" if "0 \<le> i" "i < 2 ^ 63" for i
    using that by (simp add: wrap64_def signed_of_int signed_take_bit_int_eq_self)
  let ?q = "(w - 1) * 1024 div 9999"
  have q: "0 \<le> ?q" "?q \<le> 1024"
    using assms(4,5) zdiv_mono1 [of "(w - 1) * 1024" "9999 * 1024" 9999] by (simp_all add: pos_imp_zdiv_nonneg_iff)
  have "quot64 ((w - 1) * 1024) 9999 = ?q"
    using assms(4) by (cases "w = 1") (simp_all add: quot64_def)
  then have "weight_shares w = of_int (?q + 2)"
    using assms(4,5) q by (simp add: weight_shares_def small)
  moreover have "uint (word_of_int i :: 32 word) = i" if "0 \<le> i" "i \<le> 1026" for i
    using that by (simp add: uint_word_of_int_eq take_bit_int_eq_self)
  ultimately have "uint (weight_shares w) = ?q + 2" using q by (simp only:)
  then show ?thesis using limits_shares [OF assms(1-3)] q by simp
qed

definition demo_weight_fs :: sys_fs where
  "demo_weight_fs = \<lparr>sf_file = (\<lambda>p. if p = ''/c/cpu.weight'' then Content ''10000'' else Missing), sf_dir = (\<lambda>_. None),
     sf_stat = (\<lambda>_. None), sf_link = (\<lambda>_. None)\<rparr>"

theorem cpu_weight_shares_witness:
  "\<exists>s. CPUShares (extractResourceLimits demo_weight_fs (found_container id ''0123456789ab'' ''docker'' ''/c'' 2)) = Some s \<and>
     uint s = 1026"
proof -
  let ?c = "found_container id ''0123456789ab'' ''docker'' ''/c'' 2"
  have "CgroupVersion ?c = 2" "CgroupPath ?c = ''/c''" by (simp_all add: found_container_def)
  moreover have "read_trimmed (sf_file demo_weight_fs) (filepath_Join [''/c'', ''cpu.weight'']) = Some ''10000''"
    "parse_int 64 ''10000'' = Some 10000" by code_simp+
  ultimately show ?thesis using cpu_weight_shares [of ?c demo_weight_fs "''10000''" 10000] by auto
qed

end
