(* ===== verification/Slices.thy ===== *)
theory Slices
  imports Go_Prelude
begin

text \<open>
  Go slices as far as the exporter uses them: a slice is a prefix of a backing array, and
  \<open>append\<close> writes into the array when there is room behind the slice and moves to a new array
  when there is not. Slices of one array share its elements. The store is the list of the arrays
  that were made; a cell that was never written holds \<open>None\<close>. How much larger a new array is
  made is up to the runtime and an argument.
\<close>

record slice =
  sl_array :: nat
  sl_len :: nat

type_synonym 'a arrays = "'a option list list"

definition make_slice :: "nat \<Rightarrow> 'a arrays \<Rightarrow> slice \<times> 'a arrays" where
  "make_slice capacity st = (\<lparr>sl_array = length st, sl_len = 0\<rparr>, st @ [replicate capacity None])"

definition slice_append :: "(nat \<Rightarrow> nat) \<Rightarrow> slice \<Rightarrow> 'a \<Rightarrow> 'a arrays \<Rightarrow> slice \<times> 'a arrays" where
  "slice_append grow s x st =
     (let cells = st ! sl_array s; n = sl_len s in
      if n < length cells
      then (s\<lparr>sl_len := Suc n\<rparr>, st[sl_array s := cells[n := Some x]])
      else (\<lparr>sl_array = length st, sl_len = Suc n\<rparr>,
            st @ [take n cells @ Some x # replicate (grow (length cells) - Suc n) None]))"

definition slice_elems :: "'a arrays \<Rightarrow> slice \<Rightarrow> 'a list" where
  "slice_elems st s = map the (take (sl_len s) (st ! sl_array s))"

text \<open>
  A slice that holds \<open>xs\<close> and has room for \<open>k\<close> more elements, and a change of the store that
  leaves alone everything but what is behind the slice.
\<close>

definition holds :: "'a arrays \<Rightarrow> slice \<Rightarrow> 'a list \<Rightarrow> nat \<Rightarrow> bool" where
  "holds st s xs k \<longleftrightarrow> sl_array s < length st \<and> sl_len s = length xs \<and>
     length xs + k \<le> length (st ! sl_array s) \<and> take (length xs) (st ! sl_array s) = map Some xs"

definition behind :: "slice \<Rightarrow> 'a arrays \<Rightarrow> 'a arrays \<Rightarrow> bool" where
  "behind s st st' \<longleftrightarrow> length st' = length st \<and>
     (\<forall>a < length st. a \<noteq> sl_array s \<longrightarrow> st' ! a = st ! a) \<and>
     (sl_array s < length st \<longrightarrow> length (st' ! sl_array s) = length (st ! sl_array s) \<and>
       take (sl_len s) (st' ! sl_array s) = take (sl_len s) (st ! sl_array s))"

lemma holds_elems: "holds st s xs k \<Longrightarrow> slice_elems st s = xs"
  by (simp add: holds_def slice_elems_def comp_def)

lemma behind_refl [simp]: "behind s st st"
  by (simp add: behind_def)

lemma behind_trans: "behind s st st' \<Longrightarrow> behind s st' st'' \<Longrightarrow> behind s st st''"
  by (simp add: behind_def)

lemma behind_shorter:
  assumes "behind t st st'" "sl_array t = sl_array s" "sl_len s \<le> sl_len t"
  shows "behind s st st'"
proof -
  have "take (sl_len s) (st' ! sl_array s) = take (sl_len s) (st ! sl_array s)"
    if "sl_array s < length st"
  proof -
    have "take (sl_len t) (st' ! sl_array s) = take (sl_len t) (st ! sl_array s)"
      using assms that by (simp add: behind_def)
    then have "take (sl_len s) (take (sl_len t) (st' ! sl_array s)) =
        take (sl_len s) (take (sl_len t) (st ! sl_array s))" by simp
    then show ?thesis using assms(3) by (simp add: min_absorb1)
  qed
  then show ?thesis using assms(1,2) by (simp add: behind_def)
qed

lemma behind_holds: "behind s st st' \<Longrightarrow> holds st s xs k \<Longrightarrow> holds st' s xs k"
  by (auto simp: behind_def holds_def)

lemma holds_less: "holds st s xs k \<Longrightarrow> j \<le> k \<Longrightarrow> holds st s xs j"
  by (auto simp: holds_def)

lemma make_slice_holds:
  "make_slice capacity st = (s, st') \<Longrightarrow> holds st' s [] capacity"
  by (auto simp: make_slice_def holds_def)

text \<open>With room behind the slice, appending writes the cell behind it.\<close>

lemma slice_append_holds:
  assumes "holds st s xs (Suc k)" "slice_append grow s x st = (s', st')"
  shows "s' = s\<lparr>sl_len := Suc (length xs)\<rparr> \<and> holds st' s' (xs @ [x]) k \<and> behind s st st'"
proof -
  have room: "sl_array s < length st" "sl_len s = length xs" "length xs < length (st ! sl_array s)"
    "length xs + Suc k \<le> length (st ! sl_array s)" "take (length xs) (st ! sl_array s) = map Some xs"
    using assms(1) by (auto simp: holds_def)
  have "s' = s\<lparr>sl_len := Suc (length xs)\<rparr>"
    "st' = st[sl_array s := (st ! sl_array s)[length xs := Some x]]"
    using assms(2) room by (auto simp: slice_append_def Let_def)
  then show ?thesis using room
    by (auto simp: holds_def behind_def take_Suc_conv_app_nth)
qed

text \<open>
  Two values appended to one slice, the second before the first result is read: there is one
  cell for both, and both results end in the second value.
\<close>

lemma append_twice_shares:
  assumes "holds st s xs (Suc k)"
    and "slice_append grow s x st = (s1, st1)" "slice_append grow s y st1 = (s2, st2)"
  shows "s1 = s2 \<and> slice_elems st2 s1 = xs @ [y] \<and> slice_elems st2 s2 = xs @ [y]"
proof -
  have first: "s1 = s\<lparr>sl_len := Suc (length xs)\<rparr>" "holds st1 s xs (Suc k)"
    using slice_append_holds [OF assms(1,2)] behind_holds assms(1) by blast+
  then have "s2 = s1 \<and> holds st2 s2 (xs @ [y]) k"
    using slice_append_holds [OF first(2) assms(3)] by auto
  then show ?thesis using holds_elems by metis
qed

text \<open>Without room the values are copied, and the results are independent.\<close>

lemma append_twice_copies:
  assumes "holds st s xs 0" "length (st ! sl_array s) = length xs"
    and "slice_append grow s x st = (s1, st1)" "slice_append grow s y st1 = (s2, st2)"
  shows "slice_elems st2 s1 = xs @ [x] \<and> slice_elems st2 s2 = xs @ [y]"
proof -
  have s: "sl_array s < length st" "sl_len s = length xs" "st ! sl_array s = map Some xs"
    using assms(1,2) by (auto simp: holds_def)
  then have "s1 = \<lparr>sl_array = length st, sl_len = Suc (length xs)\<rparr>"
    "st1 = st @ [map Some xs @ Some x # replicate (grow (length xs) - Suc (length xs)) None]"
    using assms(3) by (auto simp: slice_append_def Let_def)
  moreover from this s have "s2 = \<lparr>sl_array = Suc (length st), sl_len = Suc (length xs)\<rparr>"
    "st2 = st1 @ [map Some xs @ Some y # replicate (grow (length xs) - Suc (length xs)) None]"
    using assms(4) by (auto simp: slice_append_def Let_def nth_append)
  ultimately show ?thesis by (simp add: slice_elems_def nth_append comp_def)
qed

end
