(* ===== verification/OtelTransformer.thy ===== *)
theory OtelTransformer
  imports Slices TcpCollector CpuCollector MemoryCollector DiskNetworkCollectors NumaLoadCollectors
    KernelCollector
begin

text \<open>
  The conversion of events into measurements, \<open>internal/metrics/consumers/otel/transformer.go\<close>.
  The event's data are a Go \<open>any\<close>; \<open>event_data\<close> has a constructor per dynamic type that the
  collectors or the transformer name. The state is the cache of instruments, the measurements made
  so far and the arrays behind the attribute slices. An instrument is identified with the request
  that created it. The parameters are whether the meter creates an instrument, the growth of
  arrays, and the order in which Go visits a map with the given keys in its n-th iteration.
  A failed type assertion panics and is \<open>None\<close>. The consumer calls the transformer from one
  goroutine only, so the second look into the cache, under the write lock, finds what the first did.
\<close>

section \<open>State\<close>

datatype instrument_kind = Float64Gauge | Int64Gauge | Int64Counter

record instrument =
  in_kind :: instrument_kind
  in_name :: bytes
  in_description :: bytes
  in_unit :: bytes

datatype measured = IntValue int | FloatValue rat

type_synonym attribute = "bytes \<times> bytes"

record measurement =
  ms_instrument :: instrument
  ms_value :: measured
  ms_attrs :: "attribute list"

record transformer =
  serviceVersion :: bytes
  instruments :: "(bytes \<times> instrument) list"
  measurements :: "measurement list"
  attr_arrays :: "attribute arrays"

record export_env =
  ee_meter :: "instrument \<Rightarrow> bool"
  ee_grow :: "nat \<Rightarrow> nat"
  ee_order :: "nat \<Rightarrow> bytes set \<Rightarrow> bytes list"

datatype event_data =
  LoadData load_stats
| MemoryData memory_stats
| CPUData "cpu_stats list"
| ProcessData "process_stats list"
| DiskData "disk_stats list"
| NetworkData "network_stats list"
| TCPData tcp_stats
| SystemData system_stats
| KernelMessages "kernel_message list"
| KernelMessagePointers "kernel_message list"
| KernelMessagePointer kernel_message
| NUMAData numa_stats
| OtherData bytes

datatype transform_error = InvalidData metric_type | MeterFailed instrument

definition MaxInstrumentCacheSize :: nat where "MaxInstrumentCacheSize = 1000"
definition DefaultSectorSize :: uint64 where "DefaultSectorSize = 512"

definition NewTransformer :: "bytes \<Rightarrow> transformer" where
  "NewTransformer version =
     \<lparr>serviceVersion = version, instruments = [], measurements = [], attr_arrays = []\<rparr>"

section \<open>Instruments\<close>

type_synonym lookup = "transformer \<Rightarrow> ((transform_error, instrument) result \<times> transformer) option"

definition key_prefix :: "instrument_kind \<Rightarrow> bytes" where
  "key_prefix kind =
     (case kind of Float64Gauge \<Rightarrow> ''f64_gauge_'' | Int64Gauge \<Rightarrow> ''i64_gauge_'' | Int64Counter \<Rightarrow> ''i64_counter_'')"

definition getOrCreate :: "instrument_kind \<Rightarrow> export_env \<Rightarrow> bytes \<Rightarrow> bytes \<Rightarrow> bytes \<Rightarrow> lookup" where
  "getOrCreate kind env name description unit_name t =
     (let key = key_prefix kind @ name;
          request = \<lparr>in_kind = kind, in_name = name, in_description = description, in_unit = unit_name\<rparr>
      in case map_of (instruments t) key of
           Some inst \<Rightarrow> if in_kind inst = kind then Some (Inr inst, t) else None
         | None \<Rightarrow>
             if \<not> ee_meter env request then Some (Inl (MeterFailed request), t)
             else if length (instruments t) \<ge> MaxInstrumentCacheSize then Some (Inr request, t)
             else Some (Inr request, t\<lparr>instruments := (key, request) # instruments t\<rparr>))"

definition getOrCreateFloat64Gauge :: "export_env \<Rightarrow> bytes \<Rightarrow> bytes \<Rightarrow> bytes \<Rightarrow> lookup" where
  "getOrCreateFloat64Gauge = getOrCreate Float64Gauge"

definition getOrCreateInt64Gauge :: "export_env \<Rightarrow> bytes \<Rightarrow> bytes \<Rightarrow> bytes \<Rightarrow> lookup" where
  "getOrCreateInt64Gauge = getOrCreate Int64Gauge"

definition getOrCreateInt64Counter :: "export_env \<Rightarrow> bytes \<Rightarrow> bytes \<Rightarrow> bytes \<Rightarrow> lookup" where
  "getOrCreateInt64Counter = getOrCreate Int64Counter"

section \<open>Recording\<close>

text \<open>
  \<open>Record\<close> and \<open>Add\<close> take the attributes out of the slice when they are called.
\<close>

type_synonym action = "transformer \<Rightarrow> transformer option"

definition record_value :: "instrument \<Rightarrow> slice \<Rightarrow> measured \<Rightarrow> transformer \<Rightarrow> transformer" where
  "record_value inst s v t =
     t\<lparr>measurements := measurements t @
         [\<lparr>ms_instrument = inst, ms_value = v, ms_attrs = slice_elems (attr_arrays t) s\<rparr>]\<rparr>"

definition append_attr :: "export_env \<Rightarrow> slice \<Rightarrow> attribute \<Rightarrow> transformer \<Rightarrow> slice \<times> transformer" where
  "append_attr env s kv t =
     (case slice_append (ee_grow env) s kv (attr_arrays t) of (s', st) \<Rightarrow> (s', t\<lparr>attr_arrays := st\<rparr>))"

text \<open>The three shapes of the code: one value; all labels appended first and then all values
  recorded; and a loop that appends a label and records its value in each round.\<close>

definition record_one :: "slice \<Rightarrow> measured \<Rightarrow> instrument \<Rightarrow> action" where
  "record_one s v inst t = Some (record_value inst s v t)"

fun append_labels :: "export_env \<Rightarrow> slice \<Rightarrow> attribute list \<Rightarrow> transformer \<Rightarrow> slice list \<times> transformer" where
  "append_labels env s [] t = ([], t)"
| "append_labels env s (kv # kvs) t =
     (case append_attr env s kv t of
        (s', t') \<Rightarrow> (case append_labels env s kvs t' of (ss, t'') \<Rightarrow> (s' # ss, t'')))"

definition record_labelled :: "export_env \<Rightarrow> slice \<Rightarrow> (attribute \<times> measured) list \<Rightarrow> instrument \<Rightarrow> action" where
  "record_labelled env s rows inst t =
     (case append_labels env s (map fst rows) t of
        (ss, t') \<Rightarrow> Some (fold (\<lambda>(s', v). record_value inst s' v) (zip ss (map snd rows)) t'))"

fun record_each :: "export_env \<Rightarrow> slice \<Rightarrow> (attribute \<times> measured) list \<Rightarrow> instrument \<Rightarrow> action" where
  "record_each env s [] inst t = Some t"
| "record_each env s ((kv, v) # rows) inst t =
     (case append_attr env s kv t of (s', t') \<Rightarrow> record_each env s rows inst (record_value inst s' v t'))"

text \<open>\<open>if gauge, err := ...; err == nil { ... }\<close>, sequences, conditions and a longer slice.\<close>

definition if_created :: "lookup \<Rightarrow> (instrument \<Rightarrow> action) \<Rightarrow> action" where
  "if_created get body t =
     (case get t of
        None \<Rightarrow> None
      | Some (Inl _, t') \<Rightarrow> Some t'
      | Some (Inr inst, t') \<Rightarrow> body inst t')"

fun run_actions :: "action list \<Rightarrow> action" where
  "run_actions [] t = Some t"
| "run_actions (a # as) t = (case a t of None \<Rightarrow> None | Some t' \<Rightarrow> run_actions as t')"

definition action_if :: "bool \<Rightarrow> action \<Rightarrow> action" where
  "action_if b a t = (if b then a t else Some t)"

definition with_attr :: "export_env \<Rightarrow> slice \<Rightarrow> attribute \<Rightarrow> (slice \<Rightarrow> action) \<Rightarrow> action" where
  "with_attr env s kv body t = (case append_attr env s kv t of (s', t') \<Rightarrow> body s' t')"

definition int64 :: "uint64 \<Rightarrow> measured" where
  "int64 w = IntValue (sint w)"

type_synonym transform = "transformer \<Rightarrow> (transform_error option \<times> transformer) option"

definition invalid_data :: "metric_type \<Rightarrow> transform" where
  "invalid_data ty t = Some (Some (InvalidData ty), t)"

definition return_nil :: "action \<Rightarrow> transform" where
  "return_nil a t = map_option (Pair None) (a t)"

definition standard_attributes :: "event_data metric_event \<Rightarrow> bytes \<Rightarrow> attribute list" where
  "standard_attributes event version =
     (if NodeName event \<noteq> [] then [(''host.name'', NodeName event)] else []) @
     (if ClusterName event \<noteq> [] then [(''k8s.cluster.name'', ClusterName event)] else []) @
     (if Source event \<noteq> [] then [(''service.instance.id'', Source event)] else []) @
     (if version \<noteq> [] then [(''service.version'', version)] else [])"

fun append_all :: "export_env \<Rightarrow> slice \<Rightarrow> attribute list \<Rightarrow> transformer \<Rightarrow> slice \<times> transformer" where
  "append_all env s [] t = (s, t)"
| "append_all env s (kv # kvs) t = (case append_attr env s kv t of (s', t') \<Rightarrow> append_all env s' kvs t')"

definition buildAttributes :: "export_env \<Rightarrow> event_data metric_event \<Rightarrow> transformer \<Rightarrow> slice \<times> transformer" where
  "buildAttributes env event t =
     (case make_slice 10 (attr_arrays t) of
        (s, st) \<Rightarrow> append_all env s (standard_attributes event (serviceVersion t)) (t\<lparr>attr_arrays := st\<rparr>))"

section \<open>The metric types\<close>

definition transformLoadStats :: "export_env \<Rightarrow> event_data \<Rightarrow> slice \<Rightarrow> transform" where
  "transformLoadStats env data attrs =
     (case data of
        LoadData stats \<Rightarrow>
          return_nil (run_actions
            [if_created (getOrCreateFloat64Gauge env ''system.cpu.load_average.1m'' ''System load average over 1 minute'' ''1'')
               (record_one attrs (FloatValue (Load1Min stats))),
             if_created (getOrCreateFloat64Gauge env ''system.cpu.load_average.5m'' ''System load average over 5 minutes'' ''1'')
               (record_one attrs (FloatValue (Load5Min stats))),
             if_created (getOrCreateFloat64Gauge env ''system.cpu.load_average.15m'' ''System load average over 15 minutes'' ''1'')
               (record_one attrs (FloatValue (Load15Min stats))),
             if_created (getOrCreateInt64Gauge env ''system.processes.count'' ''Number of processes'' ''1'')
               (record_each env attrs [((''state'', ''running''), IntValue (RunningProcs stats))]),
             if_created (getOrCreateFloat64Gauge env ''system.uptime'' ''System uptime'' ''s'')
               (record_one attrs (FloatValue (Seconds (Uptime stats))))])
      | _ \<Rightarrow> invalid_data MetricTypeLoad)"

definition memStates :: "memory_stats \<Rightarrow> bytes \<rightharpoonup> uint64" where
  "memStates stats =
     (let m = mem_fields stats in
      map_of [(''free'', m ''MemFree'' * 1024), (''used'', (m ''MemTotal'' - m ''MemAvailable'') * 1024),
              (''available'', m ''MemAvailable'' * 1024), (''buffers'', m ''Buffers'' * 1024),
              (''cached'', m ''Cached'' * 1024)])"

text \<open>The rows of a map, in the order in which it is visited.\<close>

definition map_rows :: "bytes list \<Rightarrow> bytes \<Rightarrow> (bytes \<rightharpoonup> 'v) \<Rightarrow> ('v \<Rightarrow> measured) \<Rightarrow> (attribute \<times> measured) list" where
  "map_rows order label m conv = map (\<lambda>k. ((label, k), conv (the (m k)))) order"

definition byte_gauge :: "export_env \<Rightarrow> slice \<Rightarrow> bytes \<times> bytes \<times> uint64 \<Rightarrow> action" where
  "byte_gauge env attrs row =
     (case row of (name, description, kilobytes) \<Rightarrow>
        if_created (getOrCreateInt64Gauge env name description ''By'')
          (record_one attrs (int64 (kilobytes * 1024))))"

definition byte_gauges :: "export_env \<Rightarrow> slice \<Rightarrow> (bytes \<times> bytes \<times> uint64) list \<Rightarrow> action" where
  "byte_gauges env attrs rows = run_actions (map (byte_gauge env attrs) rows)"

definition memory_usage :: "export_env \<Rightarrow> memory_stats \<Rightarrow> slice \<Rightarrow> action" where
  "memory_usage env stats attrs =
     if_created (getOrCreateInt64Gauge env ''system.memory.usage'' ''Memory usage by state'' ''By'')
       (record_each env attrs (map_rows (ee_order env 0 (dom (memStates stats))) ''state'' (memStates stats) int64))"

definition memory_others :: "export_env \<Rightarrow> memory_stats \<Rightarrow> slice \<Rightarrow> action list" where
  "memory_others env stats attrs =
     (let m = mem_fields stats in
      [action_if (m ''SwapTotal'' > 0)
         (if_created (getOrCreateInt64Gauge env ''system.memory.swap_usage'' ''Swap usage'' ''By'')
            (record_labelled env attrs
               [((''state'', ''free''), int64 (m ''SwapFree'' * 1024)),
                ((''state'', ''used''), int64 ((m ''SwapTotal'' - m ''SwapFree'') * 1024))])),
       byte_gauges env attrs
         [(''system.memory.swap.cached'', ''Memory that was swapped out and is back in RAM'', m ''SwapCached''),
          (''system.memory.active'', ''Memory used recently'', m ''Active''),
          (''system.memory.inactive'', ''Memory not used recently'', m ''Inactive''),
          (''system.memory.dirty'', ''Memory waiting to be written back to disk'', m ''Dirty''),
          (''system.memory.writeback'', ''Memory actively being written back to disk'', m ''Writeback''),
          (''system.memory.anon_pages'', ''Non-file backed pages mapped into userspace'', m ''AnonPages''),
          (''system.memory.mapped'', ''Files mapped into memory'', m ''Mapped''),
          (''system.memory.shmem'', ''Shared memory'', m ''Shmem'')],
       if_created (getOrCreateInt64Gauge env ''system.memory.slab'' ''Kernel slab allocator memory by type'' ''By'')
         (record_labelled env attrs
            [((''type'', ''reclaimable''), int64 (m ''SReclaimable'' * 1024)),
             ((''type'', ''unreclaimable''), int64 (m ''SUnreclaim'' * 1024))]),
       byte_gauges env attrs
         [(''system.memory.kernel_stack'', ''Memory used by kernel stacks'', m ''KernelStack''),
          (''system.memory.page_tables'', ''Memory used by page tables'', m ''PageTables'')],
       if_created (getOrCreateInt64Gauge env ''system.memory.commit'' ''Memory commit statistics by type'' ''By'')
         (record_labelled env attrs
            [((''type'', ''limit''), int64 (m ''CommitLimit'' * 1024)),
             ((''type'', ''committed_as''), int64 (m ''CommittedAS'' * 1024))]),
       if_created (getOrCreateInt64Gauge env ''system.memory.vmalloc'' ''Virtual memory allocator statistics by type'' ''By'')
         (record_labelled env attrs
            [((''type'', ''total''), int64 (m ''VmallocTotal'' * 1024)),
             ((''type'', ''used''), int64 (m ''VmallocUsed'' * 1024))]),
       action_if (m ''HugePages_Total'' > 0) (run_actions
         [if_created (getOrCreateInt64Gauge env ''system.memory.huge_pages'' ''HugePages by state'' ''1'')
            (record_labelled env attrs
               [((''state'', ''total''), int64 (m ''HugePages_Total'')),
                ((''state'', ''free''), int64 (m ''HugePages_Free'')),
                ((''state'', ''reserved''), int64 (m ''HugePages_Rsvd'')),
                ((''state'', ''surplus''), int64 (m ''HugePages_Surp''))]),
          byte_gauge env attrs (''system.memory.huge_pages.bytes'', ''Total memory consumed by huge pages'', m ''Hugetlb'')]),
       (case mem_delta stats of
          None \<Rightarrow> Some
        | Some delta \<Rightarrow>
            if_created (getOrCreateInt64Counter env ''system.memory.swap.io'' ''Pages swapped in/out by direction'' ''1'')
              (record_labelled env attrs
                 [((''direction'', ''in''), int64 (cd_deltas delta ''SwapIn'')),
                  ((''direction'', ''out''), int64 (cd_deltas delta ''SwapOut''))]))])"

definition transformMemoryStats :: "export_env \<Rightarrow> event_data \<Rightarrow> slice \<Rightarrow> transform" where
  "transformMemoryStats env data attrs =
     (case data of
        MemoryData stats \<Rightarrow> return_nil (run_actions (memory_usage env stats attrs # memory_others env stats attrs))
      | _ \<Rightarrow> invalid_data MetricTypeMemory)"

definition calculateCPUTotal :: "cpu_stats \<Rightarrow> uint64" where
  "calculateCPUTotal cpu =
     (let c = cpu_times cpu in
      c ''User'' + c ''Nice'' + c ''System'' + c ''Idle'' + c ''IOWait'' + c ''IRQ'' + c ''SoftIRQ'' +
      c ''Steal'' + c ''Guest'' + c ''GuestNice'')"

definition calculateCPUStates :: "cpu_stats \<Rightarrow> uint64 \<Rightarrow> bytes \<rightharpoonup> rat" where
  "calculateCPUStates cpu whole =
     map_of (map (\<lambda>(state, field). (state,
         float64_div (float64_of_uint64 (cpu_times cpu field)) (float64_of_uint64 whole)))
       [(''user'', ''User''), (''system'', ''System''), (''idle'', ''Idle''), (''iowait'', ''IOWait''),
        (''steal'', ''Steal'')])"

definition recordCPUUtilization :: "export_env \<Rightarrow> nat \<Rightarrow> instrument \<Rightarrow> cpu_stats \<Rightarrow> slice \<Rightarrow> action" where
  "recordCPUUtilization env i gauge cpu baseAttrs =
     with_attr env baseAttrs (''cpu'', show_int (CPUIndex cpu)) (\<lambda>cpuAttrs.
       let whole = calculateCPUTotal cpu in
       action_if (whole \<noteq> 0)
         (let states = calculateCPUStates cpu whole in
          record_each env cpuAttrs (map_rows (ee_order env i (dom states)) ''state'' states FloatValue) gauge))"

definition transformCPUStats :: "export_env \<Rightarrow> event_data \<Rightarrow> slice \<Rightarrow> transform" where
  "transformCPUStats env data attrs t =
     (case data of
        CPUData cpuStats \<Rightarrow>
          (case getOrCreateFloat64Gauge env ''system.cpu.utilization'' ''CPU utilization by state'' ''1'' t of
             None \<Rightarrow> None
           | Some (Inl err, t') \<Rightarrow> Some (Some err, t')
           | Some (Inr gauge, t') \<Rightarrow>
               return_nil (run_actions (map (\<lambda>(i, cpu). recordCPUUtilization env i gauge cpu attrs)
                 (enumerate 0 cpuStats))) t')
      | _ \<Rightarrow> invalid_data MetricTypeCPU t)"

definition transformProcessStats :: "export_env \<Rightarrow> event_data \<Rightarrow> slice \<Rightarrow> transform" where
  "transformProcessStats env data attrs =
     (case data of
        ProcessData processes \<Rightarrow>
          (let totalMemoryRSS = sum_list (map ps_MemoryRSS processes) in
           return_nil (run_actions
            [if_created (getOrCreateInt64Gauge env ''system.processes.count'' ''Number of processes'' ''1'')
               (record_one attrs (IntValue (int (length processes)))),
             if_created (getOrCreateInt64Gauge env ''system.memory.usage'' ''Memory usage by processes'' ''By'')
               (record_each env attrs [((''state'', ''processes''), int64 totalMemoryRSS)])]))
      | _ \<Rightarrow> invalid_data MetricTypeProcess)"

text \<open>A counter with one value for each direction.\<close>

definition two_way_counter :: "export_env \<Rightarrow> slice \<Rightarrow> bytes \<Rightarrow> bytes \<Rightarrow>
    bytes \<times> bytes \<times> bytes \<times> uint64 \<times> uint64 \<Rightarrow> action" where
  "two_way_counter env attrs in_label out_label row =
     (case row of (name, description, unit_name, inward, outward) \<Rightarrow>
        if_created (getOrCreateInt64Counter env name description unit_name)
          (record_labelled env attrs
             [((''direction'', in_label), int64 inward), ((''direction'', out_label), int64 outward)]))"

definition transformDisk :: "export_env \<Rightarrow> disk_stats \<Rightarrow> slice \<Rightarrow> action" where
  "transformDisk env disk attrs =
     with_attr env attrs (''device'', Device disk) (\<lambda>diskAttrs. run_actions
       [if_created (getOrCreateInt64Gauge env ''system.disk.io.in_progress'' ''I/O operations currently in progress'' ''1'')
          (record_one diskAttrs (int64 (disk_counters disk ''IOsInProgress''))),
        (case disk_delta disk of
           None \<Rightarrow> Some
         | Some delta \<Rightarrow>
             (let d = dd_deltas delta in run_actions
               (map (two_way_counter env diskAttrs ''read'' ''write'')
                  [(''system.disk.operations'', ''Disk I/O operations completed'', ''1'', d ''ReadsCompleted'', d ''WritesCompleted''),
                   (''system.disk.operations.merged'', ''Disk I/O operations merged before queuing'', ''1'', d ''ReadsMerged'', d ''WritesMerged''),
                   (''system.disk.io'', ''Disk I/O bytes'', ''By'', d ''SectorsRead'' * DefaultSectorSize, d ''SectorsWritten'' * DefaultSectorSize),
                   (''system.disk.io.time'', ''Time spent on disk I/O operations'', ''ms'', d ''ReadTime'', d ''WriteTime'')] @
                [if_created (getOrCreateInt64Counter env ''system.disk.io.active_time'' ''Time disk was active doing I/O'' ''ms'')
                   (record_one diskAttrs (int64 (d ''IOTime''))),
                 if_created (getOrCreateInt64Counter env ''system.disk.io.weighted_time'' ''Weighted time spent on disk I/O'' ''ms'')
                   (record_one diskAttrs (int64 (d ''WeightedIOTime'')))])))])"

definition transformDiskStats :: "export_env \<Rightarrow> event_data \<Rightarrow> slice \<Rightarrow> transform" where
  "transformDiskStats env data attrs =
     (case data of
        DiskData disks \<Rightarrow> return_nil (run_actions (map (\<lambda>disk. transformDisk env disk attrs) disks))
      | _ \<Rightarrow> invalid_data MetricTypeDisk)"

definition transformInterface :: "export_env \<Rightarrow> network_stats \<Rightarrow> slice \<Rightarrow> action" where
  "transformInterface env iface attrs =
     with_attr env attrs (''device'', Interface iface) (\<lambda>ifaceAttrs. run_actions
       [if_created (getOrCreateInt64Gauge env ''system.network.interface.speed'' ''Network interface link speed'' ''Mbit/s'')
          (record_one ifaceAttrs (int64 (Speed iface))),
        if_created (getOrCreateInt64Gauge env ''system.network.interface.up'' ''Network interface operational state'' ''1'')
          (record_one ifaceAttrs (IntValue (if OperState iface = ''up'' then 1 else 0))),
        if_created (getOrCreateInt64Gauge env ''system.network.interface.carrier'' ''Network interface carrier detection'' ''1'')
          (record_one ifaceAttrs (IntValue (if LinkDetected iface then 1 else 0))),
        (case net_delta iface of
           None \<Rightarrow> Some
         | Some delta \<Rightarrow>
             (let d = cd_deltas delta in run_actions
               (map (two_way_counter env ifaceAttrs ''receive'' ''transmit'')
                  [(''system.network.io'', ''Network I/O bytes'', ''By'', d ''RxBytes'', d ''TxBytes''),
                   (''system.network.packets'', ''Network packets'', ''1'', d ''RxPackets'', d ''TxPackets''),
                   (''system.network.errors'', ''Network transmission errors'', ''1'', d ''RxErrors'', d ''TxErrors''),
                   (''system.network.dropped'', ''Network packets dropped'', ''1'', d ''RxDropped'', d ''TxDropped'')])))])"

definition transformNetworkStats :: "export_env \<Rightarrow> event_data \<Rightarrow> slice \<Rightarrow> transform" where
  "transformNetworkStats env data attrs =
     (case data of
        NetworkData interfaces \<Rightarrow> return_nil (run_actions (map (\<lambda>iface. transformInterface env iface attrs) interfaces))
      | _ \<Rightarrow> invalid_data MetricTypeNetwork)"

definition typed_counter :: "export_env \<Rightarrow> slice \<Rightarrow> bytes \<Rightarrow> bytes \<Rightarrow> bytes \<Rightarrow> (bytes \<times> uint64) list \<Rightarrow> action" where
  "typed_counter env attrs name description label rows =
     if_created (getOrCreateInt64Counter env name description ''1'')
       (record_labelled env attrs (map (\<lambda>(l, v). ((label, l), int64 v)) rows))"

definition plain_counter :: "export_env \<Rightarrow> slice \<Rightarrow> bytes \<Rightarrow> bytes \<Rightarrow> uint64 \<Rightarrow> action" where
  "plain_counter env attrs name description v =
     if_created (getOrCreateInt64Counter env name description ''1'') (record_one attrs (int64 v))"

definition tcp_counter_actions :: "export_env \<Rightarrow> counters \<Rightarrow> slice \<Rightarrow> action list" where
  "tcp_counter_actions env d attrs =
     [typed_counter env attrs ''system.network.tcp.connection.opens'' ''TCP connection openings by type'' ''type''
        [(''active'', d ''ActiveOpens''), (''passive'', d ''PassiveOpens'')],
      plain_counter env attrs ''system.network.tcp.connection.attempt_fails'' ''Failed TCP connection attempts'' (d ''AttemptFails''),
      plain_counter env attrs ''system.network.tcp.connection.estab_resets'' ''TCP resets from established state'' (d ''EstabResets''),
      typed_counter env attrs ''system.network.tcp.segments'' ''TCP segments by direction'' ''direction''
        [(''in'', d ''InSegs''), (''out'', d ''OutSegs'')],
      plain_counter env attrs ''system.network.tcp.retrans_segs'' ''TCP segments retransmitted'' (d ''RetransSegs''),
      typed_counter env attrs ''system.network.tcp.errors'' ''TCP errors by type'' ''type''
        [(''in_errors'', d ''InErrs''), (''out_resets'', d ''OutRsts''), (''checksum_errors'', d ''InCsumErrors'')],
      typed_counter env attrs ''system.network.tcp.syncookies'' ''SYN cookies by result'' ''result''
        [(''sent'', d ''SyncookiesSent''), (''received'', d ''SyncookiesRecv''), (''failed'', d ''SyncookiesFailed'')],
      typed_counter env attrs ''system.network.tcp.listen_issues'' ''TCP listen queue issues by type'' ''type''
        [(''overflows'', d ''ListenOverflows''), (''drops'', d ''ListenDrops'')],
      typed_counter env attrs ''system.network.tcp.retrans_detail'' ''TCP retransmissions by type'' ''type''
        [(''lost'', d ''TCPLostRetransmit''), (''fast'', d ''TCPFastRetrans''), (''slow_start'', d ''TCPSlowStartRetrans'')],
      plain_counter env attrs ''system.network.tcp.timeouts'' ''TCP retransmission timeouts'' (d ''TCPTimeouts'')]"

definition transformTCPStats :: "export_env \<Rightarrow> event_data \<Rightarrow> slice \<Rightarrow> transform" where
  "transformTCPStats env data attrs =
     (case data of
        TCPData stats \<Rightarrow>
          return_nil (run_actions
            [if_created (getOrCreateInt64Gauge env ''system.network.connections'' ''Network connections by protocol and state'' ''1'')
               (\<lambda>gauge. with_attr env attrs (''protocol'', ''tcp'') (\<lambda>tcpAttrs.
                  record_each env tcpAttrs
                    (map_rows (ee_order env 0 (dom (tcp_by_state stats))) ''state'' (tcp_by_state stats) int64) gauge)),
             if_created (getOrCreateInt64Gauge env ''system.network.tcp.connection.established'' ''Current established TCP connections'' ''1'')
               (record_one attrs (int64 (tcp_counters stats ''CurrEstab''))),
             (case tcp_delta stats of
                None \<Rightarrow> Some
              | Some delta \<Rightarrow> run_actions (tcp_counter_actions env (cd_deltas delta) attrs))])
      | _ \<Rightarrow> invalid_data MetricTypeTCP)"

definition transformSystemStats :: "export_env \<Rightarrow> event_data \<Rightarrow> slice \<Rightarrow> transform" where
  "transformSystemStats env data attrs =
     (case data of
        SystemData stats \<Rightarrow>
          return_nil (run_actions
            [plain_counter env attrs ''system.interrupts'' ''System interrupts'' (sys_fields stats ''Interrupts''),
             plain_counter env attrs ''system.context_switches'' ''System context switches''
               (sys_fields stats ''ContextSwitches'')])
      | _ \<Rightarrow> invalid_data MetricTypeSystem)"

definition severity_key :: "kernel_message \<Rightarrow> bytes" where
  "severity_key msg = ''severity_'' @ show_nat (unat (Severity msg))"

definition severityCounts :: "kernel_message list \<Rightarrow> bytes \<rightharpoonup> int" where
  "severityCounts messages =
     fold (\<lambda>msg m. m(severity_key msg \<mapsto> (case m (severity_key msg) of None \<Rightarrow> 1 | Some n \<Rightarrow> n + 1)))
       messages Map.empty"

definition transformKernelMessages :: "export_env \<Rightarrow> event_data \<Rightarrow> slice \<Rightarrow> transform" where
  "transformKernelMessages env data attrs =
     (case data of
        KernelMessages messages \<Rightarrow>
          return_nil (if_created (getOrCreateInt64Counter env ''system.kernel.messages'' ''Kernel messages by severity'' ''1'')
            (record_each env attrs
              (map_rows (ee_order env 0 (dom (severityCounts messages))) ''severity'' (severityCounts messages) IntValue)))
      | _ \<Rightarrow> invalid_data MetricTypeKernel)"

definition transformNUMANode :: "export_env \<Rightarrow> numa_node \<Rightarrow> slice \<Rightarrow> action" where
  "transformNUMANode env node attrs =
     with_attr env attrs (''numa_node'', show_int (numa_ID node)) (\<lambda>nodeAttrs. run_actions
       [if_created (getOrCreateInt64Gauge env ''system.memory.numa.usage'' ''NUMA node memory usage by type'' ''By'')
          (record_labelled env nodeAttrs
             [((''type'', ''free''), int64 (numa_memory node ''MemFree'')),
              ((''type'', ''used''), int64 (numa_memory node ''MemUsed''))]),
        if_created (getOrCreateInt64Gauge env ''system.memory.numa.pages'' ''NUMA node memory pages by type'' ''By'')
          (record_labelled env nodeAttrs
             [((''type'', ''file''), int64 (numa_memory node ''FilePages'')),
              ((''type'', ''anon''), int64 (numa_memory node ''AnonPages''))]),
        (case numa_delta node of
           None \<Rightarrow> Some
         | Some delta \<Rightarrow>
             (let d = cd_deltas delta in run_actions
               [typed_counter env nodeAttrs ''system.memory.numa.events'' ''NUMA memory allocation events by type'' ''type''
                  [(''hit'', d ''NumaHit''), (''miss'', d ''NumaMiss''), (''foreign'', d ''NumaForeign''),
                   (''interleave_hit'', d ''InterleaveHit'')],
                typed_counter env nodeAttrs ''system.memory.numa.locality'' ''NUMA memory allocation locality by type'' ''type''
                  [(''local_node'', d ''LocalNode''), (''other_node'', d ''OtherNode'')]]))])"

definition transformNUMAStats :: "export_env \<Rightarrow> event_data \<Rightarrow> slice \<Rightarrow> transform" where
  "transformNUMAStats env data attrs =
     (case data of
        NUMAData stats \<Rightarrow>
          return_nil (action_if (numa_Enabled stats)
            (run_actions (map (\<lambda>node. transformNUMANode env node attrs) (Nodes stats))))
      | _ \<Rightarrow> invalid_data MetricTypeNUMAStats)"

definition transform_of :: "metric_type \<Rightarrow> (export_env \<Rightarrow> event_data \<Rightarrow> slice \<Rightarrow> transform) option" where
  "transform_of ty = map_of
     [(MetricTypeLoad, transformLoadStats), (MetricTypeMemory, transformMemoryStats),
      (MetricTypeCPU, transformCPUStats), (MetricTypeProcess, transformProcessStats),
      (MetricTypeDisk, transformDiskStats), (MetricTypeNetwork, transformNetworkStats),
      (MetricTypeTCP, transformTCPStats), (MetricTypeSystem, transformSystemStats),
      (MetricTypeKernel, transformKernelMessages), (MetricTypeNUMAStats, transformNUMAStats)] ty"

text \<open>The information types and unknown ones are accepted and record nothing.\<close>

definition TransformAndRecord :: "export_env \<Rightarrow> event_data metric_event \<Rightarrow> transform" where
  "TransformAndRecord env event t =
     (case transform_of (MetricType event) of
        None \<Rightarrow> Some (None, t)
      | Some f \<Rightarrow> (case buildAttributes env event t of (attrs, t') \<Rightarrow> f env (Data event) attrs t'))"

end
