(* ===== verification/ExportLogic.thy ===== *)
theory ExportLogic
  imports OtelTransformer
begin

text \<open>
  What the exporter records, by rules over the shapes of its code. \<open>emits\<close> says of an action
  that it does not panic, keeps the instrument cache well formed and the attributes before the
  slice's end, and makes measurements of which a predicate holds. Two predicates are used: an
  exact list, when the meter creates every instrument, and a restriction on the labels.
\<close>

section \<open>Samples and the cache invariant\<close>

type_synonym sample = "instrument_kind \<times> bytes \<times> measured \<times> attribute list"

definition sample_of :: "measurement \<Rightarrow> sample" where
  "sample_of m = (in_kind (ms_instrument m), in_name (ms_instrument m), ms_value m, ms_attrs m)"

definition samples :: "transformer \<Rightarrow> sample list" where
  "samples t = map sample_of (measurements t)"

definition cache_inv :: "transformer \<Rightarrow> bool" where
  "cache_inv t \<longleftrightarrow>
     list_all (\<lambda>(key, inst). key = key_prefix (in_kind inst) @ in_name inst) (instruments t) \<and>
     distinct (map fst (instruments t)) \<and> length (instruments t) \<le> MaxInstrumentCacheSize"

definition emits :: "slice \<Rightarrow> attribute list \<Rightarrow> nat \<Rightarrow> action \<Rightarrow> (sample list \<Rightarrow> bool) \<Rightarrow> bool" where
  "emits s base k act Q \<longleftrightarrow>
     (\<forall>t. cache_inv t \<and> holds (attr_arrays t) s base k \<longrightarrow>
        (\<exists>t' out. act t = Some t' \<and> cache_inv t' \<and> serviceVersion t' = serviceVersion t \<and>
           behind s (attr_arrays t) (attr_arrays t') \<and> samples t' = samples t @ out \<and> Q out))"

lemma emitsI:
  assumes "\<And>t. cache_inv t \<Longrightarrow> holds (attr_arrays t) s base k \<Longrightarrow>
    \<exists>t' out. act t = Some t' \<and> cache_inv t' \<and> serviceVersion t' = serviceVersion t \<and>
      behind s (attr_arrays t) (attr_arrays t') \<and> samples t' = samples t @ out \<and> Q out"
  shows "emits s base k act Q"
  using assms by (auto simp: emits_def)

lemma emitsE:
  assumes "emits s base k act Q" "cache_inv t" "holds (attr_arrays t) s base k"
  obtains t' out where "act t = Some t'" "cache_inv t'" "serviceVersion t' = serviceVersion t"
    "behind s (attr_arrays t) (attr_arrays t')" "samples t' = samples t @ out" "Q out"
  using assms unfolding emits_def by blast

section \<open>Instruments\<close>

lemma key_inject:
  "key_prefix k @ n = key_prefix k' @ n' \<longleftrightarrow> k = k' \<and> n = n'"
  by (cases k; cases k') (auto simp: key_prefix_def)

text \<open>A lookup never panics and gives an instrument of the kind and name asked for.\<close>

lemma getOrCreate_spec:
  assumes "cache_inv t"
  shows "\<exists>r t'. getOrCreate kind env name d u t = Some (r, t') \<and> cache_inv t' \<and>
    serviceVersion t' = serviceVersion t \<and> attr_arrays t' = attr_arrays t \<and>
    measurements t' = measurements t \<and>
    (case r of Inr inst \<Rightarrow> in_kind inst = kind \<and> in_name inst = name
     | Inl err \<Rightarrow> \<not> (\<forall>q. ee_meter env q) \<and> t' = t)"
proof (cases "map_of (instruments t) (key_prefix kind @ name)")
  case None
  then have "key_prefix kind @ name \<notin> set (map fst (instruments t))"
    by (simp add: map_of_eq_None_iff)
  with None assms show ?thesis
    by (auto simp: getOrCreate_def Let_def cache_inv_def)
next
  case (Some inst)
  then have "key_prefix kind @ name = key_prefix (in_kind inst) @ in_name inst"
    using assms map_of_SomeD [OF Some] by (auto simp: cache_inv_def list_all_iff)
  then have "kind = in_kind inst \<and> name = in_name inst" by (simp only: key_inject)
  with Some assms show ?thesis by (auto simp: getOrCreate_def)
qed

section \<open>Rules\<close>

lemma emits_skip: "Q [] \<Longrightarrow> emits s base k Some Q"
  by (rule emitsI) auto

lemma emits_mono: "emits s base k act Q \<Longrightarrow> (\<And>out. Q out \<Longrightarrow> R out) \<Longrightarrow> emits s base k act R"
  unfolding emits_def by blast

lemma record_value_simps [simp]:
  "cache_inv (record_value inst s v t) = cache_inv t"
  "serviceVersion (record_value inst s v t) = serviceVersion t"
  "attr_arrays (record_value inst s v t) = attr_arrays t"
  "samples (record_value inst s v t) =
     samples t @ [(in_kind inst, in_name inst, v, slice_elems (attr_arrays t) s)]"
  by (simp_all add: record_value_def cache_inv_def samples_def sample_of_def)

lemma append_attr_spec:
  assumes "holds (attr_arrays t) s base (Suc k)" "append_attr env s kv t = (s', t')"
  shows "s' = s\<lparr>sl_len := Suc (length base)\<rparr> \<and> holds (attr_arrays t') s' (base @ [kv]) k \<and>
    behind s (attr_arrays t) (attr_arrays t') \<and> cache_inv t' = cache_inv t \<and>
    serviceVersion t' = serviceVersion t \<and> samples t' = samples t"
proof -
  obtain st where st: "slice_append (ee_grow env) s kv (attr_arrays t) = (s', st)"
    "t' = t\<lparr>attr_arrays := st\<rparr>"
    using assms(2) by (auto simp: append_attr_def split: prod.splits)
  with slice_append_holds [OF assms(1) st(1)] show ?thesis
    by (auto simp: cache_inv_def samples_def)
qed

lemma emits_if_created:
  assumes "\<And>inst. in_kind inst = kind \<Longrightarrow> in_name inst = name \<Longrightarrow> emits s base k (body inst) Q"
    and "\<not> (\<forall>r. ee_meter env r) \<Longrightarrow> Q []"
  shows "emits s base k (if_created (getOrCreate kind env name d u) body) Q"
proof (rule emitsI)
  fix t
  assume t: "cache_inv t" "holds (attr_arrays t) s base k"
  obtain r t1 where r: "getOrCreate kind env name d u t = Some (r, t1)" "cache_inv t1"
    "serviceVersion t1 = serviceVersion t" "attr_arrays t1 = attr_arrays t" "measurements t1 = measurements t"
    "case r of Inr inst \<Rightarrow> in_kind inst = kind \<and> in_name inst = name | Inl err \<Rightarrow> \<not> (\<forall>q. ee_meter env q) \<and> t1 = t"
    using getOrCreate_spec [OF t(1)] by blast
  show "\<exists>t' out. if_created (getOrCreate kind env name d u) body t = Some t' \<and> cache_inv t' \<and>
      serviceVersion t' = serviceVersion t \<and> behind s (attr_arrays t) (attr_arrays t') \<and>
      samples t' = samples t @ out \<and> Q out"
  proof (cases r)
    case (Inl err)
    with r t assms(2) show ?thesis by (auto simp: if_created_def)
  next
    case (Inr inst)
    then have "emits s base k (body inst) Q" using assms(1) r(6) by simp
    then show ?thesis
      by (rule emitsE [of s base k "body inst" Q t1])
        (use r t Inr in \<open>auto simp: if_created_def samples_def\<close>)
  qed
qed

lemma emits_record_one:
  "emits s base k (record_one s v inst) (\<lambda>out. out = [(in_kind inst, in_name inst, v, base)])"
  by (rule emitsI) (auto simp: record_one_def holds_elems)

lemma emits_record_each:
  "emits s base (Suc k) (record_each env s rows inst)
     (\<lambda>out. out = map (\<lambda>(kv, v). (in_kind inst, in_name inst, v, base @ [kv])) rows)"
proof (induction rows)
  case Nil
  show ?case by (rule emitsI) auto
next
  case (Cons row rows)
  obtain kv v where row: "row = (kv, v)" by (cases row)
  show ?case
  proof (rule emitsI)
    fix t
    assume t: "cache_inv t" "holds (attr_arrays t) s base (Suc k)"
    obtain s1 t1 where a: "append_attr env s kv t = (s1, t1)" by fastforce
    note spec = append_attr_spec [OF t(2) a]
    let ?t2 = "record_value inst s1 v t1"
    have "cache_inv ?t2" "holds (attr_arrays ?t2) s base (Suc k)"
      using spec t behind_holds by auto
    then show "\<exists>t' out. record_each env s (row # rows) inst t = Some t' \<and> cache_inv t' \<and>
        serviceVersion t' = serviceVersion t \<and> behind s (attr_arrays t) (attr_arrays t') \<and>
        samples t' = samples t @ out \<and>
        out = map (\<lambda>(kv, v). (in_kind inst, in_name inst, v, base @ [kv])) (row # rows)"
      by (rule emitsE [OF Cons.IH]) (use spec a row in \<open>auto simp: holds_elems intro: behind_trans\<close>)
  qed
qed

text \<open>
  All labels appended first: there is one cell behind the slice, the results are the same slice,
  and every value is recorded with the last label.
\<close>

lemma append_labels_spec:
  assumes "holds (attr_arrays t) s base (Suc k)" "kvs \<noteq> []" "append_labels env s kvs t = (ss, t')"
  shows "ss = replicate (length kvs) (s\<lparr>sl_len := Suc (length base)\<rparr>) \<and>
    holds (attr_arrays t') (s\<lparr>sl_len := Suc (length base)\<rparr>) (base @ [last kvs]) k \<and>
    behind s (attr_arrays t) (attr_arrays t') \<and> cache_inv t' = cache_inv t \<and>
    serviceVersion t' = serviceVersion t \<and> samples t' = samples t"
  using assms
proof (induction kvs arbitrary: t ss)
  case (Cons kv kvs)
  obtain s1 t1 where a: "append_attr env s kv t = (s1, t1)" by fastforce
  note first = append_attr_spec [OF Cons.prems(1) a]
  obtain ss' t2 where rest: "append_labels env s kvs t1 = (ss', t2)" by fastforce
  have ss: "ss = s1 # ss'" "t' = t2" using Cons.prems(3) a rest by auto
  show ?case
  proof (cases "kvs = []")
    case True
    then show ?thesis using first rest ss by auto
  next
    case False
    have "holds (attr_arrays t1) s base (Suc k)" using first Cons.prems(1) behind_holds by blast
    from Cons.IH [OF this False] rest first False ss show ?thesis
      by (auto intro: behind_trans)
  qed
qed simp

lemma fold_record_same:
  "samples (fold (\<lambda>(s', v). record_value inst s' v) (zip (replicate (length vs) s) vs) t) =
     samples t @ map (\<lambda>v. (in_kind inst, in_name inst, v, slice_elems (attr_arrays t) s)) vs \<and>
   attr_arrays (fold (\<lambda>(s', v). record_value inst s' v) (zip (replicate (length vs) s) vs) t) = attr_arrays t \<and>
   serviceVersion (fold (\<lambda>(s', v). record_value inst s' v) (zip (replicate (length vs) s) vs) t) = serviceVersion t \<and>
   cache_inv (fold (\<lambda>(s', v). record_value inst s' v) (zip (replicate (length vs) s) vs) t) = cache_inv t"
  by (induction vs arbitrary: t) simp_all

lemma emits_record_labelled:
  assumes "rows \<noteq> []"
  shows "emits s base (Suc k) (record_labelled env s rows inst)
    (\<lambda>out. out = map (\<lambda>v. (in_kind inst, in_name inst, v, base @ [fst (last rows)])) (map snd rows))"
proof (rule emitsI)
  fix t
  assume t: "cache_inv t" "holds (attr_arrays t) s base (Suc k)"
  obtain ss t1 where a: "append_labels env s (map fst rows) t = (ss, t1)" by fastforce
  have spec: "ss = replicate (length rows) (s\<lparr>sl_len := Suc (length base)\<rparr>)"
    "slice_elems (attr_arrays t1) (s\<lparr>sl_len := Suc (length base)\<rparr>) = base @ [fst (last rows)]"
    "behind s (attr_arrays t) (attr_arrays t1)" "cache_inv t1 = cache_inv t"
    "serviceVersion t1 = serviceVersion t" "samples t1 = samples t"
    using append_labels_spec [OF t(2) _ a] assms holds_elems by (auto simp: last_map)
  have "record_labelled env s rows inst t = Some (fold (\<lambda>(s', v). record_value inst s' v)
      (zip (replicate (length (map snd rows)) (s\<lparr>sl_len := Suc (length base)\<rparr>)) (map snd rows)) t1)"
    using a spec(1) by (simp add: record_labelled_def)
  then show "\<exists>t' out. record_labelled env s rows inst t = Some t' \<and> cache_inv t' \<and>
      serviceVersion t' = serviceVersion t \<and> behind s (attr_arrays t) (attr_arrays t') \<and>
      samples t' = samples t @ out \<and>
      out = map (\<lambda>v. (in_kind inst, in_name inst, v, base @ [fst (last rows)])) (map snd rows)"
    using fold_record_same [of inst "map snd rows" "s\<lparr>sl_len := Suc (length base)\<rparr>" t1] spec t(1)
    by (intro exI [of _ "the (record_labelled env s rows inst t)"]) auto
qed

lemma emits_Cons:
  assumes "emits s base k a Q1" "emits s base k (run_actions as) Q2"
    and "\<And>out1 out2. Q1 out1 \<Longrightarrow> Q2 out2 \<Longrightarrow> Q (out1 @ out2)"
  shows "emits s base k (run_actions (a # as)) Q"
proof (rule emitsI)
  fix t
  assume t: "cache_inv t" "holds (attr_arrays t) s base k"
  from assms(1) t obtain t1 out1 where 1: "a t = Some t1" "cache_inv t1" "serviceVersion t1 = serviceVersion t"
    "behind s (attr_arrays t) (attr_arrays t1)" "samples t1 = samples t @ out1" "Q1 out1" by (rule emitsE)
  from assms(2) 1(2) behind_holds [OF 1(4) t(2)] obtain t2 out2 where "run_actions as t1 = Some t2"
    "cache_inv t2" "serviceVersion t2 = serviceVersion t1" "behind s (attr_arrays t1) (attr_arrays t2)"
    "samples t2 = samples t1 @ out2" "Q2 out2"
    by (rule emitsE)
  with 1 assms(3) show "\<exists>t' out. run_actions (a # as) t = Some t' \<and> cache_inv t' \<and>
      serviceVersion t' = serviceVersion t \<and> behind s (attr_arrays t) (attr_arrays t') \<and>
      samples t' = samples t @ out \<and> Q out"
    by (intro exI [of _ t2] exI [of _ "out1 @ out2"]) (auto intro: behind_trans)
qed

lemma emits_with_attr:
  assumes "\<And>s'. emits s' (base @ [kv]) k (body s') Q"
  shows "emits s base (Suc k) (with_attr env s kv body) Q"
proof (rule emitsI)
  fix t
  assume t: "cache_inv t" "holds (attr_arrays t) s base (Suc k)"
  obtain s1 t1 where a: "append_attr env s kv t = (s1, t1)" by fastforce
  note spec = append_attr_spec [OF t(2) a]
  have "cache_inv t1" "holds (attr_arrays t1) s1 (base @ [kv]) k" using spec t by auto
  from assms this obtain t' out where run: "body s1 t1 = Some t'" "cache_inv t'"
    "serviceVersion t' = serviceVersion t1" "behind s1 (attr_arrays t1) (attr_arrays t')"
    "samples t' = samples t1 @ out" "Q out" by (rule emitsE)
  have "behind s (attr_arrays t1) (attr_arrays t')"
    using behind_shorter [OF run(4)] spec t(2) by (auto simp: holds_def)
  then have "behind s (attr_arrays t) (attr_arrays t')" using spec behind_trans by blast
  with run spec a show "\<exists>t' out. with_attr env s kv body t = Some t' \<and> cache_inv t' \<and>
      serviceVersion t' = serviceVersion t \<and> behind s (attr_arrays t) (attr_arrays t') \<and>
      samples t' = samples t @ out \<and> Q out" by (auto simp: with_attr_def)
qed

section \<open>Exact logs\<close>

text \<open>Rules for the samples of an action when the meter creates every instrument.\<close>

definition logs :: "export_env \<Rightarrow> slice \<Rightarrow> attribute list \<Rightarrow> nat \<Rightarrow> action \<Rightarrow> sample list \<Rightarrow> bool" where
  "logs env s base k act expected \<longleftrightarrow> emits s base k act (\<lambda>out. (\<forall>r. ee_meter env r) \<longrightarrow> out = expected)"

lemma logs_skip: "logs env s base k Some []"
  by (simp add: logs_def emits_skip)

lemma logs_if_created:
  "(\<And>inst. in_kind inst = kind \<Longrightarrow> in_name inst = name \<Longrightarrow> logs env s base k (body inst) out) \<Longrightarrow>
   logs env s base k (if_created (getOrCreate kind env name d u) body) out"
  unfolding logs_def by (rule emits_if_created) auto

lemma logs_record_one:
  "in_kind inst = kind \<Longrightarrow> in_name inst = name \<Longrightarrow>
   logs env s base k (record_one s v inst) [(kind, name, v, base)]"
  unfolding logs_def by (rule emits_mono [OF emits_record_one]) auto

lemma logs_record_each:
  "in_kind inst = kind \<Longrightarrow> in_name inst = name \<Longrightarrow>
   logs env s base (Suc k) (record_each env s rows inst) (map (\<lambda>(kv, v). (kind, name, v, base @ [kv])) rows)"
  unfolding logs_def by (rule emits_mono [OF emits_record_each]) auto

lemma logs_record_labelled:
  "in_kind inst = kind \<Longrightarrow> in_name inst = name \<Longrightarrow> rows \<noteq> [] \<Longrightarrow>
   logs env s base (Suc k) (record_labelled env s rows inst)
     (map (\<lambda>v. (kind, name, v, base @ [fst (last rows)])) (map snd rows))"
  unfolding logs_def by (rule emits_mono [OF emits_record_labelled]) auto

lemma logs_Nil: "logs env s base k (run_actions []) []"
  unfolding logs_def by (rule emitsI) auto

lemma logs_Cons:
  "logs env s base k a out1 \<Longrightarrow> logs env s base k (run_actions as) out2 \<Longrightarrow>
   logs env s base k (run_actions (a # as)) (out1 @ out2)"
  unfolding logs_def by (erule (1) emits_Cons) auto

lemma logs_map:
  assumes "\<And>x. x \<in> set xs \<Longrightarrow> logs env s base k (f x) (out x)"
  shows "logs env s base k (run_actions (map f xs)) (concat (map out xs))"
  using assms
proof (induction xs)
  case Nil
  show ?case using logs_Nil by (simp only: list.map concat.simps)
next
  case (Cons x xs)
  then have "logs env s base k (run_actions (f x # map f xs)) (out x @ concat (map out xs))"
    by (intro logs_Cons) auto
  then show ?case by (simp only: list.map concat.simps)
qed

lemma logs_option:
  "(\<And>d. x = Some d \<Longrightarrow> logs env s base k (f d) (out d)) \<Longrightarrow>
   logs env s base k (case x of None \<Rightarrow> Some | Some d \<Rightarrow> f d) (case x of None \<Rightarrow> [] | Some d \<Rightarrow> out d)"
  by (cases x) (auto intro: logs_skip)

lemma logs_with_attr:
  "(\<And>s'. logs env s' (base @ [kv]) k (body s') out) \<Longrightarrow> logs env s base (Suc k) (with_attr env s kv body) out"
  unfolding logs_def by (rule emits_with_attr)

section \<open>Labels\<close>

text \<open>
  Actions whose samples have attributes that extend those of the event by labels with \<open>P\<close>.
\<close>

definition extends :: "(attribute \<Rightarrow> bool) \<Rightarrow> attribute list \<Rightarrow> sample \<Rightarrow> bool" where
  "extends P root_attrs x =
     (case x of (kind, name, v, attrs) \<Rightarrow>
        take (length root_attrs) attrs = root_attrs \<and> list_all P (drop (length root_attrs) attrs))"

definition labels_ok :: "(attribute \<Rightarrow> bool) \<Rightarrow> attribute list \<Rightarrow> slice \<Rightarrow> attribute list \<Rightarrow> nat \<Rightarrow> action \<Rightarrow> bool" where
  "labels_ok P root_attrs s extra k act \<longleftrightarrow>
     (list_all P extra \<longrightarrow> emits s (root_attrs @ extra) k act (list_all (extends P root_attrs)))"

lemma labels_skip: "labels_ok P b s e k Some"
  by (simp add: labels_ok_def emits_skip)

lemma labels_if_created:
  "(\<And>inst. labels_ok P b s e k (body inst)) \<Longrightarrow>
   labels_ok P b s e k (if_created (getOrCreate kind env name d u) body)"
  by (auto simp: labels_ok_def intro!: emits_if_created)

lemma labels_record_one: "labels_ok P b s e k (record_one s v inst)"
  by (auto simp: labels_ok_def extends_def intro!: emits_mono [OF emits_record_one])

lemma labels_record_each:
  "list_all (P \<circ> fst) rows \<Longrightarrow> labels_ok P b s e (Suc k) (record_each env s rows inst)"
  by (fastforce simp: labels_ok_def extends_def list_all_iff intro!: emits_mono [OF emits_record_each])

lemma labels_record_labelled:
  "rows \<noteq> [] \<Longrightarrow> P (fst (last rows)) \<Longrightarrow> labels_ok P b s e (Suc k) (record_labelled env s rows inst)"
  by (auto simp: labels_ok_def extends_def list_all_iff intro!: emits_mono [OF emits_record_labelled])

lemma labels_Nil: "labels_ok P b s e k (run_actions [])"
  by (auto simp: labels_ok_def intro!: emitsI)

lemma labels_Cons:
  "labels_ok P b s e k a \<Longrightarrow> labels_ok P b s e k (run_actions as) \<Longrightarrow> labels_ok P b s e k (run_actions (a # as))"
  unfolding labels_ok_def by (auto intro: emits_Cons simp del: run_actions.simps)

lemma labels_all:
  "list_all (labels_ok P b s e k) as \<Longrightarrow> labels_ok P b s e k (run_actions as)"
  by (induction as) (auto intro: labels_Nil labels_Cons simp del: run_actions.simps)

lemma labels_action_if: "labels_ok P b s e k a \<Longrightarrow> labels_ok P b s e k (action_if c a)"
  by (cases c) (auto simp: action_if_def [abs_def] labels_skip)

lemma labels_option:
  "(\<And>d. labels_ok P b s e k (f d)) \<Longrightarrow> labels_ok P b s e k (case x of None \<Rightarrow> Some | Some d \<Rightarrow> f d)"
  by (cases x) (auto intro: labels_skip)

lemma labels_with_attr:
  "P kv \<Longrightarrow> (\<And>s'. labels_ok P b s' (e @ [kv]) k (body s')) \<Longrightarrow> labels_ok P b s e (Suc k) (with_attr env s kv body)"
  unfolding labels_ok_def by (auto intro: emits_with_attr)

section \<open>The attributes of an event\<close>

lemma append_all_spec:
  assumes "holds (attr_arrays t) s base (length kvs + k)" "append_all env s kvs t = (s', t')"
  shows "holds (attr_arrays t') s' (base @ kvs) k \<and> cache_inv t' = cache_inv t \<and>
    serviceVersion t' = serviceVersion t \<and> samples t' = samples t"
  using assms
proof (induction kvs arbitrary: s base t)
  case (Cons kv kvs)
  obtain s1 t1 where a: "append_attr env s kv t = (s1, t1)" by fastforce
  have "holds (attr_arrays t) s base (Suc (length kvs + k))" using Cons.prems(1) by simp
  note spec = append_attr_spec [OF this a]
  then show ?case using Cons.IH [of t1 s1 "base @ [kv]"] Cons.prems(2) a by auto
qed simp

lemma standard_attributes_length: "length (standard_attributes event version) \<le> 4"
  by (simp add: standard_attributes_def)

lemma buildAttributes_spec:
  assumes "cache_inv t" "buildAttributes env event t = (s, t')"
  shows "holds (attr_arrays t') s (standard_attributes event (serviceVersion t)) 6 \<and> cache_inv t' \<and>
    serviceVersion t' = serviceVersion t \<and> samples t' = samples t"
proof -
  let ?kvs = "standard_attributes event (serviceVersion t)"
  obtain s0 st where m: "make_slice 10 (attr_arrays t) = (s0, st)" by fastforce
  then have "holds st s0 [] (length ?kvs + 6)"
    using make_slice_holds holds_less standard_attributes_length [of event "serviceVersion t"] by fastforce
  then show ?thesis
    using append_all_spec [of "t\<lparr>attr_arrays := st\<rparr>" s0 "[]" ?kvs 6 env s t'] assms m
    by (auto simp: buildAttributes_def cache_inv_def samples_def)
qed

end
