(* ===== verification/OtelLogs.thy ===== *)
theory OtelLogs
  imports ExportLogic
begin

text \<open>
  Log records made from events, \<open>internal/metrics/consumers/otel/log_transformer.go\<close>, and the
  consumer's processing of one event, \<open>processEvent\<close> of \<open>consumer.go\<close>. The state of the log
  transformer is the list of the records it emitted.
\<close>

section \<open>Log records\<close>

datatype log_value = LogString bytes | LogInt int | LogFloat rat

datatype log_severity =
  SeverityDebug | SeverityInfo | SeverityInfo2 | SeverityWarn | SeverityError | SeverityFatal2
| SeverityFatal3 | SeverityFatal4

record log_record =
  lr_Timestamp :: instant
  lr_Severity :: log_severity
  lr_SeverityText :: bytes
  lr_Body :: bytes
  lr_attrs :: "(bytes \<times> log_value) list"

record log_transformer =
  lt_serviceVersion :: bytes
  emitted :: "log_record list"

definition mapKernelSeverityToOTEL :: "8 word \<Rightarrow> log_severity" where
  "mapKernelSeverityToOTEL severity =
     (case map_of [(0, SeverityFatal4), (1, SeverityFatal3), (2, SeverityFatal2), (3, SeverityError),
                   (4, SeverityWarn), (5, SeverityInfo2), (6, SeverityInfo), (7, SeverityDebug)] severity of
        Some s \<Rightarrow> s | None \<Rightarrow> SeverityInfo)"

definition getKernelSeverityText :: "8 word \<Rightarrow> bytes" where
  "getKernelSeverityText severity =
     (case map_of [(0, ''EMERG''), (1, ''ALERT''), (2, ''CRIT''), (3, ''ERROR''), (4, ''WARNING''),
                   (5, ''NOTICE''), (6, ''INFO''), (7, ''DEBUG'')] severity of
        Some s \<Rightarrow> s | None \<Rightarrow> ''UNKNOWN('' @ show_nat (unat severity) @ '')'')"

definition log_standard :: "event_data metric_event \<Rightarrow> bytes \<Rightarrow> (bytes \<times> log_value) list" where
  "log_standard event version =
     (if NodeName event \<noteq> [] then [(''host.name'', LogString (NodeName event))] else []) @
     (if ClusterName event \<noteq> [] then [(''k8s.cluster.name'', LogString (ClusterName event))] else []) @
     (if Source event \<noteq> [] then [(''service.instance.id'', LogString (Source event))] else []) @
     (if version \<noteq> [] then [(''service.version'', LogString version)] else [])"

definition log_emit :: "log_record \<Rightarrow> log_transformer \<Rightarrow> log_transformer" where
  "log_emit r lt = lt\<lparr>emitted := emitted lt @ [r]\<rparr>"

definition emitKernelMessage :: "kernel_message \<Rightarrow> event_data metric_event \<Rightarrow> log_transformer \<Rightarrow> log_transformer" where
  "emitKernelMessage msg event lt = log_emit
     \<lparr>lr_Timestamp = km_Timestamp msg, lr_Severity = mapKernelSeverityToOTEL (Severity msg),
      lr_SeverityText = getKernelSeverityText (Severity msg), lr_Body = Message msg,
      lr_attrs = log_standard event (lt_serviceVersion lt) @
        [(''kernel.facility'', LogInt (uint (Facility msg))), (''kernel.severity'', LogInt (uint (Severity msg))),
         (''kernel.sequence'', LogInt (sint (SequenceNum msg)))] @
        (if Subsystem msg \<noteq> [] then [(''kernel.subsystem'', LogString (Subsystem msg))] else []) @
        (if km_Device msg \<noteq> [] then [(''kernel.device'', LogString (km_Device msg))] else [])\<rparr> lt"

definition handleKernelMessages :: "event_data metric_event \<Rightarrow> log_transformer \<Rightarrow> bool \<times> log_transformer" where
  "handleKernelMessages event lt =
     (case Data event of
        KernelMessagePointers msgs \<Rightarrow> (True, fold (\<lambda>msg. emitKernelMessage msg event) msgs lt)
      | KernelMessagePointer msg \<Rightarrow> (True, emitKernelMessage msg event lt)
      | _ \<Rightarrow> (False, lt))"

definition present :: "bool \<Rightarrow> bytes \<Rightarrow> log_value \<Rightarrow> (bytes \<times> log_value) list" where
  "present b name v = (if b then [(name, v)] else [])"

definition process_attributes :: "process_stats \<Rightarrow> nat \<Rightarrow> nat \<Rightarrow> (bytes \<times> log_value) list" where
  "process_attributes p rank totalProcesses =
     [(''log.type'', LogString ''process.snapshot''), (''snapshot.rank'', LogInt (int rank)),
      (''snapshot.sort_by'', LogString ''cpu_percent''), (''snapshot.total_processes'', LogInt (int totalProcesses)),
      (''process.pid'', LogInt (ps_PID p)), (''process.executable.name'', LogString (ps_Command p))] @
     present (ps_PPID p > 0) ''process.parent_pid'' (LogInt (ps_PPID p)) @
     present (ps_Cmdline p \<noteq> []) ''process.command_line'' (LogString (ps_Cmdline p)) @
     present (ps_State p \<noteq> []) ''process.runtime.state'' (LogString (ps_State p)) @
     [(''process.cpu.utilization'', LogFloat (float64_div (ps_CPUPercent p) 100)),
      (''process.cpu.time'', LogInt (sint (ps_CPUTime p))),
      (''process.memory.virtual'', LogInt (sint (ps_MemoryVSZ p))),
      (''process.memory.rss'', LogInt (sint (ps_MemoryRSS p)))] @
     present (ps_MemoryPSS p > 0) ''process.memory.pss'' (LogInt (sint (ps_MemoryPSS p))) @
     present (ps_MemoryUSS p > 0) ''process.memory.uss'' (LogInt (sint (ps_MemoryUSS p))) @
     present (ps_Threads p > 0) ''process.thread.count'' (LogInt (ps_Threads p)) @
     present (ps_NumFds p > 0) ''process.open_file_descriptors'' (LogInt (ps_NumFds p)) @
     present (ps_VoluntaryCtxt p > 0) ''process.context_switches.voluntary'' (LogInt (sint (ps_VoluntaryCtxt p))) @
     present (ps_InvoluntaryCtxt p > 0) ''process.context_switches.involuntary'' (LogInt (sint (ps_InvoluntaryCtxt p))) @
     present (ps_Nice p \<noteq> 0) ''process.nice'' (LogInt (ps_Nice p)) @
     present (ps_Priority p \<noteq> 0) ''process.priority'' (LogInt (ps_Priority p)) @
     present (ps_StartTime p \<noteq> 0) ''process.start_time'' (LogInt (ps_StartTime p div second))"

definition emitProcessLog :: "process_stats \<Rightarrow> nat \<Rightarrow> nat \<Rightarrow> event_data metric_event \<Rightarrow> log_transformer \<Rightarrow>
    log_transformer" where
  "emitProcessLog p rank totalProcesses event lt = log_emit
     \<lparr>lr_Timestamp = metric_event.Timestamp event, lr_Severity = SeverityInfo, lr_SeverityText = [],
      lr_Body = ''Process snapshot: rank '' @ show_nat rank @ '' by CPU'',
      lr_attrs = log_standard event (lt_serviceVersion lt) @ process_attributes p rank totalProcesses\<rparr> lt"

definition emitProcessSnapshots :: "process_stats list \<Rightarrow> event_data metric_event \<Rightarrow> log_transformer \<Rightarrow> log_transformer" where
  "emitProcessSnapshots processes event lt =
     fold (\<lambda>(rank, p). emitProcessLog p (rank + 1) (length processes) event) (enumerate 0 processes) lt"

definition handleProcessSnapshot :: "event_data metric_event \<Rightarrow> log_transformer \<Rightarrow> bool \<times> log_transformer" where
  "handleProcessSnapshot event lt =
     (case Data event of
        ProcessData processes \<Rightarrow> (True, emitProcessSnapshots processes event lt)
      | _ \<Rightarrow> (False, lt))"

text \<open>The result says whether there was no error.\<close>

definition TransformAndEmit :: "event_data metric_event \<Rightarrow> log_transformer \<Rightarrow> bool \<times> log_transformer" where
  "TransformAndEmit event lt =
     (if MetricType event = MetricTypeKernel then handleKernelMessages event lt
      else if MetricType event = MetricTypeProcess then handleProcessSnapshot event lt
      else (True, lt))"

section \<open>Processing an event\<close>

text \<open>An exporter is the transformer and, if there is one, the log transformer.\<close>

record exporter =
  ex_transformer :: transformer
  ex_logs :: "log_transformer option"

definition processEvent :: "export_env \<Rightarrow> event_data metric_event \<Rightarrow> exporter \<Rightarrow>
    (transform_error option \<times> exporter) option" where
  "processEvent env event x =
     (case TransformAndRecord env event (ex_transformer x) of
        None \<Rightarrow> None
      | Some (Some err, t) \<Rightarrow> Some (Some err, x\<lparr>ex_transformer := t\<rparr>)
      | Some (None, t) \<Rightarrow>
          Some (None, x\<lparr>ex_transformer := t,
            ex_logs := (case ex_logs x of
                None \<Rightarrow> None
              | Some lt \<Rightarrow> Some (if MetricType event = MetricTypeKernel then snd (TransformAndEmit event lt) else lt))\<rparr>))"

text \<open>A batch: failed events are counted and the next event is processed.\<close>

fun export_batch :: "export_env \<Rightarrow> event_data metric_event list \<Rightarrow> exporter \<Rightarrow>
    (transform_error option list \<times> exporter) option" where
  "export_batch env [] x = Some ([], x)"
| "export_batch env (event # events) x =
     (case processEvent env event x of
        None \<Rightarrow> None
      | Some (err, x') \<Rightarrow>
          map_option (\<lambda>(errs, x''). (err # errs, x'')) (export_batch env events x'))"

section \<open>Lemmas\<close>

lemma emitKernelMessages_emitted:
  "emitted (fold (\<lambda>msg. emitKernelMessage msg event) msgs lt) =
     emitted lt @ map (\<lambda>msg. last (emitted (emitKernelMessage msg event lt))) msgs \<and>
   lt_serviceVersion (fold (\<lambda>msg. emitKernelMessage msg event) msgs lt) = lt_serviceVersion lt"
  by (induction msgs arbitrary: lt) (auto simp: emitKernelMessage_def log_emit_def)

end
