(* ===== verification/ExportProperties.thy ===== *)
theory ExportProperties
  imports OtelLogs
begin

text \<open>
  Properties of the export of measurements.
\<close>

section \<open>Labels of the metric types\<close>

text \<open>
  Labels that the code attaches to all but the last of several values of an instrument. They are
  overwritten before the values are recorded.
\<close>

definition lost_labels :: "attribute list" where
  "lost_labels =
     map (Pair ''direction'') [''receive'', ''read'', ''in''] @
     map (Pair ''type'') [''reclaimable'', ''limit'', ''total'', ''active'', ''in_errors'', ''out_resets'',
       ''overflows'', ''lost'', ''fast'', ''free'', ''file'', ''hit'', ''miss'', ''foreign'', ''local_node''] @
     map (Pair ''result'') [''sent'', ''received'']"

abbreviation kept_label :: "attribute \<Rightarrow> bool" where
  "kept_label kv \<equiv> kv \<notin> set lost_labels"

lemma kept_other_key: "k \<notin> {''direction'', ''type'', ''result''} \<Longrightarrow> kept_label (k, v)"
  by (auto simp: lost_labels_def)

lemma kept_map_rows: "k \<notin> {''direction'', ''type'', ''result''} \<Longrightarrow> list_all (kept_label \<circ> fst) (map_rows order k m conv)"
  using kept_other_key by (simp add: map_rows_def list_all_iff comp_def)

lemmas getOrCreate_defs =
  getOrCreateFloat64Gauge_def getOrCreateInt64Gauge_def getOrCreateInt64Counter_def

lemmas labels_rules =
  labels_if_created labels_record_one labels_record_labelled labels_record_each labels_action_if
  labels_option labels_skip labels_Nil labels_Cons labels_with_attr kept_map_rows

lemma labels_byte_gauge: "labels_ok P b s e k (byte_gauge env s row)"
  by (auto simp: byte_gauge_def getOrCreate_defs split: prod.split intro!: labels_if_created labels_record_one)

lemma labels_byte_gauges: "labels_ok P b s e k (byte_gauges env s rows)"
  unfolding byte_gauges_def
  by (rule labels_all) (simp add: list_all_iff labels_byte_gauge)

lemma labels_two_way:
  "P (''direction'', o_label) \<Longrightarrow> labels_ok P b s e (Suc k) (two_way_counter env s i_label o_label row)"
  by (auto simp: two_way_counter_def getOrCreate_defs split: prod.split intro!: labels_if_created labels_record_labelled)

lemma labels_typed:
  "rows \<noteq> [] \<Longrightarrow> P (label, fst (last rows)) \<Longrightarrow> labels_ok P b s e (Suc k) (typed_counter env s name d label rows)"
  by (auto simp: typed_counter_def getOrCreate_defs last_map case_prod_beta intro!: labels_if_created labels_record_labelled)

lemma labels_plain: "labels_ok P b s e k (plain_counter env s name d v)"
  by (auto simp: plain_counter_def getOrCreate_defs intro!: labels_if_created labels_record_one)

section \<open>Types\<close>

definition data_type :: "event_data \<Rightarrow> metric_type option" where
  "data_type data =
     (case data of LoadData _ \<Rightarrow> Some MetricTypeLoad | MemoryData _ \<Rightarrow> Some MetricTypeMemory
      | CPUData _ \<Rightarrow> Some MetricTypeCPU | ProcessData _ \<Rightarrow> Some MetricTypeProcess
      | DiskData _ \<Rightarrow> Some MetricTypeDisk | NetworkData _ \<Rightarrow> Some MetricTypeNetwork
      | TCPData _ \<Rightarrow> Some MetricTypeTCP | SystemData _ \<Rightarrow> Some MetricTypeSystem
      | KernelMessages _ \<Rightarrow> Some MetricTypeKernel | NUMAData _ \<Rightarrow> Some MetricTypeNUMAStats
      | _ \<Rightarrow> None)"

definition transform_ok :: "metric_type \<Rightarrow> attribute list \<Rightarrow> slice \<Rightarrow> event_data \<Rightarrow> transform \<Rightarrow> bool" where
  "transform_ok ty b s data f \<longleftrightarrow>
     (\<forall>t. cache_inv t \<and> holds (attr_arrays t) s b (Suc (Suc 0)) \<longrightarrow>
        (\<exists>err t' out. f t = Some (err, t') \<and> cache_inv t' \<and> serviceVersion t' = serviceVersion t \<and>
           samples t' = samples t @ out \<and> list_all (extends kept_label b) out \<and>
           (err = Some (InvalidData ty) \<longleftrightarrow> data_type data \<noteq> Some ty) \<and> (err \<noteq> None \<longrightarrow> out = [])))"

lemma transform_ok_return:
  assumes "labels_ok kept_label b s [] (Suc (Suc 0)) a" "data_type data = Some ty"
  shows "transform_ok ty b s data (return_nil a)"
proof -
  have "emits s b (Suc (Suc 0)) a (list_all (extends kept_label b))"
    using assms(1) by (simp add: labels_ok_def)
  then show ?thesis
    unfolding transform_ok_def
    by (auto elim!: emitsE simp: return_nil_def assms(2))
qed

lemma transform_ok_invalid: "data_type data \<noteq> Some ty \<Longrightarrow> transform_ok ty b s data (invalid_data ty)"
  by (simp add: transform_ok_def invalid_data_def)

lemmas metric_type_defs =
  MetricTypeLoad_def MetricTypeMemory_def MetricTypeCPU_def MetricTypeProcess_def MetricTypeDisk_def
  MetricTypeNetwork_def MetricTypeTCP_def MetricTypeKernel_def MetricTypeSystem_def MetricTypeNUMAStats_def

lemma ok_load: "transform_ok MetricTypeLoad b s data (transformLoadStats env data s)"
  by (cases data)
    (auto simp: transformLoadStats_def data_type_def metric_type_defs getOrCreate_defs kept_other_key
      simp del: run_actions.simps intro!: transform_ok_return transform_ok_invalid labels_rules)

lemma labels_memory_usage: "labels_ok kept_label b s e (Suc k) (memory_usage env stats s)"
  by (auto simp: memory_usage_def getOrCreate_defs intro!: labels_rules)

lemma labels_memory_others: "labels_ok kept_label b s e (Suc k) (run_actions (memory_others env stats s))"
  unfolding memory_others_def Let_def
  by (auto simp: getOrCreate_defs lost_labels_def simp del: run_actions.simps
      intro!: labels_rules labels_byte_gauges labels_byte_gauge)

lemma ok_memory: "transform_ok MetricTypeMemory b s data (transformMemoryStats env data s)"
  by (cases data)
    (auto simp: transformMemoryStats_def data_type_def metric_type_defs simp del: run_actions.simps
      intro!: transform_ok_return transform_ok_invalid labels_Cons labels_memory_usage labels_memory_others)

lemma ok_process: "transform_ok MetricTypeProcess b s data (transformProcessStats env data s)"
  by (cases data)
    (auto simp: transformProcessStats_def data_type_def metric_type_defs getOrCreate_defs lost_labels_def Let_def
      simp del: run_actions.simps intro!: transform_ok_return transform_ok_invalid labels_rules)

lemma ok_system: "transform_ok MetricTypeSystem b s data (transformSystemStats env data s)"
  by (cases data)
    (auto simp: transformSystemStats_def data_type_def metric_type_defs
      simp del: run_actions.simps intro!: transform_ok_return transform_ok_invalid labels_rules labels_plain)

lemma ok_kernel: "transform_ok MetricTypeKernel b s data (transformKernelMessages env data s)"
  by (cases data)
    (auto simp: transformKernelMessages_def data_type_def metric_type_defs getOrCreate_defs
      intro!: transform_ok_return transform_ok_invalid labels_rules)

lemma ok_tcp: "transform_ok MetricTypeTCP b s data (transformTCPStats env data s)"
  by (cases data)
    (auto simp: transformTCPStats_def tcp_counter_actions_def data_type_def metric_type_defs getOrCreate_defs
      lost_labels_def simp del: run_actions.simps
      intro!: transform_ok_return transform_ok_invalid labels_rules labels_plain labels_typed)

lemma labels_disk: "labels_ok kept_label b s e (Suc (Suc 0)) (transformDisk env disk s)"
  unfolding transformDisk_def
  by (rule labels_with_attr)
    (auto simp: lost_labels_def getOrCreate_defs Let_def simp del: run_actions.simps
      intro!: labels_rules labels_two_way)

lemma ok_disk: "transform_ok MetricTypeDisk b s data (transformDiskStats env data s)"
  by (cases data)
    (auto simp: transformDiskStats_def data_type_def metric_type_defs list_all_iff
      simp del: run_actions.simps intro!: transform_ok_return transform_ok_invalid labels_all labels_disk)

lemma labels_interface: "labels_ok kept_label b s e (Suc (Suc 0)) (transformInterface env iface s)"
  unfolding transformInterface_def
  by (rule labels_with_attr)
    (auto simp: lost_labels_def getOrCreate_defs Let_def simp del: run_actions.simps
      intro!: labels_rules labels_two_way)

lemma ok_network: "transform_ok MetricTypeNetwork b s data (transformNetworkStats env data s)"
  by (cases data)
    (auto simp: transformNetworkStats_def data_type_def metric_type_defs list_all_iff
      simp del: run_actions.simps intro!: transform_ok_return transform_ok_invalid labels_all labels_interface)

lemma labels_numa: "labels_ok kept_label b s e (Suc (Suc 0)) (transformNUMANode env node s)"
  unfolding transformNUMANode_def
  by (rule labels_with_attr)
    (auto simp: lost_labels_def getOrCreate_defs Let_def simp del: run_actions.simps
      intro!: labels_rules labels_typed)

lemma ok_numa: "transform_ok MetricTypeNUMAStats b s data (transformNUMAStats env data s)"
  by (cases data)
    (auto simp: transformNUMAStats_def data_type_def metric_type_defs list_all_iff
      simp del: run_actions.simps
      intro!: transform_ok_return transform_ok_invalid labels_action_if labels_all labels_numa)

lemma labels_cpu: "labels_ok kept_label b s e (Suc (Suc 0)) (recordCPUUtilization env i gauge cpu s)"
  unfolding recordCPUUtilization_def
  by (rule labels_with_attr) (auto simp: kept_other_key Let_def intro!: labels_rules)

lemma ok_cpu: "transform_ok MetricTypeCPU b s data (transformCPUStats env data s)"
proof (cases "\<exists>cpus. data = CPUData cpus")
  case False
  then have "transformCPUStats env data s = invalid_data MetricTypeCPU" "data_type data \<noteq> Some MetricTypeCPU"
    by (auto simp: transformCPUStats_def [abs_def] data_type_def metric_type_defs split: event_data.split)
  then show ?thesis using transform_ok_invalid by simp
next
  case True
  then obtain cpus where data: "data = CPUData cpus" ..
  show ?thesis
    unfolding transform_ok_def
  proof (intro allI impI)
    fix t
    assume t: "cache_inv t \<and> holds (attr_arrays t) s b (Suc (Suc 0))"
    obtain r t1 where r: "getOrCreateFloat64Gauge env ''system.cpu.utilization'' ''CPU utilization by state'' ''1'' t = Some (r, t1)"
      "cache_inv t1" "serviceVersion t1 = serviceVersion t" "attr_arrays t1 = attr_arrays t" "measurements t1 = measurements t"
      using getOrCreate_spec [of t Float64Gauge env] t unfolding getOrCreateFloat64Gauge_def by blast
    show "\<exists>err t' out. transformCPUStats env data s t = Some (err, t') \<and> cache_inv t' \<and>
        serviceVersion t' = serviceVersion t \<and> samples t' = samples t @ out \<and>
        list_all (extends kept_label b) out \<and>
        (err = Some (InvalidData MetricTypeCPU) \<longleftrightarrow> data_type data \<noteq> Some MetricTypeCPU) \<and> (err \<noteq> None \<longrightarrow> out = [])"
    proof (cases r)
      case (Inl err)
      with r obtain q where "err = MeterFailed q"
        by (auto simp: getOrCreateFloat64Gauge_def getOrCreate_def Let_def split: option.splits if_splits)
      with r Inl show ?thesis by (simp add: transformCPUStats_def data data_type_def samples_def)
    next
      case (Inr gauge)
      let ?a = "run_actions (map (\<lambda>(i, cpu). recordCPUUtilization env i gauge cpu s) (enumerate 0 cpus))"
      have "labels_ok kept_label b s [] (Suc (Suc 0)) ?a"
        by (rule labels_all) (auto simp: list_all_iff intro: labels_cpu)
      then have "transform_ok MetricTypeCPU b s data (return_nil ?a)"
        by (rule transform_ok_return) (simp add: data data_type_def)
      moreover have "cache_inv t1 \<and> holds (attr_arrays t1) s b (Suc (Suc 0))" using r t by simp
      ultimately obtain err t' out where "return_nil ?a t1 = Some (err, t')" "cache_inv t'"
        "serviceVersion t' = serviceVersion t1" "samples t' = samples t1 @ out" "list_all (extends kept_label b) out"
        "err = Some (InvalidData MetricTypeCPU) \<longleftrightarrow> data_type data \<noteq> Some MetricTypeCPU" "err \<noteq> None \<longrightarrow> out = []"
        unfolding transform_ok_def by blast
      with r Inr show ?thesis by (auto simp: transformCPUStats_def data samples_def)
    qed
  qed
qed

lemmas ok_transforms =
  ok_load ok_memory ok_cpu ok_process ok_disk ok_network ok_tcp ok_system ok_kernel ok_numa

lemma transform_of_ok:
  "transform_of ty = Some f \<Longrightarrow> transform_ok ty b s data (f env data s)"
  by (auto simp: transform_of_def ok_transforms split: if_splits)



lemma transform_recorded:
  assumes "cache_inv t"
  shows "\<exists>err t' out. TransformAndRecord env event t = Some (err, t') \<and> cache_inv t' \<and>
    samples t' = samples t @ out \<and>
    list_all (extends kept_label (standard_attributes event (serviceVersion t))) out \<and>
    (err = Some (InvalidData (MetricType event)) \<longleftrightarrow>
       transform_of (MetricType event) \<noteq> None \<and> data_type (Data event) \<noteq> Some (MetricType event)) \<and>
    (err \<noteq> None \<longrightarrow> out = [])"
proof (cases "transform_of (MetricType event)")
  case None
  then show ?thesis using assms by (simp add: TransformAndRecord_def)
next
  case (Some f)
  obtain s t1 where b: "buildAttributes env event t = (s, t1)" by fastforce
  note spec = buildAttributes_spec [OF assms b]
  then have "holds (attr_arrays t1) s (standard_attributes event (serviceVersion t)) (Suc (Suc 0))"
    using holds_less by fastforce
  then obtain err t' out where "f env (Data event) s t1 = Some (err, t')" "cache_inv t'"
    "samples t' = samples t1 @ out"
    "list_all (extends kept_label (standard_attributes event (serviceVersion t))) out"
    "err = Some (InvalidData (MetricType event)) \<longleftrightarrow> data_type (Data event) \<noteq> Some (MetricType event)"
    "err \<noteq> None \<longrightarrow> out = []"
    using transform_of_ok [OF Some] spec unfolding transform_ok_def by blast
  with Some b spec show ?thesis by (auto simp: TransformAndRecord_def)
qed

section \<open>Exact samples\<close>

lemma logs_return:
  assumes "logs env s b k a out" "\<forall>r. ee_meter env r" "cache_inv t" "holds (attr_arrays t) s b j" "k \<le> j"
  shows "\<exists>t'. return_nil a t = Some (None, t') \<and> samples t' = samples t @ out \<and> cache_inv t'"
proof -
  have "emits s b k a (\<lambda>out'. (\<forall>r. ee_meter env r) \<longrightarrow> out' = out)"
    using assms(1) by (simp add: logs_def)
  then show ?thesis using assms(2-) holds_less
    by (auto elim!: emitsE simp: return_nil_def)
qed

lemma TransformAndRecord_build:
  assumes "transform_of (MetricType event) = Some f" "cache_inv t"
  obtains s t1 where "TransformAndRecord env event t = f env (Data event) s t1"
    "holds (attr_arrays t1) s (standard_attributes event (serviceVersion t)) 6" "cache_inv t1"
    "samples t1 = samples t"
  using assms buildAttributes_spec [OF assms(2)] by (cases "buildAttributes env event t") (auto simp: TransformAndRecord_def)

definition two_way_samples :: "attribute list \<Rightarrow> bytes \<Rightarrow> bytes \<times> uint64 \<times> uint64 \<Rightarrow> sample list" where
  "two_way_samples b last_label row =
     (case row of (name, inward, outward) \<Rightarrow>
        [(Int64Counter, name, int64 inward, b @ [(''direction'', last_label)]),
         (Int64Counter, name, int64 outward, b @ [(''direction'', last_label)])])"

lemma logs_two_way:
  "logs env s b (Suc k) (two_way_counter env s i_label o_label (name, d, u, v, w))
     (two_way_samples b o_label (name, v, w))"
  unfolding two_way_counter_def getOrCreateInt64Counter_def prod.case
proof (rule logs_if_created)
  fix inst :: instrument
  assume inst: "in_kind inst = Int64Counter" "in_name inst = name"
  show "logs env s b (Suc k)
      (record_labelled env s [((''direction'', i_label), int64 v), ((''direction'', o_label), int64 w)] inst)
      (two_way_samples b o_label (name, v, w))"
    using logs_record_labelled [OF inst,
        of "[((''direction'', i_label), int64 v), ((''direction'', o_label), int64 w)]" env s b k]
    by (simp add: two_way_samples_def)
qed

lemma logs_two_ways:
  "logs env s b (Suc k) (run_actions (map (two_way_counter env s i_label o_label) rows))
     (concat (map (\<lambda>(name, d, u, v, w). two_way_samples b o_label (name, v, w)) rows))"
  by (rule logs_map) (auto simp: logs_two_way split: prod.split)

definition interface_samples :: "attribute list \<Rightarrow> network_stats \<Rightarrow> sample list" where
  "interface_samples b iface =
     (let device = b @ [(''device'', Interface iface)] in
      [(Int64Gauge, ''system.network.interface.speed'', int64 (Speed iface), device),
       (Int64Gauge, ''system.network.interface.up'', IntValue (if OperState iface = ''up'' then 1 else 0), device),
       (Int64Gauge, ''system.network.interface.carrier'', IntValue (if LinkDetected iface then 1 else 0), device)] @
      (case net_delta iface of
         None \<Rightarrow> []
       | Some delta \<Rightarrow>
           concat (map (\<lambda>(name, rx, tx). two_way_samples device ''transmit'' (name, cd_deltas delta rx, cd_deltas delta tx))
             [(''system.network.io'', ''RxBytes'', ''TxBytes''), (''system.network.packets'', ''RxPackets'', ''TxPackets''),
              (''system.network.errors'', ''RxErrors'', ''TxErrors''), (''system.network.dropped'', ''RxDropped'', ''TxDropped'')])))"

lemma logs_gauge:
  "logs env s b k (if_created (getOrCreateInt64Gauge env name d u) (record_one s v)) [(Int64Gauge, name, v, b)]"
  unfolding getOrCreateInt64Gauge_def by (rule logs_if_created) (rule logs_record_one)

lemma logs_interface: "logs env s b (Suc (Suc 0)) (transformInterface env iface s) (interface_samples b iface)"
  unfolding transformInterface_def Let_def
proof (rule logs_with_attr)
  fix s'
  let ?device = "b @ [(''device'', Interface iface)]"
  let ?rows = "\<lambda>d. [(''system.network.io'', ''Network I/O bytes'', ''By'', d ''RxBytes'', d ''TxBytes''),
      (''system.network.packets'', ''Network packets'', ''1'', d ''RxPackets'', d ''TxPackets''),
      (''system.network.errors'', ''Network transmission errors'', ''1'', d ''RxErrors'', d ''TxErrors''),
      (''system.network.dropped'', ''Network packets dropped'', ''1'', d ''RxDropped'', d ''TxDropped'')]"
  let ?gauge = "\<lambda>name d u v. if_created (getOrCreateInt64Gauge env name d u) (record_one s' v)"
  have "logs env s' ?device (Suc 0) (run_actions
      [?gauge ''system.network.interface.speed'' ''Network interface link speed'' ''Mbit/s'' (int64 (Speed iface)),
       ?gauge ''system.network.interface.up'' ''Network interface operational state'' ''1''
         (IntValue (if OperState iface = ''up'' then 1 else 0)),
       ?gauge ''system.network.interface.carrier'' ''Network interface carrier detection'' ''1''
         (IntValue (if LinkDetected iface then 1 else 0)),
       case net_delta iface of None \<Rightarrow> Some | Some delta \<Rightarrow>
         run_actions (map (two_way_counter env s' ''receive'' ''transmit'') (?rows (cd_deltas delta)))])
      ([(Int64Gauge, ''system.network.interface.speed'', int64 (Speed iface), ?device)] @
       [(Int64Gauge, ''system.network.interface.up'', IntValue (if OperState iface = ''up'' then 1 else 0), ?device)] @
       [(Int64Gauge, ''system.network.interface.carrier'', IntValue (if LinkDetected iface then 1 else 0), ?device)] @
       (case net_delta iface of None \<Rightarrow> [] | Some delta \<Rightarrow>
          concat (map (\<lambda>(name, d, u, v, w). two_way_samples ?device ''transmit'' (name, v, w)) (?rows (cd_deltas delta)))) @
       [])"
    by (intro logs_Cons logs_gauge logs_option logs_two_ways logs_Nil)
  then show "logs env s' ?device (Suc 0) (run_actions
      [?gauge ''system.network.interface.speed'' ''Network interface link speed'' ''Mbit/s'' (int64 (Speed iface)),
       ?gauge ''system.network.interface.up'' ''Network interface operational state'' ''1''
         (IntValue (if OperState iface = ''up'' then 1 else 0)),
       ?gauge ''system.network.interface.carrier'' ''Network interface carrier detection'' ''1''
         (IntValue (if LinkDetected iface then 1 else 0)),
       case net_delta iface of None \<Rightarrow> Some | Some delta \<Rightarrow>
         run_actions (map (two_way_counter env s' ''receive'' ''transmit'') (?rows (cd_deltas delta)))])
      (interface_samples b iface)"
    by (simp add: interface_samples_def Let_def del: run_actions.simps split: option.splits cong: option.case_cong)
qed

lemma network_exact:
  assumes "cache_inv t" "\<forall>r. ee_meter env r"
    and "MetricType event = MetricTypeNetwork" "Data event = NetworkData interfaces"
  shows "\<exists>t'. TransformAndRecord env event t = Some (None, t') \<and>
    samples t' = samples t @ concat (map (interface_samples (standard_attributes event (serviceVersion t))) interfaces)"
proof -
  have "transform_of (MetricType event) = Some transformNetworkStats"
    by (simp add: assms(3) transform_of_def metric_type_defs)
  then obtain s t1 where t1: "TransformAndRecord env event t = transformNetworkStats env (Data event) s t1"
    "holds (attr_arrays t1) s (standard_attributes event (serviceVersion t)) 6" "cache_inv t1" "samples t1 = samples t"
    using assms(1) by (rule TransformAndRecord_build)
  have "logs env s (standard_attributes event (serviceVersion t)) (Suc (Suc 0))
      (run_actions (map (\<lambda>iface. transformInterface env iface s) interfaces))
      (concat (map (interface_samples (standard_attributes event (serviceVersion t))) interfaces))"
    by (rule logs_map) (rule logs_interface)
  from logs_return [OF this assms(2) t1(3,2)] t1(1,4) show ?thesis
    by (auto simp: transformNetworkStats_def assms(4))
qed

section \<open>Memory\<close>

lemma vmstat_line_other: "f \<notin> {''SwapIn'', ''SwapOut''} \<Longrightarrow> vmstat_line line c f = c f"
  by (auto simp: vmstat_line_def Let_def split: option.splits if_splits)

lemma collectSwapActivity_other:
  assumes "f \<notin> {''SwapIn'', ''SwapOut''}"
  shows "collectSwapActivity fs path c f = c f"
proof -
  have "fold vmstat_line lines c f = c f" for lines
    by (induction lines arbitrary: c) (use vmstat_line_other [OF assms] in auto)
  then show ?thesis by (simp add: collectSwapActivity_def split: option.splits)
qed

lemma convertToBytes_free: "convertToBytes c ''MemFree'' = c ''MemFree'' * 1024"
  by (simp add: convertToBytes_def Let_def kilobyteFields_def hugePagesCountFields_def)

lemma meminfo_free:
  assumes "fst ` set entries \<subseteq> fst ` set fieldMap" "distinct (map fst entries)" "(''MemFree'', kb) \<in> set entries"
  shows "fold meminfo_line (map show_meminfo entries) zero_counters ''MemFree'' = kb"
proof -
  have field: "struct_field ''MemFree'' = ''MemFree''" "''MemFree'' \<in> fst ` set fieldMap"
    by (simp_all add: struct_field_def fieldMap_def kilobyteFields_def)
  have "find (\<lambda>x. struct_field (fst x) = ''MemFree'') entries \<noteq> None"
    using assms(3) field(1) by (auto simp: find_None_iff)
  then obtain x where x: "find (\<lambda>x. struct_field (fst x) = ''MemFree'') entries = Some x" by auto
  then have "x \<in> set entries" "struct_field (fst x) = struct_field ''MemFree''"
    using field(1) by (auto simp: find_Some_iff)
  then have "x \<in> set entries" "fst x = ''MemFree''"
    using struct_field_inj [OF _ field(2)] assms(1) by blast+
  then have "snd x = kb" using assms(2,3) by (metis eq_key_imp_eq_value prod.collapse)
  then show ?thesis using meminfo_lines_show [OF assms(1,2)] x by simp
qed

text \<open>The first action's log comes first.\<close>

lemma emits_first:
  assumes "logs env s b k a out1" "emits s b k (run_actions as) Q"
  shows "emits s b k (run_actions (a # as)) (\<lambda>out. (\<forall>r. ee_meter env r) \<longrightarrow> (\<exists>out2. out = out1 @ out2))"
  using assms(1) unfolding logs_def by (rule emits_Cons [OF _ assms(2)]) auto

text \<open>
  The gauge of memory usage by state: each state once, in the order the map is visited.
\<close>

lemma memory_usage_export:
  assumes "cache_inv t" "\<forall>r. ee_meter env r"
    and "MetricType event = MetricTypeMemory" "Data event = MemoryData stats"
  shows "\<exists>t' more. TransformAndRecord env event t = Some (None, t') \<and>
    samples t' = samples t @
      map (\<lambda>state. (Int64Gauge, ''system.memory.usage'', int64 (the (memStates stats state)),
        standard_attributes event (serviceVersion t) @ [(''state'', state)]))
        (ee_order env 0 (dom (memStates stats))) @ more"
proof -
  let ?b = "standard_attributes event (serviceVersion t)"
  let ?out = "map (\<lambda>state. (Int64Gauge, ''system.memory.usage'', int64 (the (memStates stats state)),
      ?b @ [(''state'', state)])) (ee_order env 0 (dom (memStates stats)))"
  have "transform_of (MetricType event) = Some transformMemoryStats"
    by (simp add: assms(3) transform_of_def metric_type_defs)
  then obtain s t1 where t1: "TransformAndRecord env event t = transformMemoryStats env (Data event) s t1"
    "holds (attr_arrays t1) s ?b 6" "cache_inv t1" "samples t1 = samples t"
    using assms(1) by (rule TransformAndRecord_build)
  have "logs env s ?b (Suc 0) (memory_usage env stats s) ?out"
    unfolding memory_usage_def getOrCreateInt64Gauge_def
  proof (rule logs_if_created)
    fix inst :: instrument
    assume inst: "in_kind inst = Int64Gauge" "in_name inst = ''system.memory.usage''"
    show "logs env s ?b (Suc 0) (record_each env s (map_rows (ee_order env 0 (dom (memStates stats))) ''state''
        (memStates stats) int64) inst) ?out"
      using logs_record_each [OF inst, of env s ?b 0 "map_rows (ee_order env 0 (dom (memStates stats))) ''state''
        (memStates stats) int64"] by (simp add: map_rows_def comp_def)
  qed
  moreover have "emits s ?b (Suc 0) (run_actions (memory_others env stats s)) (list_all (extends kept_label ?b))"
    using labels_memory_others [of ?b s "[]" 0 env stats] by (simp add: labels_ok_def)
  ultimately have "emits s ?b (Suc 0) (run_actions (memory_usage env stats s # memory_others env stats s))
      (\<lambda>out. (\<forall>r. ee_meter env r) \<longrightarrow> (\<exists>more. out = ?out @ more))"
    by (rule emits_first)
  moreover have "holds (attr_arrays t1) s ?b (Suc 0)" using t1(2) holds_less by fastforce
  ultimately show ?thesis
    using t1(1,3,4) assms(2)
    by (elim emitsE [OF _ t1(3)]) (auto simp: transformMemoryStats_def assms(4) return_nil_def)
qed

section \<open>Events of the kernel\<close>

text \<open>No event makes the log transformer emit a record.\<close>

lemma processEvent_logs:
  assumes "cache_inv (ex_transformer x)"
  shows "\<exists>err x'. processEvent env event x = Some (err, x') \<and> cache_inv (ex_transformer x') \<and> ex_logs x' = ex_logs x \<and>
    (MetricType event = MetricTypeKernel \<and> data_type (Data event) \<noteq> Some MetricTypeKernel \<longrightarrow>
       err = Some (InvalidData MetricTypeKernel) \<and> samples (ex_transformer x') = samples (ex_transformer x))"
proof -
  obtain err t' out where rec: "TransformAndRecord env event (ex_transformer x) = Some (err, t')" "cache_inv t'"
    "samples t' = samples (ex_transformer x) @ out"
    "err = Some (InvalidData (MetricType event)) \<longleftrightarrow>
       transform_of (MetricType event) \<noteq> None \<and> data_type (Data event) \<noteq> Some (MetricType event)"
    "err \<noteq> None \<longrightarrow> out = []"
    using transform_recorded [OF assms, of env event] by blast
  have kernel: "transform_of MetricTypeKernel \<noteq> None" by (simp add: transform_of_def metric_type_defs)
  show ?thesis
  proof (cases err)
    case (Some e)
    with rec kernel show ?thesis by (auto simp: processEvent_def)
  next
    case None
    have "snd (TransformAndEmit event lt) = lt" if "MetricType event = MetricTypeKernel" for lt
    proof -
      have "data_type (Data event) = Some MetricTypeKernel" using rec(4) None that kernel by auto
      then show ?thesis using that
        by (auto simp: TransformAndEmit_def handleKernelMessages_def data_type_def metric_type_defs split: event_data.splits)
    qed
    with rec None kernel show ?thesis by (auto simp: processEvent_def split: option.splits)
  qed
qed

section \<open>Counters of the system\<close>

lemma logs_plain:
  "logs env s b k (plain_counter env s name d v) [(Int64Counter, name, int64 v, b)]"
  unfolding plain_counter_def getOrCreateInt64Counter_def by (rule logs_if_created) (rule logs_record_one)

definition counter_total :: "bytes \<Rightarrow> sample list \<Rightarrow> int" where
  "counter_total name xs =
     sum_list (map (\<lambda>(kind, n, v, attrs). case v of IntValue i \<Rightarrow> if n = name then i else 0 | FloatValue _ \<Rightarrow> 0) xs)"

lemma system_exact:
  assumes "cache_inv t" "\<forall>r. ee_meter env r"
    and "MetricType event = MetricTypeSystem" "Data event = SystemData stats"
  shows "\<exists>t'. TransformAndRecord env event t = Some (None, t') \<and> cache_inv t' \<and>
    samples t' = samples t @
      [(Int64Counter, ''system.interrupts'', int64 (sys_fields stats ''Interrupts''),
         standard_attributes event (serviceVersion t)),
       (Int64Counter, ''system.context_switches'', int64 (sys_fields stats ''ContextSwitches''),
         standard_attributes event (serviceVersion t))]"
proof -
  let ?b = "standard_attributes event (serviceVersion t)"
  have "transform_of (MetricType event) = Some transformSystemStats"
    by (simp add: assms(3) transform_of_def metric_type_defs)
  then obtain s t1 where t1: "TransformAndRecord env event t = transformSystemStats env (Data event) s t1"
    "holds (attr_arrays t1) s ?b 6" "cache_inv t1" "samples t1 = samples t"
    using assms(1) by (rule TransformAndRecord_build)
  let ?acts = "[plain_counter env s ''system.interrupts'' ''System interrupts'' (sys_fields stats ''Interrupts''),
      plain_counter env s ''system.context_switches'' ''System context switches'' (sys_fields stats ''ContextSwitches'')]"
  have "logs env s ?b 0 (run_actions ?acts)
      ([(Int64Counter, ''system.interrupts'', int64 (sys_fields stats ''Interrupts''), ?b)] @
       [(Int64Counter, ''system.context_switches'', int64 (sys_fields stats ''ContextSwitches''), ?b)] @ [])"
    by (intro logs_Cons logs_plain logs_Nil)
  from logs_return [OF this assms(2) t1(3,2)] t1(1,4) show ?thesis
    by (auto simp: transformSystemStats_def assms(4) simp del: run_actions.simps)
qed

text \<open>
  The collected numbers count since boot and are added to the counter with every event, so the
  exported counter is the sum of the totals and not the last total.
\<close>

lemma system_counters_add_totals:
  assumes "cache_inv t" "\<forall>r. ee_meter env r" "ex_transformer x = t"
    and "list_all (\<lambda>(event, stats). MetricType event = MetricTypeSystem \<and> Data event = SystemData stats) evs"
  shows "\<exists>errs x'. export_batch env (map fst evs) x = Some (errs, x') \<and>
    counter_total ''system.interrupts'' (samples (ex_transformer x')) =
      counter_total ''system.interrupts'' (samples t) +
      sum_list (map (\<lambda>(event, stats). sint (sys_fields stats ''Interrupts'')) evs)"
  using assms
proof (induction evs arbitrary: t x)
  case (Cons ev evs)
  obtain event stats where ev: "ev = (event, stats)" by (cases ev)
  then obtain t1 where t1: "TransformAndRecord env event t = Some (None, t1)" "cache_inv t1"
    "counter_total ''system.interrupts'' (samples t1) =
      counter_total ''system.interrupts'' (samples t) + sint (sys_fields stats ''Interrupts'')"
    using system_exact [OF Cons.prems(1,2), of event stats] Cons.prems(4)
    by (auto simp: counter_total_def int64_def)
  then obtain x1 where "processEvent env event x = Some (None, x1)" "ex_transformer x1 = t1"
    using Cons.prems(3) by (auto simp: processEvent_def)
  then show ?case
    using Cons.IH [OF t1(2) Cons.prems(2), of x1] Cons.prems(4) ev t1(3) by auto
qed simp

section \<open>Examples\<close>

definition demo_export :: export_env where
  "demo_export = \<lparr>ee_meter = (\<lambda>_. True), ee_grow = (\<lambda>n. 2 * n), ee_order = (\<lambda>_. sorted_list_of_set)\<rparr>"

definition demo_interface :: network_stats where
  "demo_interface = \<lparr>Interface = ''eth0'', net_counters = zero_counters, Speed = 1000, Duplex = ''full'',
     OperState = ''up'', LinkDetected = True,
     net_delta = Some \<lparr>cd_metadata = \<lparr>CollectionInterval = second, LastCollectionTime = 0, IsFirstCollection = False,
         CounterResetDetected = False\<rparr>,
       cd_deltas = (\<lambda>_. 0)(''RxBytes'' := 700, ''TxBytes'' := 50), cd_rates = (\<lambda>_. 0)\<rparr>\<rparr>"

definition demo_net_event :: "event_data metric_event" where
  "demo_net_event = \<lparr>metric_event.Timestamp = 0, Source = [], NodeName = ''node'', ClusterName = [],
     MetricType = MetricTypeNetwork, Data = NetworkData [demo_interface]\<rparr>"

definition demo_message :: kernel_message where
  "demo_message = \<lparr>km_Timestamp = 0, Facility = 0, Severity = 3, SequenceNum = 1, Message = ''oom'',
     Subsystem = [], km_Device = []\<rparr>"

definition demo_memory :: memory_collector where
  "demo_memory = \<lparr>mem_base = NewBaseDeltaCollector DefaultCollectionConfig, meminfoPath = ''/proc/meminfo'', vmstatPath = ''/proc/vmstat''\<rparr>"

lemma cache_inv_new: "cache_inv (NewTransformer version)"
  by (simp add: cache_inv_def NewTransformer_def)

lemma demo_meter: "\<forall>r. ee_meter demo_export r"
  by (simp add: demo_export_def)

section \<open>Properties\<close>





text \<open>
  The samples of a network event, when the meter creates the instruments: per interface three
  gauges and, with deltas, two values of each of the four counters. The values received come with
  the label of the values sent.
\<close>

theorem network_export:
  assumes "cache_inv t" "\<forall>r. ee_meter env r"
    and "MetricType event = MetricTypeNetwork" "Data event = NetworkData interfaces"
  shows "\<exists>t'. TransformAndRecord env event t = Some (None, t') \<and>
    samples t' = samples t @ concat (map (interface_samples (standard_attributes event (serviceVersion t))) interfaces)"
  using assms by (rule network_exact)

theorem network_export_witness:
  "\<exists>t'. TransformAndRecord demo_export demo_net_event (NewTransformer ''v1'') = Some (None, t') \<and>
    (Int64Counter, ''system.network.io'', IntValue 700,
      [(''host.name'', ''node''), (''service.version'', ''v1''), (''device'', ''eth0''), (''direction'', ''transmit'')])
      \<in> set (samples t')"
  using network_export [OF cache_inv_new demo_meter, of demo_net_event "[demo_interface]" "''v1''"]
  by (force simp: demo_net_event_def demo_interface_def interface_samples_def two_way_samples_def Let_def
      standard_attributes_def NewTransformer_def int64_def)

text \<open>
  C27. The kernel collector sends each message as a single pointer; the transformer accepts only
  slices of messages. Every such event fails, and whatever events a batch has, the log transformer
  emits no record: a kernel event either fails before the logs are reached or has a type that the
  log transformer refuses.
\<close>

theorem kernel_messages_never_exported:
  assumes "cache_inv (ex_transformer x)"
  shows "\<exists>errs x'. export_batch env events x = Some (errs, x') \<and> length errs = length events \<and>
    ex_logs x' = ex_logs x \<and>
    (\<forall>i < length events. \<forall>msg. MetricType (events ! i) = MetricTypeKernel \<and>
       Data (events ! i) = KernelMessagePointer msg \<longrightarrow> errs ! i = Some (InvalidData MetricTypeKernel))"
  using assms
proof (induction events arbitrary: x)
  case (Cons event events)
  obtain err x1 where 1: "processEvent env event x = Some (err, x1)" "cache_inv (ex_transformer x1)"
    "ex_logs x1 = ex_logs x"
    "MetricType event = MetricTypeKernel \<and> data_type (Data event) \<noteq> Some MetricTypeKernel \<longrightarrow>
       err = Some (InvalidData MetricTypeKernel)"
    using processEvent_logs [OF Cons.prems, of env event] by blast
  obtain errs x2 where 2: "export_batch env events x1 = Some (errs, x2)" "length errs = length events"
    "ex_logs x2 = ex_logs x1"
    "\<forall>i < length events. \<forall>msg. MetricType (events ! i) = MetricTypeKernel \<and>
       Data (events ! i) = KernelMessagePointer msg \<longrightarrow> errs ! i = Some (InvalidData MetricTypeKernel)"
    using Cons.IH [OF 1(2)] by blast
  have "err = Some (InvalidData MetricTypeKernel)"
    if "MetricType event = MetricTypeKernel" "Data event = KernelMessagePointer msg" for msg
    using 1(4) that by (simp add: data_type_def)
  then show ?case using 1 2 by (auto simp: nth_Cons split: nat.splits)
qed simp

theorem kernel_messages_never_exported_witness:
  "\<exists>errs x'. export_batch demo_export
      [demo_net_event, demo_net_event\<lparr>MetricType := MetricTypeKernel, Data := KernelMessagePointer demo_message\<rparr>]
      \<lparr>ex_transformer = NewTransformer ''v1'', ex_logs = Some \<lparr>lt_serviceVersion = ''v1'', emitted = []\<rparr>\<rparr> = Some (errs, x') \<and>
    ex_logs x' = Some \<lparr>lt_serviceVersion = ''v1'', emitted = []\<rparr> \<and> errs ! 1 = Some (InvalidData MetricTypeKernel)"
  using kernel_messages_never_exported [of "\<lparr>ex_transformer = NewTransformer ''v1'',
      ex_logs = Some \<lparr>lt_serviceVersion = ''v1'', emitted = []\<rparr>\<rparr>" demo_export
      "[demo_net_event, demo_net_event\<lparr>MetricType := MetricTypeKernel, Data := KernelMessagePointer demo_message\<rparr>]"]
  by (force simp: cache_inv_new)

text \<open>
  The memory collector reports bytes, and the transformer multiplies by 1024 again: a file that
  says that \<open>kb\<close> kilobytes are free is exported as \<open>kb * 1024 * 1024\<close> bytes.
\<close>

theorem memory_scaled_twice:
  assumes "fs (meminfoPath c) = file_of_lines (map show_meminfo entries)"
    and "list_all line_ok (map show_meminfo entries)"
    and "fst ` set entries \<subseteq> fst ` set fieldMap" "distinct (map fst entries)"
    and "(''MemFree'', kb) \<in> set entries"
    and "collectMemoryStats fs c = Inr stats"
    and "cache_inv t" "\<forall>r. ee_meter env r" "\<forall>n S. finite S \<longrightarrow> set (ee_order env n S) = S"
    and "MetricType event = MetricTypeMemory" "Data event = MemoryData stats"
  shows "\<exists>t'. TransformAndRecord env event t = Some (None, t') \<and>
    (Int64Gauge, ''system.memory.usage'', int64 (kb * 1024 * 1024),
      standard_attributes event (serviceVersion t) @ [(''state'', ''free'')]) \<in> set (samples t')"
proof -
  let ?raw = "fold meminfo_line (map show_meminfo entries) zero_counters"
  have "mem_fields stats = convertToBytes (collectSwapActivity fs (vmstatPath c) ?raw)"
    using scan_file_of_lines [OF assms(2)] assms(1,6) by (auto simp: collectMemoryStats_def)
  then have free: "mem_fields stats ''MemFree'' = kb * 1024"
    using meminfo_free [OF assms(3,4,5)] by (simp add: convertToBytes_free collectSwapActivity_other)
  from memory_usage_export [OF assms(7,8,10,11)] obtain t' more where
    t': "TransformAndRecord env event t = Some (None, t')"
    "samples t' = samples t @ map (\<lambda>state. (Int64Gauge, ''system.memory.usage'', int64 (the (memStates stats state)),
        standard_attributes event (serviceVersion t) @ [(''state'', state)]))
        (ee_order env 0 (dom (memStates stats))) @ more" by blast
  have "''free'' \<in> dom (memStates stats)" "finite (dom (memStates stats))"
    "the (memStates stats ''free'') = kb * 1024 * 1024"
    by (simp_all add: memStates_def Let_def free dom_map_of_conv_image_fst)
  with t' assms(9) show ?thesis by (intro exI [of _ t']) (force simp: image_iff)
qed

theorem memory_scaled_twice_witness:
  "\<exists>stats t'. collectMemoryStats (\<lambda>_. file_of_lines [''MemFree: 2 kB'']) demo_memory = Inr stats \<and>
    TransformAndRecord demo_export (demo_net_event\<lparr>MetricType := MetricTypeMemory, Data := MemoryData stats\<rparr>)
      (NewTransformer ''v1'') = Some (None, t') \<and>
    (Int64Gauge, ''system.memory.usage'', IntValue 2097152,
      [(''host.name'', ''node''), (''service.version'', ''v1''), (''state'', ''free'')]) \<in> set (samples t')"
proof -
  let ?fs = "\<lambda>_. file_of_lines [''MemFree: 2 kB'']"
  have lines: "map show_meminfo [(''MemFree'', 2)] = [''MemFree: 2 kB'']"
    by code_simp
  have ok: "list_all line_ok (map show_meminfo [(''MemFree'', 2)])"
    unfolding lines by (simp add: line_ok_def line_limit_def)
  obtain stats where stats: "collectMemoryStats ?fs demo_memory = Inr stats"
    using scan_file_of_lines [OF ok] unfolding lines by (auto simp: collectMemoryStats_def)
  have "''MemFree'' \<in> fst ` set fieldMap" by (simp add: fieldMap_def kilobyteFields_def)
  then obtain t' where "TransformAndRecord demo_export (demo_net_event\<lparr>MetricType := MetricTypeMemory, Data := MemoryData stats\<rparr>)
      (NewTransformer ''v1'') = Some (None, t')"
    "(Int64Gauge, ''system.memory.usage'', int64 (2 * 1024 * 1024),
      standard_attributes (demo_net_event\<lparr>MetricType := MetricTypeMemory, Data := MemoryData stats\<rparr>)
        (serviceVersion (NewTransformer ''v1'')) @ [(''state'', ''free'')]) \<in> set (samples t')"
    using memory_scaled_twice [OF _ ok _ _ _ stats cache_inv_new demo_meter, of 2
        "demo_net_event\<lparr>MetricType := MetricTypeMemory, Data := MemoryData stats\<rparr>" "''v1''"] lines
    by (auto simp: demo_export_def)
  with stats show ?thesis
    by (auto simp: int64_def standard_attributes_def demo_net_event_def NewTransformer_def)
qed

end
