(* ===== verification/HardwareManager.thy ===== *)
theory HardwareManager
  imports HardwareGraph
begin

text \<open>
  The hardware manager, \<open>internal/hardware/manager.go\<close>: it runs the four collectors of hardware
  information once each, puts what they found in a snapshot and builds the hardware graph from it,
  at the start and at every tick. The registry holds the constructors of the collectors.
\<close>

section \<open>Collectors\<close>

datatype hardware_collector =
  CPUInfoCollector cpu_info_collector | MemoryInfoCollector memory_info_collector
| DiskInfoCollector bytes | NetworkInfoCollector bytes

datatype hardware_data =
  CPUInfoData cpu_info | MemoryInfoData memory_info | DiskInfoData "disk_info list" | NetworkInfoData "network_info list"

type_synonym hardware_factory = "collection_config \<Rightarrow> (path_error, hardware_collector) result"

text \<open>What the \<open>init\<close> functions of the four files register.\<close>

definition hardware_factories :: "(metric_type \<times> hardware_factory) list" where
  "hardware_factories =
     [(MetricTypeCPUInfo, \<lambda>config. result_bind (NewCPUInfoCollector config) (\<lambda>c. Inr (CPUInfoCollector c))),
      (MetricTypeMemoryInfo, \<lambda>config. result_bind (NewMemoryInfoCollector config) (\<lambda>c. Inr (MemoryInfoCollector c))),
      (MetricTypeDiskInfo, \<lambda>config. result_bind (NewDiskInfoCollector config) (\<lambda>c. Inr (DiskInfoCollector c))),
      (MetricTypeNetworkInfo, \<lambda>config. result_bind (NewNetworkInfoCollector config) (\<lambda>c. Inr (NetworkInfoCollector c)))]"

definition info_event :: "metric_type \<Rightarrow> ('a \<Rightarrow> 'd) \<Rightarrow> bytes \<Rightarrow> 'a option \<Rightarrow> 'd perf_event \<times> bytes option" where
  "info_event mt wrap failure info =
     (case info of
        None \<Rightarrow> (\<lparr>pe_metric = [], pe_data = None\<rparr>, Some failure)
      | Some i \<Rightarrow> (\<lparr>pe_metric = mt, pe_data = Some (wrap i)\<rparr>, None))"

text \<open>The \<open>Collect\<close> methods.\<close>

definition hardware_Collect :: "(bytes \<Rightarrow> rat option) \<Rightarrow> sys_fs \<Rightarrow> hardware_collector \<Rightarrow>
    (hardware_data perf_event \<times> bytes option) \<times> hardware_collector" where
  "hardware_Collect other fs c =
     (case c of
        CPUInfoCollector p \<Rightarrow> info_event MetricTypeCPUInfo CPUInfoData ''failed to parse cpuinfo'' (collectCPUInfo other fs p)
      | MemoryInfoCollector p \<Rightarrow> info_event MetricTypeMemoryInfo MemoryInfoData ''failed to parse meminfo'' (collectMemoryInfo fs p)
      | DiskInfoCollector p \<Rightarrow> info_event MetricTypeDiskInfo DiskInfoData ''failed to read block devices'' (collectDiskInfo fs p)
      | NetworkInfoCollector p \<Rightarrow>
          info_event MetricTypeNetworkInfo NetworkInfoData ''failed to read network interfaces'' (collectNetworkInfo fs p), c)"

section \<open>The snapshot\<close>

definition hardwareMetrics :: "metric_type list" where
  "hardwareMetrics = [MetricTypeCPUInfo, MetricTypeMemoryInfo, MetricTypeDiskInfo, MetricTypeNetworkInfo]"

type_synonym collection_run = "hardware_snapshot \<times> (metric_type \<rightharpoonup> collector_status)"

text \<open>The type assertion of the metric's data; \<open>None\<close> is its panic.\<close>

definition store_data :: "metric_type \<Rightarrow> hardware_data option \<Rightarrow> hardware_snapshot \<Rightarrow> hardware_snapshot option" where
  "store_data mt data snapshot =
     (if mt = MetricTypeCPUInfo
      then (case data of Some (CPUInfoData i) \<Rightarrow> Some (snapshot\<lparr>CPUInfo := Some i\<rparr>) | _ \<Rightarrow> None)
      else if mt = MetricTypeMemoryInfo
      then (case data of Some (MemoryInfoData i) \<Rightarrow> Some (snapshot\<lparr>MemoryInfo := Some i\<rparr>) | _ \<Rightarrow> None)
      else if mt = MetricTypeDiskInfo
      then (case data of Some (DiskInfoData i) \<Rightarrow> Some (snapshot\<lparr>DiskInfo := i\<rparr>) | _ \<Rightarrow> None)
      else if mt = MetricTypeNetworkInfo
      then (case data of Some (NetworkInfoData i) \<Rightarrow> Some (snapshot\<lparr>NetworkInfo := i\<rparr>) | _ \<Rightarrow> None)
      else Some snapshot)"

text \<open>
  The body of the loop over the metrics. Receiving from the closed channel of a collector that sent
  nothing gives an event without data.
\<close>

definition collect_metric :: "(bytes \<Rightarrow> rat option) \<Rightarrow> sys_fs \<Rightarrow> hardware_factory registry \<Rightarrow> collection_config \<Rightarrow>
    metric_type \<Rightarrow> collection_run \<Rightarrow> collection_run option" where
  "collect_metric other fs reg config mt run =
     (case run of (snapshot, stats) \<Rightarrow>
        (case GetCollector reg mt of
           None \<Rightarrow> Some (snapshot, stats)
         | Some factory \<Rightarrow>
             (case factory config of
                Inl _ \<Rightarrow> Some (snapshot, stats(mt \<mapsto> CollectorStatusFailed))
              | Inr c \<Rightarrow>
                  (case once_Start (hardware_Collect other fs) (NewOnceContinuousCollector c) of
                     Inl _ \<Rightarrow> Some (snapshot, stats(mt \<mapsto> CollectorStatusFailed))
                   | Inr ((sent, Some err), _) \<Rightarrow> Some (snapshot, stats(mt \<mapsto> CollectorStatusFailed))
                   | Inr ((sent, None), _) \<Rightarrow>
                       map_option (\<lambda>s. (s, stats(mt \<mapsto> CollectorStatusActive)))
                         (store_data mt (case sent of [] \<Rightarrow> None | e # _ \<Rightarrow> pe_data e) snapshot)))))"

fun collect_metrics :: "(bytes \<Rightarrow> rat option) \<Rightarrow> sys_fs \<Rightarrow> hardware_factory registry \<Rightarrow> collection_config \<Rightarrow>
    metric_type list \<Rightarrow> collection_run \<Rightarrow> collection_run option" where
  "collect_metrics other fs reg config [] run = Some run"
| "collect_metrics other fs reg config (mt # mts) run =
     (case collect_metric other fs reg config mt run of
        None \<Rightarrow> None | Some run' \<Rightarrow> collect_metrics other fs reg config mts run')"

definition empty_snapshot :: hardware_snapshot where
  "empty_snapshot = \<lparr>CPUInfo = None, MemoryInfo = None, DiskInfo = [], NetworkInfo = []\<rparr>"

definition collectHardwareSnapshot :: "(bytes \<Rightarrow> rat option) \<Rightarrow> sys_fs \<Rightarrow> hardware_factory registry \<Rightarrow> collection_config \<Rightarrow>
    collection_run option" where
  "collectHardwareSnapshot other fs reg config =
     collect_metrics other fs reg config hardwareMetrics (empty_snapshot, Map.empty)"

section \<open>The manager\<close>

record hardware_manager =
  hm_config :: collection_config
  hm_interval :: duration
  hm_lastUpdate :: instant

definition NewHardwareManager :: "duration \<Rightarrow> bool \<Rightarrow> collection_config \<Rightarrow> duration \<Rightarrow> hardware_manager option" where
  "NewHardwareManager defaultUpdateInterval storeGiven config updateInterval =
     (if \<not> storeGiven then None
      else Some \<lparr>hm_config = ApplyDefaults config,
                  hm_interval = (if updateInterval = 0 then defaultUpdateInterval else updateInterval),
                  hm_lastUpdate = 0\<rparr>)"

text \<open>
  \<open>updateHardwareGraph\<close> at a time, on a host. The results are the error, the manager and the store;
  \<open>None\<close> is a panic.
\<close>

record hardware_host =
  hh_other :: "bytes \<Rightarrow> rat option"
  hh_fs :: sys_fs
  hh_registry :: "hardware_factory registry"
  hh_marshal :: marshaller
  hh_order :: "int list \<Rightarrow> int list"
  hh_registered :: "bytes \<Rightarrow> bool"
  hh_system :: system_env

definition updateHardwareGraph :: "hardware_host \<Rightarrow> 's store_ops \<Rightarrow> instant \<Rightarrow> hardware_manager \<Rightarrow> 's \<Rightarrow>
    (graph_error option \<times> hardware_manager \<times> 's) option" where
  "updateHardwareGraph h ops now m s =
     (case collectHardwareSnapshot (hh_other h) (hh_fs h) (hh_registry h) (hm_config m) of
        None \<Rightarrow> None
      | Some (snapshot, _) \<Rightarrow>
          (case hardware_BuildFromSnapshot (hh_marshal h) (hh_order h) (hh_registered h) ops (hh_system h) snapshot s of
             None \<Rightarrow> None
           | Some (Some err, s') \<Rightarrow> Some (Some err, m, s')
           | Some (None, s') \<Rightarrow> Some (None, m\<lparr>hm_lastUpdate := now\<rparr>, s')))"

text \<open>\<open>Start\<close>: the first update and one at each tick, with the hosts and times of the ticks; errors are logged.\<close>

fun hardware_manager_run :: "'s store_ops \<Rightarrow> (hardware_host \<times> instant) list \<Rightarrow> hardware_manager \<Rightarrow> 's \<Rightarrow>
    (hardware_manager \<times> 's) option" where
  "hardware_manager_run ops [] m s = Some (m, s)"
| "hardware_manager_run ops ((h, now) # ticks) m s =
     (case updateHardwareGraph h ops now m s of
        None \<Rightarrow> None | Some (_, m', s') \<Rightarrow> hardware_manager_run ops ticks m' s')"

section \<open>What the snapshot holds\<close>

text \<open>A collector's information, when its constructor accepts the configuration and it is registered.\<close>

definition hardware_info :: "hardware_factory registry \<Rightarrow> metric_type \<Rightarrow> (path_error, 'c) result \<Rightarrow> ('c \<Rightarrow> 'a option) \<Rightarrow> 'a option" where
  "hardware_info reg mt new collect =
     (if GetCollector reg mt = None then None else (case new of Inl _ \<Rightarrow> None | Inr c \<Rightarrow> collect c))"

lemma once_Start_fresh:
  "once_Start (hardware_Collect other fs) (NewOnceContinuousCollector c) =
     (case hardware_Collect other fs c of ((e, err), c') \<Rightarrow>
        Inr ((if pe_data e \<noteq> None then [e] else [], err),
             \<lparr>oc_status = CollectorStatusDisabled, oc_last_error = err, oc_point = c', oc_result = Some e, oc_done = True\<rparr>))"
  by (simp add: once_Start_def once_run_def NewOnceContinuousCollector_def Let_def split: prod.split)

lemmas metric_names =
  MetricTypeCPUInfo_def MetricTypeMemoryInfo_def MetricTypeDiskInfo_def MetricTypeNetworkInfo_def

lemma collect_metric_step:
  assumes "GetCollector reg mt \<in> {None, Some (\<lambda>config. result_bind (new config) (\<lambda>c. Inr (mk c)))}"
    "\<And>c. hardware_Collect other fs (mk c) = (info_event mt wrap failure (collect c), mk c)"
    "\<And>i. store_data mt (Some (wrap i)) snapshot = Some (put i)"
  shows "\<exists>stats'. collect_metric other fs reg config mt (snapshot, stats) =
    Some (case hardware_info reg mt (new config) collect of None \<Rightarrow> snapshot | Some i \<Rightarrow> put i, stats')"
proof (cases "GetCollector reg mt")
  case (Some factory)
  then have factory: "factory = (\<lambda>config. result_bind (new config) (\<lambda>c. Inr (mk c)))" using assms(1) by simp
  show ?thesis
  proof (cases "new config")
    case (Inr c)
    show ?thesis
      using Some factory Inr assms(2) [of c] assms(3)
      by (cases "collect c") (auto simp: collect_metric_def hardware_info_def result_bind_def once_Start_fresh info_event_def)
  qed (use Some factory in \<open>simp add: collect_metric_def hardware_info_def result_bind_def\<close>)
qed (simp add: collect_metric_def hardware_info_def)

text \<open>
  Collecting never panics; each part of the snapshot is what its collector found, and is missing when
  the collector is not registered, refused the configuration or failed.
\<close>

definition hardware_found :: "(bytes \<Rightarrow> rat option) \<Rightarrow> sys_fs \<Rightarrow> hardware_factory registry \<Rightarrow> collection_config \<Rightarrow> hardware_snapshot" where
  "hardware_found other fs reg config =
     \<lparr>CPUInfo = hardware_info reg MetricTypeCPUInfo (NewCPUInfoCollector config) (collectCPUInfo other fs),
      MemoryInfo = hardware_info reg MetricTypeMemoryInfo (NewMemoryInfoCollector config) (collectMemoryInfo fs),
      DiskInfo = get_or [] id (hardware_info reg MetricTypeDiskInfo (NewDiskInfoCollector config) (collectDiskInfo fs)),
      NetworkInfo = get_or [] id (hardware_info reg MetricTypeNetworkInfo (NewNetworkInfoCollector config) (collectNetworkInfo fs))\<rparr>"

definition registry_ok :: "hardware_factory registry \<Rightarrow> bool" where
  "registry_ok reg \<longleftrightarrow> (\<forall>(mt, factory) \<in> set hardware_factories. GetCollector reg mt \<in> {None, Some factory})"

lemma collectHardwareSnapshot_spec:
  assumes "registry_ok reg"
  shows "\<exists>stats. collectHardwareSnapshot other fs reg config = Some (hardware_found other fs reg config, stats)"
proof -
  note reg = assms [unfolded registry_ok_def hardware_factories_def list.set ball_simps prod.case]
  have cpu: "\<exists>stats'. collect_metric other fs reg config MetricTypeCPUInfo (snapshot, stats) =
      Some (case hardware_info reg MetricTypeCPUInfo (NewCPUInfoCollector config) (collectCPUInfo other fs) of
              None \<Rightarrow> snapshot | Some i \<Rightarrow> snapshot\<lparr>CPUInfo := Some i\<rparr>, stats')" for snapshot stats
    by (rule collect_metric_step [where mk = CPUInfoCollector and wrap = CPUInfoData])
      (use reg in \<open>auto simp: hardware_Collect_def store_data_def\<close>)
  have mem: "\<exists>stats'. collect_metric other fs reg config MetricTypeMemoryInfo (snapshot, stats) =
      Some (case hardware_info reg MetricTypeMemoryInfo (NewMemoryInfoCollector config) (collectMemoryInfo fs) of
              None \<Rightarrow> snapshot | Some i \<Rightarrow> snapshot\<lparr>MemoryInfo := Some i\<rparr>, stats')" for snapshot stats
    by (rule collect_metric_step [where mk = MemoryInfoCollector and wrap = MemoryInfoData])
      (use reg in \<open>auto simp: hardware_Collect_def store_data_def metric_names\<close>)
  have disk: "\<exists>stats'. collect_metric other fs reg config MetricTypeDiskInfo (snapshot, stats) =
      Some (case hardware_info reg MetricTypeDiskInfo (NewDiskInfoCollector config) (collectDiskInfo fs) of
              None \<Rightarrow> snapshot | Some i \<Rightarrow> snapshot\<lparr>DiskInfo := i\<rparr>, stats')" for snapshot stats
    by (rule collect_metric_step [where mk = DiskInfoCollector and wrap = DiskInfoData])
      (use reg in \<open>auto simp: hardware_Collect_def store_data_def metric_names\<close>)
  have net: "\<exists>stats'. collect_metric other fs reg config MetricTypeNetworkInfo (snapshot, stats) =
      Some (case hardware_info reg MetricTypeNetworkInfo (NewNetworkInfoCollector config) (collectNetworkInfo fs) of
              None \<Rightarrow> snapshot | Some i \<Rightarrow> snapshot\<lparr>NetworkInfo := i\<rparr>, stats')" for snapshot stats
    by (rule collect_metric_step [where mk = NetworkInfoCollector and wrap = NetworkInfoData])
      (use reg in \<open>auto simp: hardware_Collect_def store_data_def metric_names\<close>)
  let ?found = "hardware_found other fs reg config"
  let ?n1 = "empty_snapshot\<lparr>CPUInfo := CPUInfo ?found\<rparr>"
  let ?n2 = "?n1\<lparr>MemoryInfo := MemoryInfo ?found\<rparr>"
  let ?n3 = "?n2\<lparr>DiskInfo := DiskInfo ?found\<rparr>"
  let ?n4 = "?n3\<lparr>NetworkInfo := NetworkInfo ?found\<rparr>"
  have put: "(case CPUInfo ?found of None \<Rightarrow> empty_snapshot | Some i \<Rightarrow> empty_snapshot\<lparr>CPUInfo := Some i\<rparr>) = ?n1"
    "(case MemoryInfo ?found of None \<Rightarrow> ?n1 | Some i \<Rightarrow> ?n1\<lparr>MemoryInfo := Some i\<rparr>) = ?n2"
    "(case hardware_info reg MetricTypeDiskInfo (NewDiskInfoCollector config) (collectDiskInfo fs) of
        None \<Rightarrow> ?n2 | Some i \<Rightarrow> ?n2\<lparr>DiskInfo := i\<rparr>) = ?n3"
    "(case hardware_info reg MetricTypeNetworkInfo (NewNetworkInfoCollector config) (collectNetworkInfo fs) of
        None \<Rightarrow> ?n3 | Some i \<Rightarrow> ?n3\<lparr>NetworkInfo := i\<rparr>) = ?n4"
    by (simp_all add: hardware_found_def empty_snapshot_def split: option.split)
  obtain t1 where 1: "collect_metric other fs reg config MetricTypeCPUInfo (empty_snapshot, Map.empty) = Some (?n1, t1)"
    using cpu [of empty_snapshot Map.empty] put(1) by (auto simp: hardware_found_def)
  obtain t2 where 2: "collect_metric other fs reg config MetricTypeMemoryInfo (?n1, t1) = Some (?n2, t2)"
    using mem [of ?n1 t1] put(2) by (auto simp: hardware_found_def)
  obtain t3 where 3: "collect_metric other fs reg config MetricTypeDiskInfo (?n2, t2) = Some (?n3, t3)"
    using disk [of ?n2 t2] unfolding put(3) by blast
  obtain t4 where 4: "collect_metric other fs reg config MetricTypeNetworkInfo (?n3, t3) = Some (?n4, t4)"
    using net [of ?n3 t3] unfolding put(4) by blast
  have "?n4 = ?found" by (simp add: empty_snapshot_def)
  then show ?thesis using 4 by (simp add: collectHardwareSnapshot_def hardwareMetrics_def 1 2 3)
qed

end
