(* ===== verification/GraphProperties.thy ===== *)
theory GraphProperties
  imports ContainersManager HardwareManager
begin

text \<open>
  Properties of the graphs the agent keeps in the resource store: what a build of the hardware
  graph leaves in the store of \<open>ResourceStore\<close>.
\<close>

section \<open>The hardware graph\<close>

text \<open>A closed plan can be run by a store that can write its relationships.\<close>

lemma plan_closed_ok:
  assumes "plan_closed sys cmds" "\<And>m. registered (message_name m)"
    "\<forall>rel \<in> set (planned_rels cmds). \<exists>v \<in> U. marshal_relationship env rel = Some v"
    "\<exists>r \<in> set (planned_nodes cmds). ref r = sys"
  shows "plan_ok (\<lambda>r. rsrc_metadata r \<noteq> None) (writable env U) registered cmds"
    "rel \<in> set (planned_rels cmds) \<Longrightarrow> p \<in> {rel_subject rel, rel_object rel} \<Longrightarrow>
      \<exists>r \<in> set (planned_nodes cmds). p = Some (ref r)"
proof -
  let ?R = "insert sys (ref ` set (planned_nodes cmds))"
  have nodes: "rsrc_metadata r \<noteq> None" "\<exists>k. encodeResourceKey (Some (ref r)) = Inr k" if "r \<in> set (planned_nodes cmds)" for r
    using that assms(1) by (auto simp: plan_closed_def list_all_iff encodeResourceKey_def)
  have R: "\<exists>r \<in> set (planned_nodes cmds). a = ref r" if "a \<in> ?R" for a using that assms(4) by blast
  have rels: "rel_formed rel" "\<exists>a \<in> ?R. rel_subject rel = Some a" "\<exists>b \<in> ?R. rel_object rel = Some b"
    "registered (rel_type_name rel)" if "rel \<in> set (planned_rels cmds)" for rel
    using that assms(1,2) unfolding plan_closed_def rels_between_def list_all_iff by metis+
  show ends: "\<exists>r \<in> set (planned_nodes cmds). p = Some (ref r)"
    if "rel \<in> set (planned_rels cmds)" "p \<in> {rel_subject rel, rel_object rel}" for rel p
    using rels(2,3) [OF that(1)] R that(2) by fastforce
  have "writable env U rel" if "rel \<in> set (planned_rels cmds)" for rel
    using assms(3) that ends [OF that, of "rel_subject rel"] ends [OF that, of "rel_object rel"] nodes(2)
    unfolding writable_def by fastforce
  then show "plan_ok (\<lambda>r. rsrc_metadata r \<noteq> None) (writable env U) registered cmds"
    using nodes rels assms(1) unfolding plan_ok_def plan_closed_def by blast
qed

lemma hardware_built:
  assumes env: "store_env kv env U arrange"
    and marshal: "\<And>m. marshal m \<noteq> None" and order: "\<And>xs. set (order xs) = set xs" and registered: "\<And>m. registered (message_name m)"
    and name: "CanonicalName (se_fs e) (se_paths e) (se_net e) (se_cloud e) = Some (Inr name)" "system_tags e = Some tags"
    and cores: "\<And>info. CPUInfo snapshot = Some info \<Longrightarrow> distinct (map Processor (Cores info))"
    and rels: "\<forall>rel \<in> set (planned_rels (hardware_plan marshal order e name tags snapshot)).
      \<exists>v \<in> U. marshal_relationship env rel = Some v"
    and inv: "graph_inv kv env U x"
  shows "\<exists>y z. hardware_BuildFromSnapshot marshal order registered (resource_store_ops kv env arrange clock) e snapshot x =
      Some (None, y) \<and> graph_inv kv env U y \<and>
    (\<forall>a \<in> snapshot_refs (hardware_ref (system_spec e) name) snapshot.
      \<exists>k \<in> stored_keys kv y. encodeResourceKey (Some a) = Inr k) \<and>
    (\<forall>rel \<in> stored_rels kv env y - stored_rels kv env x. \<forall>p \<in> {rel_subject rel, rel_object rel}.
      \<exists>k \<in> stored_keys kv y. encodeResourceKey p = Inr k) \<and>
    hardware_BuildFromSnapshot marshal order registered (resource_store_ops kv env arrange clock) e snapshot y =
      Some (None, z) \<and> stored_rels kv env z = stored_rels kv env y"
proof -
  let ?plan = "hardware_plan marshal order e name tags snapshot"
  let ?sys = "hardware_ref (system_spec e) name"
  have closed: "plan_closed ?sys ?plan" "\<exists>r \<in> set (planned_nodes ?plan). ref r = ?sys"
    using hardware_plan_closed [of marshal order snapshot e name tags] marshal order cores by blast+
  have refs: "ref ` set (planned_nodes ?plan) = snapshot_refs ?sys snapshot"
    using hardware_plan_refs [of marshal order snapshot e name tags] marshal order cores by blast
  have ok: "plan_ok (\<lambda>r. rsrc_metadata r \<noteq> None) (writable env U) registered ?plan"
    by (rule plan_closed_ok(1) [where registered = registered, OF closed(1) registered rels closed(2)])
  have ends: "\<forall>rel \<in> set (planned_rels ?plan). \<forall>p \<in> {rel_subject rel, rel_object rel}.
      \<exists>r \<in> set (planned_nodes ?plan). p = Some (ref r)"
    using plan_closed_ok(2) [where registered = registered, OF closed(1) registered rels closed(2)] by blast
  have build: "hardware_BuildFromSnapshot marshal order registered ops e snapshot s =
      Some (run_commands registered ops ?plan s)" for ops :: "(nat \<times> 'a store) store_ops" and s
    using name by (simp add: hardware_BuildFromSnapshot_def)
  from store_env.store_graph_built [OF env inv ok ends, of clock]
  show ?thesis unfolding build option.inject refs by blast
qed

text \<open>
  C28. The hardware graph. A build from a snapshot whose processors are numbered apart ends without
  an error, every device of the snapshot is then in the store, no relationship was added whose ends
  are not in the store, and building the same snapshot again adds no relationship. This holds for
  the store's own operations on any database and codec that keep their promises.
\<close>

theorem hardware_graph_built:
  assumes "kv_laws kv" "codec_roundtrip env" "sha_ok env U" "permutes arrange" "\<And>r. marshal_resource env r \<noteq> None"
    and "\<And>m. marshal m \<noteq> None" "\<And>xs. set (order xs) = set xs" "\<And>m. registered (message_name m)"
    and "CanonicalName (se_fs e) (se_paths e) (se_net e) (se_cloud e) = Some (Inr name)" "system_tags e = Some tags"
    and "\<And>info. CPUInfo snapshot = Some info \<Longrightarrow> distinct (map Processor (Cores info))"
    and "\<forall>rel \<in> set (planned_rels (hardware_plan marshal order e name tags snapshot)).
      \<exists>v \<in> U. marshal_relationship env rel = Some v"
    and "graph_inv kv env U x"
  shows "\<exists>y z. hardware_BuildFromSnapshot marshal order registered (resource_store_ops kv env arrange clock) e snapshot x =
      Some (None, y) \<and>
    (\<forall>a \<in> snapshot_refs (hardware_ref (system_spec e) name) snapshot.
      \<exists>k \<in> stored_keys kv y. encodeResourceKey (Some a) = Inr k) \<and>
    (\<forall>rel \<in> stored_rels kv env y - stored_rels kv env x. \<forall>p \<in> {rel_subject rel, rel_object rel}.
      \<exists>k \<in> stored_keys kv y. encodeResourceKey p = Inr k) \<and>
    hardware_BuildFromSnapshot marshal order registered (resource_store_ops kv env arrange clock) e snapshot y =
      Some (None, z) \<and> stored_rels kv env z = stored_rels kv env y"
proof -
  have env: "store_env kv env U arrange" by (rule store_env.intro) (use assms(1-5) in auto)
  show ?thesis
    using hardware_built [of kv env U arrange marshal order registered, OF env assms(6-13), of clock] by blast
qed

text \<open>A machine with one network card.\<close>

definition demo_machine :: system_env where
  "demo_machine = \<lparr>se_fs = (\<lambda>_. Missing), se_paths = \<lparr>hp_proc = ''/proc'', hp_sys = ''/sys'', hp_dev = ''/dev'', hp_etc = ''/etc'', hp_var = ''/var''\<rparr>,
     se_net = \<lparr>LookupCNAME = (\<lambda>_. ([], False)), LookupIP = (\<lambda>_. None), LookupAddr = (\<lambda>_. ([], False))\<rparr>,
     se_cloud = Some ''i-1'', se_goarch = ''amd64'', se_boot = None, se_now = 0, se_kernel = None\<rparr>"

definition demo_card :: network_info where
  "demo_card = \<lparr>ni_Interface = ''eth0'', Driver = ''e1000'', MACAddress = ''02:00'', ni_Speed = 0, ni_Duplex = ''full'',
     MTU = 1500, ni_Type = ''ethernet'', ni_OperState = ''up'', Carrier = True\<rparr>"

definition demo_snapshot :: hardware_snapshot where
  "demo_snapshot = \<lparr>CPUInfo = None, MemoryInfo = None, DiskInfo = [], NetworkInfo = [demo_card]\<rparr>"

definition demo_marshal :: marshaller where "demo_marshal m = Some (message_name m)"

abbreviation demo_card_rels :: "relationship list" where
  "demo_card_rels \<equiv> planned_rels (hardware_plan demo_marshal id demo_machine ''i-1'' [] demo_snapshot)"

lemma demo_hardware:
  "CanonicalName (se_fs demo_machine) (se_paths demo_machine) (se_net demo_machine) (se_cloud demo_machine) = Some (Inr ''i-1'')"
  "system_tags demo_machine = Some []" "length demo_card_rels = 2"
  by code_simp+

theorem hardware_graph_built_witness:
  "\<exists>hash y z. hardware_BuildFromSnapshot demo_marshal id (\<lambda>_. True)
       (resource_store_ops mem_kv (unary_codec hash) id int) demo_machine demo_snapshot no_graph = Some (None, y) \<and>
     (\<exists>k \<in> stored_keys mem_kv y.
        encodeResourceKey (Some (interface_ref (hardware_ref (system_spec demo_machine) ''i-1'') demo_card)) = Inr k) \<and>
     hardware_BuildFromSnapshot demo_marshal id (\<lambda>_. True)
       (resource_store_ops mem_kv (unary_codec hash) id int) demo_machine demo_snapshot y = Some (None, z) \<and>
     stored_rels mem_kv (unary_codec hash) z = stored_rels mem_kv (unary_codec hash) y"
proof -
  let ?env = "unary_codec (list_hash (map unary_wire demo_card_rels))"
  have "length demo_card_rels \<le> 256" using demo_hardware(3) by simp
  note wire = unary_wire_ok [OF this]
  have "interface_ref sys demo_card \<in> snapshot_refs sys demo_snapshot" for sys
    by (simp add: snapshot_refs_def demo_snapshot_def)
  moreover have "permutes id" "demo_marshal m \<noteq> None" "CPUInfo demo_snapshot = None" for m
    by (simp_all add: permutes_def demo_marshal_def demo_snapshot_def)
  ultimately show ?thesis
    using hardware_graph_built [OF mem_kv_laws unary_codec_ok(1) wire(1) _ unary_codec_ok(2) _ _ _ demo_hardware(1,2) _ wire(2) no_graph_inv,
        of id "\<lambda>_. True" int]
    by (intro exI [of _ "list_hash (map unary_wire demo_card_rels)"]) fastforce
qed

section \<open>Containers on the hardware\<close>

text \<open>What the runs of the two builders need of the store and the codec of messages.\<close>

lemma containers_built:
  assumes env: "store_env kv env U arrange" and marshal: "\<And>m. marshal m \<noteq> None" "\<And>m. registered (runtime_name m)"
    and rels: "\<forall>c \<in> set cs. \<forall>rel \<in> set (container_rels marshal systemID c). \<exists>v \<in> U. marshal_relationship env rel = Some v"
    and inv: "graph_inv kv env U x"
  shows "\<exists>y. container_BuildFromSnapshot marshal registered (resource_store_ops kv env arrange clock) exists fs proc systemID cs [] x =
      (None, y) \<and> stored_keys kv x \<subseteq> stored_keys kv y \<and>
    (\<forall>c \<in> set cs. \<exists>k \<in> stored_keys kv y. encodeResourceKey (Some (container_ref systemID (cont_ID c))) = Inr k) \<and>
    (\<forall>c \<in> set cs. \<forall>rel \<in> set (container_rels marshal systemID c). \<exists>r \<in> stored_rels kv env y. same_relation rel r)"
proof -
  let ?plan = "container_plan marshal systemID cs"
  note parts = container_plan_parts [of marshal systemID cs, OF marshal(1)]
  have ok: "plan_ok (\<lambda>r. rsrc_metadata r \<noteq> None) (writable env U) registered ?plan"
    by (rule container_plan_ok [where registered = registered, OF marshal rels])
  obtain y where y: "run_commands registered (resource_store_ops kv env arrange clock) ?plan x = (None, y)"
    "stored_keys kv y = stored_keys kv x \<union> {k. \<exists>r \<in> set (planned_nodes ?plan). encodeResourceKey (Some (ref r)) = Inr k}"
    "\<forall>rel \<in> set (planned_rels ?plan). \<exists>r \<in> stored_rels kv env y. same_relation rel r"
    using store_env.store_graph_run [OF env inv ok, of clock] by blast
  have refs: "ref ` set (planned_nodes ?plan) = (\<lambda>c. container_ref systemID (cont_ID c)) ` set cs"
    using arg_cong [OF parts(2), of set] by simp
  have "\<exists>k \<in> stored_keys kv y. encodeResourceKey (Some (container_ref systemID (cont_ID c))) = Inr k" if "c \<in> set cs" for c
  proof -
    have "container_ref systemID (cont_ID c) \<in> ref ` set (planned_nodes ?plan)" using that refs by blast
    moreover have "\<exists>k. encodeResourceKey (Some (container_ref systemID (cont_ID c))) = Inr k"
      by (simp add: encodeResourceKey_def container_ref_def typeContainer_def)
    ultimately show ?thesis unfolding y(2) by fastforce
  qed
  moreover have "container_BuildFromSnapshot marshal registered (resource_store_ops kv env arrange clock) exists fs proc systemID cs [] x =
      (None, y)"
    using container_topology_run [OF y(1)] by (auto simp: container_BuildFromSnapshot_def)
  ultimately show ?thesis using y(2,3) unfolding parts(4) by (intro exI [of _ y]) auto
qed

text \<open>
  C29. Containers on the hardware. The hardware graph is built, then the container graph on the same
  host, where containers are pinned to processors of the snapshot: the container build ends without
  an error, and for every processor a container is pinned to there is a stored relationship that says
  that the container is contained by the processor, whose two ends are stored: the names the two
  builders give to a processor agree.
\<close>

theorem containers_on_hardware:
  assumes "kv_laws kv" "codec_roundtrip env" "sha_ok env U" "permutes arrange" "\<And>r. marshal_resource env r \<noteq> None"
    and "\<And>m. marshal m \<noteq> None" "\<And>xs. set (order xs) = set xs" "\<And>m. registered (message_name m)"
    and "\<And>m. rt_marshal m \<noteq> None" "\<And>m. registered (runtime_name m)"
    and "CanonicalName (se_fs e) (se_paths e) (se_net e) (se_cloud e) = Some (Inr name)" "system_tags e = Some tags"
    and "CPUInfo snapshot = Some info" "distinct (map Processor (Cores info))"
    and "\<forall>rel \<in> set (planned_rels (hardware_plan marshal order e name tags snapshot)).
      \<exists>v \<in> U. marshal_relationship env rel = Some v"
    and "\<forall>c \<in> set cs. \<forall>rel \<in> set (container_rels rt_marshal name c). \<exists>v \<in> U. marshal_relationship env rel = Some v"
    and "c \<in> set cs" "ParseCPUList (CpusetCpus c) = Inr cpus" "set cpus \<subseteq> Processor ` set (Cores info)"
    and "graph_inv kv env U x"
  shows "\<exists>y z. hardware_BuildFromSnapshot marshal order registered (resource_store_ops kv env arrange clock) e snapshot x =
      Some (None, y) \<and>
    container_BuildFromSnapshot rt_marshal registered (resource_store_ops kv env arrange clock) exists fs proc
      (builder_systemID (Inr name)) cs [] y = (None, z) \<and>
    (\<forall>i \<in> set cpus. \<exists>rel \<in> stored_rels kv env z. predicate_name rel = ''antimetal.runtime.v1.ContainedBy'' \<and>
      (\<exists>k \<in> stored_keys kv z. encodeResourceKey (rel_subject rel) = Inr k \<and>
         encodeResourceKey (Some (container_ref name (cont_ID c))) = Inr k) \<and>
      (\<exists>k \<in> stored_keys kv z. encodeResourceKey (rel_object rel) = Inr k \<and>
         encodeResourceKey (Some (cpu_core_ref name i)) = Inr k))"
proof -
  let ?plan = "hardware_plan marshal order e name tags snapshot"
  let ?sys = "hardware_ref (system_spec e) name"
  have env: "store_env kv env U arrange" by (rule store_env.intro) (use assms(1-5) in auto)
  obtain y where y: "hardware_BuildFromSnapshot marshal order registered (resource_store_ops kv env arrange clock) e snapshot x =
      Some (None, y)" "graph_inv kv env U y"
    "\<forall>a \<in> snapshot_refs ?sys snapshot. \<exists>k \<in> stored_keys kv y. encodeResourceKey (Some a) = Inr k"
    using hardware_built [of kv env U arrange marshal order registered, OF env assms(6-8) assms(11,12) _ assms(15,20), of clock]
      assms(13,14) by auto
  from containers_built [where registered = registered, OF env assms(9,10,16) y(2), of clock exists fs proc]
  obtain z where z: "container_BuildFromSnapshot rt_marshal registered (resource_store_ops kv env arrange clock) exists fs proc name cs [] y =
      (None, z)" "stored_keys kv y \<subseteq> stored_keys kv z"
    "\<exists>k \<in> stored_keys kv z. encodeResourceKey (Some (container_ref name (cont_ID c))) = Inr k"
    "\<forall>rel \<in> set (container_rels rt_marshal name c). \<exists>r \<in> stored_rels kv env z. same_relation rel r"
    using assms(17) by blast
  have "\<exists>rel \<in> stored_rels kv env z. predicate_name rel = ''antimetal.runtime.v1.ContainedBy'' \<and>
      (\<exists>k \<in> stored_keys kv z. encodeResourceKey (rel_subject rel) = Inr k \<and>
         encodeResourceKey (Some (container_ref name (cont_ID c))) = Inr k) \<and>
      (\<exists>k \<in> stored_keys kv z. encodeResourceKey (rel_object rel) = Inr k \<and>
         encodeResourceKey (Some (cpu_core_ref name i)) = Inr k)" if i: "i \<in> set cpus" for i
  proof -
    obtain core where core: "core \<in> set (Cores info)" "Processor core = i" using assms(19) i by blast
    have "core_ref ?sys core \<in> snapshot_refs ?sys snapshot" using core(1) by (simp add: snapshot_refs_def assms(13))
    then have "cpu_core_ref name i \<in> snapshot_refs ?sys snapshot"
      using hardware_refs_agree(1) [of ?sys name core] core(2) by (simp add: hardware_ref_def)
    with y(3) z(2) obtain k where k: "k \<in> stored_keys kv z" "encodeResourceKey (Some (cpu_core_ref name i)) = Inr k" by blast
    obtain rel where rel: "rel \<in> set (container_rels rt_marshal name c)" "rel_formed rel"
      "rel_subject rel = Some (container_ref name (cont_ID c))" "rel_object rel = Some (cpu_core_ref name i)"
      "rel_type_name rel = runtime_name RtContainedBy"
      using pinned_relations_complete [of rt_marshal "cpu_core_ref name", OF assms(9) hardware_refs_differ(1) assms(18) i]
      unfolding container_rels_def by fastforce
    with z(4) obtain r where r: "r \<in> stored_rels kv env z" "same_relation rel r" by blast
    then show ?thesis using k z(3) rel
      by (intro bexI [OF _ r(1)]) (auto simp: same_relation_def query_match_def runtime_name_def)
  qed
  then show ?thesis using y(1) z(1) by (intro exI [of _ y] exI [of _ z]) (simp add: builder_systemID_def)
qed

definition demo_core :: cpu_core where
  "demo_core = \<lparr>Processor = 0, CoreID = 0, PhysicalID = 0, Siblings = 1, CPUMHz = 1000\<rparr>"

definition demo_package :: cpu_info where
  "demo_package = zero_cpu_info\<lparr>ModelName := ''m'', VendorID := ''v'', Cores := [demo_core]\<rparr>"

definition demo_cpu_snapshot :: hardware_snapshot where
  "demo_cpu_snapshot = \<lparr>CPUInfo = Some demo_package, MemoryInfo = None, DiskInfo = [], NetworkInfo = []\<rparr>"

definition demo_pinned :: container where
  "demo_pinned = (found_container id ''0123456789ab'' ''docker'' ''/c'' 2)\<lparr>CpusetCpus := ''0''\<rparr>"

definition demo_rt_marshal :: runtime_marshaller where "demo_rt_marshal m = Some (runtime_name m)"

abbreviation demo_pinned_rels :: "relationship list" where
  "demo_pinned_rels \<equiv> planned_rels (hardware_plan demo_marshal id demo_machine ''i-1'' [] demo_cpu_snapshot) @
     container_rels demo_rt_marshal ''i-1'' demo_pinned"

lemma demo_pinned_facts: "length demo_pinned_rels = 4" "ParseCPUList (CpusetCpus demo_pinned) = Inr [0]"
  by code_simp+

theorem containers_on_hardware_witness:
  "\<exists>hash y z rel. hardware_BuildFromSnapshot demo_marshal id (\<lambda>_. True)
       (resource_store_ops mem_kv (unary_codec hash) id int) demo_machine demo_cpu_snapshot no_graph = Some (None, y) \<and>
     container_BuildFromSnapshot demo_rt_marshal (\<lambda>_. True) (resource_store_ops mem_kv (unary_codec hash) id int)
       (\<lambda>_. True) (\<lambda>_. Missing) ''/proc'' (builder_systemID (Inr ''i-1'')) [demo_pinned] [] y = (None, z) \<and>
     rel \<in> stored_rels mem_kv (unary_codec hash) z \<and> predicate_name rel = ''antimetal.runtime.v1.ContainedBy''"
proof -
  let ?hash = "list_hash (map unary_wire demo_pinned_rels)"
  have "length demo_pinned_rels \<le> 256" using demo_pinned_facts(1) by simp
  note wire = unary_wire_ok [OF this]
  have rels: "\<forall>rel \<in> set (planned_rels (hardware_plan demo_marshal id demo_machine ''i-1'' [] demo_cpu_snapshot)).
      \<exists>v \<in> set (map unary_wire demo_pinned_rels). marshal_relationship (unary_codec ?hash) rel = Some v"
    "\<forall>c \<in> set [demo_pinned]. \<forall>rel \<in> set (container_rels demo_rt_marshal ''i-1'' c).
      \<exists>v \<in> set (map unary_wire demo_pinned_rels). marshal_relationship (unary_codec ?hash) rel = Some v"
    using wire(2) [of ?hash] 
    by (simp_all only: set_append list.set ball_simps Un_iff ball_Un simp_thms) (elim conjE, assumption)+
  have cpu: "permutes id" "\<And>m. demo_marshal m \<noteq> None" "\<And>m. demo_rt_marshal m \<noteq> None" "CPUInfo demo_cpu_snapshot = Some demo_package"
    "distinct (map Processor (Cores demo_package))" "set [0] \<subseteq> Processor ` set (Cores demo_package)"
    by (simp_all add: permutes_def demo_marshal_def demo_rt_marshal_def demo_cpu_snapshot_def demo_package_def demo_core_def)
  have "demo_pinned \<in> set [demo_pinned]" by simp
  from containers_on_hardware [of mem_kv "unary_codec ?hash" "set (map unary_wire demo_pinned_rels)" id demo_marshal id "\<lambda>_. True"
      demo_rt_marshal demo_machine "''i-1''" "[]" demo_cpu_snapshot demo_package "[demo_pinned]" demo_pinned "[0]" no_graph int "\<lambda>_. True"
      "\<lambda>_. Missing" "''/proc''", OF mem_kv_laws unary_codec_ok(1) wire(1) cpu(1) unary_codec_ok(2) cpu(2) _ _ cpu(3) _
      demo_hardware(1,2) cpu(4,5) rels this demo_pinned_facts(2) cpu(6) no_graph_inv]
  show ?thesis by (intro exI [of _ ?hash]) fastforce
qed

section \<open>From the host's files to the graph\<close>

text \<open>
  C30. An update of the hardware manager. When the collectors are registered, every disk below
  \<open>/sys/block\<close> (a directory that is no loop or memory device and no partition) and every interface
  directory below \<open>/sys/class/net\<close> has a node in the store after one update, under the host's
  canonical name; the update reports no error and its time is recorded. A part of the host that cannot
  be read (processors, memory, one of the directories) is left out and does not stop the update.
\<close>

theorem hardware_update_reports_host:
  assumes "kv_laws kv" "codec_roundtrip env" "sha_ok env U" "permutes arrange" "\<And>r. marshal_resource env r \<noteq> None"
    and "\<And>m. hh_marshal h m \<noteq> None" "\<And>xs. set (hh_order h xs) = set xs" "\<And>m. hh_registered h (message_name m)"
    and "CanonicalName (se_fs (hh_system h)) (se_paths (hh_system h)) (se_net (hh_system h)) (se_cloud (hh_system h)) =
      Some (Inr name)" "system_tags (hh_system h) = Some tags"
    and "registry_ok (hh_registry h)" "GetCollector (hh_registry h) MetricTypeDiskInfo \<noteq> None"
      "GetCollector (hh_registry h) MetricTypeNetworkInfo \<noteq> None"
    and "NewDiskInfoCollector (hm_config m) = Inr block" "NewNetworkInfoCollector (hm_config m) = Inr net"
    and "snapshot = hardware_found (hh_other h) (hh_fs h) (hh_registry h) (hm_config m)"
    and "\<And>info. CPUInfo snapshot = Some info \<Longrightarrow> distinct (map Processor (Cores info))"
    and "\<forall>rel \<in> set (planned_rels (hardware_plan (hh_marshal h) (hh_order h) (hh_system h) name tags snapshot)).
      \<exists>v \<in> U. marshal_relationship env rel = Some v"
    and "graph_inv kv env U x"
  shows "\<exists>y. updateHardwareGraph h (resource_store_ops kv env arrange clock) now m x =
      Some (None, m\<lparr>hm_lastUpdate := now\<rparr>, y) \<and>
    (\<forall>entries d. sf_dir (hh_fs h) block = Some entries \<longrightarrow> d \<in> fst ` set entries \<longrightarrow> disk_device (hh_fs h) block d \<longrightarrow>
      (\<exists>k \<in> stored_keys kv y. encodeResourceKey (Some \<lparr>ref_type_url = ''antimetal.hardware.v1.DiskDeviceNode'',
         ref_name = name @ ''-disk-'' @ d, ref_namespace = None\<rparr>) = Inr k)) \<and>
    (\<forall>entries i. sf_dir (hh_fs h) net = Some entries \<longrightarrow> i \<in> fst ` set entries \<longrightarrow>
      sf_stat (hh_fs h) (filepath_Join [net, i]) = Some True \<longrightarrow>
      (\<exists>k \<in> stored_keys kv y. encodeResourceKey (Some \<lparr>ref_type_url = ''antimetal.hardware.v1.NetworkInterfaceNode'',
         ref_name = name @ ''-net-'' @ i, ref_namespace = None\<rparr>) = Inr k))"
proof -
  let ?e = "hh_system h" and ?fs = "hh_fs h"
  let ?sys = "hardware_ref (system_spec ?e) name"
  have env: "store_env kv env U arrange" by (rule store_env.intro) (use assms(1-5) in auto)
  obtain y where y: "hardware_BuildFromSnapshot (hh_marshal h) (hh_order h) (hh_registered h)
      (resource_store_ops kv env arrange clock) ?e snapshot x = Some (None, y)"
    "\<forall>a \<in> snapshot_refs ?sys snapshot. \<exists>k \<in> stored_keys kv y. encodeResourceKey (Some a) = Inr k"
    using hardware_built [of kv env U arrange "hh_marshal h" "hh_order h" "hh_registered h",
        OF env assms(6-8) assms(9,10) assms(17,18,19), of clock] by blast
  obtain stats where "collectHardwareSnapshot (hh_other h) ?fs (hh_registry h) (hm_config m) = Some (snapshot, stats)"
    using collectHardwareSnapshot_spec [OF assms(11), of "hh_other h" ?fs "hm_config m"] assms(16) by blast
  then have update: "updateHardwareGraph h (resource_store_ops kv env arrange clock) now m x =
      Some (None, m\<lparr>hm_lastUpdate := now\<rparr>, y)" using y(1) by (simp add: updateHardwareGraph_def)
  have disks: "\<lparr>ref_type_url = ''antimetal.hardware.v1.DiskDeviceNode'', ref_name = name @ ''-disk-'' @ d, ref_namespace = None\<rparr>
      \<in> snapshot_refs ?sys snapshot"
    if "sf_dir ?fs block = Some entries" "d \<in> fst ` set entries" "disk_device ?fs block d" for entries d
  proof -
    let ?disk = "let p = filepath_Join [block, d] in parsePartitions ?fs p (parseDiskProperties ?fs p (new_disk d))"
    have dev: "di_Device ?disk = d"
      by (simp add: parsePartitions_def parseDiskProperties_def new_disk_def Let_def split: option.split)
    have "?disk \<in> set (DiskInfo snapshot)"
      using that assms(12,14) by (auto simp: assms(16) hardware_found_def hardware_info_def collectDiskInfo_def)
    then have "disk_ref ?sys ?disk \<in> snapshot_refs ?sys snapshot" unfolding snapshot_refs_def by blast
    then show ?thesis
      unfolding disk_ref_def dev by (simp add: disk_name_def hardware_ref_def message_name_def disk_spec_def hardware_package_def)
  qed
  have interfaces: "\<lparr>ref_type_url = ''antimetal.hardware.v1.NetworkInterfaceNode'', ref_name = name @ ''-net-'' @ i, ref_namespace = None\<rparr>
      \<in> snapshot_refs ?sys snapshot"
    if "sf_dir ?fs net = Some entries" "i \<in> fst ` set entries" "sf_stat ?fs (filepath_Join [net, i]) = Some True" for entries i
  proof -
    let ?info = "let p = filepath_Join [net, i] in parseInterfaceProperties ?fs p (new_interface i (getInterfaceType ?fs i p))"
    have nm: "ni_Interface ?info = i" by (simp add: parseInterfaceProperties_def new_interface_def Let_def)
    have "?info \<in> set (NetworkInfo snapshot)"
      using that assms(13,15) by (auto simp: assms(16) hardware_found_def hardware_info_def collectNetworkInfo_def)
    then have "interface_ref ?sys ?info \<in> snapshot_refs ?sys snapshot" unfolding snapshot_refs_def by blast
    then show ?thesis
      unfolding interface_ref_def nm
      by (simp add: interface_name_def hardware_ref_def message_name_def interface_spec_def hardware_package_def)
  qed
  show ?thesis using update y(2) disks interfaces by (intro exI [of _ y]) blast
qed

definition demo_host :: hardware_host where
  "demo_host =
     \<lparr>hh_other = (\<lambda>_. None),
      hh_fs = \<lparr>sf_file = (\<lambda>_. Missing),
               sf_dir = (\<lambda>p. if p = ''/sys/class/net'' then Some [(''eth0'', False)] else None),
               sf_stat = (\<lambda>p. if p = ''/sys/class/net/eth0'' then Some True else None), sf_link = (\<lambda>_. None)\<rparr>,
      hh_registry = \<lparr>reg_collectors = map_of hardware_factories, reg_unavailable = Map.empty\<rparr>,
      hh_marshal = demo_marshal, hh_order = id, hh_registered = (\<lambda>_. True), hh_system = demo_machine\<rparr>"

definition demo_hw_manager :: hardware_manager where
  "demo_hw_manager = \<lparr>hm_config = DefaultCollectionConfig, hm_interval = minute, hm_lastUpdate = 0\<rparr>"

definition demo_found :: hardware_snapshot where
  "demo_found = hardware_found (hh_other demo_host) (hh_fs demo_host) (hh_registry demo_host) (hm_config demo_hw_manager)"

abbreviation demo_host_rels :: "relationship list" where
  "demo_host_rels \<equiv> planned_rels (hardware_plan demo_marshal id demo_machine ''i-1'' [] demo_found)"

lemma demo_host_facts:
  "NewDiskInfoCollector (hm_config demo_hw_manager) = Inr ''/sys/block''"
  "NewNetworkInfoCollector (hm_config demo_hw_manager) = Inr ''/sys/class/net''"
  "filepath_Join [''/sys/class/net'', ''eth0''] = ''/sys/class/net/eth0''"
  by code_simp+

lemma demo_hw_registry: "registry_ok (hh_registry demo_host)" "GetCollector (hh_registry demo_host) MetricTypeDiskInfo \<noteq> None"
  "GetCollector (hh_registry demo_host) MetricTypeNetworkInfo \<noteq> None"
  by (simp_all add: registry_ok_def demo_host_def GetCollector_def hardware_factories_def metric_names)

lemma demo_found_eq: "CPUInfo demo_found = None" "length demo_host_rels = 2"
  by code_simp+

theorem hardware_update_reports_host_witness:
  "\<exists>hash y. updateHardwareGraph demo_host (resource_store_ops mem_kv (unary_codec hash) id int) 7 demo_hw_manager no_graph =
      Some (None, demo_hw_manager\<lparr>hm_lastUpdate := 7\<rparr>, y) \<and>
    (\<exists>k \<in> stored_keys mem_kv y. encodeResourceKey (Some \<lparr>ref_type_url = ''antimetal.hardware.v1.NetworkInterfaceNode'',
         ref_name = ''i-1-net-eth0'', ref_namespace = None\<rparr>) = Inr k)"
proof -
  let ?hash = "list_hash (map unary_wire demo_host_rels)"
  have "length demo_host_rels \<le> 256" using demo_found_eq(2) by simp
  note wire = unary_wire_ok [OF this]
  have parts: "hh_marshal demo_host = demo_marshal" "hh_order demo_host = id" "hh_system demo_host = demo_machine"
    "hh_registered demo_host n" "permutes id" "demo_marshal m \<noteq> None"
    "sf_dir (hh_fs demo_host) ''/sys/class/net'' = Some [(''eth0'', False)]"
    "sf_stat (hh_fs demo_host) ''/sys/class/net/eth0'' = Some True" for n m
    by (simp_all add: demo_host_def permutes_def demo_marshal_def)
  obtain y where y: "updateHardwareGraph demo_host (resource_store_ops mem_kv (unary_codec ?hash) id int) 7 demo_hw_manager no_graph =
      Some (None, demo_hw_manager\<lparr>hm_lastUpdate := 7\<rparr>, y)"
    "\<forall>entries i. sf_dir (hh_fs demo_host) ''/sys/class/net'' = Some entries \<longrightarrow> i \<in> fst ` set entries \<longrightarrow>
      sf_stat (hh_fs demo_host) (filepath_Join [''/sys/class/net'', i]) = Some True \<longrightarrow>
      (\<exists>k \<in> stored_keys mem_kv y. encodeResourceKey (Some \<lparr>ref_type_url = ''antimetal.hardware.v1.NetworkInterfaceNode'',
         ref_name = ''i-1'' @ ''-net-'' @ i, ref_namespace = None\<rparr>) = Inr k)"
    using hardware_update_reports_host [of mem_kv "unary_codec ?hash" "set (map unary_wire demo_host_rels)" id demo_host
        "''i-1''" "[]" demo_hw_manager "''/sys/block''" "''/sys/class/net''" demo_found no_graph int 7,
        OF mem_kv_laws unary_codec_ok(1) wire(1) parts(5) unary_codec_ok(2), unfolded parts(1-4),
        OF _ _ _ demo_hardware(1,2) demo_hw_registry demo_host_facts(1,2) demo_found_def _ wire(2) no_graph_inv]
      parts(4,6) demo_found_eq(1) by auto
  show ?thesis using y(1) y(2) [rule_format, of "[(''eth0'', False)]" "''eth0''"] parts(7,8) demo_host_facts(3)
    by (intro exI [of _ ?hash] exI [of _ y]) simp
qed

section \<open>From the cgroups to the graph\<close>









end
