(* ===== verification/KubeAgent.thy ===== *)
theory KubeAgent
  imports GraphStore
begin

text \<open>
  The Kubernetes agent, \<open>internal/kubernetes/agent\<close> and \<open>internal/kubernetes/cluster\<close>: informers hand
  the objects of the API server to a handler, which puts events on a rate-limited queue; a worker takes
  them off and indexes the objects in the resource store, as resources with relationships to the
  cluster, to their owners and, for pods and claims, to nodes and volumes.

  Outside code is passed in: the API machinery (type names, the scheme, marshalling), the protobuf
  registry, the store's operations, and the cloud provider. Map iteration order is the order of the
  list that stands for the map.
\<close>

section \<open>Objects of the API server\<close>

text \<open>
  The objects by their Go types, with the fields the generators read: the node of a pod and, per volume,
  the name of its claim if it has one; the volume of a claim.
\<close>

datatype kube_spec =
  Pod bytes "bytes option list"
| Node
| PersistentVolume
| PersistentVolumeClaim bytes
| Service
| DaemonSet
| Deployment
| ReplicaSet
| StatefulSet
| Job
| OtherObject bytes

text \<open>The Go type of an object, whatever its fields.\<close>

datatype kube_kind =
  PodKind | NodeKind | PersistentVolumeKind | PersistentVolumeClaimKind | ServiceKind | DaemonSetKind
| DeploymentKind | ReplicaSetKind | StatefulSetKind | JobKind | OtherKind bytes

fun kind_of :: "kube_spec \<Rightarrow> kube_kind" where
  "kind_of (Pod _ _) = PodKind"
| "kind_of Node = NodeKind"
| "kind_of PersistentVolume = PersistentVolumeKind"
| "kind_of (PersistentVolumeClaim _) = PersistentVolumeClaimKind"
| "kind_of Service = ServiceKind"
| "kind_of DaemonSet = DaemonSetKind"
| "kind_of Deployment = DeploymentKind"
| "kind_of ReplicaSet = ReplicaSetKind"
| "kind_of StatefulSet = StatefulSetKind"
| "kind_of Job = JobKind"
| "kind_of (OtherObject n) = OtherKind n"

record owner_reference =
  own_APIVersion :: bytes
  own_Kind :: bytes
  own_Name :: bytes
  own_UID :: bytes

record kube_object =
  ob_name :: bytes
  ob_namespace :: bytes
  ob_uid :: bytes
  ob_labels :: "(bytes \<times> bytes) list"
  ob_owners :: "owner_reference list"
  ob_managed :: "bytes list"
  ob_gvk :: bytes
  ob_spec :: kube_spec

text \<open>The messages of \<open>pkg/api/kubernetes/v1\<close>.\<close>

datatype cluster_provider_enum =
  CLUSTER_PROVIDER_OTHER | CLUSTER_PROVIDER_EKS | CLUSTER_PROVIDER_GKE | CLUSTER_PROVIDER_AKS | CLUSTER_PROVIDER_KIND

datatype kube_message =
  KubeCluster bytes bytes cluster_provider_enum
| KubeContains | KubeContainedBy | Owns | OwnedBy | VolumeMount | AttachedTo | BoundBy | ClaimsFrom

definition kube_message_name :: "kube_message \<Rightarrow> bytes" where
  "kube_message_name m = ''kubernetes.v1.'' @
     (case m of KubeCluster _ _ _ \<Rightarrow> ''Cluster'' | KubeContains \<Rightarrow> ''Contains'' | KubeContainedBy \<Rightarrow> ''ContainedBy''
      | Owns \<Rightarrow> ''Owns'' | OwnedBy \<Rightarrow> ''OwnedBy'' | VolumeMount \<Rightarrow> ''VolumeMount'' | AttachedTo \<Rightarrow> ''AttachedTo''
      | BoundBy \<Rightarrow> ''BoundBy'' | ClaimsFrom \<Rightarrow> ''ClaimsFrom'')"

text \<open>
  The API machinery. \<open>ke_new\<close> is \<open>scheme.Get().New\<close> of an API version and a kind: \<open>None\<close> is an error,
  \<open>Some None\<close> a runtime object that is no \<open>object\<close>.
\<close>

record kube_env =
  ke_name :: "kube_kind \<Rightarrow> bytes"
  ke_new :: "bytes \<Rightarrow> bytes \<Rightarrow> kube_spec option option"
  ke_kinds :: "kube_object \<Rightarrow> (bytes list \<times> bool) option"
  ke_marshal :: "kube_object \<Rightarrow> bytes option"
  ke_any :: "kube_message \<Rightarrow> bytes option"
  ke_registered :: "bytes \<Rightarrow> bool"

record 's kube_ops =
  ko_store :: "'s store_ops"
  so_get :: "resource_ref option \<Rightarrow> 's \<Rightarrow> (store_error, resource) result"
  so_delete :: "resource_ref option \<Rightarrow> 's \<Rightarrow> store_error option \<times> 's"

datatype kube_error =
  OwnerNotRegistered bytes bytes
| OwnerNotAnObject
| ObjectNotMarshalled
| PredicateNotMarshalled
| NoGenerator bytes
| StoreRefused store_error
| PredicateNotRegistered bytes
| RetryableError store_error
| NilMetadata
| ProviderFailed bytes

text \<open>\<open>errors.Retryable\<close>; wrapping an error keeps it.\<close>

definition Retryable :: "kube_error \<Rightarrow> bool" where
  "Retryable e = (case e of RetryableError _ \<Rightarrow> True | _ \<Rightarrow> False)"

section \<open>References and relationships\<close>

definition kube_ref :: "bytes \<Rightarrow> bytes \<Rightarrow> bytes \<Rightarrow> bytes \<Rightarrow> resource_ref" where
  "kube_ref ty cluster ns name =
     \<lparr>ref_type_url = ty, ref_name = name,
      ref_namespace = Some (NamespaceKube \<lparr>kube_cluster = cluster, kube_namespace = ns\<rparr>)\<rparr>"

definition cluster_ref :: "bytes \<Rightarrow> resource_ref" where
  "cluster_ref cluster = \<lparr>ref_type_url = ''kubernetes.v1.Cluster'', ref_name = cluster, ref_namespace = None\<rparr>"

definition object_ref :: "kube_env \<Rightarrow> bytes \<Rightarrow> kube_object \<Rightarrow> resource_ref" where
  "object_ref env cluster obj = kube_ref (ke_name env (kind_of (ob_spec obj))) cluster (ob_namespace obj) (ob_name obj)"

definition kube_relation :: "kube_env \<Rightarrow> kube_message \<Rightarrow> resource_ref \<Rightarrow> resource_ref \<Rightarrow> relationship option" where
  "kube_relation env predicate subject object =
     map_option (\<lambda>predicateAny.
       \<lparr>rel_type = Some \<lparr>td_kind = ''resource.v1.Relationship'', td_type = kube_message_name predicate\<rparr>,
        rel_id = [], rel_subject = Some subject, rel_object = Some object, rel_predicate = Some predicateAny,
        rel_created_at = None, rel_updated_at = None, rel_deleted_at = None\<rparr>) (any_new (ke_any env) kube_message_name predicate)"

text \<open>A relationship and its converse; both predicates are marshalled before either is used.\<close>

definition two_way :: "kube_env \<Rightarrow> kube_message \<Rightarrow> kube_message \<Rightarrow> resource_ref \<Rightarrow> resource_ref \<Rightarrow>
    (kube_error, relationship list) result" where
  "two_way env there back a b =
     (case (kube_relation env there a b, kube_relation env back b a) of
        (Some r, Some r') \<Rightarrow> Inr [r, r']
      | _ \<Rightarrow> Inl PredicateNotMarshalled)"

section \<open>Generating resources\<close>

definition labelsToTags :: "(bytes \<times> bytes) list \<Rightarrow> tag list" where
  "labelsToTags labels = map (\<lambda>(k, v). \<lparr>tag_key = k, tag_value = v\<rparr>) labels"

definition base_resource :: "kube_env \<Rightarrow> bytes \<Rightarrow> kube_object \<Rightarrow> bytes \<Rightarrow> resource" where
  "base_resource env clusterName obj data =
     \<lparr>rsrc_type = Some \<lparr>td_kind = ''resource.v1.Resource'', td_type = ke_name env (kind_of (ob_spec obj))\<rparr>,
      rsrc_metadata = Some (empty_meta\<lparr>meta_provider := 4, meta_provider_id := ob_uid obj, meta_name := ob_name obj,
        meta_namespace := Some (NamespaceKube \<lparr>kube_cluster = clusterName, kube_namespace = ob_namespace obj\<rparr>),
        meta_tags := labelsToTags (ob_labels obj)\<rparr>),
      rsrc_spec = Some \<lparr>any_type_url = ke_name env (kind_of (ob_spec obj)), any_value = data\<rparr>\<rparr>"

fun owner_relations :: "kube_env \<Rightarrow> bytes \<Rightarrow> resource_ref \<Rightarrow> kube_object list \<Rightarrow> (kube_error, relationship list) result" where
  "owner_relations env clusterName objRef [] = Inr []"
| "owner_relations env clusterName objRef (owner # owners) =
     result_bind (two_way env Owns OwnedBy (object_ref env clusterName owner) objRef) (\<lambda>rels.
     result_bind (owner_relations env clusterName objRef owners) (\<lambda>more. Inr (rels @ more)))"

type_synonym generated = "(kube_error, resource \<times> relationship list) result"

definition genBase :: "kube_env \<Rightarrow> bytes \<Rightarrow> kube_object \<Rightarrow> kube_object list \<Rightarrow> generated" where
  "genBase env clusterName obj owners =
     (case ke_marshal env obj of
        None \<Rightarrow> Inl ObjectNotMarshalled
      | Some data \<Rightarrow>
          (let rsrc = base_resource env clusterName obj data; objRef = ref rsrc in
           result_bind (two_way env KubeContains KubeContainedBy (cluster_ref clusterName) objRef) (\<lambda>rels.
           result_bind (owner_relations env clusterName objRef owners) (\<lambda>more. Inr (rsrc, rels @ more)))))"

definition set_place :: "bytes \<Rightarrow> bytes \<Rightarrow> resource \<Rightarrow> resource" where
  "set_place region zone rsrc =
     rsrc\<lparr>rsrc_metadata := map_option (\<lambda>m. m\<lparr>meta_region := region, meta_zone := zone\<rparr>) (rsrc_metadata rsrc)\<rparr>"

definition label_value :: "kube_object \<Rightarrow> bytes \<Rightarrow> bytes" where
  "label_value obj l = get_or '''' id (map_of (ob_labels obj) l)"

definition genNode :: "kube_env \<Rightarrow> bytes \<Rightarrow> kube_object \<Rightarrow> kube_object list \<Rightarrow> generated" where
  "genNode env clusterName obj owners =
     result_bind (genBase env clusterName obj owners) (\<lambda>(rsrc, rels).
       Inr (set_place (label_value obj ''topology.kubernetes.io/region'') (label_value obj ''topology.kubernetes.io/zone'') rsrc, rels))"

definition genPersistentVolume :: "kube_env \<Rightarrow> bytes \<Rightarrow> kube_object \<Rightarrow> kube_object list \<Rightarrow> generated" where
  "genPersistentVolume env clusterName obj owners =
     result_bind (genBase env clusterName obj owners) (\<lambda>(rsrc, rels).
       Inr (set_place (label_value obj ''topology.kubernetes.io/region'') (label_value obj ''topology.kubernetes.io/zone'') rsrc, rels))"

definition genPersistentVolumeClaim :: "kube_env \<Rightarrow> bytes \<Rightarrow> kube_object \<Rightarrow> bytes \<Rightarrow> kube_object list \<Rightarrow> generated" where
  "genPersistentVolumeClaim env clusterName obj volumeName owners =
     result_bind (genBase env clusterName obj owners) (\<lambda>(rsrc, rels).
       if volumeName \<noteq> '''' then
         result_bind (two_way env ClaimsFrom BoundBy (object_ref env clusterName obj)
             (kube_ref (ke_name env PersistentVolumeKind) clusterName '''' volumeName))
           (\<lambda>more. Inr (rsrc, rels @ more))
       else Inr (rsrc, rels))"

text \<open>The claims of a pod's volumes.\<close>

fun volume_relations :: "kube_env \<Rightarrow> bytes \<Rightarrow> kube_object \<Rightarrow> bytes option list \<Rightarrow> (kube_error, relationship list) result" where
  "volume_relations env clusterName obj [] = Inr []"
| "volume_relations env clusterName obj (None # volumes) = volume_relations env clusterName obj volumes"
| "volume_relations env clusterName obj (Some claimName # volumes) =
     result_bind (two_way env AttachedTo VolumeMount
         (kube_ref (ke_name env PersistentVolumeClaimKind) clusterName (ob_namespace obj) claimName)
         (object_ref env clusterName obj)) (\<lambda>rels.
     result_bind (volume_relations env clusterName obj volumes) (\<lambda>more. Inr (rels @ more)))"

definition genPod :: "kube_env \<Rightarrow> 's kube_ops \<Rightarrow> 's \<Rightarrow> bytes \<Rightarrow> kube_object \<Rightarrow> bytes \<Rightarrow> bytes option list \<Rightarrow>
    kube_object list \<Rightarrow> generated" where
  "genPod env ops s clusterName obj nodeName volumes owners =
     result_bind (genBase env clusterName obj owners) (\<lambda>(rsrc, rels).
     result_bind
       (if nodeName \<noteq> '''' then
          (case so_get ops (Some (kube_ref (ke_name env NodeKind) clusterName '''' nodeName)) s of
             Inl err \<Rightarrow> Inl (RetryableError err)
           | Inr nodeRsrc \<Rightarrow>
               (case rsrc_metadata nodeRsrc of
                  None \<Rightarrow> Inl NilMetadata
                | Some m \<Rightarrow>
                    result_bind (two_way env KubeContains KubeContainedBy (ref nodeRsrc) (object_ref env clusterName obj))
                      (\<lambda>more. Inr (set_place (meta_region m) (meta_zone m) rsrc, rels @ more))))
        else Inr (rsrc, rels)) (\<lambda>(rsrc, rels).
     result_bind (volume_relations env clusterName obj volumes) (\<lambda>more. Inr (rsrc, rels @ more))))"

text \<open>The owners of an object, as empty objects of their kinds; all are looked for in the object's namespace.\<close>

fun owner_objects :: "kube_env \<Rightarrow> bytes \<Rightarrow> owner_reference list \<Rightarrow> (kube_error, kube_object list) result" where
  "owner_objects env ns [] = Inr []"
| "owner_objects env ns (r # rs) =
     (case ke_new env (own_APIVersion r) (own_Kind r) of
        None \<Rightarrow> Inl (OwnerNotRegistered (own_APIVersion r) (own_Kind r))
      | Some None \<Rightarrow> Inl OwnerNotAnObject
      | Some (Some spec) \<Rightarrow>
          result_bind (owner_objects env ns rs) (\<lambda>owners.
          Inr (\<lparr>ob_name = own_Name r, ob_namespace = ns, ob_uid = own_UID r, ob_labels = [], ob_owners = [],
                ob_managed = [], ob_gvk = '''', ob_spec = spec\<rparr> # owners)))"

definition generate :: "kube_env \<Rightarrow> 's kube_ops \<Rightarrow> bytes \<Rightarrow> kube_object \<Rightarrow> 's \<Rightarrow> generated" where
  "generate env ops clusterName obj s =
     result_bind (owner_objects env (ob_namespace obj) (ob_owners obj)) (\<lambda>owners.
     case ob_spec obj of
       Pod nodeName volumes \<Rightarrow> genPod env ops s clusterName obj nodeName volumes owners
     | Node \<Rightarrow> genNode env clusterName obj owners
     | PersistentVolume \<Rightarrow> genPersistentVolume env clusterName obj owners
     | PersistentVolumeClaim volumeName \<Rightarrow> genPersistentVolumeClaim env clusterName obj volumeName owners
     | Service \<Rightarrow> genBase env clusterName obj owners
     | DaemonSet \<Rightarrow> genBase env clusterName obj owners
     | Deployment \<Rightarrow> genBase env clusterName obj owners
     | ReplicaSet \<Rightarrow> genBase env clusterName obj owners
     | StatefulSet \<Rightarrow> genBase env clusterName obj owners
     | Job \<Rightarrow> genBase env clusterName obj owners
     | OtherObject _ \<Rightarrow> Inl (NoGenerator (ob_gvk obj)))"

section \<open>The indexer\<close>

record indexer =
  ix_clusterName :: bytes

record cluster_provider =
  cp_Name :: bytes
  cp_ClusterName :: "(bytes, bytes) result"
  cp_Region :: "(bytes, bytes) result"

definition getProvider :: "cluster_provider \<Rightarrow> cluster_provider_enum" where
  "getProvider prov =
     (if cp_Name prov = ''eks'' then CLUSTER_PROVIDER_EKS
      else if cp_Name prov = ''gke'' then CLUSTER_PROVIDER_GKE
      else if cp_Name prov = ''aks'' then CLUSTER_PROVIDER_AKS
      else if cp_Name prov = ''kind'' then CLUSTER_PROVIDER_KIND
      else CLUSTER_PROVIDER_OTHER)"

definition cluster_resource :: "bytes \<Rightarrow> bytes \<Rightarrow> any_message \<Rightarrow> resource" where
  "cluster_resource clusterName region clusterAny =
     \<lparr>rsrc_type = Some \<lparr>td_kind = ''resource.v1.Resource'', td_type = ''kubernetes.v1.Cluster''\<rparr>,
      rsrc_metadata = Some (empty_meta\<lparr>meta_provider := 4, meta_provider_id := clusterName, meta_name := clusterName,
        meta_region := region\<rparr>),
      rsrc_spec = Some clusterAny\<rparr>"

definition LoadClusterInfo :: "kube_env \<Rightarrow> 's kube_ops \<Rightarrow> cluster_provider \<Rightarrow> bytes \<Rightarrow> bytes \<Rightarrow> indexer \<Rightarrow> 's \<Rightarrow>
    kube_error option \<times> indexer \<times> 's" where
  "LoadClusterInfo env ops prov major minor i s =
     (case cp_ClusterName prov of
        Inl e \<Rightarrow> (Some (ProviderFailed e), i, s)
      | Inr clusterName \<Rightarrow>
          (case cp_Region prov of
             Inl e \<Rightarrow> (Some (ProviderFailed e), i, s)
           | Inr region \<Rightarrow>
               (case any_new (ke_any env) kube_message_name (KubeCluster major minor (getProvider prov)) of
                  None \<Rightarrow> (Some PredicateNotMarshalled, i, s)
                | Some clusterAny \<Rightarrow>
                    (let i' = i\<lparr>ix_clusterName := clusterName\<rparr> in
                     case so_update (ko_store ops) (cluster_resource clusterName region clusterAny) s of
                       Inl e \<Rightarrow> (Some (StoreRefused e), i', s)
                     | Inr s' \<Rightarrow> (None, i', s')))))"

text \<open>The errors of the relationships: those of the store are retried.\<close>

fun relation_error :: "graph_error \<Rightarrow> kube_error" where
  "relation_error (StoreFailed e) = RetryableError e"
| "relation_error (MessageNotFound n) = PredicateNotRegistered n"
| "relation_error _ = PredicateNotMarshalled"

definition indexer_Update :: "kube_env \<Rightarrow> 's kube_ops \<Rightarrow> indexer \<Rightarrow> kube_object \<Rightarrow> 's \<Rightarrow> kube_error option \<times> 's" where
  "indexer_Update env ops i obj s =
     (case generate env ops (ix_clusterName i) obj s of
        Inl e \<Rightarrow> (Some e, s)
      | Inr (rsrc, rels) \<Rightarrow>
          (case so_update (ko_store ops) rsrc s of
             Inl e \<Rightarrow> (Some (StoreRefused e), s)
           | Inr s1 \<Rightarrow>
               (case graph_addRelationships (ke_registered env) (ko_store ops) rels s1 of
                  (e, s2) \<Rightarrow> (map_option relation_error e, s2))))"

definition indexer_Delete :: "kube_env \<Rightarrow> 's kube_ops \<Rightarrow> indexer \<Rightarrow> kube_object \<Rightarrow> 's \<Rightarrow> kube_error option \<times> 's" where
  "indexer_Delete env ops i obj s =
     (case so_delete ops (Some (object_ref env (ix_clusterName i) obj)) s of
        (e, s') \<Rightarrow> (map_option StoreRefused e, s'))"

section \<open>Events and the worker\<close>

datatype eventType = EventAdd | EventUpdate | EventDelete

type_synonym kube_event = "eventType \<times> kube_object"

text \<open>What an informer hands over: an object of the API, or something else (a tombstone).\<close>

datatype informer_object = ApiObject kube_object | Tombstone

definition kube_handle :: "kube_env \<Rightarrow> eventType \<Rightarrow> informer_object \<Rightarrow> kube_event list" where
  "kube_handle env typ x =
     (case x of
        Tombstone \<Rightarrow> []
      | ApiObject obj \<Rightarrow>
          (case ke_kinds env obj of
             None \<Rightarrow> []
           | Some (gvks, unversioned) \<Rightarrow>
               if length gvks = 0 \<or> unversioned then []
               else [(typ, obj\<lparr>ob_gvk := hd gvks, ob_managed := []\<rparr>)]))"

definition OnAdd :: "kube_env \<Rightarrow> informer_object \<Rightarrow> kube_event list" where
  "OnAdd env x = kube_handle env EventAdd x"

definition OnUpdate :: "kube_env \<Rightarrow> informer_object \<Rightarrow> informer_object \<Rightarrow> kube_event list" where
  "OnUpdate env old x = kube_handle env EventUpdate x"

definition OnDelete :: "kube_env \<Rightarrow> informer_object \<Rightarrow> kube_event list" where
  "OnDelete env x = kube_handle env EventDelete x"

definition index_event :: "kube_env \<Rightarrow> 's kube_ops \<Rightarrow> indexer \<Rightarrow> kube_event \<Rightarrow> 's \<Rightarrow> kube_error option \<times> 's" where
  "index_event env ops i ev s =
     (case fst ev of
        EventAdd \<Rightarrow> indexer_Update env ops i (snd ev) s
      | EventUpdate \<Rightarrow> indexer_Update env ops i (snd ev) s
      | EventDelete \<Rightarrow> indexer_Delete env ops i (snd ev) s)"

text \<open>
  \<open>indexObjects\<close> on what \<open>queue.Get\<close> returned (\<open>None\<close> at shutdown): the calls to the queue, in order,
  and the store.
\<close>

datatype queue_call = AddRateLimited kube_event | Forget kube_event | Done kube_event

definition indexObjects :: "kube_env \<Rightarrow> 's kube_ops \<Rightarrow> indexer \<Rightarrow> kube_event option \<Rightarrow> 's \<Rightarrow> queue_call list \<times> 's" where
  "indexObjects env ops i got s =
     (case got of
        None \<Rightarrow> ([], s)
      | Some ev \<Rightarrow>
          (case index_event env ops i ev s of
             (Some err, s') \<Rightarrow> ((if Retryable err then [AddRateLimited ev] else []) @ [Done ev], s')
           | (None, s') \<Rightarrow> ([Forget ev, Done ev], s')))"

text \<open>
  The controller: the handler adds an event, or the worker indexes one. The queue holds the events that
  were added and not yet handed out; as each waits for its own delay, any of them may be next.
\<close>

definition requeued :: "queue_call list \<Rightarrow> kube_event list" where
  "requeued calls = concat (map (\<lambda>c. case c of AddRateLimited ev \<Rightarrow> [ev] | _ \<Rightarrow> []) calls)"

definition worker_turn :: "kube_env \<Rightarrow> 's kube_ops \<Rightarrow> indexer \<Rightarrow> kube_event \<Rightarrow> kube_event list \<times> 's \<Rightarrow> kube_event list \<times> 's" where
  "worker_turn env ops i ev = (\<lambda>(queue, s).
     (case indexObjects env ops i (Some ev) s of (calls, s') \<Rightarrow> (remove1 ev queue @ requeued calls, s')))"

inductive kube_step :: "kube_env \<Rightarrow> 's kube_ops \<Rightarrow> indexer \<Rightarrow> kube_event list \<times> 's \<Rightarrow> kube_event list \<times> 's \<Rightarrow> bool"
  for env :: kube_env and ops :: "'s kube_ops" and i :: indexer where
  informer: "kube_step env ops i (queue, s) (queue @ kube_handle env typ x, s)"
| worker: "ev \<in> set queue \<Longrightarrow> kube_step env ops i (queue, s) (worker_turn env ops i ev (queue, s))"

section \<open>Starting\<close>

record kube_controller =
  kc_indexer :: indexer
  kc_started :: bool

datatype kube_start_error = StartedTwice | NoKubeVersion | ClusterInfoFailed kube_error | CacheNotSynced

text \<open>
  \<open>Start\<close> up to the launch of the worker: the version of the API server and the outcome of \<open>syncCache\<close>,
  which registers the handlers, are given.
\<close>

definition controller_Start :: "kube_env \<Rightarrow> 's kube_ops \<Rightarrow> cluster_provider \<Rightarrow> (bytes \<times> bytes) option \<Rightarrow> bool \<Rightarrow>
    kube_controller \<Rightarrow> 's \<Rightarrow> kube_start_error option \<times> kube_controller \<times> 's" where
  "controller_Start env ops prov version synced c s =
     (if kc_started c then (Some StartedTwice, c, s)
      else (case version of
              None \<Rightarrow> (Some NoKubeVersion, c, s)
            | Some (major, minor) \<Rightarrow>
                (case LoadClusterInfo env ops prov major minor (kc_indexer c) s of
                   (err, i, s') \<Rightarrow>
                     (let c' = c\<lparr>kc_indexer := i\<rparr> in
                      case err of
                        Some e \<Rightarrow> (Some (ClusterInfoFailed e), c', s')
                      | None \<Rightarrow> if synced then (None, c'\<lparr>kc_started := True\<rparr>, s') else (Some CacheNotSynced, c', s')))))"

definition controller_Shutdown :: "kube_controller \<Rightarrow> kube_controller" where
  "controller_Shutdown c = c\<lparr>kc_started := False\<rparr>"

end
