(* ===== verification/KubeIndex.thy ===== *)
theory KubeIndex
  imports KubeAgent "HOL-Library.Multiset"
begin

text \<open>
  What the Kubernetes agent relies on and what follows. The locale \<open>kube_store\<close> extends the interface of
  the graph builders by reading and deleting resources; the resource store provides it. The locale
  \<open>kube_indexer\<close> adds what the API machinery promises: an object is indexed with all its relationships as
  soon as the node it names is stored, and a pod before its node leaves the store alone and is retried.
\<close>

section \<open>The interface\<close>

definition plain_resource :: "resource \<Rightarrow> bool" where
  "plain_resource r \<longleftrightarrow> rsrc_metadata r \<noteq> None \<and> plain_ref (ref r)"

text \<open>
  The store is shared with the builders of the hardware and container graphs, whose nodes live outside the
  Kubernetes namespace. They stay out of the agent's way as long as their names do not imitate the path
  of a Kubernetes reference.
\<close>

definition kube_like :: "resource_ref \<Rightarrow> bool" where
  "kube_like p = (case split_on (CHR ''/'') (name_path p) of [ns, _, _, _] \<Rightarrow> ns = kubeNs | _ \<Rightarrow> False)"

definition safe_resource :: "resource \<Rightarrow> bool" where
  "safe_resource r \<longleftrightarrow> rsrc_metadata r \<noteq> None \<and> (kube_like (ref r) \<longrightarrow> plain_ref (ref r))"

lemma safe_resource_stamped [simp]: "safe_resource (stamped c u r) = safe_resource r"
  by (simp add: safe_resource_def)

lemma plain_safe: "plain_resource r \<Longrightarrow> safe_resource r"
  by (simp add: plain_resource_def safe_resource_def)

text \<open>Whatever has a name without a slash is safe, in any namespace: so are the nodes of containers.\<close>

lemma slash_free_safe:
  assumes "rsrc_metadata r = Some m" "slash_free (ref_name (ref r))"
    and "meta_namespace m = None \<or> (\<exists>h. meta_namespace m = Some (NamespaceHost h))"
  shows "safe_resource r"
proof -
  have "name_path (ref r) = ref_name (ref r)" using assms(1,3) by (auto simp: name_path_def ref_def)
  then have "\<not> kube_like (ref r)" using assms(2) by (simp add: kube_like_def slash_free_def split_on_single)
  then show ?thesis using assms(1) by (simp add: safe_resource_def)
qed

definition op_safe :: "store_op \<Rightarrow> bool" where
  "op_safe op \<longleftrightarrow> (case op of OpAdd _ r \<Rightarrow> safe_resource r | OpUpdate _ r \<Rightarrow> safe_resource r | _ \<Rightarrow> True)"

locale kube_store = graph_store "ko_store ops" inv keys rels storable addable
  for ops :: "'s kube_ops" and inv :: "'s \<Rightarrow> bool" and keys :: "'s \<Rightarrow> bytes set"
    and rels :: "'s \<Rightarrow> relationship set" and storable :: "resource \<Rightarrow> bool" and addable :: "relationship \<Rightarrow> bool" +
  assumes get_missing: "inv s \<Longrightarrow> encodeResourceKey (Some p) = Inr k \<Longrightarrow> k \<notin> keys s \<Longrightarrow>
      so_get ops (Some p) s = Inl ErrResourceNotFound"
    and get_stored: "inv s \<Longrightarrow> encodeResourceKey (Some p) = Inr k \<Longrightarrow> k \<in> keys s \<Longrightarrow>
      \<exists>r. so_get ops (Some p) s = Inr r \<and> safe_resource r \<and> encodeResourceKey (Some (ref r)) = Inr k"
    and delete_ok: "inv s \<Longrightarrow> encodeResourceKey (Some p) = Inr k \<Longrightarrow>
      \<exists>s'. so_delete ops (Some p) s = (None, s') \<and> inv s' \<and> keys s' = keys s - {k} \<and>
        rels s' = {rel \<in> rels s. \<not> mentions k rel}"

section \<open>The resource store provides it\<close>

definition resource_kube_ops :: "('t, 'i) kv \<Rightarrow> codec \<Rightarrow> (bytes list \<Rightarrow> bytes list) \<Rightarrow> (nat \<Rightarrow> timestamp) \<Rightarrow>
    (nat \<times> 't store) kube_ops" where
  "resource_kube_ops kv env arrange clock =
     \<lparr>ko_store = resource_store_ops kv env arrange clock,
      so_get = (\<lambda>p (n, s). GetResource kv env p s),
      so_delete = (\<lambda>p (n, s). case DeleteResource kv env arrange (clock n) p s of (e, s') \<Rightarrow> (e, (Suc n, s')))\<rparr>"

text \<open>Besides the invariant of the builders: what is stored under a key is a resource with that key.\<close>

definition keyed :: "('t, 'i) kv \<Rightarrow> codec \<Rightarrow> nat \<times> 't store \<Rightarrow> bool" where
  "keyed kv env x \<longleftrightarrow> (\<forall>k w r. kv_map kv (st_db (snd x)) (rsrc_key k) = Some w \<longrightarrow> unmarshal_resource env w = Some r \<longrightarrow>
     safe_resource r \<and> encodeResourceKey (Some (ref r)) = Inr k)"

definition kube_inv :: "('t, 'i) kv \<Rightarrow> codec \<Rightarrow> bytes set \<Rightarrow> nat \<times> 't store \<Rightarrow> bool" where
  "kube_inv kv env U x \<longleftrightarrow> graph_inv kv env U x \<and> keyed kv env x"

context store_env
begin

abbreviation kube_store_ops :: "(nat \<times> 't store) kube_ops" where
  "kube_store_ops \<equiv> resource_kube_ops kv env arrange clock"

lemma kube_update:
  assumes "kube_inv kv env U x" "safe_resource r" "encodeResourceKey (Some (ref r)) = Inr k"
  shows "\<exists>y. so_update (ko_store kube_store_ops) r x = Inr y \<and> kube_inv kv env U y \<and>
    stored_keys kv y = insert k (stored_keys kv x) \<and> stored_rels kv env y = stored_rels kv env x"
proof -
  have x: "graph_inv kv env U x" "keyed kv env x" "rsrc_metadata r \<noteq> None"
    using assms(1,2) by (simp_all add: kube_inv_def safe_resource_def)
  from store_update [OF x(1,3) assms(3)] obtain y where y: "so_update (resource_store_ops kv env arrange clock) r x = Inr y"
    "graph_inv kv env U y" "stored_keys kv y = insert k (stored_keys kv x)" "stored_rels kv env y = stored_rels kv env x" by blast
  from store_written [OF x(1,3) assms(3)] y(1) obtain v created where
    "kv_map kv (st_db (snd y)) = (kv_map kv (st_db (snd x)))(rsrc_key k \<mapsto> v)"
    "unmarshal_resource env v = Some (stamped created (clock (fst x)) r)" by auto
  then have "keyed kv env y" using x(2) assms(2,3) by (auto simp: keyed_def store_keys)
  then show ?thesis using y by (auto simp: kube_inv_def resource_kube_ops_def)
qed

lemma kube_relate:
  assumes "kube_inv kv env U x" "\<forall>rel \<in> set rs. writable env U rel \<and> rel_formed rel"
  shows "\<exists>y. so_relate (ko_store kube_store_ops) rs x = Inr y \<and> kube_inv kv env U y \<and>
    stored_keys kv y = stored_keys kv x \<and> stored_rels kv env y = stored_rels kv env x \<union> set rs"
  using store_relate_frame [OF _ assms(2), of x] assms(1)
  by (auto simp: kube_inv_def keyed_def resource_kube_ops_def stored_keys_def)

lemma kube_related:
  assumes "kube_inv kv env U x" "writable env U rel" "rel_formed rel"
  shows "so_related (ko_store kube_store_ops) (rel_subject rel) (rel_object rel) (rel_type_name rel) x =
    (if \<exists>r \<in> stored_rels kv env x. same_relation rel r then None else Some ErrRelationshipsNotFound)"
  using store_related [OF _ assms(2,3)] assms(1) by (simp add: kube_inv_def resource_kube_ops_def)

lemma kube_get:
  assumes "kube_inv kv env U x" "encodeResourceKey (Some p) = Inr k"
  shows "k \<notin> stored_keys kv x \<Longrightarrow> so_get kube_store_ops (Some p) x = Inl ErrResourceNotFound"
    and "k \<in> stored_keys kv x \<Longrightarrow> \<exists>r. so_get kube_store_ops (Some p) x = Inr r \<and> safe_resource r \<and> encodeResourceKey (Some (ref r)) = Inr k"
  using assms(1) GetResource_spec [OF laws _ assms(2), of "snd x"]
  by (fastforce simp: kube_inv_def graph_inv_def keyed_def stored_keys_def resource_kube_ops_def of_option_def
      split: prod.splits option.splits)+

lemma kube_delete:
  assumes "kube_inv kv env U x" "encodeResourceKey (Some p) = Inr k"
  shows "\<exists>y. so_delete kube_store_ops (Some p) x = (None, y) \<and> kube_inv kv env U y \<and>
    stored_keys kv y = stored_keys kv x - {k} \<and> stored_rels kv env y = {rel \<in> stored_rels kv env x. \<not> mentions k rel}"
proof -
  obtain n s where x: "x = (n, s)" by (cases x)
  have s: "\<not> st_closed s" "rels_inv kv env U (st_db s)" using assms(1) by (auto simp: kube_inv_def graph_inv_def x)
  obtain v where v: "marshal_resource env (deleted_resource (clock n) p) = Some v" using total by blast
  from DeleteResource_spec [OF laws rels_invD(1) [OF s(2)] s(1) assms(2) v, of arrange] obtain db where
    db: "DeleteResource kv env arrange (clock n) (Some p) s =
      (None, emit (resource_event EventTypeDelete (rsrc_type (deleted_resource (clock n) p)) resourceTypeUrl v) (s\<lparr>st_db := db\<rparr>))"
      "after_delete kv (st_db s) k db" by blast
  note rels = after_delete_inv [OF s(2) db(2)] delete_rel_stored [OF s(2) db(2)]
  have map: "kv_map kv db (rsrc_key k') = (if k' = k then None else kv_map kv (st_db s) (rsrc_key k'))" for k'
    using db(2) by (simp add: after_delete_def Let_def)
  let ?y = "(Suc n, emit (resource_event EventTypeDelete (rsrc_type (deleted_resource (clock n) p)) resourceTypeUrl v) (s\<lparr>st_db := db\<rparr>))"
  have "kube_inv kv env U ?y" using assms(1) rels(1) by (auto simp: kube_inv_def graph_inv_def keyed_def x map split: if_splits)
  moreover have "stored_keys kv ?y = stored_keys kv x - {k}" by (auto simp: stored_keys_def x map)
  moreover have "stored_rels kv env ?y = {rel \<in> stored_rels kv env x. \<not> mentions k rel}" by (auto simp: stored_rels_def x rels(2))
  ultimately show ?thesis by (simp add: resource_kube_ops_def x db(1))
qed

text \<open>Every call of the store keeps the invariant, whoever makes it, as long as what it writes is safe.\<close>

lemma run_op_kube_inv:
  assumes "kube_inv kv env U (n, s)" "op_values env op \<subseteq> U" "op_safe op"
  shows "kube_inv kv env U (m, run_op kv env op s)"
proof -
  have s: "\<not> st_closed s" "rels_inv kv env U (st_db s)" using assms(1) by (auto simp: kube_inv_def graph_inv_def)
  note inv = run_op_inv [OF laws codec sha s(2) assms(2)]
  have "\<exists>r. unmarshal_resource env v = Some r \<and> safe_resource r \<and> encodeResourceKey (Some (ref r)) = Inr k"
    if v: "kv_map kv (st_db (run_op kv env op s)) (rsrc_key k) = Some v" for k v
    using run_op_resource [OF laws codec sha s(2) assms(2) v]
  proof
    assume "kv_map kv (st_db s) (rsrc_key k) = Some v"
    then show ?thesis using assms(1) unfolding kube_inv_def graph_inv_def keyed_def by force
  next
    assume "\<exists>now r c u. (op = OpAdd now r \<or> op = OpUpdate now r) \<and> encodeResourceKey (Some (ref r)) = Inr k \<and>
       rsrc_metadata r \<noteq> None \<and> unmarshal_resource env v = Some (stamped c u r)"
    then show ?thesis using assms(3) by (auto simp: op_safe_def)
  qed
  then show ?thesis using inv s(1) by (fastforce simp: kube_inv_def graph_inv_def keyed_def)
qed

lemma run_ops_kube_inv:
  assumes "kube_inv kv env U (n, s)" "\<forall>op \<in> set ops. op_values env op \<subseteq> U \<and> op_safe op"
  shows "kube_inv kv env U (m, run_ops kv env ops s)"
  using assms
proof (induction ops arbitrary: s n)
  case Nil then show ?case by (simp add: kube_inv_def graph_inv_def keyed_def)
next
  case (Cons op ops)
  from Cons.IH [OF run_op_kube_inv [OF Cons.prems(1)]] Cons.prems(2) show ?case by simp
qed

end

sublocale store_env \<subseteq> kube: kube_store "resource_kube_ops kv env arrange clock" "kube_inv kv env U" "stored_keys kv"
    "stored_rels kv env" safe_resource "writable env U"
  by unfold_locales (fact kube_update kube_related kube_relate kube_get kube_delete)+

section \<open>The relationships of an object\<close>

text \<open>
  What \<open>generate\<close> should produce: the object in its cluster, its owners, the node and the claims of a pod,
  the volume of a claim, each in both directions.
\<close>

definition relation_pair :: "kube_env \<Rightarrow> kube_message \<Rightarrow> kube_message \<Rightarrow> resource_ref \<Rightarrow> resource_ref \<Rightarrow> relationship list" where
  "relation_pair env pr conv a b = [the (kube_relation env pr a b), the (kube_relation env conv b a)]"

definition owner_ref :: "kube_env \<Rightarrow> bytes \<Rightarrow> kube_object \<Rightarrow> owner_reference \<Rightarrow> resource_ref" where
  "owner_ref env cluster obj r =
     kube_ref (ke_name env (kind_of (the (the (ke_new env (own_APIVersion r) (own_Kind r)))))) cluster (ob_namespace obj) (own_Name r)"

definition node_ref :: "kube_env \<Rightarrow> bytes \<Rightarrow> bytes \<Rightarrow> resource_ref" where
  "node_ref env cluster n = kube_ref (ke_name env NodeKind) cluster '''' n"

definition spec_rels :: "kube_env \<Rightarrow> bytes \<Rightarrow> kube_object \<Rightarrow> relationship list" where
  "spec_rels env cluster obj =
     (case ob_spec obj of
        Pod n volumes \<Rightarrow>
          (if n = '''' then [] else relation_pair env KubeContains KubeContainedBy (node_ref env cluster n) (object_ref env cluster obj)) @
          concat (map (\<lambda>claim. relation_pair env AttachedTo VolumeMount
              (kube_ref (ke_name env PersistentVolumeClaimKind) cluster (ob_namespace obj) claim) (object_ref env cluster obj))
            (List.map_filter id volumes))
      | PersistentVolumeClaim v \<Rightarrow>
          if v = '''' then [] else relation_pair env ClaimsFrom BoundBy (object_ref env cluster obj)
            (kube_ref (ke_name env PersistentVolumeKind) cluster '''' v)
      | _ \<Rightarrow> [])"

definition object_rels :: "kube_env \<Rightarrow> bytes \<Rightarrow> kube_object \<Rightarrow> relationship list" where
  "object_rels env cluster obj =
     relation_pair env KubeContains KubeContainedBy (cluster_ref cluster) (object_ref env cluster obj) @
     concat (map (\<lambda>r. relation_pair env Owns OwnedBy (owner_ref env cluster obj r) (object_ref env cluster obj)) (ob_owners obj)) @
     spec_rels env cluster obj"

definition key_of :: "resource_ref \<Rightarrow> bytes" where
  "key_of p = projr (encodeResourceKey (Some p))"

text \<open>The reference of the node a pod has to wait for.\<close>

definition awaited :: "kube_env \<Rightarrow> bytes \<Rightarrow> kube_object \<Rightarrow> resource_ref option" where
  "awaited env cluster obj =
     (case ob_spec obj of Pod n _ \<Rightarrow> if n = '''' then None else Some (node_ref env cluster n) | _ \<Rightarrow> None)"

text \<open>
  Objects that can be indexed: of a watched kind, with names the API server accepts (no slash), not owned by
  themselves, and owned by objects whose kinds the scheme knows. An owner may well be a custom resource,
  whose kind the scheme does not know.
\<close>

definition owners_known :: "kube_env \<Rightarrow> kube_object \<Rightarrow> bool" where
  "owners_known env obj \<longleftrightarrow>
     list_all (\<lambda>r. case ke_new env (own_APIVersion r) (own_Kind r) of Some (Some _) \<Rightarrow> True | _ \<Rightarrow> False) (ob_owners obj)"

definition well_named :: "kube_env \<Rightarrow> bytes \<Rightarrow> kube_object \<Rightarrow> bool" where
  "well_named env cluster obj \<longleftrightarrow>
     (\<forall>n. ob_spec obj \<noteq> OtherObject n) \<and> slash_free (ob_name obj) \<and> slash_free (ob_namespace obj) \<and>
     (\<forall>n vs. ob_spec obj = Pod n vs \<longrightarrow> slash_free n) \<and>
     (\<forall>r \<in> set (ob_owners obj). case ke_new env (own_APIVersion r) (own_Kind r) of
        Some (Some _) \<Rightarrow> owner_ref env cluster obj r \<noteq> object_ref env cluster obj | _ \<Rightarrow> True)"

definition indexable :: "kube_env \<Rightarrow> bytes \<Rightarrow> kube_object \<Rightarrow> bool" where
  "indexable env cluster obj \<longleftrightarrow> well_named env cluster obj \<and> owners_known env obj"

lemma owners_knownD:
  "owners_known env obj \<Longrightarrow> \<forall>r \<in> set (ob_owners obj). \<exists>spec. ke_new env (own_APIVersion r) (own_Kind r) = Some (Some spec)"
  unfolding owners_known_def list_all_iff by (fastforce split: option.split_asm)

lemma kube_ref_eq_iff [simp]: "kube_ref t c ns n = kube_ref t' c' ns' n' \<longleftrightarrow> t = t' \<and> c = c' \<and> ns = ns' \<and> n = n'"
  by (auto simp: kube_ref_def)

lemma cluster_ref_neq [simp]: "cluster_ref c \<noteq> kube_ref t c' ns n" "kube_ref t c' ns n \<noteq> cluster_ref c"
  by (simp_all add: cluster_ref_def kube_ref_def)

lemma plain_kube_ref [simp]: "plain_ref (kube_ref t c ns n) \<longleftrightarrow> slash_free n \<and> slash_free c \<and> slash_free ns"
  by (simp add: plain_ref_def kube_ref_def)

lemma encode_kube_ref: "t \<noteq> '''' \<Longrightarrow> \<exists>k. encodeResourceKey (Some (kube_ref t c ns n)) = Inr k"
  by (simp add: encodeResourceKey_def kube_ref_def)

lemma safe_key:
  assumes "safe_resource r" "encodeResourceKey (Some (ref r)) = Inr k" "encodeResourceKey (Some p) = Inr k"
    and "plain_ref p" "p = kube_ref t c ns n"
  shows "ref r = p"
proof -
  have "name_path (ref r) = name_path p" using encode_eq_iff [OF assms(2,3)] by simp
  then have "split_on (CHR ''/'') (name_path (ref r)) = [kubeNs, c, ns, n]"
    using split_name_path [OF assms(4)] by (simp add: assms(5) path_parts_def kube_ref_def)
  then have "plain_ref (ref r)" using assms(1) by (simp add: safe_resource_def kube_like_def)
  with encode_plain_inject [OF _ assms(4) assms(2,3)] show ?thesis by simp
qed

lemma ref_generated [simp]:
  "ref (base_resource env cluster obj data) = object_ref env cluster obj"
  "ref (set_place region zone r) = ref r"
  "plain_resource (set_place region zone r) = plain_resource r"
  "plain_resource (base_resource env cluster obj data) = plain_ref (object_ref env cluster obj)"
  by (auto simp: base_resource_def ref_def object_ref_def kube_ref_def empty_meta_def set_place_def plain_resource_def get_or_def
      split: option.splits)

section \<open>Indexing\<close>

locale kube_indexer = kube_store ops inv keys rels safe_resource addable
  for ops :: "'s kube_ops" and inv :: "'s \<Rightarrow> bool" and keys :: "'s \<Rightarrow> bytes set"
    and rels :: "'s \<Rightarrow> relationship set" and addable :: "relationship \<Rightarrow> bool" +
  fixes env :: kube_env and i :: indexer
  assumes marshals: "ke_marshal env obj \<noteq> None" and anys: "ke_any env m \<noteq> None"
    and registers: "ke_registered env (kube_message_name m)"
    and names: "inj (ke_name env)" and named: "ke_name env k \<noteq> ''''" and plain_cluster: "slash_free (ix_clusterName i)"
begin

lemma kube_relation_total: "\<exists>rel. kube_relation env p a b = Some rel"
  using anys [of p] by (simp add: kube_relation_def any_new_def)

lemma two_way_pair: "two_way env pr conv a b = Inr (relation_pair env pr conv a b)"
  using kube_relation_total [of pr a b] kube_relation_total [of conv b a] by (auto simp: two_way_def relation_pair_def)

lemma relation_pair_ok:
  assumes "a \<noteq> b" "rel \<in> set (relation_pair env pr conv a b)"
  shows "rel_formed rel \<and> ke_registered env (rel_type_name rel)"
  using assms anys [of pr] anys [of conv] registers
  by (auto simp: relation_pair_def kube_relation_def any_new_def rel_formed_def predicate_name_def rel_type_name_def
      trim_prefix_def has_prefix_def)

lemma owners_ok:
  assumes "\<forall>r \<in> set rs. \<exists>spec. ke_new env (own_APIVersion r) (own_Kind r) = Some (Some spec)"
  shows "\<exists>owners. owner_objects env (ob_namespace obj) rs = Inr owners \<and>
    owner_relations env cluster objRef owners =
      Inr (concat (map (\<lambda>r. relation_pair env Owns OwnedBy (owner_ref env cluster obj r) objRef) rs))"
  using assms
proof (induction rs)
  case (Cons r rs)
  then obtain spec owners where "ke_new env (own_APIVersion r) (own_Kind r) = Some (Some spec)"
    "owner_objects env (ob_namespace obj) rs = Inr owners"
    "owner_relations env cluster objRef owners =
      Inr (concat (map (\<lambda>r. relation_pair env Owns OwnedBy (owner_ref env cluster obj r) objRef) rs))" by auto
  then show ?case by (simp add: two_way_pair owner_ref_def object_ref_def)
qed simp

lemma volumes_ok:
  "volume_relations env cluster obj vs = Inr (concat (map (\<lambda>claim. relation_pair env AttachedTo VolumeMount
     (kube_ref (ke_name env PersistentVolumeClaimKind) cluster (ob_namespace obj) claim) (object_ref env cluster obj))
   (List.map_filter id vs)))"
proof (induction vs)
  case (Cons v vs) then show ?case by (cases v) (simp_all add: two_way_pair map_filter_simps)
qed (simp add: map_filter_simps)

lemma object_rels_ok:
  assumes "indexable env cluster obj" "rel \<in> set (object_rels env cluster obj)"
  shows "rel_formed rel \<and> ke_registered env (rel_type_name rel)"
proof -
  have kinds: "ke_name env k = ke_name env k' \<longleftrightarrow> k = k'" for k k' using names by (simp add: inj_eq)
  have owned: "\<forall>r \<in> set (ob_owners obj). owner_ref env cluster obj r \<noteq> object_ref env cluster obj"
    using assms(1) owners_knownD unfolding indexable_def well_named_def by fastforce
  have "\<exists>pr conv a b. rel \<in> set (relation_pair env pr conv a b) \<and> a \<noteq> b" if "rel \<in> set (spec_rels env cluster obj)"
    using that by (cases "ob_spec obj") (fastforce simp: spec_rels_def object_ref_def node_ref_def kinds split: if_splits)+
  moreover have "cluster_ref cluster \<noteq> object_ref env cluster obj" by (simp add: object_ref_def)
  ultimately have "\<exists>pr conv a b. rel \<in> set (relation_pair env pr conv a b) \<and> a \<noteq> b"
    using assms(2) owned unfolding object_rels_def by fastforce
  then show ?thesis using relation_pair_ok by blast
qed

end

context kube_indexer
begin

abbreviation cluster :: bytes where "cluster \<equiv> ix_clusterName i"

lemma kube_key: "encodeResourceKey (Some (kube_ref (ke_name env k) c ns n)) = Inr (key_of (kube_ref (ke_name env k) c ns n))"
  using encode_kube_ref [OF named] unfolding key_of_def by (metis sum.sel(2))

lemma object_key_enc: "encodeResourceKey (Some (object_ref env cluster obj)) = Inr (key_of (object_ref env cluster obj))"
  unfolding object_ref_def by (rule kube_key)

lemma generate_ok:
  assumes "indexable env cluster obj" "\<And>p. awaited env cluster obj = Some p \<Longrightarrow> \<exists>r. so_get ops (Some p) s = Inr r \<and> rsrc_metadata r \<noteq> None \<and> ref r = p"
  shows "\<exists>rsrc. generate env ops cluster obj s = Inr (rsrc, object_rels env cluster obj) \<and> plain_resource rsrc \<and>
    ref rsrc = object_ref env cluster obj"
proof -
  let ?R = "object_ref env cluster obj"
  obtain owners where owners: "owner_objects env (ob_namespace obj) (ob_owners obj) = Inr owners"
    "owner_relations env cluster ?R owners =
      Inr (concat (map (\<lambda>r. relation_pair env Owns OwnedBy (owner_ref env cluster obj r) ?R) (ob_owners obj)))"
    using owners_ok [OF owners_knownD, of obj obj cluster ?R] assms(1) by (auto simp: indexable_def)
  obtain data where data: "ke_marshal env obj = Some data" using marshals by blast
  have plain: "plain_ref ?R" using assms(1) plain_cluster by (simp add: indexable_def well_named_def object_ref_def)
  let ?base = "relation_pair env KubeContains KubeContainedBy (cluster_ref cluster) ?R @
     concat (map (\<lambda>r. relation_pair env Owns OwnedBy (owner_ref env cluster obj r) ?R) (ob_owners obj))"
  have base: "genBase env cluster obj owners = Inr (base_resource env cluster obj data, ?base)"
    by (simp add: genBase_def data Let_def two_way_pair owners(2))
  note gen = generate_def owners(1) object_rels_def spec_rels_def base genNode_def genPersistentVolume_def
    genPersistentVolumeClaim_def genPod_def two_way_pair volumes_ok node_ref_def [symmetric]
  show ?thesis
  proof (cases "ob_spec obj")
    case (Pod n vs)
    show ?thesis
    proof (cases "n = ''''")
      case False
      then have "awaited env cluster obj = Some (node_ref env cluster n)" by (simp add: awaited_def Pod)
      from assms(2) [OF this] obtain r where "so_get ops (Some (node_ref env cluster n)) s = Inr r"
        "rsrc_metadata r \<noteq> None" "ref r = node_ref env cluster n" by blast
      then show ?thesis using False plain by (auto simp: gen Pod)
    qed (use plain in \<open>simp add: gen Pod\<close>)
  qed (use assms(1) plain in \<open>simp_all add: gen indexable_def well_named_def\<close>)
qed

text \<open>A pod whose node is not stored leaves the store alone and is to be tried again.\<close>

lemma update_waits:
  assumes "inv s" "indexable env cluster obj" "awaited env cluster obj = Some p" "encodeResourceKey (Some p) = Inr k" "k \<notin> keys s"
  shows "indexer_Update env ops i obj s = (Some (RetryableError ErrResourceNotFound), s)"
proof -
  obtain n vs where pod: "ob_spec obj = Pod n vs" "n \<noteq> ''''" "p = kube_ref (ke_name env NodeKind) cluster '''' n"
    using assms(3) by (auto simp: awaited_def node_ref_def split: kube_spec.splits if_splits)
  have get: "so_get ops (Some (kube_ref (ke_name env NodeKind) cluster '''' n)) s = Inl ErrResourceNotFound"
    using get_missing [OF assms(1,4,5)] by (simp add: pod(3))
  obtain owners where owners: "owner_objects env (ob_namespace obj) (ob_owners obj) = Inr owners"
    "owner_relations env cluster (object_ref env cluster obj) owners =
      Inr (concat (map (\<lambda>r. relation_pair env Owns OwnedBy (owner_ref env cluster obj r) (object_ref env cluster obj)) (ob_owners obj)))"
    using owners_ok [OF owners_knownD, of obj obj cluster "object_ref env cluster obj"] assms(2) by (auto simp: indexable_def)
  obtain data where data: "ke_marshal env obj = Some data" using marshals by blast
  show ?thesis
    by (simp add: indexer_Update_def generate_def owners pod genPod_def genBase_def data Let_def two_way_pair get)
qed

text \<open>An owner whose kind the scheme does not know stops the indexing for good, before the store is touched.\<close>

lemma owner_unknown:
  "\<not> list_all (\<lambda>r. case ke_new env (own_APIVersion r) (own_Kind r) of Some (Some _) \<Rightarrow> True | _ \<Rightarrow> False) rs \<Longrightarrow>
    \<exists>e. owner_objects env ns rs = Inl e \<and> \<not> Retryable e"
  by (induction rs) (auto simp: Retryable_def split: option.split)

lemma update_refused:
  assumes "\<not> owners_known env obj"
  shows "\<exists>e. indexer_Update env ops i obj s = (Some e, s) \<and> \<not> Retryable e"
  using owner_unknown [of "ob_owners obj" "ob_namespace obj"] assms
  by (auto simp: owners_known_def indexer_Update_def generate_def)

text \<open>Otherwise the object and all its relationships are stored.\<close>

lemma update_indexes:
  assumes "inv s" "indexable env cluster obj" "\<forall>rel \<in> set (object_rels env cluster obj). addable rel"
    and "\<And>p. awaited env cluster obj = Some p \<Longrightarrow> \<exists>k \<in> keys s. encodeResourceKey (Some p) = Inr k"
  shows "\<exists>s'. indexer_Update env ops i obj s = (None, s') \<and> inv s' \<and> keys s' = insert (key_of (object_ref env cluster obj)) (keys s) \<and>
    rels s' = rels s \<union> {rel \<in> set (object_rels env cluster obj). \<not> (\<exists>r \<in> rels s. same_relation rel r)} \<and>
    (\<forall>rel \<in> set (object_rels env cluster obj). \<exists>r \<in> rels s'. same_relation rel r)"
proof -
  have "\<exists>r. so_get ops (Some p) s = Inr r \<and> rsrc_metadata r \<noteq> None \<and> ref r = p" if p: "awaited env cluster obj = Some p" for p
  proof -
    obtain k where k: "k \<in> keys s" "encodeResourceKey (Some p) = Inr k" using assms(4) [OF p] by blast
    from get_stored [OF assms(1) k(2,1)] obtain r where r: "so_get ops (Some p) s = Inr r" "safe_resource r"
      "encodeResourceKey (Some (ref r)) = Inr k" by blast
    obtain n where p': "p = kube_ref (ke_name env NodeKind) cluster '''' n" "plain_ref p"
      using p assms(2) plain_cluster
      by (auto simp: awaited_def node_ref_def indexable_def well_named_def slash_free_def split: kube_spec.splits if_splits)
    show ?thesis using safe_key [OF r(2,3) k(2) p'(2) p'(1)] r by (auto simp: safe_resource_def)
  qed
  with generate_ok [OF assms(2)] obtain rsrc where gen: "generate env ops cluster obj s = Inr (rsrc, object_rels env cluster obj)"
    "plain_resource rsrc" "ref rsrc = object_ref env cluster obj" by blast
  from update_ok [OF assms(1) plain_safe [OF gen(2)]] gen(3) object_key_enc obtain s1 where
    s1: "so_update (ko_store ops) rsrc s = Inr s1" "inv s1" "keys s1 = insert (key_of (object_ref env cluster obj)) (keys s)" "rels s1 = rels s" by metis
  let ?rs = "object_rels env cluster obj"
  have rs: "\<forall>rel \<in> set ?rs. addable rel \<and> rel_formed rel \<and> ke_registered env (rel_type_name rel)"
    using assms(3) object_rels_ok [OF assms(2)] by blast
  from add_ok [OF s1(2) this] obtain s2 where s2: "graph_addRelationships (ke_registered env) (ko_store ops) ?rs s1 = (None, s2)"
    "inv s2" "keys s2 = keys s1" "rels s2 = rels s1 \<union> {rel \<in> set ?rs. \<not> (\<exists>r \<in> rels s1. same_relation rel r)}" by blast
  have "\<forall>rel \<in> set ?rs. \<exists>r \<in> rels s2. same_relation rel r"
    using s2(4) rs same_relation_refl by fastforce
  then show ?thesis using gen s1 s2 by (auto simp: indexer_Update_def)
qed

end

section \<open>The worker\<close>

text \<open>An object and, up to the store's notion of the same relationship, all its relationships are stored.\<close>

definition kube_indexed :: "kube_env \<Rightarrow> bytes \<Rightarrow> bytes set \<Rightarrow> relationship set \<Rightarrow> kube_object \<Rightarrow> bool" where
  "kube_indexed env cluster ks rs obj \<longleftrightarrow> key_of (object_ref env cluster obj) \<in> ks \<and>
     (\<forall>rel \<in> set (object_rels env cluster obj). \<exists>r \<in> rs. same_relation rel r)"

definition waits :: "kube_env \<Rightarrow> bytes \<Rightarrow> bytes set \<Rightarrow> kube_object \<Rightarrow> bool" where
  "waits env cluster ks obj \<longleftrightarrow> (\<exists>p. awaited env cluster obj = Some p \<and> key_of p \<notin> ks)"

definition good_event :: "kube_env \<Rightarrow> bytes \<Rightarrow> (relationship \<Rightarrow> bool) \<Rightarrow> kube_event \<Rightarrow> bool" where
  "good_event env cluster addable ev \<longleftrightarrow> fst ev \<noteq> EventDelete \<and> indexable env cluster (snd ev) \<and>
     (\<forall>rel \<in> set (object_rels env cluster (snd ev)). addable rel)"

text \<open>An addition or update of an object with a proper name, whose owners may be of any kind.\<close>

definition proper_event :: "kube_env \<Rightarrow> bytes \<Rightarrow> (relationship \<Rightarrow> bool) \<Rightarrow> kube_event \<Rightarrow> bool" where
  "proper_event env cluster addable ev \<longleftrightarrow> fst ev \<noteq> EventDelete \<and> well_named env cluster (snd ev) \<and>
     (owners_known env (snd ev) \<longrightarrow> (\<forall>rel \<in> set (object_rels env cluster (snd ev)). addable rel))"

lemma proper_good: "proper_event env cluster addable ev \<Longrightarrow> owners_known env (snd ev) \<Longrightarrow> good_event env cluster addable ev"
  by (simp add: proper_event_def good_event_def indexable_def)

lemma kube_indexed_mono: "kube_indexed env cluster ks rs obj \<Longrightarrow> ks \<subseteq> ks' \<Longrightarrow> rs \<subseteq> rs' \<Longrightarrow> kube_indexed env cluster ks' rs' obj"
  unfolding kube_indexed_def by blast

context kube_indexer
begin

lemma awaited_key: "awaited env cluster obj = Some p \<Longrightarrow> encodeResourceKey (Some p) = Inr (key_of p)"
  using kube_key by (auto simp: awaited_def node_ref_def split: kube_spec.splits if_splits)

lemma turn:
  assumes "inv s" "good_event env cluster addable ev"
  shows "if waits env cluster (keys s) (snd ev) then worker_turn env ops i ev (q, s) = (remove1 ev q @ [ev], s)
    else \<exists>s'. worker_turn env ops i ev (q, s) = (remove1 ev q, s') \<and> inv s' \<and> kube_indexed env cluster (keys s') (rels s') (snd ev) \<and>
      keys s' = insert (key_of (object_ref env cluster (snd ev))) (keys s) \<and> rels s \<subseteq> rels s'"
proof -
  obtain t obj where ev: "ev = (t, obj)" by (cases ev)
  have good: "indexable env cluster obj" "\<forall>rel \<in> set (object_rels env cluster obj). addable rel"
    and update: "index_event env ops i ev s = indexer_Update env ops i obj s"
    using assms(2) by (cases t; simp add: good_event_def index_event_def ev)+
  show ?thesis
  proof (cases "waits env cluster (keys s) obj")
    case True
    then obtain p where p: "awaited env cluster obj = Some p" "key_of p \<notin> keys s" by (auto simp: waits_def)
    from update_waits [OF assms(1) good(1) p(1) awaited_key [OF p(1)] p(2)] True show ?thesis
      by (simp add: worker_turn_def indexObjects_def update [unfolded ev] Retryable_def requeued_def ev)
  next
    case False
    then have "\<exists>k \<in> keys s. encodeResourceKey (Some p) = Inr k" if "awaited env cluster obj = Some p" for p
      using that awaited_key [OF that] by (auto simp: waits_def)
    from update_indexes [OF assms(1) good this] obtain s' where
      s': "indexer_Update env ops i obj s = (None, s')" "inv s'" "keys s' = insert (key_of (object_ref env cluster obj)) (keys s)"
      "rels s' = rels s \<union> {rel \<in> set (object_rels env cluster obj). \<not> (\<exists>r \<in> rels s. same_relation rel r)}"
      "\<forall>rel \<in> set (object_rels env cluster obj). \<exists>r \<in> rels s'. same_relation rel r" by blast
    have "worker_turn env ops i ev (q, s) = (remove1 ev q, s')"
      by (simp add: worker_turn_def indexObjects_def update s'(1) requeued_def)
    moreover have "kube_indexed env cluster (keys s') (rels s') obj" using s'(3,5) by (simp add: kube_indexed_def)
    ultimately show ?thesis using False s' by (auto simp: ev)
  qed
qed

lemma turn_dropped:
  assumes "proper_event env cluster addable ev" "\<not> owners_known env (snd ev)"
  shows "worker_turn env ops i ev (q, s) = (remove1 ev q, s)"
proof -
  obtain t obj where ev: "ev = (t, obj)" by (cases ev)
  have "index_event env ops i ev s = indexer_Update env ops i obj s"
    using assms(1) by (cases t; simp add: proper_event_def index_event_def ev)
  then show ?thesis using update_refused [of obj s] assms(2)
    by (auto simp: worker_turn_def indexObjects_def requeued_def ev)
qed

text \<open>
  One pass over waiting events, in any order: each is indexed, or dropped because the kind of an owner is
  unknown, or goes back because its node was not stored before.
\<close>

lemma pass:
  assumes "inv s" "\<forall>ev \<in> set evs. proper_event env cluster addable ev" "mset q = mset evs + mset rest"
  shows "\<exists>q' s' retry. fold (worker_turn env ops i) evs (q, s) = (q', s') \<and> inv s' \<and> mset q' = mset rest + mset retry \<and>
    keys s \<subseteq> keys s' \<and> rels s \<subseteq> rels s' \<and>
    set retry \<subseteq> {ev \<in> set evs. owners_known env (snd ev) \<and> waits env cluster (keys s) (snd ev)} \<and>
    (\<forall>ev \<in> set evs - set retry. owners_known env (snd ev) \<longrightarrow> kube_indexed env cluster (keys s') (rels s') (snd ev))"
  using assms
proof (induction evs arbitrary: s q rest)
  case (Cons ev evs)
  note turn = turn [OF Cons.prems(1), of ev q]
  consider (waiting) "owners_known env (snd ev)" "waits env cluster (keys s) (snd ev)"
    | (through) "owners_known env (snd ev)" "\<not> waits env cluster (keys s) (snd ev)" | (dropped) "\<not> owners_known env (snd ev)" by blast
  then show ?case
  proof cases
    case waiting
    have "mset (remove1 ev q @ [ev]) = mset evs + mset (rest @ [ev])" using Cons.prems(3) by simp
    from Cons.IH [OF Cons.prems(1) _ this] Cons.prems(2) obtain q' s' retry where
      IH: "fold (worker_turn env ops i) evs (remove1 ev q @ [ev], s) = (q', s')" "inv s'" "mset q' = mset (rest @ [ev]) + mset retry"
      "keys s \<subseteq> keys s'" "rels s \<subseteq> rels s'"
      "set retry \<subseteq> {ev \<in> set evs. owners_known env (snd ev) \<and> waits env cluster (keys s) (snd ev)}"
      "\<forall>ev \<in> set evs - set retry. owners_known env (snd ev) \<longrightarrow> kube_indexed env cluster (keys s') (rels s') (snd ev)" by auto
    show ?thesis
      by (rule exI [of _ q'], rule exI [of _ s'], rule exI [of _ "ev # retry"])
        (use IH turn waiting Cons.prems(2) proper_good in auto)
  next
    case through
    with turn Cons.prems(2) proper_good obtain s1 where s1: "worker_turn env ops i ev (q, s) = (remove1 ev q, s1)" "inv s1"
      "kube_indexed env cluster (keys s1) (rels s1) (snd ev)" "keys s1 = insert (key_of (object_ref env cluster (snd ev))) (keys s)"
      "rels s \<subseteq> rels s1" by auto
    have "mset (remove1 ev q) = mset evs + mset rest" using Cons.prems(3) by simp
    from Cons.IH [OF s1(2) _ this] Cons.prems(2) obtain q' s' retry where
      IH: "fold (worker_turn env ops i) evs (remove1 ev q, s1) = (q', s')" "inv s'" "mset q' = mset rest + mset retry"
      "keys s1 \<subseteq> keys s'" "rels s1 \<subseteq> rels s'"
      "set retry \<subseteq> {ev \<in> set evs. owners_known env (snd ev) \<and> waits env cluster (keys s1) (snd ev)}"
      "\<forall>ev \<in> set evs - set retry. owners_known env (snd ev) \<longrightarrow> kube_indexed env cluster (keys s') (rels s') (snd ev)" by auto
    have "waits env cluster (keys s) (snd e)" if "waits env cluster (keys s1) (snd e)" for e using that s1(4) by (auto simp: waits_def)
    moreover have "kube_indexed env cluster (keys s') (rels s') (snd ev)" by (rule kube_indexed_mono [OF s1(3) IH(4,5)])
    ultimately show ?thesis
      by (intro exI [of _ q'] exI [of _ s'] exI [of _ retry]) (use IH s1 in auto)
  next
    case dropped
    have "mset (remove1 ev q) = mset evs + mset rest" using Cons.prems(3) by simp
    from Cons.IH [OF Cons.prems(1) _ this] Cons.prems(2) obtain q' s' retry where
      IH: "fold (worker_turn env ops i) evs (remove1 ev q, s) = (q', s')" "inv s'" "mset q' = mset rest + mset retry"
      "keys s \<subseteq> keys s'" "rels s \<subseteq> rels s'"
      "set retry \<subseteq> {ev \<in> set evs. owners_known env (snd ev) \<and> waits env cluster (keys s) (snd ev)}"
      "\<forall>ev \<in> set evs - set retry. owners_known env (snd ev) \<longrightarrow> kube_indexed env cluster (keys s') (rels s') (snd ev)" by auto
    show ?thesis
      by (intro exI [of _ q'] exI [of _ s'] exI [of _ retry]) (use IH turn_dropped Cons.prems(2) dropped in auto)
  qed
qed simp

text \<open>Two passes suffice when every node that is waited for is stored or among the events.\<close>

lemma two_passes:
  assumes "inv s" "\<forall>ev \<in> set evs. proper_event env cluster addable ev"
    and "\<forall>ev \<in> set evs. owners_known env (snd ev) \<longrightarrow> waits env cluster (keys s) (snd ev) \<longrightarrow>
      (\<exists>ev' \<in> set evs. ob_spec (snd ev') = Node \<and> owners_known env (snd ev') \<and>
        awaited env cluster (snd ev) = Some (object_ref env cluster (snd ev')))"
  shows "\<exists>q1 s1. fold (worker_turn env ops i) evs (evs, s) = (q1, s1) \<and>
    set q1 \<subseteq> {ev \<in> set evs. owners_known env (snd ev) \<and> waits env cluster (keys s) (snd ev)} \<and>
    (\<forall>again. mset again = mset q1 \<longrightarrow>
      (\<exists>s2. fold (worker_turn env ops i) again (q1, s1) = ([], s2) \<and>
        (\<forall>ev \<in> set evs. owners_known env (snd ev) \<longrightarrow> kube_indexed env cluster (keys s2) (rels s2) (snd ev))))"
proof -
  from pass [OF assms(1,2), of evs "[]"] obtain q1 s1 retry where
    p1: "fold (worker_turn env ops i) evs (evs, s) = (q1, s1)" "inv s1" "mset q1 = mset retry" "keys s \<subseteq> keys s1"
    "set retry \<subseteq> {ev \<in> set evs. owners_known env (snd ev) \<and> waits env cluster (keys s) (snd ev)}"
    "\<forall>ev \<in> set evs - set retry. owners_known env (snd ev) \<longrightarrow> kube_indexed env cluster (keys s1) (rels s1) (snd ev)" by auto
  have stored: "\<not> waits env cluster (keys s1) (snd ev)" if ev: "ev \<in> set retry" for ev
  proof -
    have ev: "ev \<in> set evs" "owners_known env (snd ev)" "waits env cluster (keys s) (snd ev)" using ev p1(5) by auto
    with assms(3) obtain ev' where ev': "ev' \<in> set evs" "ob_spec (snd ev') = Node" "owners_known env (snd ev')"
      "awaited env cluster (snd ev) = Some (object_ref env cluster (snd ev'))" by blast
    have "\<not> waits env cluster (keys s) (snd ev')" using ev'(2) by (simp add: waits_def awaited_def)
    then have "kube_indexed env cluster (keys s1) (rels s1) (snd ev')" using p1(5,6) ev'(1,3) by auto
    then show ?thesis using ev'(4) by (simp add: waits_def kube_indexed_def key_of_def)
  qed
  have "\<exists>s2. fold (worker_turn env ops i) again (q1, s1) = ([], s2) \<and>
      (\<forall>ev \<in> set evs. owners_known env (snd ev) \<longrightarrow> kube_indexed env cluster (keys s2) (rels s2) (snd ev))"
    if again: "mset again = mset q1" for again
  proof -
    have same: "set again = set retry" using again p1(3) by (metis set_mset_mset)
    then have "\<forall>ev \<in> set again. proper_event env cluster addable ev" using assms(2) p1(5) by auto
    from pass [OF p1(2) this, of q1 "[]"] again obtain q2 s2 retry2 where
      p2: "fold (worker_turn env ops i) again (q1, s1) = (q2, s2)" "mset q2 = mset retry2" "keys s1 \<subseteq> keys s2" "rels s1 \<subseteq> rels s2"
      "set retry2 \<subseteq> {ev \<in> set again. owners_known env (snd ev) \<and> waits env cluster (keys s1) (snd ev)}"
      "\<forall>ev \<in> set again - set retry2. owners_known env (snd ev) \<longrightarrow> kube_indexed env cluster (keys s2) (rels s2) (snd ev)" by auto
    have "set retry2 \<subseteq> {}" using p2(5) stored same by blast
    then have "retry2 = []" by simp
    then have "q2 = []" "\<forall>ev \<in> set retry. owners_known env (snd ev) \<longrightarrow> kube_indexed env cluster (keys s2) (rels s2) (snd ev)"
      using p2(2,6) same by auto
    moreover have "kube_indexed env cluster (keys s2) (rels s2) (snd ev)" if "ev \<in> set evs - set retry" "owners_known env (snd ev)" for ev
      using kube_indexed_mono [OF _ p2(3,4)] p1(6) that by blast
    ultimately show ?thesis using p2(1) by blast
  qed
  moreover have "set q1 = set retry" using p1(3) by (metis set_mset_mset)
  ultimately show ?thesis using p1(1,5) by blast
qed

end

context kube_indexer
begin

lemma delete_turn:
  assumes "inv s"
  shows "\<exists>s'. worker_turn env ops i (EventDelete, obj) (q, s) = (remove1 (EventDelete, obj) q, s') \<and> inv s' \<and>
    keys s' = keys s - {key_of (object_ref env cluster obj)} \<and>
    rels s' = {rel \<in> rels s. \<not> mentions (key_of (object_ref env cluster obj)) rel}"
  using delete_ok [OF assms(1) object_key_enc [of obj]]
  by (auto simp: worker_turn_def indexObjects_def index_event_def indexer_Delete_def requeued_def)

text \<open>
  A pod is added and deleted before its node is known: its first event goes back to the queue, the
  deletion finds nothing, and when the node has come the first event is tried again.
\<close>

lemma deleted_pod_returns:
  assumes "inv s" "good_event env cluster addable (EventAdd, pod)" "good_event env cluster addable (EventAdd, node)"
    and "awaited env cluster pod = Some (object_ref env cluster node)" "ob_spec node = Node"
    and "key_of (object_ref env cluster node) \<notin> keys s"
  shows "\<exists>s'. (kube_step env ops i)\<^sup>*\<^sup>* ([(EventAdd, pod), (EventDelete, pod), (EventAdd, node)], s) ([], s') \<and>
    kube_indexed env cluster (keys s') (rels s') pod"
proof -
  let ?add = "(EventAdd, pod)" and ?del = "(EventDelete, pod)" and ?node = "(EventAdd, node)"
  have neq: "pod \<noteq> node" using assms(4,5) by (auto simp: awaited_def)
  have alone: "\<not> waits env cluster ks node" for ks using assms(5) by (simp add: waits_def awaited_def)
  have "worker_turn env ops i ?add ([?add, ?del, ?node], s) = ([?del, ?node, ?add], s)"
    using turn [OF assms(1,2), of "[?add, ?del, ?node]"] assms(4,6) by (simp add: waits_def)
  then have 1: "kube_step env ops i ([?add, ?del, ?node], s) ([?del, ?node, ?add], s)"
    using kube_step.worker [of ?add "[?add, ?del, ?node]" env ops i s] by simp
  from delete_turn [OF assms(1), of pod "[?del, ?node, ?add]"] obtain s1 where s1: "inv s1"
    "worker_turn env ops i ?del ([?del, ?node, ?add], s) = ([?node, ?add], s1)" by auto
  have 2: "kube_step env ops i ([?del, ?node, ?add], s) ([?node, ?add], s1)"
    using kube_step.worker [of ?del "[?del, ?node, ?add]" env ops i s] s1(2) by simp
  from turn [OF s1(1) assms(3), of "[?node, ?add]"] alone obtain s2 where s2: "inv s2"
    "keys s2 = insert (key_of (object_ref env cluster node)) (keys s1)"
    "worker_turn env ops i ?node ([?node, ?add], s1) = ([?add], s2)" by auto
  have 3: "kube_step env ops i ([?node, ?add], s1) ([?add], s2)"
    using kube_step.worker [of ?node "[?node, ?add]" env ops i s1] s2(3) by simp
  have "\<not> waits env cluster (keys s2) pod" using assms(4) s2(2) by (simp add: waits_def)
  with turn [OF s2(1) assms(2), of "[?add]"] obtain s3 where s3: "kube_indexed env cluster (keys s3) (rels s3) pod"
    "worker_turn env ops i ?add ([?add], s2) = ([], s3)" by auto
  have 4: "kube_step env ops i ([?add], s2) ([], s3)"
    using kube_step.worker [of ?add "[?add]" env ops i s2] s3(2) by simp
  from 1 2 3 4 have "(kube_step env ops i)\<^sup>*\<^sup>* ([?add, ?del, ?node], s) ([], s3)"
    by (meson converse_rtranclp_into_rtranclp rtranclp.rtrancl_refl)
  then show ?thesis using s3(1) by blast
qed

text \<open>The relationship of an owner that is a node names no node: nodes have no namespace.\<close>

lemma node_owner_key:
  assumes "r \<in> set (ob_owners obj)" "ke_new env (own_APIVersion r) (own_Kind r) = Some (Some Node)" "ob_namespace obj \<noteq> ''''"
    and "slash_free (ob_namespace obj)" "slash_free (own_Name r)"
  shows "\<exists>rel \<in> set (object_rels env cluster obj). predicate_name rel = ''kubernetes.v1.Owns'' \<and>
    rel_object rel = Some (object_ref env cluster obj) \<and>
    (\<forall>node. ob_spec node = Node \<longrightarrow> ob_namespace node = '''' \<longrightarrow> slash_free (ob_name node) \<longrightarrow>
      encodeResourceKey (rel_subject rel) \<noteq> encodeResourceKey (Some (object_ref env cluster node)))"
proof -
  let ?o = "owner_ref env cluster obj r"
  have o: "?o = kube_ref (ke_name env NodeKind) cluster (ob_namespace obj) (own_Name r)" by (simp add: owner_ref_def assms(2))
  obtain rel where rel: "kube_relation env Owns ?o (object_ref env cluster obj) = Some rel" using kube_relation_total by blast
  then have "rel \<in> set (relation_pair env Owns OwnedBy ?o (object_ref env cluster obj))" by (simp add: relation_pair_def)
  then have mem: "rel \<in> set (object_rels env cluster obj)" using assms(1) by (auto simp: object_rels_def)
  have parts: "predicate_name rel = ''kubernetes.v1.Owns''" "rel_subject rel = Some ?o" "rel_object rel = Some (object_ref env cluster obj)"
    using rel by (auto simp: kube_relation_def any_new_def predicate_name_def trim_prefix_def has_prefix_def kube_message_name_def)
  have "encodeResourceKey (Some ?o) \<noteq> encodeResourceKey (Some (object_ref env cluster node))"
    if node: "ob_spec node = Node" "ob_namespace node = ''''" "slash_free (ob_name node)" for node
  proof
    assume eq: "encodeResourceKey (Some ?o) = encodeResourceKey (Some (object_ref env cluster node))"
    have "plain_ref ?o" "plain_ref (object_ref env cluster node)"
      using assms(4,5) node plain_cluster by (simp_all add: o object_ref_def slash_free_def)
    then have "?o = object_ref env cluster node" by (rule encode_plain_inject [OF _ _ trans [OF eq object_key_enc] object_key_enc])
    then show False using assms(3) node(2) by (simp add: o object_ref_def)
  qed
  then show ?thesis using parts by (intro bexI [OF _ mem]) (simp only: simp_thms, intro allI impI)
qed

end

section \<open>The agent on the resource store\<close>

text \<open>
  What the API machinery promises: objects and messages can be marshalled, the messages of the agent are
  registered, every Go type has its own name; the cluster's name has no slash.
\<close>

definition machinery_ok :: "kube_env \<Rightarrow> indexer \<Rightarrow> bool" where
  "machinery_ok env i \<longleftrightarrow> (\<forall>obj. ke_marshal env obj \<noteq> None) \<and> (\<forall>m. ke_any env m \<noteq> None) \<and>
     (\<forall>m. ke_registered env (kube_message_name m)) \<and> inj (ke_name env) \<and> (\<forall>k. ke_name env k \<noteq> '''') \<and>
     slash_free (ix_clusterName i)"

lemma object_rels_keys:
  assumes "\<And>k. ke_name env k \<noteq> ''''" "\<And>m. ke_any env m \<noteq> None" "rel \<in> set (object_rels env cluster obj)"
  shows "(\<exists>k. encodeResourceKey (rel_object rel) = Inr k) \<and> (\<exists>k. encodeResourceKey (rel_subject rel) = Inr k)"
proof -
  define keyed_ref where "keyed_ref p \<longleftrightarrow> (\<exists>k. encodeResourceKey p = Inr k)" for p
  have keyed: "keyed_ref (Some (cluster_ref c))" "keyed_ref (Some (kube_ref (ke_name env k) c ns n))" for c k ns n
    using encode_kube_ref [OF assms(1)] by (simp_all add: keyed_ref_def cluster_ref_def encodeResourceKey_def)
  have pair: "keyed_ref (Some a) \<Longrightarrow> keyed_ref (Some b) \<Longrightarrow> rel \<in> set (relation_pair env pr conv a b) \<Longrightarrow>
      keyed_ref (rel_object rel) \<and> keyed_ref (rel_subject rel)" for pr conv a b
    using assms(2) [of pr] assms(2) [of conv] by (auto simp: relation_pair_def kube_relation_def any_new_def)
  have "\<exists>pr conv a b. rel \<in> set (relation_pair env pr conv a b) \<and> keyed_ref (Some a) \<and> keyed_ref (Some b)" if "rel \<in> set (spec_rels env cluster obj)"
    using that keyed by (cases "ob_spec obj") (fastforce simp: spec_rels_def object_ref_def node_ref_def split: if_splits)+
  then have "\<exists>pr conv a b. rel \<in> set (relation_pair env pr conv a b) \<and> keyed_ref (Some a) \<and> keyed_ref (Some b)"
    using assms(3) keyed unfolding object_rels_def owner_ref_def object_ref_def by fastforce
  then show ?thesis using pair unfolding keyed_ref_def by blast
qed

locale kube_agent = store_env kv env U arrange clock
  for kv :: "('t, 'i) kv" and env :: codec and U :: "bytes set"
    and arrange :: "bytes list \<Rightarrow> bytes list" and clock :: "nat \<Rightarrow> timestamp" +
  fixes kenv :: kube_env and i :: indexer
  assumes machinery: "machinery_ok kenv i"

sublocale kube_agent \<subseteq> agent: kube_indexer "resource_kube_ops kv env arrange clock" "kube_inv kv env U" "stored_keys kv"
    "stored_rels kv env" "writable env U" kenv i
  using machinery by unfold_locales (simp_all add: machinery_ok_def)

context kube_agent
begin

lemma rels_writable:
  assumes "\<forall>rel \<in> set (object_rels kenv (ix_clusterName i) obj). \<exists>v \<in> U. marshal_relationship env rel = Some v"
  shows "\<forall>rel \<in> set (object_rels kenv (ix_clusterName i) obj). writable env U rel"
  using assms object_rels_keys [of kenv _ "ix_clusterName i" obj] machinery by (auto simp: writable_def machinery_ok_def)

lemmas object_indexed = agent.update_indexes and pod_waits = agent.update_waits and events_indexed = agent.two_passes
  and event_turn = agent.turn and refused = agent.update_refused and pod_returns = agent.deleted_pod_returns and node_owner = agent.node_owner_key

end

context kube_agent
begin

lemma object_rels_formed:
  "indexable kenv (ix_clusterName i) obj \<Longrightarrow> rel \<in> set (object_rels kenv (ix_clusterName i) obj) \<Longrightarrow> rel_formed rel"
  using agent.object_rels_ok by blast

abbreviation agent_ops :: "(nat \<times> 't store) kube_ops" where
  "agent_ops \<equiv> resource_kube_ops kv env arrange clock"

lemma object_indexed_twice:
  assumes "kube_inv kv env U x" "indexable kenv (ix_clusterName i) obj"
    and "\<forall>rel \<in> set (object_rels kenv (ix_clusterName i) obj). \<exists>v \<in> U. marshal_relationship env rel = Some v"
  shows "if waits kenv (ix_clusterName i) (stored_keys kv x) obj
    then indexer_Update kenv agent_ops i obj x = (Some (RetryableError ErrResourceNotFound), x)
    else (\<exists>y. indexer_Update kenv agent_ops i obj x = (None, y) \<and> kube_inv kv env U y \<and>
      stored_keys kv y = insert (key_of (object_ref kenv (ix_clusterName i) obj)) (stored_keys kv x) \<and>
      kube_indexed kenv (ix_clusterName i) (stored_keys kv y) (stored_rels kv env y) obj \<and>
      stored_rels kv env x \<subseteq> stored_rels kv env y \<and>
      stored_rels kv env y \<subseteq> stored_rels kv env x \<union> set (object_rels kenv (ix_clusterName i) obj) \<and>
      (\<exists>z. indexer_Update kenv agent_ops i obj y = (None, z) \<and> stored_rels kv env z = stored_rels kv env y))"
proof (cases "waits kenv (ix_clusterName i) (stored_keys kv x) obj")
  case True
  then obtain p where p: "awaited kenv (ix_clusterName i) obj = Some p" "key_of p \<notin> stored_keys kv x" by (auto simp: waits_def)
  from pod_waits [OF assms(1,2) p(1) agent.awaited_key [OF p(1)] p(2)] True show ?thesis by simp
next
  case False
  note writes = rels_writable [OF assms(3)]
  have node: "\<exists>k \<in> ks. encodeResourceKey (Some p) = Inr k"
    if "awaited kenv (ix_clusterName i) obj = Some p" "stored_keys kv x \<subseteq> ks" for p ks
    using that False agent.awaited_key [OF that(1)] by (auto simp: waits_def)
  from object_indexed [OF assms(1,2) writes node] obtain y where
    y: "indexer_Update kenv agent_ops i obj x = (None, y)" "kube_inv kv env U y"
    "stored_keys kv y = insert (key_of (object_ref kenv (ix_clusterName i) obj)) (stored_keys kv x)"
    "stored_rels kv env y = stored_rels kv env x \<union>
      {rel \<in> set (object_rels kenv (ix_clusterName i) obj). \<not> (\<exists>r \<in> stored_rels kv env x. same_relation rel r)}"
    "\<forall>rel \<in> set (object_rels kenv (ix_clusterName i) obj). \<exists>r \<in> stored_rels kv env y. same_relation rel r" by blast
  from object_indexed [OF y(2) assms(2) writes node] y(3,5) obtain z where
    z: "indexer_Update kenv agent_ops i obj y = (None, z)" "stored_rels kv env z = stored_rels kv env y" by fastforce
  have "kube_indexed kenv (ix_clusterName i) (stored_keys kv y) (stored_rels kv env y) obj" using y(3,5) by (simp add: kube_indexed_def)
  moreover have "stored_rels kv env x \<subseteq> stored_rels kv env y"
    "stored_rels kv env y \<subseteq> stored_rels kv env x \<union> set (object_rels kenv (ix_clusterName i) obj)" using y(4) by auto
  ultimately show ?thesis unfolding if_not_P [OF False] using y(1-3) z by (intro exI [of _ y] exI [of _ z] conjI)
qed

end

end
