(* ===== verification/KubeProperties.thy ===== *)
theory KubeProperties
  imports KubeIndex
begin

text \<open>
  The properties of the Kubernetes agent on the resource store: indexing an object, events in any order,
  and two ways in which the graph ends up wrong.
\<close>

section \<open>A cluster\<close>

fun demo_kind_name :: "kube_kind \<Rightarrow> bytes" where
  "demo_kind_name PodKind = ''P''"
| "demo_kind_name NodeKind = ''N''"
| "demo_kind_name PersistentVolumeKind = ''V''"
| "demo_kind_name PersistentVolumeClaimKind = ''C''"
| "demo_kind_name ServiceKind = ''S''"
| "demo_kind_name DaemonSetKind = ''D''"
| "demo_kind_name DeploymentKind = ''E''"
| "demo_kind_name ReplicaSetKind = ''R''"
| "demo_kind_name StatefulSetKind = ''T''"
| "demo_kind_name JobKind = ''J''"
| "demo_kind_name (OtherKind n) = ''xx'' @ n"

definition demo_kube :: kube_env where
  "demo_kube = \<lparr>ke_name = demo_kind_name, ke_new = (\<lambda>v k. if k = ''Node'' then Some (Some Node) else None),
     ke_kinds = (\<lambda>_. Some ([''v1''], False)), ke_marshal = (\<lambda>_. Some ''data''), ke_any = (\<lambda>_. Some ''''),
     ke_registered = (\<lambda>_. True)\<rparr>"

definition demo_indexer :: indexer where
  "demo_indexer = \<lparr>ix_clusterName = ''prod''\<rparr>"

definition demo_node :: kube_object where
  "demo_node = \<lparr>ob_name = ''n1'', ob_namespace = '''', ob_uid = ''u1'', ob_labels = [(''topology.kubernetes.io/zone'', ''a'')],
     ob_owners = [], ob_managed = [], ob_gvk = ''v1'', ob_spec = Node\<rparr>"

text \<open>A static pod: its owner is the node it runs on.\<close>

definition demo_pod :: kube_object where
  "demo_pod = \<lparr>ob_name = ''p1'', ob_namespace = ''sys'', ob_uid = ''u2'', ob_labels = [],
     ob_owners = [\<lparr>own_APIVersion = ''v1'', own_Kind = ''Node'', own_Name = ''n1'', own_UID = ''u1''\<rparr>],
     ob_managed = [], ob_gvk = ''v1'', ob_spec = Pod ''n1'' [None, Some ''data'']\<rparr>"

abbreviation demo_object_rels :: "relationship list" where
  "demo_object_rels \<equiv> object_rels demo_kube ''prod'' demo_pod @ object_rels demo_kube ''prod'' demo_node"

lemma demo_kind_name_inj: "demo_kind_name k = demo_kind_name k' \<Longrightarrow> k = k'" "demo_kind_name k \<noteq> []"
  by (cases k; cases k'; simp) (cases k; simp)

lemma demo_machinery: "machinery_ok demo_kube demo_indexer"
  using demo_kind_name_inj by (auto simp: machinery_ok_def demo_kube_def demo_indexer_def slash_free_def inj_def)

lemma demo_objects:
  "indexable demo_kube ''prod'' demo_pod" "indexable demo_kube ''prod'' demo_node" "length demo_object_rels = 10"
  "awaited demo_kube ''prod'' demo_pod = Some (object_ref demo_kube ''prod'' demo_node)" "ix_clusterName demo_indexer = ''prod''"
  "ob_spec demo_node = Node" "ob_namespace demo_pod = ''sys''"
  by (simp_all add: demo_pod_def demo_node_def indexable_def well_named_def owners_known_def demo_kube_def slash_free_def owner_ref_def object_ref_def
      object_rels_def spec_rels_def relation_pair_def awaited_def node_ref_def map_filter_simps demo_indexer_def)

lemma no_graph_kube_inv: "kube_inv mem_kv env U no_graph"
  using no_graph_inv by (simp add: kube_inv_def keyed_def no_graph_def mem_kv_map)

section \<open>Indexing an object\<close>

lemma kube_agent_on:
  assumes "kv_laws kv" "codec_roundtrip env" "sha_ok env U" "permutes arrange" "\<And>r. marshal_resource env r \<noteq> None"
    and "machinery_ok kenv i"
  shows "kube_agent kv env U arrange kenv i"
  by (rule kube_agent.intro [OF store_env.intro kube_agent_axioms.intro]) (use assms in auto)




text \<open>The wire form of the relationships of the two objects, and a store in which they can be told apart.\<close>

definition demo_wire :: "bytes \<Rightarrow> bytes" where
  "demo_wire = list_hash (map unary_wire demo_object_rels)"

lemma demo_kube_codec:
  "sha_ok (unary_codec demo_wire) (set (map unary_wire demo_object_rels))" "permutes id"
  "\<forall>rel \<in> set (object_rels demo_kube ''prod'' demo_pod). \<exists>v \<in> set (map unary_wire demo_object_rels).
     marshal_relationship (unary_codec demo_wire) rel = Some v"
  "\<forall>rel \<in> set (object_rels demo_kube ''prod'' demo_node). \<exists>v \<in> set (map unary_wire demo_object_rels).
     marshal_relationship (unary_codec demo_wire) rel = Some v"
proof -
  have "length demo_object_rels \<le> 256" using demo_objects(3) by simp
  note wire = unary_wire_ok [OF this, folded demo_wire_def]
  show "sha_ok (unary_codec demo_wire) (set (map unary_wire demo_object_rels))" by (rule wire)
  show "\<forall>rel \<in> set (object_rels demo_kube ''prod'' demo_pod). \<exists>v \<in> set (map unary_wire demo_object_rels).
     marshal_relationship (unary_codec demo_wire) rel = Some v" using wire(2) [of demo_wire] by simp
  show "\<forall>rel \<in> set (object_rels demo_kube ''prod'' demo_node). \<exists>v \<in> set (map unary_wire demo_object_rels).
     marshal_relationship (unary_codec demo_wire) rel = Some v" using wire(2) [of demo_wire] by simp
qed (simp add: permutes_def)

lemma no_graph_empty: "stored_keys mem_kv no_graph = {}" "stored_rels mem_kv env no_graph = {}"
  by (simp_all add: stored_keys_def stored_rels_def rel_stored_def no_graph_def mem_kv_map)

abbreviation demo_ops :: "(nat \<times> (bytes \<times> bytes) list store) kube_ops" where
  "demo_ops \<equiv> resource_kube_ops mem_kv (unary_codec demo_wire) id int"









section \<open>Events in any order\<close>

text \<open>An event whose object can be indexed; \<open>U\<close> are the encoded relationships in play.\<close>

definition event_ok :: "codec \<Rightarrow> bytes set \<Rightarrow> kube_env \<Rightarrow> indexer \<Rightarrow> kube_event \<Rightarrow> bool" where
  "event_ok env U kenv i ev \<longleftrightarrow>
     good_event kenv (ix_clusterName i) (\<lambda>rel. \<exists>v \<in> U. marshal_relationship env rel = Some v) ev"

lemma event_ok_writable:
  assumes "kube_agent kv env U arrange kenv i" "event_ok env U kenv i ev"
  shows "good_event kenv (ix_clusterName i) (writable env U) ev"
  using assms(2) kube_agent.rels_writable [OF assms(1), of "snd ev"] by (simp add: event_ok_def good_event_def)




lemma demo_events:
  "event_ok (unary_codec demo_wire) (set (map unary_wire demo_object_rels)) demo_kube demo_indexer (EventAdd, demo_pod)"
  "event_ok (unary_codec demo_wire) (set (map unary_wire demo_object_rels)) demo_kube demo_indexer (EventAdd, demo_node)"
  using demo_objects(1,2) demo_kube_codec(3,4) unfolding event_ok_def good_event_def demo_objects(5) by simp_all



section \<open>Where the graph goes wrong\<close>

text \<open>
  C36. A deleted pod can come back. When the events that a pod was added, that it was deleted and that its node
  was added wait in the queue, one run of the worker empties the queue with the pod stored in the end:
  its first event is retried because the node is missing and succeeds after the deletion.
\<close>

theorem kube_deleted_pod_returns:
  assumes "kv_laws kv" "codec_roundtrip env" "sha_ok env U" "permutes arrange" "\<And>r. marshal_resource env r \<noteq> None"
    and "machinery_ok kenv i" "kube_inv kv env U x"
    and "event_ok env U kenv i (EventAdd, pod)" "event_ok env U kenv i (EventAdd, node)"
    and "awaited kenv (ix_clusterName i) pod = Some (object_ref kenv (ix_clusterName i) node)" "ob_spec node = Node"
    and "key_of (object_ref kenv (ix_clusterName i) node) \<notin> stored_keys kv x"
  shows "\<exists>y. (kube_step kenv (resource_kube_ops kv env arrange clock) i)\<^sup>*\<^sup>*
      ([(EventAdd, pod), (EventDelete, pod), (EventAdd, node)], x) ([], y) \<and>
    kube_indexed kenv (ix_clusterName i) (stored_keys kv y) (stored_rels kv env y) pod"
proof -
  note agent = kube_agent_on [OF assms(1-6)]
  note events = event_ok_writable [OF agent assms(8)] event_ok_writable [OF agent assms(9)]
  show ?thesis by (rule kube_agent.pod_returns [OF agent assms(7) events assms(10-12)])
qed

theorem kube_deleted_pod_returns_witness:
  "\<exists>y. (kube_step demo_kube demo_ops demo_indexer)\<^sup>*\<^sup>*
      ([(EventAdd, demo_pod), (EventDelete, demo_pod), (EventAdd, demo_node)], no_graph) ([], y) \<and>
    kube_indexed demo_kube ''prod'' (stored_keys mem_kv y) (stored_rels mem_kv (unary_codec demo_wire) y) demo_pod"
  using kube_deleted_pod_returns [OF mem_kv_laws unary_codec_ok(1) demo_kube_codec(1,2) unary_codec_ok(2) demo_machinery no_graph_kube_inv
      demo_events, of int, unfolded demo_objects(5) no_graph_empty] demo_objects(4,6) by simp

text \<open>
  C37. A static pod, which its node owns: indexing it stores the relationship that the owner owns the pod, but
  with the pod's namespace in the reference of the owner, so that it is not the key of any node.
\<close>

theorem kube_node_owner_dangles:
  assumes "kv_laws kv" "codec_roundtrip env" "sha_ok env U" "permutes arrange" "\<And>r. marshal_resource env r \<noteq> None"
    and "machinery_ok kenv i" "kube_inv kv env U x" "indexable kenv (ix_clusterName i) obj"
    and "\<forall>rel \<in> set (object_rels kenv (ix_clusterName i) obj). \<exists>v \<in> U. marshal_relationship env rel = Some v"
    and "\<not> waits kenv (ix_clusterName i) (stored_keys kv x) obj"
    and "r \<in> set (ob_owners obj)" "ke_new kenv (own_APIVersion r) (own_Kind r) = Some (Some Node)"
    and "ob_namespace obj \<noteq> ''''" "slash_free (own_Name r)"
  shows "\<exists>y. indexer_Update kenv (resource_kube_ops kv env arrange clock) i obj x = (None, y) \<and>
    (\<exists>rel \<in> stored_rels kv env y. predicate_name rel = ''kubernetes.v1.Owns'' \<and>
      encodeResourceKey (rel_object rel) = encodeResourceKey (Some (object_ref kenv (ix_clusterName i) obj)) \<and>
      (\<forall>node. ob_spec node = Node \<longrightarrow> ob_namespace node = '''' \<longrightarrow> slash_free (ob_name node) \<longrightarrow>
        encodeResourceKey (rel_subject rel) \<noteq> encodeResourceKey (Some (object_ref kenv (ix_clusterName i) node))))"
proof -
  note agent = kube_agent_on [OF assms(1-6)]
  from kube_agent.object_indexed_twice [OF agent assms(7-9), of clock, unfolded if_not_P [OF assms(10)]] obtain y where
    y: "indexer_Update kenv (resource_kube_ops kv env arrange clock) i obj x = (None, y)"
      "kube_indexed kenv (ix_clusterName i) (stored_keys kv y) (stored_rels kv env y) obj" by blast
  have "slash_free (ob_namespace obj)" using assms(8) by (simp add: indexable_def well_named_def)
  from kube_agent.node_owner [OF agent assms(11-13) this assms(14)] obtain rel where
    rel: "rel \<in> set (object_rels kenv (ix_clusterName i) obj)" "predicate_name rel = ''kubernetes.v1.Owns''"
    "rel_object rel = Some (object_ref kenv (ix_clusterName i) obj)"
    "\<forall>node. ob_spec node = Node \<longrightarrow> ob_namespace node = '''' \<longrightarrow> slash_free (ob_name node) \<longrightarrow>
      encodeResourceKey (rel_subject rel) \<noteq> encodeResourceKey (Some (object_ref kenv (ix_clusterName i) node))" by blast
  from y(2) rel(1) obtain rel' where rel': "rel' \<in> stored_rels kv env y" "same_relation rel rel'" by (auto simp: kube_indexed_def)
  have formed: "rel_formed rel" using kube_agent.object_rels_formed [OF agent assms(8) rel(1)] .
  then have "predicate_name rel' = ''kubernetes.v1.Owns''"
    "encodeResourceKey (rel_object rel') = encodeResourceKey (Some (object_ref kenv (ix_clusterName i) obj))"
    "encodeResourceKey (rel_subject rel') = encodeResourceKey (rel_subject rel)"
    using rel'(2) rel(2,3) by (auto simp: same_relation_def query_match_def rel_formed_def)
  with rel'(1) rel(4) y(1) show ?thesis by (intro exI [of _ y] conjI bexI [of _ rel']) simp_all
qed

theorem kube_node_owner_dangles_witness:
  "\<exists>x y. indexer_Update demo_kube demo_ops demo_indexer demo_node no_graph = (None, x) \<and>
     indexer_Update demo_kube demo_ops demo_indexer demo_pod x = (None, y) \<and>
     (\<exists>rel \<in> stored_rels mem_kv (unary_codec demo_wire) y. predicate_name rel = ''kubernetes.v1.Owns'' \<and>
       encodeResourceKey (rel_subject rel) \<noteq> encodeResourceKey (Some (object_ref demo_kube ''prod'' demo_node)))"
proof -
  note agent = kube_agent_on [OF mem_kv_laws unary_codec_ok(1) demo_kube_codec(1,2) unary_codec_ok(2) demo_machinery]
  have alone: "\<not> waits demo_kube ''prod'' ks demo_node" for ks
    using demo_objects(6) by (simp add: waits_def awaited_def)
  from kube_agent.object_indexed_twice [OF agent no_graph_kube_inv, of demo_node int, unfolded demo_objects(5),
      OF demo_objects(2) demo_kube_codec(4), unfolded if_not_P [OF alone]]
  obtain x where x: "indexer_Update demo_kube demo_ops demo_indexer demo_node no_graph = (None, x)"
    "kube_inv mem_kv (unary_codec demo_wire) (set (map unary_wire demo_object_rels)) x"
    "stored_keys mem_kv x = insert (key_of (object_ref demo_kube ''prod'' demo_node)) (stored_keys mem_kv no_graph)" by blast
  have pod: "\<not> waits demo_kube ''prod'' (stored_keys mem_kv x) demo_pod" using demo_objects(4) x(3) by (simp add: waits_def)
  let ?r = "\<lparr>own_APIVersion = ''v1'', own_Kind = ''Node'', own_Name = ''n1'', own_UID = ''u1''\<rparr>"
  have owner: "?r \<in> set (ob_owners demo_pod)" "ke_new demo_kube (own_APIVersion ?r) (own_Kind ?r) = Some (Some Node)"
    "ob_namespace demo_pod \<noteq> ''''" "slash_free (own_Name ?r)" "ob_namespace demo_node = ''''" "slash_free (ob_name demo_node)"
    by (simp_all add: demo_pod_def demo_kube_def slash_free_def demo_node_def)
  from kube_node_owner_dangles [OF mem_kv_laws unary_codec_ok(1) demo_kube_codec(1,2) unary_codec_ok(2) demo_machinery x(2),
      of demo_pod ?r int, unfolded demo_objects(5), OF demo_objects(1) demo_kube_codec(3) pod owner(1-4)]
  obtain y rel where "indexer_Update demo_kube demo_ops demo_indexer demo_pod x = (None, y)"
    "rel \<in> stored_rels mem_kv (unary_codec demo_wire) y" "predicate_name rel = ''kubernetes.v1.Owns''"
    "encodeResourceKey (rel_subject rel) \<noteq> encodeResourceKey (Some (object_ref demo_kube ''prod'' demo_node))"
    using demo_objects(6) owner(5,6) by blast
  with x(1) show ?thesis by blast
qed

interpretation demo_agent: kube_agent mem_kv "unary_codec demo_wire" "set (map unary_wire demo_object_rels)" id int demo_kube demo_indexer
  by (rule kube_agent_on [OF mem_kv_laws unary_codec_ok(1) demo_kube_codec(1,2) unary_codec_ok(2) demo_machinery])

section \<open>Starting\<close>

text \<open>
  A start of the controller with a provider that knows the cluster stores the cluster's resource, under the
  reference that every indexed object is related to, and a second start is refused.
\<close>

lemma kube_start_stores_cluster:
  assumes "kube_agent kv env U arrange kenv i" "kube_inv kv env U x" "\<not> kc_started c" "ix_clusterName i = n"
    and "cp_ClusterName prov = Inr n" "cp_Region prov = Inr region"
  shows "\<exists>c' y. controller_Start kenv (resource_kube_ops kv env arrange clock) prov (Some (major, minor)) True c x = (None, c', y) \<and>
    ix_clusterName (kc_indexer c') = n \<and> kube_inv kv env U y \<and>
    stored_keys kv y = insert (key_of (cluster_ref n)) (stored_keys kv x) \<and>
    fst (controller_Start kenv (resource_kube_ops kv env arrange clock) prov version synced c' y) = Some StartedTwice"
proof -
  have "machinery_ok kenv i" using assms(1) by (simp add: kube_agent_def kube_agent_axioms_def)
  then have machinery: "slash_free n" "\<And>m. ke_any kenv m \<noteq> None" using assms(4) by (simp_all add: machinery_ok_def)
  have store: "store_env kv env U arrange" using assms(1) by (simp add: kube_agent_def)
  obtain v where v: "any_new (ke_any kenv) kube_message_name (KubeCluster major minor (getProvider prov)) = Some v"
    using machinery(2) [of "KubeCluster major minor (getProvider prov)"] by (auto simp: any_new_def)
  have ref: "ref (cluster_resource n region v) = cluster_ref n" "plain_resource (cluster_resource n region v)"
    using machinery(1) by (simp_all add: cluster_resource_def ref_def cluster_ref_def empty_meta_def plain_resource_def plain_ref_def)
  have key: "encodeResourceKey (Some (ref (cluster_resource n region v))) = Inr (key_of (cluster_ref n))"
    by (simp add: ref key_of_def cluster_ref_def encodeResourceKey_def)
  from store_env.kube_update [OF store assms(2) plain_safe [OF ref(2)] key, of clock] obtain y where
    y: "so_update (ko_store (resource_kube_ops kv env arrange clock)) (cluster_resource n region v) x = Inr y" "kube_inv kv env U y"
      "stored_keys kv y = insert (key_of (cluster_ref n)) (stored_keys kv x)" by blast
  show ?thesis using y assms(3,5,6) v
    by (intro exI [of _ "c\<lparr>kc_indexer := (kc_indexer c)\<lparr>ix_clusterName := n\<rparr>, kc_started := True\<rparr>"] exI [of _ y])
      (simp add: controller_Start_def LoadClusterInfo_def Let_def)
qed

end
