(* ===== verification/CloudProvider.thy ===== *)
theory CloudProvider
  imports KubeAgent
begin

text \<open>
  Where the name and region of the cluster come from: the AWS client (\<open>pkg/aws/client.go\<close>) and the
  cluster providers (\<open>internal/kubernetes/cluster\<close>, \<open>internal/kubernetes/agent/options.go\<close>). The metadata
  service, EC2 and the API server are passed in: what each of their calls returns.
\<close>

section \<open>The AWS client\<close>

text \<open>The answers of the instance metadata service and of EC2; a tag may lack its key or value.\<close>

type_synonym ec2_tag = "bytes option \<times> bytes option"

record aws_services =
  imds_config :: "bytes option"
  imds_region :: "(bytes, bytes) result"
  imds_account :: "(bytes, bytes) result"
  imds_metadata :: "bytes \<Rightarrow> (bytes, bytes) result"
  ec2_config :: "bytes \<Rightarrow> bytes option"
  ec2_describe :: "bytes \<Rightarrow> (bytes, ec2_tag list list list) result"

record aws_client =
  aws_ec2 :: bool
  aws_imds :: bool
  aws_accountID :: bytes
  aws_region :: bytes
  aws_eksClusterName :: bytes
  aws_instanceID :: bytes

datatype aws_error =
  ImdsConfig bytes | RegionNotFound bytes | Ec2Config bytes | NotInitialized | AccountNotFound bytes
| InstanceNotFound bytes | DescribeFailed bytes | WrongReservations nat | WrongInstances nat | NoTags bytes | NoClusterTag bytes

datatype client_option = WithLogger | WithRegion bytes | WithAccountID bytes | WithEKSClusterName bytes | WithAutoDiscovery

text \<open>\<open>WithAutoDiscovery\<close> asks for the region unless an earlier option has set it.\<close>

definition autodiscover :: "aws_services \<Rightarrow> aws_client \<Rightarrow> (aws_error, aws_client) result" where
  "autodiscover aws c =
     (case imds_config aws of
        Some e \<Rightarrow> Inl (ImdsConfig e)
      | None \<Rightarrow>
          result_bind (if aws_region c = '''' then map_error RegionNotFound (imds_region aws) else Inr (aws_region c)) (\<lambda>region.
          case ec2_config aws region of
            Some e \<Rightarrow> Inl (Ec2Config e)
          | None \<Rightarrow> Inr (c\<lparr>aws_imds := True, aws_region := region, aws_ec2 := True\<rparr>)))"

definition apply_aws_option :: "aws_services \<Rightarrow> client_option \<Rightarrow> aws_client \<Rightarrow> (aws_error, aws_client) result" where
  "apply_aws_option aws opt c =
     (case opt of
        WithLogger \<Rightarrow> Inr c
      | WithRegion r \<Rightarrow> Inr (c\<lparr>aws_region := r\<rparr>)
      | WithAccountID a \<Rightarrow> Inr (c\<lparr>aws_accountID := a\<rparr>)
      | WithEKSClusterName n \<Rightarrow> Inr (c\<lparr>aws_eksClusterName := n\<rparr>)
      | WithAutoDiscovery \<Rightarrow> autodiscover aws c)"

fun apply_aws_options :: "aws_services \<Rightarrow> client_option list \<Rightarrow> aws_client \<Rightarrow> (aws_error, aws_client) result" where
  "apply_aws_options aws [] c = Inr c"
| "apply_aws_options aws (opt # opts) c = result_bind (apply_aws_option aws opt c) (apply_aws_options aws opts)"

definition NewAWSClient :: "aws_services \<Rightarrow> client_option list \<Rightarrow> (aws_error, aws_client) result" where
  "NewAWSClient aws opts =
     apply_aws_options aws opts \<lparr>aws_ec2 = False, aws_imds = False, aws_accountID = '''', aws_region = '''',
       aws_eksClusterName = '''', aws_instanceID = ''''\<rparr>"

text \<open>The getters cache what they found; the client is returned with the result.\<close>

definition GetRegion :: "aws_services \<Rightarrow> aws_client \<Rightarrow> (aws_error, bytes) result \<times> aws_client" where
  "GetRegion aws c =
     (if aws_region c \<noteq> '''' then (Inr (aws_region c), c)
      else if \<not> aws_imds c then (Inl NotInitialized, c)
      else (case imds_region aws of
              Inl e \<Rightarrow> (Inl (RegionNotFound e), c)
            | Inr r \<Rightarrow> (Inr r, c\<lparr>aws_region := r\<rparr>)))"

definition GetAccountID :: "aws_services \<Rightarrow> aws_client \<Rightarrow> (aws_error, bytes) result \<times> aws_client" where
  "GetAccountID aws c =
     (if aws_accountID c \<noteq> '''' then (Inr (aws_accountID c), c)
      else if \<not> aws_imds c then (Inl NotInitialized, c)
      else (case imds_account aws of
              Inl e \<Rightarrow> (Inl (AccountNotFound e), c)
            | Inr a \<Rightarrow> (Inr a, c\<lparr>aws_accountID := a\<rparr>)))"

definition getMetadata :: "aws_services \<Rightarrow> aws_client \<Rightarrow> bytes \<Rightarrow> (aws_error, bytes) result" where
  "getMetadata aws c path =
     (if \<not> aws_imds c then Inl NotInitialized else map_error InstanceNotFound (imds_metadata aws path))"

definition GetEC2InstanceID :: "aws_services \<Rightarrow> aws_client \<Rightarrow> (aws_error, bytes) result \<times> aws_client" where
  "GetEC2InstanceID aws c =
     (if aws_instanceID c \<noteq> '''' then (Inr (aws_instanceID c), c)
      else if \<not> aws_imds c then (Inl NotInitialized, c)
      else (case getMetadata aws c ''instance-id'' of
              Inl e \<Rightarrow> (Inl e, c)
            | Inr i \<Rightarrow> (Inr i, c\<lparr>aws_instanceID := i\<rparr>)))"

definition eksClusterTags :: "bytes list" where
  "eksClusterTags = [''aws:eks:cluster-name'', ''eks:cluster-name'']"

definition clusterTagPrefixes :: "bytes list" where
  "clusterTagPrefixes = [''kubernetes.io/cluster/'', ''k8s.io/cluster/'']"

definition tag_cluster :: "bytes \<Rightarrow> bytes \<Rightarrow> bytes option" where
  "tag_cluster key value =
     (if key \<in> set eksClusterTags then Some value
      else map_option (\<lambda>p. trim_prefix key p) (List.find (\<lambda>p. has_prefix key p \<and> value \<noteq> ''owned'') clusterTagPrefixes))"

fun findClusterNameFromTags :: "ec2_tag list \<Rightarrow> bytes" where
  "findClusterNameFromTags [] = ''''"
| "findClusterNameFromTags ((Some key, Some value) # tags) =
     (case tag_cluster key value of Some n \<Rightarrow> n | None \<Rightarrow> findClusterNameFromTags tags)"
| "findClusterNameFromTags (_ # tags) = findClusterNameFromTags tags"

definition GetEKSClusterName :: "aws_services \<Rightarrow> aws_client \<Rightarrow> (aws_error, bytes) result \<times> aws_client" where
  "GetEKSClusterName aws c =
     (if aws_eksClusterName c \<noteq> '''' then (Inr (aws_eksClusterName c), c)
      else if \<not> aws_imds c \<or> \<not> aws_ec2 c then (Inl NotInitialized, c)
      else (case getMetadata aws c ''instance-id'' of
              Inl e \<Rightarrow> (Inl e, c)
            | Inr instanceID \<Rightarrow>
                (case ec2_describe aws instanceID of
                   Inl e \<Rightarrow> (Inl (DescribeFailed e), c)
                 | Inr reservations \<Rightarrow>
                     (case reservations of
                        [instances] \<Rightarrow>
                          (case instances of
                             [tags] \<Rightarrow>
                               if length tags = 0 then (Inl (NoTags instanceID), c)
                               else (let clusterName = findClusterNameFromTags tags in
                                     if clusterName = '''' then (Inl (NoClusterTag instanceID), c)
                                     else (Inr clusterName, c\<lparr>aws_eksClusterName := clusterName\<rparr>))
                           | _ \<Rightarrow> (Inl (WrongInstances (length instances)), c))
                      | _ \<Rightarrow> (Inl (WrongReservations (length reservations)), c)))))"

section \<open>Cluster providers\<close>

record eks_options =
  eks_Autodiscover :: bool
  eks_AccountID :: bytes
  eks_Region :: bytes
  eks_ClusterName :: bytes

definition constructAwsClientOpts :: "eks_options \<Rightarrow> client_option list" where
  "constructAwsClientOpts opts =
     [WithLogger] @
     (if eks_AccountID opts \<noteq> '''' then [WithAccountID (eks_AccountID opts)] else []) @
     (if eks_Region opts \<noteq> '''' then [WithRegion (eks_Region opts)] else []) @
     (if eks_ClusterName opts \<noteq> '''' then [WithEKSClusterName (eks_ClusterName opts)] else []) @
     (if eks_Autodiscover opts then [WithAutoDiscovery] else [])"

datatype kube_provider = EKS aws_client | KIND

datatype provider_error = AwsClientFailed aws_error | NotImplemented bytes | Unrecognized bytes

definition GetProvider :: "aws_services \<Rightarrow> bytes \<Rightarrow> eks_options \<Rightarrow> (provider_error, kube_provider) result" where
  "GetProvider aws provider opts =
     (if provider = ''eks''
      then result_bind (map_error AwsClientFailed (NewAWSClient aws (constructAwsClientOpts opts))) (\<lambda>c. Inr (EKS c))
      else if provider = ''gke'' \<or> provider = ''aks'' then Inl (NotImplemented provider)
      else if provider = ''kind'' then Inr KIND
      else Inl (Unrecognized provider))"

text \<open>
  A \<open>kind\<close> cluster: the \<open>cluster-info\<close> config map of the API server, the clusters of a kubeconfig (name and
  server, in iteration order) and the host name of a URL.
\<close>

record kind_services =
  kind_client :: "bytes option"
  kind_info :: "(bytes, bytes \<rightharpoonup> bytes) result"
  kind_load :: "bytes \<Rightarrow> (bytes, (bytes \<times> bytes) list) result"
  url_hostname :: "bytes \<Rightarrow> (bytes, bytes) result"

datatype kind_error =
  KindClient bytes | KindInfo bytes | NoKubeconfig | BadKubeconfig bytes | NoClusters | ManyClusters | BadServer bytes

definition getClusterName :: "kind_services \<Rightarrow> (kind_error, bytes) result" where
  "getClusterName k =
     (case kind_client k of
        Some e \<Rightarrow> Inl (KindClient e)
      | None \<Rightarrow>
          result_bind (map_error KindInfo (kind_info k)) (\<lambda>data.
          result_bind (of_option NoKubeconfig (data ''kubeconfig'')) (\<lambda>text.
          result_bind (map_error BadKubeconfig (kind_load k text)) (\<lambda>clusters.
          case clusters of
            [] \<Rightarrow> Inl NoClusters
          | [(name, server)] \<Rightarrow> if name = '''' then map_error BadServer (url_hostname k server) else Inr name
          | _ \<Rightarrow> Inl ManyClusters))))"

text \<open>A provider as the indexer sees it. \<open>show\<close> are the texts of the errors.\<close>

definition provider_of :: "aws_services \<Rightarrow> kind_services \<Rightarrow> (aws_error \<Rightarrow> bytes) \<Rightarrow> (kind_error \<Rightarrow> bytes) \<Rightarrow>
    kube_provider \<Rightarrow> cluster_provider" where
  "provider_of aws kind show_aws show_kind p =
     (case p of
        EKS c \<Rightarrow> \<lparr>cp_Name = ''eks'', cp_ClusterName = map_error show_aws (fst (GetEKSClusterName aws c)),
          cp_Region = map_error show_aws (fst (GetRegion aws (snd (GetEKSClusterName aws c))))\<rparr>
      | KIND \<Rightarrow> \<lparr>cp_Name = ''kind'', cp_ClusterName = map_error show_kind (getClusterName kind), cp_Region = Inr ''''\<rparr>)"

section \<open>What the providers return\<close>

text \<open>Options given explicitly are used as they are, without asking AWS for them.\<close>

lemma explicit_options:
  assumes "NewAWSClient aws (constructAwsClientOpts opts) = Inr c" "eks_ClusterName opts \<noteq> ''''" "eks_Region opts \<noteq> ''''"
  shows "fst (GetEKSClusterName aws c) = Inr (eks_ClusterName opts)" "fst (GetRegion aws c) = Inr (eks_Region opts)"
proof -
  have "aws_eksClusterName c = eks_ClusterName opts" "aws_region c = eks_Region opts"
    using assms by (auto simp: NewAWSClient_def constructAwsClientOpts_def apply_aws_option_def autodiscover_def
        split: if_splits option.splits)
  then show "fst (GetEKSClusterName aws c) = Inr (eks_ClusterName opts)" "fst (GetRegion aws c) = Inr (eks_Region opts)"
    using assms(2,3) by (simp_all add: GetEKSClusterName_def GetRegion_def)
qed

text \<open>A name that was found is cached: asking again gives it without another call.\<close>

lemma cluster_name_cached:
  assumes "GetEKSClusterName aws c = (Inr n, c')"
  shows "n \<noteq> '''' \<and> GetEKSClusterName aws' c' = (Inr n, c')"
  using assms by (auto simp: GetEKSClusterName_def Let_def split: if_splits sum.splits list.splits)

end
