(* ===== verification/DebugConsumer.thy ===== *)
theory DebugConsumer
  imports MetricsRouter "HOL-Library.Word"
begin

text \<open>
  The debug consumer of the metrics pipeline, \<open>internal/metrics/consumers/debug\<close>: it logs every event that
  passes its filters and counts events by type and source. JSON encoding, type names, \<open>fmt\<close>'s verb for
  values and the clock's format are arguments; the log is the list of its lines. A nil payload is \<open>None\<close>.
\<close>

section \<open>Configuration\<close>

record debug_config =
  dc_LogLevel :: int
  dc_LogFormat :: bytes
  dc_IncludeTimestamp :: bool
  dc_IncludeEventData :: bool
  dc_MaxDataLength :: int
  dc_MetricTypeFilter :: "bytes list"
  dc_SourceFilter :: "bytes list"

definition level_name :: "int \<Rightarrow> bytes" where
  "level_name l =
     (if l = 0 then ''basic'' else if l = 1 then ''details'' else if l = 2 then ''verbose''
      else ''unknown('' @ (if l < 0 then ''-'' else '''') @ show_nat (nat \<bar>l\<bar>) @ '')'')"

definition format_IsValid :: "bytes \<Rightarrow> bool" where
  "format_IsValid f \<longleftrightarrow> f = ''json'' \<or> f = ''text''"

definition debug_DefaultConfig :: debug_config where
  "debug_DefaultConfig = \<lparr>dc_LogLevel = 1, dc_LogFormat = ''text'', dc_IncludeTimestamp = True, dc_IncludeEventData = False,
     dc_MaxDataLength = 1000, dc_MetricTypeFilter = [], dc_SourceFilter = []\<rparr>"

datatype debug_error = ErrInvalidLogLevel | ErrInvalidLogFormat | EntryNotMarshalled

text \<open>\<open>Validate\<close> changes the configuration it is called on: a negative length becomes 0.\<close>

definition debug_Validate :: "debug_config \<Rightarrow> (debug_error, debug_config) result" where
  "debug_Validate c =
     (if dc_LogLevel c < 0 \<or> dc_LogLevel c > 2 then Inl ErrInvalidLogLevel
      else if \<not> format_IsValid (dc_LogFormat c) then Inl ErrInvalidLogFormat
      else Inr (if dc_MaxDataLength c < 0 then c\<lparr>dc_MaxDataLength := 0\<rparr> else c))"

definition ShouldLogMetricType :: "debug_config \<Rightarrow> bytes \<Rightarrow> bool" where
  "ShouldLogMetricType c metricType \<longleftrightarrow> length (dc_MetricTypeFilter c) = 0 \<or> List.member (dc_MetricTypeFilter c) metricType"

definition ShouldLogSource :: "debug_config \<Rightarrow> bytes \<Rightarrow> bool" where
  "ShouldLogSource c source \<longleftrightarrow> length (dc_SourceFilter c) = 0 \<or> List.member (dc_SourceFilter c) source"

definition GetConfigFromFlags :: "bytes \<Rightarrow> bytes \<Rightarrow> debug_config" where
  "GetConfigFromFlags flagLogLevel flagLogFormat =
     (let level = (if flagLogLevel = ''verbose'' then 2 else if flagLogLevel = ''details'' then 1 else 0) in
      \<lparr>dc_LogLevel = level, dc_LogFormat = (if flagLogFormat = ''text'' then ''text'' else ''json''),
       dc_IncludeTimestamp = True, dc_IncludeEventData = (level \<ge> 1), dc_MaxDataLength = 1024,
       dc_MetricTypeFilter = [], dc_SourceFilter = []\<rparr>)"

section \<open>Log entries\<close>

record event_summary =
  es_MetricType :: bytes
  es_Source :: bytes
  es_NodeName :: bytes
  es_ClusterName :: bytes
  es_DataType :: bytes
  es_DataSize :: nat

record consumer_stats =
  cs_EventsProcessed :: "64 word"
  cs_ErrorsCount :: "64 word"
  cs_EventsByType :: "bytes \<rightharpoonup> 64 word"
  cs_EventsBySource :: "bytes \<rightharpoonup> 64 word"

text \<open>The payload as it is, a text, or none.\<close>

datatype 'd logged_data = NoData | RawData 'd | DataText bytes

record 'd log_entry =
  le_Timestamp :: bool
  le_Level :: bytes
  le_Consumer :: bytes
  le_Message :: bytes
  le_Event :: event_summary
  le_Data :: "'d logged_data"
  le_Stats :: "consumer_stats option"

datatype log_line = JsonLine bytes | TextLine bytes | StatsLine "64 word" "64 word" nat nat

record 'd debug_env =
  de_json :: "'d option \<Rightarrow> (bytes, bytes) result"
  de_type :: "'d \<Rightarrow> bytes"
  de_show :: "'d \<Rightarrow> bytes"
  de_entry :: "'d log_entry \<Rightarrow> bytes option"
  de_now :: bytes

record 'd debug_consumer =
  db_config :: debug_config
  db_healthy :: bool
  db_lastError :: "debug_error option"
  db_eventsProcessed :: "64 word"
  db_errorsCount :: "64 word"
  db_eventsByType :: "bytes \<rightharpoonup> 64 word"
  db_eventsBySource :: "bytes \<rightharpoonup> 64 word"
  db_log :: "log_line list"

definition NewDebugConsumer :: "debug_config \<Rightarrow> (debug_error, 'd debug_consumer) result" where
  "NewDebugConsumer config =
     result_bind (debug_Validate config) (\<lambda>config.
     Inr \<lparr>db_config = config, db_healthy = True, db_lastError = None, db_eventsProcessed = 0, db_errorsCount = 0,
          db_eventsByType = Map.empty, db_eventsBySource = Map.empty, db_log = []\<rparr>)"

definition bump :: "bytes \<Rightarrow> (bytes \<rightharpoonup> 64 word) \<Rightarrow> (bytes \<rightharpoonup> 64 word)" where
  "bump k m = m(k \<mapsto> (case m k of Some n \<Rightarrow> n + 1 | None \<Rightarrow> 1))"

definition updateStats :: "'d option metric_event \<Rightarrow> 'd debug_consumer \<Rightarrow> 'd debug_consumer" where
  "updateStats ev c = c\<lparr>db_eventsByType := bump (MetricType ev) (db_eventsByType c),
     db_eventsBySource := bump (Source ev) (db_eventsBySource c)\<rparr>"

definition getStats :: "'d debug_consumer \<Rightarrow> consumer_stats" where
  "getStats c = \<lparr>cs_EventsProcessed = db_eventsProcessed c, cs_ErrorsCount = db_errorsCount c,
     cs_EventsByType = db_eventsByType c, cs_EventsBySource = db_eventsBySource c\<rparr>"

section \<open>Truncation\<close>

text \<open>The position of the last comma or opening brace.\<close>

fun last_boundary :: "bytes \<Rightarrow> nat option" where
  "last_boundary [] = None"
| "last_boundary (c # s) =
     (case last_boundary s of
        Some i \<Rightarrow> Some (Suc i)
      | None \<Rightarrow> if c = CHR '','' \<or> c = CHR ''{'' then Some 0 else None)"

definition clean_cut :: "bytes \<Rightarrow> bytes" where
  "clean_cut truncated =
     (case last_boundary truncated of
        None \<Rightarrow> truncated
      | Some i \<Rightarrow>
          if i = 0 then truncated
          else if truncated ! i = CHR '','' then take i truncated else take (i + 1) truncated)"

definition truncateData :: "'d debug_env \<Rightarrow> debug_config \<Rightarrow> 'd option \<Rightarrow> 'd logged_data" where
  "truncateData env c data =
     (if dc_MaxDataLength c = 0 then (case data of None \<Rightarrow> NoData | Some d \<Rightarrow> RawData d)
      else (case de_json env data of
              Inl err \<Rightarrow> DataText (''Error marshaling data: '' @ err)
            | Inr dataBytes \<Rightarrow>
                if int (length dataBytes) \<le> dc_MaxDataLength c then (case data of None \<Rightarrow> NoData | Some d \<Rightarrow> RawData d)
                else DataText (clean_cut (take (nat (dc_MaxDataLength c)) dataBytes) @ ''... (truncated from '' @
                  show_nat (length dataBytes) @ '' bytes)'')))"

definition cut_text :: "debug_config \<Rightarrow> bytes \<Rightarrow> bytes" where
  "cut_text c s =
     (if dc_MaxDataLength c > 0 \<and> int (length s) > dc_MaxDataLength c
      then take (nat (dc_MaxDataLength c)) s @ ''... (truncated from '' @ show_nat (length s) @ '' chars)''
      else s)"

definition formatDataForText :: "'d debug_env \<Rightarrow> debug_config \<Rightarrow> 'd \<Rightarrow> bytes" where
  "formatDataForText env c d =
     (case de_json env (Some d) of Inl _ \<Rightarrow> cut_text c (de_show env d) | Inr s \<Rightarrow> cut_text c s)"

section \<open>Handling an event\<close>

definition createEventSummary :: "'d debug_env \<Rightarrow> 'd option metric_event \<Rightarrow> event_summary" where
  "createEventSummary env ev =
     \<lparr>es_MetricType = MetricType ev, es_Source = Source ev, es_NodeName = NodeName ev, es_ClusterName = ClusterName ev,
      es_DataType = (case Data ev of None \<Rightarrow> '''' | Some d \<Rightarrow> de_type env d),
      es_DataSize = (case Data ev of None \<Rightarrow> 0 | Some d \<Rightarrow> (case de_json env (Some d) of Inl _ \<Rightarrow> 0 | Inr s \<Rightarrow> length s))\<rparr>"

definition logEventJSON :: "'d debug_env \<Rightarrow> 'd option metric_event \<Rightarrow> 'd debug_consumer \<Rightarrow> debug_error option \<times> 'd debug_consumer" where
  "logEventJSON env ev c =
     (let config = db_config c;
          entry = \<lparr>le_Timestamp = dc_IncludeTimestamp config, le_Level = ''INFO'', le_Consumer = ''debug'',
            le_Message = ''Metrics event received'', le_Event = createEventSummary env ev,
            le_Data = (if dc_IncludeEventData config \<and> dc_LogLevel config \<ge> 2 then truncateData env config (Data ev) else NoData),
            le_Stats = (if db_eventsProcessed c mod 1000 = 0 then Some (getStats c) else None)\<rparr> in
      case de_entry env entry of
        None \<Rightarrow> (Some EntryNotMarshalled, c)
      | Some line \<Rightarrow> (None, c\<lparr>db_log := db_log c @ [JsonLine line]\<rparr>))"

definition named_part :: "bytes \<Rightarrow> bytes \<Rightarrow> bytes list" where
  "named_part label v = (if v \<noteq> '''' then [label @ v] else [])"

fun join_parts :: "bytes list \<Rightarrow> bytes" where
  "join_parts [] = ''''"
| "join_parts [p] = p"
| "join_parts (p # ps) = p @ '' | '' @ join_parts ps"

definition text_parts :: "'d debug_env \<Rightarrow> debug_config \<Rightarrow> 'd option metric_event \<Rightarrow> bytes list" where
  "text_parts env c ev =
     [''Event: '' @ MetricType ev] @
     (if dc_LogLevel c \<ge> 1
      then named_part ''Source: '' (Source ev) @ named_part ''Node: '' (NodeName ev) @ named_part ''Cluster: '' (ClusterName ev)
      else []) @
     (if dc_LogLevel c \<ge> 2
      then (case Data ev of
              None \<Rightarrow> []
            | Some d \<Rightarrow> [''DataType: '' @ de_type env d] @
                (if dc_IncludeEventData c then [''Data: '' @ formatDataForText env c d] else []))
      else [])"

definition logStatsText :: "'d debug_consumer \<Rightarrow> log_line" where
  "logStatsText c = StatsLine (db_eventsProcessed c) (db_errorsCount c) (card (dom (db_eventsByType c))) (card (dom (db_eventsBySource c)))"

definition logEventText :: "'d debug_env \<Rightarrow> 'd option metric_event \<Rightarrow> 'd debug_consumer \<Rightarrow> debug_error option \<times> 'd debug_consumer" where
  "logEventText env ev c =
     (let message = join_parts (text_parts env (db_config c) ev);
          line = (if dc_IncludeTimestamp (db_config c) then ''['' @ de_now env @ ''] '' @ message else message) in
      (None, c\<lparr>db_log := db_log c @ [TextLine line] @ (if db_eventsProcessed c mod 1000 = 0 then [logStatsText c] else [])\<rparr>))"

definition passes :: "debug_config \<Rightarrow> 'd option metric_event \<Rightarrow> bool" where
  "passes c ev \<longleftrightarrow> ShouldLogMetricType c (MetricType ev) \<and> ShouldLogSource c (Source ev)"

definition debug_processEvent :: "'d debug_env \<Rightarrow> 'd option metric_event \<Rightarrow> 'd debug_consumer \<Rightarrow> debug_error option \<times> 'd debug_consumer" where
  "debug_processEvent env ev c =
     (if \<not> ShouldLogMetricType (db_config c) (MetricType ev) then (None, c)
      else if \<not> ShouldLogSource (db_config c) (Source ev) then (None, c)
      else (let c' = updateStats ev c in
            if dc_LogFormat (db_config c') = ''json'' then logEventJSON env ev c' else logEventText env ev c'))"

definition debug_HandleEvent :: "'d debug_env \<Rightarrow> 'd debug_consumer \<Rightarrow> 'd option metric_event \<Rightarrow> 'd debug_consumer \<times> debug_error option" where
  "debug_HandleEvent env c ev =
     (case debug_processEvent env ev c of
        (Some err, c') \<Rightarrow> (c'\<lparr>db_errorsCount := db_errorsCount c' + 1, db_lastError := Some err\<rparr>, Some err)
      | (None, c') \<Rightarrow> (c'\<lparr>db_eventsProcessed := db_eventsProcessed c' + 1\<rparr>, None))"

definition debug_Health :: "'d debug_consumer \<Rightarrow> debug_error consumer_health" where
  "debug_Health c = \<lparr>Healthy = db_healthy c, LastError = db_lastError c, EventsCount = unat (db_eventsProcessed c),
     ErrorsCount = unat (db_errorsCount c)\<rparr>"

section \<open>What is counted\<close>

definition debug_inv :: "'d debug_consumer \<Rightarrow> bool" where
  "debug_inv c \<longleftrightarrow> debug_Validate (db_config c) = Inr (db_config c) \<and> db_healthy c"

lemma logEvent_frame:
  assumes "logEventJSON env ev c = (e, c') \<or> logEventText env ev c = (e, c')"
  shows "db_config c' = db_config c \<and> db_healthy c' = db_healthy c \<and> db_eventsProcessed c' = db_eventsProcessed c \<and>
    db_errorsCount c' = db_errorsCount c \<and> db_eventsByType c' = db_eventsByType c \<and> db_eventsBySource c' = db_eventsBySource c"
  using assms by (auto simp: logEventJSON_def logEventText_def Let_def split: option.splits)

lemma HandleEvent_counts:
  assumes "debug_HandleEvent env c ev = (c', e)"
  shows "db_config c' = db_config c" "db_healthy c' = db_healthy c"
    "db_eventsProcessed c' + db_errorsCount c' = db_eventsProcessed c + db_errorsCount c + 1"
    "db_eventsByType c' = (if passes (db_config c) ev then bump (MetricType ev) (db_eventsByType c) else db_eventsByType c)"
    "db_eventsBySource c' = (if passes (db_config c) ev then bump (Source ev) (db_eventsBySource c) else db_eventsBySource c)"
    "e = None \<or> dc_LogFormat (db_config c) = ''json''"
proof -
  obtain err d where p: "debug_processEvent env ev c = (err, d)" by fastforce
  have frame: "db_config d = db_config c \<and> db_healthy d = db_healthy c \<and> db_eventsProcessed d = db_eventsProcessed c \<and>
      db_errorsCount d = db_errorsCount c \<and>
      db_eventsByType d = (if passes (db_config c) ev then bump (MetricType ev) (db_eventsByType c) else db_eventsByType c) \<and>
      db_eventsBySource d = (if passes (db_config c) ev then bump (Source ev) (db_eventsBySource c) else db_eventsBySource c)"
    using p logEvent_frame [of env ev "updateStats ev c" err d]
    by (auto simp: debug_processEvent_def passes_def Let_def updateStats_def split: if_splits)
  have "err = None \<or> dc_LogFormat (db_config c) = ''json''"
    using p by (auto simp: debug_processEvent_def Let_def updateStats_def logEventText_def split: if_splits)
  then show "db_config c' = db_config c" "db_healthy c' = db_healthy c"
    "db_eventsProcessed c' + db_errorsCount c' = db_eventsProcessed c + db_errorsCount c + 1"
    "db_eventsByType c' = (if passes (db_config c) ev then bump (MetricType ev) (db_eventsByType c) else db_eventsByType c)"
    "db_eventsBySource c' = (if passes (db_config c) ev then bump (Source ev) (db_eventsBySource c) else db_eventsBySource c)"
    "e = None \<or> dc_LogFormat (db_config c) = ''json''"
    using assms p frame by (auto simp: debug_HandleEvent_def split: option.splits)
qed

interpretation debug: metric_consumer "debug_HandleEvent env" debug_inv
  by unfold_locales (simp add: debug_inv_def HandleEvent_counts(1,2) [OF surjective_pairing])

definition counted :: "(bytes \<rightharpoonup> 64 word) \<Rightarrow> bytes \<Rightarrow> 64 word" where
  "counted m k = (case m k of None \<Rightarrow> 0 | Some n \<Rightarrow> n)"

lemma counted_bump: "counted (bump k m) k' = counted m k' + (if k' = k then 1 else 0)"
  by (simp add: counted_def bump_def split: option.splits)

definition debug_run :: "'d debug_env \<Rightarrow> 'd option metric_event list \<Rightarrow> 'd debug_consumer \<Rightarrow> 'd debug_consumer" where
  "debug_run env evs c = fold (\<lambda>ev c. fst (debug_HandleEvent env c ev)) evs c"

lemma debug_run_counts:
  "db_config (debug_run env evs c) = db_config c \<and>
   db_eventsProcessed (debug_run env evs c) + db_errorsCount (debug_run env evs c) =
     db_eventsProcessed c + db_errorsCount c + of_nat (length evs) \<and>
   counted (db_eventsByType (debug_run env evs c)) t =
     counted (db_eventsByType c) t + of_nat (length (filter (\<lambda>ev. passes (db_config c) ev \<and> MetricType ev = t) evs)) \<and>
   counted (db_eventsBySource (debug_run env evs c)) t =
     counted (db_eventsBySource c) t + of_nat (length (filter (\<lambda>ev. passes (db_config c) ev \<and> Source ev = t) evs))"
proof (induction evs arbitrary: c)
  case (Cons ev evs)
  obtain c' e where h: "debug_HandleEvent env c ev = (c', e)" by fastforce
  note step = HandleEvent_counts [OF h]
  have "debug_run env (ev # evs) c = debug_run env evs c'" by (simp add: debug_run_def h)
  with Cons.IH [of c'] step(1,3,4,5) show ?case by (simp add: counted_bump algebra_simps)
qed (simp add: debug_run_def)

text \<open>
  The debug consumer counts what it logs. After any events, from a new consumer: events processed and
  failed add up to the events handled (modulo \<open>2 ^ 64\<close>), and the counter of a type, or of a source, is the
  number of events of that type or source that pass the filters.
\<close>

theorem debug_consumer_counts:
  assumes "NewDebugConsumer config = Inr c0"
  shows "let c = debug_run env evs c0 in
    db_eventsProcessed c + db_errorsCount c = of_nat (length evs) \<and>
    counted (db_eventsByType c) t = of_nat (length (filter (\<lambda>ev. passes (db_config c0) ev \<and> MetricType ev = t) evs)) \<and>
    counted (db_eventsBySource c) t = of_nat (length (filter (\<lambda>ev. passes (db_config c0) ev \<and> Source ev = t) evs))"
proof -
  have "db_eventsProcessed c0 = 0" "db_errorsCount c0 = 0" "db_eventsByType c0 = Map.empty" "db_eventsBySource c0 = Map.empty"
    using assms by (auto simp: NewDebugConsumer_def debug_Validate_def split: if_splits)
  then show ?thesis using debug_run_counts [of env evs c0 t] by (simp add: Let_def counted_def)
qed

definition demo_debug_env :: "nat debug_env" where
  "demo_debug_env = \<lparr>de_json = (\<lambda>_. Inr ''1''), de_type = (\<lambda>_. ''int''), de_show = (\<lambda>_. ''1''), de_entry = (\<lambda>_. None), de_now = ''noon''\<rparr>"

definition demo_debug_event :: "bytes \<Rightarrow> nat option metric_event" where
  "demo_debug_event mt = \<lparr>Timestamp = 0, Source = ''s'', NodeName = ''n'', ClusterName = [], MetricType = mt, Data = Some 1\<rparr>"

theorem debug_consumer_counts_witness:
  "\<exists>c0. NewDebugConsumer debug_DefaultConfig = Inr c0 \<and>
     (let c = debug_run demo_debug_env (map demo_debug_event [''cpu'', ''disk'', ''cpu'']) c0
      in db_eventsProcessed c + db_errorsCount c = 3 \<and> counted (db_eventsByType c) ''cpu'' = 2)"
proof -
  obtain c0 where c0: "NewDebugConsumer debug_DefaultConfig = Inr c0" "db_config c0 = debug_DefaultConfig"
    by (auto simp: NewDebugConsumer_def debug_Validate_def debug_DefaultConfig_def format_IsValid_def)
  have "passes debug_DefaultConfig (demo_debug_event mt)" "MetricType (demo_debug_event mt) = mt" for mt
    by (simp_all add: passes_def ShouldLogMetricType_def ShouldLogSource_def debug_DefaultConfig_def demo_debug_event_def)
  with debug_consumer_counts [OF c0(1), of demo_debug_env "map demo_debug_event [''cpu'', ''disk'', ''cpu'']" "''cpu''"] c0
  show ?thesis by (simp add: Let_def)
qed

text \<open>A payload in a text line is no longer than the limit and the note of its full length.\<close>

lemma cut_text_bound:
  "0 < dc_MaxDataLength c \<Longrightarrow> length (cut_text c s) \<le> nat (dc_MaxDataLength c) + length (''... (truncated from '' @ show_nat (length s) @ '' chars)'')"
  by (simp add: cut_text_def) arith

lemma clean_cut_prefix: "\<exists>n. clean_cut s = take n s"
  by (auto simp: clean_cut_def split: option.split intro: exI [of _ "length s"])

end
