(* ===== verification/ExecSnoop.thy ===== *)
theory ExecSnoop
  imports HardwareInfo Performance "HOL-Library.Word"
begin

unbundle bit_operations_syntax

text \<open>
  Process executions: the eBPF program (\<open>ebpf/src/execsnoop.bpf.c\<close>) that writes a sample for every
  \<open>execve\<close> to a ring buffer, the collector that reads and parses the samples
  (\<open>pkg/performance/collectors/execsnoop.go\<close>) and the checks of the kernel (\<open>pkg/ebpf/core/core.go\<close>).
  Attaching programs, the ring buffer and the kernel's helpers are passed in.
\<close>

section \<open>Samples\<close>

text \<open>\<open>struct execsnoop_event\<close>, 40 bytes, little endian; the arguments follow.\<close>

record exec_header =
  xh_pid :: "32 word"
  xh_ppid :: "32 word"
  xh_uid :: "32 word"
  xh_retval :: "32 word"
  xh_args_count :: "32 word"
  xh_args_size :: "32 word"
  xh_comm :: bytes

abbreviation NUL :: char where "NUL \<equiv> CHR 0x00"

definition le32 :: "bytes \<Rightarrow> 32 word" where
  "le32 bs = word_of_nat (ord (bs ! 0) + 256 * (ord (bs ! 1) + 256 * (ord (bs ! 2) + 256 * ord (bs ! 3))))"

definition put32 :: "32 word \<Rightarrow> bytes" where
  "put32 w = (let n = unat w in
     [byte (n mod 256), byte (n div 256 mod 256), byte (n div 65536 mod 256), byte (n div 16777216 mod 256)])"

definition header_size :: nat where "header_size = 40"

definition decode_header :: "bytes \<Rightarrow> exec_header" where
  "decode_header data =
     \<lparr>xh_pid = le32 data, xh_ppid = le32 (drop 4 data), xh_uid = le32 (drop 8 data), xh_retval = le32 (drop 12 data),
      xh_args_count = le32 (drop 16 data), xh_args_size = le32 (drop 20 data), xh_comm = take 16 (drop 24 data)\<rparr>"

definition encode_header :: "exec_header \<Rightarrow> bytes" where
  "encode_header h = put32 (xh_pid h) @ put32 (xh_ppid h) @ put32 (xh_uid h) @ put32 (xh_retval h) @
     put32 (xh_args_count h) @ put32 (xh_args_size h) @ xh_comm h"

section \<open>The eBPF program\<close>

definition ARGSIZE :: nat where "ARGSIZE = 128"
definition FULL_MAX_ARGS_ARR :: "32 word" where "FULL_MAX_ARGS_ARR = 7680"

text \<open>
  The loop over the arguments, at most 20: an argument is the string it points to, or \<open>None\<close> when it
  cannot be read; the list ends where the pointer is null. A string is cut to \<open>ARGSIZE\<close> with its final zero.
\<close>

fun enter_args :: "nat \<Rightarrow> bytes option list \<Rightarrow> 32 word \<times> 32 word \<times> bytes \<Rightarrow> 32 word \<times> 32 word \<times> bytes" where
  "enter_args (Suc n) (Some s # args) (count, sz, buf) =
     (if sz > FULL_MAX_ARGS_ARR - of_nat ARGSIZE then (count, sz, buf)
      else (let str = take (ARGSIZE - 1) s @ [NUL]; ret = word_of_nat (length str) in
            if sz + ret \<le> FULL_MAX_ARGS_ARR then enter_args n args (count + 1, sz + ret, buf @ str)
            else (count, sz, buf)))"
| "enter_args _ _ acc = acc"

record bpf_state =
  bpf_execs :: "32 word \<rightharpoonup> exec_header \<times> bytes"
  bpf_ring :: "bytes list"

definition sys_enter_execve :: "32 word \<Rightarrow> 32 word \<Rightarrow> 32 word \<Rightarrow> bytes option list \<Rightarrow> bpf_state \<Rightarrow> bpf_state" where
  "sys_enter_execve pid ppid uid args b =
     (case enter_args 20 args (0, 0, []) of
        (count, sz, buf) \<Rightarrow>
          b\<lparr>bpf_execs := (bpf_execs b)(pid \<mapsto>
            (\<lparr>xh_pid = pid, xh_ppid = ppid, xh_uid = uid, xh_retval = 0, xh_args_count = count, xh_args_size = sz,
              xh_comm = []\<rparr>, buf))\<rparr>)"

text \<open>
  A sample always has room for all arguments; \<open>old\<close> is what the reserved memory held. Without room in the
  ring buffer the event is dropped.
\<close>

definition exec_sample :: "32 word \<Rightarrow> bytes \<Rightarrow> bytes \<Rightarrow> exec_header \<times> bytes \<Rightarrow> bytes" where
  "exec_sample retval comm old event =
     (let args_size = xh_args_size (fst event) AND FULL_MAX_ARGS_ARR;
          header = (fst event)\<lparr>xh_retval := retval, xh_comm := comm, xh_args_size := args_size\<rparr> in
      encode_header header @ take (unat args_size) (snd event) @ drop (unat args_size) old)"

definition sys_exit_execve :: "32 word \<Rightarrow> 32 word \<Rightarrow> bytes \<Rightarrow> bytes \<Rightarrow> bool \<Rightarrow> bpf_state \<Rightarrow> bpf_state" where
  "sys_exit_execve pid retval comm old room b =
     (case bpf_execs b pid of
        None \<Rightarrow> b
      | Some event \<Rightarrow>
          b\<lparr>bpf_execs := (bpf_execs b)(pid := None),
            bpf_ring := (if room then bpf_ring b @ [exec_sample retval comm old event] else bpf_ring b)\<rparr>)"

section \<open>Parsing a sample\<close>

record exec_event =
  ee_PID :: int
  ee_PPID :: int
  ee_UID :: "32 word"
  ee_RetVal :: int
  ee_Command :: bytes
  ee_Args :: "bytes list"

datatype exec_error = EventTooSmall nat | ArgsSizeMismatch nat nat

text \<open>The loop that splits zero-terminated strings; an argument without its zero is not kept, nor an empty one.\<close>

fun split_args :: "nat \<Rightarrow> bytes \<Rightarrow> bytes \<Rightarrow> bytes list \<Rightarrow> bytes list" where
  "split_args limit [] currentArg args = args"
| "split_args limit (c # cs) currentArg args =
     (if length args < limit
      then (if c = NUL
            then (if length currentArg > 0 then split_args limit cs [] (args @ [currentArg]) else split_args limit cs currentArg args)
            else split_args limit cs (currentArg @ [c]) args)
      else args)"

definition command_name :: "bytes \<Rightarrow> bytes list \<Rightarrow> bytes" where
  "command_name comm args =
     (case args of
        [] \<Rightarrow> comm
      | arg # _ \<Rightarrow>
          (let cmdPath = trim_space arg; basename = filepath_Base cmdPath in
           if length arg > 0 \<and> cmdPath \<noteq> [] \<and> basename \<noteq> [] \<and> basename \<noteq> ''.'' \<and> basename \<noteq> ''/'' then basename else comm))"

text \<open>\<open>None\<close> is the panic of \<open>make\<close> with a negative capacity.\<close>

definition ParseEvent :: "bytes \<Rightarrow> (exec_error, exec_event) result option" where
  "ParseEvent data =
     (if length data < header_size then Some (Inl (EventTooSmall (length data)))
      else (let raw = decode_header data; argsData = drop header_size data in
            if sint (xh_args_count raw) < 0 then None
            else if unat (xh_args_size raw) > length argsData
            then Some (Inl (ArgsSizeMismatch (unat (xh_args_size raw)) (length argsData)))
            else (let comm = rev (dropWhile (\<lambda>c. c = NUL) (rev (xh_comm raw)));
                      args = split_args (nat (sint (xh_args_count raw))) (take (unat (xh_args_size raw)) argsData) [] [] in
                  Some (Inr \<lparr>ee_PID = sint (xh_pid raw), ee_PPID = sint (xh_ppid raw), ee_UID = xh_uid raw,
                    ee_RetVal = sint (xh_retval raw), ee_Command = command_name comm args, ee_Args = args\<rparr>))))"

section \<open>The collector\<close>

record execsnoop =
  xs_path :: bytes
  xs_status :: collector_status
  xs_error :: bool
  xs_core :: bool
  xs_objs :: bool
  xs_enterLink :: bool
  xs_exitLink :: bool
  xs_reader :: bool
  xs_chan :: "exec_event list option"
  xs_loops :: nat

definition NewExecSnoopCollector :: "(bytes \<Rightarrow> bytes) \<Rightarrow> bytes \<Rightarrow> execsnoop" where
  "NewExecSnoopCollector getenv bpfObjectPath =
     \<lparr>xs_path =
        (if bpfObjectPath \<noteq> [] then bpfObjectPath
         else if getenv ''ANTIMETAL_BPF_PATH'' \<noteq> [] then filepath_Join [getenv ''ANTIMETAL_BPF_PATH'', ''execsnoop.bpf.o'']
         else ''/usr/local/lib/antimetal/ebpf/execsnoop.bpf.o''),
      xs_status = CollectorStatusDisabled, xs_error = False, xs_core = False, xs_objs = False, xs_enterLink = False,
      xs_exitLink = False, xs_reader = False, xs_chan = None, xs_loops = 0\<rparr>"

text \<open>What the kernel lets the collector do; the programs and the map may be missing from the object file.\<close>

record exec_kernel =
  xk_memlock :: bool
  xk_core :: bool
  xk_load :: bool
  xk_enterProg :: bool
  xk_exitProg :: bool
  xk_enterLink :: bool
  xk_exitLink :: bool
  xk_events :: bool
  xk_reader :: bool

datatype exec_start_error =
  AlreadyRunning | MemlockFailed | CoreFailed | LoadFailed | EnterProgMissing | ExitProgMissing | EnterLinkFailed
| ExitLinkFailed | EventsMissing | ReaderFailed

definition exec_cleanup :: "execsnoop \<Rightarrow> execsnoop" where
  "exec_cleanup c = c\<lparr>xs_reader := False, xs_enterLink := False, xs_exitLink := False, xs_objs := False\<rparr>"

definition exec_Start :: "exec_kernel \<Rightarrow> execsnoop \<Rightarrow> exec_start_error option \<times> execsnoop" where
  "exec_Start k c =
     (if xs_status c = CollectorStatusActive then (Some AlreadyRunning, c)
      else if \<not> xk_memlock k then (Some MemlockFailed, c)
      else if \<not> xs_core c \<and> \<not> xk_core k then (Some CoreFailed, c)
      else (let c = c\<lparr>xs_core := True\<rparr> in
        if \<not> xk_load k then (Some LoadFailed, c)
        else (let c = c\<lparr>xs_objs := True\<rparr> in
          if \<not> xk_enterProg k then (Some EnterProgMissing, exec_cleanup c)
          else if \<not> xk_exitProg k then (Some ExitProgMissing, exec_cleanup c)
          else if \<not> xk_enterLink k then (Some EnterLinkFailed, exec_cleanup c)
          else (let c = c\<lparr>xs_enterLink := True\<rparr> in
            if \<not> xk_exitLink k then (Some ExitLinkFailed, exec_cleanup c)
            else (let c = c\<lparr>xs_exitLink := True\<rparr> in
              if \<not> xk_events k then (Some EventsMissing, exec_cleanup c)
              else if \<not> xk_reader k then (Some ReaderFailed, exec_cleanup c)
              else (None, c\<lparr>xs_reader := True, xs_chan := Some [], xs_loops := xs_loops c + 1,
                            xs_status := CollectorStatusActive\<rparr>))))))"

text \<open>
  One turn of the loop of \<open>readEvents\<close>, by what the context and the reader do. The channel holds 100
  events; a full one drops the event. \<open>None\<close> is a panic.
\<close>

datatype read_outcome = CtxDone | ReaderClosed | ReadFailed | Sample bytes

definition readEvents_exit :: "execsnoop \<Rightarrow> execsnoop" where
  "readEvents_exit c = (exec_cleanup c)\<lparr>xs_chan := None, xs_status := CollectorStatusDisabled, xs_loops := xs_loops c - 1\<rparr>"

definition readEvents_turn :: "read_outcome \<Rightarrow> execsnoop \<Rightarrow> execsnoop option" where
  "readEvents_turn r c =
     (case r of
        CtxDone \<Rightarrow> Some (readEvents_exit c)
      | ReaderClosed \<Rightarrow> Some (readEvents_exit c)
      | ReadFailed \<Rightarrow> Some (c\<lparr>xs_error := True, xs_status := CollectorStatusFailed\<rparr>)
      | Sample data \<Rightarrow>
          (case ParseEvent data of
             None \<Rightarrow> None
           | Some (Inl _) \<Rightarrow> Some c
           | Some (Inr ev) \<Rightarrow>
               Some (case xs_chan c of
                       None \<Rightarrow> c
                     | Some q \<Rightarrow> if length q < 100 then c\<lparr>xs_chan := Some (q @ [ev])\<rparr> else c)))"

section \<open>Samples are read back\<close>

lemma length_put32 [simp]: "length (put32 w) = 4"
  by (simp add: put32_def Let_def)

lemma ord_byte [simp]: "n < 256 \<Longrightarrow> ord (byte n) = n"
  by (simp add: byte_def)

lemma le32_put32 [simp]: "le32 (put32 w @ rest) = w"
proof -
  let ?n = "unat w"
  have "?n < 4294967296" using unsigned_less [where w = w and ?'a = nat] by simp
  then have top: "?n div 256 div 256 div 256 mod 256 = ?n div 256 div 256 div 256"
    by (intro mod_less) (simp add: div_mult2_eq [symmetric] less_mult_imp_div_less)
  have digits: "?n div 65536 = ?n div 256 div 256" "?n div 16777216 = ?n div 256 div 256 div 256"
    by (simp_all add: div_mult2_eq [symmetric])
  have sum: "?n mod 256 + 256 * (?n div 256 mod 256 + 256 * (?n div 65536 mod 256 + 256 * (?n div 16777216 mod 256))) = ?n"
    unfolding digits top mod_mult_div_eq ..
  have val: "ord (byte (m mod 256)) = m mod 256" for m by simp
  show ?thesis
    unfolding le32_def put32_def Let_def append_Cons nth_Cons_0 nth_Cons_Suc One_nat_def numeral_2_eq_2 numeral_3_eq_3 val sum
    by simp
qed

lemma length_encode_header [simp]: "length (xh_comm h) = 16 \<Longrightarrow> length (encode_header h) = header_size"
  by (simp add: encode_header_def header_size_def)

lemma decode_encode_header: "length (xh_comm h) = 16 \<Longrightarrow> decode_header (encode_header h @ rest) = h"
  by (simp add: decode_header_def encode_header_def)

lemma split_args_one:
  assumes "NUL \<notin> set a" "cur @ a \<noteq> []" "length args < limit"
  shows "split_args limit (a @ NUL # cs) cur args = split_args limit cs [] (args @ [cur @ a])"
  using assms by (induction a arbitrary: cur) auto

lemma split_args_all:
  assumes "\<forall>a \<in> set as. a \<noteq> [] \<and> NUL \<notin> set a" "length args + length as \<le> limit"
  shows "split_args limit (concat (map (\<lambda>a. a @ [NUL]) as)) [] args = args @ as"
  using assms
proof (induction as arbitrary: args)
  case (Cons a as)
  then show ?case using split_args_one [of a "[]" args limit] by simp
qed simp

lemma sint_of_nat32: "n < 2 ^ 31 \<Longrightarrow> sint (word_of_nat n :: 32 word) = int n"
  by (simp add: signed_of_nat signed_take_bit_int_eq_self)

section \<open>The arguments on the kernel's side\<close>

definition cut_arg :: "bytes \<Rightarrow> bytes" where
  "cut_arg s = take (ARGSIZE - 1) s @ [NUL]"

lemma enter_args_small:
  assumes "k + length (concat (map cut_arg (take n strs))) < 512"
  shows "enter_args n (map Some strs) (count, word_of_nat k, buf) =
    (count + word_of_nat (min n (length strs)), word_of_nat (k + length (concat (map cut_arg (take n strs)))),
     buf @ concat (map cut_arg (take n strs)))"
  using assms
proof (induction n arbitrary: strs count k buf)
  case (Suc n)
  show ?case
  proof (cases strs)
    case (Cons s strs')
    let ?str = "cut_arg s"
    have small: "k + length ?str < 512" and rest: "k + length ?str + length (concat (map cut_arg (take n strs'))) < 512"
      using Suc.prems Cons by simp_all
    have nat: "unat (word_of_nat m :: 32 word) = m" if "m < 512" for m using that by (simp add: unat_of_nat)
    have "\<not> (word_of_nat k :: 32 word) > FULL_MAX_ARGS_ARR - of_nat ARGSIZE"
      using nat [of k] small by (simp add: word_less_nat_alt FULL_MAX_ARGS_ARR_def ARGSIZE_def)
    moreover have "word_of_nat k + word_of_nat (length ?str) \<le> FULL_MAX_ARGS_ARR"
      using nat [OF small] small by (simp add: word_le_nat_alt FULL_MAX_ARGS_ARR_def)
    ultimately show ?thesis
      using Suc.IH [OF rest, of "count + 1" "buf @ ?str"] by (simp add: Cons cut_arg_def Let_def algebra_simps)
  qed simp
qed simp

lemma low_high_bits: "take_bit n w AND push_bit n v = (0 :: 32 word)"
  by (rule bit_eqI) (auto simp: bit_simps)

lemma mask_small: "unat (w :: 32 word) < 512 \<Longrightarrow> w AND FULL_MAX_ARGS_ARR = 0"
proof -
  assume "unat w < 512"
  then have "unat (take_bit 9 w) = unat w" by (simp add: unsigned_take_bit_eq take_bit_nat_eq_self)
  then have "take_bit 9 w = w" by (simp only: word_unat_eq_iff)
  moreover have "FULL_MAX_ARGS_ARR = push_bit 9 15" by (simp add: FULL_MAX_ARGS_ARR_def push_bit_eq_mult)
  ultimately have "w AND FULL_MAX_ARGS_ARR = take_bit 9 w AND push_bit 9 15" by simp
  also have "\<dots> = 0" by (rule low_high_bits)
  finally show ?thesis .
qed

section \<open>Properties\<close>

definition trim_comm :: "bytes \<Rightarrow> bytes" where
  "trim_comm comm = rev (dropWhile (\<lambda>c. c = NUL) (rev comm))"

lemma ParseEvent_header:
  assumes "length (xh_comm h) = 16" "\<not> sint (xh_args_count h) < 0" "unat (xh_args_size h) \<le> length argsData"
  shows "ParseEvent (encode_header h @ argsData) =
    (let args = split_args (nat (sint (xh_args_count h))) (take (unat (xh_args_size h)) argsData) [] [] in
     Some (Inr \<lparr>ee_PID = sint (xh_pid h), ee_PPID = sint (xh_ppid h), ee_UID = xh_uid h, ee_RetVal = sint (xh_retval h),
       ee_Command = command_name (trim_comm (xh_comm h)) args, ee_Args = args\<rparr>))"
  using assms by (simp add: ParseEvent_def decode_encode_header Let_def trim_comm_def)

text \<open>
  C39. A sample that carries its arguments is read back: the numbers with their signs and all arguments, if none
  is empty or holds a zero byte and count and size are those of the arguments; whatever follows them is ignored.
\<close>

theorem exec_sample_parsed:
  assumes "length (xh_comm h) = 16" "\<forall>a \<in> set args. a \<noteq> [] \<and> NUL \<notin> set a" "length args < 2 ^ 31"
    and "data = concat (map (\<lambda>a. a @ [NUL]) args)" "length data < 2 ^ 32"
    and "xh_args_count h = word_of_nat (length args)" "xh_args_size h = word_of_nat (length data)"
  shows "ParseEvent (encode_header h @ data @ rest) =
    Some (Inr \<lparr>ee_PID = sint (xh_pid h), ee_PPID = sint (xh_ppid h), ee_UID = xh_uid h, ee_RetVal = sint (xh_retval h),
      ee_Command = command_name (trim_comm (xh_comm h)) args, ee_Args = args\<rparr>)"
proof -
  have count: "sint (xh_args_count h) = int (length args)" using assms(3,6) sint_of_nat32 by simp
  have size: "unat (xh_args_size h) = length data" using assms(5,7) by (simp add: unat_of_nat take_bit_nat_eq_self)
  have "split_args (length args) data [] [] = args"
    using split_args_all [OF assms(2), of "[]" "length args"] assms(4) by simp
  then show ?thesis using ParseEvent_header [OF assms(1), of "data @ rest"] count size by (simp add: Let_def)
qed

definition demo_header :: exec_header where
  "demo_header = \<lparr>xh_pid = 7, xh_ppid = 1, xh_uid = 0, xh_retval = - 2, xh_args_count = 2, xh_args_size = 10,
     xh_comm = ''ls'' @ replicate 14 NUL\<rparr>"

theorem exec_sample_parsed_witness:
  "ParseEvent (encode_header demo_header @ (''/bin/ls'' @ [NUL] @ ''a'' @ [NUL]) @ ''junk'') =
     Some (Inr \<lparr>ee_PID = 7, ee_PPID = 1, ee_UID = 0, ee_RetVal = - 2, ee_Command = ''ls'', ee_Args = [''/bin/ls'', ''a'']\<rparr>)"
proof -
  have name: "command_name (trim_comm (xh_comm demo_header)) [''/bin/ls'', ''a''] = ''ls''" by code_simp
  have nums: "sint (xh_pid demo_header) = 7" "sint (xh_ppid demo_header) = 1" "xh_uid demo_header = 0" "sint (xh_retval demo_header) = - 2"
    "length (xh_comm demo_header) = 16" "xh_args_count demo_header = word_of_nat 2" "xh_args_size demo_header = word_of_nat 10"
    by (simp_all add: demo_header_def)
  from exec_sample_parsed [of demo_header "[''/bin/ls'', ''a'']" "''/bin/ls'' @ [NUL] @ ''a'' @ [NUL]" "''junk''"]
  show ?thesis unfolding nums name using nums by simp
qed

text \<open>
  C38. The arguments that the eBPF program collects do not arrive. When the arguments of a process (at most 20,
  each cut to 127 bytes) take less than 512 bytes in all, the sample that is written when \<open>execve\<close>
  returns has the size 0 for them, because the size is masked with 7680, which is no mask for
  its range; the collector reports the process without arguments.
\<close>

theorem exec_arguments_lost:
  assumes "length (concat (map cut_arg (take 20 args))) < 512" "length comm = 16" "length old = 7680"
  shows "\<exists>sample ev. bpf_ring (sys_exit_execve pid retval comm old True (sys_enter_execve pid ppid uid (map Some args) b)) =
      bpf_ring b @ [sample] \<and>
    ParseEvent sample = Some (Inr ev) \<and> ee_PID ev = sint pid \<and> ee_Args ev = [] \<and> ee_Command ev = trim_comm comm"
proof -
  let ?blob = "concat (map cut_arg (take 20 args))"
  let ?h = "\<lparr>xh_pid = pid, xh_ppid = ppid, xh_uid = uid, xh_retval = 0, xh_args_count = word_of_nat (min 20 (length args)),
    xh_args_size = word_of_nat (length ?blob), xh_comm = []\<rparr>"
  let ?h' = "?h\<lparr>xh_retval := retval, xh_comm := comm, xh_args_size := 0\<rparr>"
  have enter: "enter_args 20 (map Some args) (0, 0, []) = (word_of_nat (min 20 (length args)), word_of_nat (length ?blob), ?blob)"
    using enter_args_small [of 0 20 args 0 "[]"] assms(1) by simp
  have masked: "(word_of_nat (length ?blob) :: 32 word) AND FULL_MAX_ARGS_ARR = 0"
    by (rule mask_small) (use assms(1) in \<open>simp add: unat_of_nat take_bit_nat_eq_self\<close>)
  have sample: "exec_sample retval comm old (?h, ?blob) = encode_header ?h' @ old"
    by (simp only: exec_sample_def Let_def fst_conv snd_conv masked exec_header.simps) simp
  have count: "\<not> sint (word_of_nat (min 20 (length args)) :: 32 word) < 0"
    using sint_of_nat32 [of "min 20 (length args)"] by simp
  have "ParseEvent (encode_header ?h' @ old) = Some (Inr \<lparr>ee_PID = sint pid, ee_PPID = sint ppid, ee_UID = uid, ee_RetVal = sint retval,
      ee_Command = trim_comm comm, ee_Args = []\<rparr>)"
    using ParseEvent_header [of ?h' old] assms(2) count by (simp add: Let_def command_name_def)
  then show ?thesis by (simp add: sys_enter_execve_def enter sys_exit_execve_def sample del: of_nat_min)
qed

theorem exec_arguments_lost_witness:
  "\<exists>sample ev. bpf_ring (sys_exit_execve 7 0 (''ls'' @ replicate 14 NUL) (replicate 7680 NUL) True
       (sys_enter_execve 7 1 0 (map Some [''/bin/ls'', ''-l'']) \<lparr>bpf_execs = Map.empty, bpf_ring = []\<rparr>)) = [sample] \<and>
     ParseEvent sample = Some (Inr ev) \<and> ee_Args ev = [] \<and> ee_Command ev = ''ls''"
proof -
  have "length (concat (map cut_arg (take 20 [''/bin/ls'', ''-l'']))) < 512" by (simp add: cut_arg_def ARGSIZE_def)
  moreover have "trim_comm (''ls'' @ replicate 14 NUL) = ''ls''" by code_simp
  moreover have "length (''ls'' @ replicate 14 NUL) = 16" "length (replicate 7680 NUL) = 7680" by (simp_all only: length_append length_replicate) simp
  ultimately show ?thesis
    using exec_arguments_lost [of "[''/bin/ls'', ''-l'']" "''ls'' @ replicate 14 NUL" "replicate 7680 NUL" 7 0 1 0
        "\<lparr>bpf_execs = Map.empty, bpf_ring = []\<rparr>"] by (simp only: bpf_state.simps append_Nil) blast
qed

text \<open>A start that fails leaves no program, link or reader open.\<close>

lemma exec_Start_clean:
  assumes "exec_Start k c = (Some e, c')" "\<not> xs_objs c" "\<not> xs_enterLink c" "\<not> xs_exitLink c" "\<not> xs_reader c"
  shows "\<not> xs_objs c' \<and> \<not> xs_enterLink c' \<and> \<not> xs_exitLink c' \<and> \<not> xs_reader c' \<and> xs_chan c' = xs_chan c \<and> xs_loops c' = xs_loops c"
  using assms by (auto simp: exec_Start_def exec_cleanup_def Let_def split: if_splits)

text \<open>After a read error the loop goes on but the status is not active, and the collector can be started a second time.\<close>

lemma exec_second_loop:
  assumes "exec_Start k c = (None, c1)" "readEvents_turn ReadFailed c1 = Some c2" "exec_Start k c2 = (e, c3)"
  shows "e = None \<and> xs_loops c3 = xs_loops c + 2"
  using assms by (auto simp: exec_Start_def readEvents_turn_def Let_def split: if_splits)

end
