(* ===== verification/AgentInstance.thy ===== *)
theory AgentInstance
  imports Containers Performance HostParsers "HOL-Library.Word"
begin

text \<open>
  What the agent says about itself and its kernel: the instance message (\<open>internal/runtime/instance.go\<close>) and
  the support for eBPF (\<open>pkg/ebpf/core/core.go\<close>). The build variables, the environment, the files and the
  probes of the kernel are arguments; the iteration order of the registry is the list of its keys.
\<close>

section \<open>The instance\<close>

record semantic_version =
  sv_Major :: "32 word"
  sv_Minor :: "32 word"
  sv_Patch :: "32 word"

record build_info =
  bi_Version :: semantic_version
  bi_Revision :: bytes

definition uint32_or :: "bytes \<Rightarrow> 32 word" where
  "uint32_or s = (case parse_uint 32 s of None \<Rightarrow> 0 | Some n \<Rightarrow> word_of_nat n)"

definition getBuildInfo :: "bytes \<Rightarrow> bytes \<Rightarrow> bytes \<Rightarrow> bytes \<Rightarrow> build_info" where
  "getBuildInfo buildMajor buildMinor buildPatch buildRev =
     \<lparr>bi_Version = \<lparr>sv_Major = uint32_or buildMajor, sv_Minor = uint32_or buildMinor, sv_Patch = uint32_or buildPatch\<rparr>,
      bi_Revision = buildRev\<rparr>"

datatype cgroup_driver = CGROUP_DRIVER_SYSTEMD | CGROUP_DRIVER_CGROUPFS

record cgroup_info =
  ci_v2 :: bool
  ci_driver :: cgroup_driver

text \<open>\<open>is_dir\<close> is \<open>os.Stat\<close> of a path, and whether it is a directory.\<close>

definition getCgroupInfo :: "(bytes \<Rightarrow> bytes) \<Rightarrow> cgroup_fs \<Rightarrow> (bytes \<Rightarrow> bool) \<Rightarrow> cgroup_info option" where
  "getCgroupInfo getenv fs is_dir =
     (let hostSysPath = (if getenv ''HOST_SYS'' = [] then ''/sys'' else getenv ''HOST_SYS'');
          cgroupPath = filepath_Join [hostSysPath, ''fs'', ''cgroup''] in
      case DetectCgroupVersion fs cgroupPath of
        None \<Rightarrow> None
      | Some cgroupVer \<Rightarrow>
          Some \<lparr>ci_v2 = (cgroupVer = 2),
                ci_driver = (if is_dir (filepath_Join [cgroupPath, ''system.slice'']) then CGROUP_DRIVER_SYSTEMD
                             else CGROUP_DRIVER_CGROUPFS)\<rparr>)"

record linux_runtime =
  lr_KernelVersion :: bytes
  lr_CgroupInfo :: cgroup_info

definition getLinuxRuntime :: "bytes option \<Rightarrow> (bytes \<Rightarrow> bytes) \<Rightarrow> cgroup_fs \<Rightarrow> (bytes \<Rightarrow> bool) \<Rightarrow> linux_runtime option" where
  "getLinuxRuntime proc_version getenv fs is_dir =
     (case GetCurrentVersion proc_version of
        Inl _ \<Rightarrow> None
      | Inr v \<Rightarrow> map_option (\<lambda>ci. \<lparr>lr_KernelVersion = Raw v, lr_CgroupInfo = ci\<rparr>) (getCgroupInfo getenv fs is_dir))"

definition excludedCollectors :: "metric_type list" where
  "excludedCollectors = [MetricTypeCPUInfo, MetricTypeMemoryInfo, MetricTypeDiskInfo, MetricTypeNetworkInfo, MetricTypeProcess]"

text \<open>\<open>GetAvailableCollectors\<close>: the keys of the registry, in the order \<open>order\<close> of the iteration.\<close>

definition GetAvailableCollectors :: "metric_type list \<Rightarrow> 'c registry \<Rightarrow> metric_type list" where
  "GetAvailableCollectors order reg = filter (\<lambda>mt. GetCollector reg mt \<noteq> None) order"

definition getSupportedCollectors :: "metric_type list \<Rightarrow> 'c registry \<Rightarrow> bytes list" where
  "getSupportedCollectors order reg =
     filter (\<lambda>mt. \<not> List.member excludedCollectors mt) (GetAvailableCollectors order reg)"

record agent_instance =
  ai_Id :: bytes
  ai_Build :: build_info
  ai_SupportedCollectors :: "bytes list"
  ai_LinuxRuntime :: "linux_runtime option"

text \<open>\<open>None\<close> is the panic when no identifier can be made; the runtime is left out when it cannot be read.\<close>

definition createInstance :: "bytes option \<Rightarrow> build_info \<Rightarrow> bytes list \<Rightarrow> linux_runtime option \<Rightarrow> agent_instance option" where
  "createInstance uuid build collectors linux =
     map_option (\<lambda>i. \<lparr>ai_Id = i, ai_Build = build, ai_SupportedCollectors = collectors, ai_LinuxRuntime = linux\<rparr>) uuid"

lemma supported_collectors_exact:
  assumes "\<And>mt. GetCollector reg mt \<noteq> None \<Longrightarrow> mt \<in> set order"
  shows "set (getSupportedCollectors order reg) = {mt. GetCollector reg mt \<noteq> None} - set excludedCollectors"
  using assms by (auto simp: getSupportedCollectors_def GetAvailableCollectors_def)

lemma build_info_numbers:
  assumes "a < 2 ^ 32"
  shows "unat (sv_Major (bi_Version (getBuildInfo (show_nat a) b c r))) = a"
proof -
  have "parse_uint 32 (show_nat a) = Some a" using assms by (simp add: parse_uint_def)
  then show ?thesis using assms by (simp add: getBuildInfo_def uint32_or_def unat_of_nat take_bit_nat_eq_self)
qed

section \<open>Support for eBPF\<close>

datatype core_support = CoreFull | CorePartial | CoreNone

record kernel_features =
  kf_KernelVersion :: bytes
  kf_HasBTF :: bool
  kf_BTFPath :: bytes
  kf_CORESupport :: core_support
  kf_RequiredKernel :: bytes

text \<open>\<open>btf\<close> is what \<open>os.Stat\<close> says of the kernel's BTF file.\<close>

datatype stat_outcome = Exists | NotExists | StatFailed

definition btf_path :: bytes where "btf_path = ''/sys/kernel/btf/vmlinux''"

definition detectKernelFeatures :: "bytes option \<Rightarrow> (bytes \<Rightarrow> stat_outcome) \<Rightarrow> (version_error, kernel_features) result" where
  "detectKernelFeatures proc_version stat =
     result_bind (GetCurrentVersion proc_version) (\<lambda>version.
     let btf = (stat btf_path = Exists) in
     Inr \<lparr>kf_KernelVersion = Raw version, kf_HasBTF = btf, kf_BTFPath = (if btf then btf_path else []),
          kf_CORESupport = (if IsAtLeast version 5 2 then CoreFull else if IsAtLeast version 4 18 then CorePartial else CoreNone),
          kf_RequiredKernel = (if IsAtLeast version 5 2 then ''5.2'' else ''4.18'')\<rparr>)"

definition HasFullCORESupport :: "kernel_features \<Rightarrow> bool" where
  "HasFullCORESupport f \<longleftrightarrow> kf_CORESupport f = CoreFull"

datatype support_error = BtfMissing | BtfUnknown | NoKernelVersion version_error | KernelTooOld bytes | ProbeFailed

definition CheckBTFSupport :: "(bytes \<Rightarrow> stat_outcome) \<Rightarrow> support_error option" where
  "CheckBTFSupport stat = (case stat btf_path of Exists \<Rightarrow> None | NotExists \<Rightarrow> Some BtfMissing | StatFailed \<Rightarrow> Some BtfUnknown)"

definition check_version :: "bytes option \<Rightarrow> int \<Rightarrow> int \<Rightarrow> bool \<Rightarrow> support_error option" where
  "check_version proc_version major minor probe =
     (case GetCurrentVersion proc_version of
        Inl e \<Rightarrow> Some (NoKernelVersion e)
      | Inr v \<Rightarrow>
          if \<not> IsAtLeast v major minor then Some (KernelTooOld (Raw v))
          else if \<not> probe then Some ProbeFailed else None)"

definition CheckRingBufferSupport :: "bytes option \<Rightarrow> bool \<Rightarrow> support_error option" where
  "CheckRingBufferSupport proc_version have_ringbuf = check_version proc_version 5 8 have_ringbuf"

definition CheckPerfBufferSupport :: "bytes option \<Rightarrow> bool \<Rightarrow> support_error option" where
  "CheckPerfBufferSupport proc_version have_kprobe = check_version proc_version 4 4 have_kprobe"

definition CheckCORESupport :: "bytes option \<Rightarrow> (bytes \<Rightarrow> stat_outcome) \<Rightarrow> support_error option" where
  "CheckCORESupport proc_version stat =
     (case GetCurrentVersion proc_version of
        Inl e \<Rightarrow> Some (NoKernelVersion e)
      | Inr version \<Rightarrow>
          if \<not> IsAtLeast version 4 18 then Some (KernelTooOld (Raw version))
          else (case detectKernelFeatures proc_version stat of
                  Inl e \<Rightarrow> Some (NoKernelVersion e)
                | Inr f \<Rightarrow> if kf_CORESupport f = CoreNone then Some (KernelTooOld (Raw version)) else None))"

text \<open>The check agrees with the features: support is refused exactly when there is none.\<close>

lemma core_support_agrees:
  assumes "detectKernelFeatures proc_version stat = Inr f"
  shows "CheckCORESupport proc_version stat = None \<longleftrightarrow> kf_CORESupport f \<noteq> CoreNone"
  using assms by (auto simp: CheckCORESupport_def detectKernelFeatures_def IsAtLeast_def Let_def result_iff split: sum.splits if_splits)

lemma ring_buffer_implies_core:
  "CheckRingBufferSupport proc_version p = None \<Longrightarrow> detectKernelFeatures proc_version stat = Inr f \<Longrightarrow> HasFullCORESupport f"
  by (auto simp: CheckRingBufferSupport_def check_version_def detectKernelFeatures_def HasFullCORESupport_def IsAtLeast_def Let_def
      result_iff split: sum.splits if_splits)

end
