(* ===== verification/AMSStream.thy ===== *)
theory AMSStream
  imports AMSLoader
begin

text \<open>
  How the management-service loader keeps its stream (\<open>manageStream\<close> and \<open>runStream\<close> of
  \<open>internal/config/ams.go\<close>). A run gives itself a context that ends \<open>maxStreamAge\<close> after its start and tries
  to open a stream with that context until it succeeds or the loader is closed. An attempt is its time,
  whether the service can be reached then and how long a stream opened then would last; a call whose context has
  ended fails. The loader is not closed during the attempts.
\<close>

type_synonym attempt = "instant \<times> bool \<times> duration"

definition stream_metadata :: "bytes \<Rightarrow> (bytes \<times> bytes) list" where
  "stream_metadata apiKey = (if apiKey \<noteq> [] then [(''authorization'', ''bearer '' @ apiKey)] else [])"

definition WatchConfig_ok :: "instant \<Rightarrow> attempt \<Rightarrow> bool" where
  "WatchConfig_ok deadline a = (case a of (t, reachable, _) \<Rightarrow> reachable \<and> t < deadline)"

text \<open>One run: the time of the stream it opens and the time it ends, and the attempts that are left.\<close>

fun runStream :: "instant \<Rightarrow> attempt list \<Rightarrow> (instant \<times> instant \<times> attempt list) option" where
  "runStream deadline [] = None"
| "runStream deadline (a # attempts) =
     (if WatchConfig_ok deadline a
      then (case a of (t, _, life) \<Rightarrow> Some (t, min (t + life) deadline, attempts))
      else runStream deadline attempts)"





lemma runStream_lasts:
  "runStream d as = Some (t, stop, rest) \<Longrightarrow> stop \<le> d \<and> t < d \<and> (\<exists>life. (t, True, life) \<in> set as)"
  by (induction d as rule: runStream.induct) (auto simp: WatchConfig_ok_def split: if_splits)



end
