(* ===== verification/Spec2Isabelle.thy ===== *)
theory Spec2Isabelle
  imports StoreProperties MetricsProperties ConfigProperties AgentProperties PerfProperties
    CollectorProperties ContainerProperties ExportProperties GraphProperties KubeProperties
    CloudProvider DebugConsumer ExecSnoop AgentInstance AMSStream
begin

text \<open>
  A verification library for the Antimetal system agent: a Go program that runs on every host,
  collects performance data and an inventory of resources, and streams both to a service. The
  theories model the program's own logic as executable HOL functions and prove what makes each
  part correct.

  \<^bold>\<open>Modelling conventions.\<close> A struct is a record, an enum or a oneof a datatype, an error a
  value of a sum type (\<open>Inl\<close>), a panic \<open>None\<close> or an error value of its own, a nil pointer
  \<open>None\<close>. Strings are lists of bytes (type \<open>bytes\<close>). Counters with a fixed width are words;
  an \<open>int\<close> of Go whose range cannot be exceeded is \<open>int\<close>. Floating-point results are rounded by
  \<open>Float64\<close> where the code compares or truncates them, and are rationals where it only reports
  them. Code outside the repository is an argument: the key-value database (laws \<open>kv_laws\<close>),
  the work queues, protobuf, JSON and YAML codecs, SHA-256, the Kubernetes scheme, the cloud
  services, the collector factories and the network. The content of a file, the current time,
  the order in which a Go map is traversed and the outcome of a network call are arguments too,
  and the theorems hold for all of them.

  \<^bold>\<open>How the parts interact.\<close> Collectors read \<open>/proc\<close>, \<open>/sys\<close> and the kernel; the performance
  manager starts and stops them as the config loaders tell it and merges their channels; the
  router hands every event to the consumers, which export or log it. The hardware, containers
  and Kubernetes managers write resources and relationships into the store; the intake worker
  subscribes to the store and sends its changes to the service.

  \<^bold>\<open>Parts and theories.\<close>
  \<^item> \<open>Go_Prelude\<close>: results, strings, number parsing and printing, shared by all; \<open>Float64\<close>:
    rounding to doubles; \<open>Slices\<close>: Go slices that share a backing array; \<open>Base64\<close>.
  \<^item> \<open>RingBuffer\<close> (\<open>pkg/ringbuffer\<close>), \<open>OtelConfig\<close>, \<open>OtelConsumer\<close>, \<open>OtelTransformer\<close>,
    \<open>ExportLogic\<close>, \<open>OtelLogs\<close> (\<open>internal/metrics/consumers/otel\<close>), \<open>DebugConsumer\<close>
    (\<open>internal/metrics/consumers/debug\<close>) and \<open>MetricsRouter\<close> (\<open>internal/metrics\<close>): the metrics
    pipeline. The locales \<open>bounded_buffer\<close> and \<open>metric_consumer\<close> are its interfaces, interpreted
    on the ring buffer and on both consumers.
  \<^item> \<open>ResourceKey\<close>, \<open>StoreIndex\<close>, \<open>StoreEvents\<close>, \<open>ResourceStore\<close>, \<open>StoreLaws\<close>
    (\<open>internal/resource/store\<close>): the inventory of resources and relationships, its indexes and
    its subscribers. \<open>rels_inv\<close> is its invariant.
  \<^item> \<open>GraphStore\<close>: the store as its writers see it, the locale \<open>graph_store\<close>; every store over
    a database with the laws is one (sublocale of \<open>store_env\<close>). \<open>HostIdentity\<close> (\<open>pkg/host\<close>),
    \<open>HardwareInfo\<close> (the \<open>_info\<close> collectors), \<open>HardwareGraph\<close>, \<open>HardwareManager\<close>
    (\<open>internal/hardware\<close>), \<open>ContainerMetadata\<close> (\<open>pkg/containers/metadata.go\<close>), \<open>ContainerGraph\<close>,
    \<open>ContainersManager\<close> (\<open>internal/containers\<close>): the writers of hosts and containers.
  \<^item> \<open>KubeAgent\<close> (\<open>internal/kubernetes/agent\<close>): messages, resources and relationships of
    Kubernetes objects, the indexer, the work queue and the controller. \<open>KubeIndex\<close>: the locales
    \<open>kube_store\<close>, \<open>kube_indexer\<close> and \<open>kube_agent\<close>, from the writes of one object to a run of the
    controller on the real store. \<open>CloudProvider\<close> (\<open>internal/kubernetes/cluster\<close>, \<open>pkg/aws\<close>).
  \<^item> \<open>ConfigTypes\<close>, \<open>ConfigLoader\<close>, \<open>FSLoader\<close>, \<open>TtlHeap\<close>, \<open>AMSLoader\<close>, \<open>AMSStream\<close>
    (\<open>internal/config\<close>): remote configuration. The locale \<open>config_loader\<close> is the contract of both
    loaders; \<open>AMSStream\<close> is the life of the stream to the service.
  \<^item> \<open>Performance\<close> (\<open>pkg/performance\<close>), \<open>ChannelMerger\<close> (\<open>pkg/channel\<close>; locale
    \<open>fifo_pipeline\<close>), \<open>PerfManager\<close> (\<open>internal/perf/manager\<close>) and \<open>ConfigPipeline\<close>: the
    collection framework and the collectors' way from a config file to the router.
  \<^item> \<open>HostFiles\<close> (files, scanning, the locale \<open>delta_collector\<close>), \<open>TcpCollector\<close>,
    \<open>CpuCollector\<close>, \<open>MemoryCollector\<close>, \<open>DiskNetworkCollectors\<close>, \<open>NumaLoadCollectors\<close>,
    \<open>ProcessCollector\<close>, \<open>KernelCollector\<close>, \<open>Containers\<close>, \<open>CgroupCollectors\<close> (locale
    \<open>container_collector\<close>) and \<open>ExecSnoop\<close>, the last with the eBPF program that feeds it
    (\<open>pkg/performance/collectors\<close>, \<open>pkg/proc\<close>, \<open>pkg/containers\<close>, \<open>ebpf/src\<close>). \<open>HostParsers\<close>:
    \<open>pkg/cpu\<close> and \<open>pkg/kernel\<close>.
  \<^item> \<open>IntakeWorker\<close> (\<open>internal/intake\<close>): batching and sending of inventory changes.
    \<open>AgentInstance\<close> (\<open>internal/runtime\<close>, \<open>pkg/ebpf/core\<close>): what the agent tells of itself.
  \<^item> The theories named \<open>...Properties\<close>, and this one: the properties, each with a witness at a
    concrete input.

  \<^bold>\<open>What the lemmas show.\<close> The store: what is read after a write, exact relationship queries,
  cascading deletes, event routing, searches that end. Its writers: a build leaves a closed
  graph whose relationships refer to stored resources; the Kubernetes controller stores every
  object of a run once nothing waits, and the two ways in which it does not. The metrics
  pipeline: the buffer refines the list of the latest events, no notification is lost, every
  event is counted, what is exported of it. The loaders: the last valid config stays readable,
  versions only grow, acknowledged configs are in force, expiry in the order of deadlines, a
  stream is reopened only while its first context lives. The collectors: what two collections
  report, resets, rates, which containers and processes are reported. The worker: no delta is
  lost or duplicated. Several theorems state where the code departs from its documentation.

  \<^bold>\<open>Bounds and fuel.\<close> Loops are total functions with a termination proof. One has an explicit
  number of rounds: \<open>search_loop\<close> is the binary search of the code in an index entry cut off after
  \<open>k\<close> rounds; for an entry of fewer than \<open>2 ^ k\<close> objects it ends with the result of the total
  function \<open>find_obj\<close> that the model uses. Endless loops (the controller's worker, the stream
  manager, the collectors' goroutines) are runs over a list of what happens to them. Channels
  are unbounded lists unless their capacity matters: a send to a full Go channel waits, so what
  is received and in which order is the same.

  \<^bold>\<open>Not modelled.\<close> The command (\<open>cmd\<close>: flags and wiring); the config manager, which hands each
  call to a loader; gRPC connections and TLS; the set-up of the OpenTelemetry SDK; the
  registration of the controller and the wait for its caches (controller-runtime); the
  Kubernetes scheme; stubs for other systems; mocks, tools and generated protobuf accessors;
  the loading of eBPF programs; logging, except where a consumer's purpose is to log.
\<close>

section \<open>From a config file to a running collector\<close>




end
